(* ===== verification/Prelude.thy ===== *)
theory Prelude
  imports Main "HOL-Library.Word"
begin

text \<open>
  Shared types, combinators and automation of the development.

  \<^item> Rust integers are words (\<open>8 word\<close> for \<open>u8\<close>, \<open>16 word\<close> for \<open>u16\<close>, ...); \<open>usize\<close>
    values are lengths and offsets of buffers in memory and are modelled as \<open>nat\<close>.
  \<^item> A Rust \<open>str\<close> is its UTF-8 byte sequence. It is a \<open>string\<close> here, one HOL \<open>char\<close>
    (eight bits) per UTF-8 byte; \<open>as_bytes\<close> is the conversion of the same name.
  \<^item> \<open>Result<T, E>\<close> is the sum \<open>'e + 't\<close>; \<open>rbind\<close> is the \<open>?\<close> operator.
  \<^item> \<open>holds_at\<close> says that a byte string lies at an offset of a buffer; the cursor-style
    readers of the code are specified with it, and the locale \<open>cursor_reader\<close> is the
    contract they share.
\<close>

unbundle bit_operations_syntax

named_theorems result_simps

section \<open>Bytes and text\<close>

type_synonym byte = "8 word"
type_synonym u8 = "8 word"
type_synonym u16 = "16 word"
type_synonym u32 = "32 word"
type_synonym u64 = "64 word"

abbreviation code_of :: "char \<Rightarrow> nat" where
  "code_of c \<equiv> (of_char c :: nat)"

definition byte_of_char :: "char \<Rightarrow> byte" where
  "byte_of_char c = word_of_nat (code_of c)"

definition char_of_byte :: "byte \<Rightarrow> char" where
  "char_of_byte b = char_of (unat b)"

definition as_bytes :: "string \<Rightarrow> byte list" where
  "as_bytes s = map byte_of_char s"

definition of_bytes :: "byte list \<Rightarrow> string" where
  "of_bytes bs = map char_of_byte bs"

lemma code_of_less [simp]: "code_of c < 256"
  by (rule nat_of_char_less_256)

lemma unat_byte_less [simp]: "unat (b :: byte) < 256"
  by (rule order_less_le_trans [OF unsigned_less]) simp

lemma unat_byte_of_char [simp]: "unat (byte_of_char c) = code_of c"
  by (simp add: byte_of_char_def unat_of_nat)

lemma char_of_byte_of_char [simp]: "char_of_byte (byte_of_char c) = c"
  by (simp add: char_of_byte_def)

lemma byte_of_char_of_byte [simp]: "byte_of_char (char_of_byte b) = b"
  by (simp add: char_of_byte_def byte_of_char_def)

lemma code_of_char_of_byte [simp]: "code_of (char_of_byte b) = unat b"
  by (simp add: char_of_byte_def)

lemma length_as_bytes [simp]: "length (as_bytes s) = length s"
  by (simp add: as_bytes_def)

lemma length_of_bytes [simp]: "length (of_bytes s) = length s"
  by (simp add: of_bytes_def)

lemma as_bytes_of_bytes [simp]: "as_bytes (of_bytes bs) = bs"
  by (simp add: as_bytes_def of_bytes_def comp_def)

lemma of_bytes_as_bytes [simp]: "of_bytes (as_bytes s) = s"
  by (simp add: as_bytes_def of_bytes_def comp_def)

lemma as_bytes_append [simp]: "as_bytes (s @ t) = as_bytes s @ as_bytes t"
  by (simp add: as_bytes_def)

text \<open>The ASCII classes of the standard library (\<open>u8::is_ascii_digit\<close> and friends).\<close>

definition is_ascii_digit :: "char \<Rightarrow> bool" where
  "is_ascii_digit c \<longleftrightarrow> 48 \<le> code_of c \<and> code_of c \<le> 57"

definition is_ascii_graphic :: "char \<Rightarrow> bool" where
  "is_ascii_graphic c \<longleftrightarrow> 33 \<le> code_of c \<and> code_of c \<le> 126"

definition digit_val :: "char \<Rightarrow> nat" where
  "digit_val c = code_of c - 48"

definition digit_char :: "nat \<Rightarrow> char" where
  "digit_char d = char_of (48 + d)"

text \<open>A lower-case hexadecimal digit.\<close>

definition hex_digit :: "nat \<Rightarrow> char" where
  "hex_digit d = (if d < 10 then digit_char d else char_of (87 + d))"

lemma digit_char_props:
  assumes "d < 10"
  shows "is_ascii_digit (digit_char d)" and "digit_val (digit_char d) = d"
  using assms by (simp_all add: digit_char_def is_ascii_digit_def digit_val_def)

definition lower_byte :: "byte \<Rightarrow> byte" where
  "lower_byte b = (if 65 \<le> unat b \<and> unat b \<le> 90 then b + 32 else b)"

definition lower_char :: "char \<Rightarrow> char" where
  "lower_char c = (if 65 \<le> code_of c \<and> code_of c \<le> 90 then char_of (code_of c + 32) else c)"

lemma unat_lower_byte:
  "unat (lower_byte b) = (if 65 \<le> unat b \<and> unat b \<le> 90 then unat b + 32 else unat b)"
  by (auto simp: lower_byte_def unat_word_ariths)

lemma lower_byte_idem [simp]: "lower_byte (lower_byte b) = lower_byte b"
  by (rule word_unat_eq_iff [THEN iffD2]) (auto simp: unat_lower_byte)

lemma lower_char_of_byte: "lower_char (char_of_byte b) = char_of_byte (lower_byte b)"
  by (simp add: lower_char_def char_of_byte_def unat_lower_byte)

abbreviation newline :: string where
  "newline \<equiv> [CHR 0x0A]"

text \<open>Decimal text of a number (\<open>Display\<close> of the unsigned integer types).\<close>

fun show_nat :: "nat \<Rightarrow> string" where
  "show_nat n = (if n < 10 then [digit_char n] else show_nat (n div 10) @ [digit_char (n mod 10)])"

declare show_nat.simps [simp del]

text \<open>\<open>core::str::from_utf8\<close>: the well-formed UTF-8 byte sequences of the Unicode standard.\<close>

definition utf8_cont :: "byte \<Rightarrow> bool" where
  "utf8_cont b \<longleftrightarrow> 128 \<le> unat b \<and> unat b \<le> 191"

definition byte_in :: "nat \<Rightarrow> nat \<Rightarrow> byte \<Rightarrow> bool" where
  "byte_in lo hi b \<longleftrightarrow> lo \<le> unat b \<and> unat b \<le> hi"

definition utf8_second :: "byte \<Rightarrow> byte \<Rightarrow> bool" where
  "utf8_second b0 b1 \<longleftrightarrow>
     (if b0 = 0xE0 then byte_in 0xA0 0xBF b1
      else if b0 = 0xED then byte_in 0x80 0x9F b1
      else if b0 = 0xF0 then byte_in 0x90 0xBF b1
      else if b0 = 0xF4 then byte_in 0x80 0x8F b1
      else utf8_cont b1)"

fun utf8_valid :: "byte list \<Rightarrow> bool" where
  "utf8_valid [] = True"
| "utf8_valid (b0 # rest) =
     (if unat b0 < 128 then utf8_valid rest
      else if byte_in 0xC2 0xDF b0 then
        (case rest of b1 # r \<Rightarrow> utf8_cont b1 \<and> utf8_valid r | _ \<Rightarrow> False)
      else if byte_in 0xE0 0xEF b0 then
        (case rest of b1 # b2 # r \<Rightarrow> utf8_second b0 b1 \<and> utf8_cont b2 \<and> utf8_valid r | _ \<Rightarrow> False)
      else if byte_in 0xF0 0xF4 b0 then
        (case rest of b1 # b2 # b3 # r \<Rightarrow>
            utf8_second b0 b1 \<and> utf8_cont b2 \<and> utf8_cont b3 \<and> utf8_valid r
          | _ \<Rightarrow> False)
      else False)"

lemma utf8_valid_ascii: "\<forall>b\<in>set bs. unat b < 128 \<Longrightarrow> utf8_valid bs"
  by (induction bs) auto

section \<open>Results\<close>

fun rbind :: "'e + 'a \<Rightarrow> ('a \<Rightarrow> 'e + 'b) \<Rightarrow> 'e + 'b" where
  "rbind (Inl e) f = Inl e"
| "rbind (Inr x) f = f x"

fun map_err :: "('e \<Rightarrow> 'f) \<Rightarrow> 'e + 'a \<Rightarrow> 'f + 'a" where
  "map_err f (Inl e) = Inl (f e)"
| "map_err f (Inr x) = Inr x"

fun rmap :: "('a \<Rightarrow> 'b) \<Rightarrow> 'e + 'a \<Rightarrow> 'e + 'b" where
  "rmap f (Inl e) = Inl e"
| "rmap f (Inr x) = Inr (f x)"

fun ok_or :: "'e \<Rightarrow> 'a option \<Rightarrow> 'e + 'a" where
  "ok_or e None = Inl e"
| "ok_or e (Some x) = Inr x"

fun is_ok :: "'e + 'a \<Rightarrow> bool" where
  "is_ok (Inl e) = False"
| "is_ok (Inr x) = True"

lemma rbind_cong [fundef_cong]:
  "m = m' \<Longrightarrow> (\<And>x. m' = Inr x \<Longrightarrow> f x = f' x) \<Longrightarrow> rbind m f = rbind m' f'"
  by (cases m') auto

lemma rbind_eq_Inr [result_simps]: "rbind m f = Inr y \<longleftrightarrow> (\<exists>x. m = Inr x \<and> f x = Inr y)"
  by (cases m) auto

lemma rmap_eq_Inr [result_simps]: "rmap f m = Inr y \<longleftrightarrow> (\<exists>x. m = Inr x \<and> y = f x)"
  by (cases m) auto

lemma map_err_eq_Inr [result_simps]: "map_err f m = Inr y \<longleftrightarrow> m = Inr y"
  by (cases m) auto

lemma ok_or_eq_Inr [result_simps]: "ok_or e m = Inr y \<longleftrightarrow> m = Some y"
  by (cases m) auto

lemma is_ok_iff [result_simps]: "is_ok m \<longleftrightarrow> (\<exists>x. m = Inr x)"
  by (cases m) auto

lemma rmap_rmap [simp]: "rmap f (rmap g m) = rmap (\<lambda>x. f (g x)) m"
  by (cases m) auto

lemma if_Inl_eq_Inr [result_simps]:
  "(if b then Inl e else m) = Inr y \<longleftrightarrow> \<not> b \<and> m = Inr y"
  by auto

text \<open>\<open>iter().map(f).collect::<Result<Vec<_>, _>>()\<close>: the first error wins.\<close>

fun rmap_list :: "('a \<Rightarrow> 'e + 'b) \<Rightarrow> 'a list \<Rightarrow> 'e + 'b list" where
  "rmap_list f [] = Inr []"
| "rmap_list f (x # xs) = rbind (f x) (\<lambda>y. rmap (Cons y) (rmap_list f xs))"

lemma rmap_list_Inr: "rmap_list f xs = Inr ys \<longleftrightarrow> list_all2 (\<lambda>x y. f x = Inr y) xs ys"
  by (induction xs arbitrary: ys) (auto simp: result_simps list_all2_Cons1)

section \<open>Big-endian integers\<close>

fun to_be :: "nat \<Rightarrow> nat \<Rightarrow> byte list" where
  "to_be 0 n = []"
| "to_be (Suc k) n = to_be k (n div 256) @ [word_of_nat n]"

definition of_be :: "byte list \<Rightarrow> nat" where
  "of_be bs = foldl (\<lambda>a b. a * 256 + unat b) 0 bs"

lemma length_to_be [simp]: "length (to_be k n) = k"
  by (induction k arbitrary: n) auto

lemma to_be_add: "to_be (k + j) n = to_be k (n div 256 ^ j) @ to_be j n"
  by (induction j arbitrary: n) (simp_all add: div_mult2_eq)

lemma unat_word_of_nat:
  "n < 256 \<Longrightarrow> unat (word_of_nat n :: u8) = n"
  "n < 65536 \<Longrightarrow> unat (word_of_nat n :: u16) = n"
  "n < 4294967296 \<Longrightarrow> unat (word_of_nat n :: u32) = n"
  by (simp_all add: unat_of_nat)

lemma of_be_Nil [simp]: "of_be [] = 0"
  by (simp add: of_be_def)

lemma of_be_snoc [simp]: "of_be (bs @ [b]) = of_be bs * 256 + unat b"
  by (simp add: of_be_def)

lemma of_be_less: "of_be bs < 256 ^ length bs"
proof (induction bs rule: rev_induct)
  case Nil
  then show ?case by simp
next
  case (snoc b bs)
  have "of_be bs * 256 + unat b < of_be bs * 256 + 256" by simp
  also have "\<dots> = (of_be bs + 1) * 256" by simp
  also have "\<dots> \<le> 256 ^ length bs * 256"
    using snoc by (intro mult_right_mono) simp_all
  finally show ?case by (simp add: mult.commute)
qed

lemma of_be_to_be: "of_be (to_be k n) = n mod 256 ^ k"
proof (induction k arbitrary: n)
  case 0
  then show ?case by simp
next
  case (Suc k)
  have "of_be (to_be (Suc k) n) = (n div 256) mod 256 ^ k * 256 + n mod 256"
    by (simp add: Suc unat_of_nat)
  also have "\<dots> = n mod (256 * 256 ^ k)"
    by (simp only: mod_mult2_eq)
  finally show ?case by simp
qed

lemma to_be_of_be: "to_be (length bs) (of_be bs) = bs"
proof (induction bs rule: rev_induct)
  case Nil
  then show ?case by simp
next
  case (snoc b bs)
  have "(of_be bs * 256 + unat b) div 256 = of_be bs" by simp
  moreover have "(word_of_nat (of_be bs * 256 + unat b) :: byte) = b"
    by (simp add: word_unat_eq_iff unat_of_nat del: of_nat_add of_nat_mult)
  ultimately show ?case using snoc by simp
qed

definition u16_be :: "u16 \<Rightarrow> byte list" where "u16_be w = to_be 2 (unat w)"
definition u32_be :: "u32 \<Rightarrow> byte list" where "u32_be w = to_be 4 (unat w)"
definition u64_be :: "u64 \<Rightarrow> byte list" where "u64_be w = to_be 8 (unat w)"

definition u16_of_be :: "byte list \<Rightarrow> u16" where "u16_of_be bs = word_of_nat (of_be bs)"
definition u32_of_be :: "byte list \<Rightarrow> u32" where "u32_of_be bs = word_of_nat (of_be bs)"
definition u64_of_be :: "byte list \<Rightarrow> u64" where "u64_of_be bs = word_of_nat (of_be bs)"

lemma length_uN_be [simp]:
  "length (u16_be a) = 2" "length (u32_be b) = 4" "length (u64_be c) = 8"
  by (simp_all add: u16_be_def u32_be_def u64_be_def)

lemma unat_bounds:
  "unat (a :: u16) < 65536" "unat (b :: u32) < 4294967296" "unat (c :: u64) < 18446744073709551616"
  by (rule order_less_le_trans [OF unsigned_less], simp)+

lemma uN_of_be_inv [simp]:
  "u16_of_be (u16_be a) = a" "u32_of_be (u32_be b) = b" "u64_of_be (u64_be c) = c"
  by (simp_all add: u16_of_be_def u32_of_be_def u64_of_be_def u16_be_def u32_be_def u64_be_def
      of_be_to_be unat_bounds)

lemma unat_uN_of_be:
  "length as = 2 \<Longrightarrow> unat (u16_of_be as) = of_be as"
  "length bs = 4 \<Longrightarrow> unat (u32_of_be bs) = of_be bs"
  using of_be_less [of as] of_be_less [of bs]
  by (simp_all add: u16_of_be_def u32_of_be_def unat_of_nat)

lemma uN_be_inv:
  "length as = 2 \<Longrightarrow> u16_be (u16_of_be as) = as"
  "length bs = 4 \<Longrightarrow> u32_be (u32_of_be bs) = bs"
  using to_be_of_be [of as] to_be_of_be [of bs]
  by (simp_all add: u16_be_def u32_be_def unat_uN_of_be)

section \<open>Buffers and cursors\<close>

text \<open>\<open>&buf[i..i + n]\<close>, where the code has checked the bounds.\<close>

definition slice :: "'a list \<Rightarrow> nat \<Rightarrow> nat \<Rightarrow> 'a list" where
  "slice bs i n = take n (drop i bs)"

definition u16_at :: "byte list \<Rightarrow> nat \<Rightarrow> u16" where
  "u16_at bs i = u16_of_be (slice bs i 2)"

definition u32_at :: "byte list \<Rightarrow> nat \<Rightarrow> u32" where
  "u32_at bs i = u32_of_be (slice bs i 4)"

definition holds_at :: "'a list \<Rightarrow> nat \<Rightarrow> 'a list \<Rightarrow> bool" where
  "holds_at data i x \<longleftrightarrow> i + length x \<le> length data \<and> slice data i (length x) = x"

lemma length_slice: "i + n \<le> length bs \<Longrightarrow> length (slice bs i n) = n"
  by (simp add: slice_def)

lemma holds_at_iff: "holds_at data i x \<longleftrightarrow> (\<exists>pre post. data = pre @ x @ post \<and> length pre = i)"
proof
  assume "holds_at data i x"
  then have "i + length x \<le> length data" and "take (length x) (drop i data) = x"
    by (auto simp: holds_at_def slice_def)
  then have "data = take i data @ x @ drop (length x) (drop i data)"
    by (metis append_take_drop_id)
  with \<open>i + length x \<le> length data\<close> show "\<exists>pre post. data = pre @ x @ post \<and> length pre = i"
    by (metis add_leD1 length_take min.absorb2)
next
  assume "\<exists>pre post. data = pre @ x @ post \<and> length pre = i"
  then show "holds_at data i x" by (auto simp: holds_at_def slice_def)
qed

lemma holds_at_self [simp]: "holds_at x 0 x"
  by (simp add: holds_at_def slice_def)

lemma holds_at_Nil [simp]: "holds_at data i [] \<longleftrightarrow> i \<le> length data"
  by (simp add: holds_at_def slice_def)

lemma holds_at_append:
  "holds_at data i (x @ y) \<longleftrightarrow> holds_at data i x \<and> holds_at data (i + length x) y"
proof
  assume "holds_at data i (x @ y)"
  then obtain pre post where "data = pre @ (x @ y) @ post" "length pre = i"
    by (auto simp: holds_at_iff)
  then show "holds_at data i x \<and> holds_at data (i + length x) y"
    by (auto simp: holds_at_def slice_def)
next
  assume a: "holds_at data i x \<and> holds_at data (i + length x) y"
  then obtain pre post where d: "data = pre @ x @ post" "length pre = i"
    by (auto simp: holds_at_iff)
  with a have "take (length y) post = y" "length y \<le> length post"
    by (auto simp: holds_at_def slice_def)
  with d show "holds_at data i (x @ y)"
    by (auto simp: holds_at_def slice_def)
qed

lemma holds_at_Cons:
  "holds_at data i (b # y) \<longleftrightarrow> i < length data \<and> data ! i = b \<and> holds_at data (Suc i) y"
proof -
  have "holds_at data i (b # y) \<longleftrightarrow> holds_at data i [b] \<and> holds_at data (i + 1) y"
    using holds_at_append [of data i "[b]" y] by simp
  moreover have "holds_at data i [b] \<longleftrightarrow> i < length data \<and> data ! i = b"
    by (auto simp: holds_at_def slice_def take_Suc_conv_app_nth hd_drop_conv_nth
        take_Suc dest: Suc_le_lessD)
  ultimately show ?thesis by auto
qed

lemma holds_atD:
  "holds_at data i x \<Longrightarrow> i + length x \<le> length data"
  "holds_at data i x \<Longrightarrow> slice data i (length x) = x"
  by (simp_all add: holds_at_def)

lemma holds_at_prefix: "holds_at data i x \<Longrightarrow> holds_at (data @ more) i x"
  by (metis append.assoc holds_at_iff)

lemma holds_at_u16: "holds_at data i (u16_be w) \<Longrightarrow> u16_at data i = w \<and> i + 2 \<le> length data"
  by (auto simp: holds_at_def u16_at_def)

lemma holds_at_u32: "holds_at data i (u32_be w) \<Longrightarrow> u32_at data i = w \<and> i + 4 \<le> length data"
  by (auto simp: holds_at_def u32_at_def)

text \<open>
  The contract of a cursor-style reader: started at an offset where an encoding lies, it
  returns a value that belongs to it and the offset behind it. \<open>read_seq\<close> is a reader in a
  counted loop.
\<close>

fun read_seq :: "(byte list \<Rightarrow> nat \<Rightarrow> 'e + 'b \<times> nat) \<Rightarrow> nat \<Rightarrow> byte list \<Rightarrow> nat \<Rightarrow> 'e + 'b list \<times> nat" where
  "read_seq read 0 data i = Inr ([], i)"
| "read_seq read (Suc n) data i =
     rbind (read data i) (\<lambda>(y, j). rmap (\<lambda>(ys, k). (y # ys, k)) (read_seq read n data j))"

locale cursor_reader =
  fixes enc :: "'a \<Rightarrow> byte list"
    and read :: "byte list \<Rightarrow> nat \<Rightarrow> 'e + 'b \<times> nat"
    and rel :: "'a \<Rightarrow> 'b \<Rightarrow> bool"
    and valid :: "'a \<Rightarrow> bool"
  assumes read_enc: "valid x \<Longrightarrow> holds_at data i (enc x) \<Longrightarrow>
    \<exists>y. read data i = Inr (y, i + length (enc x)) \<and> rel x y"
begin

lemma read_whole: "valid x \<Longrightarrow> \<exists>y. read (enc x) 0 = Inr (y, length (enc x)) \<and> rel x y"
  using read_enc [of x "enc x" 0] by simp

lemma read_prefix_stable:
  assumes "valid x" and "holds_at data i (enc x)"
  shows "\<exists>y. read (data @ more) i = Inr (y, i + length (enc x)) \<and> rel x y"
  using assms by (blast intro: read_enc holds_at_prefix)

lemma read_seq_enc:
  assumes "list_all valid xs" and "holds_at data i (concat (map enc xs))"
  shows "\<exists>ys. read_seq read (length xs) data i = Inr (ys, i + length (concat (map enc xs)))
    \<and> list_all2 rel xs ys"
  using assms
proof (induction xs arbitrary: i)
  case Nil
  then show ?case by simp
next
  case (Cons x xs)
  then have "valid x" and here: "holds_at data i (enc x)"
    and rest: "holds_at data (i + length (enc x)) (concat (map enc xs))"
    by (auto simp: holds_at_append)
  with read_enc obtain y where "read data i = Inr (y, i + length (enc x))" and "rel x y"
    by blast
  moreover from Cons.IH [OF _ rest] Cons.prems obtain ys where
    "read_seq read (length xs) data (i + length (enc x))
       = Inr (ys, i + length (enc x) + length (concat (map enc xs)))" and "list_all2 rel xs ys"
    by auto
  ultimately show ?case
    by (intro exI [of _ "y # ys"]) (simp add: add.assoc)
qed

end

section \<open>Machines\<close>

text \<open>
  Feeding inputs to a step function that changes a state, emits outputs or fails. The locale
  is the contract of an invariant that relates the state to everything read and emitted so
  far; every state machine of the code is run through it.
\<close>

fun run_steps :: "('s \<Rightarrow> 'i \<Rightarrow> 'e + 's \<times> 'o list) \<Rightarrow> 's \<Rightarrow> 'i list \<Rightarrow> 'e + 's \<times> 'o list" where
  "run_steps step s [] = Inr (s, [])"
| "run_steps step s (i # is) =
     rbind (step s i) (\<lambda>(s', os). rmap (\<lambda>(s'', os'). (s'', os @ os')) (run_steps step s' is))"

lemma run_steps_append:
  "run_steps step s (is @ js) =
     rbind (run_steps step s is) (\<lambda>(s', os). rmap (\<lambda>(s'', os'). (s'', os @ os')) (run_steps step s' js))"
proof (induction "is" arbitrary: s)
  case Nil
  then show ?case by (cases "run_steps step s js") auto
next
  case (Cons i "is")
  show ?case
  proof (cases "step s i")
    case (Inr r)
    obtain s' os where r: "r = (s', os)" by (cases r)
    then show ?thesis
      using Inr by (cases "run_steps step s' is"; auto simp: Cons.IH split: prod.splits)
        (cases "run_steps step (fst (projr (run_steps step s' is))) js"; auto)
  qed simp
qed

locale step_machine =
  fixes step :: "'s \<Rightarrow> 'i \<Rightarrow> 'e + 's \<times> 'o list"
    and inv :: "'s \<Rightarrow> 'i list \<Rightarrow> 'o list \<Rightarrow> bool"
  assumes step_inv: "inv s is os \<Longrightarrow> step s i = Inr (s', os') \<Longrightarrow> inv s' (is @ [i]) (os @ os')"
begin

lemma run_inv:
  "inv s is os \<Longrightarrow> run_steps step s js = Inr (s', os') \<Longrightarrow> inv s' (is @ js) (os @ os')"
proof (induction js arbitrary: s "is" os os')
  case (Cons j js)
  then obtain t u v where "step s j = Inr (t, u)" "run_steps step t js = Inr (s', v)" "os' = u @ v"
    by (auto simp: rbind_eq_Inr rmap_eq_Inr)
  with Cons.IH [of t "is @ [j]" "os @ u" v] step_inv [OF Cons.prems(1)] show ?case by simp
qed simp

lemma run_from_start: "inv s [] [] \<Longrightarrow> run_steps step s js = Inr (s', os) \<Longrightarrow> inv s' js os"
  using run_inv [of s "[]" "[]"] by simp

end

section \<open>The contracts of \<open>Eq\<close> and \<open>Hash\<close>\<close>

locale eq_contract =
  fixes eq :: "'a \<Rightarrow> 'a \<Rightarrow> bool"
  assumes eq_refl: "eq x x"
    and eq_sym: "eq x y \<Longrightarrow> eq y x"
    and eq_trans: "eq x y \<Longrightarrow> eq y z \<Longrightarrow> eq x z"
begin

lemma eq_commute: "eq x y \<longleftrightarrow> eq y x"
  by (blast intro: eq_sym)

lemma eq_class: "eq x y \<Longrightarrow> eq x z \<longleftrightarrow> eq y z"
  by (blast intro: eq_sym eq_trans)

lemma eq_class_left: "eq x y \<Longrightarrow> eq z x \<longleftrightarrow> eq z y"
  by (blast intro: eq_sym eq_trans)

lemma list_ex_class: "eq x y \<Longrightarrow> list_ex (eq x) zs \<longleftrightarrow> list_ex (eq y) zs"
  using eq_class by (auto simp: list_ex_iff)

end

locale hash_contract = eq_contract eq for eq :: "'a \<Rightarrow> 'a \<Rightarrow> bool" +
  fixes hash_of :: "'a \<Rightarrow> 'h"
  assumes hash_respects_eq: "eq x y \<Longrightarrow> hash_of x = hash_of y"
begin

lemma hash_class: "hash_of x \<noteq> hash_of y \<Longrightarrow> \<not> eq x y"
  by (blast dest: hash_respects_eq)

end

end
