(* ===== verification/Errors.thy ===== *)
theory Errors
  imports Prelude
begin

text \<open>
  The error type of \<open>bind9-sdk-core\<close> (\<open>error.rs\<close>) with the \<open>Display\<close> text that \<open>thiserror\<close> derives for the core errors. Every early
  return of the modelled code is an \<open>Inl\<close> of one of these values. Messages are the text of
  the source with the interpolated values; where the interpolated part is the text of an
  error of another library (an integer or UTF-8 error) it is left out.
\<close>

datatype core_error =
    InvalidName (err_name: string) (err_reason: string)
  | InvalidLabel string
  | InvalidRecord string
  | ZoneParse (err_line: u32) (err_column: "u32 option") (err_zone_reason: string)
  | NamedConfParse (err_path: string) (err_conf_line: u32) (err_conf_reason: string)
  | WireFormat string
  | Tsig string

fun core_error_display :: "core_error \<Rightarrow> string" where
  "core_error_display (InvalidName n r) = ''invalid domain name `'' @ n @ ''`: '' @ r"
| "core_error_display (InvalidLabel m) = ''invalid label: '' @ m"
| "core_error_display (InvalidRecord m) = ''invalid record data: '' @ m"
| "core_error_display (ZoneParse l c r) =
     ''zone parse error at line '' @ show_nat (unat l)
       @ (case c of None \<Rightarrow> '''' | Some k \<Rightarrow> '', column '' @ show_nat (unat k)) @ '': '' @ r"
| "core_error_display (NamedConfParse p l r) =
     ''named.conf parse error in `'' @ p @ ''` at line '' @ show_nat (unat l) @ '': '' @ r"
| "core_error_display (WireFormat m) = ''wire format error: '' @ m"
| "core_error_display (Tsig m) = ''TSIG error: '' @ m"

end
