(* ===== verification/Domain_Name.thy ===== *)
theory Domain_Name
  imports Errors
begin

text \<open>
  \<open>domain.rs\<close>: labels and domain names. A label keeps the text it was written with
  (\<open>label_inner\<close>) and the octets it stands for (\<open>label_wire\<close>); a domain name is the list of
  its labels, without the root. The loops over byte positions are recursions on the text
  that is left to read; \<open>pos + 3 < bytes.len()\<close> is "three more bytes follow".
\<close>

section \<open>Labels\<close>

record label =
  label_inner :: string
  label_wire :: "byte list"

text \<open>
  The look-ahead of the escape \<open>\DDD\<close>: three digits follow the backslash. The value is
  what the code computes in \<open>u16\<close> (at most 999, so it cannot wrap).
\<close>

fun ddd_escape :: "string \<Rightarrow> (nat \<times> string) option" where
  "ddd_escape (a # b # c # rest) =
     (if is_ascii_digit a \<and> is_ascii_digit b \<and> is_ascii_digit c
      then Some (digit_val a * 100 + digit_val b * 10 + digit_val c, rest) else None)"
| "ddd_escape _ = None"

abbreviation backslash :: char where
  "backslash \<equiv> CHR 0x5C"

abbreviation dot :: char where
  "dot \<equiv> CHR ''.''"

lemma ddd_escape_shorter: "ddd_escape s = Some (v, r) \<Longrightarrow> length r < length s"
  by (cases s rule: ddd_escape.cases) (auto split: if_splits)

lemma ddd_escape_no_digit: "\<not> is_ascii_digit c \<Longrightarrow> ddd_escape (c # rest) = None"
  by (cases "c # rest" rule: ddd_escape.cases) auto

function decode_label_from :: "string \<Rightarrow> string \<Rightarrow> core_error + byte list" where
  "decode_label_from full [] = Inr []"
| "decode_label_from full (c # rest) =
     (if c = backslash then
        (if rest = [] then
           Inl (InvalidLabel (''label ends with incomplete escape: `'' @ full @ ''`''))
         else (case ddd_escape rest of
             Some (v, rest') \<Rightarrow>
               (if v > 255 then
                  Inl (InvalidLabel (''decimal escape exceeds 255 in label: `'' @ full @ ''`''))
                else rmap (Cons (word_of_nat v)) (decode_label_from full rest'))
           | None \<Rightarrow> rmap (Cons (byte_of_char (hd rest))) (decode_label_from full (tl rest))))
      else if \<not> is_ascii_graphic c \<or> c = dot then
        Inl (InvalidLabel (''label contains invalid character: `'' @ full @ ''`''))
      else rmap (Cons (byte_of_char c)) (decode_label_from full rest))"
  by pat_completeness auto
termination
  by (relation "measure (\<lambda>(full, s). length s)") (auto dest: ddd_escape_shorter)

definition decode_label :: "string \<Rightarrow> core_error + byte list" where
  "decode_label s = decode_label_from s s"

definition label_new :: "string \<Rightarrow> core_error + label" where
  "label_new s =
     (if s = [] then Inl (InvalidLabel ''label is empty'')
      else rbind (decode_label s) (\<lambda>decoded.
        if length decoded > 63 then
          Inl (InvalidLabel (''label exceeds 63 bytes: '' @ show_nat (length decoded) @ '' bytes''))
        else Inr \<lparr>label_inner = s, label_wire = decoded\<rparr>))"

definition label_len :: "label \<Rightarrow> nat" where
  "label_len l = length (label_wire l)"

definition label_is_empty :: "label \<Rightarrow> bool" where
  "label_is_empty l \<longleftrightarrow> label_inner l = []"

section \<open>Domain names\<close>

record domain_name =
  labels :: "label list"

text \<open>
  \<open>split_domain_labels\<close>: \<open>cur\<close> is the text between \<open>start\<close> and \<open>pos\<close>; the flag is
  \<open>start == name.len()\<close> at the end.
\<close>

function split_from :: "string \<Rightarrow> string \<Rightarrow> string \<Rightarrow> core_error + string list \<times> bool" where
  "split_from name cur [] = Inr (if cur = [] then ([], True) else ([cur], False))"
| "split_from name cur (c # rest) =
     (if c = backslash then
        (if rest = [] then Inl (InvalidName name ''name ends with incomplete escape'')
         else (case ddd_escape rest of
             Some (v, rest') \<Rightarrow> split_from name (cur @ c # take 3 rest) rest'
           | None \<Rightarrow> split_from name (cur @ [c, hd rest]) (tl rest)))
      else if c = dot then
        rmap (\<lambda>(ls, absolute). (cur # ls, absolute)) (split_from name [] rest)
      else split_from name (cur @ [c]) rest)"
  by pat_completeness auto
termination
  by (relation "measure (\<lambda>(name, cur, s). length s)") (auto dest: ddd_escape_shorter)

definition split_domain_labels :: "string \<Rightarrow> core_error + string list \<times> bool" where
  "split_domain_labels name = split_from name [] name"

definition domain_root :: domain_name where
  "domain_root = \<lparr>labels = []\<rparr>"

definition wire_len :: "domain_name \<Rightarrow> nat" where
  "wire_len d = sum_list (map (\<lambda>l. 1 + label_len l) (labels d)) + 1"

definition part_to_label :: "string \<Rightarrow> string \<Rightarrow> core_error + label" where
  "part_to_label name part =
     (if part = [] then Inl (InvalidName name ''empty label (consecutive dots)'')
      else map_err (\<lambda>e. InvalidName name (core_error_display e)) (label_new part))"

definition domain_new :: "string \<Rightarrow> core_error + domain_name" where
  "domain_new name =
     (if name = ''.'' then Inr domain_root
      else rbind (split_domain_labels name) (\<lambda>(parts, _).
           rbind (rmap_list (part_to_label name) parts) (\<lambda>ls.
             let dn = \<lparr>labels = ls\<rparr> in
             if wire_len dn > 255 then
               Inl (InvalidName name
                 (''wire format exceeds 255 octets: '' @ show_nat (wire_len dn) @ '' octets''))
             else Inr dn)))"

definition label_count :: "domain_name \<Rightarrow> nat" where
  "label_count d = length (labels d)"

definition is_root :: "domain_name \<Rightarrow> bool" where
  "is_root d \<longleftrightarrow> labels d = []"

text \<open>The two writers return the bytes they append to the buffer.\<close>

definition label_octets :: "byte list \<Rightarrow> byte list" where
  "label_octets bs = word_of_nat (length bs) # bs"

definition write_wire :: "domain_name \<Rightarrow> byte list" where
  "write_wire d = concat (map (\<lambda>l. label_octets (label_wire l)) (labels d)) @ [0]"

definition write_wire_canonical :: "domain_name \<Rightarrow> byte list" where
  "write_wire_canonical d =
     concat (map (\<lambda>l. word_of_nat (length (label_wire l)) # map lower_byte (label_wire l)) (labels d))
       @ [0]"

text \<open>\<open>PartialEq\<close>: label by label, octet by octet, ignoring ASCII case.\<close>

definition eq_ignore_ascii_case :: "byte list \<Rightarrow> byte list \<Rightarrow> bool" where
  "eq_ignore_ascii_case a b \<longleftrightarrow>
     length a = length b \<and> list_all (\<lambda>(x, y). lower_byte x = lower_byte y) (zip a b)"

definition name_eq :: "domain_name \<Rightarrow> domain_name \<Rightarrow> bool" where
  "name_eq x y \<longleftrightarrow>
     length (labels x) = length (labels y)
     \<and> list_all (\<lambda>(a, b). eq_ignore_ascii_case (label_wire a) (label_wire b))
         (zip (labels x) (labels y))"

text \<open>\<open>Hash\<close>: the values fed to the hasher, in order.\<close>

datatype hash_write = HashUsize nat | HashU8 byte

definition name_hash :: "domain_name \<Rightarrow> hash_write list" where
  "name_hash d =
     HashUsize (length (labels d))
       # concat (map (\<lambda>l. HashUsize (length (label_wire l))
                           # map (\<lambda>b. HashU8 (lower_byte b)) (label_wire l)) (labels d))"

fun join_labels :: "string list \<Rightarrow> string" where
  "join_labels [] = []"
| "join_labels [l] = l"
| "join_labels (l # ls) = l @ dot # join_labels ls"

definition name_display :: "domain_name \<Rightarrow> string" where
  "name_display d =
     (if is_root d then ''.'' else join_labels (map label_inner (labels d)) @ ''.'')"

section \<open>Well-formed labels and names\<close>

text \<open>
  A label that \<open>Label::new\<close> can have built is the label of its own text; a name that
  \<open>DomainName::new\<close> can have built consists of such labels and fits 255 octets.
\<close>

definition label_wf :: "label \<Rightarrow> bool" where
  "label_wf l \<longleftrightarrow> label_new (label_inner l) = Inr l"

definition name_wf :: "domain_name \<Rightarrow> bool" where
  "name_wf d \<longleftrightarrow> list_all label_wf (labels d) \<and> wire_len d \<le> 255"

lemma decode_label_from_length:
  "decode_label_from full s = Inr bs \<Longrightarrow> length bs \<le> length s \<and> (s \<noteq> [] \<longrightarrow> bs \<noteq> [])"
proof (induction full s arbitrary: bs rule: decode_label_from.induct)
  case (1 full)
  then show ?case by simp
next
  case (2 full c rest)
  show ?case
  proof (cases "c = backslash")
    case esc: True
    with "2.prems" have ne: "rest \<noteq> []" by auto
    show ?thesis
    proof (cases "ddd_escape rest")
      case None
      with "2.prems" esc ne "2.IH"(1) [OF esc ne None] show ?thesis
        by (cases rest) (force simp: result_simps)+
    next
      case (Some vr)
      obtain v r where vr: "vr = (v, r)" by (cases vr)
      with Some have "length r < length rest" by (auto dest: ddd_escape_shorter)
      with "2.prems" esc ne Some vr "2.IH"(2) [OF esc ne Some vr [symmetric]] show ?thesis
        by (force simp: result_simps split: if_splits)
    qed
  next
    case False
    with "2.prems" "2.IH"(3) show ?thesis
      by (force simp: result_simps split: if_splits)
  qed
qed

lemma label_new_Inr:
  "label_new s = Inr l \<longleftrightarrow>
     s \<noteq> [] \<and> label_inner l = s \<and> decode_label s = Inr (label_wire l) \<and> length (label_wire l) \<le> 63"
  by (cases l) (auto simp: label_new_def result_simps)

lemma label_wf_props:
  assumes "label_wf l"
  shows "label_inner l \<noteq> []" and "decode_label (label_inner l) = Inr (label_wire l)"
    and "label_wire l \<noteq> []" and "length (label_wire l) \<le> 63"
  using assms decode_label_from_length [of "label_inner l" "label_inner l" "label_wire l"]
  by (auto simp: label_wf_def label_new_Inr decode_label_def)

lemma label_new_wf: "label_new s = Inr l \<Longrightarrow> label_wf l"
  by (auto simp: label_wf_def label_new_Inr)

lemma part_to_label_Inr: "part_to_label name part = Inr l \<longleftrightarrow> label_new part = Inr l"
  by (auto simp: part_to_label_def result_simps label_new_def)

lemma domain_new_wf:
  assumes "domain_new s = Inr d"
  shows "name_wf d"
proof (cases "s = ''.''")
  case True
  with assms show ?thesis
    by (auto simp: domain_new_def domain_root_def name_wf_def wire_len_def)
next
  case False
  with assms obtain parts ls where
    "rmap_list (part_to_label s) parts = Inr ls" and "d = \<lparr>labels = ls\<rparr>" "wire_len d \<le> 255"
    by (auto simp: domain_new_def result_simps Let_def)
  then show ?thesis
    by (auto simp: name_wf_def rmap_list_Inr part_to_label_Inr list_all_length list_all2_conv_all_nth
        dest: label_new_wf)
qed

lemma length_write_wire [simp]: "length (write_wire d) = wire_len d"
  by (simp add: write_wire_def wire_len_def label_octets_def label_len_def length_concat comp_def)

lemma length_write_wire_canonical [simp]: "length (write_wire_canonical d) = wire_len d"
  by (simp add: write_wire_canonical_def wire_len_def label_len_def length_concat comp_def)

lemma name_wf_label_count:
  assumes "name_wf d"
  shows "length (labels d) \<le> 127"
proof -
  have "2 * length ls \<le> sum_list (map (\<lambda>l. 1 + label_len l) ls)"
    if "list_all label_wf ls" for ls
    using that
  proof (induction ls)
    case (Cons l ls)
    then have "1 \<le> label_len l"
      using label_wf_props(3) [of l] by (cases "label_wire l") (auto simp: label_len_def)
    with Cons show ?case by simp
  qed simp
  from this [of "labels d"] show ?thesis
    using assms by (simp add: name_wf_def wire_len_def)
qed

section \<open>Text round trip\<close>

text \<open>
  The splitter and the label decoder agree on where an escape ends, also when the label is
  followed by the separating dot: a dot is no digit, so no escape reaches across it.
\<close>

lemma not_digit_dot [simp]: "\<not> is_ascii_digit dot"
  by (simp add: is_ascii_digit_def)

lemma ddd_escape_early_dot:
  "ddd_escape (dot # rest) = None" "ddd_escape (a # dot # rest) = None"
  "ddd_escape (a # b # dot # rest) = None"
  by (cases "dot # rest" rule: ddd_escape.cases, auto simp: is_ascii_digit_def)
     (cases "a # dot # rest" rule: ddd_escape.cases, auto simp: is_ascii_digit_def)

lemma ddd_escape_dot:
  "ddd_escape (s @ dot # rest) =
     (case ddd_escape s of Some (v, r) \<Rightarrow> Some (v, r @ dot # rest) | None \<Rightarrow> None)"
  by (cases s rule: ddd_escape.cases) (simp_all add: ddd_escape_early_dot)

lemma ddd_escape_split: "ddd_escape s = Some (v, r) \<Longrightarrow> take 3 s @ r = s"
  by (cases s rule: ddd_escape.cases) (auto split: if_splits simp: numeral_3_eq_3)

lemma split_from_label:
  "decode_label_from full s = Inr bs \<Longrightarrow>
   split_from name cur (s @ dot # rest) =
     rmap (\<lambda>(ls, a). ((cur @ s) # ls, a)) (split_from name [] rest)"
proof (induction full s arbitrary: cur bs rule: decode_label_from.induct)
  case (1 full)
  then show ?case by simp
next
  case (2 full c s)
  show ?case
  proof (cases "c = backslash")
    case esc: True
    with "2.prems" have ne: "s \<noteq> []" by auto
    show ?thesis
    proof (cases "ddd_escape s")
      case None
      with "2.prems" esc ne obtain bs' where "decode_label_from full (tl s) = Inr bs'"
        by (auto simp: result_simps)
      with "2.IH"(1) [OF esc ne None] None esc ne ddd_escape_dot [of s rest] show ?thesis
        by (cases s) auto
    next
      case (Some vr)
      obtain v r where vr: "vr = (v, r)" by (cases vr)
      with "2.prems" esc ne Some obtain bs' where v: "\<not> v > 255"
        and d: "decode_label_from full r = Inr bs'"
        by (auto simp: result_simps split: if_splits)
      have len: "3 \<le> length s"
        using Some vr by (cases s rule: ddd_escape.cases) auto
      from Some vr ddd_escape_split have s: "take 3 s @ r = s" by blast
      have "split_from name cur ((c # s) @ dot # rest)
          = split_from name (cur @ c # take 3 s) (r @ dot # rest)"
        using esc Some vr len by (simp add: ddd_escape_dot)
      also have "\<dots> = rmap (\<lambda>(ls, a). ((cur @ c # take 3 s @ r) # ls, a)) (split_from name [] rest)"
        using "2.IH"(2) [OF esc ne Some vr [symmetric] v d] by simp
      finally show ?thesis using s by simp
    qed
  next
    case False
    with "2.prems" obtain bs' where "is_ascii_graphic c" "c \<noteq> dot"
      and "decode_label_from full s = Inr bs'"
      by (auto simp: result_simps split: if_splits)
    with "2.IH"(3) [of _ "cur @ [c]"] False show ?thesis by simp
  qed
qed

lemma split_labels_text:
  assumes "list_all label_wf ls" and "ls \<noteq> []"
  shows "split_from name [] (join_labels (map label_inner ls) @ ''.'') = Inr (map label_inner ls, True)"
  using assms
proof (induction ls rule: induct_list012)
  case (2 l)
  then show ?case
    using label_wf_props(2) [of l] split_from_label [of "label_inner l" "label_inner l" _ name "[]" "[]"]
    by (simp add: decode_label_def)
next
  case (3 l l' ls)
  then show ?case
    using label_wf_props(2) [of l]
      split_from_label [of "label_inner l" "label_inner l" _ name "[]"
        "join_labels (map label_inner (l' # ls)) @ ''.''"]
    by (simp add: decode_label_def)
qed simp

lemma label_parts_new:
  "list_all label_wf ls \<Longrightarrow> rmap_list (part_to_label name) (map label_inner ls) = Inr ls"
  by (induction ls) (auto simp: part_to_label_def label_wf_def dest: label_wf_props(1) label_new_wf)

lemma domain_new_display:
  assumes "name_wf d"
  shows "domain_new (name_display d) = Inr d"
proof (cases "is_root d")
  case True
  then show ?thesis
    by (cases d) (simp add: name_display_def domain_new_def is_root_def domain_root_def)
next
  case False
  let ?s = "join_labels (map label_inner (labels d)) @ ''.''"
  from False obtain l ls where l: "labels d = l # ls"
    by (auto simp: is_root_def neq_Nil_conv)
  with assms have "label_inner l \<noteq> []"
    by (auto simp: name_wf_def label_wf_props)
  with l have "?s \<noteq> ''.''"
    by (cases ls) auto
  moreover have "split_domain_labels ?s = Inr (map label_inner (labels d), True)"
    unfolding split_domain_labels_def
    using assms l by (intro split_labels_text) (auto simp: name_wf_def)
  ultimately show ?thesis
    using False assms by (cases d) (simp add: name_display_def domain_new_def name_wf_def
        label_parts_new wire_len_def)
qed

section \<open>Equality, canonical form and hashing\<close>

definition canonical_labels :: "domain_name \<Rightarrow> byte list list" where
  "canonical_labels d = map (\<lambda>l. map lower_byte (label_wire l)) (labels d)"

lemma eq_ignore_ascii_case_iff:
  "eq_ignore_ascii_case a b \<longleftrightarrow> map lower_byte a = map lower_byte b"
  unfolding eq_ignore_ascii_case_def
  by (auto simp: list_eq_iff_nth_eq list_all_length)

lemma name_eq_iff: "name_eq x y \<longleftrightarrow> canonical_labels x = canonical_labels y"
  unfolding name_eq_def canonical_labels_def eq_ignore_ascii_case_iff
  by (auto simp: list_eq_iff_nth_eq list_all_length)

lemma name_eq_wire_len: "name_eq x y \<Longrightarrow> wire_len x = wire_len y"
proof -
  have "wire_len d = sum_list (map (\<lambda>bs. 1 + length bs) (canonical_labels d)) + 1" for d
    by (simp add: wire_len_def canonical_labels_def label_len_def comp_def)
  then show "name_eq x y \<Longrightarrow> wire_len x = wire_len y" by (simp add: name_eq_iff)
qed

interpretation name_class: hash_contract name_eq name_hash
proof
  show "name_hash x = name_hash y" if "name_eq x y" for x y
  proof -
    have "name_hash d = HashUsize (length (canonical_labels d))
        # concat (map (\<lambda>bs. HashUsize (length bs) # map HashU8 bs) (canonical_labels d))" for d
      by (simp add: name_hash_def canonical_labels_def comp_def)
    with that show ?thesis by (simp add: name_eq_iff)
  qed
qed (auto simp: name_eq_iff)

lemma label_octets_prefix:
  assumes "a \<noteq> []" "b \<noteq> []" "length a \<le> 255" "length b \<le> 255"
    and "label_octets a @ u = label_octets b @ v"
  shows "a = b \<and> u = v"
proof -
  have "(word_of_nat (length a) :: byte) = word_of_nat (length b)"
    using assms(5) by (simp add: label_octets_def)
  then have "length a mod 256 = length b mod 256"
    by (simp add: word_unat_eq_iff unat_of_nat)
  with assms(3,4) have "length a = length b" by simp
  with assms(5) show ?thesis by (simp add: label_octets_def)
qed

lemma label_octets_nonzero:
  assumes "a \<noteq> []" "length a \<le> 255"
  shows "hd (label_octets a) \<noteq> 0"
  using assms by (simp add: label_octets_def word_unat_eq_iff unat_of_nat)

lemma concat_octets_inj:
  assumes "\<forall>a\<in>set as. a \<noteq> [] \<and> length a \<le> 255" "\<forall>b\<in>set bs. b \<noteq> [] \<and> length b \<le> 255"
    and "concat (map label_octets as) @ 0 # u = concat (map label_octets bs) @ 0 # v"
  shows "as = bs \<and> u = v"
  using assms
proof (induction as arbitrary: bs)
  case Nil
  then show ?case
    using label_octets_nonzero by (cases bs) (fastforce simp: label_octets_def)+
next
  case (Cons a as)
  then obtain b bs' where bs: "bs = b # bs'"
    using label_octets_nonzero [of a] by (cases bs) (fastforce simp: label_octets_def)+
  with Cons.prems have "a = b \<and>
      concat (map label_octets as) @ 0 # u = concat (map label_octets bs') @ 0 # v"
    by (intro label_octets_prefix) auto
  with Cons.IH [of bs'] Cons.prems bs show ?case by auto
qed

lemma write_wire_canonical_labels:
  "write_wire_canonical d = concat (map label_octets (canonical_labels d)) @ [0]"
  by (simp add: write_wire_canonical_def canonical_labels_def label_octets_def comp_def)

lemma name_eq_iff_canonical:
  assumes "name_wf x" "name_wf y"
  shows "name_eq x y \<longleftrightarrow> write_wire_canonical x = write_wire_canonical y"
proof
  assume "name_eq x y"
  then show "write_wire_canonical x = write_wire_canonical y"
    by (simp add: name_eq_iff write_wire_canonical_labels)
next
  have ok: "\<forall>a\<in>set (canonical_labels d). a \<noteq> [] \<and> length a \<le> 255" if "name_wf d" for d
    using that label_wf_props(3,4) by (fastforce simp: name_wf_def canonical_labels_def list_all_iff)
  assume "write_wire_canonical x = write_wire_canonical y"
  with ok [OF assms(1)] ok [OF assms(2)] show "name_eq x y"
    unfolding name_eq_iff write_wire_canonical_labels
    using concat_octets_inj [of "canonical_labels x" "canonical_labels y" "[]" "[]"] by simp
qed

section \<open>Plain names\<close>

text \<open>
  Names without octets that need an escape: printable ASCII other than the dot and the
  backslash. Their text is their octets, so it can be read back without escaping.
\<close>

definition plain_label :: "byte list \<Rightarrow> bool" where
  "plain_label bs \<longleftrightarrow>
     bs \<noteq> [] \<and> length bs \<le> 63
     \<and> list_all (\<lambda>b. 33 \<le> unat b \<and> unat b \<le> 126 \<and> unat b \<noteq> 46 \<and> unat b \<noteq> 92) bs"

definition plain_name :: "domain_name \<Rightarrow> bool" where
  "plain_name d \<longleftrightarrow> list_all (\<lambda>l. plain_label (label_wire l)) (labels d)"

definition wire_labels_name :: "byte list list \<Rightarrow> domain_name" where
  "wire_labels_name ls = \<lparr>labels = map (\<lambda>bs. \<lparr>label_inner = of_bytes bs, label_wire = bs\<rparr>) ls\<rparr>"

lemma plain_label_lower: "plain_label bs \<Longrightarrow> plain_label (map lower_byte bs)"
  by (auto simp: plain_label_def list_all_iff unat_lower_byte)

lemma plain_label_utf8: "plain_label bs \<Longrightarrow> utf8_valid bs"
  by (rule utf8_valid_ascii) (auto simp: plain_label_def list_all_iff)

lemma char_of_byte_eq: "char_of_byte b = c \<longleftrightarrow> unat b = code_of c"
  by (metis code_of_char_of_byte char_of_char)

lemma decode_plain:
  "list_all (\<lambda>b. 33 \<le> unat b \<and> unat b \<le> 126 \<and> unat b \<noteq> 46 \<and> unat b \<noteq> 92) bs
     \<Longrightarrow> decode_label_from full (of_bytes bs) = Inr bs"
  by (induction bs) (auto simp: of_bytes_def char_of_byte_eq is_ascii_graphic_def)

lemma plain_label_wf:
  "plain_label bs \<Longrightarrow> label_wf \<lparr>label_inner = of_bytes bs, label_wire = bs\<rparr>"
  using decode_plain [of bs "of_bytes bs"]
  by (auto simp: label_wf_def label_new_def decode_label_def plain_label_def of_bytes_def)

lemma wire_labels_name_wf:
  assumes "list_all plain_label ls" and "length (concat (map label_octets ls)) \<le> 254"
  shows "name_wf (wire_labels_name ls)"
proof -
  have "wire_len (wire_labels_name ls) = length (concat (map label_octets ls)) + 1"
    by (simp add: wire_len_def wire_labels_name_def label_len_def label_octets_def length_concat comp_def)
  with assms show ?thesis
    by (auto simp: name_wf_def wire_labels_name_def list_all_iff plain_label_wf)
qed

lemma join_labels_text:
  "join_labels (map of_bytes ls) @ ''.'' = name_display (wire_labels_name ls)"
  by (cases ls) (simp_all add: name_display_def is_root_def wire_labels_name_def comp_def)

lemma canonical_text_name:
  assumes "plain_name d" "name_wf d"
  shows "domain_new (name_display (wire_labels_name (canonical_labels d)))
    = Inr (wire_labels_name (canonical_labels d))"
    and "name_eq (wire_labels_name (canonical_labels d)) d"
proof -
  have "list_all plain_label (canonical_labels d)"
    using assms(1) by (auto simp: plain_name_def canonical_labels_def list_all_iff
        intro: plain_label_lower)
  moreover have "length (concat (map label_octets (canonical_labels d))) \<le> 254"
    using assms(2) length_write_wire_canonical [of d]
    by (simp add: write_wire_canonical_labels name_wf_def)
  ultimately show "domain_new (name_display (wire_labels_name (canonical_labels d)))
      = Inr (wire_labels_name (canonical_labels d))"
    by (intro domain_new_display wire_labels_name_wf)
  show "name_eq (wire_labels_name (canonical_labels d)) d"
    by (simp add: name_eq_iff wire_labels_name_def canonical_labels_def comp_def)
qed

section \<open>The hasher separates what equality separates\<close>

lemma map_HashU8_prefix:
  "map HashU8 a @ u = map HashU8 b @ v \<Longrightarrow> length a = length b \<Longrightarrow> a = b \<and> u = v"
  by (induction a b rule: list_induct2') auto

lemma hash_labels_inj:
  assumes "length as = length bs"
    and "concat (map (\<lambda>l. HashUsize (length l) # map HashU8 l) as)
       = concat (map (\<lambda>l. HashUsize (length l) # map HashU8 l) bs)"
  shows "as = bs"
  using assms by (induction as bs rule: list_induct2) (auto dest: map_HashU8_prefix)

lemma name_hash_canonical:
  "name_hash d = HashUsize (length (canonical_labels d))
     # concat (map (\<lambda>l. HashUsize (length l) # map HashU8 l) (canonical_labels d))"
  by (simp add: name_hash_def canonical_labels_def comp_def)

section \<open>Properties\<close>

text \<open>
  Every name that \<open>DomainName::new\<close> accepts is within the limits of RFC 1035: labels of
  1 to 63 octets, at most 127 of them, and at most 255 octets on the wire, where \<open>wire_len\<close>
  is the exact length of both wire forms.
\<close>

lemma domain_new_bounds:
  assumes "domain_new s = Inr d"
  shows "(\<forall>l \<in> set (labels d). 1 \<le> label_len l \<and> label_len l \<le> 63)
    \<and> label_count d \<le> 127 \<and> wire_len d \<le> 255
    \<and> length (write_wire d) = wire_len d \<and> length (write_wire_canonical d) = wire_len d"
proof -
  have wf: "name_wf d" using assms by (rule domain_new_wf)
  have "1 \<le> label_len l \<and> label_len l \<le> 63" if "l \<in> set (labels d)" for l
    using wf that label_wf_props(3,4) [of l]
    by (cases "label_wire l") (auto simp: name_wf_def list_all_iff label_len_def)
  with wf name_wf_label_count [OF wf] show ?thesis
    by (simp add: label_count_def name_wf_def)
qed

lemma domain_new_bounds_witness:
  "\<exists>d. domain_new (''a'' @ backslash # ''046b.Example.'') = Inr d \<and> label_count d = 2 \<and> wire_len d \<le> 255"
proof -
  have "is_ok (domain_new (''a'' @ backslash # ''046b.Example.''))" by code_simp
  then obtain d where d: "domain_new (''a'' @ backslash # ''046b.Example.'') = Inr d" by (auto simp: is_ok_iff)
  have "rmap label_count (domain_new (''a'' @ backslash # ''046b.Example.'')) = Inr 2" by code_simp
  with d domain_new_bounds [OF d] show ?thesis by simp
qed

text \<open>
  Printing a name and parsing the text gives the same name back, labels, escapes and
  letter case included: \<open>Display\<close> and \<open>DomainName::new\<close> round trip.
\<close>

lemma domain_text_roundtrip:
  assumes "domain_new s = Inr d"
  shows "domain_new (name_display d) = Inr d"
  by (rule domain_new_display [OF domain_new_wf [OF assms]])

lemma domain_text_roundtrip_witness:
  "\<exists>d. domain_new (''a'' @ backslash # ''.b.Example'') = Inr d \<and> domain_new (name_display d) = Inr d"
proof -
  have "is_ok (domain_new (''a'' @ backslash # ''.b.Example''))" by code_simp
  then obtain d where d: "domain_new (''a'' @ backslash # ''.b.Example'') = Inr d" by (auto simp: is_ok_iff)
  with domain_text_roundtrip [OF d] show ?thesis by simp
qed

text \<open>
  C17: Two parsed names are equal (\<open>PartialEq\<close>) exactly when their canonical wire forms are
  the same bytes: no case variant or escape spelling distinguishes equal names, and label
  boundaries keep different names apart.
\<close>

theorem name_eq_canonical_wire:
  assumes "domain_new s = Inr x" "domain_new t = Inr y"
  shows "name_eq x y \<longleftrightarrow> write_wire_canonical x = write_wire_canonical y"
  by (rule name_eq_iff_canonical [OF assms [THEN domain_new_wf]])

theorem name_eq_canonical_wire_witness:
  "\<exists>x y. domain_new (''WWW.'' @ backslash # ''101xample'') = Inr x \<and> domain_new ''www.example.'' = Inr y
     \<and> name_eq x y \<and> write_wire_canonical x = write_wire_canonical y"
proof -
  have "is_ok (domain_new (''WWW.'' @ backslash # ''101xample''))" "is_ok (domain_new ''www.example.'')"
    by code_simp+
  then obtain x y where xy: "domain_new (''WWW.'' @ backslash # ''101xample'') = Inr x"
    "domain_new ''www.example.'' = Inr y" by (auto simp: is_ok_iff)
  have "rbind (domain_new (''WWW.'' @ backslash # ''101xample'')) (\<lambda>x. rmap (name_eq x) (domain_new ''www.example.''))
      = Inr True" by code_simp
  with xy have "name_eq x y" by simp
  with name_eq_canonical_wire [OF xy] xy show ?thesis by blast
qed

text \<open>
  \<open>Hash\<close> feeds the hasher the same values for two names exactly when \<open>PartialEq\<close> calls
  them equal, so names can key hash maps and sets.
\<close>

lemma name_hash_eq_iff: "name_hash x = name_hash y \<longleftrightarrow> name_eq x y"
proof
  assume "name_hash x = name_hash y"
  then show "name_eq x y"
    unfolding name_eq_iff name_hash_canonical by (intro hash_labels_inj) simp_all
next
  assume "name_eq x y"
  then show "name_hash x = name_hash y" by (rule name_class.hash_respects_eq)
qed

end
