(* ===== verification/Rr_Types.thy ===== *)
theory Rr_Types
  imports Domain_Name
begin

text \<open>
  \<open>record.rs\<close>: TTLs, zone serial numbers with RFC 1982 arithmetic, the strategies that
  choose the next serial, and record classes. The system clock the strategies read is the
  argument \<open>now\<close> (seconds since the epoch); \<open>std\<close> says whether the crate is built with its
  \<open>std\<close> feature. The date arithmetic in \<open>u32\<close> cannot overflow before the year 42949; after
  that the model wraps, as the code does when it is built without overflow checks.
\<close>

section \<open>TTL\<close>

datatype ttl = Ttl (ttl_value: u32)

definition ttl_zero :: ttl where
  "ttl_zero = Ttl 0"

definition ttl_new :: "u32 \<Rightarrow> core_error + ttl" where
  "ttl_new value =
     (if value > 2147483647
      then Inl (InvalidRecord (''TTL '' @ show_nat (unat value) @ '' exceeds maximum 2147483647''))
      else Inr (Ttl value))"

definition ttl_wf :: "ttl \<Rightarrow> bool" where
  "ttl_wf t \<longleftrightarrow> ttl_value t \<le> 2147483647"

lemma ttl_new_Inr: "ttl_new v = Inr t \<longleftrightarrow> t = Ttl v \<and> ttl_wf t"
  by (auto simp: ttl_new_def ttl_wf_def)

section \<open>Serial numbers\<close>

datatype serial = Serial (serial_value: u32)

datatype ordering = Less | Equal | Greater

definition serial_partial_cmp :: "serial \<Rightarrow> serial \<Rightarrow> ordering option" where
  "serial_partial_cmp self other =
     (if serial_value self = serial_value other then Some Equal
      else let diff = serial_value self - serial_value other in
        if diff = push_bit 31 1 then None
        else if diff < push_bit 31 1 then Some Greater
        else Some Less)"

definition serial_add :: "serial \<Rightarrow> u32 \<Rightarrow> serial" where
  "serial_add self rhs = Serial (serial_value self + rhs)"

abbreviation serial_gt :: "serial \<Rightarrow> serial \<Rightarrow> bool" where
  "serial_gt a b \<equiv> serial_partial_cmp a b = Some Greater"

datatype serial_strategy = DateCounter | UnixTimestamp | Monotonic

text \<open>
  \<open>days_to_civil\<close> (\<open>i64\<close> days, which the clock keeps far from overflow, then \<open>u32\<close>
  arithmetic). The year is the 32-bit pattern of the \<open>i32\<close>.
\<close>

definition days_to_civil :: "int \<Rightarrow> u32 \<times> u32 \<times> u32" where
  "days_to_civil days_since_epoch =
     (let z = days_since_epoch + 719468;
          era = (if z \<ge> 0 then z div 146097 else - ((146096 - z) div 146097));
          doe = (word_of_int (z - era * 146097) :: u32);
          yoe = (doe - doe div 1460 + doe div 36524 - doe div 146096) div 365;
          y = (word_of_int (uint yoe + era * 400) :: u32);
          doy = doe - (365 * yoe + yoe div 4 - yoe div 100);
          mp = (5 * doy + 2) div 153;
          d = doy - (153 * mp + 2) div 5 + 1;
          m = (if mp < 10 then mp + 3 else mp - 9);
          y = (if m \<le> 2 then y + 1 else y)
      in (y, m, d))"

definition compute_date_counter_serial :: "u64 \<Rightarrow> serial \<Rightarrow> serial" where
  "compute_date_counter_serial now current =
     (let days = uint now div 86400;
          (year, month, day) = days_to_civil days;
          today_prefix = year * 10000 + month * 100 + day;
          today_base = today_prefix * 100;
          current_val = serial_value current
      in if current_val \<ge> today_base \<and> current_val < today_base + 100 then
           let counter = current_val - today_base in
           if counter \<ge> 99 then serial_add current 1
           else Serial (today_base + counter + 1)
         else if serial_gt (Serial today_base) current then Serial today_base
         else serial_add current 1)"

definition strategy_next :: "bool \<Rightarrow> u64 \<Rightarrow> serial_strategy \<Rightarrow> serial \<Rightarrow> serial" where
  "strategy_next std now strategy current =
     (case strategy of
        Monotonic \<Rightarrow> serial_add current 1
      | UnixTimestamp \<Rightarrow>
          (if std then
             let now32 = Serial (ucast now) in
             if serial_gt now32 current then now32 else serial_add current 1
           else serial_add current 1)
      | DateCounter \<Rightarrow>
          (if std then compute_date_counter_serial now current else serial_add current 1))"

lemma serial_cmp_add:
  assumes "0 < k" "unat k < 2 ^ 31"
  shows "serial_gt (serial_add s k) s"
proof -
  have "k \<noteq> push_bit 31 1" "k < push_bit 31 1"
    using assms(2) by (auto simp: word_less_nat_alt word_unat_eq_iff)
  then show ?thesis
    using assms(1) by (simp add: serial_partial_cmp_def serial_add_def Let_def word_gt_0)
qed

lemma serial_gt_succ [simp]: "serial_gt (serial_add s 1) s"
  by (rule serial_cmp_add) simp_all

lemma serial_gt_iff: "serial_gt a b \<longleftrightarrow> (\<exists>k. 0 < k \<and> unat k < 2 ^ 31 \<and> a = serial_add b k)"
proof
  assume gt: "serial_gt a b"
  let ?k = "serial_value a - serial_value b"
  from gt have "?k \<noteq> 0" "?k < push_bit 31 1"
    by (auto simp: serial_partial_cmp_def Let_def split: if_splits)
  moreover have "a = serial_add b ?k" by (simp add: serial_add_def)
  moreover from \<open>?k \<noteq> 0\<close> have "0 < ?k" by (simp add: word_gt_0)
  ultimately show "\<exists>k. 0 < k \<and> unat k < 2 ^ 31 \<and> a = serial_add b k"
    by (intro exI [of _ ?k] conjI) (simp_all add: word_less_nat_alt)
next
  assume "\<exists>k. 0 < k \<and> unat k < 2 ^ 31 \<and> a = serial_add b k"
  then show "serial_gt a b" by (auto intro: serial_cmp_add)
qed

lemma unat_neg_u32: "unat (- x) = (if x = 0 then 0 else 2 ^ 32 - unat x)" for x :: u32
proof (cases "x = 0")
  case False
  then have "0 < unat x" by (simp add: unat_gt_0)
  then show ?thesis
    using unat_sub_if_size [of "0 :: u32" x] False by (simp add: word_size del: unat_gt_0)
qed simp

lemma serial_cmp_swap:
  "serial_partial_cmp b a =
     map_option (\<lambda>r. case r of Less \<Rightarrow> Greater | Equal \<Rightarrow> Equal | Greater \<Rightarrow> Less)
       (serial_partial_cmp a b)"
proof -
  let ?d = "serial_value a - serial_value b"
  have neg: "serial_value b - serial_value a = - ?d" by simp
  have "unat (- ?d) = (if ?d = 0 then 0 else 2 ^ 32 - unat ?d)"
    using unat_neg_u32 [of ?d] by simp
  moreover have "(x = push_bit 31 1) = (unat x = 2147483648)"
    and "(x < push_bit 31 1) = (unat x < 2147483648)" for x :: u32
    by (simp_all add: word_less_nat_alt word_unat_eq_iff)
  moreover have "unat ?d < 4294967296" by (rule unat_bounds)
  ultimately show ?thesis
    unfolding serial_partial_cmp_def Let_def neg by (simp split: if_split) linarith
qed

lemma serial_cmp_None: "serial_partial_cmp a b = None \<longleftrightarrow> a = serial_add b (2 ^ 31)"
proof -
  have "serial_value a - serial_value b = push_bit 31 1 \<longleftrightarrow> a = serial_add b (2 ^ 31)"
    by (cases a; cases b) (auto simp: serial_add_def algebra_simps)
  moreover have "(push_bit 31 1 :: u32) \<noteq> 0" by simp
  ultimately show ?thesis
    by (auto simp: serial_partial_cmp_def Let_def simp del: push_bit_numeral_minus_1)
qed

lemma strategy_next_gt: "serial_gt (strategy_next std now strategy current) current"
proof -
  have "Serial (b + (serial_value current - b) + 1) = serial_add current 1" for b
    by (simp add: serial_add_def)
  then have "serial_gt (compute_date_counter_serial now current) current"
    unfolding compute_date_counter_serial_def Let_def
    by (auto split: prod.splits simp del: diff_add_cancel add_diff_cancel_left'
        add_diff_eq)
  then show ?thesis
    by (cases strategy) (auto simp: strategy_next_def Let_def)
qed

section \<open>Record classes\<close>

datatype record_class = IN | CH | HS | ANY | UnknownClass u16

fun class_value :: "record_class \<Rightarrow> u16" where
  "class_value IN = 1"
| "class_value CH = 3"
| "class_value HS = 4"
| "class_value ANY = 255"
| "class_value (UnknownClass v) = v"

definition class_from_value :: "u16 \<Rightarrow> record_class" where
  "class_from_value value =
     (if value = 1 then IN else if value = 3 then CH else if value = 4 then HS
      else if value = 255 then ANY else UnknownClass value)"

fun class_display :: "record_class \<Rightarrow> string" where
  "class_display IN = ''IN''"
| "class_display CH = ''CH''"
| "class_display HS = ''HS''"
| "class_display ANY = ''ANY''"
| "class_display (UnknownClass v) = ''CLASS'' @ show_nat (unat v)"

lemma class_value_from_value [simp]: "class_value (class_from_value v) = v"
  by (simp add: class_from_value_def)

text \<open>The classes \<open>from_value\<close> produces: no \<open>Unknown\<close> of an assigned number.\<close>

definition class_canonical :: "record_class \<Rightarrow> bool" where
  "class_canonical c \<longleftrightarrow> class_from_value (class_value c) = c"

lemma class_canonical_from_value [simp]: "class_canonical (class_from_value v)"
  by (simp add: class_canonical_def)

section \<open>Properties\<close>

text \<open>
  \<open>Serial\<close>'s ordering is the serial number arithmetic of RFC 1982: one serial is greater
  exactly when it is the other plus some increment below \<open>2^31\<close> modulo \<open>2^32\<close>, the two are
  incomparable exactly at distance \<open>2^31\<close>, equal only when identical, and swapping the
  arguments reverses the answer.
\<close>

lemma serial_ordering_rfc1982:
  "(serial_gt a b \<longleftrightarrow> (\<exists>k. 0 < k \<and> unat k < 2 ^ 31 \<and> a = serial_add b k))
   \<and> (serial_partial_cmp a b = None \<longleftrightarrow> a = serial_add b (2 ^ 31))
   \<and> (serial_partial_cmp a b = Some Equal \<longleftrightarrow> a = b)
   \<and> (serial_partial_cmp a b = Some Less \<longleftrightarrow> serial_gt b a)"
proof (intro conjI)
  show "serial_partial_cmp a b = Some Equal \<longleftrightarrow> a = b"
    by (cases a; cases b) (auto simp: serial_partial_cmp_def Let_def)
  show "serial_partial_cmp a b = Some Less \<longleftrightarrow> serial_gt b a"
    using serial_cmp_swap [of b a]
    by (cases "serial_partial_cmp a b") (auto split: ordering.splits)
qed (rule serial_gt_iff serial_cmp_None)+

text \<open>
  Whatever the strategy, the clock and the current serial, the next serial is greater
  than the current one in RFC 1982 order, so secondaries see the change.
\<close>

lemma strategy_next_advances:
  "serial_partial_cmp (strategy_next std now strategy current) current = Some Greater"
  by (rule strategy_next_gt)

end
