(* ===== verification/Protocol_Codes.thy ===== *)
theory Protocol_Codes
  imports Rr_Types
begin

text \<open>\<open>protocol.rs\<close>: record type codes and response codes, their numbers and their names.\<close>

datatype record_type =
    RT_A | RT_Aaaa | RT_Cname | RT_Ns | RT_Ptr | RT_Soa | RT_Mx | RT_Txt | RT_Srv | RT_Caa
  | RT_Dnskey | RT_Rrsig | RT_Nsec | RT_Nsec3 | RT_Ds | RT_Cds | RT_Cdnskey | RT_Tlsa
  | RT_Sshfp | RT_Csync | RT_Rp | RT_Nsec3param | RT_Dlv | RT_Other u16

definition record_type_from_value :: "u16 \<Rightarrow> record_type" where
  "record_type_from_value value =
     (if value = 1 then RT_A
      else if value = 28 then RT_Aaaa
      else if value = 5 then RT_Cname
      else if value = 2 then RT_Ns
      else if value = 12 then RT_Ptr
      else if value = 6 then RT_Soa
      else if value = 15 then RT_Mx
      else if value = 16 then RT_Txt
      else if value = 33 then RT_Srv
      else if value = 257 then RT_Caa
      else if value = 48 then RT_Dnskey
      else if value = 46 then RT_Rrsig
      else if value = 47 then RT_Nsec
      else if value = 50 then RT_Nsec3
      else if value = 43 then RT_Ds
      else if value = 59 then RT_Cds
      else if value = 60 then RT_Cdnskey
      else if value = 52 then RT_Tlsa
      else if value = 44 then RT_Sshfp
      else if value = 62 then RT_Csync
      else if value = 17 then RT_Rp
      else if value = 51 then RT_Nsec3param
      else if value = 32769 then RT_Dlv
      else RT_Other value)"

fun record_type_value :: "record_type \<Rightarrow> u16" where
  "record_type_value RT_A = 1"
| "record_type_value RT_Aaaa = 28"
| "record_type_value RT_Cname = 5"
| "record_type_value RT_Ns = 2"
| "record_type_value RT_Ptr = 12"
| "record_type_value RT_Soa = 6"
| "record_type_value RT_Mx = 15"
| "record_type_value RT_Txt = 16"
| "record_type_value RT_Srv = 33"
| "record_type_value RT_Caa = 257"
| "record_type_value RT_Dnskey = 48"
| "record_type_value RT_Rrsig = 46"
| "record_type_value RT_Nsec = 47"
| "record_type_value RT_Nsec3 = 50"
| "record_type_value RT_Ds = 43"
| "record_type_value RT_Cds = 59"
| "record_type_value RT_Cdnskey = 60"
| "record_type_value RT_Tlsa = 52"
| "record_type_value RT_Sshfp = 44"
| "record_type_value RT_Csync = 62"
| "record_type_value RT_Rp = 17"
| "record_type_value RT_Nsec3param = 51"
| "record_type_value RT_Dlv = 32769"
| "record_type_value (RT_Other v) = v"

fun record_type_display :: "record_type \<Rightarrow> string" where
  "record_type_display RT_A = ''A''"
| "record_type_display RT_Aaaa = ''AAAA''"
| "record_type_display RT_Cname = ''CNAME''"
| "record_type_display RT_Ns = ''NS''"
| "record_type_display RT_Ptr = ''PTR''"
| "record_type_display RT_Soa = ''SOA''"
| "record_type_display RT_Mx = ''MX''"
| "record_type_display RT_Txt = ''TXT''"
| "record_type_display RT_Srv = ''SRV''"
| "record_type_display RT_Caa = ''CAA''"
| "record_type_display RT_Dnskey = ''DNSKEY''"
| "record_type_display RT_Rrsig = ''RRSIG''"
| "record_type_display RT_Nsec = ''NSEC''"
| "record_type_display RT_Nsec3 = ''NSEC3''"
| "record_type_display RT_Ds = ''DS''"
| "record_type_display RT_Cds = ''CDS''"
| "record_type_display RT_Cdnskey = ''CDNSKEY''"
| "record_type_display RT_Tlsa = ''TLSA''"
| "record_type_display RT_Sshfp = ''SSHFP''"
| "record_type_display RT_Csync = ''CSYNC''"
| "record_type_display RT_Rp = ''RP''"
| "record_type_display RT_Nsec3param = ''NSEC3PARAM''"
| "record_type_display RT_Dlv = ''DLV''"
| "record_type_display (RT_Other v) = ''TYPE'' @ show_nat (unat v)"

lemma record_type_value_from_value [simp]: "record_type_value (record_type_from_value v) = v"
  by (simp add: record_type_from_value_def)

lemma record_type_from_value_value:
  "record_type_from_value (record_type_value t) = t
     \<or> (\<exists>v. t = RT_Other v \<and> record_type_from_value v \<noteq> RT_Other v)"
  by (cases t) (simp_all add: record_type_from_value_def)

datatype rcode =
    NoError | FormErr | ServFail | NxDomain | NotImp | Refused | YxDomain | YxRrset | NxRrset
  | NotAuth | NotZone | OtherRcode u16

definition rcode_from_value :: "u16 \<Rightarrow> rcode" where
  "rcode_from_value value =
     (if value = 0 then NoError
      else if value = 1 then FormErr
      else if value = 2 then ServFail
      else if value = 3 then NxDomain
      else if value = 4 then NotImp
      else if value = 5 then Refused
      else if value = 6 then YxDomain
      else if value = 7 then YxRrset
      else if value = 8 then NxRrset
      else if value = 9 then NotAuth
      else if value = 10 then NotZone
      else OtherRcode value)"

fun rcode_value :: "rcode \<Rightarrow> u16" where
  "rcode_value NoError = 0"
| "rcode_value FormErr = 1"
| "rcode_value ServFail = 2"
| "rcode_value NxDomain = 3"
| "rcode_value NotImp = 4"
| "rcode_value Refused = 5"
| "rcode_value YxDomain = 6"
| "rcode_value YxRrset = 7"
| "rcode_value NxRrset = 8"
| "rcode_value NotAuth = 9"
| "rcode_value NotZone = 10"
| "rcode_value (OtherRcode v) = v"

fun rcode_is_success :: "rcode \<Rightarrow> bool" where
  "rcode_is_success NoError = True"
| "rcode_is_success _ = False"

fun rcode_display :: "rcode \<Rightarrow> string" where
  "rcode_display NoError = ''NOERROR''"
| "rcode_display FormErr = ''FORMERR''"
| "rcode_display ServFail = ''SERVFAIL''"
| "rcode_display NxDomain = ''NXDOMAIN''"
| "rcode_display NotImp = ''NOTIMP''"
| "rcode_display Refused = ''REFUSED''"
| "rcode_display YxDomain = ''YXDOMAIN''"
| "rcode_display YxRrset = ''YXRRSET''"
| "rcode_display NxRrset = ''NXRRSET''"
| "rcode_display NotAuth = ''NOTAUTH''"
| "rcode_display NotZone = ''NOTZONE''"
| "rcode_display (OtherRcode v) = ''RCODE'' @ show_nat (unat v)"

lemma rcode_value_from_value [simp]: "rcode_value (rcode_from_value v) = v"
  by (simp add: rcode_from_value_def)

lemma rcode_success_iff: "rcode_is_success (rcode_from_value v) \<longleftrightarrow> v = 0"
  by (simp add: rcode_from_value_def)

text \<open>
  A code enumeration is a retraction of the 16-bit values: the shared contract of
  \<open>RecordType\<close>, \<open>Rcode\<close> and \<open>RecordClass\<close>.
\<close>

locale code_points =
  fixes value_of :: "'t \<Rightarrow> u16"
    and of_value :: "u16 \<Rightarrow> 't"
  assumes value_of_of_value: "value_of (of_value v) = v"
begin

lemma of_value_inj: "of_value v = of_value w \<longleftrightarrow> v = w"
  by (metis value_of_of_value)

lemma reencode: "u16_be (value_of (of_value (u16_of_be bs))) = bs" if "length bs = 2"
  using that by (simp add: value_of_of_value uN_be_inv)

lemma of_value_idem: "of_value (value_of (of_value v)) = of_value v"
  by (simp add: value_of_of_value)

end

interpretation rtype_codes: code_points record_type_value record_type_from_value
  by unfold_locales simp

interpretation rcode_codes: code_points rcode_value rcode_from_value
  by unfold_locales simp

interpretation class_codes: code_points class_value class_from_value
  by unfold_locales simp

section \<open>Properties\<close>

text \<open>
  Record type, class and response codes survive decoding and encoding for every 16-bit
  value, decoding never answers \<open>Other\<close> for a number that has a name, and only response code
  0 is a success.
\<close>

lemma code_roundtrips:
  "record_type_value (record_type_from_value v) = v
   \<and> rcode_value (rcode_from_value v) = v
   \<and> class_value (class_from_value v) = v
   \<and> (record_type_from_value v = RT_Other v \<longleftrightarrow>
        v \<notin> {1, 2, 5, 6, 12, 15, 16, 17, 28, 33, 43, 44, 46, 47, 48, 50, 51, 52, 59, 60, 62, 257, 32769})
   \<and> (rcode_is_success (rcode_from_value v) \<longleftrightarrow> v = 0)"
  by (simp add: rcode_success_iff) (simp add: record_type_from_value_def)

end
