(* ===== verification/Rdata.thy ===== *)
theory Rdata
  imports Protocol_Codes
begin

text \<open>
  \<open>rdata/mod.rs\<close> and \<open>ResourceRecord\<close> of \<open>record.rs\<close>: the typed record data. The type is
  parametric in the type of domain names, because the \<open>PartialEq\<close> that Rust derives compares
  names with the case-insensitive equality of \<open>DomainName\<close> and all other fields structurally:
  the derived equality is the relator of the datatype at \<open>name_eq\<close>.
\<close>

section \<open>Character strings\<close>

datatype txt_string = TxtString (txt_bytes: "byte list")

definition txt_new :: "byte list \<Rightarrow> core_error + txt_string" where
  "txt_new bytes =
     (if length bytes > 255 then Inl (InvalidRecord ''TXT character-string exceeds 255 bytes'')
      else Inr (TxtString bytes))"

definition txt_from_text :: "string \<Rightarrow> core_error + txt_string" where
  "txt_from_text text = txt_new (as_bytes text)"

definition txt_wf :: "txt_string \<Rightarrow> bool" where
  "txt_wf s \<longleftrightarrow> length (txt_bytes s) \<le> 255"

lemma txt_new_Inr: "txt_new bs = Inr s \<longleftrightarrow> s = TxtString bs \<and> txt_wf s"
  by (auto simp: txt_new_def txt_wf_def)

section \<open>Record data\<close>

type_synonym ipv4 = "32 word"
type_synonym ipv6 = "128 word"

definition ipv4_octets :: "ipv4 \<Rightarrow> byte list" where
  "ipv4_octets a = to_be 4 (unat a)"

definition ipv6_octets :: "ipv6 \<Rightarrow> byte list" where
  "ipv6_octets a = to_be 16 (unat a)"

definition ipv4_from_octets :: "byte list \<Rightarrow> ipv4" where
  "ipv4_from_octets bs = word_of_nat (of_be bs)"

definition ipv6_from_octets :: "byte list \<Rightarrow> ipv6" where
  "ipv6_from_octets bs = word_of_nat (of_be bs)"

lemma ip_octets [simp]:
  "ipv4_from_octets (ipv4_octets a) = a" "ipv6_from_octets (ipv6_octets b) = b"
  "length (ipv4_octets a) = 4" "length (ipv6_octets b) = 16"
  using unsigned_less [of a, where 'a = nat] unsigned_less [of b, where 'a = nat]
  by (simp_all add: ipv4_from_octets_def ipv4_octets_def ipv6_from_octets_def ipv6_octets_def of_be_to_be)

datatype 'n record_data =
    RD_A ipv4
  | RD_Aaaa ipv6
  | RD_Cname 'n
  | RD_Ns 'n
  | RD_Ptr 'n
  | RD_Soa (mname: 'n) (rname: 'n) (soa_serial: serial) (refresh: ttl) (retry: ttl) (expire: ttl)
      (minimum: ttl)
  | RD_Mx (preference: u16) (exchange: 'n)
  | RD_Txt "txt_string list"
  | RD_Srv (priority: u16) (weight: u16) (port: u16) (target: 'n)
  | RD_Caa (caa_flags: u8) (caa_tag: string) (caa_value: string)
  | RD_Dnskey (dnskey_flags: u16) (dnskey_protocol: u8) (dnskey_algorithm: u8)
      (dnskey_public_key: "byte list")
  | RD_Rrsig (type_covered: u16) (rrsig_algorithm: u8) (rrsig_labels: u8) (original_ttl: u32)
      (signature_expiration: u32) (signature_inception: u32) (rrsig_key_tag: u16)
      (signer_name: 'n) (signature: "byte list")
  | RD_Nsec (next_domain: 'n) (nsec_bitmaps: "byte list")
  | RD_Nsec3 (nsec3_hash: u8) (nsec3_flags: u8) (nsec3_iterations: u16) (nsec3_salt: "byte list")
      (next_hashed_owner: "byte list") (nsec3_bitmaps: "byte list")
  | RD_Ds (ds_key_tag: u16) (ds_algorithm: u8) (ds_digest_type: u8) (ds_digest: "byte list")
  | RD_Cds (cds_key_tag: u16) (cds_algorithm: u8) (cds_digest_type: u8) (cds_digest: "byte list")
  | RD_Cdnskey (cdnskey_flags: u16) (cdnskey_protocol: u8) (cdnskey_algorithm: u8)
      (cdnskey_public_key: "byte list")
  | RD_Tlsa (tlsa_usage: u8) (tlsa_selector: u8) (tlsa_matching_type: u8)
      (certificate_data: "byte list")
  | RD_Sshfp (sshfp_algorithm: u8) (fp_type: u8) (fingerprint: "byte list")
  | RD_Csync (csync_serial: u32) (csync_flags: u16) (csync_bitmaps: "byte list")
  | RD_Nsec3param (nsec3param_hash: u8) (nsec3param_flags: u8) (nsec3param_iterations: u16)
      (nsec3param_salt: "byte list")
  | RD_Dlv (dlv_key_tag: u16) (dlv_algorithm: u8) (dlv_digest_type: u8) (dlv_digest: "byte list")
  | RD_Rp (mbox: 'n) (rp_txt: 'n)
  | RD_Unknown (unknown_rtype: u16) (unknown_rdata: "byte list")

type_synonym rdata = "domain_name record_data"

definition rdata_eq :: "rdata \<Rightarrow> rdata \<Rightarrow> bool" where
  "rdata_eq = rel_record_data name_eq"

fun is_soa_rdata :: "'n record_data \<Rightarrow> bool" where
  "is_soa_rdata (RD_Soa _ _ _ _ _ _ _) = True"
| "is_soa_rdata _ = False"

fun rdata_soa_serial :: "'n record_data \<Rightarrow> serial option" where
  "rdata_soa_serial (RD_Soa _ _ s _ _ _ _) = Some s"
| "rdata_soa_serial _ = None"

interpretation rdata_class: eq_contract rdata_eq
proof
  show "rdata_eq x x" for x
    unfolding rdata_eq_def by (rule record_data.rel_refl) (rule name_class.eq_refl)
  show "rdata_eq x y \<Longrightarrow> rdata_eq y x" for x y
    unfolding rdata_eq_def
    by (subst record_data.rel_flip [symmetric]) (auto elim: record_data.rel_mono_strong
        intro: name_class.eq_sym)
  show "rdata_eq x z" if "rdata_eq x y" "rdata_eq y z" for x y z
  proof -
    from that have "rel_record_data (name_eq OO name_eq) x z"
      unfolding rdata_eq_def record_data.rel_compp by blast
    then show ?thesis
      unfolding rdata_eq_def
      by (rule record_data.rel_mono_strong) (auto intro: name_class.eq_trans)
  qed
qed

section \<open>Resource records\<close>

record resource_record =
  rr_name :: domain_name
  rr_class :: record_class
  rr_ttl :: ttl
  rr_rdata :: rdata

text \<open>The derived \<open>PartialEq\<close> of \<open>ResourceRecord\<close>, field by field.\<close>

definition rr_eq :: "resource_record \<Rightarrow> resource_record \<Rightarrow> bool" where
  "rr_eq a b \<longleftrightarrow>
     name_eq (rr_name a) (rr_name b) \<and> rr_class a = rr_class b \<and> rr_ttl a = rr_ttl b
     \<and> rdata_eq (rr_rdata a) (rr_rdata b)"

interpretation rr_class_eq: eq_contract rr_eq
  by unfold_locales
     (auto simp: rr_eq_def name_class.eq_refl rdata_class.eq_refl
       intro: name_class.eq_sym rdata_class.eq_sym name_class.eq_trans rdata_class.eq_trans)

lemma rdata_eq_soa:
  "rdata_eq a b \<Longrightarrow> is_soa_rdata a = is_soa_rdata b \<and> rdata_soa_serial a = rdata_soa_serial b"
  unfolding rdata_eq_def by (cases a; cases b) simp_all

end
