(* ===== verification/Tsig_Auth.thy ===== *)
theory Tsig_Auth
  imports Rdata
begin

text \<open>
  The module \<open>tsig\<close> (\<open>mod.rs\<close>, \<open>key.rs\<close>, \<open>wire.rs\<close>, \<open>record.rs\<close>): keys, the TSIG
  pseudo-record of RFC 8945, its wire form and its verification.

  The HMAC implementation (crates \<open>hmac\<close>, \<open>sha1\<close>, \<open>sha2\<close>) is a parameter, the record
  \<open>mac_lib\<close>; \<open>mac_lib_ok\<close> states its documented behaviour. Base64 decoding and random bytes
  are parameters too. Zeroizing and the warnings that are logged are not modelled.
\<close>

section \<open>Algorithms and keys\<close>

datatype tsig_algorithm = HmacSha256 | HmacSha512 | HmacSha1

fun dns_name :: "tsig_algorithm \<Rightarrow> string" where
  "dns_name HmacSha256 = ''hmac-sha256.''"
| "dns_name HmacSha512 = ''hmac-sha512.''"
| "dns_name HmacSha1 = ''hmac-sha1.''"

fun key_length :: "tsig_algorithm \<Rightarrow> nat" where
  "key_length HmacSha256 = 32"
| "key_length HmacSha512 = 64"
| "key_length HmacSha1 = 20"

definition mac_length :: "tsig_algorithm \<Rightarrow> nat" where
  "mac_length alg = key_length alg"

definition tsig_algorithm_display :: "tsig_algorithm \<Rightarrow> string" where
  "tsig_algorithm_display alg =
     (if last (dns_name alg) = dot then butlast (dns_name alg) else dns_name alg)"

text \<open>
  \<open>mac_tag\<close> is \<open>new_from_slice\<close>, \<open>update\<close> and \<open>finalize\<close>; \<open>mac_check\<close> is
  \<open>new_from_slice\<close>, \<open>update\<close> and \<open>verify_slice\<close>. \<open>None\<close> is a key that
  \<open>new_from_slice\<close> rejects.
\<close>

record mac_lib =
  mac_tag :: "tsig_algorithm \<Rightarrow> byte list \<Rightarrow> byte list \<Rightarrow> byte list option"
  mac_check :: "tsig_algorithm \<Rightarrow> byte list \<Rightarrow> byte list \<Rightarrow> byte list \<Rightarrow> bool option"

text \<open>
  The documented behaviour: HMAC takes keys of every length, a tag is as long as the hash,
  and verification accepts exactly the tag of the message.
\<close>

definition mac_lib_ok :: "mac_lib \<Rightarrow> bool" where
  "mac_lib_ok lib \<longleftrightarrow>
     (\<forall>alg k m. \<exists>t. mac_tag lib alg k m = Some t \<and> length t = mac_length alg
        \<and> (\<forall>t'. mac_check lib alg k m t' = Some (t' = t)))"

record tsig_key =
  key_name :: domain_name
  key_algorithm :: tsig_algorithm
  key_material :: "byte list"

definition tsig_key_new :: "domain_name \<Rightarrow> tsig_algorithm \<Rightarrow> byte list \<Rightarrow> core_error + tsig_key" where
  "tsig_key_new name alg material =
     (if material = [] then Inl (Tsig ''key material must not be empty'')
      else Inr \<lparr>key_name = name, key_algorithm = alg, key_material = material\<rparr>)"

text \<open>\<open>char::is_whitespace\<close> over UTF-8 text, removed by the filter of \<open>from_base64\<close>.\<close>

fun strip_whitespace :: "byte list \<Rightarrow> byte list" where
  "strip_whitespace [] = []"
| "strip_whitespace (b0 # rest) =
     (if byte_in 9 13 b0 \<or> b0 = 32 then strip_whitespace rest
      else case rest of
        b1 # rest1 \<Rightarrow>
          (if b0 = 0xC2 \<and> (b1 = 0x85 \<or> b1 = 0xA0) then strip_whitespace rest1
           else case rest1 of
             b2 # rest2 \<Rightarrow>
               (if b0 = 0xE1 \<and> b1 = 0x9A \<and> b2 = 0x80
                  \<or> b0 = 0xE2 \<and> b1 = 0x80 \<and> (byte_in 0x80 0x8A b2 \<or> b2 = 0xA8 \<or> b2 = 0xA9 \<or> b2 = 0xAF)
                  \<or> b0 = 0xE2 \<and> b1 = 0x81 \<and> b2 = 0x9F
                  \<or> b0 = 0xE3 \<and> b1 = 0x80 \<and> b2 = 0x80
                then strip_whitespace rest2 else b0 # strip_whitespace rest)
           | [] \<Rightarrow> b0 # strip_whitespace rest)
      | [] \<Rightarrow> [b0])"

definition tsig_key_from_base64 ::
    "(byte list \<Rightarrow> byte list option) \<Rightarrow> domain_name \<Rightarrow> tsig_algorithm \<Rightarrow> string
       \<Rightarrow> core_error + tsig_key" where
  "tsig_key_from_base64 base64_decode name alg text =
     (let cleaned = strip_whitespace (as_bytes text) in
      if cleaned = [] then Inl (Tsig ''base64 key string is empty'')
      else rbind (ok_or (Tsig ''invalid base64'') (base64_decode cleaned))
             (tsig_key_new name alg))"

definition tsig_key_generate ::
    "(nat \<Rightarrow> byte list option) \<Rightarrow> domain_name \<Rightarrow> tsig_algorithm \<Rightarrow> core_error + tsig_key" where
  "tsig_key_generate random name alg =
     rbind (ok_or (Tsig ''random generation failed'') (random (key_length alg)))
       (tsig_key_new name alg)"

fun invalid_key_message :: "tsig_algorithm \<Rightarrow> string" where
  "invalid_key_message HmacSha256 = ''invalid HMAC-SHA256 key length''"
| "invalid_key_message HmacSha512 = ''invalid HMAC-SHA512 key length''"
| "invalid_key_message HmacSha1 = ''invalid HMAC-SHA1 key length''"

fun verification_failed_message :: "tsig_algorithm \<Rightarrow> string" where
  "verification_failed_message HmacSha256 = ''HMAC-SHA256 verification failed''"
| "verification_failed_message HmacSha512 = ''HMAC-SHA512 verification failed''"
| "verification_failed_message HmacSha1 = ''HMAC-SHA1 verification failed''"

definition key_sign :: "mac_lib \<Rightarrow> tsig_key \<Rightarrow> byte list \<Rightarrow> core_error + byte list" where
  "key_sign lib key message =
     ok_or (Tsig (invalid_key_message (key_algorithm key)))
       (mac_tag lib (key_algorithm key) (key_material key) message)"

definition key_verify :: "mac_lib \<Rightarrow> tsig_key \<Rightarrow> byte list \<Rightarrow> byte list \<Rightarrow> core_error + unit" where
  "key_verify lib key message mac =
     rbind (ok_or (Tsig (invalid_key_message (key_algorithm key)))
             (mac_check lib (key_algorithm key) (key_material key) message mac))
       (\<lambda>accepted. if accepted then Inr ()
          else Inl (Tsig (verification_failed_message (key_algorithm key))))"

definition tsig_key_display :: "tsig_key \<Rightarrow> string" where
  "tsig_key_display key =
     ''TsigKey('' @ name_display (key_name key) @ '', ''
       @ tsig_algorithm_display (key_algorithm key) @ '', [REDACTED])''"

section \<open>Names on the wire\<close>

text \<open>
  \<open>read_wire_name\<close>: the loop collects the labels and advances the cursor; \<open>len & 0xC0\<close>
  rejects compression pointers (and the two reserved label types).
\<close>

function read_wire_labels :: "byte list \<Rightarrow> nat \<Rightarrow> core_error + string list \<times> nat" where
  "read_wire_labels data pos =
     (if pos \<ge> length data then Inl (Tsig ''truncated wire name'')
      else let len_byte = data ! pos; len = unat len_byte; pos1 = pos + 1 in
        if len = 0 then Inr ([], pos1)
        else if len_byte AND 0xC0 \<noteq> 0 then
          Inl (Tsig ''compressed names not supported in TSIG'')
        else if pos1 + len > length data then Inl (Tsig ''truncated wire name label'')
        else let raw = slice data pos1 len in
          if \<not> utf8_valid raw then Inl (Tsig ''invalid UTF-8 in wire name'')
          else rmap (\<lambda>(ls, end_pos). (of_bytes raw # ls, end_pos)) (read_wire_labels data (pos1 + len)))"
  by pat_completeness auto
termination
  by (relation "measure (\<lambda>(data, pos). length data - pos)") auto

declare read_wire_labels.simps [simp del]

definition read_wire_name :: "byte list \<Rightarrow> nat \<Rightarrow> core_error + string \<times> nat" where
  "read_wire_name data pos =
     rmap (\<lambda>(ls, end_pos). (join_labels ls @ ''.'', end_pos)) (read_wire_labels data pos)"

section \<open>The TSIG record\<close>

record tsig_record =
  tsig_key_name :: domain_name
  tsig_algorithm :: tsig_algorithm
  time_signed :: u64
  fudge :: u16
  tsig_mac :: "byte list"
  original_id :: u16
  tsig_error :: u16
  other_data :: "byte list"
  tsig_wire :: "byte list"

definition u48_be :: "u64 \<Rightarrow> byte list" where
  "u48_be t = drop 2 (u64_be t)"

definition u48_of_be :: "byte list \<Rightarrow> u64" where
  "u48_of_be bs = u64_of_be ([0, 0] @ bs)"

text \<open>The TSIG variables of the MAC input (RFC 8945 section 4.3.3), as \<open>new\<close> and
  \<open>verify_response\<close> lay them out.\<close>

definition tsig_variables ::
    "domain_name \<Rightarrow> domain_name \<Rightarrow> u64 \<Rightarrow> u16 \<Rightarrow> u16 \<Rightarrow> byte list \<Rightarrow> byte list" where
  "tsig_variables name alg_domain time fdg err other =
     write_wire_canonical name @ u16_be 255 @ u32_be 0 @ write_wire_canonical alg_domain
       @ u48_be time @ u16_be fdg @ u16_be err @ u16_be (word_of_nat (length other)) @ other"

definition algorithm_domain :: "tsig_algorithm \<Rightarrow> core_error + domain_name" where
  "algorithm_domain alg =
     map_err (\<lambda>e. Tsig (''invalid built-in TSIG algorithm name '' @ dns_name alg @ '': ''
                @ core_error_display e))
       (domain_new (dns_name alg))"

definition message_id :: "byte list \<Rightarrow> u16" where
  "message_id message = (if length message \<ge> 2 then u16_at message 0 else 0)"

definition prior_mac_bytes :: "byte list option \<Rightarrow> byte list" where
  "prior_mac_bytes request_mac =
     (case request_mac of None \<Rightarrow> []
      | Some prior \<Rightarrow> u16_be (word_of_nat (length prior)) @ prior)"

definition tsig_rdata :: "domain_name \<Rightarrow> u64 \<Rightarrow> u16 \<Rightarrow> byte list \<Rightarrow> u16 \<Rightarrow> u16 \<Rightarrow> byte list" where
  "tsig_rdata alg_domain time fdg mac orig err =
     write_wire_canonical alg_domain @ u48_be time @ u16_be fdg
       @ u16_be (word_of_nat (length mac)) @ mac @ u16_be orig @ u16_be err @ u16_be 0"

definition tsig_new ::
    "mac_lib \<Rightarrow> tsig_key \<Rightarrow> byte list \<Rightarrow> u64 \<Rightarrow> byte list option \<Rightarrow> core_error + tsig_record" where
  "tsig_new lib key message timestamp request_mac =
     (if timestamp \<ge> push_bit 48 1 then
        Inl (Tsig ''TSIG timestamp exceeds the 48-bit wire field'')
      else if (case request_mac of None \<Rightarrow> False | Some mac \<Rightarrow> length mac > 65535) then
        Inl (Tsig ''TSIG prior MAC exceeds the 16-bit length field'')
      else let orig = message_id message in
        rbind (algorithm_domain (key_algorithm key)) (\<lambda>alg_domain.
        rbind (key_sign lib key
                 (prior_mac_bytes request_mac @ message
                    @ tsig_variables (key_name key) alg_domain timestamp 300 0 [])) (\<lambda>mac.
        let rdata = tsig_rdata alg_domain timestamp 300 mac orig 0;
            wire = write_wire_canonical (key_name key) @ u16_be 250 @ u16_be 255 @ u32_be 0
                     @ u16_be (word_of_nat (length rdata)) @ rdata
        in Inr \<lparr>tsig_key_name = key_name key, tsig_algorithm = key_algorithm key,
                time_signed = timestamp, fudge = 300, tsig_mac = mac, original_id = orig,
                tsig_error = 0, other_data = [], tsig_wire = wire\<rparr>)))"

text \<open>
  \<open>alg_name_str.to_lowercase()\<close> is compared with ASCII names only; no character outside
  ASCII has a lower-case form made of the letters that occur in them, so ASCII lower-casing
  decides the same.
\<close>

definition algorithm_of_name :: "string \<Rightarrow> core_error + tsig_algorithm" where
  "algorithm_of_name name =
     (let lowered = map lower_char name in
      if lowered = ''hmac-sha256.'' then Inr HmacSha256
      else if lowered = ''hmac-sha512.'' then Inr HmacSha512
      else if lowered = ''hmac-sha1.'' then Inr HmacSha1
      else Inl (Tsig (''unsupported TSIG algorithm: '' @ lowered)))"

text \<open>A two-byte field of the RDATA, and the variable-length fields, read at the cursor.\<close>

definition read_u16_field :: "string \<Rightarrow> byte list \<Rightarrow> nat \<Rightarrow> core_error + u16 \<times> nat" where
  "read_u16_field what wire pos =
     (if pos + 2 > length wire then Inl (Tsig (''truncated TSIG '' @ what))
      else Inr (u16_at wire pos, pos + 2))"

definition read_bytes_field :: "string \<Rightarrow> nat \<Rightarrow> byte list \<Rightarrow> nat \<Rightarrow> core_error + byte list \<times> nat" where
  "read_bytes_field what n wire pos =
     (if pos + n > length wire then Inl (Tsig (''truncated TSIG '' @ what))
      else Inr (slice wire pos n, pos + n))"

definition tsig_parse :: "byte list \<Rightarrow> core_error + tsig_record" where
  "tsig_parse wire =
     rbind (read_wire_name wire 0) (\<lambda>(key_name_str, pos).
     rbind (map_err (\<lambda>e. Tsig (''invalid TSIG key name: '' @ core_error_display e))
              (domain_new key_name_str)) (\<lambda>name.
     rbind (read_u16_field ''type'' wire pos) (\<lambda>(rtype, pos).
     if rtype \<noteq> 250 then Inl (Tsig (''expected TSIG type 250, got '' @ show_nat (unat rtype)))
     else
     rbind (read_u16_field ''class'' wire pos) (\<lambda>(rclass, pos).
     if rclass \<noteq> 255 then
       Inl (Tsig (''expected TSIG class ANY (255), got '' @ show_nat (unat rclass)))
     else if pos + 4 > length wire then Inl (Tsig ''truncated TSIG TTL'')
     else if u32_at wire pos \<noteq> 0 then
       Inl (Tsig (''TSIG TTL must be 0, got '' @ show_nat (unat (u32_at wire pos))))
     else
     rbind (read_u16_field ''RDLENGTH'' wire (pos + 4)) (\<lambda>(rdlength, pos).
     if pos + unat rdlength > length wire then Inl (Tsig ''TSIG RDATA truncated'')
     else if pos + unat rdlength \<noteq> length wire then
       Inl (Tsig ''unexpected bytes after complete TSIG record'')
     else
     rbind (read_wire_name wire pos) (\<lambda>(alg_name, pos).
     rbind (algorithm_of_name alg_name) (\<lambda>alg.
     rbind (read_bytes_field ''time_signed'' 6 wire pos) (\<lambda>(time_bytes, pos).
     rbind (read_u16_field ''fudge'' wire pos) (\<lambda>(fdg, pos).
     rbind (read_u16_field ''MAC size'' wire pos) (\<lambda>(mac_size, pos).
     rbind (read_bytes_field ''MAC'' (unat mac_size) wire pos) (\<lambda>(mac, pos).
     rbind (read_u16_field ''original ID'' wire pos) (\<lambda>(orig, pos).
     rbind (read_u16_field ''error'' wire pos) (\<lambda>(err, pos).
     rbind (read_u16_field ''other_len'' wire pos) (\<lambda>(other_len, pos).
     rbind (read_bytes_field ''other_data'' (unat other_len) wire pos) (\<lambda>(other, pos).
     if pos \<noteq> length wire then Inl (Tsig ''TSIG RDATA contains unconsumed bytes'')
     else Inr \<lparr>tsig_key_name = name, tsig_algorithm = alg, time_signed = u48_of_be time_bytes,
               fudge = fdg, tsig_mac = mac, original_id = orig, tsig_error = err,
               other_data = other, tsig_wire = wire\<rparr>)))))))))))))))"

definition abs_diff :: "u64 \<Rightarrow> u64 \<Rightarrow> u64" where
  "abs_diff a b = (if a < b then b - a else a - b)"

definition verify_time :: "tsig_record \<Rightarrow> u64 \<Rightarrow> core_error + unit" where
  "verify_time t now =
     (if abs_diff now (time_signed t) > ucast (fudge t) then
        Inl (Tsig (''TSIG time outside fudge window: signed='' @ show_nat (unat (time_signed t))
               @ '', now='' @ show_nat (unat now) @ '', fudge='' @ show_nat (unat (fudge t))))
      else Inr ())"

text \<open>The bytes whose MAC \<open>verify_response\<close> checks.\<close>

definition response_mac_input ::
    "tsig_key \<Rightarrow> domain_name \<Rightarrow> byte list \<Rightarrow> tsig_record \<Rightarrow> byte list \<Rightarrow> byte list" where
  "response_mac_input key alg_domain response t request_mac =
     u16_be (word_of_nat (length request_mac)) @ request_mac @ response
       @ tsig_variables (key_name key) alg_domain (time_signed t) (fudge t) (tsig_error t) (other_data t)"

definition verify_response ::
    "mac_lib \<Rightarrow> tsig_key \<Rightarrow> byte list \<Rightarrow> tsig_record \<Rightarrow> byte list \<Rightarrow> u64 \<Rightarrow> core_error + unit" where
  "verify_response lib key response t request_mac now =
     (if \<not> name_eq (tsig_key_name t) (key_name key) then
        Inl (Tsig ''TSIG response key name does not match configured key'')
      else if tsig_algorithm t \<noteq> key_algorithm key then
        Inl (Tsig ''TSIG response algorithm does not match configured key'')
      else if length response < 12 then
        Inl (Tsig ''TSIG response contains a truncated DNS header'')
      else let response_id = u16_at response 0 in
        if original_id t \<noteq> response_id then
          Inl (Tsig (''TSIG original ID '' @ show_nat (unat (original_id t))
                 @ '' does not match DNS response ID '' @ show_nat (unat response_id)))
        else rbind (verify_time t now) (\<lambda>_.
          rbind (algorithm_domain (key_algorithm key)) (\<lambda>alg_domain.
            key_verify lib key (response_mac_input key alg_domain response t request_mac)
              (tsig_mac t))))"

section \<open>Reading back what was written\<close>

lemma read_wire_labels_octets:
  assumes "list_all plain_label ls" and "holds_at data pos (concat (map label_octets ls) @ [0])"
  shows "read_wire_labels data pos
    = Inr (map of_bytes ls, pos + length (concat (map label_octets ls) @ [0]))"
  using assms
proof (induction ls arbitrary: pos)
  case Nil
  then show ?case by (subst read_wire_labels.simps) (simp add: holds_at_Cons Let_def)
next
  case (Cons bs ls)
  let ?n = "length bs"
  from Cons.prems have p: "plain_label bs" by simp
  then have n: "0 < ?n" "?n \<le> 63" by (auto simp: plain_label_def)
  from Cons.prems have len: "pos < length data" "data ! pos = word_of_nat ?n"
    and here: "holds_at data (Suc pos) bs"
    and rest: "holds_at data (Suc pos + ?n) (concat (map label_octets ls) @ [0])"
    by (simp_all add: label_octets_def [of bs] holds_at_Cons holds_at_append add.assoc)
  have u: "unat (word_of_nat ?n :: byte) = ?n"
    using n by (simp add: unat_of_nat)
  have "(word_of_nat ?n :: byte) AND 0xC0 = 0"
  proof -
    have "take_bit 6 (word_of_nat ?n :: byte) = word_of_nat ?n"
      using n by (simp add: word_unat_eq_iff unsigned_take_bit_eq u take_bit_nat_eq_self)
    moreover have "take_bit 6 (word_of_nat ?n :: byte) AND 0xC0 = 0"
      by (simp add: take_bit_eq_mask and.assoc mask_eq_exp_minus_1)
    ultimately show ?thesis by simp
  qed
  moreover have "slice data (Suc pos) ?n = bs" "Suc pos + ?n \<le> length data"
    using here by (auto simp: holds_at_def)
  moreover note Cons.IH [OF _ rest]
  ultimately show ?case
    using Cons.prems(1) len n u plain_label_utf8 [OF p]
    by (subst read_wire_labels.simps) (simp add: Let_def label_octets_def [of bs])
qed

lemma read_wire_name_canonical:
  assumes "plain_name d" "name_wf d" "holds_at data pos (write_wire_canonical d)"
  shows "read_wire_name data pos
    = Inr (name_display (wire_labels_name (canonical_labels d)), pos + wire_len d)"
proof -
  have "list_all plain_label (canonical_labels d)"
    using assms(1) by (auto simp: plain_name_def canonical_labels_def list_all_iff
        intro: plain_label_lower)
  from read_wire_labels_octets [OF this, of data pos] assms(3)
  show ?thesis
    by (simp add: read_wire_name_def write_wire_canonical_labels join_labels_text
        flip: length_write_wire_canonical)
qed

lemma algorithm_domain_ok:
  "\<exists>d. algorithm_domain alg = Inr d \<and> plain_name d \<and> name_wf d
     \<and> name_display (wire_labels_name (canonical_labels d)) = dns_name alg
     \<and> wire_len d \<le> 13"
proof -
  have "domain_new (dns_name alg) = Inr \<lparr>labels =
      [\<lparr>label_inner = butlast (dns_name alg), label_wire = as_bytes (butlast (dns_name alg))\<rparr>]\<rparr>"
    by (induct alg; code_simp)
  moreover define d where "d = \<lparr>labels =
      [\<lparr>label_inner = butlast (dns_name alg), label_wire = as_bytes (butlast (dns_name alg))\<rparr>]\<rparr>"
  ultimately have "algorithm_domain alg = Inr d" and "name_wf d"
    by (auto simp: algorithm_domain_def intro: domain_new_wf)
  moreover have "plain_name d" 
    unfolding d_def by (induct alg; code_simp)
  moreover have "name_display (wire_labels_name (canonical_labels d)) = dns_name alg"
    unfolding d_def by (induct alg; code_simp)
  moreover have "wire_len d \<le> 13"
    unfolding d_def by (induct alg; code_simp)
  ultimately show ?thesis by blast
qed

lemma algorithm_of_dns_name: "algorithm_of_name (dns_name alg) = Inr alg"
  by (induct alg; code_simp)

interpretation u16_field: cursor_reader u16_be "read_u16_field what" "(=)" "\<lambda>_. True"
  by unfold_locales (auto simp: read_u16_field_def dest: holds_at_u16)

interpretation wire_name: cursor_reader write_wire_canonical read_wire_name
  "\<lambda>d text. \<exists>d'. domain_new text = Inr d' \<and> name_eq d' d" "\<lambda>d. plain_name d \<and> name_wf d"
  using canonical_text_name by unfold_locales (auto simp: read_wire_name_canonical)

lemma read_u16_field_holds:
  "holds_at wire pos (u16_be w) \<Longrightarrow> read_u16_field what wire pos = Inr (w, pos + 2)"
  by (auto simp: read_u16_field_def dest: holds_at_u16)

lemma read_bytes_field_holds:
  "holds_at wire pos bs \<Longrightarrow> read_bytes_field what (length bs) wire pos = Inr (bs, pos + length bs)"
  by (simp add: read_bytes_field_def holds_at_def)

lemma length_u48_be [simp]: "length (u48_be t) = 6"
  by (simp add: u48_be_def)

lemma u48_be_inv:
  assumes "t < push_bit 48 1"
  shows "u48_of_be (u48_be t) = t"
proof -
  from assms have t: "unat t div 256 ^ 6 = 0"
    by (simp add: word_less_nat_alt)
  have "to_be 2 0 = [0, 0]" by (simp add: numeral_2_eq_2)
  with t have "u64_be t = [0, 0] @ to_be 6 (unat t)"
    using to_be_add [of 2 6 "unat t"] by (simp add: u64_be_def)
  then have "[0, 0] @ u48_be t = u64_be t" by (simp add: u48_be_def)
  then show ?thesis by (metis u48_of_be_def uN_of_be_inv(3))
qed

lemma tsig_new_Inr:
  assumes "tsig_new lib key message ts rm = Inr t"
  obtains alg_domain mac where
    "ts < push_bit 48 1" and "case rm of None \<Rightarrow> True | Some m \<Rightarrow> length m \<le> 65535"
    and "algorithm_domain (key_algorithm key) = Inr alg_domain"
    and "mac_tag lib (key_algorithm key) (key_material key)
        (prior_mac_bytes rm @ message @ tsig_variables (key_name key) alg_domain ts 300 0 []) = Some mac"
    and "t = \<lparr>tsig_key_name = key_name key, tsig_algorithm = key_algorithm key, time_signed = ts,
        fudge = 300, tsig_mac = mac, original_id = message_id message, tsig_error = 0,
        other_data = [],
        tsig_wire = (let rdata = tsig_rdata alg_domain ts 300 mac (message_id message) 0 in
          write_wire_canonical (key_name key) @ u16_be 250 @ u16_be 255 @ u32_be 0
            @ u16_be (word_of_nat (length rdata)) @ rdata)\<rparr>"
  using assms
  by (auto simp: tsig_new_def key_sign_def result_simps Let_def not_le split: option.splits if_splits)

lemma tsig_new_ok:
  assumes "mac_lib_ok lib" and "ts < push_bit 48 1"
    and "case rm of None \<Rightarrow> True | Some m \<Rightarrow> length m \<le> 65535"
  shows "\<exists>t. tsig_new lib key message ts rm = Inr t"
proof -
  obtain d where "algorithm_domain (key_algorithm key) = Inr d"
    using algorithm_domain_ok by blast
  moreover obtain mac where "mac_tag lib (key_algorithm key) (key_material key)
      (prior_mac_bytes rm @ message @ tsig_variables (key_name key) d ts 300 0 []) = Some mac"
    using assms(1) by (auto simp: mac_lib_ok_def) metis
  ultimately show ?thesis
    using assms(2,3) by (cases rm) (auto simp: tsig_new_def key_sign_def not_le Let_def)
qed

lemma tsig_parse_fields:
  assumes "plain_name name" "name_wf name"
    and "algorithm_domain alg = Inr alg_domain" and "ts < push_bit 48 1"
    and "length mac \<le> 64"
    and wire: "wire = (let rdata = tsig_rdata alg_domain ts fdg mac orig err in
          write_wire_canonical name @ u16_be 250 @ u16_be 255 @ u32_be 0
            @ u16_be (word_of_nat (length rdata)) @ rdata)"
  shows "tsig_parse wire = Inr \<lparr>tsig_key_name = wire_labels_name (canonical_labels name),
    tsig_algorithm = alg, time_signed = ts, fudge = fdg, tsig_mac = mac, original_id = orig,
    tsig_error = err, other_data = [], tsig_wire = wire\<rparr>"
proof -
  let ?n = "wire_len name" and ?a = "wire_len alg_domain"
  let ?r = "tsig_rdata alg_domain ts fdg mac orig err"
  have alg: "plain_name alg_domain" "name_wf alg_domain" "?a \<le> 13"
    "name_display (wire_labels_name (canonical_labels alg_domain)) = dns_name alg"
    using algorithm_domain_ok [of alg] assms(3) by auto
  have len: "unat (word_of_nat (length mac) :: u16) = length mac"
    using assms(5) by (intro unat_word_of_nat) simp
  have rlen: "unat (word_of_nat (length ?r) :: u16) = length ?r"
    using assms(5) alg(3) by (intro unat_word_of_nat) (simp add: tsig_rdata_def)
  have len_wire: "length wire = ?n + 10 + length ?r"
    by (simp add: wire Let_def)
  define rl :: u16 where "rl = word_of_nat (length ?r)"
  from wire have eq: "wire = write_wire_canonical name @ u16_be 250 @ u16_be 255 @ u32_be 0
      @ u16_be rl @ write_wire_canonical alg_domain @ u48_be ts @ u16_be fdg
      @ u16_be (word_of_nat (length mac)) @ mac @ u16_be orig @ u16_be err @ u16_be 0"
    by (simp add: Let_def rl_def tsig_rdata_def)
  then have "holds_at wire 0 (write_wire_canonical name @ u16_be 250 @ u16_be 255 @ u32_be 0
      @ u16_be rl @ write_wire_canonical alg_domain @ u48_be ts @ u16_be fdg
      @ u16_be (word_of_nat (length mac)) @ mac @ u16_be orig @ u16_be err @ u16_be 0)"
    by simp
  then have at: "holds_at wire 0 (write_wire_canonical name)"
    "holds_at wire ?n (u16_be 250)" "holds_at wire (?n + 2) (u16_be 255)"
    "holds_at wire (?n + 4) (u32_be 0)" "holds_at wire (?n + 8) (u16_be rl)"
    "holds_at wire (?n + 10) (write_wire_canonical alg_domain)"
    "holds_at wire (?n + 10 + ?a) (u48_be ts)" "holds_at wire (?n + 16 + ?a) (u16_be fdg)"
    "holds_at wire (?n + 18 + ?a) (u16_be (word_of_nat (length mac)))"
    "holds_at wire (?n + 20 + ?a) mac" "holds_at wire (?n + 20 + ?a + length mac) (u16_be orig)"
    "holds_at wire (?n + 22 + ?a + length mac) (u16_be err)"
    "holds_at wire (?n + 24 + ?a + length mac) (u16_be 0)"
    by (simp_all add: holds_at_append ac_simps del: add_2_eq_Suc add_2_eq_Suc')
  note read = read_u16_field_holds read_wire_name_canonical [OF assms(1,2)]
    read_wire_name_canonical [OF alg(1,2)]
  have name: "read_wire_name wire 0 = Inr (name_display (wire_labels_name (canonical_labels name)), ?n)"
    using read_wire_name_canonical [OF assms(1,2) at(1)] by simp
  have ttl: "u32_at wire (?n + 4) = 0" "?n + 4 + 4 \<le> length wire"
    using holds_at_u32 [OF at(4)] by (simp_all add: add.assoc)
  have alg_name: "read_wire_name wire (?n + 10) = Inr (dns_name alg, ?n + 10 + ?a)"
    using read_wire_name_canonical [OF alg(1,2) at(6)] alg(4) by simp
  note fields = at(2,3,5,8,9,11,12,13) [THEN read_u16_field_holds]
  note bytes = read_bytes_field_holds [OF at(7)] read_bytes_field_holds [OF at(10)]
  have other: "read_bytes_field what 0 wire (length wire) = Inr ([], length wire)" for what
    by (simp add: read_bytes_field_def slice_def)
  have lr: "length ?r = ?a + 16 + length mac" by (simp add: tsig_rdata_def)
  show ?thesis
    unfolding tsig_parse_def
    using fields bytes other [unfolded len_wire lr] ttl alg_name
    by (simp add: name canonical_text_name(1) [OF assms(1,2)] len_wire lr rlen [folded rl_def] len
        algorithm_of_dns_name u48_be_inv [OF assms(4)] ac_simps del: add_2_eq_Suc add_2_eq_Suc')
qed

lemma verify_time_iff: "verify_time t now = Inr () \<longleftrightarrow> abs_diff now (time_signed t) \<le> ucast (fudge t)"
  by (auto simp: verify_time_def not_less)

lemma key_verify_iff:
  assumes "mac_lib_ok lib"
  shows "key_verify lib key m mac = Inr () \<longleftrightarrow> mac_tag lib (key_algorithm key) (key_material key) m = Some mac"
proof -
  obtain t where "mac_tag lib (key_algorithm key) (key_material key) m = Some t"
    and "mac_check lib (key_algorithm key) (key_material key) m mac = Some (mac = t)"
    using assms unfolding mac_lib_ok_def by metis
  then show ?thesis by (auto simp: key_verify_def)
qed

lemma mac_length_le: "mac_length alg \<le> 64"
  by (cases alg) (simp_all add: mac_length_def)

lemma mac_tag_length:
  "mac_lib_ok lib \<Longrightarrow> mac_tag lib alg k m = Some t \<Longrightarrow> length t \<le> 64"
  using mac_length_le [of alg] by (metis mac_lib_ok_def option.inject)

lemma tsig_wire_readback:
  assumes "mac_lib_ok lib" "plain_name (key_name key)" "name_wf (key_name key)"
    and new: "tsig_new lib key message ts rm = Inr t"
  shows "\<exists>t'. tsig_parse (tsig_wire t) = Inr t' \<and> name_eq (tsig_key_name t') (key_name key)
    \<and> t' = t\<lparr>tsig_key_name := tsig_key_name t'\<rparr>"
proof -
  from new obtain d mac where "ts < push_bit 48 1"
    and "algorithm_domain (key_algorithm key) = Inr d"
    and mac: "mac_tag lib (key_algorithm key) (key_material key)
        (prior_mac_bytes rm @ message @ tsig_variables (key_name key) d ts 300 0 []) = Some mac"
    and t: "t = \<lparr>tsig_key_name = key_name key, tsig_algorithm = key_algorithm key, time_signed = ts,
        fudge = 300, tsig_mac = mac, original_id = message_id message, tsig_error = 0,
        other_data = [],
        tsig_wire = (let rdata = tsig_rdata d ts 300 mac (message_id message) 0 in
          write_wire_canonical (key_name key) @ u16_be 250 @ u16_be 255 @ u32_be 0
            @ u16_be (word_of_nat (length rdata)) @ rdata)\<rparr>"
    by (rule tsig_new_Inr)
  with tsig_parse_fields [OF assms(2,3) _ _ mac_tag_length [OF assms(1) mac] refl]
  show ?thesis
    using canonical_text_name(2) [OF assms(2,3)] by simp
qed

lemma uint_abs_diff: "uint (abs_diff a b) = \<bar>uint a - uint b\<bar>"
  using uint_sub_lem [of a b] uint_sub_lem [of b a]
  by (auto simp: abs_diff_def word_less_def)

lemma verify_time_iff_int:
  "verify_time t now = Inr () \<longleftrightarrow> \<bar>uint now - uint (time_signed t)\<bar> \<le> uint (fudge t)"
proof -
  have "uint (ucast (fudge t) :: u64) = uint (fudge t)"
    by (simp add: uint_up_ucast is_up)
  then show ?thesis
    by (simp add: verify_time_iff word_le_def uint_abs_diff)
qed

lemma verify_response_iff:
  assumes "mac_lib_ok lib"
  shows "verify_response lib key response t request_mac now = Inr () \<longleftrightarrow>
    name_eq (tsig_key_name t) (key_name key) \<and> tsig_algorithm t = key_algorithm key
    \<and> 12 \<le> length response \<and> original_id t = u16_at response 0
    \<and> \<bar>uint now - uint (time_signed t)\<bar> \<le> uint (fudge t)
    \<and> (\<exists>d. algorithm_domain (key_algorithm key) = Inr d
         \<and> mac_tag lib (key_algorithm key) (key_material key)
             (response_mac_input key d response t request_mac) = Some (tsig_mac t))"
  by (auto simp: verify_response_def Let_def result_simps not_less verify_time_iff_int
      key_verify_iff [OF assms])

lemma tsig_new_length:
  assumes "mac_lib_ok lib" "tsig_new lib key message ts rm = Inr t"
  shows "length (tsig_wire t) \<le> wire_len (key_name key) + 103"
proof -
  obtain d mac where "algorithm_domain (key_algorithm key) = Inr d"
    and "mac_tag lib (key_algorithm key) (key_material key)
        (prior_mac_bytes rm @ message @ tsig_variables (key_name key) d ts 300 0 []) = Some mac"
    and t: "tsig_wire t = (let rdata = tsig_rdata d ts 300 mac (message_id message) 0 in
          write_wire_canonical (key_name key) @ u16_be 250 @ u16_be 255 @ u32_be 0
            @ u16_be (word_of_nat (length rdata)) @ rdata)"
    using assms(2) by (elim tsig_new_Inr) simp
  then have "wire_len d \<le> 13" "length mac \<le> 64"
    using algorithm_domain_ok [of "key_algorithm key"] mac_tag_length [OF assms(1)] by auto
  with t show ?thesis by (simp add: Let_def tsig_rdata_def)
qed

lemma signed_response_fields:
  assumes "tsig_new lib key message ts (Some request_mac) = Inr t" "12 \<le> length message"
  shows "tsig_key_name t = key_name key" "tsig_algorithm t = key_algorithm key" "time_signed t = ts"
    "fudge t = 300" "original_id t = u16_at message 0" "tsig_error t = 0"
    "\<exists>d. algorithm_domain (key_algorithm key) = Inr d
       \<and> mac_tag lib (key_algorithm key) (key_material key)
           (response_mac_input key d message t request_mac) = Some (tsig_mac t)"
  using assms
  by (elim tsig_new_Inr; simp add: message_id_def response_mac_input_def prior_mac_bytes_def)+

lemma signed_response_verified:
  assumes "mac_lib_ok lib" "plain_name (key_name key)" "name_wf (key_name key)"
    and "12 \<le> length message" and "tsig_new lib key message ts (Some request_mac) = Inr t"
    and "\<bar>uint now - uint ts\<bar> \<le> 300"
  shows "\<exists>t'. tsig_parse (tsig_wire t) = Inr t' \<and> tsig_error t' = 0
    \<and> verify_response lib key message t' request_mac now = Inr ()"
proof -
  note new = assms(5)
  obtain t' where "tsig_parse (tsig_wire t) = Inr t'"
    and "name_eq (tsig_key_name t') (key_name key)" and t': "t' = t\<lparr>tsig_key_name := tsig_key_name t'\<rparr>"
    using tsig_wire_readback [OF assms(1-3) new] by blast
  moreover from t' have "tsig_algorithm t' = tsig_algorithm t" "time_signed t' = time_signed t"
    "fudge t' = fudge t" "original_id t' = original_id t" "tsig_error t' = tsig_error t"
    "other_data t' = other_data t" "tsig_mac t' = tsig_mac t"
    by (metis tsig_record.select_convs(2-8) tsig_record.surjective tsig_record.update_convs(1))+
  ultimately show ?thesis
    using signed_response_fields [OF new assms(4)] assms(4,6)
    by (auto simp: verify_response_iff [OF assms(1)] response_mac_input_def)
qed

section \<open>Properties\<close>

text \<open>
  The TSIG record that \<open>TsigRecord::new\<close> writes is read back by \<open>parse_from_wire\<close>:
  every field is the field that was signed, and the key name is the same DNS name (in
  canonical case), for keys whose name needs no escape in text.
\<close>

lemma tsig_wire_roundtrip:
  assumes "mac_lib_ok lib" "plain_name (key_name key)" "name_wf (key_name key)"
    and new: "tsig_new lib key message ts rm = Inr t"
  shows "\<exists>t'. tsig_parse (tsig_wire t) = Inr t' \<and> name_eq (tsig_key_name t') (key_name key)
    \<and> t' = t\<lparr>tsig_key_name := tsig_key_name t'\<rparr>"
  by (rule tsig_wire_readback [OF assms])

text \<open>A concrete MAC function and key, at which the hypotheses are shown to hold.\<close>

definition sample_tag :: "tsig_algorithm \<Rightarrow> byte list \<Rightarrow> byte list \<Rightarrow> byte list" where
  "sample_tag alg k m = take (mac_length alg) (rev m @ k @ replicate 64 0)"

definition sample_lib :: mac_lib where
  "sample_lib = \<lparr>mac_tag = \<lambda>alg k m. Some (sample_tag alg k m),
                 mac_check = \<lambda>alg k m t. Some (t = sample_tag alg k m)\<rparr>"

definition sample_key :: tsig_key where
  "sample_key = \<lparr>key_name = wire_labels_name [[107, 69, 121]], key_algorithm = HmacSha256,
                 key_material = [1, 2, 3]\<rparr>"

lemma sample_lib_ok: "mac_lib_ok sample_lib"
proof -
  have "length (sample_tag alg k m) = mac_length alg" for alg k m
    using mac_length_le [of alg] by (simp add: sample_tag_def)
  then show ?thesis by (simp add: mac_lib_ok_def sample_lib_def)
qed

lemma sample_key_name:
  "plain_name (key_name sample_key)" "name_wf (key_name sample_key)"
proof -
  show "plain_name (key_name sample_key)"
    by (simp add: sample_key_def wire_labels_name_def plain_name_def plain_label_def)
  show "name_wf (key_name sample_key)"
    unfolding sample_key_def by (simp add: plain_label_def label_octets_def wire_labels_name_wf)
qed

lemma tsig_wire_roundtrip_witness:
  "\<exists>t t'. tsig_new sample_lib sample_key (replicate 12 7) 1000 None = Inr t
     \<and> tsig_parse (tsig_wire t) = Inr t' \<and> name_eq (tsig_key_name t') (key_name sample_key)
     \<and> t' = t\<lparr>tsig_key_name := tsig_key_name t'\<rparr>"
proof -
  obtain t where t: "tsig_new sample_lib sample_key (replicate 12 7) 1000 None = Inr t"
    using tsig_new_ok [OF sample_lib_ok, of 1000 None] by auto
  with tsig_wire_roundtrip [OF sample_lib_ok sample_key_name t] show ?thesis by blast
qed

section \<open>The layout of RFC 8945\<close>

text \<open>The names of the algorithms on the wire, and integers in network order.\<close>

fun algorithm_octets :: "tsig_algorithm \<Rightarrow> byte list" where
  "algorithm_octets HmacSha256 = 11 # as_bytes ''hmac-sha256'' @ [0]"
| "algorithm_octets HmacSha512 = 11 # as_bytes ''hmac-sha512'' @ [0]"
| "algorithm_octets HmacSha1 = 9 # as_bytes ''hmac-sha1'' @ [0]"

lemma algorithm_domain_octets:
  "\<exists>d. algorithm_domain alg = Inr d \<and> write_wire_canonical d = algorithm_octets alg"
proof -
  have "rmap write_wire_canonical (algorithm_domain alg) = Inr (algorithm_octets alg)"
    by (induct alg; code_simp)
  then show ?thesis by (auto simp: rmap_eq_Inr)
qed

lemma to_be_mod: "to_be k (n mod 256 ^ k) = to_be k n"
  using to_be_of_be [of "to_be k n"] by (simp add: of_be_to_be)

lemma length_u16_be_to_be: "u16_be (word_of_nat n) = to_be 2 n"
  using to_be_mod [of 2 n] by (simp add: u16_be_def unat_of_nat)

lemma u48_be_to_be: "u48_be t = to_be 6 (unat t)"
  using to_be_add [of 2 6 "unat t"] by (simp add: u48_be_def u64_be_def)

lemma response_mac_layout:
  assumes "write_wire_canonical d = algorithm_octets alg"
  shows "response_mac_input key d response t request_mac =
    to_be 2 (length request_mac) @ request_mac @ response
      @ concat (map (\<lambda>l. word_of_nat (length l) # l) (canonical_labels (key_name key))) @ [0]
      @ [0, 255] @ [0, 0, 0, 0] @ algorithm_octets alg
      @ to_be 6 (unat (time_signed t)) @ to_be 2 (unat (fudge t)) @ to_be 2 (unat (tsig_error t))
      @ to_be 2 (length (other_data t)) @ other_data t"
proof -
  have "u16_be 255 = [0, 255]" "u32_be 0 = [0, 0, 0, 0]" by code_simp+
  moreover have "write_wire_canonical (key_name key)
      = concat (map (\<lambda>l. word_of_nat (length l) # l) (canonical_labels (key_name key))) @ [0]"
    unfolding write_wire_canonical_labels by (simp add: label_octets_def [abs_def])
  ultimately show ?thesis
    by (simp add: response_mac_input_def tsig_variables_def assms length_u16_be_to_be u48_be_to_be
        u16_be_def [of "fudge t"] u16_be_def [of "tsig_error t"])
qed

text \<open>
  C14: \<open>verify_response\<close> accepts a response exactly when key name, algorithm and message ID
  are the expected ones, the signing time is within the fudge window, and the MAC of the TSIG
  record is the tag of the octets that RFC 8945 lays down: the length of the request MAC and the
  MAC, the response, the key name in lower case, class ANY, TTL 0, the name of the algorithm,
  and the time, fudge, error code and other data of the received record. So nothing is accepted
  without a valid MAC, and every field of the record is either compared or covered by the MAC.
\<close>

theorem verify_response_accepts_iff:
  assumes "mac_lib_ok lib"
  shows "verify_response lib key response t request_mac now = Inr () \<longleftrightarrow>
    name_eq (tsig_key_name t) (key_name key) \<and> tsig_algorithm t = key_algorithm key
    \<and> 12 \<le> length response \<and> original_id t = u16_at response 0
    \<and> \<bar>uint now - uint (time_signed t)\<bar> \<le> uint (fudge t)
    \<and> mac_tag lib (key_algorithm key) (key_material key)
        (to_be 2 (length request_mac) @ request_mac @ response
          @ concat (map (\<lambda>l. word_of_nat (length l) # l) (canonical_labels (key_name key))) @ [0]
          @ [0, 255] @ [0, 0, 0, 0] @ algorithm_octets (key_algorithm key)
          @ to_be 6 (unat (time_signed t)) @ to_be 2 (unat (fudge t)) @ to_be 2 (unat (tsig_error t))
          @ to_be 2 (length (other_data t)) @ other_data t) = Some (tsig_mac t)"
proof -
  obtain d where "algorithm_domain (key_algorithm key) = Inr d"
    and "write_wire_canonical d = algorithm_octets (key_algorithm key)"
    using algorithm_domain_octets by blast
  then show ?thesis
    using verify_response_iff [OF assms] response_mac_layout by simp
qed

text \<open>A record with an error code and other data (BADTIME and the time of the server).\<close>

definition badtime_record :: tsig_record where
  "badtime_record = \<lparr>tsig_key_name = key_name sample_key, tsig_algorithm = HmacSha256, time_signed = 1000,
     fudge = 300,
     tsig_mac = [0x14, 5, 0, 0, 0, 0, 6, 0, 18, 0, 44, 1, 232, 3, 0, 0, 0, 0, 0,
       54, 53, 50, 97, 104, 115, 45, 99, 97, 109, 104, 11, 0],
     original_id = 0x0707, tsig_error = 18, other_data = [0, 0, 0, 0, 5, 0x14], tsig_wire = []\<rparr>"

theorem verify_response_accepts_iff_witness:
  "verify_response sample_lib sample_key (replicate 12 7) badtime_record [9, 9] 1299 = Inr ()
   \<and> verify_response sample_lib sample_key (replicate 12 7) (badtime_record\<lparr>tsig_error := 0\<rparr>) [9, 9] 1299 \<noteq> Inr ()
   \<and> verify_response sample_lib sample_key (replicate 12 7)
       (badtime_record\<lparr>other_data := [0, 0, 0, 0, 5, 0x15]\<rparr>) [9, 9] 1299 \<noteq> Inr ()"
  unfolding verify_response_accepts_iff [OF sample_lib_ok] by (intro conjI; code_simp)

text \<open>
  \<open>read_wire_name\<close> joins the raw octets of the labels without escaping them, so a key
  name with a dot inside a label is read back as a different name: the name of
  \<open>a\.b.\<close> (one label) is written and read as \<open>a.b.\<close> (two labels).
\<close>

lemma read_wire_name_loses_escapes:
  "\<exists>d d'. domain_new (''a'' @ backslash # ''.b.'') = Inr d
     \<and> read_wire_name (write_wire_canonical d) 0 = Inr (''a.b.'', 5)
     \<and> domain_new ''a.b.'' = Inr d' \<and> \<not> name_eq d' d"
proof -
  have "is_ok (domain_new (''a'' @ backslash # ''.b.''))" "is_ok (domain_new ''a.b.'')"
    by code_simp+
  then obtain d d' where d: "domain_new (''a'' @ backslash # ''.b.'') = Inr d"
    "domain_new ''a.b.'' = Inr d'" by (auto simp: is_ok_iff)
  have "rbind (domain_new (''a'' @ backslash # ''.b.'')) (\<lambda>d. read_wire_name (write_wire_canonical d) 0)
      = Inr (''a.b.'', 5)" by code_simp
  moreover have "rbind (domain_new (''a'' @ backslash # ''.b.''))
      (\<lambda>d. rmap (\<lambda>d'. name_eq d' d) (domain_new ''a.b.'')) = Inr False" by code_simp
  ultimately show ?thesis using d by auto
qed

end
