(* ===== verification/Update_Message.thy ===== *)
theory Update_Message
  imports Tsig_Auth
begin

text \<open>
  \<open>update/\<close>: RFC 2136 update messages. The encoders of \<open>message.rs\<close> append to a buffer and
  the first error ends the encoding; here each returns the bytes it appends. The builder's
  typestates are two record types: only the unsigned builder has the operations that change
  it, and signing extends it with the finished message. Counts are kept in \<open>usize\<close>, far
  larger than any list in memory, so \<open>checked_add\<close> on them does not fail.
\<close>

section \<open>Prerequisites, updates and the builder\<close>

datatype prerequisite =
    RrsetExists domain_name record_type
  | RrsetNotExists domain_name record_type
  | NameExists domain_name
  | NameNotExists domain_name
  | RrsetExistsWithData domain_name record_type "resource_record list"

fun wire_rr_count :: "prerequisite \<Rightarrow> nat" where
  "wire_rr_count (RrsetExistsWithData _ _ records) = length records"
| "wire_rr_count _ = 1"

datatype update_entry =
    AddRecord resource_record
  | DeleteRrset domain_name record_type
  | DeleteRecord resource_record
  | DeleteName domain_name

record update_message =
  um_wire :: "byte list"
  um_id :: u16
  um_request_mac :: "byte list option"
  um_pre_tsig_len :: "nat option"

definition is_signed :: "update_message \<Rightarrow> bool" where
  "is_signed m \<longleftrightarrow> um_request_mac m \<noteq> None"

record update_builder =
  ub_id :: u16
  ub_zone :: domain_name
  ub_class :: record_class
  ub_prerequisites :: "prerequisite list"
  ub_updates :: "update_entry list"

record signed_builder = update_builder +
  ub_message :: update_message

text \<open>\<open>new\<close> draws the ID from the random source, an argument here.\<close>

definition builder_with_id :: "u16 \<Rightarrow> domain_name \<Rightarrow> record_class \<Rightarrow> update_builder" where
  "builder_with_id i zone class =
     \<lparr>ub_id = i, ub_zone = zone, ub_class = class, ub_prerequisites = [], ub_updates = []\<rparr>"

definition builder_new ::
    "bool \<Rightarrow> (string + byte list) \<Rightarrow> domain_name \<Rightarrow> record_class \<Rightarrow> core_error + update_builder" where
  "builder_new std random zone class =
     (if std then
        rbind (map_err (\<lambda>e. InvalidRecord (''failed to generate a random DNS update ID: '' @ e)) random)
          (\<lambda>id_bytes. Inr (builder_with_id (u16_of_be id_bytes) zone class))
      else Inl (InvalidRecord
        ''UpdateBuilder::new requires a random source; use with_id in no_std builds''))"

abbreviation push_prerequisite :: "update_builder \<Rightarrow> prerequisite \<Rightarrow> update_builder" where
  "push_prerequisite b p \<equiv> b\<lparr>ub_prerequisites := ub_prerequisites b @ [p]\<rparr>"

abbreviation push_update :: "update_builder \<Rightarrow> update_entry \<Rightarrow> update_builder" where
  "push_update b u \<equiv> b\<lparr>ub_updates := ub_updates b @ [u]\<rparr>"

definition require_rrset_exists :: "update_builder \<Rightarrow> domain_name \<Rightarrow> record_type \<Rightarrow> update_builder" where
  "require_rrset_exists b name rtype = push_prerequisite b (RrsetExists name rtype)"

definition require_rrset_not_exists ::
    "update_builder \<Rightarrow> domain_name \<Rightarrow> record_type \<Rightarrow> update_builder" where
  "require_rrset_not_exists b name rtype = push_prerequisite b (RrsetNotExists name rtype)"

definition require_name_exists :: "update_builder \<Rightarrow> domain_name \<Rightarrow> update_builder" where
  "require_name_exists b name = push_prerequisite b (NameExists name)"

definition require_name_not_exists :: "update_builder \<Rightarrow> domain_name \<Rightarrow> update_builder" where
  "require_name_not_exists b name = push_prerequisite b (NameNotExists name)"

definition require_rrset_exists_with_data ::
    "update_builder \<Rightarrow> domain_name \<Rightarrow> record_type \<Rightarrow> resource_record list
      \<Rightarrow> core_error + update_builder" where
  "require_rrset_exists_with_data b name rtype records =
     (if records = [] then Inl (InvalidRecord ''RrsetExistsWithData requires non-empty records'')
      else Inr (push_prerequisite b (RrsetExistsWithData name rtype records)))"

definition add_record :: "update_builder \<Rightarrow> resource_record \<Rightarrow> update_builder" where
  "add_record b rr = push_update b (AddRecord rr)"

definition delete_rrset :: "update_builder \<Rightarrow> domain_name \<Rightarrow> record_type \<Rightarrow> update_builder" where
  "delete_rrset b name rtype = push_update b (DeleteRrset name rtype)"

definition delete_record :: "update_builder \<Rightarrow> resource_record \<Rightarrow> update_builder" where
  "delete_record b rr = push_update b (DeleteRecord rr)"

definition delete_name :: "update_builder \<Rightarrow> domain_name \<Rightarrow> update_builder" where
  "delete_name b name = push_update b (DeleteName name)"

section \<open>Record data on the wire\<close>

fun rdata_type_value :: "rdata \<Rightarrow> u16" where
  "rdata_type_value (RD_A _) = 1"
| "rdata_type_value (RD_Aaaa _) = 28"
| "rdata_type_value (RD_Cname _) = 5"
| "rdata_type_value (RD_Ns _) = 2"
| "rdata_type_value (RD_Ptr _) = 12"
| "rdata_type_value (RD_Soa _ _ _ _ _ _ _) = 6"
| "rdata_type_value (RD_Mx _ _) = 15"
| "rdata_type_value (RD_Txt _) = 16"
| "rdata_type_value (RD_Srv _ _ _ _) = 33"
| "rdata_type_value (RD_Caa _ _ _) = 257"
| "rdata_type_value (RD_Dnskey _ _ _ _) = 48"
| "rdata_type_value (RD_Rrsig _ _ _ _ _ _ _ _ _) = 46"
| "rdata_type_value (RD_Nsec _ _) = 47"
| "rdata_type_value (RD_Nsec3 _ _ _ _ _ _) = 50"
| "rdata_type_value (RD_Ds _ _ _ _) = 43"
| "rdata_type_value (RD_Cds _ _ _ _) = 59"
| "rdata_type_value (RD_Cdnskey _ _ _ _) = 60"
| "rdata_type_value (RD_Tlsa _ _ _ _) = 52"
| "rdata_type_value (RD_Sshfp _ _ _) = 44"
| "rdata_type_value (RD_Csync _ _ _) = 62"
| "rdata_type_value (RD_Rp _ _) = 17"
| "rdata_type_value (RD_Nsec3param _ _ _ _) = 51"
| "rdata_type_value (RD_Dlv _ _ _ _) = 32769"
| "rdata_type_value (RD_Unknown rtype _) = rtype"

text \<open>A length byte and the bytes: \<open>u8::try_from(len)\<close> fails above 255.\<close>

definition len8_prefixed :: "string \<Rightarrow> byte list \<Rightarrow> core_error + byte list" where
  "len8_prefixed what bs =
     (if length bs > 255 then Inl (InvalidRecord (what @ '' exceeds 255 bytes''))
      else Inr (label_octets bs))"

definition encode_txt :: "txt_string list \<Rightarrow> core_error + byte list" where
  "encode_txt strings =
     rmap concat (rmap_list (\<lambda>s. len8_prefixed ''TXT character-string'' (txt_bytes s)) strings)"

fun encode_rdata :: "rdata \<Rightarrow> core_error + byte list" where
  "encode_rdata (RD_A addr) = Inr (ipv4_octets addr)"
| "encode_rdata (RD_Aaaa addr) = Inr (ipv6_octets addr)"
| "encode_rdata (RD_Cname name) = Inr (write_wire name)"
| "encode_rdata (RD_Ns name) = Inr (write_wire name)"
| "encode_rdata (RD_Ptr name) = Inr (write_wire name)"
| "encode_rdata (RD_Soa mn rn ser refr retr expi mini) =
     Inr (write_wire mn @ write_wire rn @ u32_be (serial_value ser) @ u32_be (ttl_value refr)
       @ u32_be (ttl_value retr) @ u32_be (ttl_value expi) @ u32_be (ttl_value mini))"
| "encode_rdata (RD_Mx pref exch) = Inr (u16_be pref @ write_wire exch)"
| "encode_rdata (RD_Txt strings) = encode_txt strings"
| "encode_rdata (RD_Srv pri wei por tgt) =
     Inr (u16_be pri @ u16_be wei @ u16_be por @ write_wire tgt)"
| "encode_rdata (RD_Caa flags tag value) =
     rmap (\<lambda>t. flags # t @ as_bytes value) (len8_prefixed ''CAA tag'' (as_bytes tag))"
| "encode_rdata (RD_Unknown _ bytes) = Inr bytes"
| "encode_rdata (RD_Dnskey flags proto alg pk) = Inr (u16_be flags @ [proto, alg] @ pk)"
| "encode_rdata (RD_Ds tag alg dt digest) = Inr (u16_be tag @ [alg, dt] @ digest)"
| "encode_rdata (RD_Cds tag alg dt digest) = Inr (u16_be tag @ [alg, dt] @ digest)"
| "encode_rdata (RD_Rrsig tc alg lab ottl expi ince tag signer sig) =
     Inr (u16_be tc @ [alg, lab] @ u32_be ottl @ u32_be expi @ u32_be ince @ u16_be tag
       @ write_wire signer @ sig)"
| "encode_rdata (RD_Nsec next bitmaps) = Inr (write_wire next @ bitmaps)"
| "encode_rdata (RD_Nsec3 hash flags iter salt next bitmaps) =
     rbind (len8_prefixed ''NSEC3 salt'' salt) (\<lambda>s.
     rbind (len8_prefixed ''NSEC3 next hashed owner'' next) (\<lambda>n.
       Inr ([hash, flags] @ u16_be iter @ s @ n @ bitmaps)))"
| "encode_rdata (RD_Cdnskey flags proto alg pk) = Inr (u16_be flags @ [proto, alg] @ pk)"
| "encode_rdata (RD_Tlsa usage sel mt cert) = Inr ([usage, sel, mt] @ cert)"
| "encode_rdata (RD_Sshfp alg ft fp) = Inr ([alg, ft] @ fp)"
| "encode_rdata (RD_Csync serial flags bitmaps) = Inr (u32_be serial @ u16_be flags @ bitmaps)"
| "encode_rdata (RD_Rp mb tx) = Inr (write_wire mb @ write_wire tx)"
| "encode_rdata (RD_Nsec3param hash flags iter salt) =
     rmap (\<lambda>s. [hash, flags] @ u16_be iter @ s) (len8_prefixed ''NSEC3PARAM salt'' salt)"
| "encode_rdata (RD_Dlv tag alg dt digest) = Inr (u16_be tag @ [alg, dt] @ digest)"

definition encode_rdata_with_length :: "rdata \<Rightarrow> core_error + byte list" where
  "encode_rdata_with_length rdata =
     rbind (encode_rdata rdata) (\<lambda>bs.
       if length bs > 65535 then Inl (InvalidRecord ''RDATA length exceeds 65535 bytes'')
       else Inr (u16_be (word_of_nat (length bs)) @ bs))"

section \<open>Messages\<close>

definition empty_rr :: "domain_name \<Rightarrow> u16 \<Rightarrow> u16 \<Rightarrow> byte list" where
  "empty_rr name rtype class = write_wire name @ u16_be rtype @ u16_be class @ u32_be 0 @ u16_be 0"

fun encode_prerequisite :: "record_class \<Rightarrow> prerequisite \<Rightarrow> core_error + byte list" where
  "encode_prerequisite zone_class (RrsetExists name rtype) =
     Inr (empty_rr name (record_type_value rtype) 255)"
| "encode_prerequisite zone_class (RrsetNotExists name rtype) =
     Inr (empty_rr name (record_type_value rtype) 254)"
| "encode_prerequisite zone_class (NameExists name) = Inr (empty_rr name 255 255)"
| "encode_prerequisite zone_class (NameNotExists name) = Inr (empty_rr name 255 254)"
| "encode_prerequisite zone_class (RrsetExistsWithData name rtype records) =
     rmap concat (rmap_list (\<lambda>rr.
       rmap (\<lambda>rd. write_wire name @ u16_be (record_type_value rtype)
                 @ u16_be (class_value zone_class) @ u32_be 0 @ rd)
         (encode_rdata_with_length (rr_rdata rr))) records)"

fun encode_update_entry :: "update_entry \<Rightarrow> core_error + byte list" where
  "encode_update_entry (AddRecord rr) =
     rmap (\<lambda>rd. write_wire (rr_name rr) @ u16_be (rdata_type_value (rr_rdata rr))
               @ u16_be (class_value (rr_class rr)) @ u32_be (ttl_value (rr_ttl rr)) @ rd)
       (encode_rdata_with_length (rr_rdata rr))"
| "encode_update_entry (DeleteRrset name rtype) =
     Inr (empty_rr name (record_type_value rtype) 255)"
| "encode_update_entry (DeleteRecord rr) =
     rmap (\<lambda>rd. write_wire (rr_name rr) @ u16_be (rdata_type_value (rr_rdata rr))
               @ u16_be 254 @ u32_be 0 @ rd)
       (encode_rdata_with_length (rr_rdata rr))"
| "encode_update_entry (DeleteName name) = Inr (empty_rr name 255 255)"

definition encode_update_message ::
    "u16 \<Rightarrow> domain_name \<Rightarrow> record_class \<Rightarrow> prerequisite list \<Rightarrow> update_entry list
      \<Rightarrow> core_error + update_message" where
  "encode_update_message i zone class prerequisites updates =
     (let prcount = sum_list (map wire_rr_count prerequisites) in
      if prcount > 65535 then Inl (InvalidRecord ''prerequisite count exceeds 65535'')
      else if length updates > 65535 then Inl (InvalidRecord ''update count exceeds 65535'')
      else
        let header = u16_be i @ [0x28, 0x00] @ u16_be 1 @ u16_be (word_of_nat prcount)
              @ u16_be (word_of_nat (length updates)) @ u16_be 0;
            zone_section = write_wire zone @ u16_be 6 @ u16_be (class_value class)
        in rbind (rmap_list (encode_prerequisite class) prerequisites) (\<lambda>ps.
           rbind (rmap_list encode_update_entry updates) (\<lambda>us.
             let wire = header @ zone_section @ concat ps @ concat us in
             if length wire > 65535 then
               Inl (InvalidRecord ''DNS update message exceeds 65535 bytes'')
             else Inr \<lparr>um_wire = wire, um_id = i, um_request_mac = None, um_pre_tsig_len = None\<rparr>)))"

definition build_unsigned :: "update_builder \<Rightarrow> core_error + update_message" where
  "build_unsigned b =
     encode_update_message (ub_id b) (ub_zone b) (ub_class b) (ub_prerequisites b) (ub_updates b)"

text \<open>\<open>wire[i..i + v.len()].copy_from_slice(v)\<close>.\<close>

definition overwrite :: "'a list \<Rightarrow> nat \<Rightarrow> 'a list \<Rightarrow> 'a list" where
  "overwrite bs i v = take i bs @ v @ drop (i + length v) bs"

definition sign_inner :: "mac_lib \<Rightarrow> update_builder \<Rightarrow> tsig_key \<Rightarrow> u64 \<Rightarrow> core_error + signed_builder" where
  "sign_inner lib b key timestamp =
     rbind (encode_update_message (ub_id b) (ub_zone b) (ub_class b) (ub_prerequisites b)
              (ub_updates b)) (\<lambda>unsigned.
     rbind (tsig_new lib key (um_wire unsigned) timestamp None) (\<lambda>tsig.
       let pre_tsig_len = length (um_wire unsigned);
           wire = um_wire unsigned;
           arcount = u16_at wire 10;
           wire = overwrite wire 10 (u16_be (arcount + 1)) @ tsig_wire tsig
       in if length wire > 65535 then
            Inl (InvalidRecord ''TSIG-signed DNS update exceeds 65535 bytes'')
          else Inr (update_builder.extend b
            (signed_builder.fields
              \<lparr>um_wire = wire, um_id = ub_id b, um_request_mac = Some (tsig_mac tsig),
               um_pre_tsig_len = Some pre_tsig_len\<rparr>))))"

definition builder_sign :: "mac_lib \<Rightarrow> update_builder \<Rightarrow> tsig_key \<Rightarrow> u64 \<Rightarrow> core_error + signed_builder" where
  "builder_sign lib b key timestamp = sign_inner lib b key timestamp"

text \<open>\<open>sign_now\<close>: the clock is an argument; \<open>Inl\<close> is a clock before the epoch.\<close>

definition sign_now ::
    "mac_lib \<Rightarrow> (string + u64) \<Rightarrow> update_builder \<Rightarrow> tsig_key \<Rightarrow> core_error + signed_builder" where
  "sign_now lib clock b key =
     rbind (map_err (\<lambda>e. Tsig (''system clock is before Unix epoch: '' @ e)) clock)
       (\<lambda>timestamp. sign_inner lib b key timestamp)"

definition builder_build :: "signed_builder \<Rightarrow> update_message" where
  "builder_build b = ub_message b"

section \<open>Layout of the encodings\<close>

lemma len8_prefixed_Inr: "len8_prefixed what bs = Inr out \<longleftrightarrow> length bs \<le> 255 \<and> out = label_octets bs"
  by (auto simp: len8_prefixed_def)

lemma encode_rdata_with_length_Inr:
  "encode_rdata_with_length rd = Inr bs \<longleftrightarrow>
     (\<exists>body. encode_rdata rd = Inr body \<and> length body \<le> 65535
        \<and> bs = u16_be (word_of_nat (length body)) @ body)"
  by (auto simp: encode_rdata_with_length_def result_simps)

text \<open>
  One resource record on the wire: owner, type, class, TTL, length and data. Every
  prerequisite and update is a sequence of such records with its own owner name.
\<close>

definition rr_octets :: "domain_name \<Rightarrow> u16 \<Rightarrow> u16 \<Rightarrow> u32 \<Rightarrow> byte list \<Rightarrow> byte list" where
  "rr_octets name rtype class ttl body =
     write_wire name @ u16_be rtype @ u16_be class @ u32_be ttl
       @ u16_be (word_of_nat (length body)) @ body"

definition is_rr :: "domain_name \<Rightarrow> u16 \<Rightarrow> byte list \<Rightarrow> bool" where
  "is_rr name rtype bs \<longleftrightarrow>
     (\<exists>class ttl body. length body \<le> 65535 \<and> bs = rr_octets name rtype class ttl body)"

fun entry_name :: "update_entry \<Rightarrow> domain_name" where
  "entry_name (AddRecord rr) = rr_name rr"
| "entry_name (DeleteRrset name _) = name"
| "entry_name (DeleteRecord rr) = rr_name rr"
| "entry_name (DeleteName name) = name"

fun entry_type :: "update_entry \<Rightarrow> u16" where
  "entry_type (AddRecord rr) = rdata_type_value (rr_rdata rr)"
| "entry_type (DeleteRrset _ rtype) = record_type_value rtype"
| "entry_type (DeleteRecord rr) = rdata_type_value (rr_rdata rr)"
| "entry_type (DeleteName _) = 255"

fun prerequisite_name :: "prerequisite \<Rightarrow> domain_name" where
  "prerequisite_name (RrsetExists name _) = name"
| "prerequisite_name (RrsetNotExists name _) = name"
| "prerequisite_name (NameExists name) = name"
| "prerequisite_name (NameNotExists name) = name"
| "prerequisite_name (RrsetExistsWithData name _ _) = name"

fun prerequisite_type :: "prerequisite \<Rightarrow> u16" where
  "prerequisite_type (RrsetExists _ rtype) = record_type_value rtype"
| "prerequisite_type (RrsetNotExists _ rtype) = record_type_value rtype"
| "prerequisite_type (NameExists _) = 255"
| "prerequisite_type (NameNotExists _) = 255"
| "prerequisite_type (RrsetExistsWithData _ rtype _) = record_type_value rtype"

lemma is_rr_empty [simp]: "is_rr name rtype (empty_rr name rtype class)"
  unfolding is_rr_def rr_octets_def empty_rr_def
  by (intro exI [of _ "class"] exI [of _ 0] exI [of _ "[]"]) simp

lemma is_rr_with_length:
  "encode_rdata_with_length rd = Inr x
     \<Longrightarrow> is_rr name rtype (write_wire name @ u16_be rtype @ u16_be class @ u32_be ttl @ x)"
  unfolding is_rr_def rr_octets_def by (auto simp: encode_rdata_with_length_Inr)

lemma encode_update_entry_rr:
  "encode_update_entry e = Inr bs \<Longrightarrow> is_rr (entry_name e) (entry_type e) bs"
  by (cases e) (auto simp: result_simps intro: is_rr_with_length)

lemma encode_prerequisite_rrs:
  assumes "encode_prerequisite class p = Inr bs"
  shows "\<exists>rrs. bs = concat rrs \<and> length rrs = wire_rr_count p
    \<and> (\<forall>r \<in> set rrs. is_rr (prerequisite_name p) (prerequisite_type p) r)"
proof (cases p)
  case (RrsetExistsWithData name rtype records)
  with assms obtain rrs where bs: "bs = concat rrs"
    and rrs: "list_all2 (\<lambda>rr r. \<exists>x. encode_rdata_with_length (rr_rdata rr) = Inr x
        \<and> r = write_wire name @ u16_be (record_type_value rtype)
            @ u16_be (class_value class) @ u32_be 0 @ x) records rrs"
    by (auto simp: result_simps rmap_list_Inr)
  then have "\<forall>r \<in> set rrs. is_rr name (record_type_value rtype) r"
    by (auto simp: list_all2_conv_all_nth in_set_conv_nth) (metis is_rr_with_length)
  with bs list_all2_lengthD [OF rrs] RrsetExistsWithData show ?thesis
    by (intro exI [of _ rrs]) simp
qed (use assms in \<open>auto intro!: exI [of _ "[bs]"]\<close>)

text \<open>The record sections of a message are the concatenation of such records.\<close>

lemma encoded_prerequisites_rrs:
  assumes "list_all2 (\<lambda>p b. encode_prerequisite class p = Inr b) ps pss"
  shows "\<exists>rrs. concat pss = concat rrs \<and> length rrs = sum_list (map wire_rr_count ps)
    \<and> (\<forall>r \<in> set rrs. \<exists>p \<in> set ps. is_rr (prerequisite_name p) (prerequisite_type p) r)"
  using assms
proof (induction rule: list_all2_induct)
  case (Cons p ps b bs)
  then obtain rrs where "concat bs = concat rrs" "length rrs = sum_list (map wire_rr_count ps)"
    "\<forall>r \<in> set rrs. \<exists>p \<in> set ps. is_rr (prerequisite_name p) (prerequisite_type p) r" by blast
  moreover obtain qs where "b = concat qs" "length qs = wire_rr_count p"
    "\<forall>r \<in> set qs. is_rr (prerequisite_name p) (prerequisite_type p) r"
    using encode_prerequisite_rrs [OF Cons.hyps(1)] by blast
  ultimately show ?case by (intro exI [of _ "qs @ rrs"]) auto
qed simp

lemma encoded_updates_rrs:
  assumes "list_all2 (\<lambda>u b. encode_update_entry u = Inr b) us uss"
  shows "length uss = length us \<and> (\<forall>r \<in> set uss. \<exists>u \<in> set us. is_rr (entry_name u) (entry_type u) r)"
  using assms encode_update_entry_rr
  by (fastforce simp: list_all2_conv_all_nth in_set_conv_nth)

lemma encode_update_message_Inr:
  assumes "encode_update_message i zone class ps us = Inr m"
  obtains pss uss where
    "list_all2 (\<lambda>p b. encode_prerequisite class p = Inr b) ps pss"
    and "list_all2 (\<lambda>u b. encode_update_entry u = Inr b) us uss"
    and "um_wire m = (u16_be i @ [0x28, 0x00] @ u16_be 1
        @ u16_be (word_of_nat (sum_list (map wire_rr_count ps)))
        @ u16_be (word_of_nat (length us)) @ u16_be 0)
        @ (write_wire zone @ u16_be 6 @ u16_be (class_value class)) @ concat pss @ concat uss"
    and "sum_list (map wire_rr_count ps) \<le> 65535" "length us \<le> 65535"
    and "length (um_wire m) \<le> 65535" "um_id m = i" "\<not> is_signed m"
  using assms
  by (auto simp: encode_update_message_def Let_def result_simps rmap_list_Inr is_signed_def)

lemma overwrite_arcount:
  assumes "12 \<le> length bs"
  shows "overwrite bs 10 (u16_be n) = take 10 bs @ u16_be n @ drop 12 bs"
    and "length (overwrite bs 10 (u16_be n)) = length bs"
  using assms by (simp_all add: overwrite_def)

section \<open>Properties\<close>

text \<open>
  An encoded update message has the header RFC 2136 asks for (the ID, opcode UPDATE, one
  zone, the number of prerequisite and update records it carries, no additional record), then
  the zone section, then the prerequisites and the updates in the order they were added, and
  fits a 16-bit length.
\<close>

lemma update_message_layout:
  assumes "encode_update_message i zone class ps us = Inr m"
  shows "\<exists>pss uss.
    list_all2 (\<lambda>p b. encode_prerequisite class p = Inr b) ps pss
    \<and> list_all2 (\<lambda>u b. encode_update_entry u = Inr b) us uss
    \<and> um_wire m = take 12 (um_wire m) @ write_wire zone @ u16_be 6 @ u16_be (class_value class)
        @ concat pss @ concat uss
    \<and> u16_at (um_wire m) 0 = i \<and> u16_at (um_wire m) 2 = 0x2800 \<and> u16_at (um_wire m) 4 = 1
    \<and> unat (u16_at (um_wire m) 6) = sum_list (map wire_rr_count ps)
    \<and> unat (u16_at (um_wire m) 8) = length us
    \<and> u16_at (um_wire m) 10 = 0 \<and> length (um_wire m) \<le> 65535"
proof -
  obtain pss uss where enc: "list_all2 (\<lambda>p b. encode_prerequisite class p = Inr b) ps pss"
    "list_all2 (\<lambda>u b. encode_update_entry u = Inr b) us uss"
    and wire: "um_wire m = (u16_be i @ [0x28, 0x00] @ u16_be 1
        @ u16_be (word_of_nat (sum_list (map wire_rr_count ps)))
        @ u16_be (word_of_nat (length us)) @ u16_be 0)
        @ (write_wire zone @ u16_be 6 @ u16_be (class_value class)) @ concat pss @ concat uss"
    and le: "sum_list (map wire_rr_count ps) \<le> 65535" "length us \<le> 65535"
    "length (um_wire m) \<le> 65535"
    using assms by (rule encode_update_message_Inr)
  have "holds_at (um_wire m) 0 (u16_be i @ u16_be 0x2800 @ u16_be 1
        @ u16_be (word_of_nat (sum_list (map wire_rr_count ps)))
        @ u16_be (word_of_nat (length us)) @ u16_be 0)"
  proof -
    have "u16_be 0x2800 = [0x28, 0x00]" by code_simp
    then show ?thesis by (simp add: wire holds_at_def slice_def)
  qed
  then have at: "holds_at (um_wire m) 0 (u16_be i)" "holds_at (um_wire m) 2 (u16_be 0x2800)"
    "holds_at (um_wire m) 4 (u16_be 1)"
    "holds_at (um_wire m) 6 (u16_be (word_of_nat (sum_list (map wire_rr_count ps))))"
    "holds_at (um_wire m) 8 (u16_be (word_of_nat (length us)))" "holds_at (um_wire m) 10 (u16_be 0)"
    by (simp_all add: holds_at_append del: add_2_eq_Suc add_2_eq_Suc')
  note fields = at [THEN holds_at_u16]
  show ?thesis
    using enc le fields unat_word_of_nat(2) [of "sum_list (map wire_rr_count ps)"]
      unat_word_of_nat(2) [of "length us"]
    by (intro exI [of _ pss] exI [of _ uss]) (simp add: wire [THEN arg_cong, of "take 12"] wire)
qed

text \<open>A builder with a prerequisite and an update, for the witnesses.\<close>

definition sample_builder :: update_builder where
  "sample_builder =
     add_record (require_name_exists
         (builder_with_id 7 (wire_labels_name [[101, 120]]) IN) (wire_labels_name [[97], [101, 120]]))
       \<lparr>rr_name = wire_labels_name [[97], [101, 120]], rr_class = IN, rr_ttl = Ttl 300,
        rr_rdata = RD_A 3232235777\<rparr>"

lemma sample_builder_ok: "\<exists>m. build_unsigned sample_builder = Inr m \<and> length (um_wire m) = 56"
  by (simp add: sample_builder_def add_record_def require_name_exists_def builder_with_id_def
      build_unsigned_def encode_update_message_def Let_def empty_rr_def wire_labels_name_def wire_len_def
      label_len_def encode_rdata_with_length_def ipv4_octets_def)

lemma update_message_layout_witness:
  "\<exists>m. encode_update_message (ub_id sample_builder) (ub_zone sample_builder)
         (ub_class sample_builder) (ub_prerequisites sample_builder) (ub_updates sample_builder) = Inr m
     \<and> unat (u16_at (um_wire m) 8) = 1 \<and> u16_at (um_wire m) 0 = 7"
proof -
  obtain m where m: "build_unsigned sample_builder = Inr m"
    using sample_builder_ok by blast
  have "length (ub_updates sample_builder) = 1" "ub_id sample_builder = 7"
    by (simp_all add: sample_builder_def add_record_def require_name_exists_def builder_with_id_def)
  with m update_message_layout [OF m [unfolded build_unsigned_def]] show ?thesis
    by (auto simp: build_unsigned_def)
qed

text \<open>
  Signing keeps the unsigned message byte for byte except that ARCOUNT becomes 1, appends
  the TSIG record whose MAC covers the unsigned message, and records that MAC and the length
  of the unsigned part for the verification of the response.
\<close>

lemma signed_update_layout:
  assumes "sign_inner lib b key timestamp = Inr sb"
  shows "\<exists>unsigned tsig. build_unsigned b = Inr unsigned
    \<and> tsig_new lib key (um_wire unsigned) timestamp None = Inr tsig
    \<and> um_wire (builder_build sb) =
        take 10 (um_wire unsigned) @ u16_be 1 @ drop 12 (um_wire unsigned) @ tsig_wire tsig
    \<and> um_request_mac (builder_build sb) = Some (tsig_mac tsig)
    \<and> um_pre_tsig_len (builder_build sb) = Some (length (um_wire unsigned))
    \<and> length (um_wire (builder_build sb)) \<le> 65535"
proof -
  from assms obtain unsigned tsig where
    u: "encode_update_message (ub_id b) (ub_zone b) (ub_class b) (ub_prerequisites b)
          (ub_updates b) = Inr unsigned"
    and t: "tsig_new lib key (um_wire unsigned) timestamp None = Inr tsig"
    and len: "length (overwrite (um_wire unsigned) 10 (u16_be (u16_at (um_wire unsigned) 10 + 1))
         @ tsig_wire tsig) \<le> 65535"
    and sb: "sb = update_builder.extend b (signed_builder.fields
       \<lparr>um_wire = overwrite (um_wire unsigned) 10 (u16_be (u16_at (um_wire unsigned) 10 + 1))
          @ tsig_wire tsig, um_id = ub_id b, um_request_mac = Some (tsig_mac tsig),
        um_pre_tsig_len = Some (length (um_wire unsigned))\<rparr>)"
    by (auto simp: sign_inner_def Let_def result_simps not_less)
  have arcount: "u16_at (um_wire unsigned) 10 = 0" "12 \<le> length (um_wire unsigned)"
    using u by (elim encode_update_message_Inr; simp add: u16_at_def slice_def)+
  show ?thesis
    using u t len arcount
    by (intro exI [of _ unsigned] exI [of _ tsig])
       (simp add: sb build_unsigned_def builder_build_def update_builder.defs signed_builder.defs
         overwrite_arcount)
qed

lemma sample_key_len: "wire_len (key_name sample_key) = 5"
  by (simp add: sample_key_def wire_labels_name_def wire_len_def label_len_def)

lemma sample_sign_ok: "\<exists>sb. sign_inner sample_lib sample_builder sample_key 1000 = Inr sb"
proof -
  obtain m where m: "build_unsigned sample_builder = Inr m" "length (um_wire m) = 56"
    using sample_builder_ok by blast
  obtain t where t: "tsig_new sample_lib sample_key (um_wire m) 1000 None = Inr t"
    using tsig_new_ok [OF sample_lib_ok, of 1000 None] by auto
  show ?thesis
    using m t tsig_new_length [OF sample_lib_ok t] sample_key_len
    by (simp add: sign_inner_def build_unsigned_def Let_def overwrite_arcount)
qed

lemma signed_update_layout_witness:
  "\<exists>sb. sign_inner sample_lib sample_builder sample_key 1000 = Inr sb
     \<and> u16_at (um_wire (builder_build sb)) 10 = 1"
proof -
  obtain m where m: "build_unsigned sample_builder = Inr m" "length (um_wire m) = 56"
    using sample_builder_ok by blast
  obtain sb where sb: "sign_inner sample_lib sample_builder sample_key 1000 = Inr sb"
    using sample_sign_ok by blast
  from signed_update_layout [OF sb] m obtain tail where
    "um_wire (builder_build sb) = take 10 (um_wire m) @ u16_be 1 @ tail"
    by auto
  with m(2) have "slice (um_wire (builder_build sb)) 10 2 = u16_be 1"
    by (simp add: slice_def)
  with sb show ?thesis by (auto simp: u16_at_def)
qed

end
