(* ===== verification/Net_Errors.thy ===== *)
theory Net_Errors
  imports Protocol_Codes
begin

text \<open>
  The error type of \<open>bind9-sdk-net\<close> (\<open>error.rs\<close>). A \<open>Duration\<close> is its number of nanoseconds
  and an operating-system error is its text.
\<close>

datatype net_error =
    Connection string
  | Timeout nat
  | AuthFailed string
  | Protocol string
  | Tls string
  | Http (http_status: u16) (http_body: string)
  | PrerequisiteFailed rcode
  | TsigRejected (rejected_code: u16) (rejected_message: string)
  | UpdateRejected string
  | UpdateNotApplied (applied_zone: string) (serial_before: u32) (serial_after: u32)
  | Core core_error
  | TransferFailed string
  | SerialMismatch (expected_serial: u32) (actual_serial: u32)
  | IncompleteTransfer string
  | XfrProtocolError string
  | TlsRequired string
  | Io string

end
