(* ===== verification/Transfer_Wire.thy ===== *)
theory Transfer_Wire
  imports Update_Message Net_Errors
begin

text \<open>
  \<open>transfer/wire.rs\<close> of the net crate: DNS headers, names with compression pointers,
  resource records, removal of the final TSIG record and the AXFR/IXFR queries. The TCP
  framing is given on complete byte streams; the ID and the clock of the queries are arguments.
\<close>

section \<open>Headers\<close>

record dns_header =
  dh_id :: u16
  dh_is_response :: bool
  dh_opcode :: u8
  dh_authoritative :: bool
  dh_truncated :: bool
  dh_recursion_desired :: bool
  dh_recursion_available :: bool
  dh_rcode :: u8
  dh_question_count :: u16
  dh_answer_count :: u16
  dh_authority_count :: u16
  dh_additional_count :: u16

definition header_parse :: "byte list \<Rightarrow> net_error + dns_header" where
  "header_parse buf =
     (if length buf < 12 then
        Inl (XfrProtocolError (''DNS header too short: '' @ show_nat (length buf) @ '' bytes, need 12''))
      else
        let flags1 = buf ! 2; flags2 = buf ! 3 in
        Inr \<lparr>dh_id = u16_at buf 0,
             dh_is_response = (flags1 AND 0x80 \<noteq> 0),
             dh_opcode = drop_bit 3 flags1 AND 0x0F,
             dh_authoritative = (flags1 AND 0x04 \<noteq> 0),
             dh_truncated = (flags1 AND 0x02 \<noteq> 0),
             dh_recursion_desired = (flags1 AND 0x01 \<noteq> 0),
             dh_recursion_available = (flags2 AND 0x80 \<noteq> 0),
             dh_rcode = flags2 AND 0x0F,
             dh_question_count = u16_at buf 4,
             dh_answer_count = u16_at buf 6,
             dh_authority_count = u16_at buf 8,
             dh_additional_count = u16_at buf 10\<rparr>)"

section \<open>Names\<close>

text \<open>\<open>\DDD\<close>: three decimal digits.\<close>

definition ddd_text :: "byte \<Rightarrow> string" where
  "ddd_text b = [digit_char (unat b div 100), digit_char (unat b div 10 mod 10),
                 digit_char (unat b mod 10)]"

definition escape_wire_byte :: "byte \<Rightarrow> string" where
  "escape_wire_byte b =
     (let c = char_of_byte b in
      if c = dot then [backslash, dot]
      else if c = backslash then [backslash, backslash]
      else if is_ascii_graphic c then [c]
      else backslash # ddd_text b)"

definition escape_wire_label :: "byte list \<Rightarrow> string" where
  "escape_wire_label bs = concat (map escape_wire_byte bs)"

text \<open>
  The loop of \<open>parse_name\<close>: the labels read so far, the cursor, the bytes consumed before
  the first jump, whether a pointer was followed, the number of rounds done and the position
  of the first pointer. Every round counts against \<open>MAX_COMPRESSION_DEPTH\<close>.
\<close>

function parse_name_loop ::
    "byte list \<Rightarrow> nat \<Rightarrow> string list \<Rightarrow> nat \<Rightarrow> nat \<Rightarrow> bool \<Rightarrow> nat \<Rightarrow> nat option
       \<Rightarrow> net_error + string list \<times> nat" where
  "parse_name_loop buf offset ls pos consumed jumped depth first =
     (if pos \<ge> length buf then Inl (XfrProtocolError ''truncated DNS name'')
      else if depth + 1 > 128 then Inl (XfrProtocolError ''DNS name compression loop detected'')
      else let len_byte = buf ! pos in
        if len_byte = 0 then Inr (ls, if jumped then consumed else pos - offset + 1)
        else if len_byte AND 0xC0 = 0xC0 then
          (if pos + 1 \<ge> length buf then Inl (XfrProtocolError ''truncated compression pointer'')
           else
             let consumed = (if jumped then consumed else pos - offset + 2);
                 pointer = push_bit 8 ((ucast len_byte :: u16) AND 0x3F) OR ucast (buf ! (pos + 1));
                 limit = (case first of Some p \<Rightarrow> p | None \<Rightarrow> offset)
             in if unat pointer \<ge> limit then
                  Inl (XfrProtocolError (''compression pointer at offset '' @ show_nat pos
                    @ '' targets '' @ show_nat (unat pointer) @ '' (must be before ''
                    @ show_nat limit @ '')''))
                else parse_name_loop buf offset ls (unat pointer) consumed True (depth + 1)
                       (case first of Some p \<Rightarrow> Some p | None \<Rightarrow> Some pos))
        else
          let label_len = unat len_byte; pos = pos + 1 in
          if pos + label_len > length buf then
            Inl (XfrProtocolError (''truncated DNS label: need '' @ show_nat label_len
              @ '' bytes at offset '' @ show_nat pos))
          else parse_name_loop buf offset (ls @ [escape_wire_label (slice buf pos label_len)])
                 (pos + label_len) consumed jumped (depth + 1) first)"
  by pat_completeness auto
termination
  by (relation "measure (\<lambda>(buf, offset, ls, pos, consumed, jumped, depth, first). 128 - depth)") auto

declare parse_name_loop.simps [simp del]

definition parse_name :: "byte list \<Rightarrow> nat \<Rightarrow> net_error + domain_name \<times> nat" where
  "parse_name buf offset =
     rbind (parse_name_loop buf offset [] offset 0 False 0 None) (\<lambda>(ls, consumed).
       if ls = [] then Inr (domain_root, consumed)
       else rmap (\<lambda>d. (d, consumed))
         (map_err (\<lambda>e. XfrProtocolError (''invalid DNS name from wire: '' @ core_error_display e))
            (domain_new (join_labels ls @ ''.''))))"

section \<open>Resource records\<close>

text \<open>\<open>?\<close> on a failed \<open>Ttl::new\<close> in an SOA field.\<close>

definition soa_ttl :: "string \<Rightarrow> u32 \<Rightarrow> net_error + ttl" where
  "soa_ttl what v =
     map_err (\<lambda>e. XfrProtocolError (''SOA '' @ what @ '': '' @ core_error_display e)) (ttl_new v)"

function parse_txt_from :: "byte list \<Rightarrow> nat \<Rightarrow> net_error + txt_string list" where
  "parse_txt_from buf pos =
     (if pos < length buf then
        let str_len = unat (buf ! pos); pos = pos + 1 in
        if pos + str_len > length buf then Inl (XfrProtocolError ''truncated TXT string'')
        else rbind (map_err (\<lambda>e. XfrProtocolError (core_error_display e))
                      (txt_new (slice buf pos str_len))) (\<lambda>s.
             rmap (Cons s) (parse_txt_from buf (pos + str_len)))
      else Inr [])"
  by pat_completeness auto
termination
  by (relation "measure (\<lambda>(buf, pos). length buf - pos)") auto

declare parse_txt_from.simps [simp del]

definition parse_rdata_wire ::
    "u16 \<Rightarrow> byte list \<Rightarrow> byte list \<Rightarrow> nat \<Rightarrow> net_error + rdata" where
  "parse_rdata_wire rtype_value rdata_buf full_msg rdata_offset =
     (case record_type_from_value rtype_value of
        RT_A \<Rightarrow>
          (if length rdata_buf \<noteq> 4 then
             Inl (XfrProtocolError (''A record RDATA must be 4 bytes, got ''
               @ show_nat (length rdata_buf)))
           else Inr (RD_A (ipv4_from_octets rdata_buf)))
      | RT_Aaaa \<Rightarrow>
          (if length rdata_buf \<noteq> 16 then
             Inl (XfrProtocolError (''AAAA record RDATA must be 16 bytes, got ''
               @ show_nat (length rdata_buf)))
           else Inr (RD_Aaaa (ipv6_from_octets rdata_buf)))
      | RT_Ns \<Rightarrow> rmap (\<lambda>(name, _). RD_Ns name) (parse_name full_msg rdata_offset)
      | RT_Cname \<Rightarrow> rmap (\<lambda>(name, _). RD_Cname name) (parse_name full_msg rdata_offset)
      | RT_Ptr \<Rightarrow> rmap (\<lambda>(name, _). RD_Ptr name) (parse_name full_msg rdata_offset)
      | RT_Mx \<Rightarrow>
          (if length rdata_buf < 3 then Inl (XfrProtocolError ''MX record RDATA too short'')
           else rmap (\<lambda>(exch, _). RD_Mx (u16_at rdata_buf 0) exch)
                  (parse_name full_msg (rdata_offset + 2)))
      | RT_Txt \<Rightarrow> rmap RD_Txt (parse_txt_from rdata_buf 0)
      | RT_Soa \<Rightarrow>
          rbind (parse_name full_msg rdata_offset) (\<lambda>(mn, mname_len).
          rbind (parse_name full_msg (rdata_offset + mname_len)) (\<lambda>(rn, rname_len).
            let soa_data_offset = rdata_offset + mname_len + rname_len in
            if soa_data_offset + 20 > length full_msg then
              Inl (XfrProtocolError ''SOA record RDATA too short for timers'')
            else
              let b = slice full_msg soa_data_offset 20; ser = Serial (u32_at b 0) in
              rbind (soa_ttl ''refresh'' (u32_at b 4)) (\<lambda>refr.
              rbind (soa_ttl ''retry'' (u32_at b 8)) (\<lambda>retr.
              rbind (soa_ttl ''expire'' (u32_at b 12)) (\<lambda>expi.
              rbind (soa_ttl ''minimum'' (u32_at b 16)) (\<lambda>mini.
                Inr (RD_Soa mn rn ser refr retr expi mini)))))))
      | RT_Srv \<Rightarrow>
          (if length rdata_buf < 7 then Inl (XfrProtocolError ''SRV record RDATA too short'')
           else rmap (\<lambda>(tgt, _). RD_Srv (u16_at rdata_buf 0) (u16_at rdata_buf 2) (u16_at rdata_buf 4) tgt)
                  (parse_name full_msg (rdata_offset + 6)))
      | RT_Caa \<Rightarrow>
          (if length rdata_buf < 2 then Inl (XfrProtocolError ''CAA record RDATA too short'')
           else
             let flags = rdata_buf ! 0; tag_len = unat (rdata_buf ! 1) in
             if 2 + tag_len > length rdata_buf then Inl (XfrProtocolError ''truncated CAA tag'')
             else if \<not> utf8_valid (slice rdata_buf 2 tag_len) then
               Inl (XfrProtocolError ''CAA tag not UTF-8'')
             else if \<not> utf8_valid (drop (2 + tag_len) rdata_buf) then
               Inl (XfrProtocolError ''CAA value not UTF-8'')
             else Inr (RD_Caa flags (of_bytes (slice rdata_buf 2 tag_len))
                        (of_bytes (drop (2 + tag_len) rdata_buf))))
      | _ \<Rightarrow> Inr (RD_Unknown rtype_value rdata_buf))"

definition parse_resource_record :: "byte list \<Rightarrow> nat \<Rightarrow> net_error + resource_record \<times> nat" where
  "parse_resource_record full_msg offset =
     rbind (parse_name full_msg offset) (\<lambda>(name, name_len).
       let pos = offset + name_len in
       if pos + 10 > length full_msg then
         Inl (XfrProtocolError ''truncated resource record header'')
       else
         let rtype_value = u16_at full_msg pos;
             rclass_value = u16_at full_msg (pos + 2);
             ttl_value = u32_at full_msg (pos + 4);
             rdlength = unat (u16_at full_msg (pos + 8));
             rdata_offset = pos + 10
         in if rdata_offset + rdlength > length full_msg then
              Inl (XfrProtocolError (''truncated RDATA: need '' @ show_nat rdlength
                @ '' bytes at offset '' @ show_nat rdata_offset))
            else
              rbind (parse_rdata_wire rtype_value (slice full_msg rdata_offset rdlength) full_msg
                       rdata_offset) (\<lambda>rd.
                Inr (\<lparr>rr_name = name, rr_class = class_from_value rclass_value,
                      rr_ttl = (case ttl_new ttl_value of Inr t \<Rightarrow> t | Inl _ \<Rightarrow> ttl_zero),
                      rr_rdata = rd\<rparr>, name_len + 10 + rdlength)))"

definition resource_record_type_and_len :: "byte list \<Rightarrow> nat \<Rightarrow> net_error + u16 \<times> nat" where
  "resource_record_type_and_len message offset =
     rbind (parse_name message offset) (\<lambda>(_, name_len).
       let fixed_offset = offset + name_len in
       if fixed_offset + 10 > length message then
         Inl (XfrProtocolError ''truncated resource record header'')
       else
         let rtype = u16_at message fixed_offset;
             rdlength = unat (u16_at message (fixed_offset + 8));
             consumed = name_len + 10 + rdlength
         in if offset + consumed > length message then
              Inl (XfrProtocolError ''truncated resource record data'')
            else Inr (rtype, consumed))"

section \<open>Removing the TSIG record\<close>

record split_tsig_message =
  unsigned_message :: "byte list"
  split_tsig :: "tsig_record option"

fun skip_questions :: "byte list \<Rightarrow> nat \<Rightarrow> nat \<Rightarrow> net_error + nat" where
  "skip_questions message 0 offset = Inr offset"
| "skip_questions message (Suc n) offset =
     rbind (parse_name message offset) (\<lambda>(_, name_len).
       if offset + (name_len + 4) \<le> length message
       then skip_questions message n (offset + (name_len + 4))
       else Inl (XfrProtocolError ''truncated DNS question''))"

fun skip_records :: "byte list \<Rightarrow> nat \<Rightarrow> nat \<Rightarrow> net_error + nat" where
  "skip_records message 0 offset = Inr offset"
| "skip_records message (Suc n) offset =
     rbind (resource_record_type_and_len message offset) (\<lambda>(rtype, consumed).
       if rtype = 250 then
         Inl (XfrProtocolError ''TSIG is only valid in the additional section'')
       else skip_records message n (offset + consumed))"

text \<open>
  The additional records: \<open>n\<close> records are left, so \<open>index + 1 != additional_count\<close> is
  \<open>n \<noteq> 1\<close>.
\<close>

fun scan_additional :: "byte list \<Rightarrow> nat \<Rightarrow> nat \<Rightarrow> nat option \<Rightarrow> net_error + nat \<times> nat option" where
  "scan_additional message 0 offset tsig_offset = Inr (offset, tsig_offset)"
| "scan_additional message (Suc n) offset tsig_offset =
     rbind (resource_record_type_and_len message offset) (\<lambda>(rtype, consumed).
       if rtype = 250 then
         (if n \<noteq> 0 then Inl (XfrProtocolError ''TSIG must be the final additional record'')
          else scan_additional message n (offset + consumed) (Some offset))
       else scan_additional message n (offset + consumed) tsig_offset)"

definition split_final_tsig :: "byte list \<Rightarrow> net_error + split_tsig_message" where
  "split_final_tsig message =
     rbind (header_parse message) (\<lambda>header.
     rbind (skip_questions message (unat (dh_question_count header)) 12) (\<lambda>offset.
     rbind (skip_records message
              (unat (dh_answer_count header) + unat (dh_authority_count header)) offset) (\<lambda>offset.
     rbind (scan_additional message (unat (dh_additional_count header)) offset None)
       (\<lambda>(offset, tsig_offset).
         if offset \<noteq> length message then
           Inl (XfrProtocolError (''trailing bytes after DNS sections: ''
             @ show_nat (length message - offset)))
         else (case tsig_offset of
             None \<Rightarrow> Inr \<lparr>unsigned_message = message, split_tsig = None\<rparr>
           | Some tsig_offset \<Rightarrow>
               rbind (map_err Core (tsig_parse (drop tsig_offset message))) (\<lambda>tsig.
                 if dh_additional_count header = 0 then
                   Inl (XfrProtocolError ''TSIG present with zero additional count'')
                 else Inr \<lparr>unsigned_message =
                     overwrite (take tsig_offset message) 10
                       (u16_be (dh_additional_count header - 1)),
                   split_tsig = Some tsig\<rparr>))))))"

section \<open>Queries\<close>

record encoded_xfr_query =
  xq_message :: "byte list"
  xq_id :: u16
  xq_request_mac :: "byte list option"

definition qtype_axfr :: u16 where "qtype_axfr = 252"
definition qtype_ixfr :: u16 where "qtype_ixfr = 251"

definition ixfr_soa_rdata :: "domain_name \<Rightarrow> serial \<Rightarrow> byte list" where
  "ixfr_soa_rdata zone current = write_wire zone @ write_wire zone @ u32_be (serial_value current)
     @ u32_be 0 @ u32_be 0 @ u32_be 0 @ u32_be 0"

text \<open>The buffer before it is signed: header, question and, for IXFR, the SOA with the serial.\<close>

definition xfr_query_body :: "domain_name \<Rightarrow> u16 \<Rightarrow> serial option \<Rightarrow> u16 \<Rightarrow> byte list" where
  "xfr_query_body zone qtype current_serial qid =
     (let nscount = (case current_serial of Some _ \<Rightarrow> 1 | None \<Rightarrow> 0);
          header = u16_be qid @ [0x00, 0x00] @ u16_be 1 @ u16_be 0 @ u16_be nscount @ u16_be 0;
          question = write_wire zone @ u16_be qtype @ u16_be (class_value IN);
          authority = (case current_serial of
              None \<Rightarrow> []
            | Some current \<Rightarrow>
                let rdata = ixfr_soa_rdata zone current in
                write_wire zone @ u16_be (record_type_value RT_Soa) @ u16_be (class_value IN)
                  @ u32_be 0 @ u16_be (word_of_nat (length rdata)) @ rdata)
      in header @ question @ authority)"

definition encode_xfr_query_with_id_and_time ::
    "mac_lib \<Rightarrow> domain_name \<Rightarrow> u16 \<Rightarrow> serial option \<Rightarrow> tsig_key option \<Rightarrow> u16 \<Rightarrow> u64 option
       \<Rightarrow> net_error + encoded_xfr_query" where
  "encode_xfr_query_with_id_and_time lib zone qtype current_serial key_opt qid now =
     (let buf = xfr_query_body zone qtype current_serial qid in
      case key_opt of
        None \<Rightarrow> Inr \<lparr>xq_message = overwrite buf 10 (u16_be 0), xq_id = qid, xq_request_mac = None\<rparr>
      | Some key \<Rightarrow>
          rbind (ok_or (XfrProtocolError ''system time is required to sign a zone-transfer query'')
                   now) (\<lambda>now.
          rbind (map_err Core (tsig_new lib key buf now None)) (\<lambda>tsig.
            Inr \<lparr>xq_message = overwrite (buf @ tsig_wire tsig) 10 (u16_be 1), xq_id = qid,
                 xq_request_mac = Some (tsig_mac tsig)\<rparr>)))"

text \<open>\<open>encode_xfr_query\<close>: the random source and the clock are arguments; \<open>Inl\<close> is their failure.\<close>

definition encode_xfr_query ::
    "mac_lib \<Rightarrow> (string + byte list) \<Rightarrow> (string + u64) \<Rightarrow> domain_name \<Rightarrow> u16 \<Rightarrow> serial option
       \<Rightarrow> tsig_key option \<Rightarrow> net_error + encoded_xfr_query" where
  "encode_xfr_query lib random clock zone qtype current_serial key_opt =
     rbind (map_err (\<lambda>e. XfrProtocolError (''failed to generate a random DNS query ID: '' @ e)) random)
       (\<lambda>id_bytes.
     rbind (case key_opt of
              None \<Rightarrow> Inr None
            | Some _ \<Rightarrow> rmap Some (map_err
                (\<lambda>e. XfrProtocolError (''system clock is before Unix epoch: '' @ e)) clock)) (\<lambda>now.
       encode_xfr_query_with_id_and_time lib zone qtype current_serial key_opt (u16_of_be id_bytes) now))"

definition encode_axfr_query_with_metadata ::
    "mac_lib \<Rightarrow> (string + byte list) \<Rightarrow> (string + u64) \<Rightarrow> domain_name \<Rightarrow> tsig_key option
       \<Rightarrow> net_error + encoded_xfr_query" where
  "encode_axfr_query_with_metadata lib random clock zone key_opt =
     encode_xfr_query lib random clock zone qtype_axfr None key_opt"

definition encode_axfr_query ::
    "mac_lib \<Rightarrow> (string + byte list) \<Rightarrow> (string + u64) \<Rightarrow> domain_name \<Rightarrow> tsig_key option
       \<Rightarrow> net_error + byte list" where
  "encode_axfr_query lib random clock zone key_opt =
     rmap xq_message (encode_axfr_query_with_metadata lib random clock zone key_opt)"

definition encode_ixfr_query_with_metadata ::
    "mac_lib \<Rightarrow> (string + byte list) \<Rightarrow> (string + u64) \<Rightarrow> domain_name \<Rightarrow> serial \<Rightarrow> tsig_key option
       \<Rightarrow> net_error + encoded_xfr_query" where
  "encode_ixfr_query_with_metadata lib random clock zone current key_opt =
     encode_xfr_query lib random clock zone qtype_ixfr (Some current) key_opt"

definition encode_ixfr_query ::
    "mac_lib \<Rightarrow> (string + byte list) \<Rightarrow> (string + u64) \<Rightarrow> domain_name \<Rightarrow> serial \<Rightarrow> tsig_key option
       \<Rightarrow> net_error + byte list" where
  "encode_ixfr_query lib random clock zone current key_opt =
     rmap xq_message (encode_ixfr_query_with_metadata lib random clock zone current key_opt)"

section \<open>TCP framing\<close>

text \<open>
  The bytes the peer sends before it closes the connection are an argument; \<open>read_exact\<close>
  fails with end-of-file when too few are left. The result carries the unread rest.
\<close>

definition read_tcp_dns_message :: "byte list \<Rightarrow> net_error + byte list \<times> byte list" where
  "read_tcp_dns_message stream =
     (if length stream < 2 then
        Inl (IncompleteTransfer ''connection closed before message length'')
      else let msg_len = unat (u16_at stream 0) in
        if msg_len < 12 then
          Inl (XfrProtocolError (''DNS TCP message too short: '' @ show_nat msg_len @ '' bytes''))
        else if length stream < 2 + msg_len then
          Inl (IncompleteTransfer ''connection closed mid-message: '')
        else Inr (slice stream 2 msg_len, drop (2 + msg_len) stream))"

definition write_tcp_dns_message :: "byte list \<Rightarrow> net_error + byte list" where
  "write_tcp_dns_message message =
     (if length message > 65535 then
        Inl (XfrProtocolError (''DNS message too large for TCP: '' @ show_nat (length message) @ '' bytes''))
      else Inr (u16_be (word_of_nat (length message)) @ message))"

section \<open>Escaping\<close>

lemma decimal_digits: "n div 100 * 100 + n div 10 mod 10 * 10 + n mod 10 = n" for n :: nat
proof -
  have "n div 100 = n div 10 div 10" by (simp add: div_mult2_eq flip: mult_numeral_1)
  moreover have "n div 10 div 10 * 10 + n div 10 mod 10 = n div 10" "n div 10 * 10 + n mod 10 = n"
    by (rule div_mult_mod_eq)+
  ultimately show ?thesis by linarith
qed

lemma ddd_text_escape:
  "ddd_escape (ddd_text b @ rest) = Some (unat b, rest)"
proof -
  have "unat b div 100 < 10" using unat_byte_less [of b] by linarith
  then show ?thesis
    using decimal_digits [of "unat b"] by (simp add: ddd_text_def digit_char_props)
qed

lemma decode_escape_byte:
  "decode_label_from full (escape_wire_byte b @ rest) = rmap (Cons b) (decode_label_from full rest)"
proof -
  consider (plain) "char_of_byte b \<noteq> dot" "char_of_byte b \<noteq> backslash" "is_ascii_graphic (char_of_byte b)"
    | (esc) "char_of_byte b = dot \<or> char_of_byte b = backslash"
    | (ddd) "char_of_byte b \<noteq> dot" "char_of_byte b \<noteq> backslash" "\<not> is_ascii_graphic (char_of_byte b)"
    by blast
  then show ?thesis
  proof cases
    case plain
    then show ?thesis by (simp add: escape_wire_byte_def Let_def)
  next
    case esc
    then have c: "escape_wire_byte b = [backslash, char_of_byte b]"
      by (auto simp: escape_wire_byte_def Let_def)
    moreover have "\<not> is_ascii_digit dot" "\<not> is_ascii_digit backslash"
      by (simp_all add: is_ascii_digit_def)
    with esc have "\<not> is_ascii_digit (char_of_byte b)" by metis
    ultimately show ?thesis using ddd_escape_no_digit by simp
  next
    case ddd
    then have "escape_wire_byte b = backslash # ddd_text b"
      by (simp add: escape_wire_byte_def Let_def)
    moreover have "ddd_text b \<noteq> []" by (simp add: ddd_text_def)
    moreover have "\<not> unat b > 255" using unat_byte_less [of b] by linarith
    ultimately show ?thesis
      using ddd_text_escape [of b rest] by simp
  qed
qed

lemma decode_escape_label: "decode_label_from full (escape_wire_label bs) = Inr bs"
proof (induction bs)
  case (Cons b bs)
  then show ?case using decode_escape_byte [of full b "escape_wire_label bs"]
    by (simp add: escape_wire_label_def)
qed (simp add: escape_wire_label_def)

text \<open>The name as it comes back from the wire: the same octets, spelled by the escaper.\<close>

definition wire_label :: "byte list \<Rightarrow> label" where
  "wire_label bs = \<lparr>label_inner = escape_wire_label bs, label_wire = bs\<rparr>"

definition wire_spelling :: "domain_name \<Rightarrow> domain_name" where
  "wire_spelling d = \<lparr>labels = map (\<lambda>l. wire_label (label_wire l)) (labels d)\<rparr>"

lemma wire_label_wf: "bs \<noteq> [] \<Longrightarrow> length bs \<le> 63 \<Longrightarrow> label_wf (wire_label bs)"
proof -
  assume bs: "bs \<noteq> []" "length bs \<le> 63"
  have "escape_wire_label bs \<noteq> []"
    using bs by (cases bs) (auto simp: escape_wire_label_def escape_wire_byte_def Let_def)
  with bs show ?thesis
    by (simp add: label_wf_def label_new_def wire_label_def decode_label_def decode_escape_label)
qed

lemma wire_spelling_props [simp]:
  "write_wire (wire_spelling d) = write_wire d" "wire_len (wire_spelling d) = wire_len d"
  "wire_spelling (wire_spelling d) = wire_spelling d"
  by (simp_all add: wire_spelling_def write_wire_def wire_len_def label_len_def wire_label_def comp_def)

lemma name_eq_wire_spelling [simp]: "name_eq (wire_spelling d) d"
  by (simp add: name_eq_iff canonical_labels_def wire_spelling_def wire_label_def comp_def)

lemma wire_spelling_wf: "name_wf d \<Longrightarrow> name_wf (wire_spelling d)"
  using wire_spelling_props(2) [of d]
  by (auto simp: name_wf_def list_all_iff wire_spelling_def intro!: wire_label_wf
      dest: label_wf_props)

section \<open>Reading names\<close>

lemma label_length_byte:
  assumes "0 < n" "n \<le> 63"
  shows "unat (word_of_nat n :: byte) = n" "(word_of_nat n :: byte) \<noteq> 0"
    "(word_of_nat n :: byte) AND 0xC0 \<noteq> 0xC0"
proof -
  show u: "unat (word_of_nat n :: byte) = n" using assms by (simp add: unat_of_nat)
  then show "(word_of_nat n :: byte) \<noteq> 0" using assms by auto
  have "take_bit 6 (word_of_nat n :: byte) = word_of_nat n"
    using assms by (simp add: word_unat_eq_iff unsigned_take_bit_eq u take_bit_nat_eq_self)
  moreover have "take_bit 6 (word_of_nat n :: byte) AND 0xC0 = 0"
    by (simp add: take_bit_eq_mask and.assoc mask_eq_exp_minus_1)
  ultimately show "(word_of_nat n :: byte) AND 0xC0 \<noteq> 0xC0" by simp
qed

text \<open>One round of the loop on a label that lies in the buffer.\<close>

lemma parse_name_loop_label:
  assumes "holds_at buf pos (label_octets bs)" "bs \<noteq> []" "length bs \<le> 63" "depth < 128"
  shows "parse_name_loop buf offset ls pos consumed jumped depth first
    = parse_name_loop buf offset (ls @ [escape_wire_label bs]) (pos + length (label_octets bs))
        consumed jumped (depth + 1) first"
proof -
  have n: "0 < length bs" using assms(2) by simp
  from assms(1) have "pos < length buf" "buf ! pos = word_of_nat (length bs)"
    and at: "holds_at buf (Suc pos) bs"
    by (simp_all add: label_octets_def holds_at_Cons)
  moreover from at have "Suc pos + length bs \<le> length buf" "slice buf (Suc pos) (length bs) = bs"
    by (rule holds_atD)+
  ultimately show ?thesis
    using assms(4) label_length_byte [OF n assms(3)]
    by (subst parse_name_loop.simps) (simp add: Let_def label_octets_def)
qed

lemma parse_name_loop_labels:
  assumes "\<forall>bs \<in> set bss. bs \<noteq> [] \<and> length bs \<le> 63"
    and "holds_at buf pos (concat (map label_octets bss))" "depth + length bss \<le> 128"
  shows "parse_name_loop buf offset ls pos consumed jumped depth first
    = parse_name_loop buf offset (ls @ map escape_wire_label bss)
        (pos + length (concat (map label_octets bss))) consumed jumped (depth + length bss) first"
  using assms
proof (induction bss arbitrary: ls pos depth)
  case (Cons bs bss)
  then show ?case
    by (simp add: holds_at_append parse_name_loop_label [where bs = bs] Cons.IH add.assoc
        del: length_concat)
qed simp

lemma parse_name_loop_root:
  assumes "holds_at buf pos [0]" "depth < 128"
  shows "parse_name_loop buf offset ls pos consumed jumped depth first
    = Inr (ls, if jumped then consumed else pos - offset + 1)"
  using assms by (subst parse_name_loop.simps) (simp add: holds_at_Cons)

lemma name_wf_wires:
  assumes "name_wf d"
  shows "\<forall>bs \<in> set (map label_wire (labels d)). bs \<noteq> [] \<and> length bs \<le> 63"
    and "length (labels d) \<le> 127"
    and "length (concat (map label_octets (map label_wire (labels d)))) + 1 = wire_len d"
proof -
  show "\<forall>bs \<in> set (map label_wire (labels d)). bs \<noteq> [] \<and> length bs \<le> 63"
    using assms by (auto simp: name_wf_def list_all_iff dest: label_wf_props)
  show "length (labels d) \<le> 127" using assms by (rule name_wf_label_count)
  show "length (concat (map label_octets (map label_wire (labels d)))) + 1 = wire_len d"
    using length_write_wire [of d] by (simp add: write_wire_def comp_def del: length_write_wire)
qed

lemma write_wire_octets:
  "write_wire d = concat (map label_octets (map label_wire (labels d))) @ [0]"
  by (simp add: write_wire_def comp_def)

lemma wire_spelling_labels:
  "map label_inner (labels (wire_spelling d)) = map escape_wire_label (map label_wire (labels d))"
  by (simp add: wire_spelling_def wire_label_def comp_def)

lemma wire_spelling_text:
  assumes "name_wf d"
  shows "(if map escape_wire_label (map label_wire (labels d)) = [] then Inr domain_root
    else domain_new (join_labels (map escape_wire_label (map label_wire (labels d))) @ ''.''))
    = Inr (wire_spelling d)"
proof (cases "labels d = []")
  case True
  then show ?thesis by (simp add: wire_spelling_def domain_root_def)
next
  case False
  then have "name_display (wire_spelling d)
      = join_labels (map escape_wire_label (map label_wire (labels d))) @ ''.''"
    by (simp add: name_display_def is_root_def wire_spelling_def wire_label_def comp_def)
  with False domain_new_display [OF wire_spelling_wf [OF assms]] show ?thesis by simp
qed

lemma parse_name_finish:
  assumes "name_wf d"
    and "parse_name_loop buf offset [] offset 0 False 0 None
      = Inr (map escape_wire_label (map label_wire (labels d)), n)"
  shows "parse_name buf offset = Inr (wire_spelling d, n)"
  using wire_spelling_text [OF assms(1)] assms(2)
  by (simp add: parse_name_def split: if_splits)

lemma parse_name_written:
  assumes wf: "name_wf d" and at: "holds_at buf offset (write_wire d)"
  shows "parse_name buf offset = Inr (wire_spelling d, wire_len d)"
proof (rule parse_name_finish [OF wf])
  let ?bss = "map label_wire (labels d)"
  let ?n = "length (concat (map label_octets ?bss))"
  from at have "holds_at buf offset (concat (map label_octets ?bss))" "holds_at buf (offset + ?n) [0]"
    unfolding write_wire_octets holds_at_append by blast+
  then show "parse_name_loop buf offset [] offset 0 False 0 None
      = Inr (map escape_wire_label ?bss, wire_len d)"
    using name_wf_wires [OF wf]
    by (subst parse_name_loop_labels [where bss = "?bss"])
       (simp_all add: parse_name_loop_root del: length_concat map_map)
qed

text \<open>A compression pointer: the labels before it, then a suffix stored further up.\<close>

definition pointer_octets :: "nat \<Rightarrow> byte list" where
  "pointer_octets tgt = [0xC0 OR word_of_nat (tgt div 256), word_of_nat (tgt mod 256)]"

lemma pointer_octets_value:
  assumes "tgt < 2 ^ 14"
  shows "(0xC0 OR word_of_nat (tgt div 256) :: byte) AND 0xC0 = 0xC0"
    and "unat (push_bit 8 (ucast (0xC0 OR word_of_nat (tgt div 256) :: byte) AND 0x3F :: u16)
        OR ucast (word_of_nat (tgt mod 256) :: byte)) = tgt"
proof -
  let ?a = "word_of_nat (tgt div 256) :: byte" and ?b = "word_of_nat (tgt mod 256) :: byte"
  from assms have "tgt div 256 < 64" by (simp add: div_less_iff_less_mult)
  then have a: "unat ?a = tgt div 256" "unat ?a < 64" by (simp_all add: unat_of_nat)
  have b: "unat ?b = tgt mod 256" by (simp add: unat_of_nat)
  have mask: "0x3F = (mask 6 :: byte)" "0x3F = (mask 6 :: u16)" by (simp_all add: mask_eq_exp_minus_1)
  have ta: "take_bit 6 ?a = ?a"
    using a(2) by (simp add: word_unat_eq_iff unsigned_take_bit_eq take_bit_nat_eq_self)
  then have "?a AND 0xC0 = take_bit 6 ?a AND 0xC0" by simp
  also have "\<dots> = 0" by (simp add: take_bit_eq_mask and.assoc mask_eq_exp_minus_1)
  finally have z: "?a AND 0xC0 = 0" .
  then show "(0xC0 OR ?a) AND 0xC0 = 0xC0" by (simp add: bit.conj_disj_distrib2)
  have "(ucast (0xC0 OR ?a) AND 0x3F :: u16) = ucast ?a AND 0x3F"
    by (simp add: unsigned_or_eq bit.conj_disj_distrib2)
  also have "\<dots> = ucast (take_bit 6 ?a)"
    by (simp add: mask(2) unsigned_take_bit_eq flip: take_bit_eq_mask)
  finally have low: "(ucast (0xC0 OR ?a) AND 0x3F :: u16) = ucast ?a" using ta by simp
  have "push_bit 8 (ucast ?a :: u16) AND ucast ?b = 0"
    by (rule bit_word_eqI) (auto simp: bit_simps)
  then have "push_bit 8 (ucast ?a :: u16) OR ucast ?b = push_bit 8 (ucast ?a) + ucast ?b"
    by (rule disjunctive_add_eq_or [symmetric])
  also have "unat \<dots> = 256 * unat ?a + unat ?b"
  proof -
    have "unat (push_bit 8 (ucast ?a :: u16)) = 256 * unat ?a"
    proof -
      have u: "unat (ucast ?a :: u16) = unat ?a"
        by (simp add: unsigned_ucast_eq take_bit_nat_eq_self unat_bounds order_less_trans [OF unat_byte_less])
      then have "unat (ucast ?a :: u16) * unat (256 :: u16) < 2 ^ LENGTH(16)"
        using a(2) by simp
      then have "unat (ucast ?a * (256 :: u16)) = unat (ucast ?a :: u16) * unat (256 :: u16)"
        by (rule unat_mult_lem [THEN iffD1])
      with u show ?thesis by (simp add: push_bit_eq_mult)
    qed
    moreover have "unat (ucast ?b :: u16) = unat ?b"
      by (simp add: unsigned_ucast_eq take_bit_nat_eq_self unat_bounds order_less_trans [OF unat_byte_less])
    moreover have "256 * unat ?a + unat ?b < 65536"
      using a(2) unat_byte_less [of ?b] by linarith
    ultimately show ?thesis by (simp add: unat_plus_if_size word_size)
  qed
  also have "\<dots> = tgt" by (simp add: a b)
  finally show "unat (push_bit 8 (ucast (0xC0 OR ?a) AND 0x3F :: u16) OR ucast ?b) = tgt"
    unfolding low .
qed

lemma parse_name_loop_pointer:
  assumes "holds_at buf pos (pointer_octets tgt)" "tgt < 2 ^ 14" "tgt < offset" "depth < 128"
  shows "parse_name_loop buf offset ls pos consumed False depth None
    = parse_name_loop buf offset ls tgt (pos - offset + 2) True (depth + 1) (Some pos)"
proof -
  let ?h = "0xC0 OR word_of_nat (tgt div 256) :: byte"
  note p = pointer_octets_value [OF assms(2)]
  from assms(1) have at: "pos < length buf" "buf ! pos = ?h" "pos + 1 < length buf"
    "buf ! (pos + 1) = word_of_nat (tgt mod 256)"
    by (simp_all add: pointer_octets_def holds_at_Cons)
  have "?h \<noteq> 0"
  proof
    assume "?h = 0"
    with p(1) have "(0 :: byte) AND 0xC0 = 0xC0" by metis
    then show False by simp
  qed
  with at p assms(3,4) show ?thesis
    by (subst parse_name_loop.simps) (simp add: Let_def)
qed

lemma parse_name_compressed:
  assumes wf: "name_wf \<lparr>labels = ls @ labels d\<rparr>" and ptr: "tgt < offset" "tgt < 2 ^ 14"
    and at: "holds_at buf tgt (write_wire d)"
    and here: "holds_at buf offset (concat (map (\<lambda>l. label_octets (label_wire l)) ls)
        @ pointer_octets tgt)"
    and short: "length (labels d) + length ls \<le> 126"
  shows "parse_name buf offset = Inr (wire_spelling \<lparr>labels = ls @ labels d\<rparr>,
    length (concat (map (\<lambda>l. label_octets (label_wire l)) ls)) + 2)"
proof (rule parse_name_finish [OF wf])
  let ?bss = "map label_wire ls" and ?tss = "map label_wire (labels d)"
  let ?n = "length (concat (map label_octets ?bss))"
  have octets: "concat (map (\<lambda>l. label_octets (label_wire l)) ls) = concat (map label_octets ?bss)"
    by (simp add: comp_def)
  from here have h: "holds_at buf offset (concat (map label_octets ?bss))"
    "holds_at buf (offset + ?n) (pointer_octets tgt)"
    unfolding octets holds_at_append by blast+
  from at have t: "holds_at buf tgt (concat (map label_octets ?tss))"
    "holds_at buf (tgt + length (concat (map label_octets ?tss))) [0]"
    unfolding write_wire_octets holds_at_append by blast+
  have ok: "\<forall>bs \<in> set ?bss. bs \<noteq> [] \<and> length bs \<le> 63" "\<forall>bs \<in> set ?tss. bs \<noteq> [] \<and> length bs \<le> 63"
    using name_wf_wires(1) [OF wf] by auto
  have "parse_name_loop buf offset [] offset 0 False 0 None
      = parse_name_loop buf offset (map escape_wire_label ?bss) tgt (?n + 2) True
          (length ls + 1) (Some (offset + ?n))"
    using parse_name_loop_labels [OF ok(1) h(1), of 0] parse_name_loop_pointer [OF h(2) ptr(2,1)] short
    by (simp del: length_concat map_map)
  also have "\<dots> = Inr (map escape_wire_label ?bss @ map escape_wire_label ?tss, ?n + 2)"
    using parse_name_loop_labels [OF ok(2) t(1), of "length ls + 1"] t(2) short
    by (simp add: parse_name_loop_root del: length_concat map_map)
  finally show "parse_name_loop buf offset [] offset 0 False 0 None
      = Inr (map escape_wire_label (map label_wire (labels \<lparr>labels = ls @ labels d\<rparr>)),
          length (concat (map (\<lambda>l. label_octets (label_wire l)) ls)) + 2)"
    by (simp add: octets del: length_concat)
qed

text \<open>The bytes a name takes lie within the buffer.\<close>

lemma parse_name_loop_bounds:
  assumes "parse_name_loop buf offset ls pos consumed jumped depth first = Inr (ls', n)"
    and "offset \<le> pos \<or> jumped" "jumped \<longrightarrow> offset + consumed \<le> length buf \<and> 0 < consumed"
  shows "0 < n \<and> offset + n \<le> length buf"
  using assms
proof (induction buf offset ls pos consumed jumped depth first rule: parse_name_loop.induct)
  case (1 buf offset ls pos consumed jumped depth first)
  note prems = "1.prems"(1) [unfolded parse_name_loop.simps [of buf offset ls pos]]
  show ?case
  proof (cases "buf ! pos = 0")
    case True
    with prems "1.prems"(2,3) show ?thesis by (auto simp: Let_def split: if_splits)
  next
    case nz: False
    show ?thesis
    proof (cases "buf ! pos AND 0xC0 = 0xC0")
      case True
      with prems nz "1.IH"(1) "1.prems"(2,3) show ?thesis
        by (simp add: Let_def not_le not_less split: if_splits)
    next
      case False
      with prems nz "1.IH"(2) [OF _ _ refl _ _ refl refl] "1.prems"(2,3) show ?thesis
        by (auto simp: Let_def not_le not_less split: if_splits)
    qed
  qed
qed

lemma parse_name_bounds:
  assumes "parse_name buf offset = Inr (d, n)"
  shows "name_wf d \<and> 0 < n \<and> offset + n \<le> length buf"
proof -
  from assms obtain ls where "parse_name_loop buf offset [] offset 0 False 0 None = Inr (ls, n)"
    and d: "d = domain_root \<or> domain_new (join_labels ls @ ''.'') = Inr d"
    by (auto simp: parse_name_def result_simps split: if_splits)
  from parse_name_loop_bounds [OF this(1)] have "0 < n \<and> offset + n \<le> length buf" by simp
  moreover have "name_wf domain_root" by (simp add: name_wf_def domain_root_def wire_len_def)
  ultimately show ?thesis using d domain_new_wf by blast
qed

section \<open>Reading records\<close>

lemma parse_txt_written:
  assumes "list_all txt_wf ss" "holds_at buf pos (concat (map (\<lambda>s. label_octets (txt_bytes s)) ss))"
    and "pos + length (concat (map (\<lambda>s. label_octets (txt_bytes s)) ss)) = length buf"
  shows "parse_txt_from buf pos = Inr ss"
  using assms
proof (induction ss arbitrary: pos)
  case Nil
  then show ?case by (subst parse_txt_from.simps) simp
next
  case (Cons s ss)
  let ?n = "length (txt_bytes s)"
  from Cons.prems have n: "?n < 256" by (simp add: txt_wf_def)
  then have u: "unat (word_of_nat ?n :: byte) = ?n" by (rule unat_word_of_nat)
  from Cons.prems(2) have at: "pos < length buf" "buf ! pos = word_of_nat ?n"
    and here: "holds_at buf (Suc pos) (txt_bytes s)"
    and rest: "holds_at buf (pos + (1 + ?n)) (concat (map (\<lambda>s. label_octets (txt_bytes s)) ss))"
    by (simp_all add: label_octets_def [of "txt_bytes s"] holds_at_Cons holds_at_append)
  have "pos + (1 + ?n) + length (concat (map (\<lambda>s. label_octets (txt_bytes s)) ss)) = length buf"
    using Cons.prems(3) by (simp add: label_octets_def [of "txt_bytes s"] del: length_concat)
  with Cons.IH [OF _ rest] Cons.prems(1) have "parse_txt_from buf (pos + (1 + ?n)) = Inr ss" by simp
  moreover have "txt_new (txt_bytes s) = Inr s"
    using Cons.prems(1) by (cases s) (simp add: txt_new_Inr)
  ultimately show ?case
    using at holds_atD [OF here] u by (subst parse_txt_from.simps) (simp add: Let_def)
qed

text \<open>The typed data that \<open>parse_rdata_wire\<close> reads; all other types come back as \<open>Unknown\<close>.\<close>

fun wire_typed :: "rdata \<Rightarrow> bool" where
  "wire_typed (RD_A _) = True"
| "wire_typed (RD_Aaaa _) = True"
| "wire_typed (RD_Cname _) = True"
| "wire_typed (RD_Ns _) = True"
| "wire_typed (RD_Ptr _) = True"
| "wire_typed (RD_Soa _ _ _ _ _ _ _) = True"
| "wire_typed (RD_Mx _ _) = True"
| "wire_typed (RD_Txt _) = True"
| "wire_typed (RD_Srv _ _ _ _) = True"
| "wire_typed (RD_Caa _ _ _) = True"
| "wire_typed _ = False"

text \<open>Data as the constructors of its parts build it: names, TTLs and strings within limits.\<close>

fun rdata_wf :: "rdata \<Rightarrow> bool" where
  "rdata_wf (RD_Cname n) = name_wf n"
| "rdata_wf (RD_Ns n) = name_wf n"
| "rdata_wf (RD_Ptr n) = name_wf n"
| "rdata_wf (RD_Soa m r _ a b c d) \<longleftrightarrow>
     name_wf m \<and> name_wf r \<and> ttl_wf a \<and> ttl_wf b \<and> ttl_wf c \<and> ttl_wf d"
| "rdata_wf (RD_Mx _ n) = name_wf n"
| "rdata_wf (RD_Txt ss) = list_all txt_wf ss"
| "rdata_wf (RD_Srv _ _ _ n) = name_wf n"
| "rdata_wf (RD_Caa _ tag val) \<longleftrightarrow> utf8_valid (as_bytes tag) \<and> utf8_valid (as_bytes val)"
| "rdata_wf (RD_Rrsig _ _ _ _ _ _ _ n _) = name_wf n"
| "rdata_wf (RD_Nsec n _) = name_wf n"
| "rdata_wf (RD_Rp m t) \<longleftrightarrow> name_wf m \<and> name_wf t"
| "rdata_wf _ = True"

lemma soa_ttl_wf: "ttl_wf t \<Longrightarrow> soa_ttl what (ttl_value t) = Inr t"
  by (cases t) (simp add: soa_ttl_def map_err_eq_Inr ttl_new_Inr)

lemma wire_len_pos [simp]: "0 < wire_len d"
  by (simp add: wire_len_def)

lemmas parse_rdata_defs = parse_rdata_wire_def record_type_from_value_def

lemma u16_at_prefix: "u16_at (u16_be w @ bs) 0 = w"
  by (simp add: u16_at_def slice_def)

lemma parse_soa_written:
  assumes wf: "name_wf m" "name_wf r" "ttl_wf a" "ttl_wf b" "ttl_wf c" "ttl_wf d"
    and at: "holds_at msg off (write_wire m @ write_wire r @ u32_be (serial_value s) @ u32_be (ttl_value a)
       @ u32_be (ttl_value b) @ u32_be (ttl_value c) @ u32_be (ttl_value d))"
  shows "parse_rdata_wire 6 body msg off
    = Inr (RD_Soa (wire_spelling m) (wire_spelling r) s a b c d)"
proof -
  let ?o = "off + wire_len m + wire_len r"
  from at have m: "holds_at msg off (write_wire m)" and r: "holds_at msg (off + wire_len m) (write_wire r)"
    and t: "holds_at msg ?o (u32_be (serial_value s) @ u32_be (ttl_value a)
       @ u32_be (ttl_value b) @ u32_be (ttl_value c) @ u32_be (ttl_value d))"
    by (simp_all add: holds_at_append)
  from holds_atD [OF t] have len: "?o + 20 \<le> length msg"
    and sl: "slice msg ?o 20 = u32_be (serial_value s) @ u32_be (ttl_value a)
       @ u32_be (ttl_value b) @ u32_be (ttl_value c) @ u32_be (ttl_value d)" (is "_ = ?b")
    by simp_all
  have "u32_at ?b 0 = serial_value s" "u32_at ?b 4 = ttl_value a" "u32_at ?b 8 = ttl_value b"
    "u32_at ?b 12 = ttl_value c" "u32_at ?b 16 = ttl_value d"
    by (simp_all add: u32_at_def slice_def)
  with len sl show ?thesis
    using wf by (simp add: parse_rdata_defs parse_name_written [OF _ m] parse_name_written [OF _ r]
        Let_def soa_ttl_wf)
qed

lemma parse_caa_written:
  assumes "utf8_valid (as_bytes tag)" "utf8_valid (as_bytes val)" "length (as_bytes tag) \<le> 255"
  shows "parse_rdata_wire 257 (flags # label_octets (as_bytes tag) @ as_bytes val) msg off
    = Inr (RD_Caa flags tag val)"
proof -
  have "unat (word_of_nat (length tag) :: byte) = length tag"
    using assms(3) by (intro unat_word_of_nat) simp
  with assms show ?thesis
    by (simp add: parse_rdata_defs label_octets_def slice_def Let_def)
qed

lemma parse_rdata_written:
  assumes "rdata_wf rd" "wire_typed rd" "encode_rdata rd = Inr body" "holds_at msg off body"
  shows "parse_rdata_wire (rdata_type_value rd) body msg off = Inr (map_record_data wire_spelling rd)"
proof (cases rd)
  case (RD_Soa m r s a b c d)
  with assms parse_soa_written show ?thesis by simp
next
  case (RD_Caa flags tag val)
  with assms parse_caa_written [of tag val flags msg off] show ?thesis
    by (auto simp: len8_prefixed_Inr result_simps)
next
  case (RD_Txt ss)
  with assms have "body = concat (map (\<lambda>s. label_octets (txt_bytes s)) ss)"
    by (auto simp: encode_txt_def result_simps rmap_list_Inr len8_prefixed_Inr list_all2_conv_all_nth
        intro!: arg_cong [of _ _ concat] nth_equalityI)
  with RD_Txt assms(1) parse_txt_written [of ss body 0] show ?thesis
    by (simp add: parse_rdata_defs)
next
  case (RD_Mx p n)
  with assms(3) have "body = u16_be p @ write_wire n" by simp
  moreover from this assms(4) have "holds_at msg (off + 2) (write_wire n)"
    by (simp add: holds_at_append del: add_2_eq_Suc add_2_eq_Suc')
  moreover note RD_Mx assms(1)
  ultimately show ?thesis
    using wire_len_pos [of n]
    by (simp add: parse_rdata_defs parse_name_written u16_at_prefix del: wire_len_pos)
next
  case (RD_Srv p w q n)
  with assms(3) have "body = u16_be p @ u16_be w @ u16_be q @ write_wire n" by simp
  moreover from this assms(4) have "holds_at msg (off + 6) (write_wire n)"
    by (simp add: holds_at_append add.assoc del: add_2_eq_Suc add_2_eq_Suc')
  moreover note RD_Srv assms(1)
  ultimately show ?thesis
    using wire_len_pos [of n]
    by (simp add: parse_rdata_defs parse_name_written u16_at_def slice_def del: wire_len_pos)
qed (use assms in \<open>auto simp: parse_rdata_defs parse_name_written\<close>)

lemma rdata_eq_spelling: "rdata_eq (map_record_data wire_spelling rd) rd"
  unfolding rdata_eq_def record_data.rel_map by (rule record_data.rel_refl) simp

section \<open>Walking over records\<close>

lemma rr_octets_at:
  assumes "holds_at msg off (rr_octets name rtype class ttl body)" "length body \<le> 65535"
  defines "p \<equiv> off + wire_len name"
  shows "holds_at msg off (write_wire name)" "u16_at msg p = rtype" "u16_at msg (p + 2) = class"
    "u32_at msg (p + 4) = ttl" "unat (u16_at msg (p + 8)) = length body"
    "holds_at msg (p + 10) body" "p + 10 + length body \<le> length msg"
proof -
  from assms(1) have at: "holds_at msg off (write_wire name)" "holds_at msg p (u16_be rtype)"
    "holds_at msg (p + 2) (u16_be class)" "holds_at msg (p + 4) (u32_be ttl)"
    "holds_at msg (p + 8) (u16_be (word_of_nat (length body)))" "holds_at msg (p + 10) body"
    by (simp_all add: rr_octets_def holds_at_append p_def add.assoc del: add_2_eq_Suc add_2_eq_Suc')
  have "unat (word_of_nat (length body) :: u16) = length body"
    using assms(2) by (intro unat_word_of_nat) simp
  with at holds_at_u16 [OF at(2)] holds_at_u16 [OF at(3)] holds_at_u32 [OF at(4)]
    holds_at_u16 [OF at(5)] holds_atD [OF at(6)]
  show "holds_at msg off (write_wire name)" "u16_at msg p = rtype" "u16_at msg (p + 2) = class"
    "u32_at msg (p + 4) = ttl" "unat (u16_at msg (p + 8)) = length body"
    "holds_at msg (p + 10) body" "p + 10 + length body \<le> length msg"
    by simp_all
qed

lemma length_rr_octets [simp]:
  "length (rr_octets name rtype class ttl body) = wire_len name + 10 + length body"
  by (simp add: rr_octets_def)

lemma type_and_len_written:
  assumes "name_wf name" "is_rr name rtype r" "holds_at msg off r"
  shows "resource_record_type_and_len msg off = Inr (rtype, length r)"
proof -
  from assms(2) obtain "class" ttl body where r: "r = rr_octets name rtype class ttl body"
    and body: "length body \<le> 65535"
    by (auto simp: is_rr_def)
  note at = rr_octets_at [OF assms(3) [unfolded r] body]
  show ?thesis
    using at(2,5,7) by (simp add: resource_record_type_and_len_def parse_name_written [OF assms(1) at(1)]
        Let_def r)
qed

definition plain_rr :: "byte list \<Rightarrow> bool" where
  "plain_rr r \<longleftrightarrow> (\<exists>name rtype. name_wf name \<and> rtype \<noteq> 250 \<and> is_rr name rtype r)"

lemma skip_records_written:
  assumes "list_all plain_rr rrs" "holds_at msg off (concat rrs)"
  shows "skip_records msg (length rrs) off = Inr (off + length (concat rrs))"
  using assms
proof (induction rrs arbitrary: off)
  case (Cons r rrs)
  then have at: "holds_at msg off r" "holds_at msg (off + length r) (concat rrs)"
    by (simp_all add: holds_at_append)
  from Cons.prems(1) obtain name rtype where "name_wf name" "rtype \<noteq> 250" "is_rr name rtype r"
    by (auto simp: plain_rr_def)
  with Cons.IH [OF _ at(2)] Cons.prems(1) type_and_len_written [OF _ _ at(1)] show ?case
    by (simp add: add.assoc del: length_concat)
qed simp

text \<open>
  The messages the crate writes: a header, one question (or zone), records, and no additional
  record; signing makes ARCOUNT 1 and appends the TSIG record.
\<close>

definition message_octets ::
    "u16 \<Rightarrow> u16 \<Rightarrow> u16 \<Rightarrow> u16 \<Rightarrow> u16 \<Rightarrow> domain_name \<Rightarrow> u16 \<Rightarrow> u16 \<Rightarrow> byte list \<Rightarrow> byte list" where
  "message_octets i flags an ns ar zone qtype qclass records =
     (u16_be i @ u16_be flags @ u16_be 1 @ u16_be an @ u16_be ns @ u16_be ar)
       @ (write_wire zone @ u16_be qtype @ u16_be qclass) @ records"

lemma header_parse_message:
  assumes "msg = message_octets i flags an ns ar zone qtype qclass records"
  shows "\<exists>h. header_parse msg = Inr h \<and> dh_id h = i \<and> dh_question_count h = 1 \<and> dh_answer_count h = an
    \<and> dh_authority_count h = ns \<and> dh_additional_count h = ar"
proof -
  from assms have "holds_at msg 0 (u16_be i @ u16_be flags @ u16_be 1 @ u16_be an @ u16_be ns @ u16_be ar)"
    by (simp add: message_octets_def holds_at_def slice_def)
  then have "holds_at msg 0 (u16_be i)" "holds_at msg 4 (u16_be 1)" "holds_at msg 6 (u16_be an)"
    "holds_at msg 8 (u16_be ns)" "holds_at msg 10 (u16_be ar)"
    by (simp_all add: holds_at_append del: add_2_eq_Suc add_2_eq_Suc')
  note fields = this [THEN holds_at_u16]
  then show ?thesis by (simp add: header_parse_def Let_def)
qed

lemma split_common:
  assumes msg: "msg = message_octets i flags an ns ar zone qtype qclass (concat rrs @ rest)"
    and ok: "name_wf zone" "list_all plain_rr rrs" "unat an + unat ns = length rrs"
  defines "off \<equiv> 16 + wire_len zone + length (concat rrs)"
  shows "split_final_tsig msg =
       rbind (scan_additional msg (unat ar) off None) (\<lambda>(offset, tsig_offset).
         if offset \<noteq> length msg then
           Inl (XfrProtocolError (''trailing bytes after DNS sections: ''
             @ show_nat (length msg - offset)))
         else (case tsig_offset of
             None \<Rightarrow> Inr \<lparr>unsigned_message = msg, split_tsig = None\<rparr>
           | Some tsig_offset \<Rightarrow>
               rbind (map_err Core (tsig_parse (drop tsig_offset msg))) (\<lambda>tsig.
                 if ar = 0 then Inl (XfrProtocolError ''TSIG present with zero additional count'')
                 else Inr \<lparr>unsigned_message =
                     overwrite (take tsig_offset msg) 10 (u16_be (ar - 1)),
                   split_tsig = Some tsig\<rparr>)))"
    "holds_at msg off rest" "off + length rest = length msg"
proof -
  from header_parse_message [OF msg] obtain h where h: "header_parse msg = Inr h"
    "dh_question_count h = 1" "dh_answer_count h = an" "dh_authority_count h = ns"
    "dh_additional_count h = ar" by blast
  have "holds_at msg 0 ((u16_be i @ u16_be flags @ u16_be 1 @ u16_be an @ u16_be ns @ u16_be ar)
       @ (write_wire zone @ u16_be qtype @ u16_be qclass) @ concat rrs @ rest)"
    unfolding msg message_octets_def by (rule holds_at_self)
  then have at: "holds_at msg 12 (write_wire zone)"
    "holds_at msg (16 + wire_len zone) (concat rrs)" "holds_at msg off rest"
    by (simp_all add: holds_at_append off_def ac_simps del: length_concat add_2_eq_Suc add_2_eq_Suc')
  have len: "off + length rest = length msg"
    by (simp add: msg message_octets_def off_def del: length_concat)
  have "skip_questions msg (unat (1 :: u16)) 12 = Inr (16 + wire_len zone)"
    using len by (simp add: parse_name_written [OF ok(1) at(1)] off_def ac_simps del: add_2_eq_Suc add_2_eq_Suc')
  moreover have "skip_records msg (unat an + unat ns) (16 + wire_len zone) = Inr off"
    using skip_records_written [OF ok(2) at(2)] by (simp add: ok(3) off_def del: length_concat)
  ultimately show "split_final_tsig msg =
       rbind (scan_additional msg (unat ar) off None) (\<lambda>(offset, tsig_offset).
         if offset \<noteq> length msg then
           Inl (XfrProtocolError (''trailing bytes after DNS sections: ''
             @ show_nat (length msg - offset)))
         else (case tsig_offset of
             None \<Rightarrow> Inr \<lparr>unsigned_message = msg, split_tsig = None\<rparr>
           | Some tsig_offset \<Rightarrow>
               rbind (map_err Core (tsig_parse (drop tsig_offset msg))) (\<lambda>tsig.
                 if ar = 0 then Inl (XfrProtocolError ''TSIG present with zero additional count'')
                 else Inr \<lparr>unsigned_message =
                     overwrite (take tsig_offset msg) 10 (u16_be (ar - 1)),
                   split_tsig = Some tsig\<rparr>)))"
    unfolding split_final_tsig_def h(1) rbind.simps h(2-5) by simp
  show "holds_at msg off rest" "off + length rest = length msg" by fact+
qed

lemma split_unsigned:
  assumes "msg = message_octets i flags an ns 0 zone qtype qclass (concat rrs)"
    and "name_wf zone" "list_all plain_rr rrs" "unat an + unat ns = length rrs"
  shows "split_final_tsig msg = Inr \<lparr>unsigned_message = msg, split_tsig = None\<rparr>"
  using assms split_common(1,3) [of msg i flags an ns 0 zone qtype qclass rrs "[]"] by simp

lemma split_signed:
  assumes unsigned: "u = message_octets i flags an ns 0 zone qtype qclass (concat rrs)"
    and ok: "name_wf zone" "list_all plain_rr rrs" "unat an + unat ns = length rrs"
    and tsig: "name_wf kn" "is_rr kn 250 t"
  shows "split_final_tsig (overwrite u 10 (u16_be 1) @ t)
    = rmap (\<lambda>r. \<lparr>unsigned_message = u, split_tsig = Some r\<rparr>) (map_err Core (tsig_parse t))"
proof -
  let ?m = "overwrite u 10 (u16_be 1) @ t"
  let ?off = "16 + wire_len zone + length (concat rrs)"
  have m: "?m = message_octets i flags an ns 1 zone qtype qclass (concat rrs @ t)"
    by (simp add: unsigned message_octets_def overwrite_def)
  have len: "length u = ?off"
    by (simp add: unsigned message_octets_def del: length_concat)
  note split = split_common(1) [OF m ok] and at = split_common(2,3) [OF m ok]
  have "scan_additional ?m (unat (1 :: u16)) ?off None = Inr (length ?m, Some ?off)"
    using type_and_len_written [OF tsig at(1)] at(2) by simp
  moreover have "take ?off ?m = overwrite u 10 (u16_be 1)" "drop ?off ?m = t"
    using len overwrite_arcount(2) [of u 1] by simp_all
  moreover have "overwrite (overwrite u 10 (u16_be 1)) 10 (u16_be 0) = u"
    by (simp add: unsigned message_octets_def overwrite_def)
  ultimately show ?thesis
    unfolding split by (cases "tsig_parse t") simp_all
qed

text \<open>The TSIG record that \<open>TsigRecord::new\<close> writes is a record of type 250 for these walkers.\<close>

definition canonical_name :: "domain_name \<Rightarrow> domain_name" where
  "canonical_name d = \<lparr>labels = map (\<lambda>l. wire_label (map lower_byte (label_wire l))) (labels d)\<rparr>"

lemma canonical_name_props:
  "write_wire (canonical_name d) = write_wire_canonical d" "wire_len (canonical_name d) = wire_len d"
  by (simp_all add: canonical_name_def write_wire_def write_wire_canonical_def label_octets_def
      wire_label_def wire_len_def label_len_def comp_def)

lemma canonical_name_wf: "name_wf d \<Longrightarrow> name_wf (canonical_name d)"
proof -
  have "label_wf (wire_label (map lower_byte (label_wire l)))" if "label_wf l" for l
    using label_wf_props(3,4) [OF that] by (intro wire_label_wf) simp_all
  then show "name_wf d \<Longrightarrow> name_wf (canonical_name d)"
    using canonical_name_props(2) [of d]
    by (auto simp: name_wf_def list_all_iff canonical_name_def)
qed

lemma tsig_wire_rr:
  assumes "mac_lib_ok lib" "tsig_new lib key message ts rm = Inr t"
  shows "is_rr (canonical_name (key_name key)) 250 (tsig_wire t)"
proof -
  obtain d mac where d: "algorithm_domain (key_algorithm key) = Inr d"
    and "mac_tag lib (key_algorithm key) (key_material key)
        (prior_mac_bytes rm @ message @ tsig_variables (key_name key) d ts 300 0 []) = Some mac"
    and t: "tsig_wire t = (let rdata = tsig_rdata d ts 300 mac (message_id message) 0 in
          write_wire_canonical (key_name key) @ u16_be 250 @ u16_be 255 @ u32_be 0
            @ u16_be (word_of_nat (length rdata)) @ rdata)"
    using assms(2) by (elim tsig_new_Inr) simp
  then have "wire_len d \<le> 13" "length mac \<le> 64"
    using algorithm_domain_ok [of "key_algorithm key"] mac_tag_length [OF assms(1)] by auto
  then have "length (tsig_rdata d ts 300 mac (message_id message) 0) \<le> 65535"
    by (simp add: tsig_rdata_def)
  with t show ?thesis
    unfolding is_rr_def rr_octets_def canonical_name_props Let_def by blast
qed

lemma parse_record_written:
  assumes "name_wf name" "rdata_wf rd" "wire_typed rd" "class_canonical cls" "ttl_wf t"
    and "encode_rdata rd = Inr body" "length body \<le> 65535"
    and at: "holds_at msg off (rr_octets name (rdata_type_value rd) (class_value cls) (ttl_value t) body)"
  shows "parse_resource_record msg off
    = Inr (\<lparr>rr_name = wire_spelling name, rr_class = cls, rr_ttl = t,
            rr_rdata = map_record_data wire_spelling rd\<rparr>, wire_len name + 10 + length body)"
proof -
  note w = rr_octets_at [OF at assms(7)]
  have sl: "slice msg (off + wire_len name + 10) (length body) = body"
    using holds_atD(2) [OF w(6)] .
  have "ttl_new (ttl_value t) = Inr t" using assms(5) by (cases t) (simp add: ttl_new_Inr)
  moreover note parse_rdata_written [OF assms(2,3,6) w(6)] assms(4)
  ultimately show ?thesis
    using w(2-5,7) sl
    by (simp add: parse_resource_record_def parse_name_written [OF assms(1) w(1)] Let_def
        class_canonical_def)
qed

section \<open>Properties\<close>

text \<open>
  Escaping a label read from the wire loses nothing: for every byte string, decoding the
  escaped text gives exactly these bytes.
\<close>

lemma escape_label_roundtrip: "decode_label (escape_wire_label bs) = Inr bs"
  by (simp add: decode_label_def decode_escape_label)

text \<open>
  C15: A name written by \<open>write_wire\<close> anywhere in a message is read back by \<open>parse_name\<close>: an
  equal name with the same octets on the wire, consuming exactly the bytes written.
\<close>

theorem parse_name_reads_written:
  assumes "domain_new s = Inr d" "holds_at buf offset (write_wire d)"
  shows "\<exists>d'. parse_name buf offset = Inr (d', wire_len d) \<and> name_eq d' d \<and> write_wire d' = write_wire d"
  using parse_name_written [OF domain_new_wf [OF assms(1)] assms(2)] by simp

theorem parse_name_reads_written_witness:
  "\<exists>d d'. domain_new ''Www.Example.'' = Inr d
     \<and> parse_name ([1, 2, 3] @ write_wire d @ [9]) 3 = Inr (d', wire_len d) \<and> name_eq d' d"
proof -
  have "is_ok (domain_new ''Www.Example.'')" by code_simp
  then obtain d where d: "domain_new ''Www.Example.'' = Inr d" by (auto simp: is_ok_iff)
  have "holds_at ([1, 2, 3] @ write_wire d @ [9]) 3 (write_wire d)"
    by (simp add: holds_at_def slice_def)
  from parse_name_reads_written [OF d this] d show ?thesis by blast
qed

text \<open>
  Compression pointers: labels followed by a pointer to a name stored earlier in the
  message are read as the concatenation of both, and only the labels and the two pointer
  bytes count as consumed. The limit of 128 rounds allows up to 126 labels this way.
\<close>

lemma parse_name_follows_pointer:
  assumes "name_wf \<lparr>labels = ls @ labels d\<rparr>" "length (labels d) + length ls \<le> 126"
    and "tgt < offset" "tgt < 2 ^ 14" "holds_at buf tgt (write_wire d)"
    and "holds_at buf offset (concat (map (\<lambda>l. label_octets (label_wire l)) ls) @ pointer_octets tgt)"
  shows "\<exists>d'. parse_name buf offset
      = Inr (d', length (concat (map (\<lambda>l. label_octets (label_wire l)) ls)) + 2)
    \<and> name_eq d' \<lparr>labels = ls @ labels d\<rparr>"
  using parse_name_compressed [OF assms(1,3,4,5,6,2)] name_eq_wire_spelling by blast

lemma parse_name_follows_pointer_witness:
  "\<exists>d'. parse_name (write_wire \<lparr>labels = [wire_label [101, 120]]\<rparr> @ [1, 97] @ pointer_octets 0) 4
      = Inr (d', 4) \<and> name_eq d' \<lparr>labels = [wire_label [97], wire_label [101, 120]]\<rparr>"
proof -
  let ?b = "write_wire \<lparr>labels = [wire_label [101, 120]]\<rparr> @ [1, 97] @ pointer_octets 0"
  have wf: "name_wf \<lparr>labels = [wire_label [97]] @ labels \<lparr>labels = [wire_label [101, 120]]\<rparr>\<rparr>"
    using wire_label_wf [of "[97]"] wire_label_wf [of "[101, 120]"]
    by (simp add: name_wf_def wire_len_def label_len_def wire_label_def)
  have "holds_at ?b 0 (write_wire \<lparr>labels = [wire_label [101, 120]]\<rparr>)"
    by (simp add: holds_at_def slice_def)
  moreover have "holds_at ?b 4 (concat (map (\<lambda>l. label_octets (label_wire l)) [wire_label [97]])
      @ pointer_octets 0)"
    by (simp add: holds_at_def slice_def write_wire_def wire_label_def label_octets_def)
  moreover have "length (concat (map (\<lambda>l. label_octets (label_wire l)) [wire_label [97]])) + 2 = 4"
    by (simp add: wire_label_def label_octets_def)
  ultimately show ?thesis
    using parse_name_follows_pointer [OF wf, of 0 4 ?b] by simp
qed

text \<open>
  C16: Whatever the bytes, when \<open>parse_name\<close> returns a name it is a valid one and the bytes it
  consumed lie inside the buffer. (That it returns at all, also on pointer loops, is its
  termination proof.)
\<close>

theorem parse_name_within_buffer:
  assumes "parse_name buf offset = Inr (d, n)"
  shows "name_wf d \<and> 0 < n \<and> offset + n \<le> length buf"
  by (rule parse_name_bounds [OF assms])

theorem parse_name_within_buffer_witness:
  "\<exists>d n. parse_name [0, 7] 0 = Inr (d, n) \<and> name_wf d \<and> 0 < n \<and> n \<le> 2"
proof -
  have p: "parse_name [0, 7] 0 = Inr (domain_root, 1)"
    by (simp add: parse_name_def parse_name_loop.simps)
  from parse_name_within_buffer [OF p] p show ?thesis by auto
qed

text \<open>
  C4: A record that an update message adds is read back by the transfer side's
  \<open>parse_resource_record\<close> as an equal record, with all its bytes consumed, for every type both
  sides know in typed form.
\<close>

theorem added_record_reads_back:
  assumes "encode_update_entry (AddRecord rr) = Inr bs" "holds_at msg off bs"
    and "name_wf (rr_name rr)" "rdata_wf (rr_rdata rr)" "wire_typed (rr_rdata rr)"
    and "class_canonical (rr_class rr)" "ttl_wf (rr_ttl rr)"
  shows "\<exists>rr'. parse_resource_record msg off = Inr (rr', length bs) \<and> rr_eq rr' rr"
proof -
  from assms(1) obtain body where "encode_rdata (rr_rdata rr) = Inr body" "length body \<le> 65535"
    and "bs = rr_octets (rr_name rr) (rdata_type_value (rr_rdata rr)) (class_value (rr_class rr))
      (ttl_value (rr_ttl rr)) body"
    by (auto simp: result_simps encode_rdata_with_length_Inr rr_octets_def)
  with parse_record_written [OF assms(3-7)] assms(2) show ?thesis
    by (auto simp: rr_eq_def rdata_eq_spelling)
qed

definition sample_mx :: resource_record where
  "sample_mx = \<lparr>rr_name = \<lparr>labels = [wire_label [97]]\<rparr>, rr_class = IN, rr_ttl = Ttl 300,
     rr_rdata = RD_Mx 10 \<lparr>labels = [wire_label [109]]\<rparr>\<rparr>"

lemma short_label_name_wf: "name_wf \<lparr>labels = [wire_label [b]]\<rparr>"
  using wire_label_wf [of "[b]"] by (simp add: name_wf_def wire_len_def label_len_def wire_label_def)

theorem added_record_reads_back_witness:
  "\<exists>bs rr'. encode_update_entry (AddRecord sample_mx) = Inr bs
     \<and> parse_resource_record bs 0 = Inr (rr', length bs) \<and> rr_eq rr' sample_mx"
proof -
  obtain bs where bs: "encode_update_entry (AddRecord sample_mx) = Inr bs"
    by (auto simp: sample_mx_def encode_rdata_with_length_def wire_len_def label_len_def wire_label_def)
  have "name_wf (rr_name sample_mx)" "rdata_wf (rr_rdata sample_mx)" "wire_typed (rr_rdata sample_mx)"
    "class_canonical (rr_class sample_mx)" "ttl_wf (rr_ttl sample_mx)"
    by (simp_all add: sample_mx_def short_label_name_wf class_canonical_def class_from_value_def ttl_wf_def)
  from added_record_reads_back [OF bs holds_at_self this] bs show ?thesis by blast
qed

lemma overwrite_same: "holds_at bs i v \<Longrightarrow> overwrite bs i v = bs"
  by (auto simp: overwrite_def holds_at_iff)

lemma xfr_query_body_message:
  assumes "name_wf zone"
  obtains rrs ns where "xfr_query_body zone qtype cs qid = message_octets qid 0 0 ns 0 zone qtype 1 (concat rrs)"
    "list_all plain_rr rrs" "unat ns = length rrs"
proof (cases cs)
  case None
  moreover have "[0, 0] = u16_be 0" by code_simp
  ultimately show ?thesis
    by (intro that [of 0 "[]"]) (simp_all add: xfr_query_body_def Let_def message_octets_def)
next
  case (Some s)
  let ?r = "rr_octets zone 6 1 0 (ixfr_soa_rdata zone s)"
  have "length (ixfr_soa_rdata zone s) \<le> 65535"
    using assms by (simp add: ixfr_soa_rdata_def name_wf_def)
  then have "plain_rr ?r"
    using assms unfolding plain_rr_def is_rr_def
    by (intro exI [of _ zone] exI [of _ 6]) auto
  moreover have "[0, 0] = u16_be 0" by code_simp
  ultimately show ?thesis
    using Some by (intro that [of 1 "[?r]"])
      (simp_all add: xfr_query_body_def Let_def message_octets_def rr_octets_def)
qed

lemma message_octets_arcount:
  "overwrite (message_octets i flags an ns ar zone qtype qclass recs) 10 (u16_be ar')
     = message_octets i flags an ns ar' zone qtype qclass recs"
  "12 \<le> length (message_octets i flags an ns ar zone qtype qclass recs)"
  by (simp_all add: message_octets_def overwrite_def)

lemma overwrite_append:
  "i + length v \<le> length bs \<Longrightarrow> overwrite (bs @ t) i v = overwrite bs i v @ t"
  by (simp add: overwrite_def)

text \<open>
  The transfer query is a message the crate's own TSIG walker understands:
  \<open>split_final_tsig\<close> applied to a signed query returns the query as it was signed, which is
  the query that is sent without a key, and a TSIG record with the MAC that was computed,
  under the key's name. An unsigned query has no TSIG record.
\<close>

lemma signed_query_splits:
  assumes "mac_lib_ok lib" "plain_name (key_name key)" "name_wf (key_name key)" "name_wf zone"
    and "encode_xfr_query_with_id_and_time lib zone qtype cs (Some key) qid (Some now) = Inr q"
  shows "\<exists>u t. encode_xfr_query_with_id_and_time lib zone qtype cs None qid None = Inr u
    \<and> split_final_tsig (xq_message q) = Inr \<lparr>unsigned_message = xq_message u, split_tsig = Some t\<rparr>
    \<and> name_eq (tsig_key_name t) (key_name key) \<and> xq_request_mac q = Some (tsig_mac t)
    \<and> split_final_tsig (xq_message u) = Inr \<lparr>unsigned_message = xq_message u, split_tsig = None\<rparr>"
proof -
  let ?b = "xfr_query_body zone qtype cs qid"
  obtain rrs ns where b: "?b = message_octets qid 0 0 ns 0 zone qtype 1 (concat rrs)"
    and rrs: "list_all plain_rr rrs" "unat (0 :: u16) + unat ns = length rrs"
    using xfr_query_body_message [OF assms(4)] by (metis add_0 unat_0)
  from assms(5) obtain t where t: "tsig_new lib key ?b now None = Inr t"
    and q: "xq_message q = overwrite (?b @ tsig_wire t) 10 (u16_be 1)" "xq_request_mac q = Some (tsig_mac t)"
    by (auto simp: encode_xfr_query_with_id_and_time_def Let_def result_simps)
  have "overwrite ?b 10 (u16_be 0) = ?b" "12 \<le> length ?b"
    by (simp_all add: b message_octets_arcount)
  with q have m: "xq_message q = overwrite ?b 10 (u16_be 1) @ tsig_wire t"
    by (simp add: overwrite_append)
  obtain t' where t': "tsig_parse (tsig_wire t) = Inr t'" "name_eq (tsig_key_name t') (key_name key)"
    "t' = t\<lparr>tsig_key_name := tsig_key_name t'\<rparr>"
    using tsig_wire_readback [OF assms(1-3) t] by blast
  from t'(3) have "tsig_mac t' = tsig_mac t"
    by (metis tsig_record.select_convs(5) tsig_record.surjective tsig_record.update_convs(1))
  moreover have "split_final_tsig (xq_message q) = Inr \<lparr>unsigned_message = ?b, split_tsig = Some t'\<rparr>"
    unfolding m using split_signed [OF b assms(4) rrs canonical_name_wf [OF assms(3)]
      tsig_wire_rr [OF assms(1) t]] t'(1) by simp
  moreover note split_unsigned [OF b assms(4) rrs] q(2) t'(2) \<open>overwrite ?b 10 (u16_be 0) = ?b\<close>
  ultimately show ?thesis
    by (simp add: encode_xfr_query_with_id_and_time_def Let_def)
qed

lemma signed_query_splits_witness:
  "\<exists>q u t. encode_xfr_query_with_id_and_time sample_lib (wire_labels_name [[97]]) qtype_ixfr
        (Some (Serial 5)) (Some sample_key) 77 (Some 1000) = Inr q
     \<and> split_final_tsig (xq_message q) = Inr \<lparr>unsigned_message = u, split_tsig = Some t\<rparr>
     \<and> xq_request_mac q = Some (tsig_mac t)"
proof -
  let ?z = "wire_labels_name [[97]]"
  obtain t where "tsig_new sample_lib sample_key (xfr_query_body ?z qtype_ixfr (Some (Serial 5)) 77) 1000 None
      = Inr t"
    using tsig_new_ok [OF sample_lib_ok, of 1000 None] by auto
  then obtain q where q: "encode_xfr_query_with_id_and_time sample_lib ?z qtype_ixfr
        (Some (Serial 5)) (Some sample_key) 77 (Some 1000) = Inr q"
    by (auto simp: encode_xfr_query_with_id_and_time_def Let_def)
  have "name_wf ?z"
    by (rule wire_labels_name_wf) (simp_all add: plain_label_def label_octets_def)
  from signed_query_splits [OF sample_lib_ok sample_key_name this q] q show ?thesis by blast
qed

text \<open>
  C2: A signed update message is taken apart the same way: \<open>split_final_tsig\<close> gives back
  exactly the message that \<open>build_unsigned\<close> builds, with ARCOUNT 0 again, and the TSIG record
  whose MAC the builder keeps for the response.
\<close>

theorem signed_update_splits:
  assumes "mac_lib_ok lib" "plain_name (key_name key)" "name_wf (key_name key)" "name_wf (ub_zone b)"
    and ps: "\<forall>p \<in> set (ub_prerequisites b). name_wf (prerequisite_name p) \<and> prerequisite_type p \<noteq> 250"
    and us: "\<forall>u \<in> set (ub_updates b). name_wf (entry_name u) \<and> entry_type u \<noteq> 250"
    and sign: "sign_inner lib b key timestamp = Inr sb"
  shows "\<exists>m t. build_unsigned b = Inr m
    \<and> split_final_tsig (um_wire (builder_build sb)) = Inr \<lparr>unsigned_message = um_wire m, split_tsig = Some t\<rparr>
    \<and> name_eq (tsig_key_name t) (key_name key)
    \<and> um_request_mac (builder_build sb) = Some (tsig_mac t)"
proof -
  from sign obtain m t where
    m: "encode_update_message (ub_id b) (ub_zone b) (ub_class b) (ub_prerequisites b)
          (ub_updates b) = Inr m"
    and t: "tsig_new lib key (um_wire m) timestamp None = Inr t"
    and sb: "um_wire (builder_build sb)
        = overwrite (um_wire m) 10 (u16_be (u16_at (um_wire m) 10 + 1)) @ tsig_wire t"
      "um_request_mac (builder_build sb) = Some (tsig_mac t)"
    by (auto simp: sign_inner_def Let_def result_simps not_less builder_build_def
        update_builder.defs signed_builder.defs)
  obtain pss uss where
    pss: "list_all2 (\<lambda>p b'. encode_prerequisite (ub_class b) p = Inr b') (ub_prerequisites b) pss"
    and uss: "list_all2 (\<lambda>u b. encode_update_entry u = Inr b) (ub_updates b) uss"
    and wire: "um_wire m = (u16_be (ub_id b) @ [0x28, 0x00] @ u16_be 1
        @ u16_be (word_of_nat (sum_list (map wire_rr_count (ub_prerequisites b))))
        @ u16_be (word_of_nat (length (ub_updates b))) @ u16_be 0)
        @ (write_wire (ub_zone b) @ u16_be 6 @ u16_be (class_value (ub_class b))) @ concat pss @ concat uss"
    and le: "sum_list (map wire_rr_count (ub_prerequisites b)) \<le> 65535" "length (ub_updates b) \<le> 65535"
    using m by (rule encode_update_message_Inr)
  obtain rrs where rrs: "concat pss = concat rrs"
    "length rrs = sum_list (map wire_rr_count (ub_prerequisites b))"
    "\<forall>r \<in> set rrs. \<exists>p \<in> set (ub_prerequisites b). is_rr (prerequisite_name p) (prerequisite_type p) r"
    using encoded_prerequisites_rrs [OF pss] by blast
  have "[0x28, 0x00] = u16_be 0x2800" by code_simp
  then have w: "um_wire m = message_octets (ub_id b) 0x2800
      (word_of_nat (length rrs)) (word_of_nat (length uss)) 0 (ub_zone b) 6 (class_value (ub_class b))
      (concat (rrs @ uss))"
    using wire rrs encoded_updates_rrs [OF uss] by (simp add: message_octets_def)
  have plain: "list_all plain_rr (rrs @ uss)"
    using rrs(3) encoded_updates_rrs [OF uss] ps us
    by (force simp: list_all_iff plain_rr_def)
  have len: "unat (word_of_nat (length rrs) :: u16) + unat (word_of_nat (length uss) :: u16)
      = length (rrs @ uss)"
    using le rrs(2) encoded_updates_rrs [OF uss] unat_word_of_nat(2) [of "length rrs"]
      unat_word_of_nat(2) [of "length uss"] by simp
  obtain t' where t': "tsig_parse (tsig_wire t) = Inr t'" "name_eq (tsig_key_name t') (key_name key)"
    "t' = t\<lparr>tsig_key_name := tsig_key_name t'\<rparr>"
    using tsig_wire_readback [OF assms(1-3) t] by blast
  from t'(3) have "tsig_mac t' = tsig_mac t"
    by (metis tsig_record.select_convs(5) tsig_record.surjective tsig_record.update_convs(1))
  moreover have "holds_at (um_wire m) 10 (u16_be 0)"
    by (simp add: w message_octets_def holds_at_def slice_def)
  then have "u16_at (um_wire m) 10 = 0" by (blast dest: holds_at_u16)
  moreover note split_signed [OF w assms(4) plain len canonical_name_wf [OF assms(3)]
      tsig_wire_rr [OF assms(1) t]] t' sb m
  ultimately show ?thesis by (simp add: build_unsigned_def)
qed

theorem signed_update_splits_witness:
  "\<exists>sb m t. sign_inner sample_lib sample_builder sample_key 1000 = Inr sb
     \<and> build_unsigned sample_builder = Inr m
     \<and> split_final_tsig (um_wire (builder_build sb)) = Inr \<lparr>unsigned_message = um_wire m, split_tsig = Some t\<rparr>"
proof -
  obtain sb where sb: "sign_inner sample_lib sample_builder sample_key 1000 = Inr sb"
    using sample_sign_ok by blast
  have "name_wf (wire_labels_name [[97], [101, 120]])" "name_wf (wire_labels_name [[101, 120]])"
    by (rule wire_labels_name_wf; simp add: plain_label_def label_octets_def)+
  then have "name_wf (ub_zone sample_builder)"
    "\<forall>p \<in> set (ub_prerequisites sample_builder). name_wf (prerequisite_name p) \<and> prerequisite_type p \<noteq> 250"
    "\<forall>u \<in> set (ub_updates sample_builder). name_wf (entry_name u) \<and> entry_type u \<noteq> 250"
    by (simp_all add: sample_builder_def add_record_def require_name_exists_def builder_with_id_def)
  from signed_update_splits [OF sample_lib_ok sample_key_name this sb] sb show ?thesis by blast
qed

end
