(* ===== verification/Transfer_Stream.thy ===== *)
theory Transfer_Stream
  imports Transfer_Wire
begin

text \<open>
  \<open>transfer.rs\<close> of the core crate and \<open>transfer/mod.rs\<close> of the net crate: the transfer session
  typestates, the IXFR state machine, the TSIG verifier of a response stream, and the two
  record streams. A stream is a generator that awaits reads; here it is a function of the
  outcomes of these reads (each with the clock at that moment) that returns the items it
  yields and how it stands afterwards: finished, failed, or waiting for the next read.
\<close>

section \<open>Sessions\<close>

datatype transfer_kind = Axfr | Ixfr

datatype transfer_record =
    BeginSoa resource_record
  | Record resource_record
  | EndSoa resource_record

datatype ixfr_event =
    NoChange resource_record
  | CurrentSoa resource_record
  | DeleteSoa resource_record
  | Deleted resource_record
  | is_AddSoa: AddSoa resource_record
  | Added resource_record
  | IxfrEndSoa resource_record
  | AxfrFallback transfer_record

text \<open>The typestate parameter is a phantom: two types with the same fields.\<close>

record session_fields =
  ts_zone :: domain_name
  ts_kind :: transfer_kind
  ts_current_serial :: "serial option"

datatype pending_session = PendingSession session_fields
datatype active_session = ActiveSession session_fields

definition session_axfr :: "domain_name \<Rightarrow> pending_session" where
  "session_axfr zone = PendingSession \<lparr>ts_zone = zone, ts_kind = Axfr, ts_current_serial = None\<rparr>"

definition session_ixfr :: "domain_name \<Rightarrow> serial \<Rightarrow> pending_session" where
  "session_ixfr zone current =
     PendingSession \<lparr>ts_zone = zone, ts_kind = Ixfr, ts_current_serial = Some current\<rparr>"

fun session_start :: "pending_session \<Rightarrow> active_session" where
  "session_start (PendingSession s) = ActiveSession s"

section \<open>The IXFR state machine\<close>

datatype ixfr_phase =
    AwaitFirst
  | AwaitSecond resource_record serial
  | AxfrPhase serial
  | DeletePhase (ip_current: serial) (ip_from: serial)
  | AddPhase (ip_current: serial) (ip_to: serial)
  | Complete

record ixfr_state =
  ix_zone :: domain_name
  ix_requested_serial :: serial
  ix_phase :: ixfr_phase

definition ixfr_new :: "domain_name \<Rightarrow> serial \<Rightarrow> ixfr_state" where
  "ixfr_new zone requested = \<lparr>ix_zone = zone, ix_requested_serial = requested, ix_phase = AwaitFirst\<rparr>"

definition apex_soa_serial :: "resource_record \<Rightarrow> domain_name \<Rightarrow> serial option" where
  "apex_soa_serial rr zone =
     (if \<not> name_eq (rr_name rr) zone then None else rdata_soa_serial (rr_rdata rr))"

abbreviation show_serial :: "serial \<Rightarrow> string" where
  "show_serial s \<equiv> show_nat (unat (serial_value s))"

text \<open>
  The next phase and the events for one record, by the current phase. \<open>push\<close> replaces the
  phase by \<open>Complete\<close> before it computes the next one, so an error leaves it there.
\<close>

fun ixfr_next ::
    "domain_name \<Rightarrow> serial \<Rightarrow> ixfr_phase \<Rightarrow> resource_record \<Rightarrow> net_error + ixfr_phase \<times> ixfr_event list" where
  "ixfr_next zone requested AwaitFirst rr =
     (case apex_soa_serial rr zone of
        None \<Rightarrow> Inl (XfrProtocolError ''first record in IXFR response must be the zone SOA'')
      | Some current \<Rightarrow> Inr (AwaitSecond rr current, []))"
| "ixfr_next zone requested (AwaitSecond current_soa current) rr =
     (case apex_soa_serial rr zone of
        Some base \<Rightarrow>
          (if base = current then
             Inr (Complete, [AxfrFallback (BeginSoa current_soa), AxfrFallback (EndSoa rr)])
           else if base \<noteq> requested then
             Inl (SerialMismatch (serial_value requested) (serial_value base))
           else (case serial_partial_cmp current base of
               Some Greater \<Rightarrow> Inr (DeletePhase current base, [CurrentSoa current_soa, DeleteSoa rr])
             | Some _ \<Rightarrow> Inl (XfrProtocolError (''IXFR current serial '' @ show_serial current
                 @ '' is not newer than base serial '' @ show_serial base))
             | None \<Rightarrow> Inl (XfrProtocolError (''IXFR serial ordering is undefined by RFC 1982: current serial ''
                 @ show_serial current @ '', base serial '' @ show_serial base))))
      | None \<Rightarrow> Inr (AxfrPhase current,
          [AxfrFallback (BeginSoa current_soa), AxfrFallback (Record rr)]))"
| "ixfr_next zone requested (AxfrPhase current) rr =
     (case apex_soa_serial rr zone of
        Some s \<Rightarrow>
          (if s \<noteq> current then Inl (SerialMismatch (serial_value current) (serial_value s))
           else Inr (Complete, [AxfrFallback (EndSoa rr)]))
      | None \<Rightarrow> Inr (AxfrPhase current, [AxfrFallback (Record rr)]))"
| "ixfr_next zone requested (DeletePhase current from) rr =
     (case apex_soa_serial rr zone of
        Some to \<Rightarrow>
          (let after_from = serial_partial_cmp to from;
               at_or_before_current = serial_partial_cmp to current
           in if after_from = None \<or> at_or_before_current = None then
                Inl (XfrProtocolError (''IXFR serial ordering is undefined by RFC 1982: ''
                  @ show_serial from @ '' -> '' @ show_serial to @ '' with current serial ''
                  @ show_serial current))
              else if after_from \<noteq> Some Greater \<or> at_or_before_current = Some Greater then
                Inl (XfrProtocolError (''invalid IXFR serial transition ''
                  @ show_serial from @ '' -> '' @ show_serial to @ '' with current serial ''
                  @ show_serial current))
              else Inr (AddPhase current to, [AddSoa rr]))
      | None \<Rightarrow> Inr (DeletePhase current from, [Deleted rr]))"
| "ixfr_next zone requested (AddPhase current to) rr =
     (case apex_soa_serial rr zone of
        Some s \<Rightarrow>
          (if s = current then Inr (Complete, [IxfrEndSoa rr])
           else if s = to then Inr (DeletePhase current to, [DeleteSoa rr])
           else Inl (SerialMismatch (serial_value to) (serial_value s)))
      | None \<Rightarrow> Inr (AddPhase current to, [Added rr]))"
| "ixfr_next zone requested Complete rr =
     Inl (XfrProtocolError ''received records after IXFR completion'')"

definition ixfr_push :: "ixfr_state \<Rightarrow> resource_record \<Rightarrow> ixfr_state \<times> (net_error + ixfr_event list)" where
  "ixfr_push st rr =
     (case ixfr_next (ix_zone st) (ix_requested_serial st) (ix_phase st) rr of
        Inl e \<Rightarrow> (st\<lparr>ix_phase := Complete\<rparr>, Inl e)
      | Inr (phase, events) \<Rightarrow> (st\<lparr>ix_phase := phase\<rparr>, Inr events))"

definition ixfr_finish :: "ixfr_state \<Rightarrow> ixfr_state \<times> (net_error + ixfr_event list)" where
  "ixfr_finish st =
     (st\<lparr>ix_phase := Complete\<rparr>,
      case ix_phase st of
        AwaitSecond current_soa _ \<Rightarrow> Inr [NoChange current_soa]
      | Complete \<Rightarrow> Inr []
      | _ \<Rightarrow> Inl (IncompleteTransfer
               ''IXFR response ended before a complete delta or AXFR fallback''))"

definition ixfr_is_complete :: "ixfr_state \<Rightarrow> bool" where
  "ixfr_is_complete st \<longleftrightarrow> ix_phase st = Complete"

section \<open>The TSIG verifier of a stream\<close>

record xfr_verifier =
  xv_expected_id :: u16
  xv_key :: "tsig_key option"
  xv_prior_mac :: "byte list option"
  xv_first_message :: bool
  xv_unsigned_messages :: "byte list"
  xv_unsigned_message_count :: u8
  xv_last_message_signed :: bool

definition verifier_new :: "u16 \<Rightarrow> tsig_key option \<Rightarrow> byte list option \<Rightarrow> xfr_verifier" where
  "verifier_new expected_id key request_mac =
     \<lparr>xv_expected_id = expected_id, xv_key = key, xv_prior_mac = request_mac,
      xv_first_message = True, xv_unsigned_messages = [], xv_unsigned_message_count = 0,
      xv_last_message_signed = False\<rparr>"

text \<open>The bytes a later signature of the stream covers (RFC 8945, 5.3.1).\<close>

definition chained_mac_input :: "byte list \<Rightarrow> byte list \<Rightarrow> byte list \<Rightarrow> tsig_record \<Rightarrow> byte list" where
  "chained_mac_input prior_mac unsigned_messages message tsig =
     u16_be (word_of_nat (length prior_mac)) @ prior_mac @ unsigned_messages @ message
       @ u48_be (time_signed tsig) @ u16_be (fudge tsig)"

text \<open>
  \<open>verify_message\<close> changes the verifier only when it succeeds, so the new verifier is part of
  the successful result.
\<close>

definition verify_signature ::
    "mac_lib \<Rightarrow> (string + u64) \<Rightarrow> xfr_verifier \<Rightarrow> tsig_key \<Rightarrow> byte list \<Rightarrow> tsig_record
       \<Rightarrow> net_error + unit" where
  "verify_signature lib clock v key message tsig =
     (if \<not> name_eq (tsig_key_name tsig) (key_name key) then
        Inl (XfrProtocolError (''TSIG key mismatch: expected '' @ name_display (key_name key)
          @ '', got '' @ name_display (tsig_key_name tsig)))
      else if tsig_algorithm tsig \<noteq> key_algorithm key then
        Inl (XfrProtocolError (''TSIG algorithm mismatch: expected ''
          @ tsig_algorithm_display (key_algorithm key) @ '', got ''
          @ tsig_algorithm_display (tsig_algorithm tsig)))
      else if original_id tsig \<noteq> xv_expected_id v then
        Inl (XfrProtocolError (''TSIG original ID mismatch: expected ''
          @ show_nat (unat (xv_expected_id v)) @ '', got '' @ show_nat (unat (original_id tsig))))
      else if tsig_error tsig \<noteq> 0 then
        Inl (TsigRejected (tsig_error tsig) ''zone-transfer TSIG response reported an error'')
      else
        rbind (ok_or (XfrProtocolError ''signed transfer is missing the request MAC'')
                 (xv_prior_mac v)) (\<lambda>prior_mac.
        rbind (map_err (\<lambda>e. XfrProtocolError (''system clock before Unix epoch: '' @ e)) clock) (\<lambda>now.
          map_err Core
            (if xv_first_message v then verify_response lib key message tsig prior_mac now
             else rbind (verify_time tsig now) (\<lambda>_.
               key_verify lib key (chained_mac_input prior_mac (xv_unsigned_messages v) message tsig)
                 (tsig_mac tsig))))))"

definition verify_message ::
    "mac_lib \<Rightarrow> (string + u64) \<Rightarrow> xfr_verifier \<Rightarrow> byte list \<Rightarrow> net_error + xfr_verifier \<times> byte list" where
  "verify_message lib clock v message =
     rbind (header_parse message) (\<lambda>header.
       if dh_id header \<noteq> xv_expected_id v then
         Inl (XfrProtocolError (''response ID mismatch: expected ''
           @ show_nat (unat (xv_expected_id v)) @ '', got '' @ show_nat (unat (dh_id header))))
       else (case xv_key v of
           None \<Rightarrow> Inr (v\<lparr>xv_first_message := False\<rparr>, message)
         | Some key \<Rightarrow>
             rbind (split_final_tsig message) (\<lambda>split.
               case split_tsig split of
                 None \<Rightarrow>
                   (if xv_first_message v then
                      Inl (XfrProtocolError ''first response in a signed transfer must contain TSIG'')
                    else if xv_unsigned_message_count v \<ge> 99 then
                      Inl (XfrProtocolError
                        ''signed transfer exceeded 99 unsigned intermediary messages'')
                    else Inr (v\<lparr>xv_unsigned_messages := xv_unsigned_messages v @ unsigned_message split,
                                xv_unsigned_message_count := xv_unsigned_message_count v + 1,
                                xv_last_message_signed := False\<rparr>, unsigned_message split))
               | Some tsig \<Rightarrow>
                   rbind (verify_signature lib clock v key (unsigned_message split) tsig) (\<lambda>_.
                     Inr (v\<lparr>xv_prior_mac := Some (tsig_mac tsig), xv_first_message := False,
                            xv_unsigned_messages := [], xv_unsigned_message_count := 0,
                            xv_last_message_signed := True\<rparr>, unsigned_message split)))))"

definition verifier_finish :: "xfr_verifier \<Rightarrow> net_error + unit" where
  "verifier_finish v =
     (if xv_key v \<noteq> None \<and> \<not> xv_last_message_signed v then
        Inl (XfrProtocolError ''final response in a signed transfer must contain TSIG'')
      else Inr ())"

section \<open>Checking a response\<close>

definition check_question ::
    "byte list \<Rightarrow> domain_name \<Rightarrow> u16 \<Rightarrow> nat \<Rightarrow> net_error + nat" where
  "check_question message zone expected_qtype offset =
     rbind (parse_name message offset) (\<lambda>(question_name, name_len).
       let fixed_offset = offset + name_len in
       if fixed_offset + 4 > length message then
         Inl (XfrProtocolError ''truncated zone transfer question'')
       else
         let question_type = u16_at message fixed_offset;
             question_class = u16_at message (fixed_offset + 2)
         in if \<not> name_eq question_name zone \<or> question_type \<noteq> expected_qtype \<or> question_class \<noteq> 1 then
              Inl (XfrProtocolError (''zone transfer response question mismatch: name=''
                @ name_display question_name @ '', type='' @ show_nat (unat question_type)
                @ '', class='' @ show_nat (unat question_class)))
            else Inr (fixed_offset + 4))"

definition validate_transfer_response ::
    "byte list \<Rightarrow> dns_header \<Rightarrow> domain_name \<Rightarrow> u16 \<Rightarrow> net_error + nat" where
  "validate_transfer_response message header zone expected_qtype =
     (if \<not> dh_is_response header then Inl (XfrProtocolError ''expected response, got query'')
      else if dh_opcode header \<noteq> 0 then
        Inl (XfrProtocolError (''expected standard QUERY opcode, got ''
          @ show_nat (unat (dh_opcode header))))
      else if \<not> dh_authoritative header then
        Inl (XfrProtocolError ''zone transfer response must be authoritative'')
      else if dh_truncated header then
        Inl (XfrProtocolError ''zone transfer response must not be truncated'')
      else if dh_rcode header \<noteq> 0 then
        Inl (TransferFailed (''server returned RCODE '' @ show_nat (unat (dh_rcode header))))
      else if dh_question_count header > 1 then
        Inl (XfrProtocolError (''zone transfer response has ''
          @ show_nat (unat (dh_question_count header)) @ '' questions, expected at most one''))
      else if dh_question_count header = 0 then Inr 12
      else check_question message zone expected_qtype 12)"

section \<open>The streams\<close>

record stream_context =
  sc_zone :: domain_name
  sc_timeout :: nat
  sc_max_records :: nat
  sc_verifier :: xfr_verifier
  sc_expected_qtype :: u16

definition context_new ::
    "domain_name \<Rightarrow> nat \<Rightarrow> nat \<Rightarrow> u16 \<Rightarrow> tsig_key option \<Rightarrow> byte list option \<Rightarrow> u16 \<Rightarrow> stream_context" where
  "context_new zone timeout max_records query_id key request_mac expected_qtype =
     \<lparr>sc_zone = zone, sc_timeout = timeout, sc_max_records = max_records,
      sc_verifier = verifier_new query_id key request_mac, sc_expected_qtype = expected_qtype\<rparr>"

text \<open>The outcome of one awaited read, with the clock at that moment.\<close>

datatype read_outcome =
    Elapsed
  | ReadResult "string + u64" "net_error + byte list"

datatype stream_end = Done | Failed net_error | Waiting

definition timeout_error :: "stream_context \<Rightarrow> net_error" where
  "timeout_error ctx =
     TransferFailed (''transfer read timed out after ''
       @ show_nat (sc_timeout ctx div 1000000000) @ ''s'')"

definition too_many_records :: "stream_context \<Rightarrow> net_error" where
  "too_many_records ctx =
     TransferFailed (''transfer exceeded maximum record count ('' @ show_nat (sc_max_records ctx) @ '')'')"

text \<open>
  What both streams do with a message that was read: verify it, parse the header and check
  the response. The result is the context with the new verifier, the message without its
  TSIG record, the number of answers and the offset of the first one.
\<close>

definition accept_message ::
    "mac_lib \<Rightarrow> (string + u64) \<Rightarrow> stream_context \<Rightarrow> byte list
       \<Rightarrow> net_error + stream_context \<times> byte list \<times> nat \<times> nat" where
  "accept_message lib clock ctx wire_message =
     rbind (verify_message lib clock (sc_verifier ctx) wire_message) (\<lambda>(v, message).
     rbind (header_parse message) (\<lambda>header.
     rbind (validate_transfer_response message header (sc_zone ctx) (sc_expected_qtype ctx)) (\<lambda>offset.
       Inr (ctx\<lparr>sc_verifier := v\<rparr>, message, unat (dh_answer_count header), offset))))"

text \<open>The answers of one message: \<open>n\<close> answers are left, so the last one has \<open>n = 0\<close> after it.\<close>

fun ixfr_answers ::
    "stream_context \<Rightarrow> byte list \<Rightarrow> nat \<Rightarrow> nat \<Rightarrow> nat \<Rightarrow> ixfr_state
       \<Rightarrow> ixfr_event list \<times> (net_error + ixfr_state \<times> nat)" where
  "ixfr_answers ctx message 0 offset record_count st = ([], Inr (st, record_count))"
| "ixfr_answers ctx message (Suc n) offset record_count st =
     (case parse_resource_record message offset of
        Inl e \<Rightarrow> ([], Inl e)
      | Inr (rr, consumed) \<Rightarrow>
          if record_count + 1 > sc_max_records ctx then ([], Inl (too_many_records ctx))
          else (case ixfr_push st rr of
              (st', Inl e) \<Rightarrow> ([], Inl e)
            | (st', Inr events) \<Rightarrow>
                if ixfr_is_complete st' \<and> n \<noteq> 0 then
                  ([], Inl (XfrProtocolError
                    ''zone transfer response contains answers after IXFR completion''))
                else if ixfr_is_complete st' then
                  (events, rmap (\<lambda>_. (st', record_count + 1)) (verifier_finish (sc_verifier ctx)))
                else
                  (let (events', r) = ixfr_answers ctx message n (offset + consumed)
                                        (record_count + 1) st'
                   in (events @ events', r))))"

definition finish_stream :: "stream_context \<Rightarrow> stream_end" where
  "finish_stream ctx = (case verifier_finish (sc_verifier ctx) of Inl e \<Rightarrow> Failed e | Inr _ \<Rightarrow> Done)"

definition ixfr_end_of_stream :: "stream_context \<Rightarrow> ixfr_state \<Rightarrow> ixfr_event list \<times> stream_end" where
  "ixfr_end_of_stream ctx st =
     (case snd (ixfr_finish st) of
        Inl e \<Rightarrow> ([], Failed e)
      | Inr events \<Rightarrow> (events, finish_stream ctx))"

fun ixfr_record_stream ::
    "mac_lib \<Rightarrow> stream_context \<Rightarrow> ixfr_state \<Rightarrow> nat \<Rightarrow> read_outcome list \<Rightarrow> ixfr_event list \<times> stream_end" where
  "ixfr_record_stream lib ctx st record_count [] = ([], Waiting)"
| "ixfr_record_stream lib ctx st record_count (Elapsed # reads) = ([], Failed (timeout_error ctx))"
| "ixfr_record_stream lib ctx st record_count (ReadResult clock (Inl e) # reads) =
     (if e = IncompleteTransfer ''connection closed before message length''
      then ixfr_end_of_stream ctx st else ([], Failed e))"
| "ixfr_record_stream lib ctx st record_count (ReadResult clock (Inr wire_message) # reads) =
     (case accept_message lib clock ctx wire_message of
        Inl e \<Rightarrow> ([], Failed e)
      | Inr (ctx', message, answer_count, offset) \<Rightarrow>
          (case ixfr_answers ctx' message answer_count offset record_count st of
             (events, Inl e) \<Rightarrow> (events, Failed e)
           | (events, Inr (st', record_count')) \<Rightarrow>
               if answer_count = 1 \<and> \<not> ixfr_is_complete st' then
                 (let (events', r) = ixfr_end_of_stream ctx' st' in (events @ events', r))
               else if ixfr_is_complete st' then (events, Done)
               else
                 (let (events', r) = ixfr_record_stream lib ctx' st' record_count' reads
                  in (events @ events', r))))"

text \<open>The variables of the AXFR generator.\<close>

record axfr_state =
  ax_awaiting_first_soa :: bool
  ax_opening_serial :: "serial option"
  ax_soa_count :: u32
  ax_record_count :: nat

definition axfr_new :: axfr_state where
  "axfr_new = \<lparr>ax_awaiting_first_soa = True, ax_opening_serial = None, ax_soa_count = 0,
               ax_record_count = 0\<rparr>"

text \<open>
  One answer record: the error that ends the stream, or the items yielded, whether the stream
  is over (\<open>break 'outer\<close>), and the new variables.
\<close>

definition axfr_answer ::
    "stream_context \<Rightarrow> nat \<Rightarrow> axfr_state \<Rightarrow> resource_record
       \<Rightarrow> net_error + transfer_record list \<times> bool \<times> axfr_state" where
  "axfr_answer ctx n st rr =
     (let st = st\<lparr>ax_record_count := ax_record_count st + 1\<rparr> in
      if ax_record_count st > sc_max_records ctx then Inl (too_many_records ctx)
      else
        let is_soa = (is_soa_rdata (rr_rdata rr) \<and> name_eq (rr_name rr) (sc_zone ctx)) in
        if ax_awaiting_first_soa st then
          (if is_soa then
             Inr ([BeginSoa rr], False,
               st\<lparr>ax_opening_serial := apex_soa_serial rr (sc_zone ctx),
                  ax_soa_count := ax_soa_count st + 1, ax_awaiting_first_soa := False\<rparr>)
           else Inl (XfrProtocolError ''first record in zone transfer must be SOA''))
        else if is_soa then
          rbind (ok_or (XfrProtocolError ''closing AXFR SOA did not contain a serial'')
                   (apex_soa_serial rr (sc_zone ctx))) (\<lambda>closing.
            if Some closing \<noteq> ax_opening_serial st then
              Inl (XfrProtocolError (''closing SOA serial '' @ show_serial closing
                @ '' does not match opening SOA serial ''
                @ (case ax_opening_serial st of None \<Rightarrow> ''0'' | Some s \<Rightarrow> show_serial s)))
            else
              let st = st\<lparr>ax_soa_count := ax_soa_count st + 1\<rparr> in
              if ax_soa_count st \<ge> 2 then
                (if n \<noteq> 0 then
                   Inl (XfrProtocolError
                     ''zone transfer response contains answers after closing SOA'')
                 else rmap (\<lambda>_. ([EndSoa rr], True, st)) (verifier_finish (sc_verifier ctx)))
              else Inr ([Record rr], False, st))
        else Inr ([Record rr], False, st))"

fun axfr_answers ::
    "stream_context \<Rightarrow> byte list \<Rightarrow> nat \<Rightarrow> nat \<Rightarrow> axfr_state
       \<Rightarrow> transfer_record list \<times> (net_error + bool \<times> axfr_state)" where
  "axfr_answers ctx message 0 offset st = ([], Inr (False, st))"
| "axfr_answers ctx message (Suc n) offset st =
     (case parse_resource_record message offset of
        Inl e \<Rightarrow> ([], Inl e)
      | Inr (rr, consumed) \<Rightarrow>
          (case axfr_answer ctx n st rr of
             Inl e \<Rightarrow> ([], Inl e)
           | Inr (items, True, st') \<Rightarrow> (items, Inr (True, st'))
           | Inr (items, False, st') \<Rightarrow>
               (let (items', r) = axfr_answers ctx message n (offset + consumed) st'
                in (items @ items', r))))"

fun transfer_record_stream ::
    "mac_lib \<Rightarrow> stream_context \<Rightarrow> axfr_state \<Rightarrow> read_outcome list \<Rightarrow> transfer_record list \<times> stream_end" where
  "transfer_record_stream lib ctx st [] = ([], Waiting)"
| "transfer_record_stream lib ctx st (Elapsed # reads) = ([], Failed (timeout_error ctx))"
| "transfer_record_stream lib ctx st (ReadResult clock (Inl e) # reads) = ([], Failed e)"
| "transfer_record_stream lib ctx st (ReadResult clock (Inr wire_message) # reads) =
     (case accept_message lib clock ctx wire_message of
        Inl e \<Rightarrow> ([], Failed e)
      | Inr (ctx', message, answer_count, offset) \<Rightarrow>
          (case axfr_answers ctx' message answer_count offset st of
             (items, Inl e) \<Rightarrow> (items, Failed e)
           | (items, Inr (True, st')) \<Rightarrow> (items, Done)
           | (items, Inr (False, st')) \<Rightarrow>
               (let (items', r) = transfer_record_stream lib ctx' st' reads
                in (items @ items', r))))"

section \<open>The client\<close>

text \<open>
  \<open>TransferClient::axfr\<close> and \<open>ixfr\<close>: the query that is written to the connection, and the
  stream over the reads that follow.
\<close>

definition default_max_records :: nat where "default_max_records = 10000000"
definition default_transfer_timeout :: nat where "default_transfer_timeout = 60 * 1000000000"

definition client_axfr ::
    "mac_lib \<Rightarrow> (string + byte list) \<Rightarrow> (string + u64) \<Rightarrow> nat \<Rightarrow> nat \<Rightarrow> domain_name \<Rightarrow> tsig_key option
       \<Rightarrow> net_error + byte list \<times> (read_outcome list \<Rightarrow> transfer_record list \<times> stream_end)" where
  "client_axfr lib random clock timeout max_records zone key =
     rbind (encode_axfr_query_with_metadata lib random clock zone key) (\<lambda>query.
     rbind (write_tcp_dns_message (xq_message query)) (\<lambda>sent.
       Inr (sent, transfer_record_stream lib
         (context_new zone timeout max_records (xq_id query) key (xq_request_mac query) qtype_axfr)
         axfr_new)))"

definition client_ixfr ::
    "mac_lib \<Rightarrow> (string + byte list) \<Rightarrow> (string + u64) \<Rightarrow> nat \<Rightarrow> nat \<Rightarrow> domain_name \<Rightarrow> serial \<Rightarrow> tsig_key option
       \<Rightarrow> net_error + byte list \<times> (read_outcome list \<Rightarrow> ixfr_event list \<times> stream_end)" where
  "client_ixfr lib random clock timeout max_records zone current key =
     rbind (encode_ixfr_query_with_metadata lib random clock zone current key) (\<lambda>query.
     rbind (write_tcp_dns_message (xq_message query)) (\<lambda>sent.
       Inr (sent, ixfr_record_stream lib
         (context_new zone timeout max_records (xq_id query) key (xq_request_mac query) qtype_ixfr)
         (ixfr_new zone current) 0)))"

section \<open>Specification of an incremental response\<close>

text \<open>
  One difference sequence of RFC 1995: the old SOA, the records to delete, the new SOA, the
  records to add.
\<close>

datatype delta = Delta resource_record "resource_record list" resource_record "resource_record list"

fun delta_records :: "delta \<Rightarrow> resource_record list" where
  "delta_records (Delta d dels a adds) = d # dels @ a # adds"

fun delta_events :: "delta \<Rightarrow> ixfr_event list" where
  "delta_events (Delta d dels a adds) = DeleteSoa d # map Deleted dels @ AddSoa a # map Added adds"

definition non_apex :: "domain_name \<Rightarrow> resource_record \<Rightarrow> bool" where
  "non_apex zone rr \<longleftrightarrow> apex_soa_serial rr zone = None"

text \<open>
  A chain of differences from one serial to another below \<open>current\<close>: each starts at the
  serial the previous one reached and moves forward in RFC 1982 order.
\<close>

fun delta_chain :: "domain_name \<Rightarrow> serial \<Rightarrow> serial \<Rightarrow> delta list \<Rightarrow> serial \<Rightarrow> bool" where
  "delta_chain zone current old [] new \<longleftrightarrow> old = new"
| "delta_chain zone current old (Delta d dels a adds # rest) new \<longleftrightarrow>
     old \<noteq> current \<and> apex_soa_serial d zone = Some old \<and> list_all (non_apex zone) dels
     \<and> list_all (non_apex zone) adds
     \<and> (\<exists>next. apex_soa_serial a zone = Some next \<and> serial_gt next old
          \<and> (next = current \<or> serial_gt current next) \<and> delta_chain zone current next rest new)"

lemma delta_chain_append:
  "delta_chain zone c old (xs @ ys) new \<longleftrightarrow>
     (\<exists>m. delta_chain zone c old xs m \<and> delta_chain zone c m ys new)"
proof (induction xs arbitrary: old)
  case (Cons x xs)
  then show ?case by (cases x) auto
qed simp

lemma delta_chain_reached:
  assumes "delta_chain zone c old deltas new" "deltas \<noteq> []"
  shows "new = c \<or> serial_gt c new"
    and "\<exists>a. last (filter is_AddSoa (concat (map delta_events deltas))) = AddSoa a
      \<and> apex_soa_serial a zone = Some new"
proof -
  obtain ds d dels a adds where ds: "deltas = ds @ [Delta d dels a adds]"
    using assms(2) by (metis delta.exhaust rev_exhaust)
  with assms(1) show "new = c \<or> serial_gt c new"
    by (auto simp: delta_chain_append)
  have none: "filter is_AddSoa (map Added adds) = []" "filter is_AddSoa (map Deleted dels) = []"
    by (simp_all add: filter_map comp_def)
  have "apex_soa_serial a zone = Some new"
    using assms(1) ds by (auto simp: delta_chain_append)
  with ds none show "\<exists>a. last (filter is_AddSoa (concat (map delta_events deltas))) = AddSoa a
      \<and> apex_soa_serial a zone = Some new"
    by auto
qed

text \<open>
  The responses and the events that report them. \<open>axfr_style\<close> and \<open>incremental_style\<close> are the
  complete responses of RFC 1995, a whole zone and a chain of differences from the requested
  serial to the current one. \<open>truncated_style\<close> is none: its differences end at a serial before
  the current one, so the changes from there on are missing.
\<close>

definition axfr_style :: "domain_name \<Rightarrow> resource_record list \<Rightarrow> ixfr_event list \<Rightarrow> bool" where
  "axfr_style zone rrs events \<longleftrightarrow>
     (\<exists>s body e current. rrs = s # body @ [e] \<and> apex_soa_serial s zone = Some current
        \<and> apex_soa_serial e zone = Some current \<and> list_all (non_apex zone) body
        \<and> events = map AxfrFallback (BeginSoa s # map Record body @ [EndSoa e]))"

definition differences ::
    "domain_name \<Rightarrow> serial \<Rightarrow> serial \<Rightarrow> serial \<Rightarrow> resource_record list \<Rightarrow> ixfr_event list \<Rightarrow> bool" where
  "differences zone requested reached current rrs events \<longleftrightarrow>
     (\<exists>s deltas e. rrs = s # concat (map delta_records deltas) @ [e]
        \<and> apex_soa_serial s zone = Some current \<and> apex_soa_serial e zone = Some current
        \<and> deltas \<noteq> [] \<and> serial_gt current requested
        \<and> delta_chain zone current requested deltas reached
        \<and> events = CurrentSoa s # concat (map delta_events deltas) @ [IxfrEndSoa e])"

definition incremental_style ::
    "domain_name \<Rightarrow> serial \<Rightarrow> resource_record list \<Rightarrow> ixfr_event list \<Rightarrow> bool" where
  "incremental_style zone requested rrs events \<longleftrightarrow>
     (\<exists>current. differences zone requested current current rrs events)"

definition truncated_style ::
    "domain_name \<Rightarrow> serial \<Rightarrow> resource_record list \<Rightarrow> ixfr_event list \<Rightarrow> bool" where
  "truncated_style zone requested rrs events \<longleftrightarrow>
     (\<exists>reached current. differences zone requested reached current rrs events
        \<and> reached \<noteq> current \<and> serial_gt current reached)"

lemma differences_cases:
  "(\<exists>reached current. differences zone requested reached current rrs events) \<longleftrightarrow>
     incremental_style zone requested rrs events \<or> truncated_style zone requested rrs events"
proof -
  have "reached = current \<or> serial_gt current reached"
    if "differences zone requested reached current rrs events" for reached current
    using that delta_chain_reached(1) by (fastforce simp: differences_def)
  then show ?thesis unfolding incremental_style_def truncated_style_def by metis
qed

text \<open>The events name the serial that the differences reach and the current one.\<close>

lemma differences_events:
  assumes "differences zone requested reached current rrs events"
  shows "\<exists>a e. last (filter is_AddSoa events) = AddSoa a \<and> last events = IxfrEndSoa e
    \<and> apex_soa_serial a zone = Some reached \<and> apex_soa_serial e zone = Some current"
proof -
  from assms obtain s deltas e where d: "delta_chain zone current requested deltas reached" "deltas \<noteq> []"
    and e: "apex_soa_serial e zone = Some current"
    and ev: "events = CurrentSoa s # concat (map delta_events deltas) @ [IxfrEndSoa e]"
    by (auto simp: differences_def)
  from delta_chain_reached(2) [OF d] e show ?thesis
    by (auto simp: ev)
qed

lemma incremental_not_truncated:
  "\<not> (incremental_style zone requested rrs events \<and> truncated_style zone requested rrs events)"
proof
  assume both: "incremental_style zone requested rrs events \<and> truncated_style zone requested rrs events"
  then obtain c r c' where d: "differences zone requested c c rrs events"
    "differences zone requested r c' rrs events" "r \<noteq> c'"
    by (auto simp: incremental_style_def truncated_style_def)
  from differences_events [OF d(1)] differences_events [OF d(2)] d(3) show False
    by auto
qed

text \<open>What has been read and emitted in each phase.\<close>

fun ixfr_inv ::
    "domain_name \<Rightarrow> serial \<Rightarrow> ixfr_phase \<Rightarrow> resource_record list \<Rightarrow> ixfr_event list \<Rightarrow> bool" where
  "ixfr_inv zone requested AwaitFirst rrs events \<longleftrightarrow> rrs = [] \<and> events = []"
| "ixfr_inv zone requested (AwaitSecond s c) rrs events \<longleftrightarrow>
     rrs = [s] \<and> events = [] \<and> apex_soa_serial s zone = Some c"
| "ixfr_inv zone requested (AxfrPhase c) rrs events \<longleftrightarrow>
     (\<exists>s body. rrs = s # body \<and> apex_soa_serial s zone = Some c \<and> list_all (non_apex zone) body
        \<and> events = map AxfrFallback (BeginSoa s # map Record body))"
| "ixfr_inv zone requested (DeletePhase c f) rrs events \<longleftrightarrow>
     (\<exists>s deltas d dels. rrs = s # concat (map delta_records deltas) @ d # dels
        \<and> apex_soa_serial s zone = Some c \<and> serial_gt c requested \<and> f \<noteq> c
        \<and> delta_chain zone c requested deltas f \<and> apex_soa_serial d zone = Some f
        \<and> list_all (non_apex zone) dels
        \<and> events = CurrentSoa s # concat (map delta_events deltas) @ DeleteSoa d # map Deleted dels)"
| "ixfr_inv zone requested (AddPhase c t) rrs events \<longleftrightarrow>
     (\<exists>s deltas. rrs = s # concat (map delta_records deltas)
        \<and> apex_soa_serial s zone = Some c \<and> serial_gt c requested \<and> deltas \<noteq> []
        \<and> delta_chain zone c requested deltas t
        \<and> events = CurrentSoa s # concat (map delta_events deltas))"
| "ixfr_inv zone requested Complete rrs events \<longleftrightarrow>
     axfr_style zone rrs events
     \<or> (\<exists>reached current. differences zone requested reached current rrs events)"

lemma add_phase_extend:
  assumes "deltas \<noteq> []" "delta_chain zone c req deltas t" "non_apex zone rr"
  obtains deltas' where "deltas' \<noteq> []" "delta_chain zone c req deltas' t"
    "concat (map delta_records deltas') = concat (map delta_records deltas) @ [rr]"
    "concat (map delta_events deltas') = concat (map delta_events deltas) @ [Added rr]"
proof -
  obtain ds d dels a adds where ds: "deltas = ds @ [Delta d dels a adds]"
    using assms(1) by (metis delta.exhaust rev_exhaust)
  with assms(2,3) show ?thesis
    by (intro that [of "ds @ [Delta d dels a (adds @ [rr])]"]) (auto simp: delta_chain_append)
qed

lemma ixfr_next_inv:
  assumes "ixfr_inv zone req ph rrs events" "ixfr_next zone req ph rr = Inr (ph', new)"
  shows "ixfr_inv zone req ph' (rrs @ [rr]) (events @ new)"
proof (cases ph)
  case AwaitFirst
  with assms show ?thesis by (auto split: option.splits)
next
  case (AwaitSecond s c)
  show ?thesis
  proof (cases "apex_soa_serial rr zone")
    case None
    with assms AwaitSecond show ?thesis by (auto simp: non_apex_def)
  next
    case (Some base)
    show ?thesis
    proof (cases "base = c")
      case True
      with assms AwaitSecond Some show ?thesis by (auto simp: axfr_style_def)
    next
      case False
      with assms AwaitSecond Some have "base = req" "serial_gt c req"
        and "ph' = DeletePhase c req" "new = [CurrentSoa s, DeleteSoa rr]"
        by (auto split: if_splits option.splits ordering.splits)
      with assms(1) AwaitSecond Some False show ?thesis
        by (auto intro!: exI [of _ "[]"])
    qed
  qed
next
  case (AxfrPhase c)
  with assms show ?thesis
    by (auto simp: axfr_style_def non_apex_def split: option.splits if_splits)
next
  case (DeletePhase c f)
  from assms(1) DeletePhase obtain s deltas d dels where
    inv: "rrs = s # concat (map delta_records deltas) @ d # dels" "apex_soa_serial s zone = Some c"
      "serial_gt c req" "f \<noteq> c" "delta_chain zone c req deltas f" "apex_soa_serial d zone = Some f"
      "list_all (non_apex zone) dels"
      "events = CurrentSoa s # concat (map delta_events deltas) @ DeleteSoa d # map Deleted dels"
    by auto
  show ?thesis
  proof (cases "apex_soa_serial rr zone")
    case None
    with assms(2) DeletePhase have "ph' = DeletePhase c f" "new = [Deleted rr]" by simp_all
    with inv None show ?thesis
      by (auto simp: non_apex_def intro!: exI [of _ deltas] exI [of _ "dels @ [rr]"])
  next
    case (Some t)
    with assms(2) DeletePhase have r: "ph' = AddPhase c t" "new = [AddSoa rr]" "serial_gt t f"
      and "serial_partial_cmp t c \<noteq> None" "serial_partial_cmp t c \<noteq> Some Greater"
      by (auto simp: Let_def split: if_splits)
    then have "t = c \<or> serial_gt c t"
      using serial_cmp_swap [of t c]
      by (cases "serial_partial_cmp t c"; cases "the (serial_partial_cmp t c)")
        (auto simp: serial_partial_cmp_def Let_def serial.expand split: if_splits)
    with inv Some r show ?thesis
      by (auto simp: delta_chain_append intro!: exI [of _ "deltas @ [Delta d dels rr []]"])
  qed
next
  case (AddPhase c t)
  from assms(1) AddPhase obtain s deltas where
    inv: "rrs = s # concat (map delta_records deltas)" "apex_soa_serial s zone = Some c"
      "serial_gt c req" "deltas \<noteq> []" "delta_chain zone c req deltas t"
      "events = CurrentSoa s # concat (map delta_events deltas)"
    by auto
  show ?thesis
  proof (cases "apex_soa_serial rr zone")
    case None
    with assms(2) AddPhase have r: "ph' = AddPhase c t" "new = [Added rr]" by simp_all
    obtain deltas' where "deltas' \<noteq> []" "delta_chain zone c req deltas' t"
      "concat (map delta_records deltas') = concat (map delta_records deltas) @ [rr]"
      "concat (map delta_events deltas') = concat (map delta_events deltas) @ [Added rr]"
      using add_phase_extend [OF inv(4,5)] None by (auto simp: non_apex_def)
    with inv r show ?thesis by (auto intro!: exI [of _ deltas'])
  next
    case (Some u)
    show ?thesis
    proof (cases "u = c")
      case True
      with assms(2) AddPhase Some have r: "ph' = Complete" "new = [IxfrEndSoa rr]" by simp_all
      with inv r Some True show ?thesis by (auto simp: differences_def)
    next
      case False
      with assms(2) AddPhase Some have r: "ph' = DeletePhase c t" "new = [DeleteSoa rr]" "u = t"
        by (auto split: if_splits)
      with inv False Some show ?thesis
        by (auto intro!: exI [of _ deltas] exI [of _ "[] :: resource_record list"])
    qed
  qed
next
  case Complete
  with assms show ?thesis by simp
qed

interpretation ixfr_machine: step_machine "ixfr_next zone requested" "ixfr_inv zone requested"
  by unfold_locales (rule ixfr_next_inv)

text \<open>The machine of \<open>push\<close> calls is the machine of phases.\<close>

lemma ixfr_push_next:
  "ixfr_push st rr = (st', Inr events) \<longleftrightarrow>
     (\<exists>ph. ixfr_next (ix_zone st) (ix_requested_serial st) (ix_phase st) rr = Inr (ph, events)
        \<and> st' = st\<lparr>ix_phase := ph\<rparr>)"
  by (auto simp: ixfr_push_def split: sum.splits)

lemma ixfr_complete_style:
  "run_steps (ixfr_next zone requested) AwaitFirst rrs = Inr (Complete, events)
     \<Longrightarrow> axfr_style zone rrs events
       \<or> (\<exists>reached current. differences zone requested reached current rrs events)"
  using ixfr_machine.run_from_start [of zone requested AwaitFirst rrs Complete events] by simp

section \<open>Every complete response is accepted\<close>

lemma run_axfr_body:
  "list_all (non_apex zone) body \<Longrightarrow>
   run_steps (ixfr_next zone req) (AxfrPhase c) (body @ rrs) =
     rmap (\<lambda>(ph, es). (ph, map (\<lambda>r. AxfrFallback (Record r)) body @ es))
       (run_steps (ixfr_next zone req) (AxfrPhase c) rrs)"
  by (induction body; cases "run_steps (ixfr_next zone req) (AxfrPhase c) rrs")
    (auto simp: non_apex_def)

lemma run_dels:
  "list_all (non_apex zone) dels \<Longrightarrow>
   run_steps (ixfr_next zone req) (DeletePhase c f) (dels @ rrs) =
     rmap (\<lambda>(ph, es). (ph, map Deleted dels @ es))
       (run_steps (ixfr_next zone req) (DeletePhase c f) rrs)"
  by (induction dels; cases "run_steps (ixfr_next zone req) (DeletePhase c f) rrs")
    (auto simp: non_apex_def)

lemma run_adds:
  "list_all (non_apex zone) adds \<Longrightarrow>
   run_steps (ixfr_next zone req) (AddPhase c t) (adds @ rrs) =
     rmap (\<lambda>(ph, es). (ph, map Added adds @ es))
       (run_steps (ixfr_next zone req) (AddPhase c t) rrs)"
  by (induction adds; cases "run_steps (ixfr_next zone req) (AddPhase c t) rrs")
    (auto simp: non_apex_def)

lemma run_deltas:
  assumes "delta_chain zone c old deltas new" "apex_soa_serial e zone = Some c"
  shows "run_steps (ixfr_next zone req) (AddPhase c old) (concat (map delta_records deltas) @ [e])
    = Inr (Complete, concat (map delta_events deltas) @ [IxfrEndSoa e])"
  using assms(1)
proof (induction deltas arbitrary: old)
  case (Cons x deltas)
  obtain d dels a adds where x: "x = Delta d dels a adds" by (cases x)
  from Cons.prems x obtain nx where c: "old \<noteq> c" "apex_soa_serial d zone = Some old"
    "list_all (non_apex zone) dels" "list_all (non_apex zone) adds"
    "apex_soa_serial a zone = Some nx" "serial_gt nx old" "nx = c \<or> serial_gt c nx"
    "delta_chain zone c nx deltas new" by auto
  have "serial_partial_cmp nx c \<noteq> None \<and> serial_partial_cmp nx c \<noteq> Some Greater"
  proof (cases "nx = c")
    case True
    then show ?thesis by (simp add: serial_partial_cmp_def)
  next
    case False
    with c(7) have "serial_gt c nx" by simp
    with serial_cmp_swap [of nx c] show ?thesis by simp
  qed
  with c Cons.IH [OF c(8)] show ?case
    by (auto simp: x run_dels run_adds Let_def)
qed (use assms(2) in simp)

lemma differences_accepted:
  assumes "differences zone requested new c rrs events"
  shows "run_steps (ixfr_next zone requested) AwaitFirst rrs = Inr (Complete, events)"
proof -
  from assms obtain s deltas e where rrs: "rrs = s # concat (map delta_records deltas) @ [e]"
    and s: "apex_soa_serial s zone = Some c" and e: "apex_soa_serial e zone = Some c"
    and ne: "deltas \<noteq> []" and gt: "serial_gt c requested"
    and chain: "delta_chain zone c requested deltas new"
    and ev: "events = CurrentSoa s # concat (map delta_events deltas) @ [IxfrEndSoa e]"
    by (auto simp: differences_def)
  obtain d dels a adds rest where d: "deltas = Delta d dels a adds # rest"
    using ne by (metis delta.exhaust neq_Nil_conv)
  with chain have apex: "apex_soa_serial d zone = Some requested" "requested \<noteq> c" by auto
  have "run_steps (ixfr_next zone requested) (AddPhase c requested)
      (d # (dels @ a # adds @ concat (map delta_records rest) @ [e]))
    = Inr (Complete, concat (map delta_events deltas) @ [IxfrEndSoa e])"
    using run_deltas [OF chain e] d by simp
  with apex obtain es where
    "run_steps (ixfr_next zone requested) (DeletePhase c requested)
      (dels @ a # adds @ concat (map delta_records rest) @ [e]) = Inr (Complete, es)"
    "DeleteSoa d # es = concat (map delta_events deltas) @ [IxfrEndSoa e]"
    by (auto simp: rmap_eq_Inr)
  with s apex gt show ?thesis by (simp add: rrs d ev)
qed

lemma axfr_accepted:
  assumes "axfr_style zone rrs events"
  shows "run_steps (ixfr_next zone requested) AwaitFirst rrs = Inr (Complete, events)"
proof -
  from assms obtain s body e c where "rrs = s # body @ [e]" "apex_soa_serial s zone = Some c"
    "apex_soa_serial e zone = Some c" "list_all (non_apex zone) body"
    "events = map AxfrFallback (BeginSoa s # map Record body @ [EndSoa e])"
    by (auto simp: axfr_style_def)
  then show ?thesis
    by (cases body) (simp_all add: run_axfr_body non_apex_def comp_def)
qed

lemma ixfr_complete_iff:
  "run_steps (ixfr_next zone requested) AwaitFirst rrs = Inr (Complete, events) \<longleftrightarrow>
     axfr_style zone rrs events \<or> incremental_style zone requested rrs events
     \<or> truncated_style zone requested rrs events"
  using ixfr_complete_style [of zone requested rrs events] axfr_accepted [of zone rrs events]
    differences_accepted [of zone requested _ _ rrs events]
    differences_cases [of zone requested rrs events] by auto

section \<open>The IXFR stream\<close>

text \<open>What the machine has done when a message's answers have been pushed.\<close>

lemma ixfr_answers_run:
  assumes "ixfr_answers ctx msg n off cnt st = (events, Inr (st', cnt'))"
  shows "\<exists>rrs. run_steps (ixfr_next (ix_zone st) (ix_requested_serial st)) (ix_phase st) rrs
      = Inr (ix_phase st', events)
    \<and> ix_zone st' = ix_zone st \<and> ix_requested_serial st' = ix_requested_serial st
    \<and> cnt' = cnt + length rrs \<and> (cnt \<le> sc_max_records ctx \<longrightarrow> cnt' \<le> sc_max_records ctx)
    \<and> (ix_phase st \<noteq> Complete \<longrightarrow> ix_phase st' = Complete \<longrightarrow> verifier_finish (sc_verifier ctx) = Inr ())"
  using assms
proof (induction ctx msg n off cnt st arbitrary: events rule: ixfr_answers.induct)
  case (1 ctx msg off cnt st)
  then show ?case by (intro exI [of _ "[]"]) auto
next
  case (2 ctx msg n off cnt st)
  from "2.prems" obtain rr consumed where p: "parse_resource_record msg off = Inr (rr, consumed)"
    by (auto split: sum.splits)
  with "2.prems" have max: "\<not> cnt + 1 > sc_max_records ctx" by (auto split: if_splits)
  from "2.prems" p max obtain s1 evs where push: "ixfr_push st rr = (s1, Inr evs)"
    by (auto split: prod.splits sum.splits)
  then have next1: "ixfr_next (ix_zone st) (ix_requested_serial st) (ix_phase st) rr = Inr (ix_phase s1, evs)"
    and same: "ix_zone s1 = ix_zone st" "ix_requested_serial s1 = ix_requested_serial st"
    by (auto simp: ixfr_push_next)
  show ?case
  proof (cases "ixfr_is_complete s1")
    case True
    with "2.prems" p max push have "st' = s1" "events = evs" "cnt' = cnt + 1"
      "verifier_finish (sc_verifier ctx) = Inr ()"
      by (auto simp: rmap_eq_Inr split: if_splits)
    with next1 same max show ?thesis by (intro exI [of _ "[rr]"]) simp
  next
    case False
    with "2.prems" p max push obtain events' where
      rec: "ixfr_answers ctx msg n (off + consumed) (cnt + 1) s1 = (events', Inr (st', cnt'))"
      and ev: "events = evs @ events'"
      by (auto split: prod.splits)
    from "2.IH" [OF p refl max push [symmetric] refl _ _ rec] False obtain rrs where
      "run_steps (ixfr_next (ix_zone s1) (ix_requested_serial s1)) (ix_phase s1) rrs
        = Inr (ix_phase st', events')"
      "ix_zone st' = ix_zone s1" "ix_requested_serial st' = ix_requested_serial s1"
      "cnt' = cnt + 1 + length rrs" "cnt' \<le> sc_max_records ctx"
      "ix_phase st' = Complete \<longrightarrow> verifier_finish (sc_verifier ctx) = Inr ()"
      using max by (auto simp: ixfr_is_complete_def)
    with next1 same ev show ?thesis by (intro exI [of _ "rr # rrs"]) simp
  qed
qed

lemma accept_message_context:
  "accept_message lib clock ctx wire = Inr (ctx', msg, n, off)
     \<Longrightarrow> sc_zone ctx' = sc_zone ctx \<and> sc_max_records ctx' = sc_max_records ctx"
  by (auto simp: accept_message_def result_simps)

lemma ixfr_end_of_stream_Done:
  assumes "ixfr_end_of_stream ctx st = (events, Done)"
  shows "verifier_finish (sc_verifier ctx) = Inr () \<and>
    (ix_phase st = Complete \<and> events = [] \<or> (\<exists>s c. ix_phase st = AwaitSecond s c \<and> events = [NoChange s]))"
  using assms
  by (auto simp: ixfr_end_of_stream_def ixfr_finish_def finish_stream_def
      split: ixfr_phase.splits sum.splits)

lemma ixfr_stream_run:
  assumes "ixfr_record_stream lib ctx st cnt reads = (events, Done)" "ix_phase st \<noteq> Complete"
  shows "\<exists>rrs ph evs. run_steps (ixfr_next (ix_zone st) (ix_requested_serial st)) (ix_phase st) rrs
      = Inr (ph, evs)
    \<and> (ph = Complete \<and> events = evs \<or> (\<exists>s c. ph = AwaitSecond s c \<and> events = evs @ [NoChange s]))
    \<and> (cnt \<le> sc_max_records ctx \<longrightarrow> cnt + length rrs \<le> sc_max_records ctx)"
  using assms
proof (induction lib ctx st cnt reads arbitrary: events rule: ixfr_record_stream.induct)
  case (3 lib ctx st cnt clock e reads)
  then have "ixfr_end_of_stream ctx st = (events, Done)" by (auto split: if_splits)
  from ixfr_end_of_stream_Done [OF this] "3.prems"(2) show ?case
    by (intro exI [of _ "[]"]) auto
next
  case (4 lib ctx st cnt clock wire reads)
  from "4.prems"(1) obtain ctx' msg n off where acc: "accept_message lib clock ctx wire = Inr (ctx', msg, n, off)"
    by (auto split: sum.splits)
  note same = accept_message_context [OF acc]
  from "4.prems"(1) acc obtain ev1 st' cnt' where
    ans: "ixfr_answers ctx' msg n off cnt st = (ev1, Inr (st', cnt'))"
    by (auto split: prod.splits sum.splits)
  from ixfr_answers_run [OF this] obtain rrs where
    run: "run_steps (ixfr_next (ix_zone st) (ix_requested_serial st)) (ix_phase st) rrs
      = Inr (ix_phase st', ev1)"
    and st': "ix_zone st' = ix_zone st" "ix_requested_serial st' = ix_requested_serial st"
    and cnt: "cnt' = cnt + length rrs" "cnt \<le> sc_max_records ctx \<longrightarrow> cnt' \<le> sc_max_records ctx"
    using same by auto
  show ?case
  proof (cases "n = 1 \<and> \<not> ixfr_is_complete st'")
    case True
    with "4.prems"(1) acc ans obtain ev2 where "ixfr_end_of_stream ctx' st' = (ev2, Done)"
      "events = ev1 @ ev2" by (auto split: prod.splits)
    with ixfr_end_of_stream_Done [OF this(1)] True run cnt show ?thesis
      by (intro exI [of _ rrs] exI [of _ "ix_phase st'"] exI [of _ ev1])
        (auto simp: ixfr_is_complete_def)
  next
    case False
    show ?thesis
    proof (cases "ixfr_is_complete st'")
      case True
      with False "4.prems"(1) acc ans run cnt show ?thesis
        by (intro exI [of _ rrs] exI [of _ "ix_phase st'"] exI [of _ ev1])
          (auto simp: ixfr_is_complete_def)
    next
      case notc: False
      with False "4.prems"(1) acc ans obtain ev2 where
        rest: "ixfr_record_stream lib ctx' st' cnt' reads = (ev2, Done)" and ev: "events = ev1 @ ev2"
        by (auto split: prod.splits)
      from "4.IH" [OF acc refl refl refl ans [symmetric] refl refl False notc rest] notc obtain rrs2 ph evs where
        "run_steps (ixfr_next (ix_zone st') (ix_requested_serial st')) (ix_phase st') rrs2 = Inr (ph, evs)"
        "ph = Complete \<and> ev2 = evs \<or> (\<exists>s c. ph = AwaitSecond s c \<and> ev2 = evs @ [NoChange s])"
        "cnt' \<le> sc_max_records ctx' \<longrightarrow> cnt' + length rrs2 \<le> sc_max_records ctx'"
        by (auto simp: ixfr_is_complete_def)
      with run st' cnt ev same show ?thesis
        by (intro exI [of _ "rrs @ rrs2"] exI [of _ ph] exI [of _ "ev1 @ evs"])
          (auto simp: run_steps_append)
    qed
  qed
qed simp_all

section \<open>The AXFR stream\<close>

text \<open>The variables of the generator against the items it has yielded.\<close>

definition axfr_inv :: "domain_name \<Rightarrow> nat \<Rightarrow> axfr_state \<Rightarrow> transfer_record list \<Rightarrow> bool" where
  "axfr_inv zone limit st items \<longleftrightarrow>
     ax_record_count st = length items \<and> length items \<le> limit
     \<and> (if ax_awaiting_first_soa st then items = [] \<and> ax_soa_count st = 0
        else \<exists>s body c. items = BeginSoa s # map Record body \<and> apex_soa_serial s zone = Some c
          \<and> ax_opening_serial st = Some c \<and> ax_soa_count st = 1 \<and> list_all (non_apex zone) body)"

definition axfr_done :: "domain_name \<Rightarrow> nat \<Rightarrow> transfer_record list \<Rightarrow> bool" where
  "axfr_done zone limit items \<longleftrightarrow>
     (\<exists>s body e c. items = BeginSoa s # map Record body @ [EndSoa e] \<and> apex_soa_serial s zone = Some c
        \<and> apex_soa_serial e zone = Some c \<and> list_all (non_apex zone) body \<and> length items \<le> limit)"

lemma apex_soa_iff:
  "is_soa_rdata (rr_rdata rr) \<and> name_eq (rr_name rr) zone \<longleftrightarrow> (\<exists>c. apex_soa_serial rr zone = Some c)"
  by (cases "rr_rdata rr") (auto simp: apex_soa_serial_def)

lemma axfr_answer_inv:
  assumes "axfr_inv (sc_zone ctx) (sc_max_records ctx) st items"
    and "axfr_answer ctx n st rr = Inr (new, over, st')"
  shows "if over then axfr_done (sc_zone ctx) (sc_max_records ctx) (items @ new)
      \<and> verifier_finish (sc_verifier ctx) = Inr ()
    else axfr_inv (sc_zone ctx) (sc_max_records ctx) st' (items @ new)"
proof (cases "\<exists>c. apex_soa_serial rr (sc_zone ctx) = Some c")
  case True
  then obtain c where "apex_soa_serial rr (sc_zone ctx) = Some c" ..
  with assms apex_soa_iff [of rr "sc_zone ctx"] show ?thesis
    by (fastforce simp: axfr_answer_def Let_def axfr_inv_def axfr_done_def result_simps split: if_splits)
next
  case False
  with apex_soa_iff [of rr "sc_zone ctx"]
  have "\<not> (is_soa_rdata (rr_rdata rr) \<and> name_eq (rr_name rr) (sc_zone ctx))" by simp
  with assms(2) have "\<not> over" "new = [Record rr]" "\<not> ax_awaiting_first_soa st"
    "st' = st\<lparr>ax_record_count := ax_record_count st + 1\<rparr>" "ax_record_count st + 1 \<le> sc_max_records ctx"
    by (auto simp: axfr_answer_def Let_def split: if_splits)
  moreover have "non_apex (sc_zone ctx) rr" using False by (simp add: non_apex_def)
  moreover from assms(1) \<open>\<not> ax_awaiting_first_soa st\<close> obtain s body c where
    "items = BeginSoa s # map Record body" "apex_soa_serial s (sc_zone ctx) = Some c"
    "ax_opening_serial st = Some c" "ax_soa_count st = 1" "list_all (non_apex (sc_zone ctx)) body"
    "ax_record_count st = length items"
    by (auto simp: axfr_inv_def)
  ultimately show ?thesis
    by (auto simp: axfr_inv_def intro!: exI [of _ "body @ [rr]"])
qed

lemma axfr_answers_inv:
  assumes "axfr_answers ctx msg n off st = (new, r)"
    and "axfr_inv (sc_zone ctx) (sc_max_records ctx) st items"
  shows "case r of
      Inr (True, st') \<Rightarrow> axfr_done (sc_zone ctx) (sc_max_records ctx) (items @ new)
        \<and> verifier_finish (sc_verifier ctx) = Inr ()
    | Inr (False, st') \<Rightarrow> axfr_inv (sc_zone ctx) (sc_max_records ctx) st' (items @ new)
    | Inl e \<Rightarrow> \<exists>st'. axfr_inv (sc_zone ctx) (sc_max_records ctx) st' (items @ new)"
  using assms
proof (induction ctx msg n off st arbitrary: new items rule: axfr_answers.induct)
  case (2 ctx msg n off st)
  show ?case
  proof (cases "parse_resource_record msg off")
    case (Inl e)
    with "2.prems" show ?thesis by auto
  next
    case (Inr p)
    obtain rr consumed where p: "p = (rr, consumed)" by (cases p)
    show ?thesis
    proof (cases "axfr_answer ctx n st rr")
      case (Inl e)
      with "2.prems" Inr p show ?thesis by auto
    next
      case ans: (Inr q)
      obtain ys over st1 where q: "q = (ys, over, st1)" by (cases q)
      note inv = axfr_answer_inv [OF "2.prems"(2) ans [unfolded q]]
      show ?thesis
      proof (cases over)
        case True
        with "2.prems" Inr p ans q inv show ?thesis by auto
      next
        case False
        with "2.prems"(1) Inr p ans q obtain zs where
          rec: "axfr_answers ctx msg n (off + consumed) st1 = (zs, r)" and new: "new = ys @ zs"
          by (auto split: prod.splits)
        from "2.IH" [OF Inr p [symmetric] ans q [symmetric] refl _ rec] inv False
        have "case r of
            Inr (True, st') \<Rightarrow> axfr_done (sc_zone ctx) (sc_max_records ctx) ((items @ ys) @ zs)
              \<and> verifier_finish (sc_verifier ctx) = Inr ()
          | Inr (False, st') \<Rightarrow> axfr_inv (sc_zone ctx) (sc_max_records ctx) st' ((items @ ys) @ zs)
          | Inl e \<Rightarrow> \<exists>st'. axfr_inv (sc_zone ctx) (sc_max_records ctx) st' ((items @ ys) @ zs)"
          by simp
        then show ?thesis unfolding new append_assoc .
      qed
    qed
  qed
qed auto

lemma axfr_stream_inv:
  assumes "transfer_record_stream lib ctx st reads = (new, r)"
    and "axfr_inv (sc_zone ctx) (sc_max_records ctx) st items"
  shows "if r = Done then axfr_done (sc_zone ctx) (sc_max_records ctx) (items @ new)
    else \<exists>st'. axfr_inv (sc_zone ctx) (sc_max_records ctx) st' (items @ new)"
  using assms
proof (induction lib ctx st reads arbitrary: new items rule: transfer_record_stream.induct)
  case (4 lib ctx st clock wire reads)
  show ?case
  proof (cases "accept_message lib clock ctx wire")
    case (Inl e)
    with "4.prems" show ?thesis by auto
  next
    case (Inr p)
    obtain ctx' msg n off where p: "p = (ctx', msg, n, off)" by (cases p)
    have same: "sc_zone ctx' = sc_zone ctx" "sc_max_records ctx' = sc_max_records ctx"
      using accept_message_context [OF Inr [unfolded p]] by auto
    obtain ys q where ans: "axfr_answers ctx' msg n off st = (ys, q)" by (cases "axfr_answers ctx' msg n off st")
    note inv = axfr_answers_inv [OF ans "4.prems"(2) [folded same]]
    show ?thesis
    proof (cases "\<exists>st'. q = Inr (False, st')")
      case True
      then obtain st1 where q: "q = Inr (False, st1)" ..
      with "4.prems"(1) Inr p ans obtain zs where
        rec: "transfer_record_stream lib ctx' st1 reads = (zs, r)" and new: "new = ys @ zs"
        by (auto split: prod.splits)
      from "4.IH" [OF Inr p [symmetric] refl refl ans [symmetric] q refl refl rec, of "items @ ys"] inv q same show ?thesis
        by (cases "r = Done") (simp_all add: new)
    next
      case False
      with "4.prems"(1) Inr p ans inv same show ?thesis
        by (auto split: sum.splits prod.splits bool.splits)
    qed
  qed
qed auto

section \<open>What the signatures of a stream cover\<close>

text \<open>
  What the walker finds in one received message: the message has the ID of the query and is
  split into the octets before the final TSIG record and that record, if it has one.
\<close>

definition received :: "u16 \<Rightarrow> byte list \<Rightarrow> byte list \<Rightarrow> tsig_record option \<Rightarrow> bool" where
  "received i wire m tsig \<longleftrightarrow>
     (\<exists>h. header_parse wire = Inr h \<and> dh_id h = i)
     \<and> split_final_tsig wire = Inr \<lparr>unsigned_message = m, split_tsig = tsig\<rparr>"

text \<open>A TSIG record that names the key and the query, without error, in its time window.\<close>

definition tsig_fits :: "u16 \<Rightarrow> tsig_key \<Rightarrow> u64 \<Rightarrow> tsig_record \<Rightarrow> bool" where
  "tsig_fits i key now t \<longleftrightarrow>
     name_eq (tsig_key_name t) (key_name key) \<and> tsig_algorithm t = key_algorithm key
     \<and> original_id t = i \<and> tsig_error t = 0
     \<and> \<bar>uint now - uint (time_signed t)\<bar> \<le> uint (fudge t)"

text \<open>
  \<open>tsig_chain lib i key rm ins outs mac\<close>: the received messages \<open>ins\<close>, each with the clock at
  that moment, are authenticated one after the other, and \<open>outs\<close> are these messages without
  their TSIG records. The first one carries a TSIG record whose MAC is the tag of the key over
  the request MAC, the message and the TSIG variables. Every later group of at most 99 messages
  without a TSIG record is followed by one with a TSIG record whose MAC is the tag over the MAC
  received before, the messages of the group, the message itself and the time and fudge.
  \<open>mac\<close> is the MAC of the last TSIG record received.
\<close>

inductive tsig_chain ::
    "mac_lib \<Rightarrow> u16 \<Rightarrow> tsig_key \<Rightarrow> byte list \<Rightarrow> ((string + u64) \<times> byte list) list
       \<Rightarrow> byte list list \<Rightarrow> byte list \<Rightarrow> bool"
  for lib :: mac_lib and i :: u16 and key :: tsig_key and rm :: "byte list" where
  first: "received i wire m (Some t) \<Longrightarrow> tsig_fits i key now t
    \<Longrightarrow> algorithm_domain (key_algorithm key) = Inr d
    \<Longrightarrow> mac_tag lib (key_algorithm key) (key_material key) (response_mac_input key d m t rm)
        = Some (tsig_mac t)
    \<Longrightarrow> tsig_chain lib i key rm [(Inr now, wire)] [m] (tsig_mac t)"
| later: "tsig_chain lib i key rm ins outs mac
    \<Longrightarrow> list_all2 (\<lambda>g u. received i (snd g) u None) grp us \<Longrightarrow> length us \<le> 99
    \<Longrightarrow> received i wire m (Some t) \<Longrightarrow> tsig_fits i key now t
    \<Longrightarrow> mac_tag lib (key_algorithm key) (key_material key) (chained_mac_input mac (concat us) m t)
        = Some (tsig_mac t)
    \<Longrightarrow> tsig_chain lib i key rm (ins @ grp @ [(Inr now, wire)]) (outs @ us @ [m]) (tsig_mac t)"











text \<open>Two response messages about the root zone, for the witnesses.\<close>

definition soa_octets :: "byte list" where
  "soa_octets = [0, 0,6, 0,1, 0,0,0,0, 0,22, 0, 0, 0,0,0,5, 0,0,0,0, 0,0,0,0, 0,0,0,0, 0,0,0,0]"

definition sample_response :: "nat \<Rightarrow> byte list" where
  "sample_response n = [0,7, 0x84,0, 0,0, 0,word_of_nat n, 0,0, 0,0] @ concat (replicate n soa_octets)"

definition sample_context :: stream_context where
  "sample_context = context_new domain_root 60 10 7 None None 251"

section \<open>Properties\<close>

text \<open>
  C1: The IXFR state machine is complete after a sequence of records if and only if the
  sequence is one of three kinds, and then it reports exactly these records, labelled, in order.
  The kinds are the two complete responses of RFC 1995 - a whole zone between two copies of the
  zone SOA; the current SOA, a chain of difference sequences (delete SOA, deletions, add SOA,
  additions) that leads from the requested serial forward to the current serial, and the
  current SOA again - and one that is not complete: a chain of differences that stops at a
  serial before the current one and is followed by the current SOA. No response is of both
  incremental kinds. That the machine takes the third kind as complete, instead of refusing it,
  is a defect of the code.
\<close>

theorem ixfr_accepts_iff:
  "(run_steps (ixfr_next zone requested) AwaitFirst rrs = Inr (Complete, events) \<longleftrightarrow>
      axfr_style zone rrs events \<or> incremental_style zone requested rrs events
      \<or> truncated_style zone requested rrs events)
   \<and> \<not> (incremental_style zone requested rrs events \<and> truncated_style zone requested rrs events)"
  using ixfr_complete_iff incremental_not_truncated by blast

text \<open>
  C12: An IXFR stream that ends without an error has yielded the events of a whole zone, of
  differences that lead from the requested serial to the current one, of differences that
  stop at an earlier serial (which the code takes as the end, as in C1), or the single event
  that nothing changed, after one SOA record of any serial; in every case it has read at most
  the configured maximum of records. In particular, when the serial of the last add
  SOA yielded is the serial of the closing one, the stream was not truncated.
\<close>

theorem ixfr_stream_grammar:
  assumes "ixfr_record_stream lib ctx (ixfr_new zone requested) 0 reads = (events, Done)"
  shows "\<exists>rrs. length rrs \<le> sc_max_records ctx
    \<and> (axfr_style zone rrs events \<or> incremental_style zone requested rrs events
       \<or> truncated_style zone requested rrs events
         \<and> (\<exists>a e reached current. last (filter is_AddSoa events) = AddSoa a
            \<and> last events = IxfrEndSoa e \<and> apex_soa_serial a zone = Some reached
            \<and> apex_soa_serial e zone = Some current \<and> reached \<noteq> current)
       \<or> (\<exists>s c. rrs = [s] \<and> apex_soa_serial s zone = Some c \<and> events = [NoChange s]))"
proof -
  from ixfr_stream_run [OF assms] obtain rrs ph evs where
    run: "run_steps (ixfr_next zone requested) AwaitFirst rrs = Inr (ph, evs)"
    and ph: "ph = Complete \<and> events = evs \<or> (\<exists>s c. ph = AwaitSecond s c \<and> events = evs @ [NoChange s])"
    and len: "length rrs \<le> sc_max_records ctx"
    by (auto simp: ixfr_new_def)
  have truncated: "\<exists>a e reached current. last (filter is_AddSoa events) = AddSoa a
      \<and> last events = IxfrEndSoa e \<and> apex_soa_serial a zone = Some reached
      \<and> apex_soa_serial e zone = Some current \<and> reached \<noteq> current"
    if "truncated_style zone requested rrs events"
    using that unfolding truncated_style_def by (metis differences_events)
  show ?thesis
  proof (cases "ph = Complete")
    case True
    with run ph have "axfr_style zone rrs events \<or> incremental_style zone requested rrs events
        \<or> truncated_style zone requested rrs events"
      by (simp add: ixfr_complete_iff)
    with truncated len show ?thesis by blast
  next
    case False
    with ph ixfr_machine.run_from_start [OF _ run] len show ?thesis
      by (intro exI [of _ rrs]) auto
  qed
qed

theorem ixfr_stream_grammar_witness:
  "\<exists>events. ixfr_record_stream sample_lib sample_context (ixfr_new domain_root (Serial 1)) 0
      [ReadResult (Inr 0) (Inr (sample_response 2))] = (events, Done)
    \<and> (\<exists>rrs. length rrs \<le> 10
         \<and> (axfr_style domain_root rrs events \<or> incremental_style domain_root (Serial 1) rrs events
            \<or> truncated_style domain_root (Serial 1) rrs events
            \<or> (\<exists>s c. rrs = [s] \<and> apex_soa_serial s domain_root = Some c \<and> events = [NoChange s])))"
proof -
  have "snd (ixfr_record_stream sample_lib sample_context (ixfr_new domain_root (Serial 1)) 0
      [ReadResult (Inr 0) (Inr (sample_response 2))]) = Done" by code_simp
  then obtain events where "ixfr_record_stream sample_lib sample_context (ixfr_new domain_root (Serial 1)) 0
      [ReadResult (Inr 0) (Inr (sample_response 2))] = (events, Done)"
    by (metis prod.collapse)
  from ixfr_stream_grammar [OF this] this show ?thesis
    unfolding sample_context_def context_new_def stream_context.simps by blast
qed

text \<open>
  C13: An AXFR stream that ends without an error has yielded the opening SOA, records that are
  not the zone SOA, and a closing SOA with the same serial; \<open>EndSoa\<close> is yielded by no stream
  that has not ended well, and no stream yields more than the configured maximum of records.
\<close>

theorem axfr_stream_grammar:
  assumes "transfer_record_stream lib ctx axfr_new reads = (items, r)"
  shows "if r = Done then
      \<exists>s body e c. items = BeginSoa s # map Record body @ [EndSoa e]
        \<and> apex_soa_serial s (sc_zone ctx) = Some c \<and> apex_soa_serial e (sc_zone ctx) = Some c
        \<and> list_all (non_apex (sc_zone ctx)) body \<and> length items \<le> sc_max_records ctx
    else (\<forall>x \<in> set items. \<forall>e. x \<noteq> EndSoa e) \<and> length items \<le> sc_max_records ctx"
proof -
  have "axfr_inv (sc_zone ctx) (sc_max_records ctx) axfr_new []"
    by (simp add: axfr_inv_def axfr_new_def)
  from axfr_stream_inv [OF assms this] show ?thesis
    by (cases "r = Done") (auto simp: axfr_done_def axfr_inv_def split: if_splits)
qed

theorem axfr_stream_grammar_witness:
  "\<exists>items. transfer_record_stream sample_lib sample_context axfr_new
      [ReadResult (Inr 0) (Inr (sample_response 2))] = (items, Done)
    \<and> (\<exists>s body e. items = BeginSoa s # map Record body @ [EndSoa e])"
proof -
  have "snd (transfer_record_stream sample_lib sample_context axfr_new
      [ReadResult (Inr 0) (Inr (sample_response 2))]) = Done" by code_simp
  then obtain items where "transfer_record_stream sample_lib sample_context axfr_new
      [ReadResult (Inr 0) (Inr (sample_response 2))] = (items, Done)"
    by (metis prod.collapse)
  from axfr_stream_grammar [OF this] this show ?thesis by auto
qed


definition soa_record :: "domain_name \<Rightarrow> u32 \<Rightarrow> resource_record" where
  "soa_record zone n = \<lparr>rr_name = zone, rr_class = IN, rr_ttl = Ttl 0,
     rr_rdata = RD_Soa zone zone (Serial n) (Ttl 0) (Ttl 0) (Ttl 0) (Ttl 0)\<rparr>"

lemma soa_record_serial [simp]: "apex_soa_serial (soa_record zone n) zone = Some (Serial n)"
  by (simp add: apex_soa_serial_def soa_record_def name_class.eq_refl)

text \<open>
  The end of an incremental response is accepted although its differences do not reach the
  current serial: after an add sequence up to serial 3, the closing SOA of serial 5 completes
  the transfer, and the change from 3 to 5 is missing.
\<close>

lemma ixfr_accepts_truncated_chain:
  "run_steps (ixfr_next zone (Serial 1)) AwaitFirst
      [soa_record zone 5, soa_record zone 1, soa_record zone 3, soa_record zone 5]
    = Inr (Complete, [CurrentSoa (soa_record zone 5), DeleteSoa (soa_record zone 1),
        AddSoa (soa_record zone 3), IxfrEndSoa (soa_record zone 5)])"
  by (simp add: serial_partial_cmp_def Let_def)

text \<open>
  A first message whose only answer is the zone SOA ends the transfer with \<open>NoChange\<close>,
  also when the serial of that SOA is newer than the requested one and the rest of the
  response follows in the next messages.
\<close>

lemma ixfr_single_soa_is_no_change:
  assumes "accept_message lib clock ctx wire = Inr (ctx', message, 1, offset)"
    and "parse_resource_record message offset = Inr (rr, consumed)"
    and "apex_soa_serial rr zone = Some current" "1 \<le> sc_max_records ctx"
    and "verifier_finish (sc_verifier ctx') = Inr ()"
  shows "ixfr_record_stream lib ctx (ixfr_new zone requested) 0 (ReadResult clock (Inr wire) # reads)
    = ([NoChange rr], Done)"
  using assms accept_message_context [OF assms(1)]
  by (simp add: ixfr_push_def ixfr_new_def ixfr_is_complete_def ixfr_end_of_stream_def
      ixfr_finish_def finish_stream_def)

lemma ixfr_single_soa_is_no_change_witness:
  "\<exists>rr. ixfr_record_stream sample_lib sample_context (ixfr_new domain_root (Serial 1)) 0
      [ReadResult (Inr 0) (Inr (sample_response 1)), ReadResult (Inr 0) (Inr (sample_response 2))]
      = ([NoChange rr], Done)
    \<and> serial_gt (the (apex_soa_serial rr domain_root)) (Serial 1)"
proof -
  let ?rr = "\<lparr>rr_name = domain_root, rr_class = IN, rr_ttl = Ttl 0,
     rr_rdata = RD_Soa domain_root domain_root (Serial 5) (Ttl 0) (Ttl 0) (Ttl 0) (Ttl 0)\<rparr>"
  have "rmap (\<lambda>(ctx, m, n, off). (verifier_finish (sc_verifier ctx), m, n, off))
      (accept_message sample_lib (Inr 0) sample_context (sample_response 1))
      = Inr (Inr (), sample_response 1, 1, 12)" by code_simp
  then obtain ctx' where acc: "accept_message sample_lib (Inr 0) sample_context (sample_response 1)
      = Inr (ctx', sample_response 1, 1, 12)" and fin: "verifier_finish (sc_verifier ctx') = Inr ()"
    by (auto simp: result_simps)
  have "rmap fst (parse_resource_record (sample_response 1) 12) = Inr ?rr" by code_simp
  then obtain consumed where parse: "parse_resource_record (sample_response 1) 12 = Inr (?rr, consumed)"
    by (auto simp: result_simps)
  have apex: "apex_soa_serial ?rr domain_root = Some (Serial 5)"
    by (simp add: apex_soa_serial_def name_class.eq_refl)
  have "1 \<le> sc_max_records sample_context" by (simp add: sample_context_def context_new_def)
  from ixfr_single_soa_is_no_change [OF acc parse apex this fin]
  have "ixfr_record_stream sample_lib sample_context (ixfr_new domain_root (Serial 1)) 0
      [ReadResult (Inr 0) (Inr (sample_response 1)), ReadResult (Inr 0) (Inr (sample_response 2))]
      = ([NoChange ?rr], Done)" .
  moreover have "serial_gt (Serial 5) (Serial 1)" by (simp add: serial_partial_cmp_def Let_def)
  ultimately show ?thesis using apex by (intro exI [of _ ?rr]) simp
qed

lemma signed_first_message_verified:
  assumes lib: "mac_lib_ok lib" and key: "plain_name (key_name key)" "name_wf (key_name key)"
    and u: "u = message_octets i flags an ns 0 zone qtype qclass (concat rrs)"
    and ok: "name_wf zone" "list_all plain_rr rrs" "unat an + unat ns = length rrs"
    and t: "tsig_new lib key u ts (Some request_mac) = Inr t"
    and time: "\<bar>uint now - uint ts\<bar> \<le> 300"
  shows "\<exists>v. verify_message lib (Inr now) (verifier_new i (Some key) (Some request_mac))
      (overwrite u 10 (u16_be 1) @ tsig_wire t) = Inr (v, u) \<and> verifier_finish v = Inr ()"
proof -
  have len: "12 \<le> length u" by (simp add: u message_octets_arcount)
  obtain t' where t': "tsig_parse (tsig_wire t) = Inr t'" "tsig_error t' = 0"
    "verify_response lib key u t' request_mac now = Inr ()"
    using signed_response_verified [OF lib key len t time] by blast
  have "overwrite u 10 (u16_be 1) @ tsig_wire t
      = message_octets i flags an ns 1 zone qtype qclass (concat rrs @ tsig_wire t)"
    by (simp add: u message_octets_def overwrite_def)
  from header_parse_message [OF this] obtain h where
    h: "header_parse (overwrite u 10 (u16_be 1) @ tsig_wire t) = Inr h" "dh_id h = i" by blast
  have split: "split_final_tsig (overwrite u 10 (u16_be 1) @ tsig_wire t)
      = Inr \<lparr>unsigned_message = u, split_tsig = Some t'\<rparr>"
    using split_signed [OF u ok canonical_name_wf [OF key(2)] tsig_wire_rr [OF lib t]] t'(1) by simp
  have "u16_at u 0 = i"
    using holds_at_self [of u] by (simp add: u message_octets_def u16_at_prefix)
  with t'(3) have "name_eq (tsig_key_name t') (key_name key)"
    "tsig_algorithm t' = key_algorithm key" "original_id t' = i"
    by (simp_all add: verify_response_iff [OF lib])
  then show ?thesis
    by (simp add: verify_message_def h split verify_signature_def verifier_new_def t'(2,3)
        verifier_finish_def)
qed

text \<open>
  The first message of a signed response is accepted when the server signed it with the
  same key over the request MAC, less than 300 seconds ago: \<open>verify_message\<close> returns the
  message as the server had it before signing, and the stream may end there.
\<close>

lemma signed_first_message_accepted:
  assumes "mac_lib_ok lib" "plain_name (key_name key)" "name_wf (key_name key)"
    and "u = message_octets i flags an ns 0 zone qtype qclass (concat rrs)"
    and "name_wf zone" "list_all plain_rr rrs" "unat an + unat ns = length rrs"
    and "tsig_new lib key u ts (Some request_mac) = Inr t"
    and "\<bar>uint now - uint ts\<bar> \<le> 300"
  shows "\<exists>v. verify_message lib (Inr now) (verifier_new i (Some key) (Some request_mac))
      (overwrite u 10 (u16_be 1) @ tsig_wire t) = Inr (v, u) \<and> verifier_finish v = Inr ()"
  by (rule signed_first_message_verified [OF assms])

definition sample_signed_message :: "byte list" where
  "sample_signed_message = message_octets 7 0x8400 0 0 0 domain_root 251 1 []"

lemma sample_signed_message_ok:
  "sample_signed_message = message_octets 7 0x8400 0 0 0 domain_root 251 1 (concat [])"
  "name_wf domain_root" "list_all plain_rr []" "unat (0 :: u16) + unat (0 :: u16) = length ([] :: byte list list)"
  by (simp_all add: sample_signed_message_def name_wf_def domain_root_def wire_len_def)

lemma signed_first_message_accepted_witness:
  "\<exists>t v. tsig_new sample_lib sample_key sample_signed_message 1000 (Some [9, 9]) = Inr t
     \<and> verify_message sample_lib (Inr 1200) (verifier_new 7 (Some sample_key) (Some [9, 9]))
         (overwrite sample_signed_message 10 (u16_be 1) @ tsig_wire t) = Inr (v, sample_signed_message)"
proof -
  obtain t where t: "tsig_new sample_lib sample_key sample_signed_message 1000 (Some [9, 9]) = Inr t"
    using tsig_new_ok [OF sample_lib_ok, of 1000 "Some [9, 9]"] by auto
  with signed_first_message_accepted [OF sample_lib_ok sample_key_name sample_signed_message_ok t, of 1200]
  show ?thesis by auto
qed


end
