(* ===== verification/Zone_Diff.thy ===== *)
theory Zone_Diff
  imports Update_Message
begin

text \<open>
  \<open>zone/mod.rs\<close> and \<open>zone/diff.rs\<close>: zones, their summary, the diff of two zones, its
  application and its conversion to update operations. Records are identified by name, class
  and data, each compared with its \<open>PartialEq\<close>.
\<close>

section \<open>Zones\<close>

record zone_summary =
  zs_name :: domain_name
  zs_class :: record_class
  zs_serial :: serial

record zone =
  zone_name :: domain_name
  zone_class :: record_class
  zone_records :: "resource_record list"

definition is_soa :: "resource_record \<Rightarrow> bool" where
  "is_soa rr \<longleftrightarrow> is_soa_rdata (rr_rdata rr)"

definition zone_soa :: "zone \<Rightarrow> resource_record option" where
  "zone_soa z = List.find is_soa (zone_records z)"

fun find_serial :: "resource_record list \<Rightarrow> serial option" where
  "find_serial [] = None"
| "find_serial (rr # rrs) =
     (case rdata_soa_serial (rr_rdata rr) of Some s \<Rightarrow> Some s | None \<Rightarrow> find_serial rrs)"

definition zone_serial :: "zone \<Rightarrow> serial option" where
  "zone_serial z = find_serial (zone_records z)"

definition zone_summarize :: "zone \<Rightarrow> zone_summary" where
  "zone_summarize z = \<lparr>zs_name = zone_name z, zs_class = zone_class z,
     zs_serial = (case zone_serial z of Some s \<Rightarrow> s | None \<Rightarrow> Serial 0)\<rparr>"

text \<open>\<open>ZoneManager\<close> for a single zone file: its \<open>list_zones\<close> and \<open>get_zone\<close>.\<close>

record zone_file =
  zf_origin :: domain_name
  zf_default_ttl :: "ttl option"
  zf_zone :: zone

definition list_zones :: "zone_file \<Rightarrow> core_error + zone_summary list" where
  "list_zones f = Inr [zone_summarize (zf_zone f)]"

definition get_zone :: "zone_file \<Rightarrow> domain_name \<Rightarrow> core_error + zone" where
  "get_zone f name =
     (if name_eq (zone_name (zf_zone f)) name then Inr (zf_zone f)
      else Inl (InvalidName (name_display name) ''zone not found''))"

section \<open>Diffs\<close>

datatype diff_entry =
    DiffAdded resource_record
  | DiffRemoved resource_record
  | TtlChanged (changed_record: resource_record) (old_ttl: ttl) (new_ttl: ttl)

definition same_identity :: "resource_record \<Rightarrow> resource_record \<Rightarrow> bool" where
  "same_identity a b \<longleftrightarrow>
     name_eq (rr_name a) (rr_name b) \<and> rr_class a = rr_class b \<and> rdata_eq (rr_rdata a) (rr_rdata b)"

definition non_soa_records :: "zone \<Rightarrow> resource_record list" where
  "non_soa_records z = filter (\<lambda>rr. \<not> is_soa rr) (zone_records z)"

text \<open>Pass 1, for one record of the new zone, and pass 2, for one record of the old zone.\<close>

definition diff_new_record :: "resource_record list \<Rightarrow> resource_record \<Rightarrow> diff_entry list" where
  "diff_new_record old_records new_rr =
     (case List.find (\<lambda>old_rr. same_identity old_rr new_rr) old_records of
        None \<Rightarrow> [DiffAdded new_rr]
      | Some old_rr \<Rightarrow>
          (if rr_ttl old_rr \<noteq> rr_ttl new_rr
           then [TtlChanged new_rr (rr_ttl old_rr) (rr_ttl new_rr)] else []))"

definition diff_old_record :: "resource_record list \<Rightarrow> resource_record \<Rightarrow> diff_entry list" where
  "diff_old_record new_records old_rr =
     (if list_ex (\<lambda>new_rr. same_identity new_rr old_rr) new_records then [] else [DiffRemoved old_rr])"

definition zone_diff :: "zone \<Rightarrow> zone \<Rightarrow> diff_entry list" where
  "zone_diff old new =
     concat (map (diff_new_record (non_soa_records old)) (non_soa_records new))
       @ concat (map (diff_old_record (non_soa_records new)) (non_soa_records old))"

text \<open>\<open>position\<close> and \<open>remove\<close>, and the assignment through \<open>iter_mut().find\<close>.\<close>

fun remove_first :: "('a \<Rightarrow> bool) \<Rightarrow> 'a list \<Rightarrow> 'a list" where
  "remove_first p [] = []"
| "remove_first p (x # xs) = (if p x then xs else x # remove_first p xs)"

fun update_first :: "('a \<Rightarrow> bool) \<Rightarrow> ('a \<Rightarrow> 'a) \<Rightarrow> 'a list \<Rightarrow> 'a list" where
  "update_first p f [] = []"
| "update_first p f (x # xs) = (if p x then f x # xs else x # update_first p f xs)"

fun apply_entry :: "diff_entry \<Rightarrow> resource_record list \<Rightarrow> resource_record list" where
  "apply_entry (DiffAdded rr) records = records @ [rr]"
| "apply_entry (DiffRemoved rr) records = remove_first (\<lambda>r. same_identity r rr) records"
| "apply_entry (TtlChanged rr _ new) records =
     update_first (\<lambda>r. same_identity r rr) (\<lambda>r. r\<lparr>rr_ttl := new\<rparr>) records"

definition apply_diff :: "zone \<Rightarrow> diff_entry list \<Rightarrow> zone" where
  "apply_diff z entries =
     \<lparr>zone_name = zone_name z, zone_class = zone_class z,
      zone_records = fold apply_entry entries (zone_records z)\<rparr>"

fun entry_updates :: "diff_entry \<Rightarrow> update_entry list" where
  "entry_updates (DiffAdded rr) = [AddRecord rr]"
| "entry_updates (DiffRemoved rr) = [DeleteRecord rr]"
| "entry_updates (TtlChanged rr old _) =
     [DeleteRecord \<lparr>rr_name = rr_name rr, rr_class = rr_class rr, rr_ttl = old, rr_rdata = rr_rdata rr\<rparr>,
      AddRecord rr]"

definition to_updates :: "diff_entry list \<Rightarrow> update_entry list" where
  "to_updates entries = concat (map entry_updates entries)"

section \<open>Display\<close>

fun rdata_type_label :: "'n record_data \<Rightarrow> string" where
  "rdata_type_label (RD_A _) = ''A''"
| "rdata_type_label (RD_Aaaa _) = ''AAAA''"
| "rdata_type_label (RD_Cname _) = ''CNAME''"
| "rdata_type_label (RD_Ns _) = ''NS''"
| "rdata_type_label (RD_Ptr _) = ''PTR''"
| "rdata_type_label (RD_Soa _ _ _ _ _ _ _) = ''SOA''"
| "rdata_type_label (RD_Mx _ _) = ''MX''"
| "rdata_type_label (RD_Txt _) = ''TXT''"
| "rdata_type_label (RD_Srv _ _ _ _) = ''SRV''"
| "rdata_type_label (RD_Caa _ _ _) = ''CAA''"
| "rdata_type_label (RD_Dnskey _ _ _ _) = ''DNSKEY''"
| "rdata_type_label (RD_Rrsig _ _ _ _ _ _ _ _ _) = ''RRSIG''"
| "rdata_type_label (RD_Nsec _ _) = ''NSEC''"
| "rdata_type_label (RD_Nsec3 _ _ _ _ _ _) = ''NSEC3''"
| "rdata_type_label (RD_Ds _ _ _ _) = ''DS''"
| "rdata_type_label (RD_Cds _ _ _ _) = ''CDS''"
| "rdata_type_label (RD_Cdnskey _ _ _ _) = ''CDNSKEY''"
| "rdata_type_label (RD_Tlsa _ _ _ _) = ''TLSA''"
| "rdata_type_label (RD_Sshfp _ _ _) = ''SSHFP''"
| "rdata_type_label (RD_Csync _ _ _) = ''CSYNC''"
| "rdata_type_label (RD_Rp _ _) = ''RP''"
| "rdata_type_label (RD_Nsec3param _ _ _ _) = ''NSEC3PARAM''"
| "rdata_type_label (RD_Dlv _ _ _ _) = ''DLV''"
| "rdata_type_label (RD_Unknown _ _) = ''UNKNOWN''"

definition ttl_display :: "ttl \<Rightarrow> string" where
  "ttl_display t = show_nat (unat (ttl_value t))"

fun diff_entry_display :: "diff_entry \<Rightarrow> string" where
  "diff_entry_display (DiffAdded rr) = ''+ '' @ name_display (rr_name rr) @ '' '' @ ttl_display (rr_ttl rr)
     @ '' '' @ class_display (rr_class rr) @ '' '' @ rdata_type_label (rr_rdata rr) @ newline"
| "diff_entry_display (DiffRemoved rr) = ''- '' @ name_display (rr_name rr) @ '' '' @ ttl_display (rr_ttl rr)
     @ '' '' @ class_display (rr_class rr) @ '' '' @ rdata_type_label (rr_rdata rr) @ newline"
| "diff_entry_display (TtlChanged rr old new) = ''~ '' @ name_display (rr_name rr) @ '' ''
     @ ttl_display old @ ''->'' @ ttl_display new @ '' '' @ class_display (rr_class rr) @ '' ''
     @ rdata_type_label (rr_rdata rr) @ newline"

definition diff_display :: "diff_entry list \<Rightarrow> string" where
  "diff_display entries =
     (if entries = [] then ''(no changes)'' else concat (map diff_entry_display entries))"

section \<open>Identity\<close>

interpretation identity: eq_contract same_identity
  by unfold_locales
     (auto simp: same_identity_def name_class.eq_refl rdata_class.eq_refl
       intro: name_class.eq_sym rdata_class.eq_sym name_class.eq_trans rdata_class.eq_trans)

lemma same_identity_soa: "same_identity a b \<Longrightarrow> is_soa a = is_soa b"
  by (auto simp: same_identity_def is_soa_def dest: rdata_eq_soa)

lemma same_identity_ttl [simp]:
  "same_identity (a\<lparr>rr_ttl := t\<rparr>) b = same_identity a b"
  "same_identity b (a\<lparr>rr_ttl := t\<rparr>) = same_identity b a"
  by (simp_all add: same_identity_def)

lemma is_soa_ttl [simp]: "is_soa (a\<lparr>rr_ttl := t\<rparr>) = is_soa a"
  by (simp add: is_soa_def)

lemma rr_eq_identity: "rr_eq a b \<longleftrightarrow> same_identity a b \<and> rr_ttl a = rr_ttl b"
  by (auto simp: rr_eq_def same_identity_def)

text \<open>Lists without two records of the same identity, and the TTL such a list assigns to one.\<close>

definition unique_identities :: "resource_record list \<Rightarrow> bool" where
  "unique_identities rrs \<longleftrightarrow> distinct rrs \<and> pairwise (\<lambda>a b. \<not> same_identity a b) (set rrs)"

fun ttl_of :: "resource_record list \<Rightarrow> resource_record \<Rightarrow> ttl option" where
  "ttl_of [] k = None"
| "ttl_of (r # rrs) k = (if same_identity r k then Some (rr_ttl r) else ttl_of rrs k)"

lemma unique_Cons:
  "unique_identities (r # rrs) \<longleftrightarrow> (\<forall>x \<in> set rrs. \<not> same_identity x r) \<and> unique_identities rrs"
  using identity.eq_refl [of r] identity.eq_commute
  by (auto simp: unique_identities_def pairwise_insert)

lemma ttl_of_None: "ttl_of rrs k = None \<longleftrightarrow> (\<forall>x \<in> set rrs. \<not> same_identity x k)"
  by (induction rrs) auto

lemma ttl_of_mem: "unique_identities rrs \<Longrightarrow> r \<in> set rrs \<Longrightarrow> ttl_of rrs r = Some (rr_ttl r)"
  by (induction rrs) (auto simp: unique_Cons identity.eq_refl dest: identity.eq_sym)

lemma ttl_of_class: "same_identity a b \<Longrightarrow> ttl_of rrs a = ttl_of rrs b"
  by (induction rrs) (auto dest: identity.eq_class_left)

lemma ttl_of_Some: "ttl_of rrs k = Some t \<Longrightarrow> \<exists>x \<in> set rrs. same_identity x k \<and> rr_ttl x = t"
  by (induction rrs) (auto split: if_splits)

lemma ttl_of_iff:
  assumes "unique_identities rrs"
  shows "ttl_of rrs k = Some (rr_ttl k) \<longleftrightarrow> (\<exists>x \<in> set rrs. rr_eq x k)"
proof
  assume "ttl_of rrs k = Some (rr_ttl k)"
  from ttl_of_Some [OF this] show "\<exists>x \<in> set rrs. rr_eq x k"
    by (auto simp: rr_eq_identity)
next
  assume "\<exists>x \<in> set rrs. rr_eq x k"
  then obtain x where "x \<in> set rrs" "same_identity x k" "rr_ttl x = rr_ttl k"
    by (auto simp: rr_eq_identity)
  with ttl_of_mem [OF assms] ttl_of_class show "ttl_of rrs k = Some (rr_ttl k)" by metis
qed

section \<open>The effect of an entry\<close>

lemma ttl_of_append: "ttl_of (xs @ ys) k = (case ttl_of xs k of Some t \<Rightarrow> Some t | None \<Rightarrow> ttl_of ys k)"
  by (induction xs) auto

lemma unique_snoc: "unique_identities xs \<Longrightarrow> ttl_of xs r = None \<Longrightarrow> unique_identities (xs @ [r])"
proof (induction xs)
  case (Cons x xs)
  then show ?case
    by (auto simp: unique_Cons ttl_of_None split: if_splits dest: identity.eq_sym)
qed (simp add: unique_identities_def)

lemma remove_first_effect:
  assumes "unique_identities xs"
  shows "unique_identities (remove_first (\<lambda>x. same_identity x r) xs)
    \<and> ttl_of (remove_first (\<lambda>x. same_identity x r) xs) k = (if same_identity r k then None else ttl_of xs k)"
  using assms
proof (induction xs)
  case (Cons x xs)
  have sub: "set (remove_first p ys) \<subseteq> set ys" for p and ys :: "resource_record list"
    by (induction ys) auto
  show ?case
  proof (cases "same_identity x r")
    case True
    with Cons.prems identity.eq_class [OF True, of k] have "same_identity r k \<Longrightarrow> ttl_of xs k = None"
      unfolding ttl_of_None unique_Cons by (metis identity.eq_sym identity.eq_trans)
    with True Cons.prems identity.eq_class [OF True, of k] show ?thesis
      by (auto simp: unique_Cons)
  next
    case False
    then have "same_identity r k \<Longrightarrow> \<not> same_identity x k"
      using identity.eq_sym identity.eq_trans by blast
    with False Cons sub show ?thesis by (auto simp: unique_Cons)
  qed
qed (simp add: unique_identities_def)

lemma update_first_effect:
  assumes "unique_identities xs"
  shows "unique_identities (update_first (\<lambda>x. same_identity x r) (\<lambda>x. x\<lparr>rr_ttl := t\<rparr>) xs)
    \<and> ttl_of (update_first (\<lambda>x. same_identity x r) (\<lambda>x. x\<lparr>rr_ttl := t\<rparr>) xs) k
      = (if same_identity r k \<and> ttl_of xs k \<noteq> None then Some t else ttl_of xs k)"
  using assms
proof (induction xs)
  case (Cons x xs)
  have sub: "\<exists>z \<in> set ys. same_identity y w = same_identity z w"
    if "y \<in> set (update_first (\<lambda>x. same_identity x r) (\<lambda>x. x\<lparr>rr_ttl := t\<rparr>) ys)" for y w ys
    using that by (induction ys) (auto split: if_splits)
  show ?case
  proof (cases "same_identity x r")
    case True
    with Cons.prems identity.eq_class [OF True, of k] show ?thesis
      by (auto simp: unique_Cons)
  next
    case False
    then have "same_identity r k \<Longrightarrow> \<not> same_identity x k"
      using identity.eq_sym identity.eq_trans by blast
    with False Cons sub show ?thesis by (fastforce simp: unique_Cons)
  qed
qed (simp add: unique_identities_def)

section \<open>Applying a diff\<close>

text \<open>Entries about records other than SOA leave the SOA records alone.\<close>

fun entry_record :: "diff_entry \<Rightarrow> resource_record" where
  "entry_record (DiffAdded rr) = rr"
| "entry_record (DiffRemoved rr) = rr"
| "entry_record (TtlChanged rr _ _) = rr"

lemma filter_remove_first:
  "(\<And>x. q x \<Longrightarrow> p x) \<Longrightarrow> filter p (remove_first q xs) = remove_first q (filter p xs)"
  by (induction xs) auto

lemma filter_remove_first_other:
  "(\<And>x. q x \<Longrightarrow> \<not> p x) \<Longrightarrow> filter p (remove_first q xs) = filter p xs"
  by (induction xs) auto

lemma filter_update_first:
  "(\<And>x. q x \<Longrightarrow> p x) \<Longrightarrow> (\<And>x. p (f x) = p x)
     \<Longrightarrow> filter p (update_first q f xs) = update_first q f (filter p xs)"
  by (induction xs) auto

lemma filter_update_first_other:
  "(\<And>x. q x \<Longrightarrow> \<not> p x) \<Longrightarrow> (\<And>x. p (f x) = p x)
     \<Longrightarrow> filter p (update_first q f xs) = filter p xs"
  by (induction xs) auto

lemma apply_entry_filter:
  assumes "\<not> is_soa (entry_record e)"
  shows "filter (\<lambda>rr. \<not> is_soa rr) (apply_entry e rrs) = apply_entry e (filter (\<lambda>rr. \<not> is_soa rr) rrs)"
    and "filter is_soa (apply_entry e rrs) = filter is_soa rrs"
  using assms same_identity_soa
  by (cases e; force simp: filter_remove_first filter_remove_first_other filter_update_first
      filter_update_first_other)+

lemma apply_entries_filter:
  assumes "\<forall>e \<in> set es. \<not> is_soa (entry_record e)"
  shows "filter (\<lambda>rr. \<not> is_soa rr) (fold apply_entry es rrs)
      = fold apply_entry es (filter (\<lambda>rr. \<not> is_soa rr) rrs)"
    and "filter is_soa (fold apply_entry es rrs) = filter is_soa rrs"
  using assms by (induction es arbitrary: rrs) (auto simp: apply_entry_filter)

lemma diff_records_non_soa:
  "e \<in> set (zone_diff old new) \<Longrightarrow> \<not> is_soa (entry_record e)"
  by (auto simp: zone_diff_def diff_new_record_def diff_old_record_def non_soa_records_def
      split: option.splits if_splits)

lemma find_ttl_of:
  "List.find (\<lambda>x. same_identity x r) xs = None \<longleftrightarrow> ttl_of xs r = None"
  "List.find (\<lambda>x. same_identity x r) xs = Some x \<Longrightarrow> ttl_of xs r = Some (rr_ttl x)"
  by (induction xs) (auto split: if_splits)

text \<open>Pass 1, from any list that agrees with the old zone on the records still to come.\<close>

lemma pass_one:
  assumes "unique_identities news" "unique_identities cur"
    and "\<forall>r \<in> set news. ttl_of cur r = ttl_of old r"
  defines "result \<equiv> fold apply_entry (concat (map (diff_new_record old) news)) cur"
  shows "unique_identities result
    \<and> (\<forall>k. ttl_of result k = (case ttl_of news k of Some t \<Rightarrow> Some t | None \<Rightarrow> ttl_of cur k))"
  using assms(1-3) unfolding result_def
proof (induction news arbitrary: cur)
  case (Cons r news)
  let ?cur = "fold apply_entry (diff_new_record old r) cur"
  have step: "unique_identities ?cur \<and> (\<forall>k. ttl_of ?cur k
      = (if same_identity r k then Some (rr_ttl r) else ttl_of cur k))"
  proof (cases "List.find (\<lambda>x. same_identity x r) old")
    case None
    then have "ttl_of cur r = None" using Cons.prems(3) find_ttl_of(1) by simp
    with Cons.prems(2) ttl_of_class [of r _ cur] show ?thesis
      by (auto simp: diff_new_record_def None unique_snoc ttl_of_append split: option.splits)
  next
    case (Some o')
    then have old: "ttl_of cur r = Some (rr_ttl o')" using Cons.prems(3) find_ttl_of(2) by simp
    show ?thesis
    proof (cases "rr_ttl o' = rr_ttl r")
      case True
      with Some old Cons.prems(2) ttl_of_class [of r _ cur] show ?thesis
        by (simp add: diff_new_record_def)
    next
      case False
      have "same_identity r k \<Longrightarrow> ttl_of cur k = Some (rr_ttl o')" for k
        using old ttl_of_class [of r k cur] by simp
      with False Some update_first_effect [OF Cons.prems(2)] show ?thesis
        by (auto simp: diff_new_record_def)
    qed
  qed
  have "\<forall>x \<in> set news. ttl_of ?cur x = ttl_of old x"
    using Cons.prems(1,3) step identity.eq_sym by (auto simp: unique_Cons)
  with Cons.IH [of ?cur] Cons.prems(1) step
  have "unique_identities (fold apply_entry (concat (map (diff_new_record old) news)) ?cur)
    \<and> (\<forall>k. ttl_of (fold apply_entry (concat (map (diff_new_record old) news)) ?cur) k
        = (case ttl_of news k of Some t \<Rightarrow> Some t | None \<Rightarrow> ttl_of ?cur k))"
    by (simp add: unique_Cons)
  moreover have "same_identity r k \<Longrightarrow> ttl_of news k = None" for k
  proof -
    have "ttl_of news r = None" using Cons.prems(1) by (simp add: unique_Cons ttl_of_None)
    then show "same_identity r k \<Longrightarrow> ttl_of news k = None"
      using ttl_of_class [of r k news] by simp
  qed
  ultimately show ?case using step by (auto split: option.splits)
qed simp

text \<open>Pass 2 removes the records of the old zone that the new one has not.\<close>

lemma pass_two:
  fixes new olds :: "resource_record list"
  assumes "unique_identities cur"
  defines "result \<equiv> fold apply_entry (concat (map (diff_old_record new) olds)) cur"
  shows "unique_identities result
    \<and> (\<forall>k. ttl_of result k = (if ttl_of new k = None \<and> ttl_of olds k \<noteq> None then None else ttl_of cur k))"
  using assms(1) unfolding result_def
proof (induction olds arbitrary: cur)
  case (Cons r olds)
  have ex: "list_ex (\<lambda>x. same_identity x r) new \<longleftrightarrow> ttl_of new r \<noteq> None"
    unfolding ttl_of_None by (auto simp: list_ex_iff)
  have cls: "same_identity r k \<Longrightarrow> ttl_of new r = ttl_of new k" for k by (rule ttl_of_class)
  show ?case
  proof (cases "ttl_of new r = None")
    case True
    let ?cur = "remove_first (\<lambda>x. same_identity x r) cur"
    from True ex have "fold apply_entry (diff_old_record new r) cur = ?cur"
      by (simp add: diff_old_record_def)
    moreover note remove_first_effect [OF Cons.prems, of r]
    ultimately show ?thesis
      using Cons.IH [of ?cur] True cls by (auto split: if_splits)
  next
    case False
    with ex have "diff_old_record new r = []" by (simp add: diff_old_record_def)
    moreover have "ttl_of new k = None \<Longrightarrow> \<not> same_identity r k" for k
      using False cls by metis
    ultimately show ?thesis using Cons.IH [OF Cons.prems] by auto
  qed
qed simp

lemma apply_zone_diff:
  assumes "unique_identities (non_soa_records old)" "unique_identities (non_soa_records new)"
  defines "result \<equiv> apply_diff old (zone_diff old new)"
  shows "unique_identities (non_soa_records result)"
    and "ttl_of (non_soa_records result) k = ttl_of (non_soa_records new) k"
    and "filter is_soa (zone_records result) = filter is_soa (zone_records old)"
proof -
  let ?o = "non_soa_records old" and ?n = "non_soa_records new"
  let ?c = "fold apply_entry (concat (map (diff_new_record ?o) ?n)) ?o"
  have non_soa: "\<forall>e \<in> set (zone_diff old new). \<not> is_soa (entry_record e)"
    using diff_records_non_soa by blast
  have r: "non_soa_records result = fold apply_entry (concat (map (diff_old_record ?n) ?o)) ?c"
    using apply_entries_filter(1) [OF non_soa, of "zone_records old"]
    by (simp add: result_def apply_diff_def zone_diff_def flip: non_soa_records_def)
      (simp add: non_soa_records_def)
  note one = pass_one [OF assms(2,1), of ?o]
  note two = pass_two [of ?c ?n ?o]
  from one two show "unique_identities (non_soa_records result)" unfolding r by simp
  from one two show "ttl_of (non_soa_records result) k = ttl_of ?n k"
    unfolding r by (auto split: option.splits)
  show "filter is_soa (zone_records result) = filter is_soa (zone_records old)"
    using apply_entries_filter(2) [OF non_soa] by (simp add: result_def apply_diff_def)
qed

lemma entry_updates_about:
  assumes "u \<in> set (entry_updates e)"
  shows "\<exists>rr. (u = AddRecord rr \<or> u = DeleteRecord rr) \<and> same_identity (entry_record e) rr"
proof (cases e)
  case (DiffAdded rr)
  with assms show ?thesis using identity.eq_refl [of rr] by auto
next
  case (DiffRemoved rr)
  with assms show ?thesis using identity.eq_refl [of rr] by auto
next
  case (TtlChanged rr t t')
  let ?old = "\<lparr>rr_name = rr_name rr, rr_class = rr_class rr, rr_ttl = t, rr_rdata = rr_rdata rr\<rparr>"
  have "same_identity rr ?old"
    by (simp add: same_identity_def name_class.eq_refl rdata_class.eq_refl)
  with TtlChanged assms show ?thesis using identity.eq_refl [of rr] by auto
qed

section \<open>Properties\<close>

text \<open>
  C18: Applying the diff of two zones to the old one gives the new one: for zones that do not
  list a record twice, the result has, outside the SOA, exactly the records of the new zone
  (name, class, data and TTL, compared by \<open>PartialEq\<close>), each once, and the SOA records of the
  old zone unchanged.
\<close>

theorem apply_diff_of_diff:
  assumes "unique_identities (non_soa_records old)" "unique_identities (non_soa_records new)"
  shows "((\<exists>x \<in> set (non_soa_records (apply_diff old (zone_diff old new))). rr_eq x rr)
      \<longleftrightarrow> (\<exists>x \<in> set (non_soa_records new). rr_eq x rr))
    \<and> unique_identities (non_soa_records (apply_diff old (zone_diff old new)))
    \<and> filter is_soa (zone_records (apply_diff old (zone_diff old new))) = filter is_soa (zone_records old)"
  using apply_zone_diff [OF assms] ttl_of_iff assms(2) by metis

text \<open>
  The diff of two such zones is empty exactly when they have the same records outside the
  SOA.
\<close>

lemma zone_diff_empty_iff:
  assumes "unique_identities (non_soa_records old)" "unique_identities (non_soa_records new)"
  shows "zone_diff old new = [] \<longleftrightarrow>
    (\<forall>rr. (\<exists>x \<in> set (non_soa_records old). rr_eq x rr) \<longleftrightarrow> (\<exists>x \<in> set (non_soa_records new). rr_eq x rr))"
proof
  assume "zone_diff old new = []"
  then have "non_soa_records (apply_diff old (zone_diff old new)) = non_soa_records old"
    by (simp add: apply_diff_def non_soa_records_def)
  with apply_zone_diff(2) [OF assms] show "\<forall>rr. (\<exists>x \<in> set (non_soa_records old). rr_eq x rr)
      \<longleftrightarrow> (\<exists>x \<in> set (non_soa_records new). rr_eq x rr)"
    using ttl_of_iff [OF assms(1)] ttl_of_iff [OF assms(2)] by metis
next
  let ?o = "non_soa_records old" and ?n = "non_soa_records new"
  assume same: "\<forall>rr. (\<exists>x \<in> set ?o. rr_eq x rr) \<longleftrightarrow> (\<exists>x \<in> set ?n. rr_eq x rr)"
  have "diff_new_record ?o r = []" if "r \<in> set ?n" for r
  proof -
    have "ttl_of ?o r = Some (rr_ttl r)"
      using same that ttl_of_iff [OF assms(1)] rr_class_eq.eq_refl by blast
    then show ?thesis
      using find_ttl_of [of r ?o]
      by (cases "List.find (\<lambda>x. same_identity x r) ?o") (auto simp: diff_new_record_def)
  qed
  moreover have "diff_old_record ?n r = []" if "r \<in> set ?o" for r
  proof -
    from that rr_class_eq.eq_refl have "\<exists>x \<in> set ?o. rr_eq x r" by blast
    with same have "\<exists>x \<in> set ?n. rr_eq x r" by blast
    then obtain x where "x \<in> set ?n" "same_identity x r" by (auto simp: rr_eq_identity)
    then show ?thesis by (auto simp: diff_old_record_def list_ex_iff)
  qed
  ultimately show "zone_diff old new = []" by (simp add: zone_diff_def)
qed

text \<open>The update operations of a diff are about non-SOA records of the two zones.\<close>

lemma diff_updates_spare_soa:
  assumes "u \<in> set (to_updates (zone_diff old new))"
  shows "\<exists>rr. (u = AddRecord rr \<or> u = DeleteRecord rr) \<and> \<not> is_soa rr
    \<and> (\<exists>x \<in> set (zone_records old) \<union> set (zone_records new). same_identity x rr)"
proof -
  from assms obtain e where e: "e \<in> set (zone_diff old new)" and u: "u \<in> set (entry_updates e)"
    by (auto simp: to_updates_def)
  have "entry_record e \<in> set (zone_records old) \<union> set (zone_records new)"
    using e by (auto simp: zone_diff_def diff_new_record_def diff_old_record_def non_soa_records_def
        split: option.splits if_splits)
  moreover from u obtain rr where "u = AddRecord rr \<or> u = DeleteRecord rr"
    and rr: "same_identity (entry_record e) rr"
    using entry_updates_about by blast
  ultimately show ?thesis
    using diff_records_non_soa [OF e] same_identity_soa [OF rr] by blast
qed

text \<open>Two small zones, for the witnesses.\<close>

definition sample_zone :: "u32 \<Rightarrow> ipv4 \<Rightarrow> zone" where
  "sample_zone ttl address =
     \<lparr>zone_name = domain_root, zone_class = IN,
      zone_records = [\<lparr>rr_name = domain_root, rr_class = IN, rr_ttl = Ttl ttl, rr_rdata = RD_A address\<rparr>]\<rparr>"

lemma sample_zone_unique: "unique_identities (non_soa_records (sample_zone ttl address))"
  by (simp add: sample_zone_def non_soa_records_def is_soa_def unique_identities_def)

theorem apply_diff_of_diff_witness:
  "let z = apply_diff (sample_zone 60 1) (zone_diff (sample_zone 60 1) (sample_zone 30 1)) in
    \<exists>x \<in> set (non_soa_records z). rr_eq x (hd (zone_records (sample_zone 30 1)))"
  unfolding Let_def
  using apply_diff_of_diff [OF sample_zone_unique sample_zone_unique, of 60 1 30 1
      "hd (zone_records (sample_zone 30 1))"] rr_class_eq.eq_refl
  by (simp add: sample_zone_def non_soa_records_def is_soa_def)

lemma zone_diff_empty_iff_witness: "zone_diff (sample_zone 60 1) (sample_zone 60 1) = []"
  using zone_diff_empty_iff [OF sample_zone_unique sample_zone_unique, of 60 1 60 1] by blast

text \<open>
  Replacing an address by a CNAME: the operations add the CNAME before they delete the
  address. A server that follows RFC 2136 (3.4.2.2) ignores the addition, because the name
  still has other data, and then deletes the address.
\<close>

lemma diff_adds_before_deletes:
  "let a = \<lparr>rr_name = domain_root, rr_class = IN, rr_ttl = Ttl 60, rr_rdata = RD_A 1\<rparr>;
       c = \<lparr>rr_name = domain_root, rr_class = IN, rr_ttl = Ttl 60, rr_rdata = RD_Cname domain_root\<rparr>;
       old = \<lparr>zone_name = domain_root, zone_class = IN, zone_records = [a]\<rparr>;
       new = \<lparr>zone_name = domain_root, zone_class = IN, zone_records = [c]\<rparr>
   in to_updates (zone_diff old new) = [AddRecord c, DeleteRecord a]"
  by (simp add: Let_def to_updates_def zone_diff_def non_soa_records_def is_soa_def diff_new_record_def
      diff_old_record_def same_identity_def rdata_eq_def)

end
