(* ===== verification/Dnssec_Util.thy ===== *)
theory Dnssec_Util
  imports Update_Message
begin

text \<open>
  \<open>dnssec.rs\<close>: key tags, the digest that a CDS record carries, and the sentinel that asks the
  parent to remove the delegation. The hash functions (crate \<open>sha2\<close>) are a parameter.
\<close>

section \<open>Key tags\<close>

definition dnskey_octets :: "u16 \<Rightarrow> u8 \<Rightarrow> u8 \<Rightarrow> byte list \<Rightarrow> byte list" where
  "dnskey_octets flags protocol algorithm public_key =
     u16_be flags @ [protocol, algorithm] @ public_key"

text \<open>The loop over \<open>rdata.iter().enumerate()\<close>: the index, the octets left, the accumulator.\<close>

fun key_tag_sum :: "nat \<Rightarrow> byte list \<Rightarrow> u32 \<Rightarrow> u32" where
  "key_tag_sum i [] ac = ac"
| "key_tag_sum i (b # bs) ac =
     key_tag_sum (i + 1) bs (ac + (if i mod 2 = 0 then push_bit 8 (ucast b) else ucast b))"

definition compute_key_tag :: "u16 \<Rightarrow> u8 \<Rightarrow> u8 \<Rightarrow> byte list \<Rightarrow> u16" where
  "compute_key_tag flags protocol algorithm public_key =
     (let ac = key_tag_sum 0 (dnskey_octets flags protocol algorithm public_key) 0;
          ac = ac + (drop_bit 16 ac AND 0xFFFF)
      in ucast (ac AND 0xFFFF))"

section \<open>CDS records\<close>

datatype digest_type = Sha256 | Sha384

fun digest_type_value :: "digest_type \<Rightarrow> u8" where
  "digest_type_value Sha256 = 2"
| "digest_type_value Sha384 = 4"

definition cds_digest_input :: "domain_name \<Rightarrow> u16 \<Rightarrow> u8 \<Rightarrow> u8 \<Rightarrow> byte list \<Rightarrow> byte list" where
  "cds_digest_input owner flags protocol algorithm public_key =
     write_wire owner @ dnskey_octets flags protocol algorithm public_key"

definition from_dnskey ::
  "(digest_type \<Rightarrow> byte list \<Rightarrow> byte list) \<Rightarrow> domain_name \<Rightarrow> rdata \<Rightarrow> digest_type \<Rightarrow> core_error + rdata" where
  "from_dnskey hash owner dnskey dt =
     (case dnskey of
        RD_Dnskey flags protocol algorithm public_key \<Rightarrow>
          Inr (RD_Cds (compute_key_tag flags protocol algorithm public_key) algorithm
                 (digest_type_value dt)
                 (hash dt (cds_digest_input owner flags protocol algorithm public_key)))
      | _ \<Rightarrow> Inl (InvalidRecord ''expected DNSKEY record''))"

definition delete_sentinel :: rdata where
  "delete_sentinel = RD_Cds 0 0 0 [0x00]"

section \<open>The accumulator\<close>

text \<open>
  The sum of RFC 4034, Appendix B, over the naturals: octets at even positions are the high
  halves of 16-bit words.
\<close>

fun rfc4034_sum :: "byte list \<Rightarrow> nat" where
  "rfc4034_sum (hi # lo # bs) = (unat hi * 256 + unat lo) + rfc4034_sum bs"
| "rfc4034_sum [hi] = unat hi * 256"
| "rfc4034_sum [] = 0"

lemma rfc4034_sum_bound: "rfc4034_sum bs \<le> length bs * 65280"
proof (induction bs rule: rfc4034_sum.induct)
  case (1 hi lo bs)
  have "unat hi \<le> 255" "unat lo \<le> 255" using unat_byte_less [of hi] unat_byte_less [of lo] by linarith+
  with 1 show ?case by simp
next
  case (2 hi)
  have "unat hi \<le> 255" using unat_byte_less [of hi] by linarith
  then show ?case by simp
qed simp

lemma unat_low_octet: "unat (ucast (b :: byte) :: u32) = unat b"
proof -
  have "unat (ucast b :: u32) = unat b mod 2 ^ 32"
    by (simp only: unsigned_ucast_eq) (simp add: take_bit_eq_mod)
  moreover have "unat b < 2 ^ 32" by (rule less_le_trans [OF unat_byte_less]) simp
  ultimately show ?thesis by simp
qed

lemma unat_high_octet: "unat (push_bit 8 (ucast (b :: byte)) :: u32) = unat b * 256"
proof -
  have "unat (ucast b :: u32) = unat b" by (rule unat_low_octet)
  moreover have "unat b * 256 < 4294967296" using unat_byte_less [of b] by linarith
  ultimately show ?thesis
    by (simp only: unsigned_push_bit_eq) (simp add: push_bit_eq_mult take_bit_eq_mod)
qed

text \<open>Without a carry out of 32 bits the loop computes exactly that sum.\<close>

lemma key_tag_sum_exact:
  "even i \<Longrightarrow> unat ac + rfc4034_sum bs < 2 ^ 32 \<Longrightarrow>
     unat (key_tag_sum i bs ac) = unat ac + rfc4034_sum bs"
proof (induction bs arbitrary: i ac rule: rfc4034_sum.induct)
  case (1 hi lo bs)
  let ?a = "ac + push_bit 8 (ucast hi)"
  let ?b = "?a + ucast lo"
  have a: "unat ?a = unat ac + unat hi * 256"
    using 1(3) unat_high_octet [of hi] by (subst unat_add_lem [THEN iffD1]) simp_all
  then have b: "unat ?b = unat ac + (unat hi * 256 + unat lo)"
    using 1(3) unat_low_octet [of lo] by (subst unat_add_lem [THEN iffD1]) simp_all
  have "unat (key_tag_sum (i + 2) bs ?b) = unat ?b + rfc4034_sum bs"
    by (rule 1(1)) (use 1(2,3) b in simp_all)
  moreover have "key_tag_sum i (hi # lo # bs) ac = key_tag_sum (i + 2) bs ?b"
    using 1(2) by (simp add: mod2_eq_if)
  ultimately show ?case using b by simp
next
  case (2 hi)
  then show ?case
    using unat_high_octet [of hi] by (simp add: mod2_eq_if unat_add_lem [THEN iffD1])
qed simp

lemma dnskey_octets_encoded:
  "encode_rdata (RD_Dnskey flags protocol algorithm public_key)
     = Inr (dnskey_octets flags protocol algorithm public_key)"
  by (simp add: dnskey_octets_def)

lemma fold_carry:
  fixes ac :: u32
  assumes "unat ac + 65535 < 2 ^ 32"
  shows "unat (ucast ((ac + (drop_bit 16 ac AND 0xFFFF)) AND 0xFFFF) :: u16)
    = (unat ac + unat ac div 65536 mod 65536) mod 65536"
proof -
  have mask: "unat (w AND 0xFFFF) = unat w mod 65536" for w :: u32
  proof -
    have "w AND 0xFFFF = take_bit 16 w" by (simp add: take_bit_eq_mask mask_eq_exp_minus_1)
    moreover have "unat (take_bit 16 w) = take_bit 16 (unat w)" by (simp add: unsigned_take_bit_eq)
    ultimately show ?thesis by (simp only: take_bit_eq_mod) simp
  qed
  have high: "unat (drop_bit 16 ac AND 0xFFFF) = unat ac div 65536 mod 65536"
    by (simp only: mask unat_drop_bit_eq) (simp add: drop_bit_eq_div)
  then have "unat (ac + (drop_bit 16 ac AND 0xFFFF)) = unat ac + unat ac div 65536 mod 65536"
    using assms by (subst unat_add_lem [THEN iffD1]) simp_all
  then show ?thesis
    by (simp only: unsigned_ucast_eq mask) (simp add: take_bit_eq_mod)
qed

lemma octets_canonical_iff:
  "concat (map (\<lambda>l. label_octets (label_wire l)) ls)
     = concat (map (\<lambda>l. word_of_nat (length (label_wire l)) # map lower_byte (label_wire l)) ls)
   \<longleftrightarrow> (\<forall>l \<in> set ls. map lower_byte (label_wire l) = label_wire l)"
  by (induction ls) (auto simp: label_octets_def)

lemma wire_canonical_iff:
  "write_wire d = write_wire_canonical d
     \<longleftrightarrow> (\<forall>l \<in> set (labels d). map lower_byte (label_wire l) = label_wire l)"
  by (simp add: write_wire_def write_wire_canonical_def octets_canonical_iff)

section \<open>Properties\<close>

text \<open>
  C19: The key tag of a DNSKEY whose data fits a resource record is the one RFC 4034,
  Appendix B, computes over the data as it is sent: the sum of its 16-bit words (an odd last
  octet counts as a high half) plus its carry, modulo 65536. No addition of the loop wraps.
\<close>

theorem key_tag_rfc4034:
  assumes "encode_rdata (RD_Dnskey flags protocol algorithm public_key) = Inr octets"
    "length octets \<le> 65535"
  shows "unat (compute_key_tag flags protocol algorithm public_key)
      = (rfc4034_sum octets + rfc4034_sum octets div 65536) mod 65536
    \<and> (\<forall>n. unat (key_tag_sum 0 (take n octets) 0) = rfc4034_sum (take n octets)
        \<and> rfc4034_sum (take n octets) + 65535 < 2 ^ 32)"
proof -
  have octets: "dnskey_octets flags protocol algorithm public_key = octets"
    using assms(1) unfolding dnskey_octets_encoded by simp
  have bound: "rfc4034_sum (take n octets) + 65535 < 2 ^ 32" for n
    using rfc4034_sum_bound [of "take n octets"] assms(2) by simp
  have exact: "unat (key_tag_sum 0 (take n octets) 0) = rfc4034_sum (take n octets)" for n
    using key_tag_sum_exact [of 0 0 "take n octets"] bound [of n] by simp
  have "unat (key_tag_sum 0 octets 0) = rfc4034_sum octets"
    using exact [of "length octets"] by simp
  moreover have "rfc4034_sum octets div 65536 < 65536"
    using bound [of "length octets"] by (simp add: less_mult_imp_div_less)
  ultimately show ?thesis
    using fold_carry [of "key_tag_sum 0 octets 0"] bound [of "length octets"] bound exact
    by (simp add: compute_key_tag_def octets Let_def)
qed

text \<open>
  C20: A CDS record names the key by tag and algorithm and carries a digest of the owner name and
  of the DNSKEY data as the update encoder sends it. The hashed octets are those of RFC 4034
  (5.1.4), which begin with the canonical owner name, exactly when the owner is written without
  upper case letters.
\<close>

theorem cds_digest_rfc4034_iff:
  assumes "dnskey = RD_Dnskey flags protocol algorithm public_key" "encode_rdata dnskey = Inr octets"
  shows "\<exists>input. from_dnskey hash owner dnskey dt =
        Inr (RD_Cds (compute_key_tag flags protocol algorithm public_key) algorithm
               (digest_type_value dt) (hash dt input))
    \<and> (input = write_wire_canonical owner @ octets
         \<longleftrightarrow> (\<forall>l \<in> set (labels owner). map lower_byte (label_wire l) = label_wire l))"
proof -
  have "cds_digest_input owner flags protocol algorithm public_key = write_wire_canonical owner @ octets
      \<longleftrightarrow> write_wire owner = write_wire_canonical owner"
    using assms unfolding assms(1) dnskey_octets_encoded by (simp add: cds_digest_input_def)
  then show ?thesis
    unfolding wire_canonical_iff using assms(1) by (auto simp: from_dnskey_def)
qed

text \<open>Two spellings of one owner name give two different digest inputs.\<close>

lemma cds_digest_case_sensitive:
  "\<exists>a b. domain_new ''EXAMPLE.'' = Inr a \<and> domain_new ''example.'' = Inr b \<and> name_eq a b
    \<and> cds_digest_input a flags protocol algorithm key \<noteq> cds_digest_input b flags protocol algorithm key"
proof -
  let ?a = "domain_new ''EXAMPLE.''" and ?b = "domain_new ''example.''"
  have "is_ok ?a" "is_ok ?b" by code_simp+
  then obtain a b where ab: "?a = Inr a" "?b = Inr b" by (auto simp: is_ok_iff)
  have "rbind ?a (\<lambda>a. rmap (\<lambda>b. (name_eq a b, write_wire a = write_wire b)) ?b) = Inr (True, False)"
    by code_simp
  with ab show ?thesis by (auto simp: cds_digest_input_def)
qed

theorem key_tag_rfc4034_witness: "unat (compute_key_tag 257 3 13 [0xAA]) = 44558"
proof -
  have "dnskey_octets 257 3 13 [0xAA] = [1, 1, 3, 13, 0xAA]" by code_simp
  with key_tag_rfc4034 [OF dnskey_octets_encoded, of 257 3 13 "[0xAA]"] show ?thesis by simp
qed

theorem cds_digest_rfc4034_iff_witness:
  "\<exists>input. from_dnskey (\<lambda>_ bs. bs) domain_root (RD_Dnskey 257 3 13 [0xAA]) Sha256 =
        Inr (RD_Cds (compute_key_tag 257 3 13 [0xAA]) 13 2 input)
    \<and> input = write_wire_canonical domain_root @ dnskey_octets 257 3 13 [0xAA]"
  using cds_digest_rfc4034_iff [OF refl dnskey_octets_encoded, of "\<lambda>_ bs. bs" domain_root 257 3 13 "[0xAA]" Sha256]
  by (auto simp: domain_root_def)

end
