(* ===== verification/Security_Policy.thy ===== *)
theory Security_Policy
  imports Tsig_Auth Rdata
begin

text \<open>
  \<open>security.rs\<close>: typed security warnings, their severity, the policies that reject them, and
  the classification of RRSIG records. The current time is an argument, as in the code.
\<close>

section \<open>Severities\<close>

datatype severity = Info | Warning | Critical

text \<open>The derived order: the order of the declaration.\<close>

fun severity_rank :: "severity \<Rightarrow> nat" where
  "severity_rank Info = 0"
| "severity_rank Warning = 1"
| "severity_rank Critical = 2"

lemma severity_rank_inj: "severity_rank s = severity_rank t \<longleftrightarrow> s = t"
  by (cases s; cases t) simp_all

instantiation severity :: linorder
begin

definition less_eq_severity :: "severity \<Rightarrow> severity \<Rightarrow> bool" where
  "less_eq_severity s t \<longleftrightarrow> severity_rank s \<le> severity_rank t"

definition less_severity :: "severity \<Rightarrow> severity \<Rightarrow> bool" where
  "less_severity s t \<longleftrightarrow> severity_rank s < severity_rank t"

instance
  by standard (auto simp: less_eq_severity_def less_severity_def severity_rank_inj)

end

section \<open>Warnings\<close>

text \<open>
  The seconds left are an \<open>i64\<close> in the code. They only arise as the difference of two
  \<open>u32\<close> values, which cannot overflow, so they are an integer here.
\<close>

datatype security_warning =
    DeprecatedTsigAlgorithm tsig_algorithm
  | WeakDnssecAlgorithm u8
  | NearExpiryRrsig u16 u16 int
  | CleartextTransfer

fun warning_severity :: "security_warning \<Rightarrow> severity" where
  "warning_severity (NearExpiryRrsig _ _ seconds_remaining) =
     (if seconds_remaining < 0 then Critical else Warning)"
| "warning_severity (DeprecatedTsigAlgorithm _) = Warning"
| "warning_severity (WeakDnssecAlgorithm _) = Warning"
| "warning_severity CleartextTransfer = Warning"

definition show_int :: "int \<Rightarrow> string" where
  "show_int i = (if i < 0 then ''-'' @ show_nat (nat (- i)) else show_nat (nat i))"

fun warning_message :: "security_warning \<Rightarrow> string" where
  "warning_message (DeprecatedTsigAlgorithm algorithm) =
     ''deprecated TSIG algorithm in use: '' @ dns_name algorithm"
| "warning_message (WeakDnssecAlgorithm algorithm) =
     ''weak or deprecated DNSSEC algorithm '' @ show_nat (unat algorithm) @ '' (RFC 9904)''"
| "warning_message (NearExpiryRrsig covered_type key_tag seconds_remaining) =
     ''RRSIG (type '' @ show_nat (unat covered_type) @ '', key tag '' @ show_nat (unat key_tag)
       @ '') expires in '' @ show_int seconds_remaining @ ''s''"
| "warning_message CleartextTransfer = ''zone transferred over an unencrypted channel''"

section \<open>Policies\<close>

datatype security_policy = Warn | DenyOnWarning | DenyOnCritical

definition default_policy :: security_policy where
  "default_policy = Warn"

fun policy_rejects :: "security_policy \<Rightarrow> severity \<Rightarrow> bool" where
  "policy_rejects Warn severity = False"
| "policy_rejects DenyOnWarning severity = (severity \<ge> Warning)"
| "policy_rejects DenyOnCritical severity = (severity \<ge> Critical)"

section \<open>Algorithms and signatures\<close>

fun tsig_algorithm_is_deprecated :: "tsig_algorithm \<Rightarrow> bool" where
  "tsig_algorithm_is_deprecated HmacSha1 = True"
| "tsig_algorithm_is_deprecated _ = False"

definition dnssec_algorithm_is_weak :: "u8 \<Rightarrow> bool" where
  "dnssec_algorithm_is_weak algorithm \<longleftrightarrow> algorithm \<in> set [1, 3, 5, 6, 7, 12]"

definition weak_names :: "string list" where
  "weak_names = [''RSAMD5'', ''DSA'', ''RSASHA1'', ''DSA-NSEC3-SHA1'', ''NSEC3DSA'',
     ''RSASHA1-NSEC3-SHA1'', ''ECC-GOST'']"

definition dnssec_algorithm_name_is_weak :: "string \<Rightarrow> bool" where
  "dnssec_algorithm_name_is_weak name \<longleftrightarrow>
     list_ex (\<lambda>w. eq_ignore_ascii_case (as_bytes w) (as_bytes name)) weak_names"

definition classify_rrsig :: "rdata \<Rightarrow> u32 \<Rightarrow> u32 \<Rightarrow> security_warning option" where
  "classify_rrsig rd now_unix warn_window_secs =
     (case rd of
        RD_Rrsig covered algorithm _ _ expiration _ tag _ _ \<Rightarrow>
          (if dnssec_algorithm_is_weak algorithm then Some (WeakDnssecAlgorithm algorithm)
           else let seconds_remaining = int (unat expiration) - int (unat now_unix) in
             if seconds_remaining \<le> int (unat warn_window_secs)
             then Some (NearExpiryRrsig covered tag seconds_remaining)
             else None)
      | _ \<Rightarrow> None)"

section \<open>What the policies reject\<close>

lemma severity_order [simp]:
  "Warning \<le> s \<longleftrightarrow> s \<noteq> Info" "Critical \<le> s \<longleftrightarrow> s = Critical"
  by (cases s; simp add: less_eq_severity_def)+

lemma warning_not_info [simp]: "warning_severity w \<noteq> Info"
  by (cases w) simp_all

lemma warning_critical_iff:
  "warning_severity w = Critical \<longleftrightarrow> (\<exists>ty tag s. w = NearExpiryRrsig ty tag s \<and> s < 0)"
  by (cases w) simp_all

lemma rejects_warning:
  "policy_rejects p (warning_severity w) \<longleftrightarrow>
     p = DenyOnWarning \<or> p = DenyOnCritical \<and> warning_severity w = Critical"
  by (cases p) simp_all

lemma seconds_left:
  fixes a b c :: u32
  shows "uint a - uint b \<le> uint c \<longleftrightarrow> unat a \<le> unat b + unat c" "uint a < uint b \<longleftrightarrow> unat a < unat b"
  by (auto simp: uint_nat simp del: of_nat_unat)

text \<open>Names of weak algorithms, up to case.\<close>

lemma name_is_weak_iff:
  "dnssec_algorithm_name_is_weak name \<longleftrightarrow>
     (\<exists>w \<in> set weak_names. map lower_byte (as_bytes w) = map lower_byte (as_bytes name))"
  by (simp add: dnssec_algorithm_name_is_weak_def eq_ignore_ascii_case_iff list_ex_iff)

section \<open>Properties\<close>

text \<open>
  What a policy does with an RRSIG record: under \<open>DenyOnWarning\<close> it rejects the records
  with a weak algorithm and those that expire within the window; under \<open>DenyOnCritical\<close> those
  that have expired, provided their algorithm is not weak; under \<open>Warn\<close> none. Other records
  raise no warning.
\<close>

lemma policy_on_rrsig:
  "(\<exists>w. classify_rrsig rd now window = Some w \<and> policy_rejects p (warning_severity w))
    \<longleftrightarrow> (\<exists>ty alg lb ot exp inc tag sn sig. rd = RD_Rrsig ty alg lb ot exp inc tag sn sig
        \<and> (case p of
             Warn \<Rightarrow> False
           | DenyOnWarning \<Rightarrow> dnssec_algorithm_is_weak alg \<or> unat exp \<le> unat now + unat window
           | DenyOnCritical \<Rightarrow> \<not> dnssec_algorithm_is_weak alg \<and> exp < now))"
  by (cases rd)
     (auto simp: classify_rrsig_def rejects_warning Let_def word_less_nat_alt seconds_left
       split: security_policy.splits)

text \<open>
  In particular an expired signature with a weak algorithm passes \<open>DenyOnCritical\<close>, which
  rejects the same signature with a strong one.
\<close>

lemma weak_algorithm_hides_expiry:
  "let rd = \<lambda>alg. RD_Rrsig 1 alg 2 3600 3600 0 12345 domain_root [1] :: rdata;
       rejected = \<lambda>alg. (case classify_rrsig (rd alg) 7200 86400 of
         None \<Rightarrow> False | Some w \<Rightarrow> policy_rejects DenyOnCritical (warning_severity w))
   in rejected 13 \<and> \<not> rejected 5"
  by (simp add: classify_rrsig_def dnssec_algorithm_is_weak_def)

text \<open>
  The expiration time is compared as a plain number. RFC 4034 (3.1.5) compares it in
  serial number arithmetic; a signature whose expiration lies just past the wrap of the 32 bit
  clock is still valid and is classified as expired, which is critical.
\<close>

lemma rrsig_expiry_ignores_wrap:
  "serial_partial_cmp (Serial 4294967295) (Serial 100) = Some Less
    \<and> classify_rrsig (RD_Rrsig 1 13 2 3600 100 0 12345 domain_root [1]) 4294967295 60
        = Some (NearExpiryRrsig 1 12345 (- 4294967195))
    \<and> warning_severity (NearExpiryRrsig 1 12345 (- 4294967195)) = Critical"
  by (simp add: classify_rrsig_def dnssec_algorithm_is_weak_def serial_partial_cmp_def)

end
