(* ===== verification/Ordered_Map.thy ===== *)
theory Ordered_Map
  imports Prelude "HOL-Library.Char_ord" "HOL-Library.List_Lexorder"
begin

text \<open>
  \<open>BTreeMap\<close>: an association list in ascending order of its keys, with the operations the code
  uses (\<open>insert\<close>, \<open>get\<close> and iteration). Strings are ordered by their bytes, as in the standard
  library. The locale \<open>ordered_map\<close> is the contract the clients rely on.
\<close>

type_synonym ('k, 'v) btree = "('k \<times> 'v) list"

fun btree_insert :: "'k::linorder \<Rightarrow> 'v \<Rightarrow> ('k, 'v) btree \<Rightarrow> ('k, 'v) btree" where
  "btree_insert k v [] = [(k, v)]"
| "btree_insert k v ((k', v') # m) =
     (if k < k' then (k, v) # (k', v') # m
      else if k = k' then (k, v) # m
      else (k', v') # btree_insert k v m)"

definition btree_get :: "('k, 'v) btree \<Rightarrow> 'k \<Rightarrow> 'v option" where
  "btree_get m k = map_of m k"

text \<open>Inserting pairs one after the other.\<close>

definition btree_insert_all :: "('k::linorder \<times> 'v) list \<Rightarrow> ('k, 'v) btree \<Rightarrow> ('k, 'v) btree" where
  "btree_insert_all es m = fold (\<lambda>(k, v). btree_insert k v) es m"

definition btree_sorted :: "('k::linorder, 'v) btree \<Rightarrow> bool" where
  "btree_sorted m \<longleftrightarrow> sorted_wrt (<) (map fst m)"

section \<open>The contract\<close>

locale ordered_map =
  fixes insert_entry :: "'k \<Rightarrow> 'v \<Rightarrow> 'm \<Rightarrow> 'm"
    and get_entry :: "'m \<Rightarrow> 'k \<Rightarrow> 'v option"
    and valid :: "'m \<Rightarrow> bool"
  assumes get_insert: "get_entry (insert_entry k v m) k' = (if k' = k then Some v else get_entry m k')"
    and insert_valid: "valid m \<Longrightarrow> valid (insert_entry k v m)"
begin

lemma get_insert_all:
  "get_entry (fold (\<lambda>(k, v). insert_entry k v) es m) k' =
     (case map_of (rev es) k' of None \<Rightarrow> get_entry m k' | Some v \<Rightarrow> Some v)"
  by (induction es arbitrary: m)
     (auto simp: get_insert map_add_def split: option.splits)

text \<open>An entry inserted before the others is only seen at its own key.\<close>

lemma get_after_other:
  "k \<noteq> k' \<Longrightarrow> get_entry (fold (\<lambda>(k, v). insert_entry k v) es (insert_entry k v m)) k'
     = get_entry (fold (\<lambda>(k, v). insert_entry k v) es m) k'"
  by (simp add: get_insert_all get_insert split: option.splits)

lemma insert_all_valid: "valid m \<Longrightarrow> valid (fold (\<lambda>(k, v). insert_entry k v) es m)"
  by (induction es arbitrary: m) (auto simp: insert_valid)

end

section \<open>The implementation\<close>

lemma btree_insert_keys: "fst ` set (btree_insert k v m) = insert k (fst ` set m)"
  by (induction k v m rule: btree_insert.induct) auto

lemma btree_insert_get: "map_of (btree_insert k v m) k' = (if k' = k then Some v else map_of m k')"
  by (induction k v m rule: btree_insert.induct) auto

lemma btree_insert_sorted: "btree_sorted m \<Longrightarrow> btree_sorted (btree_insert k v m)"
proof (induction k v m rule: btree_insert.induct)
  case (2 k v k' v' m)
  then show ?case
    using btree_insert_keys [of k v m] unfolding btree_sorted_def by (auto dest: order.strict_trans)
qed (simp add: btree_sorted_def)

interpretation btree: ordered_map btree_insert btree_get btree_sorted
  by unfold_locales (simp_all add: btree_get_def btree_insert_get btree_insert_sorted)

lemma btree_insert_last:
  "\<forall>k' \<in> fst ` set m. k' < k \<Longrightarrow> btree_insert k v m = m @ [(k, v)]"
  by (induction m) auto

text \<open>The entries of a map, inserted in order, give the map back.\<close>

lemma insert_all_sorted:
  "btree_sorted (m @ es) \<Longrightarrow> btree_insert_all es m = m @ es"
proof (induction es arbitrary: m)
  case (Cons e es)
  have "\<forall>k' \<in> fst ` set m. k' < fst e"
    using Cons(2) by (auto simp: btree_sorted_def sorted_wrt_append)
  then have "btree_insert (fst e) (snd e) m = m @ [e]"
    using btree_insert_last by fastforce
  with Cons(1) [of "m @ [e]"] Cons(2) show ?case
    by (simp add: btree_insert_all_def split_beta)
qed (simp add: btree_insert_all_def)

lemma insert_all_append:
  "btree_insert_all (es @ fs) m = btree_insert_all fs (btree_insert_all es m)"
  by (simp add: btree_insert_all_def)

lemma insert_all_Cons [simp]:
  "btree_insert_all ((k, v) # es) m = btree_insert_all es (btree_insert k v m)"
  "btree_insert_all [] m = m"
  by (simp_all add: btree_insert_all_def)

end
