(* ===== verification/Rndc_Protocol.thy ===== *)
theory Rndc_Protocol
  imports Net_Errors Ordered_Map
begin

text \<open>
  \<open>rndc/protocol.rs\<close> of the network crate: the tables of the control channel, their binary
  encoding and decoding, the part of a message that its signature covers, and framing. Reading
  past the end of the buffer is excluded by the code's own checks. In the error about a key that
  is not UTF-8 the library's explanation is left out.
\<close>

section \<open>Tables\<close>

datatype isc_value =
    IscString string
  | IscBinary "byte list"
  | IscMap "(string \<times> isc_value) list"

type_synonym isc_map = "(string, isc_value) btree"

record isc_message =
  isc_data :: isc_map

definition isc_new :: isc_message where
  "isc_new = \<lparr>isc_data = []\<rparr>"

definition insert_string :: "string \<Rightarrow> string \<Rightarrow> isc_message \<Rightarrow> isc_message" where
  "insert_string k v m = m\<lparr>isc_data := btree_insert k (IscString v) (isc_data m)\<rparr>"

definition insert_binary :: "string \<Rightarrow> byte list \<Rightarrow> isc_message \<Rightarrow> isc_message" where
  "insert_binary k v m = m\<lparr>isc_data := btree_insert k (IscBinary v) (isc_data m)\<rparr>"

definition insert_map :: "string \<Rightarrow> isc_map \<Rightarrow> isc_message \<Rightarrow> isc_message" where
  "insert_map k v m = m\<lparr>isc_data := btree_insert k (IscMap v) (isc_data m)\<rparr>"

definition get_string :: "isc_message \<Rightarrow> string \<Rightarrow> string option" where
  "get_string m k = (case btree_get (isc_data m) k of Some (IscString s) \<Rightarrow> Some s | _ \<Rightarrow> None)"

definition get_binary :: "isc_message \<Rightarrow> string \<Rightarrow> byte list option" where
  "get_binary m k = (case btree_get (isc_data m) k of Some (IscBinary b) \<Rightarrow> Some b | _ \<Rightarrow> None)"

definition get_map :: "isc_message \<Rightarrow> string \<Rightarrow> isc_map option" where
  "get_map m k = (case btree_get (isc_data m) k of Some (IscMap t) \<Rightarrow> Some t | _ \<Rightarrow> None)"

section \<open>Encoding\<close>

definition isc_msg_version :: u32 where "isc_msg_version = 1"
definition isccc_type_binary :: byte where "isccc_type_binary = 0x01"
definition isccc_type_table :: byte where "isccc_type_table = 0x02"
definition max_decode_depth :: nat where "max_decode_depth = 32"

definition encode_key :: "string \<Rightarrow> net_error + byte list" where
  "encode_key k =
     (let key_bytes = as_bytes k in
      if length key_bytes > 255 then
        Inl (Protocol (''ISC message key exceeds 255 bytes: '' @ show_nat (length key_bytes) @ '' bytes''))
      else Inr (word_of_nat (length key_bytes) # key_bytes))"

text \<open>The type tag, the length and the octets of a value, \<open>what\<close> naming its kind in the error.\<close>

definition encode_tagged :: "byte \<Rightarrow> string \<Rightarrow> byte list \<Rightarrow> net_error + byte list" where
  "encode_tagged tag what bs =
     (if length bs > 4294967295 then
        Inl (Protocol (''ISC '' @ what @ '' exceeds 4GB: '' @ show_nat (length bs) @ '' bytes''))
      else Inr (tag # u32_be (word_of_nat (length bs)) @ bs))"

function encode_map :: "isc_map \<Rightarrow> net_error + byte list" where
  "encode_map [] = Inr []"
| "encode_map ((k, IscString s) # m) =
     rbind (encode_key k) (\<lambda>kb.
     rbind (encode_tagged isccc_type_binary ''string value'' (as_bytes s)) (\<lambda>vb.
     rmap (\<lambda>bs. kb @ vb @ bs) (encode_map m)))"
| "encode_map ((k, IscBinary b) # m) =
     rbind (encode_key k) (\<lambda>kb.
     rbind (encode_tagged isccc_type_binary ''binary value'' b) (\<lambda>vb.
     rmap (\<lambda>bs. kb @ vb @ bs) (encode_map m)))"
| "encode_map ((k, IscMap t) # m) =
     rbind (encode_key k) (\<lambda>kb.
     rbind (encode_map t) (\<lambda>nested.
     rbind (encode_tagged isccc_type_table ''nested map'' nested) (\<lambda>vb.
     rmap (\<lambda>bs. kb @ vb @ bs) (encode_map m))))"
  by pat_completeness auto
termination
  by (relation "measure (size_list (size_prod (\<lambda>_. 0) size))") auto

definition isc_encode :: "isc_message \<Rightarrow> net_error + byte list" where
  "isc_encode m = rmap (\<lambda>bs. u32_be isc_msg_version @ bs) (encode_map (isc_data m))"

definition encode_body :: "isc_message \<Rightarrow> net_error + byte list" where
  "encode_body m = encode_map (isc_data m)"

section \<open>Decoding\<close>

text \<open>One entry up to its value: the key, the type tag, where the value starts and its length.\<close>

definition decode_header :: "byte list \<Rightarrow> nat \<Rightarrow> net_error + string \<times> byte \<times> nat \<times> nat" where
  "decode_header data pos =
     (let key_len = unat (data ! pos); pos = pos + 1 in
      if pos + key_len > length data then
        Inl (Protocol (''ISC message truncated: expected '' @ show_nat key_len
               @ '' key bytes at offset '' @ show_nat pos))
      else if \<not> utf8_valid (slice data pos key_len) then
        Inl (Protocol ''ISC message key is not valid UTF-8'')
      else let key = of_bytes (slice data pos key_len); pos = pos + key_len in
      if pos \<ge> length data then Inl (Protocol ''ISC message truncated: missing type tag'')
      else let type_tag = data ! pos; pos = pos + 1 in
      if pos + 4 > length data then Inl (Protocol ''ISC message truncated: missing value length'')
      else let val_len = unat (u32_at data pos); pos = pos + 4 in
      if pos + val_len > length data then
        Inl (Protocol (''ISC message truncated: expected '' @ show_nat val_len
               @ '' value bytes at offset '' @ show_nat pos))
      else Inr (key, type_tag, pos, val_len))"

definition decode_binary :: "byte list \<Rightarrow> isc_value" where
  "decode_binary raw = (if utf8_valid raw then IscString (of_bytes raw) else IscBinary raw)"

definition hex_byte :: "byte \<Rightarrow> string" where
  "hex_byte b = ''0x'' @ [hex_digit (unat b div 16), hex_digit (unat b mod 16)]"

definition check_depth :: "nat \<Rightarrow> net_error + unit" where
  "check_depth depth =
     (if depth > max_decode_depth then
        Inl (Protocol (''ISC message exceeds maximum nesting depth ('' @ show_nat max_decode_depth @ '')''))
      else Inr ())"

lemma decode_header_bounds:
  "decode_header data pos = Inr (key, tag, start, val_len) \<Longrightarrow>
     pos + 6 \<le> start \<and> start + val_len \<le> length data"
  by (auto simp: decode_header_def Let_def split: if_splits)

text \<open>
  The loop of \<open>decode_map\<close>: the map so far is an argument. A nested table is decoded from the
  buffer cut off at its end, one level deeper; the depth is checked on entry to \<open>decode_map\<close>.
\<close>

function decode_entries :: "byte list \<Rightarrow> nat \<Rightarrow> nat \<Rightarrow> isc_map \<Rightarrow> net_error + isc_map" where
  "decode_entries data pos depth acc =
     (if pos \<ge> length data then Inr acc
      else rbind (decode_header data pos) (\<lambda>(key, type_tag, start, val_len).
        if type_tag = isccc_type_binary then
          decode_entries data (start + val_len) depth
            (btree_insert key (decode_binary (slice data start val_len)) acc)
        else if type_tag = isccc_type_table then
          rbind (check_depth (depth + 1)) (\<lambda>_.
          rbind (decode_entries (take (start + val_len) data) start (depth + 1) []) (\<lambda>nested.
          decode_entries data (start + val_len) depth (btree_insert key (IscMap nested) acc)))
        else Inl (Protocol (''ISC message: unknown type tag '' @ hex_byte type_tag))))"
  by pat_completeness auto
termination
  by (relation "measure (\<lambda>(data, pos, depth, acc). length data - pos)")
     (auto dest!: decode_header_bounds)

declare decode_entries.simps [simp del]

definition decode_map :: "byte list \<Rightarrow> nat \<Rightarrow> nat \<Rightarrow> net_error + isc_map" where
  "decode_map data pos depth = rbind (check_depth depth) (\<lambda>_. decode_entries data pos depth [])"

definition isc_decode :: "byte list \<Rightarrow> net_error + isc_message" where
  "isc_decode data =
     (if length data < 4 then Inl (Protocol ''ISC message too short'')
      else if u32_at data 0 \<noteq> isc_msg_version then
        Inl (Protocol (''unsupported ISC message version: '' @ show_nat (unat (u32_at data 0))))
      else rmap (\<lambda>m. \<lparr>isc_data = m\<rparr>) (decode_map data 4 0))"

section \<open>The signed part, and framing\<close>

definition extract_hmac_input :: "byte list \<Rightarrow> byte list option" where
  "extract_hmac_input payload =
     (if length payload < 4 then None
      else let pos = 4 in
      if pos \<ge> length payload then None
      else let key_len = unat (payload ! pos); pos = pos + 1 in
      if pos + key_len > length payload then None
      else if slice payload pos key_len \<noteq> as_bytes ''_auth'' then None
      else let pos = pos + key_len in
      if pos \<ge> length payload then None
      else let pos = pos + 1 in
      if pos + 4 > length payload then None
      else let val_len = unat (u32_at payload pos); pos = pos + 4 in
      if pos + val_len > length payload then None
      else Some (drop (pos + val_len) payload))"

definition frame_message :: "isc_message \<Rightarrow> net_error + byte list" where
  "frame_message m = rbind (isc_encode m) (\<lambda>payload.
     if length payload > 4294967295 then
       Inl (Protocol (''ISC message exceeds 4GB: '' @ show_nat (length payload) @ '' bytes''))
     else Inr (u32_be (word_of_nat (length payload)) @ payload))"

definition read_frame_length :: "byte list \<Rightarrow> u32" where
  "read_frame_length header = u32_of_be header"

section \<open>Reading what was written\<close>

text \<open>
  On the wire text and octets look alike, so octets that happen to be UTF-8 come back as text.
  \<open>value_wf d\<close>: texts and keys are UTF-8 (as Rust strings are), tables are ordered and nested
  at most \<open>d\<close> levels deep.
\<close>

fun canon_value :: "isc_value \<Rightarrow> isc_value" where
  "canon_value (IscString s) = IscString s"
| "canon_value (IscBinary b) = decode_binary b"
| "canon_value (IscMap m) = IscMap (map (\<lambda>(k, v). (k, canon_value v)) m)"

abbreviation canon_map :: "isc_map \<Rightarrow> isc_map" where
  "canon_map m \<equiv> map (\<lambda>(k, v). (k, canon_value v)) m"

fun value_wf :: "nat \<Rightarrow> isc_value \<Rightarrow> bool" where
  "value_wf d (IscString s) \<longleftrightarrow> utf8_valid (as_bytes s)"
| "value_wf d (IscBinary b) \<longleftrightarrow> True"
| "value_wf d (IscMap m) \<longleftrightarrow>
     d > 0 \<and> btree_sorted m \<and> (\<forall>(k, v) \<in> set m. utf8_valid (as_bytes k) \<and> value_wf (d - 1) v)"

definition entries_wf :: "nat \<Rightarrow> isc_map \<Rightarrow> bool" where
  "entries_wf d m \<longleftrightarrow> (\<forall>(k, v) \<in> set m. utf8_valid (as_bytes k) \<and> value_wf d v)"

definition message_wf :: "isc_message \<Rightarrow> bool" where
  "message_wf m \<longleftrightarrow> btree_sorted (isc_data m) \<and> entries_wf max_decode_depth (isc_data m)"

lemma entries_wf_Cons:
  "entries_wf d ((k, v) # m) \<longleftrightarrow> utf8_valid (as_bytes k) \<and> value_wf d v \<and> entries_wf d m"
  by (auto simp: entries_wf_def)

lemma canon_map_sorted: "btree_sorted (canon_map m) = btree_sorted m"
  by (simp add: btree_sorted_def comp_def split_beta)

lemma encode_key_Inr:
  "encode_key k = Inr kb \<longleftrightarrow> length k \<le> 255 \<and> kb = word_of_nat (length k) # as_bytes k"
  by (auto simp: encode_key_def Let_def)

lemma encode_tagged_Inr:
  "encode_tagged tag what bs = Inr vb \<longleftrightarrow>
     length bs \<le> 4294967295 \<and> vb = tag # u32_be (word_of_nat (length bs)) @ bs"
  by (auto simp: encode_tagged_def)

text \<open>An entry as it stands on the wire, and its header read back.\<close>

definition entry_octets :: "string \<Rightarrow> byte \<Rightarrow> byte list \<Rightarrow> byte list" where
  "entry_octets k tag val =
     (word_of_nat (length k) # as_bytes k) @ tag # u32_be (word_of_nat (length val)) @ val"

lemma length_entry_octets [simp]: "length (entry_octets k tag val) = length k + length val + 6"
  by (simp add: entry_octets_def)

lemma decode_header_written:
  assumes "utf8_valid (as_bytes k)" "length k \<le> 255" "length val \<le> 4294967295"
  shows "decode_header (pre @ entry_octets k tag val @ rest) (length pre)
    = Inr (k, tag, length pre + length k + 6, length val)"
proof -
  let ?d = "pre @ entry_octets k tag val @ rest"
  have len: "unat (?d ! length pre) = length k"
    using assms(2) by (simp add: entry_octets_def nth_append unat_word_of_nat)
  have key: "slice ?d (Suc (length pre)) (length k) = as_bytes k"
    by (simp add: entry_octets_def slice_def)
  have tag: "?d ! Suc (length pre + length k) = tag"
    by (simp add: entry_octets_def nth_append)
  have "slice ?d (length pre + length k + 2) 4 = u32_be (word_of_nat (length val))"
    by (simp add: entry_octets_def slice_def)
  then have vlen: "unat (u32_at ?d (length pre + length k + 2)) = length val"
    using assms(3) by (simp add: u32_at_def unat_word_of_nat)
  have six: "length pre + length k + 6 = Suc (Suc (length pre + length k)) + 4" by simp
  show ?thesis
    using len key tag vlen assms(1) by (simp add: decode_header_def Let_def)
qed

text \<open>The octets of an entry before its value.\<close>

definition entry_head :: "string \<Rightarrow> byte \<Rightarrow> byte list \<Rightarrow> byte list" where
  "entry_head k tag val = (word_of_nat (length k) # as_bytes k) @ tag # u32_be (word_of_nat (length val))"

lemma length_entry_head [simp]: "length (entry_head k tag val) = length k + 6"
  by (simp add: entry_head_def)

lemma entry_octets_split: "entry_octets k tag val = entry_head k tag val @ val"
  by (simp add: entry_octets_def entry_head_def)

lemma slice_entry:
  "slice (pre @ entry_octets k tag val @ rest) (length pre + length k + 6) (length val) = val"
proof -
  have "slice (p @ val @ rest) (length p) (length val) = val" for p
    by (simp add: slice_def)
  from this [of "pre @ entry_head k tag val"] show ?thesis
    by (simp add: entry_octets_split add.assoc)
qed

lemma take_entry:
  "take (length pre + length k + 6 + length val) (pre @ entry_octets k tag val @ rest)
     = (pre @ entry_head k tag val) @ val"
  by (simp add: entry_octets_split)

lemma decode_written_binary:
  assumes "utf8_valid (as_bytes k)" "length k \<le> 255" "length val \<le> 4294967295"
  shows "decode_entries (pre @ entry_octets k isccc_type_binary val @ rest) (length pre) depth acc
    = decode_entries ((pre @ entry_octets k isccc_type_binary val) @ rest)
        (length (pre @ entry_octets k isccc_type_binary val)) depth (btree_insert k (decode_binary val) acc)"
  using decode_header_written [OF assms] slice_entry
  by (subst decode_entries.simps) (simp add: add_ac)

lemma decode_written_table:
  assumes "utf8_valid (as_bytes k)" "length k \<le> 255" "length val \<le> 4294967295"
    "Suc depth \<le> max_decode_depth"
    "decode_entries ((pre @ entry_head k isccc_type_table val) @ val)
       (length (pre @ entry_head k isccc_type_table val)) (Suc depth) [] = Inr nested"
  shows "decode_entries (pre @ entry_octets k isccc_type_table val @ rest) (length pre) depth acc
    = decode_entries ((pre @ entry_octets k isccc_type_table val) @ rest)
        (length (pre @ entry_octets k isccc_type_table val)) depth (btree_insert k (IscMap nested) acc)"
  using decode_header_written [OF assms(1-3), of pre isccc_type_table rest] take_entry assms(4,5)
  by (subst decode_entries.simps)
     (simp add: add_ac check_depth_def isccc_type_table_def isccc_type_binary_def)

lemma decode_encoded:
  "encode_map m = Inr bs \<Longrightarrow> entries_wf d m \<Longrightarrow> depth + d \<le> max_decode_depth \<Longrightarrow>
     decode_entries (pre @ bs) (length pre) depth acc = Inr (btree_insert_all (canon_map m) acc)"
proof (induction m arbitrary: d bs pre depth acc rule: encode_map.induct)
  case 1
  then show ?case by (simp add: decode_entries.simps)
next
  case (2 k s m)
  from 2(2) obtain rest where k: "length k \<le> 255" and s: "length s \<le> 4294967295"
    and rest: "encode_map m = Inr rest" and bs: "bs = entry_octets k isccc_type_binary (as_bytes s) @ rest"
    by (auto simp: result_simps encode_key_Inr encode_tagged_Inr entry_octets_def)
  from 2(3) have wf: "utf8_valid (as_bytes k)" "utf8_valid (as_bytes s)" "entries_wf d m"
    by (simp_all add: entries_wf_Cons)
  show ?case
    unfolding bs using decode_written_binary [OF wf(1) k, of "as_bytes s"] s wf(2)
      2(1) [OF _ _ rest wf(3) 2(4), where pre = "pre @ entry_octets k isccc_type_binary (as_bytes s)"]
    by (simp add: decode_binary_def encode_key_Inr encode_tagged_Inr k)
next
  case (3 k b m)
  from 3(2) obtain rest where k: "length k \<le> 255" and b: "length b \<le> 4294967295"
    and rest: "encode_map m = Inr rest" and bs: "bs = entry_octets k isccc_type_binary b @ rest"
    by (auto simp: result_simps encode_key_Inr encode_tagged_Inr entry_octets_def)
  from 3(3) have wf: "utf8_valid (as_bytes k)" "entries_wf d m"
    by (simp_all add: entries_wf_Cons)
  show ?case
    unfolding bs using decode_written_binary [OF wf(1) k b] 
      3(1) [OF _ _ rest wf(2) 3(4), where pre = "pre @ entry_octets k isccc_type_binary b"]
    by (simp add: encode_key_Inr encode_tagged_Inr k b)
next
  case (4 k t m)
  from 4(3) obtain val rest where k: "length k \<le> 255" and val: "encode_map t = Inr val"
    and v: "length val \<le> 4294967295" and rest: "encode_map m = Inr rest"
    and bs: "bs = entry_octets k isccc_type_table val @ rest"
    by (auto simp: result_simps encode_key_Inr encode_tagged_Inr entry_octets_def)
  from 4(4) have wf: "utf8_valid (as_bytes k)" "d > 0" "btree_sorted t" "entries_wf (d - 1) t" "entries_wf d m"
    by (auto simp: entries_wf_def)
  have kb: "encode_key k = Inr (word_of_nat (length k) # as_bytes k)" using k by (simp add: encode_key_Inr)
  have "Suc depth \<le> max_decode_depth" "Suc depth + (d - 1) \<le> max_decode_depth" using 4(5) wf(2) by simp_all
  moreover from this have "decode_entries ((pre @ entry_head k isccc_type_table val) @ val)
      (length (pre @ entry_head k isccc_type_table val)) (Suc depth) [] = Inr (canon_map t)"
    using 4(1) [OF kb val wf(4), where pre = "pre @ entry_head k isccc_type_table val"] insert_all_sorted [of "[]" "canon_map t"] wf(3) canon_map_sorted by simp
  ultimately show ?case
    unfolding bs using decode_written_table [OF wf(1) k v] 
      4(2) [OF kb val _ rest wf(5) 4(5), where pre = "pre @ entry_octets k isccc_type_table val"]
    by (simp add: encode_tagged_Inr v)
qed

lemma isc_encode_Inr:
  "isc_encode m = Inr bs \<longleftrightarrow> (\<exists>body. encode_map (isc_data m) = Inr body \<and> bs = u32_be 1 @ body)"
  by (auto simp: isc_encode_def isc_msg_version_def result_simps)

lemma version_at_0 [simp]: "u32_at (u32_be v @ bs) 0 = v"
  by (simp add: u32_at_def slice_def)

lemma decode_encoded_message:
  assumes "isc_encode m = Inr bs" "message_wf m"
  shows "isc_decode bs = Inr \<lparr>isc_data = canon_map (isc_data m)\<rparr>"
proof -
  from assms(1) obtain body where body: "encode_map (isc_data m) = Inr body" "bs = u32_be 1 @ body"
    by (auto simp: isc_encode_Inr)
  have "decode_entries bs 4 0 [] = Inr (canon_map (isc_data m))"
    using decode_encoded [OF body(1), of max_decode_depth 0 "u32_be 1" "[]"] assms(2)
      insert_all_sorted [of "[]" "canon_map (isc_data m)"]
    by (simp add: message_wf_def body(2) canon_map_sorted)
  then show ?thesis
    by (simp add: isc_decode_def decode_map_def check_depth_def body(2) isc_msg_version_def)
qed

text \<open>Encoding fails only on a key or a value that is too long.\<close>

fun value_fits :: "isc_value \<Rightarrow> bool" where
  "value_fits (IscString s) \<longleftrightarrow> length s \<le> 4294967295"
| "value_fits (IscBinary b) \<longleftrightarrow> length b \<le> 4294967295"
| "value_fits (IscMap m) \<longleftrightarrow> (\<forall>(k, v) \<in> set m. length k \<le> 255 \<and> value_fits v)
     \<and> (case encode_map m of Inr bs \<Rightarrow> length bs \<le> 4294967295 | _ \<Rightarrow> False)"

lemma encode_map_total:
  "(\<exists>bs. encode_map m = Inr bs) \<longleftrightarrow> (\<forall>(k, v) \<in> set m. length k \<le> 255 \<and> value_fits v)"
proof (induction m rule: encode_map.induct)
  case (4 k t m)
  then show ?case
    by (cases "encode_map t")
       (auto simp: result_simps encode_key_Inr encode_tagged_Inr split: sum.splits)
qed (auto simp: result_simps encode_key_Inr encode_tagged_Inr)

section \<open>The signed octets\<close>

text \<open>A successful run of the loop is the insertion of the entries it has read.\<close>

lemma decode_entries_acc:
  "decode_entries data pos depth acc = Inr m \<Longrightarrow>
     \<exists>es. m = btree_insert_all es acc
       \<and> (\<forall>acc'. decode_entries data pos depth acc' = Inr (btree_insert_all es acc'))"
proof (induction data pos depth acc arbitrary: m rule: decode_entries.induct)
  case (1 data pos depth acc)
  show ?case
  proof (cases "pos \<ge> length data")
    case True
    with 1(4) show ?thesis
      by (intro exI [of _ "[]"]) (simp add: decode_entries.simps)
  next
    case False
    with 1(4) obtain key tag start len where h: "decode_header data pos = Inr (key, tag, start, len)"
      by (subst (asm) decode_entries.simps) (auto simp: result_simps)
    note step = decode_entries.simps [of data pos depth]
    show ?thesis
    proof (cases "tag = isccc_type_binary")
      case True
      let ?v = "decode_binary (slice data start len)"
      from 1(4) h False True
      have "decode_entries data (start + len) depth (btree_insert key ?v acc) = Inr m" by (simp add: step)
      from 1(1) [OF False h refl refl refl True this] obtain es
        where "m = btree_insert_all es (btree_insert key ?v acc)"
          "\<forall>acc'. decode_entries data (start + len) depth acc' = Inr (btree_insert_all es acc')" by blast
      then show ?thesis
        using h False True by (intro exI [of _ "(key, ?v) # es"]) (simp add: step)
    next
      case notbin: False
      with 1(4) h False obtain nested where tag: "tag = isccc_type_table"
        and depth: "check_depth (depth + 1) = Inr ()"
        and nested: "decode_entries (take (start + len) data) start (depth + 1) [] = Inr nested"
        and rest: "decode_entries data (start + len) depth (btree_insert key (IscMap nested) acc) = Inr m"
        by (auto simp: step result_simps split: if_splits)
      from 1(3) [OF False h refl refl refl notbin tag depth nested rest] obtain es
        where "m = btree_insert_all es (btree_insert key (IscMap nested) acc)"
          "\<forall>acc'. decode_entries data (start + len) depth acc' = Inr (btree_insert_all es acc')" by blast
      then show ?thesis
        using h False notbin tag depth nested
        by (intro exI [of _ "(key, IscMap nested) # es"]) (simp add: step)
    qed
  qed
qed

text \<open>
  Octets before the entries do not matter for what is read (they only change the offsets in
  the error texts, which \<open>ok_part\<close> leaves out).
\<close>

fun ok_part :: "'e + 'a \<Rightarrow> 'a option" where
  "ok_part (Inl _) = None"
| "ok_part (Inr x) = Some x"

lemma ok_part_rbind: "ok_part (rbind m f) = Option.bind (ok_part m) (\<lambda>x. ok_part (f x))"
  by (cases m) simp_all

lemma ok_part_Some [simp]: "ok_part m = Some x \<longleftrightarrow> m = Inr x"
  by (cases m) simp_all

lemma slice_shift [simp]: "slice (pre @ xs) (length pre + i) n = slice xs i n"
  by (simp add: slice_def)

lemma u32_at_shift [simp]: "u32_at (pre @ xs) (length pre + i) = u32_at xs i"
  by (simp add: u32_at_def)

lemma decode_header_shift:
  "ok_part (decode_header (pre @ xs) (length pre + pos))
     = map_option (\<lambda>(k, tag, start, len). (k, tag, length pre + start, len)) (ok_part (decode_header xs pos))"
proof -
  have s: "slice (pre @ xs) (Suc (length pre + i)) n = slice xs (Suc i) n"
    "u32_at (pre @ xs) (Suc (Suc (length pre + i))) = u32_at xs (Suc (Suc i))"
    "(pre @ xs) ! Suc (length pre + i) = xs ! Suc i" for i n
    using slice_shift [of pre xs "Suc i"] u32_at_shift [of pre xs "Suc (Suc i)"]
      nth_append_length_plus [of pre xs "Suc i"] by simp_all
  show ?thesis by (simp add: decode_header_def Let_def s add.assoc)
qed

lemma decode_entries_shift:
  "ok_part (decode_entries (pre @ xs) (length pre + pos) depth acc) = ok_part (decode_entries xs pos depth acc)"
proof (induction xs pos depth acc rule: decode_entries.induct)
  case (1 xs pos depth acc)
  show ?case
  proof (cases "ok_part (decode_header xs pos)")
    case None
    then show ?thesis
      using decode_header_shift [of pre xs pos]
      by (subst (1 2) decode_entries.simps) (simp add: ok_part_rbind)
  next
    case (Some h)
    obtain key tag start len where h: "h = (key, tag, start, len)" by (cases h) auto
    from Some h have hx: "decode_header xs pos = Inr (key, tag, start, len)" by simp
    then have hp: "decode_header (pre @ xs) (length pre + pos) = Inr (key, tag, length pre + start, len)"
      using decode_header_shift [of pre xs pos] by simp
    have end_at: "length pre + start + len = length pre + (start + len)" by simp
    show ?thesis
    proof (cases "pos \<ge> length xs")
      case True
      then show ?thesis by (simp add: decode_entries.simps)
    next
      case False
      have cut: "take (length pre + (start + len)) (pre @ xs) = pre @ take (start + len) xs" by simp
      note unfold = decode_entries.simps [of "pre @ xs" "length pre + pos"] decode_entries.simps [of xs pos]
      consider (binary) "tag = isccc_type_binary" | (table) "tag \<noteq> isccc_type_binary" "tag = isccc_type_table"
        | (other) "tag \<noteq> isccc_type_binary" "tag \<noteq> isccc_type_table" by blast
      then show ?thesis
      proof cases
        case binary
        then show ?thesis
          using 1(1) [OF False hx refl refl refl binary] False
          by (simp add: unfold hx hp end_at)
      next
        case table
        show ?thesis
        proof (cases "decode_entries (take (start + len) xs) start (depth + 1) []")
          case (Inl e)
          with 1(2) [OF False hx refl refl refl table] show ?thesis
            using False table
            by (cases "check_depth (depth + 1)") (auto simp: unfold hx hp end_at cut ok_part_rbind simp del: take_append)
        next
          case (Inr nested)
          with 1(2,3) [OF False hx refl refl refl table] show ?thesis
            using False table
            by (cases "check_depth (depth + 1)") (auto simp: unfold hx hp end_at cut ok_part_rbind simp del: take_append)
        qed
      next
        case other
        then show ?thesis using False by (simp add: unfold hx hp)
      qed
    qed
  qed
qed

lemma extract_hmac_header:
  assumes "extract_hmac_input payload = Some input"
  obtains tag start len where "decode_header payload 4 = Inr (''_auth'', tag, start, len)"
    "4 < length payload" "start + len \<le> length payload" "input = drop (start + len) payload"
proof -
  have auth: "utf8_valid (as_bytes ''_auth'')" by code_simp
  from assms have key: "slice payload 5 (unat (payload ! 4)) = as_bytes ''_auth''"
    and bounds: "4 < length payload" "5 + unat (payload ! 4) \<le> length payload"
    by (auto simp: extract_hmac_input_def Let_def split: if_splits)
  from key bounds(2) have "unat (payload ! 4) = length (as_bytes ''_auth'')"
    by (metis length_slice)
  then have len: "unat (payload ! 4) = 5" by simp
  with assms key bounds auth show thesis
    by (auto simp: extract_hmac_input_def decode_header_def Let_def split: if_splits intro!: that)
qed

text \<open>
  When a message starts with its \<open>_auth\<close> entry, every other entry of the decoded message is
  what the octets after that entry, the signed ones, decode to on their own.
\<close>

lemma signed_part_decoded:
  assumes "extract_hmac_input payload = Some input" "isc_decode payload = Inr m"
  shows "\<exists>signed. decode_map input 0 0 = Inr signed
    \<and> (\<forall>k. k \<noteq> ''_auth'' \<longrightarrow> btree_get (isc_data m) k = btree_get signed k)"
proof -
  obtain tag start len where h: "decode_header payload 4 = Inr (''_auth'', tag, start, len)"
    and bounds: "4 < length payload" "start + len \<le> length payload"
    and input: "input = drop (start + len) payload"
    by (rule extract_hmac_header [OF assms(1)])
  from assms(2) have run: "decode_entries payload 4 0 [] = Inr (isc_data m)"
    by (auto simp: isc_decode_def decode_map_def result_simps split: if_splits)
  then obtain v where rest: "decode_entries payload (start + len) 0 [(''_auth'', v)] = Inr (isc_data m)"
    using h bounds(1) by (subst (asm) decode_entries.simps) (auto simp: result_simps split: if_splits)
  have "payload = take (start + len) payload @ input" by (simp add: input)
  moreover have "length (take (start + len) payload) = start + len" using bounds(2) by simp
  ultimately have "ok_part (decode_entries payload (start + len) 0 acc) = ok_part (decode_entries input 0 0 acc)" for acc
    using decode_entries_shift [of "take (start + len) payload" input 0 0 acc] by simp
  from this [of "[(''_auth'', v)]"] rest
  have "decode_entries input 0 0 (btree_insert ''_auth'' v []) = Inr (isc_data m)"
    by (metis btree_insert.simps(1) ok_part_Some)
  then obtain es where m: "isc_data m = btree_insert_all es (btree_insert ''_auth'' v [])"
    and signed: "decode_entries input 0 0 [] = Inr (btree_insert_all es [])"
    using decode_entries_acc by blast
  have "btree_get (isc_data m) k = btree_get (btree_insert_all es []) k" if "k \<noteq> ''_auth''" for k
    unfolding m btree_insert_all_def using that by (intro btree.get_after_other) simp
  with signed show ?thesis by (auto simp: decode_map_def check_depth_def)
qed

section \<open>Properties\<close>

text \<open>
  C21: A message whose tables are nested at most 32 levels deep is read back from its encoding,
  except that octets which happen to be UTF-8 come back as text.
\<close>

theorem isc_message_roundtrip:
  assumes "message_wf m" "isc_encode m = Inr bs"
  shows "isc_decode bs = Inr \<lparr>isc_data = canon_map (isc_data m)\<rparr>"
  using assms by (intro decode_encoded_message)

definition sample_message :: isc_message where
  "sample_message = insert_map ''_ctrl'' [(''_ser'', IscString ''7'')] (insert_binary ''_auth'' [0xA3] isc_new)"

theorem isc_message_roundtrip_witness:
  "\<exists>bs. isc_encode sample_message = Inr bs \<and> isc_decode bs = Inr sample_message"
proof -
  have data: "isc_data sample_message = [(''_auth'', IscBinary [0xA3]), (''_ctrl'', IscMap [(''_ser'', IscString ''7'')])]"
    by (simp add: sample_message_def insert_map_def insert_binary_def isc_new_def less_char_def)
  have "utf8_valid (as_bytes ''_auth'')" "utf8_valid (as_bytes ''_ctrl'')"
    "utf8_valid (as_bytes ''_ser'')" "utf8_valid (as_bytes ''7'')" by code_simp+
  then have wf: "message_wf sample_message"
    by (simp add: data message_wf_def btree_sorted_def entries_wf_def max_decode_depth_def less_char_def)
  have "\<exists>bs. encode_map (isc_data sample_message) = Inr bs"
    by (simp add: data result_simps encode_key_Inr encode_tagged_Inr)
  then obtain bs where bs: "isc_encode sample_message = Inr bs" by (auto simp: isc_encode_Inr)
  have "\<not> utf8_valid [0xA3]" by code_simp
  then have "canon_map (isc_data sample_message) = isc_data sample_message"
    by (simp add: data decode_binary_def)
  with wf show ?thesis using isc_message_roundtrip [OF _ bs] bs by simp
qed

end
