(* ===== verification/Text_Util.thy ===== *)
theory Text_Util
  imports Prelude
begin

text \<open>
  The text functions of the Rust standard library the code uses: parsing of unsigned integers,
  white space, lines, prefixes. Strings are UTF-8 byte sequences; functions that work on
  characters go through \<open>utf8_chars\<close>, which cuts a string at its code points.
\<close>

section \<open>Unsigned integers\<close>

text \<open>\<open>str::parse\<close> for an unsigned type with the given greatest value.\<close>

definition digits_value :: "string \<Rightarrow> nat" where
  "digits_value s = foldl (\<lambda>a c. a * 10 + digit_val c) 0 s"

definition parse_uint :: "nat \<Rightarrow> string \<Rightarrow> nat option" where
  "parse_uint limit s =
     (let ds = (case s of c # r \<Rightarrow> if c = CHR ''+'' then r else s | [] \<Rightarrow> []) in
      if ds \<noteq> [] \<and> list_all is_ascii_digit ds \<and> digits_value ds \<le> limit
      then Some (digits_value ds) else None)"

definition parse_u8 :: "string \<Rightarrow> u8 option" where
  "parse_u8 s = map_option word_of_nat (parse_uint 255 s)"

definition parse_u16 :: "string \<Rightarrow> u16 option" where
  "parse_u16 s = map_option word_of_nat (parse_uint 65535 s)"

definition parse_u32 :: "string \<Rightarrow> u32 option" where
  "parse_u32 s = map_option word_of_nat (parse_uint 4294967295 s)"

definition parse_u64 :: "string \<Rightarrow> u64 option" where
  "parse_u64 s = map_option word_of_nat (parse_uint 18446744073709551615 s)"

lemma digits_value_snoc [simp]: "digits_value (s @ [c]) = digits_value s * 10 + digit_val c"
  by (simp add: digits_value_def)

lemma digits_value_Nil [simp]: "digits_value [] = 0"
  by (simp add: digits_value_def)

lemma show_nat_digits: "show_nat n \<noteq> [] \<and> list_all is_ascii_digit (show_nat n) \<and> digits_value (show_nat n) = n"
proof (induction n rule: show_nat.induct)
  case (1 n)
  show ?case
  proof (cases "n < 10")
    case True
    then show ?thesis
      using digit_char_props [of n] by (simp add: show_nat.simps [of n] digits_value_def)
  next
    case False
    then show ?thesis
      using 1 digit_char_props [of "n mod 10"] by (simp add: show_nat.simps [of n])
  qed
qed

lemma digit_not_plus: "is_ascii_digit c \<Longrightarrow> c \<noteq> CHR ''+''"
  by (auto simp: is_ascii_digit_def)

lemma parse_uint_show: "n \<le> limit \<Longrightarrow> parse_uint limit (show_nat n) = Some n"
  using show_nat_digits [of n] digit_not_plus
  by (cases "show_nat n") (auto simp: parse_uint_def)

lemma show_nat_inj: "show_nat m = show_nat n \<longleftrightarrow> m = n"
  using show_nat_digits by metis

lemma parse_uint_bound: "parse_uint limit s = Some n \<Longrightarrow> n \<le> limit"
  by (auto simp: parse_uint_def Let_def split: if_splits)

lemma parse_show_words:
  "parse_u8 (show_nat (unat a)) = Some a"
  "parse_u16 (show_nat (unat b)) = Some b"
  "parse_u32 (show_nat (unat c)) = Some c"
  "parse_u64 (show_nat (unat d)) = Some d"
proof -
  have "unat a \<le> 255" using unat_byte_less [of a] by linarith
  then show "parse_u8 (show_nat (unat a)) = Some a" by (simp add: parse_u8_def parse_uint_show)
qed (use unat_bounds(1) [of b] unat_bounds(2) [of c] unat_bounds(3) [of d] in
  \<open>simp_all add: parse_u8_def parse_u16_def parse_u32_def parse_u64_def parse_uint_show\<close>)

section \<open>Characters and white space\<close>

definition utf8_len :: "char \<Rightarrow> nat" where
  "utf8_len c = (if code_of c < 0x80 then 1 else if code_of c < 0xE0 then 2
     else if code_of c < 0xF0 then 3 else 4)"

function utf8_chars :: "string \<Rightarrow> string list" where
  "utf8_chars [] = []"
| "utf8_chars (c # cs) = (c # take (utf8_len c - 1) cs) # utf8_chars (drop (utf8_len c - 1) cs)"
  by pat_completeness auto
termination
  by (relation "measure length") auto

text \<open>\<open>char::is_whitespace\<close>, of a character given by its bytes.\<close>

definition ws_char :: "string \<Rightarrow> bool" where
  "ws_char c =
     (case map code_of c of
        [a] \<Rightarrow> 9 \<le> a \<and> a \<le> 13 \<or> a = 32
      | [a, b] \<Rightarrow> a = 0xC2 \<and> (b = 0x85 \<or> b = 0xA0)
      | [a, b, d] \<Rightarrow>
          a = 0xE1 \<and> b = 0x9A \<and> d = 0x80
          \<or> a = 0xE2 \<and> b = 0x80 \<and> (0x80 \<le> d \<and> d \<le> 0x8A \<or> d = 0xA8 \<or> d = 0xA9 \<or> d = 0xAF)
          \<or> a = 0xE2 \<and> b = 0x81 \<and> d = 0x9F
          \<or> a = 0xE3 \<and> b = 0x80 \<and> d = 0x80
      | _ \<Rightarrow> False)"

definition trim_chars :: "string list \<Rightarrow> string list" where
  "trim_chars cs = rev (dropWhile ws_char (rev (dropWhile ws_char cs)))"

definition trim :: "string \<Rightarrow> string" where
  "trim s = concat (trim_chars (utf8_chars s))"

text \<open>\<open>cur\<close> is the word being read.\<close>

fun split_words :: "string \<Rightarrow> string list \<Rightarrow> string list" where
  "split_words cur [] = (if cur = [] then [] else [cur])"
| "split_words cur (c # cs) =
     (if ws_char c then (if cur = [] then [] else [cur]) @ split_words [] cs
      else split_words (cur @ c) cs)"

definition split_whitespace :: "string \<Rightarrow> string list" where
  "split_whitespace s = split_words [] (utf8_chars s)"

section \<open>Lines, prefixes, searching, joining\<close>


definition strip_cr :: "string \<Rightarrow> string" where
  "strip_cr l = (if l \<noteq> [] \<and> last l = CHR 0x0D then butlast l else l)"

fun lines_from :: "string \<Rightarrow> string \<Rightarrow> string list" where
  "lines_from cur [] = (if cur = [] then [] else [cur])"
| "lines_from cur (c # cs) =
     (if c = CHR 0x0A then strip_cr cur # lines_from [] cs else lines_from (cur @ [c]) cs)"

definition text_lines :: "string \<Rightarrow> string list" where
  "text_lines s = lines_from [] s"

definition strip_prefix :: "string \<Rightarrow> string \<Rightarrow> string option" where
  "strip_prefix p s = (if take (length p) s = p then Some (drop (length p) s) else None)"

definition starts_with :: "string \<Rightarrow> string \<Rightarrow> bool" where
  "starts_with p s \<longleftrightarrow> take (length p) s = p"

fun contains_text :: "string \<Rightarrow> string \<Rightarrow> bool" where
  "contains_text p [] = (p = [])"
| "contains_text p (c # s) = (starts_with p (c # s) \<or> contains_text p s)"

fun join_with :: "string \<Rightarrow> string list \<Rightarrow> string" where
  "join_with sep [] = []"
| "join_with sep [s] = s"
| "join_with sep (s # ss) = s @ sep @ join_with sep ss"

definition upper_char :: "char \<Rightarrow> char" where
  "upper_char c = (if 97 \<le> code_of c \<and> code_of c \<le> 122 then char_of (code_of c - 32) else c)"

definition upper_text :: "string \<Rightarrow> string" where
  "upper_text s = map upper_char s"

definition lower_text :: "string \<Rightarrow> string" where
  "lower_text s = map lower_char s"

definition same_text :: "string \<Rightarrow> string \<Rightarrow> bool" where
  "same_text s t \<longleftrightarrow> lower_text s = lower_text t"

section \<open>Words of ASCII text\<close>

text \<open>Text without white space and made of single-byte characters is one word.\<close>

definition plain_word :: "string \<Rightarrow> bool" where
  "plain_word s \<longleftrightarrow> s \<noteq> [] \<and> list_all (\<lambda>c. code_of c < 128 \<and> \<not> ws_char [c]) s"

lemma utf8_chars_ascii: "code_of c < 128 \<Longrightarrow> utf8_chars (c # cs) = [c] # utf8_chars cs"
  by (simp add: utf8_len_def)

lemma split_words_plain:
  "list_all (\<lambda>c. code_of c < 128 \<and> \<not> ws_char [c]) w \<Longrightarrow>
     split_words cur (utf8_chars (w @ s)) = split_words (cur @ w) (utf8_chars s)"
  by (induction w arbitrary: cur) (simp_all add: utf8_chars_ascii del: utf8_chars.simps(2))

lemma ws_space: "ws_char '' ''"
  by (simp add: ws_char_def)

lemma split_whitespace_Cons:
  "plain_word w \<Longrightarrow> split_whitespace (w @ CHR '' '' # s) = w # split_whitespace s"
  using split_words_plain [of w "[]" "CHR '' '' # s"] ws_space
  by (simp add: plain_word_def split_whitespace_def utf8_chars_ascii del: utf8_chars.simps(2))

lemma split_whitespace_word: "plain_word w \<Longrightarrow> split_whitespace w = [w]"
  using split_words_plain [of w "[]" "[]"] by (simp add: plain_word_def split_whitespace_def)

lemma split_whitespace_join:
  "list_all plain_word ws \<Longrightarrow> split_whitespace (join_with '' '' ws) = ws"
  by (induction "'' ''" ws rule: join_with.induct)
     (simp_all add: split_whitespace_word split_whitespace_Cons, simp add: split_whitespace_def)

lemma digit_plain: "is_ascii_digit c \<Longrightarrow> code_of c < 128 \<and> \<not> ws_char [c]"
  by (auto simp: is_ascii_digit_def ws_char_def)

lemma show_nat_plain: "plain_word (show_nat n)"
  using show_nat_digits [of n] digit_plain unfolding plain_word_def by (auto simp: list_all_iff)

section \<open>Parts of a text\<close>

lemma concat_utf8_chars [simp]: "concat (utf8_chars s) = s"
  by (induction s rule: utf8_chars.induct) simp_all

lemma trim_chars_middle: "\<exists>a b. cs = a @ trim_chars cs @ b"
proof -
  let ?m = "dropWhile ws_char cs"
  have "cs = takeWhile ws_char cs @ ?m" by simp
  moreover have "?m = trim_chars cs @ rev (takeWhile ws_char (rev ?m))"
    unfolding trim_chars_def by (metis rev_append rev_rev_ident takeWhile_dropWhile_id)
  ultimately show ?thesis by metis
qed

lemma trim_middle: "\<exists>a b. s = a @ trim s @ b"
  using trim_chars_middle [of "utf8_chars s"] unfolding trim_def
  by (metis concat_append concat_utf8_chars)

lemma strip_prefix_iff: "strip_prefix p s = Some r \<longleftrightarrow> s = p @ r"
  unfolding strip_prefix_def by (metis append_eq_conv_conj append_take_drop_id option.distinct(1) option.inject)

lemma starts_with_iff: "starts_with p s \<longleftrightarrow> (\<exists>r. s = p @ r)"
  unfolding starts_with_def by (metis append_eq_conv_conj append_take_drop_id)

lemma contains_text_iff: "contains_text p s \<longleftrightarrow> (\<exists>a b. s = a @ p @ b)"
proof (induction s)
  case (Cons c s)
  have "(\<exists>a b. c # s = a @ p @ b) \<longleftrightarrow> (\<exists>r. c # s = p @ r) \<or> (\<exists>a b. s = a @ p @ b)"
    by (metis append_Cons append_Nil list.exhaust list.inject)
  then show ?case using Cons by (simp add: starts_with_iff)
qed simp

lemma contains_part: "contains_text p (trim s) \<Longrightarrow> contains_text p s"
  using trim_middle [of s] unfolding contains_text_iff by (metis append.assoc)

lemma contains_suffix: "contains_text p s \<Longrightarrow> contains_text p (q @ s)"
  unfolding contains_text_iff by (metis append.assoc)

section \<open>Libraries for binary text\<close>

text \<open>An encoding of octets as text (base64, base32) from a library: a parameter of the model.\<close>

record byte_codec =
  codec_encode :: "byte list \<Rightarrow> string"
  codec_decode :: "string \<Rightarrow> byte list option"

text \<open>What the libraries document: the text of octets decodes to them, and is a word of the alphabet.\<close>

definition codec_ok :: "(char \<Rightarrow> bool) \<Rightarrow> byte_codec \<Rightarrow> bool" where
  "codec_ok alphabet codec \<longleftrightarrow>
     (\<forall>bs. codec_decode codec (codec_encode codec bs) = Some bs
        \<and> list_all alphabet (codec_encode codec bs)
        \<and> (codec_encode codec bs = [] \<longleftrightarrow> bs = []))"

end
