(* ===== verification/Rndc_Command.thy ===== *)
theory Rndc_Command
  imports Net_Errors Rr_Types Domain_Name Text_Util
begin

text \<open>
  \<open>rndc/command.rs\<close>: the control channel commands, the text each is sent as, and the
  interpretation of a response text. A \<open>Duration\<close> is its number of nanoseconds. The carriers
  \<open>ServerStatus\<close> and \<open>FrozenZone\<close> are those of \<open>traits.rs\<close>.
\<close>

section \<open>Commands\<close>

record zone_target =
  zt_zone :: domain_name
  zt_class :: "record_class option"
  zt_view :: "string option"

definition zone_target_new :: "domain_name \<Rightarrow> zone_target" where
  "zone_target_new z = \<lparr>zt_zone = z, zt_class = None, zt_view = None\<rparr>"

definition with_class :: "zone_target \<Rightarrow> record_class \<Rightarrow> zone_target" where
  "with_class t c = t\<lparr>zt_class := Some c\<rparr>"

definition with_view :: "zone_target \<Rightarrow> string \<Rightarrow> zone_target" where
  "with_view t v = t\<lparr>zt_view := Some v\<rparr>"

definition class_and_view :: "record_class option \<Rightarrow> string option \<Rightarrow> string" where
  "class_and_view c v =
     (case c of Some cl \<Rightarrow> '' '' @ class_display cl | None \<Rightarrow> if v \<noteq> None then '' IN'' else [])
       @ (case v of Some view \<Rightarrow> '' '' @ view | None \<Rightarrow> [])"

definition command_args :: "zone_target \<Rightarrow> string" where
  "command_args t = name_display (zt_zone t) @ class_and_view (zt_class t) (zt_view t)"

datatype dump_db_category = DumpAll | DumpCache | DumpZones | DumpAdb | DumpBad | DumpExpired | DumpFail

fun dump_db_category_display :: "dump_db_category \<Rightarrow> string" where
  "dump_db_category_display DumpAll = ''-all''"
| "dump_db_category_display DumpCache = ''-cache''"
| "dump_db_category_display DumpZones = ''-zones''"
| "dump_db_category_display DumpAdb = ''-adb''"
| "dump_db_category_display DumpBad = ''-bad''"
| "dump_db_category_display DumpExpired = ''-expired''"
| "dump_db_category_display DumpFail = ''-fail''"

record dump_db_options =
  dump_categories :: "dump_db_category list"
  dump_views :: "string list"

datatype toggle = ToggleOn | ToggleOff

fun toggle_display :: "toggle \<Rightarrow> string" where
  "toggle_display ToggleOn = ''on''"
| "toggle_display ToggleOff = ''off''"

datatype validation_action = ValidationOn | ValidationOff | ValidationStatus

fun validation_action_display :: "validation_action \<Rightarrow> string" where
  "validation_action_display ValidationOn = ''on''"
| "validation_action_display ValidationOff = ''off''"
| "validation_action_display ValidationStatus = ''status''"

datatype managed_keys_action = KeysRefresh | KeysStatus | KeysSync

fun managed_keys_action_display :: "managed_keys_action \<Rightarrow> string" where
  "managed_keys_action_display KeysRefresh = ''refresh''"
| "managed_keys_action_display KeysStatus = ''status''"
| "managed_keys_action_display KeysSync = ''sync''"

datatype mem_prof_action = MemProfOn | MemProfOff | MemProfDump

fun mem_prof_action_display :: "mem_prof_action \<Rightarrow> string" where
  "mem_prof_action_display MemProfOn = ''on''"
| "mem_prof_action_display MemProfOff = ''off''"
| "mem_prof_action_display MemProfDump = ''dump''"

datatype serve_stale_action = StaleOn | StaleOff | StaleReset | StaleStatus

fun serve_stale_action_display :: "serve_stale_action \<Rightarrow> string" where
  "serve_stale_action_display StaleOn = ''on''"
| "serve_stale_action_display StaleOff = ''off''"
| "serve_stale_action_display StaleReset = ''reset''"
| "serve_stale_action_display StaleStatus = ''status''"

datatype signing_action =
    ClearAll
  | ClearKey string
  | SigningList
  | Nsec3Param u8 u8 u16 string
  | Nsec3ParamNone
  | SigningSerial u32

record tcp_timeout_values =
  tt_initial :: u32
  tt_idle :: u32
  tt_keepalive :: u32
  tt_advertised :: u32

record dnssec_key_selector =
  ks_key_tag :: u16
  ks_algorithm :: "string option"

definition key_selector_new :: "u16 \<Rightarrow> dnssec_key_selector" where
  "key_selector_new tag = \<lparr>ks_key_tag = tag, ks_algorithm = None\<rparr>"

definition with_algorithm :: "dnssec_key_selector \<Rightarrow> string \<Rightarrow> dnssec_key_selector" where
  "with_algorithm k a = k\<lparr>ks_algorithm := Some a\<rparr>"

datatype ds_state = DsStatePublished | DsStateWithdrawn

fun ds_state_display :: "ds_state \<Rightarrow> string" where
  "ds_state_display DsStatePublished = ''published''"
| "ds_state_display DsStateWithdrawn = ''withdrawn''"

datatype rndc_command =
    CmdStatus
  | CmdReload "zone_target option"
  | CmdRefresh zone_target
  | CmdRetransfer zone_target
  | CmdFreeze "zone_target option"
  | CmdThaw "zone_target option"
  | CmdSync bool "zone_target option"
  | CmdFlush "string option"
  | CmdFlushName domain_name "string option"
  | CmdFlushTree domain_name "string option"
  | CmdStats
  | CmdDumpDb dump_db_options
  | CmdNotify zone_target
  | CmdTrace "u32 option"
  | CmdNoTrace
  | CmdReconfig
  | CmdSign zone_target
  | CmdSigning signing_action zone_target
  | CmdValidation validation_action "string option"
  | CmdAddZone zone_target string
  | CmdModZone zone_target string
  | CmdDelZone zone_target bool
  | CmdShowZone zone_target
  | CmdManagedKeys managed_keys_action "record_class option" "string option"
  | CmdZoneStatus zone_target
  | CmdNtaList
  | CmdNtaAdd domain_name "nat option" bool "string option"
  | CmdNtaRemove domain_name "string option"
  | CmdDnssecStatus zone_target
  | CmdDnssecCheckDs zone_target ds_state "dnssec_key_selector option" "string option"
  | CmdLoadKeys zone_target
  | CmdDnssecRollover zone_target dnssec_key_selector "string option"
  | CmdDnstapReopen
  | CmdDnstapRoll "u32 option"
  | CmdFetchLimit "string option"
  | CmdStop bool
  | CmdHalt bool
  | CmdSkrImport string zone_target
  | CmdMemProf "mem_prof_action option"
  | CmdQueryLog "toggle option"
  | CmdRecursing
  | CmdResetStats "string list"
  | CmdResponseLog "toggle option"
  | CmdScan
  | CmdSecRoots "string list"
  | CmdServeStale "serve_stale_action option" "record_class option" "string option"
  | CmdTcpTimeouts "tcp_timeout_values option"
  | CmdRaw string

section \<open>Command texts\<close>

definition command_with_optional_token :: "string \<Rightarrow> string option \<Rightarrow> string" where
  "command_with_optional_token command token =
     (case token of Some t \<Rightarrow> command @ '' '' @ t | None \<Rightarrow> command)"

definition command_with_target :: "string \<Rightarrow> zone_target option \<Rightarrow> string" where
  "command_with_target command t =
     (case t of Some tg \<Rightarrow> command @ '' '' @ command_args tg | None \<Rightarrow> command)"

definition command_with_optional_value :: "string \<Rightarrow> u32 option \<Rightarrow> string" where
  "command_with_optional_value command val =
     (case val of Some v \<Rightarrow> command @ '' '' @ show_nat (unat v) | None \<Rightarrow> command)"

definition command_with_name_and_view :: "string \<Rightarrow> domain_name \<Rightarrow> string option \<Rightarrow> string" where
  "command_with_name_and_view command name view =
     command_with_optional_token (command @ '' '' @ name_display name) view"

definition command_with_class_and_view :: "string \<Rightarrow> record_class option \<Rightarrow> string option \<Rightarrow> string" where
  "command_with_class_and_view command c v = command @ class_and_view c v"

definition push_tokens :: "string list \<Rightarrow> string" where
  "push_tokens ts = concat (map (\<lambda>t. '' '' @ t) ts)"

definition key_text :: "dnssec_key_selector \<Rightarrow> string" where
  "key_text key = show_nat (unat (ks_key_tag key))
     @ (case ks_algorithm key of Some a \<Rightarrow> '' -alg '' @ a | None \<Rightarrow> [])"

definition when_text :: "string option \<Rightarrow> string" where
  "when_text w = (case w of Some t \<Rightarrow> '' -when '' @ t | None \<Rightarrow> [])"

definition append_key_options :: "string \<Rightarrow> dnssec_key_selector option \<Rightarrow> string option \<Rightarrow> string" where
  "append_key_options command key w =
     command @ (case key of Some k \<Rightarrow> '' -key '' @ key_text k | None \<Rightarrow> []) @ when_text w"

fun signing_operation :: "signing_action \<Rightarrow> string" where
  "signing_operation ClearAll = ''-clear all''"
| "signing_operation (ClearKey key) = ''-clear '' @ key"
| "signing_operation SigningList = ''-list''"
| "signing_operation (Nsec3Param hash flags iterations salt) =
     ''-nsec3param '' @ show_nat (unat hash) @ '' '' @ show_nat (unat flags) @ '' ''
       @ show_nat (unat iterations) @ '' '' @ salt"
| "signing_operation Nsec3ParamNone = ''-nsec3param none''"
| "signing_operation (SigningSerial n) = ''-serial '' @ show_nat (unat n)"

definition signing_command :: "signing_action \<Rightarrow> zone_target \<Rightarrow> string" where
  "signing_command action t = ''signing '' @ signing_operation action @ '' '' @ command_args t"

fun to_command_string :: "rndc_command \<Rightarrow> string" where
  "to_command_string CmdStatus = ''status''"
| "to_command_string (CmdReload t) = command_with_target ''reload'' t"
| "to_command_string (CmdRefresh t) = command_with_target ''refresh'' (Some t)"
| "to_command_string (CmdRetransfer t) = command_with_target ''retransfer'' (Some t)"
| "to_command_string (CmdFreeze t) = command_with_target ''freeze'' t"
| "to_command_string (CmdThaw t) = command_with_target ''thaw'' t"
| "to_command_string (CmdSync clean t) =
     ''sync'' @ (if clean then '' -clean'' else [])
       @ (case t of Some tg \<Rightarrow> '' '' @ command_args tg | None \<Rightarrow> [])"
| "to_command_string (CmdFlush v) = command_with_optional_token ''flush'' v"
| "to_command_string (CmdFlushName n v) = command_with_name_and_view ''flushname'' n v"
| "to_command_string (CmdFlushTree n v) = command_with_name_and_view ''flushtree'' n v"
| "to_command_string CmdStats = ''stats''"
| "to_command_string (CmdDumpDb options) =
     ''dumpdb'' @ push_tokens (map dump_db_category_display (dump_categories options))
       @ push_tokens (dump_views options)"
| "to_command_string (CmdNotify t) = command_with_target ''notify'' (Some t)"
| "to_command_string (CmdTrace (Some l)) = ''trace '' @ show_nat (unat l)"
| "to_command_string (CmdTrace None) = ''trace''"
| "to_command_string CmdNoTrace = ''notrace''"
| "to_command_string CmdReconfig = ''reconfig''"
| "to_command_string (CmdSign t) = command_with_target ''sign'' (Some t)"
| "to_command_string (CmdSigning action t) = signing_command action t"
| "to_command_string (CmdValidation action v) =
     command_with_optional_token (''validation '' @ validation_action_display action) v"
| "to_command_string (CmdAddZone t config) = ''addzone '' @ command_args t @ '' '' @ config"
| "to_command_string (CmdModZone t config) = ''modzone '' @ command_args t @ '' '' @ config"
| "to_command_string (CmdDelZone t clean) =
     command_with_target (if clean then ''delzone -clean'' else ''delzone'') (Some t)"
| "to_command_string (CmdShowZone t) = command_with_target ''showzone'' (Some t)"
| "to_command_string (CmdManagedKeys action c v) =
     command_with_class_and_view (''managed-keys '' @ managed_keys_action_display action) c v"
| "to_command_string (CmdZoneStatus t) = command_with_target ''zonestatus'' (Some t)"
| "to_command_string CmdNtaList = ''nta -dump''"
| "to_command_string (CmdNtaAdd name lifetime force v) =
     ''nta'' @ (case lifetime of Some ns \<Rightarrow> '' -lifetime '' @ show_nat (ns div 1000000000) | None \<Rightarrow> [])
       @ (if force then '' -force'' else []) @ '' '' @ name_display name
       @ (case v of Some view \<Rightarrow> '' '' @ view | None \<Rightarrow> [])"
| "to_command_string (CmdNtaRemove name v) =
     ''nta -remove '' @ name_display name @ (case v of Some view \<Rightarrow> '' '' @ view | None \<Rightarrow> [])"
| "to_command_string (CmdDnssecStatus t) = command_with_target ''dnssec -status'' (Some t)"
| "to_command_string (CmdDnssecCheckDs t state key w) =
     append_key_options ''dnssec -checkds'' key w @ '' '' @ ds_state_display state @ '' '' @ command_args t"
| "to_command_string (CmdLoadKeys t) = ''loadkeys '' @ command_args t"
| "to_command_string (CmdDnssecRollover t key w) =
     ''dnssec -rollover -key '' @ key_text key @ when_text w @ '' '' @ command_args t"
| "to_command_string CmdDnstapReopen = ''dnstap -reopen''"
| "to_command_string (CmdDnstapRoll count) = command_with_optional_value ''dnstap -roll'' count"
| "to_command_string (CmdFetchLimit v) = command_with_optional_token ''fetchlimit'' v"
| "to_command_string (CmdStop report_pid) = (if report_pid then ''stop -p'' else ''stop'')"
| "to_command_string (CmdHalt report_pid) = (if report_pid then ''halt -p'' else ''halt'')"
| "to_command_string (CmdSkrImport file t) = ''skr -import '' @ file @ '' '' @ command_args t"
| "to_command_string (CmdMemProf action) =
     command_with_optional_token ''memprof'' (map_option mem_prof_action_display action)"
| "to_command_string (CmdQueryLog action) =
     command_with_optional_token ''querylog'' (map_option toggle_display action)"
| "to_command_string CmdRecursing = ''recursing''"
| "to_command_string (CmdResetStats counters) = ''reset-stats'' @ push_tokens counters"
| "to_command_string (CmdResponseLog action) =
     command_with_optional_token ''responselog'' (map_option toggle_display action)"
| "to_command_string CmdScan = ''scan''"
| "to_command_string (CmdSecRoots views) = ''secroots'' @ push_tokens views"
| "to_command_string (CmdServeStale action c v) =
     command_with_class_and_view
       (case action of Some a \<Rightarrow> ''serve-stale '' @ serve_stale_action_display a | None \<Rightarrow> ''serve-stale'') c v"
| "to_command_string (CmdTcpTimeouts values) =
     (case values of
        Some t \<Rightarrow> ''tcp-timeouts '' @ show_nat (unat (tt_initial t)) @ '' '' @ show_nat (unat (tt_idle t))
           @ '' '' @ show_nat (unat (tt_keepalive t)) @ '' '' @ show_nat (unat (tt_advertised t))
      | None \<Rightarrow> ''tcp-timeouts'')"
| "to_command_string (CmdRaw cmd) = cmd"

section \<open>Responses\<close>

datatype rndc_result = RndcSuccess | RndcError u32 string

record rndc_response =
  rsp_text :: string
  rsp_result :: rndc_result

definition is_success :: "rndc_response \<Rightarrow> bool" where
  "is_success r \<longleftrightarrow> rsp_result r = RndcSuccess"

definition error_text :: "string \<Rightarrow> bool" where
  "error_text text \<longleftrightarrow>
     starts_with ''rndc: '' text \<or> starts_with ''unknown command'' text \<or> starts_with ''not found'' text"

definition response_from_text :: "string \<Rightarrow> rndc_response" where
  "response_from_text text =
     (if error_text text then \<lparr>rsp_text = text, rsp_result = RndcError 1 text\<rparr>
      else \<lparr>rsp_text = text, rsp_result = RndcSuccess\<rparr>)"

record server_status =
  ss_version :: string
  ss_running_since :: "string option"
  ss_zone_count :: u32
  ss_server_up :: bool
  ss_raw_text :: string

fun find_field :: "string \<Rightarrow> string list \<Rightarrow> string option" where
  "find_field label [] = None"
| "find_field label (line # rest) =
     (case strip_prefix label (trim line) of
        Some r \<Rightarrow> (if trim r \<noteq> [] then Some (trim r) else find_field label rest)
      | None \<Rightarrow> find_field label rest)"

definition extract_field :: "string \<Rightarrow> string \<Rightarrow> string option" where
  "extract_field text label = find_field label (text_lines text)"

definition zone_count_of :: "string \<Rightarrow> u32 option" where
  "zone_count_of s = (case split_whitespace s of n # _ \<Rightarrow> parse_u32 n | [] \<Rightarrow> None)"

definition parse_server_status :: "string \<Rightarrow> server_status" where
  "parse_server_status text =
     \<lparr>ss_version = (case extract_field text ''version:'' of Some v \<Rightarrow> v | None \<Rightarrow> ''unknown''),
      ss_running_since = extract_field text ''boot time:'',
      ss_zone_count = (case Option.bind (extract_field text ''number of zones:'') zone_count_of of
          Some n \<Rightarrow> n | None \<Rightarrow> 0),
      ss_server_up = contains_text ''server is up and running'' text,
      ss_raw_text = text\<rparr>"

record frozen_zone =
  fz_name :: domain_name
  fz_class :: record_class

definition make_frozen_zone :: "domain_name \<Rightarrow> frozen_zone" where
  "make_frozen_zone name = \<lparr>fz_name = name, fz_class = IN\<rparr>"

end
