(* ===== verification/Rndc_Session.thy ===== *)
theory Rndc_Session
  imports Rndc_Protocol Rndc_Command Tsig_Auth
begin

text \<open>
  \<open>rndc/mod.rs\<close>: the authenticated control channel. A request is a message with the tables
  \<open>_auth\<close>, \<open>_ctrl\<close> and \<open>_data\<close>; the signature in \<open>_auth\<close> covers the other two. The
  clock, the random source and the octets the server sends are inputs; the octets written are
  collected. HMAC and base64 are parameters.
\<close>

section \<open>Parameters and state\<close>

definition isccc_hmac_buf_size :: nat where "isccc_hmac_buf_size = 89"
definition isccc_expiry_secs :: u64 where "isccc_expiry_secs = 60"

text \<open>
  A connection: the octets written so far, the octets the peer will send, and what a write
  fails with, if it does.
\<close>

record rndc_stream =
  st_written :: "byte list"
  st_incoming :: "byte list"
  st_write_error :: "string option"

record rndc_auth =
  ra_key :: tsig_key
  ra_serial :: u32
  ra_nonce :: "string option"

record rndc_connection =
  rc_stream :: rndc_stream
  rc_auth :: rndc_auth

text \<open>Steps on the stream that may fail, in sequence: a failed step keeps what it did to the stream.\<close>

fun sbind :: "'s \<times> ('e + 'a) \<Rightarrow> ('a \<Rightarrow> 's \<Rightarrow> 's \<times> ('e + 'b)) \<Rightarrow> 's \<times> ('e + 'b)" where
  "sbind (s, Inl e) f = (s, Inl e)"
| "sbind (s, Inr x) f = f x s"

text \<open>How much of a failed write or of a read cut short got through is not observed.\<close>

definition write_all :: "string \<Rightarrow> byte list \<Rightarrow> rndc_stream \<Rightarrow> rndc_stream \<times> (net_error + unit)" where
  "write_all what bs s =
     (case st_write_error s of
        Some e \<Rightarrow> (s, Inl (Connection (what @ '': '' @ e)))
      | None \<Rightarrow> (s\<lparr>st_written := st_written s @ bs\<rparr>, Inr ()))"

definition read_exact :: "string \<Rightarrow> nat \<Rightarrow> rndc_stream \<Rightarrow> rndc_stream \<times> (net_error + byte list)" where
  "read_exact what n s =
     (if length (st_incoming s) < n then
        (s\<lparr>st_incoming := []\<rparr>, Inl (Connection (what @ '': early eof'')))
      else (s\<lparr>st_incoming := drop n (st_incoming s)\<rparr>, Inr (take n (st_incoming s))))"

section \<open>Requests\<close>

text \<open>
  The sum \<open>now_secs + 60\<close> wraps here; the code, compiled with overflow checks, would panic
  instead, for a clock within a minute of \<open>2^64\<close> seconds.
\<close>

definition build_ctrl_table :: "u32 \<Rightarrow> u64 \<Rightarrow> string option \<Rightarrow> isc_map" where
  "build_ctrl_table serial now_secs nonce =
     (let ctrl = btree_insert ''_ser'' (IscString (show_nat (unat serial))) [];
          ctrl = btree_insert ''_tim'' (IscString (show_nat (unat now_secs))) ctrl;
          ctrl = btree_insert ''_exp'' (IscString (show_nat (unat (now_secs + isccc_expiry_secs)))) ctrl
      in case nonce of Some n \<Rightarrow> btree_insert ''_nonce'' (IscString n) ctrl | None \<Rightarrow> ctrl)"

fun isccc_algorithm_byte :: "tsig_algorithm \<Rightarrow> net_error + byte" where
  "isccc_algorithm_byte HmacSha1 = Inr 0xA1"
| "isccc_algorithm_byte HmacSha256 = Inr 0xA3"
| "isccc_algorithm_byte HmacSha512 = Inr 0xA5"

text \<open>\<open>Vec::resize\<close>.\<close>

definition resize :: "nat \<Rightarrow> 'a \<Rightarrow> 'a list \<Rightarrow> 'a list" where
  "resize n x xs = take n (xs @ replicate (n - length xs) x)"

definition sign_rndc_body ::
  "mac_lib \<Rightarrow> byte_codec \<Rightarrow> tsig_key \<Rightarrow> isc_map \<Rightarrow> isc_map \<Rightarrow> net_error + byte list" where
  "sign_rndc_body lib b64 key ctrl data =
     rbind (encode_body (insert_map ''_data'' data (insert_map ''_ctrl'' ctrl isc_new))) (\<lambda>body.
     rbind (map_err Core (key_sign lib key body)) (\<lambda>digest.
     rmap (\<lambda>algo_byte.
         resize isccc_hmac_buf_size 0 (algo_byte # as_bytes (codec_encode b64 digest)))
       (isccc_algorithm_byte (key_algorithm key))))"

text \<open>The message sent for a command, signed.\<close>

definition build_request ::
  "mac_lib \<Rightarrow> byte_codec \<Rightarrow> tsig_key \<Rightarrow> u32 \<Rightarrow> u64 \<Rightarrow> string option \<Rightarrow> string \<Rightarrow> net_error + byte list" where
  "build_request lib b64 key serial now nonce cmd_text =
     (let ctrl = build_ctrl_table serial now nonce;
          data = btree_insert ''type'' (IscString cmd_text) []
      in rbind (sign_rndc_body lib b64 key ctrl data) (\<lambda>hmac_value.
         let auth = btree_insert ''hsha'' (IscBinary hmac_value) []
         in frame_message
              (insert_map ''_data'' data (insert_map ''_ctrl'' ctrl (insert_map ''_auth'' auth isc_new)))))"

section \<open>Checking a response\<close>

definition map_string :: "isc_map \<Rightarrow> string \<Rightarrow> string option" where
  "map_string m k = (case btree_get m k of Some (IscString s) \<Rightarrow> Some s | _ \<Rightarrow> None)"

definition verify_isccc_hmac ::
  "mac_lib \<Rightarrow> byte_codec \<Rightarrow> tsig_key \<Rightarrow> byte list \<Rightarrow> byte list \<Rightarrow> net_error + unit" where
  "verify_isccc_hmac lib b64 key hmac_input received =
     (if length received \<noteq> isccc_hmac_buf_size then
        Inl (AuthFailed (''server response _auth.hsha has invalid length: expected ''
               @ show_nat isccc_hmac_buf_size @ '', got '' @ show_nat (length received)))
      else rbind (isccc_algorithm_byte (key_algorithm key)) (\<lambda>expected_algorithm.
        if received ! 0 \<noteq> expected_algorithm then
          Inl (AuthFailed (''server response HMAC algorithm mismatch: expected ''
                 @ hex_byte expected_algorithm @ '', got '' @ hex_byte (received ! 0)))
        else let encoded = takeWhile (\<lambda>b. b \<noteq> 0) (drop 1 received);
                 padding = dropWhile (\<lambda>b. b \<noteq> 0) (drop 1 received) in
        if encoded = [] \<or> list_ex (\<lambda>b. b \<noteq> 0) padding then
          Inl (AuthFailed ''server response _auth.hsha has invalid padding'')
        else if \<not> utf8_valid encoded then
          Inl (AuthFailed ''server response _auth.hsha is not valid base64 text'')
        else rbind (ok_or (AuthFailed ''server response _auth.hsha contains invalid base64'')
                      (codec_decode b64 (of_bytes encoded))) (\<lambda>mac.
          map_err (\<lambda>_. AuthFailed ''server response HMAC verification failed'')
            (key_verify lib key hmac_input mac))))"

definition saturating_add :: "u64 \<Rightarrow> u64 \<Rightarrow> u64" where
  "saturating_add a b = (if unat a + unat b > 18446744073709551615 then - 1 else a + b)"

definition require_ctrl :: "isc_map \<Rightarrow> string \<Rightarrow> net_error + string" where
  "require_ctrl ctrl k = ok_or (AuthFailed (''server response missing _ctrl.'' @ k)) (map_string ctrl k)"

definition validate_response_ctrl :: "isc_map \<Rightarrow> u32 \<Rightarrow> u64 \<Rightarrow> string option \<Rightarrow> net_error + unit" where
  "validate_response_ctrl ctrl want_serial want_time want_nonce =
     rbind (require_ctrl ctrl ''_ser'') (\<lambda>serial.
     if serial \<noteq> show_nat (unat want_serial) then
       Inl (AuthFailed (''server response serial mismatch: expected `'' @ show_nat (unat want_serial)
              @ ''`, got `'' @ serial @ ''`''))
     else rbind (require_ctrl ctrl ''_tim'') (\<lambda>tim.
     rbind (ok_or (AuthFailed (''server response has invalid _ctrl._tim `'' @ tim @ ''`'')) (parse_u64 tim)) (\<lambda>timestamp.
     let latest_allowed = saturating_add want_time isccc_expiry_secs in
     if \<not> (want_time \<le> timestamp \<and> timestamp \<le> latest_allowed) then
       Inl (AuthFailed (''server response timestamp outside accepted window: expected ''
              @ show_nat (unat want_time) @ ''..='' @ show_nat (unat latest_allowed)
              @ '', got '' @ show_nat (unat timestamp)))
     else rbind (require_ctrl ctrl ''_exp'') (\<lambda>exp_text.
     rbind (ok_or (AuthFailed (''server response has invalid _ctrl._exp `'' @ exp_text @ ''`'')) (parse_u64 exp_text)) (\<lambda>expiry.
     let expected_expiry = saturating_add timestamp isccc_expiry_secs in
     if expiry \<noteq> expected_expiry then
       Inl (AuthFailed (''server response expiry mismatch: expected `'' @ show_nat (unat expected_expiry)
              @ ''`, got `'' @ show_nat (unat expiry) @ ''`''))
     else rbind (require_ctrl ctrl ''_rpl'') (\<lambda>reply_flag.
     if reply_flag \<noteq> ''1'' then
       Inl (AuthFailed (''server response has invalid _ctrl._rpl `'' @ reply_flag @ ''`''))
     else rbind (require_ctrl ctrl ''_nonce'') (\<lambda>nonce.
     case want_nonce of
       Some n \<Rightarrow>
         (if nonce \<noteq> n then
            Inl (AuthFailed (''server response nonce mismatch: expected `'' @ n @ ''`, got `'' @ nonce @ ''`''))
          else Inr ())
     | None \<Rightarrow> Inr ())))))))"

definition verify_authenticated_response ::
  "mac_lib \<Rightarrow> byte_codec \<Rightarrow> tsig_key \<Rightarrow> isc_message \<Rightarrow> byte list \<Rightarrow> u32 \<Rightarrow> u64 \<Rightarrow> string option
     \<Rightarrow> string option \<Rightarrow> net_error + unit" where
  "verify_authenticated_response lib b64 key response hmac_raw_input want_serial want_time
       want_nonce want_type =
     rbind (ok_or (AuthFailed ''server response missing _auth table'') (get_map response ''_auth'')) (\<lambda>auth.
     rbind (ok_or (AuthFailed ''server response missing _ctrl table'') (get_map response ''_ctrl'')) (\<lambda>ctrl.
     rbind (ok_or (AuthFailed ''server response missing _data table'') (get_map response ''_data'')) (\<lambda>data.
     rbind (case btree_get auth ''hsha'' of
              Some (IscBinary bytes) \<Rightarrow> Inr bytes
            | _ \<Rightarrow> Inl (AuthFailed ''server response missing _auth.hsha binary field'')) (\<lambda>received_hmac.
     rbind (verify_isccc_hmac lib b64 key hmac_raw_input received_hmac) (\<lambda>_.
     rbind (validate_response_ctrl ctrl want_serial want_time want_nonce) (\<lambda>_.
     case (want_type, map_string data ''type'') of
       (Some e, Some a) \<Rightarrow>
         (if a \<noteq> e then
            Inl (AuthFailed (''server response type mismatch: expected `'' @ e @ ''`, got `'' @ a @ ''`''))
          else Inr ())
     | _ \<Rightarrow> Inr ()))))))"

section \<open>Reading a response\<close>

definition decode_authenticated_payload :: "byte list \<Rightarrow> net_error + isc_message \<times> byte list" where
  "decode_authenticated_payload payload =
     rbind (ok_or (AuthFailed ''server response does not begin with a valid _auth entry'')
              (extract_hmac_input payload)) (\<lambda>hmac_input.
     rmap (\<lambda>message. (message, hmac_input)) (isc_decode payload))"

definition max_message_size :: nat where "max_message_size = 16 * 1024 * 1024"

definition read_isc_message :: "rndc_stream \<Rightarrow> rndc_stream \<times> (net_error + isc_message \<times> byte list)" where
  "read_isc_message s =
     sbind (read_exact ''failed to read message length'' 4 s) (\<lambda>len_buf s.
     let payload_len = unat (read_frame_length len_buf) in
     if payload_len = 0 then (s, Inl (Protocol ''received zero-length rndc message''))
     else if payload_len > max_message_size then
       (s, Inl (Protocol (''rndc message too large: '' @ show_nat payload_len @ '' bytes (max ''
              @ show_nat max_message_size @ '')'')))
     else sbind (read_exact ''failed to read message payload'' payload_len s) (\<lambda>payload s.
       (s, decode_authenticated_payload payload)))"

section \<open>Texts of a response\<close>

fun render_isc_value :: "byte_codec \<Rightarrow> isc_value \<Rightarrow> string" where
  "render_isc_value b64 (IscString s) = s"
| "render_isc_value b64 (IscBinary bs) = codec_encode b64 bs"
| "render_isc_value b64 (IscMap m) =
     ''{'' @ join_with '', '' (map (\<lambda>(k, v). k @ '': '' @ render_isc_value b64 v) m) @ ''}''"

definition extract_data_field :: "byte_codec \<Rightarrow> isc_map \<Rightarrow> string \<Rightarrow> string option" where
  "extract_data_field b64 data k = map_option (render_isc_value b64) (btree_get data k)"

definition render_unstructured_fields :: "byte_codec \<Rightarrow> isc_map \<Rightarrow> string option" where
  "render_unstructured_fields b64 data =
     (let rendered = map (\<lambda>(k, v). k @ '': '' @ render_isc_value b64 v)
            (filter (\<lambda>(k, _). k \<noteq> ''result'' \<and> k \<noteq> ''type'') data)
      in if rendered = [] then None else Some (join_with newline rendered))"

definition or_else :: "'a option \<Rightarrow> 'a option \<Rightarrow> 'a option" where
  "or_else a b = (case a of Some x \<Rightarrow> Some x | None \<Rightarrow> b)"

definition extract_error_text :: "byte_codec \<Rightarrow> isc_message \<Rightarrow> string option" where
  "extract_error_text b64 response = Option.bind (get_map response ''_data'') (\<lambda>d.
     or_else (extract_data_field b64 d ''err'')
       (or_else (extract_data_field b64 d ''text'') (render_unstructured_fields b64 d)))"

definition extract_response_text :: "byte_codec \<Rightarrow> isc_map \<Rightarrow> string option" where
  "extract_response_text b64 data =
     or_else (extract_data_field b64 data ''text'') (render_unstructured_fields b64 data)"

section \<open>The client\<close>

text \<open>
  One exchange: the signed request is written, one message is read and verified. \<open>what\<close> is
  the text of a failed write.
\<close>

definition exchange ::
  "mac_lib \<Rightarrow> byte_codec \<Rightarrow> string \<Rightarrow> tsig_key \<Rightarrow> u32 \<Rightarrow> u64 \<Rightarrow> string option \<Rightarrow> string \<Rightarrow> rndc_stream
     \<Rightarrow> rndc_stream \<times> (net_error + isc_message)" where
  "exchange lib b64 what key serial now nonce cmd_text s =
     sbind (s, build_request lib b64 key serial now nonce cmd_text) (\<lambda>frame s.
     sbind (write_all what frame s) (\<lambda>_ s.
     sbind (read_isc_message s) (\<lambda>(response, hmac_raw_input) s.
     (s, rmap (\<lambda>_. response)
       (verify_authenticated_response lib b64 key response hmac_raw_input serial now nonce (Some cmd_text))))))"

definition authenticate ::
  "mac_lib \<Rightarrow> byte_codec \<Rightarrow> net_error + u64 \<Rightarrow> net_error + byte list \<Rightarrow> tsig_key \<Rightarrow> rndc_stream
     \<Rightarrow> rndc_stream \<times> (net_error + rndc_auth)" where
  "authenticate lib b64 clock random key s =
     sbind (s, clock) (\<lambda>now s.
     sbind (s, random) (\<lambda>nonce_bytes s.
     let serial = u32_of_be (take 4 nonce_bytes) in
     sbind (exchange lib b64 ''failed to send auth message'' key serial now None ''null'' s) (\<lambda>response s.
     let nonce = Option.bind (get_map response ''_ctrl'') (\<lambda>c. map_string c ''_nonce'') in
     (s, case Option.bind (get_map response ''_data'') (\<lambda>d. map_string d ''result'') of
       Some code \<Rightarrow>
         (if code = ''0'' then Inr \<lparr>ra_key = key, ra_serial = serial, ra_nonce = nonce\<rparr>
          else Inl (AuthFailed (''result code '' @ code @ '': ''
                 @ (case extract_error_text b64 response of Some e \<Rightarrow> e
                    | None \<Rightarrow> ''server rejected authentication''))))
     | None \<Rightarrow> Inl (AuthFailed ''server response missing _data.result field'')))))"

text \<open>What the caller gets for a verified response.\<close>

definition interpret_response :: "byte_codec \<Rightarrow> isc_message \<Rightarrow> rndc_response" where
  "interpret_response b64 response =
     (let data_map = get_map response ''_data'';
          result_code = (case Option.bind data_map (\<lambda>d. map_string d ''result'') of Some c \<Rightarrow> c | None \<Rightarrow> []);
          text = (case Option.bind data_map (extract_response_text b64) of Some t \<Rightarrow> t | None \<Rightarrow> [])
      in if result_code = ''0'' then response_from_text text
         else response_from_text (''rndc: ''
           @ (if text = [] then ''rndc command failed with result code '' @ result_code else text)))"

text \<open>
  \<open>command\<close>: the serial is advanced first, so the connection changes also when the command
  fails. \<open>command_exchange\<close> is its part up to the verified response.
\<close>

definition command_exchange ::
  "mac_lib \<Rightarrow> byte_codec \<Rightarrow> net_error + u64 \<Rightarrow> rndc_command \<Rightarrow> rndc_connection
     \<Rightarrow> rndc_connection \<times> (net_error + isc_message)" where
  "command_exchange lib b64 clock cmd conn =
     (let cmd_text = to_command_string cmd;
          auth = (rc_auth conn)\<lparr>ra_serial := ra_serial (rc_auth conn) + 1\<rparr>;
          (s, result) = sbind (rc_stream conn, clock) (\<lambda>now.
             exchange lib b64 ''failed to send command'' (ra_key auth) (ra_serial auth) now (ra_nonce auth) cmd_text)
      in (\<lparr>rc_stream = s, rc_auth = auth\<rparr>, result))"

definition send_command ::
  "mac_lib \<Rightarrow> byte_codec \<Rightarrow> net_error + u64 \<Rightarrow> rndc_command \<Rightarrow> rndc_connection
     \<Rightarrow> rndc_connection \<times> (net_error + rndc_response)" where
  "send_command lib b64 clock cmd conn =
     (let (conn, result) = command_exchange lib b64 clock cmd conn
      in (conn, rmap (interpret_response b64) result))"

text \<open>A session: commands one after the other, with the time each is sent at.\<close>

fun run_session ::
  "mac_lib \<Rightarrow> byte_codec \<Rightarrow> rndc_connection \<Rightarrow> ((net_error + u64) \<times> rndc_command) list
     \<Rightarrow> rndc_connection \<times> (net_error + isc_message) list" where
  "run_session lib b64 conn [] = (conn, [])"
| "run_session lib b64 conn ((clock, cmd) # cmds) =
     (let (conn, result) = command_exchange lib b64 clock cmd conn;
          (conn, results) = run_session lib b64 conn cmds
      in (conn, result # results))"

section \<open>What an accepted response implies\<close>

lemma sbind_eq_Inr [result_simps]:
  "sbind m f = (s', Inr y) \<longleftrightarrow> (\<exists>s x. m = (s, Inr x) \<and> f x s = (s', Inr y))"
  by (cases m; cases "snd m") auto

lemma write_all_Inr: "write_all what bs s = (s', Inr ()) \<Longrightarrow> st_incoming s' = st_incoming s"
  by (auto simp: write_all_def split: option.splits)

lemma read_exact_Inr:
  "read_exact what n s = (s', Inr bs) \<Longrightarrow> st_incoming s = bs @ st_incoming s' \<and> length bs = n"
  by (auto simp: read_exact_def split: if_splits)

lemma read_isc_message_Inr:
  assumes "read_isc_message s = (s', Inr r)"
  obtains payload where "st_incoming s = u32_be (word_of_nat (length payload)) @ payload @ st_incoming s'"
    "length payload \<le> max_message_size" "decode_authenticated_payload payload = Inr r"
proof -
  from assms obtain len s1 payload where len: "read_exact ''failed to read message length'' 4 s = (s1, Inr len)"
    and size: "unat (read_frame_length len) \<le> max_message_size"
    and payload: "read_exact ''failed to read message payload'' (unat (read_frame_length len)) s1 = (s', Inr payload)"
    and r: "decode_authenticated_payload payload = Inr r"
    by (auto simp: read_isc_message_def result_simps Let_def split: if_splits)
  from read_exact_Inr [OF len] read_exact_Inr [OF payload]
  have "st_incoming s = len @ payload @ st_incoming s'" "length len = 4"
    "length payload = unat (read_frame_length len)" by auto
  moreover from this have "u32_be (word_of_nat (length payload)) = len"
    by (simp add: read_frame_length_def uN_be_inv)
  ultimately show thesis using size r by (intro that [of payload]) simp_all
qed

text \<open>
  The MAC that the octets of \<open>_auth.hsha\<close> carry: 89 octets, the one of the algorithm, the base64
  text of the MAC and padding with zeros.
\<close>

definition carries_mac :: "byte_codec \<Rightarrow> tsig_algorithm \<Rightarrow> byte list \<Rightarrow> byte list \<Rightarrow> bool" where
  "carries_mac b64 alg hmac mac \<longleftrightarrow>
     (\<exists>a encoded. isccc_algorithm_byte alg = Inr a \<and> encoded \<noteq> [] \<and> 0 \<notin> set encoded \<and> utf8_valid encoded
        \<and> length encoded \<le> 88 \<and> hmac = a # encoded @ replicate (88 - length encoded) 0
        \<and> codec_decode b64 (of_bytes encoded) = Some mac)"

lemma zero_padded:
  assumes "\<not> list_ex (\<lambda>b. b \<noteq> 0) (dropWhile P xs)"
  shows "takeWhile P xs @ replicate (length xs - length (takeWhile P xs)) 0 = xs"
proof -
  have "\<forall>b \<in> set (dropWhile P xs). b = 0" using assms by (simp add: list_ex_iff)
  from replicate_length_same [OF this]
  have "replicate (length (dropWhile P xs)) 0 = dropWhile P xs" .
  moreover have "length (dropWhile P xs) = length xs - length (takeWhile P xs)"
    by (metis add_diff_cancel_left' length_append takeWhile_dropWhile_id)
  ultimately show ?thesis by (metis takeWhile_dropWhile_id)
qed

lemma verify_isccc_hmac_Inr:
  assumes "verify_isccc_hmac lib b64 key input received = Inr ()"
  obtains mac where "carries_mac b64 (key_algorithm key) received mac"
    "mac_check lib (key_algorithm key) (key_material key) input mac = Some True"
proof -
  let ?t = "takeWhile (\<lambda>b. b \<noteq> 0) (drop 1 received)"
  from assms obtain a mac where len: "length received = 89" and a: "isccc_algorithm_byte (key_algorithm key) = Inr a"
    "received ! 0 = a" and t: "?t \<noteq> []" "utf8_valid ?t" "codec_decode b64 (of_bytes ?t) = Some mac"
    and pad: "\<not> list_ex (\<lambda>b. b \<noteq> 0) (dropWhile (\<lambda>b. b \<noteq> 0) (drop 1 received))"
    and mac: "key_verify lib key input mac = Inr ()"
    by (auto simp: verify_isccc_hmac_def isccc_hmac_buf_size_def result_simps Let_def split: if_splits)
  have "length ?t \<le> 88" using len length_takeWhile_le [of "\<lambda>b. b \<noteq> 0" "drop 1 received"] by simp
  moreover have "0 \<notin> set ?t" by (metis (mono_tags) set_takeWhileD)
  moreover obtain tail where "received = a # tail" "length tail = 88"
    using len a(2) by (cases received) auto
  with zero_padded [OF pad] have "received = a # ?t @ replicate (88 - length ?t) 0" by simp
  ultimately have "carries_mac b64 (key_algorithm key) received mac"
    unfolding carries_mac_def using a t by blast
  moreover have "mac_check lib (key_algorithm key) (key_material key) input mac = Some True"
    using mac by (auto simp: key_verify_def result_simps split: if_splits)
  ultimately show thesis by (rule that)
qed

text \<open>The checks of the control table, in one formula.\<close>

definition ctrl_accepted :: "isc_map \<Rightarrow> u32 \<Rightarrow> u64 \<Rightarrow> string option \<Rightarrow> bool" where
  "ctrl_accepted ctrl serial now nonce \<longleftrightarrow>
     map_string ctrl ''_ser'' = Some (show_nat (unat serial))
     \<and> (\<exists>tim t ex e. map_string ctrl ''_tim'' = Some tim \<and> parse_u64 tim = Some t
          \<and> now \<le> t \<and> t \<le> saturating_add now isccc_expiry_secs
          \<and> map_string ctrl ''_exp'' = Some ex \<and> parse_u64 ex = Some e
          \<and> e = saturating_add t isccc_expiry_secs)
     \<and> map_string ctrl ''_rpl'' = Some ''1''
     \<and> (\<exists>n. map_string ctrl ''_nonce'' = Some n \<and> (nonce = None \<or> nonce = Some n))"

lemma validate_response_ctrl_iff:
  "validate_response_ctrl ctrl serial now nonce = Inr () \<longleftrightarrow> ctrl_accepted ctrl serial now nonce"
  unfolding validate_response_ctrl_def ctrl_accepted_def require_ctrl_def Let_def
  by (cases nonce) (auto simp: result_simps split: if_splits)

lemma verify_authenticated_response_Inr:
  "verify_authenticated_response lib b64 key response input serial now nonce (Some cmd) = Inr () \<Longrightarrow>
     \<exists>auth ctrl data hmac. get_map response ''_auth'' = Some auth \<and> get_map response ''_ctrl'' = Some ctrl
       \<and> get_map response ''_data'' = Some data \<and> btree_get auth ''hsha'' = Some (IscBinary hmac)
       \<and> verify_isccc_hmac lib b64 key input hmac = Inr () \<and> ctrl_accepted ctrl serial now nonce
       \<and> (map_string data ''type'' = None \<or> map_string data ''type'' = Some cmd)"
proof -
  assume ok: "verify_authenticated_response lib b64 key response input serial now nonce (Some cmd) = Inr ()"
  then obtain auth where a: "get_map response ''_auth'' = Some auth"
    by (auto simp: verify_authenticated_response_def result_simps)
  with ok obtain ctrl where c: "get_map response ''_ctrl'' = Some ctrl"
    by (auto simp: verify_authenticated_response_def result_simps)
  with a ok obtain data where d: "get_map response ''_data'' = Some data"
    by (auto simp: verify_authenticated_response_def result_simps)
  from a c d ok obtain hmac where h: "btree_get auth ''hsha'' = Some (IscBinary hmac)"
    by (auto simp: verify_authenticated_response_def result_simps split: option.splits isc_value.splits)
  from a c d h ok show ?thesis
    by (cases "map_string data ''type''")
       (auto simp: verify_authenticated_response_def result_simps simp flip: validate_response_ctrl_iff
          split: if_splits)
qed

lemma get_map_iff: "get_map m k = Some t \<longleftrightarrow> btree_get (isc_data m) k = Some (IscMap t)"
  by (auto simp: get_map_def split: option.splits isc_value.splits)

lemma exchange_Inr:
  assumes "exchange lib b64 what key serial now nonce cmd s = (s', Inr response)"
  obtains payload input where
    "st_incoming s = u32_be (word_of_nat (length payload)) @ payload @ st_incoming s'"
    "extract_hmac_input payload = Some input" "isc_decode payload = Inr response"
    "verify_authenticated_response lib b64 key response input serial now nonce (Some cmd) = Inr ()"
proof -
  from assms obtain s1 s2 input where s1: "st_incoming s1 = st_incoming s"
    and read: "read_isc_message s1 = (s', Inr (response, input))"
    and ok: "verify_authenticated_response lib b64 key response input serial now nonce (Some cmd) = Inr ()"
    by (auto simp: exchange_def result_simps dest!: write_all_Inr)
  from read obtain payload where
    "st_incoming s1 = u32_be (word_of_nat (length payload)) @ payload @ st_incoming s'"
    "decode_authenticated_payload payload = Inr (response, input)"
    by (rule read_isc_message_Inr)
  with s1 ok show thesis
    by (intro that [of payload input]) (auto simp: decode_authenticated_payload_def result_simps)
qed

lemma extract_hmac_suffix:
  "extract_hmac_input payload = Some input \<Longrightarrow> \<exists>auth. payload = auth @ input"
  by (erule extract_hmac_header) (metis append_take_drop_id)

text \<open>
  The octets \<open>incoming\<close> begin with a frame, after which \<open>rest\<close> follows. The frame holds the
  response, whose table \<open>_auth\<close> carries a MAC that is valid under the key for the octets of the
  frame after its first part; the control and data tables are decoded from these octets, and the
  control table answers the request.
\<close>

definition signed_frame ::
  "mac_lib \<Rightarrow> byte_codec \<Rightarrow> tsig_key \<Rightarrow> u32 \<Rightarrow> u64 \<Rightarrow> string option \<Rightarrow> string
     \<Rightarrow> byte list \<Rightarrow> isc_message \<Rightarrow> byte list \<Rightarrow> bool" where
  "signed_frame lib b64 key serial now nonce cmd incoming response rest \<longleftrightarrow>
     (\<exists>auth_part signed_part auth hmac mac signed ctrl data.
        incoming = u32_be (word_of_nat (length (auth_part @ signed_part))) @ auth_part @ signed_part @ rest
      \<and> isc_decode (auth_part @ signed_part) = Inr response
      \<and> get_map response ''_auth'' = Some auth \<and> btree_get auth ''hsha'' = Some (IscBinary hmac)
      \<and> carries_mac b64 (key_algorithm key) hmac mac
      \<and> mac_check lib (key_algorithm key) (key_material key) signed_part mac = Some True
      \<and> decode_map signed_part 0 0 = Inr signed
      \<and> btree_get signed ''_ctrl'' = Some (IscMap ctrl) \<and> get_map response ''_ctrl'' = Some ctrl
      \<and> btree_get signed ''_data'' = Some (IscMap data) \<and> get_map response ''_data'' = Some data
      \<and> ctrl_accepted ctrl serial now nonce
      \<and> (map_string data ''type'' = None \<or> map_string data ''type'' = Some cmd))"

lemma exchange_signed:
  assumes "exchange lib b64 what key serial now nonce cmd s = (s', Inr response)"
  shows "signed_frame lib b64 key serial now nonce cmd (st_incoming s) response (st_incoming s')"
proof -
  obtain payload input where incoming: "st_incoming s = u32_be (word_of_nat (length payload)) @ payload @ st_incoming s'"
    and input: "extract_hmac_input payload = Some input" and decode: "isc_decode payload = Inr response"
    and ok: "verify_authenticated_response lib b64 key response input serial now nonce (Some cmd) = Inr ()"
    by (rule exchange_Inr [OF assms])
  from verify_authenticated_response_Inr [OF ok] obtain auth ctrl data hmac where
    auth: "get_map response ''_auth'' = Some auth" "btree_get auth ''hsha'' = Some (IscBinary hmac)"
    and ctrl: "get_map response ''_ctrl'' = Some ctrl" and data: "get_map response ''_data'' = Some data"
    and hmac: "verify_isccc_hmac lib b64 key input hmac = Inr ()"
    and accepted: "ctrl_accepted ctrl serial now nonce"
      "map_string data ''type'' = None \<or> map_string data ''type'' = Some cmd" by blast
  obtain mac where mac: "carries_mac b64 (key_algorithm key) hmac mac"
    "mac_check lib (key_algorithm key) (key_material key) input mac = Some True"
    by (rule verify_isccc_hmac_Inr [OF hmac])
  from signed_part_decoded [OF input decode] obtain signed where signed: "decode_map input 0 0 = Inr signed"
    and same: "\<forall>k. k \<noteq> ''_auth'' \<longrightarrow> btree_get (isc_data response) k = btree_get signed k" by blast
  from extract_hmac_suffix [OF input] obtain first where payload: "payload = first @ input" by blast
  have "btree_get signed ''_ctrl'' = Some (IscMap ctrl)" "btree_get signed ''_data'' = Some (IscMap data)"
    using ctrl data same by (auto simp: get_map_iff)
  then show ?thesis
    unfolding signed_frame_def using incoming [unfolded payload append_assoc] decode [unfolded payload] auth mac signed ctrl data accepted
    unfolding payload append_assoc by blast
qed

text \<open>One command is answered by a signed frame of the stream for its serial and nonce.\<close>

lemma command_exchange_signed:
  assumes "command_exchange lib b64 clock cmd conn = (conn', Inr msg)"
  obtains now where "clock = Inr now"
    "signed_frame lib b64 (ra_key (rc_auth conn)) (ra_serial (rc_auth conn) + 1) now (ra_nonce (rc_auth conn))
      (to_command_string cmd) (st_incoming (rc_stream conn)) msg (st_incoming (rc_stream conn'))"
proof -
  from assms obtain now s where "clock = Inr now" "rc_stream conn' = s"
    "exchange lib b64 ''failed to send command'' (ra_key (rc_auth conn)) (ra_serial (rc_auth conn) + 1) now
       (ra_nonce (rc_auth conn)) (to_command_string cmd) (rc_stream conn) = (s, Inr msg)"
    by (auto simp: command_exchange_def Let_def result_simps split: prod.splits)
  then show thesis using exchange_signed that by blast
qed

text \<open>
  A session is opened by a signed frame that answers the request \<open>null\<close> with the random serial and
  reports success; its nonce becomes the nonce of the session.
\<close>

lemma authenticate_signed:
  assumes "authenticate lib b64 clock random key s = (s', Inr auth)"
  obtains now nonce_bytes hello ctrl data where "clock = Inr now" "random = Inr nonce_bytes"
    "signed_frame lib b64 key (u32_of_be (take 4 nonce_bytes)) now None ''null'' (st_incoming s) hello (st_incoming s')"
    "get_map hello ''_ctrl'' = Some ctrl" "get_map hello ''_data'' = Some data" "map_string data ''result'' = Some ''0''"
    "auth = \<lparr>ra_key = key, ra_serial = u32_of_be (take 4 nonce_bytes), ra_nonce = map_string ctrl ''_nonce''\<rparr>"
proof -
  from assms obtain now nonce_bytes hello where
    c: "clock = Inr now" "random = Inr nonce_bytes" and
    ex: "exchange lib b64 ''failed to send auth message'' key (u32_of_be (take 4 nonce_bytes)) now None ''null'' s = (s', Inr hello)"
    and code: "Option.bind (get_map hello ''_data'') (\<lambda>d. map_string d ''result'') = Some ''0''"
    and auth: "auth = \<lparr>ra_key = key, ra_serial = u32_of_be (take 4 nonce_bytes),
      ra_nonce = Option.bind (get_map hello ''_ctrl'') (\<lambda>c. map_string c ''_nonce'')\<rparr>"
    unfolding authenticate_def Let_def sbind_eq_Inr prod.inject
    by (elim exE conjE) (simp split: option.split_asm if_split_asm)
  note frame = exchange_signed [OF ex]
  then obtain ctrl data where "get_map hello ''_ctrl'' = Some ctrl" "get_map hello ''_data'' = Some data"
    unfolding signed_frame_def by blast
  with c frame code auth show thesis by (intro that) simp_all
qed

section \<open>What an honest server sends\<close>

text \<open>
  The control table of a reply: the serial of the request, the time of the server, its expiry,
  the reply flag and a nonce. The reply carries the tables in the order \<open>_auth\<close>, \<open>_ctrl\<close>,
  \<open>_data\<close> and the signature of the last two.
\<close>

definition reply_ctrl :: "u32 \<Rightarrow> u64 \<Rightarrow> string \<Rightarrow> isc_map" where
  "reply_ctrl serial t n = btree_insert ''_rpl'' (IscString ''1'') (build_ctrl_table serial t (Some n))"

definition reply_message :: "byte list \<Rightarrow> isc_map \<Rightarrow> isc_map \<Rightarrow> isc_message" where
  "reply_message hmac ctrl data =
     \<lparr>isc_data = [(''_auth'', IscMap [(''hsha'', IscBinary hmac)]), (''_ctrl'', IscMap ctrl), (''_data'', IscMap data)]\<rparr>"

text \<open>The base64 text of this tag decodes to it and fits the buffer.\<close>

definition b64_fits :: "byte_codec \<Rightarrow> byte list \<Rightarrow> bool" where
  "b64_fits b64 t \<longleftrightarrow> codec_decode b64 (codec_encode b64 t) = Some t
     \<and> codec_encode b64 t \<noteq> [] \<and> length (codec_encode b64 t) \<le> 88
     \<and> list_all (\<lambda>c. 0 < code_of c \<and> code_of c < 128) (codec_encode b64 t)"

lemma reply_ctrl_table:
  "reply_ctrl serial t n =
     [(''_exp'', IscString (show_nat (unat (t + isccc_expiry_secs)))), (''_nonce'', IscString n),
      (''_rpl'', IscString ''1''), (''_ser'', IscString (show_nat (unat serial))),
      (''_tim'', IscString (show_nat (unat t)))]"
  by (simp add: reply_ctrl_def build_ctrl_table_def Let_def)

lemma show_nat_utf8: "utf8_valid (as_bytes (show_nat n))"
proof (rule utf8_valid_ascii)
  show "\<forall>b\<in>set (as_bytes (show_nat n)). unat b < 128"
    using show_nat_digits [of n]
    by (auto simp: list_all_iff is_ascii_digit_def as_bytes_def byte_of_char_def unat_of_nat)
qed

lemma table_keys_utf8:
  "utf8_valid (as_bytes ''_auth'')" "utf8_valid (as_bytes ''_ctrl'')" "utf8_valid (as_bytes ''_data'')"
  "utf8_valid (as_bytes ''hsha'')" "utf8_valid (as_bytes ''_exp'')" "utf8_valid (as_bytes ''_nonce'')"
  "utf8_valid (as_bytes ''_rpl'')" "utf8_valid (as_bytes ''_ser'')" "utf8_valid (as_bytes ''_tim'')"
  "utf8_valid (as_bytes ''1'')"
  by code_simp+

lemma reply_ctrl_wf:
  "utf8_valid (as_bytes n) \<Longrightarrow> value_wf (Suc d) (IscMap (reply_ctrl serial t n))"
  by (simp add: reply_ctrl_table btree_sorted_def table_keys_utf8 show_nat_utf8)

lemma reply_ctrl_canon: "canon_map (reply_ctrl serial t n) = reply_ctrl serial t n"
  by (simp add: reply_ctrl_table)

lemma reply_ctrl_accepted:
  assumes "now \<le> t" "unat t \<le> unat now + 60" "unat t + 60 < 2 ^ 64" "nonce = None \<or> nonce = Some n"
  shows "ctrl_accepted (reply_ctrl serial t n) serial now nonce"
proof -
  have "unat now + 60 < 2 ^ 64" using assms(1,3) by (simp add: word_le_nat_alt)
  then have "t \<le> saturating_add now isccc_expiry_secs"
    using assms(2) by (simp add: saturating_add_def isccc_expiry_secs_def word_le_nat_alt unat_word_ariths)
  moreover have "t + isccc_expiry_secs = saturating_add t isccc_expiry_secs"
    using assms(3) by (simp add: saturating_add_def isccc_expiry_secs_def)
  ultimately show ?thesis
    using assms(1,4) unfolding ctrl_accepted_def
    by (auto simp: reply_ctrl_table map_string_def btree_get_def parse_show_words)
qed

lemma reply_message_wf:
  assumes "utf8_valid (as_bytes n)" "value_wf 32 (IscMap data)"
  shows "message_wf (reply_message hmac (reply_ctrl serial t n) data)"
  using assms reply_ctrl_wf [OF assms(1), of 31 serial t]
  by (simp add: message_wf_def reply_message_def entries_wf_def btree_sorted_def table_keys_utf8
      max_decode_depth_def del: value_wf.simps)
     (simp add: btree_sorted_def table_keys_utf8)

lemma byte_of_char_small:
  "code_of c < 128 \<Longrightarrow> unat (byte_of_char c) = code_of c"
  by (simp add: byte_of_char_def unat_of_nat)

lemma verify_signed_body:
  assumes "mac_lib_ok lib" "sign_rndc_body lib b64 key ctrl data = Inr hmac"
    "encode_map [(''_ctrl'', IscMap ctrl), (''_data'', IscMap data)] = Inr body"
    "\<And>t. mac_tag lib (key_algorithm key) (key_material key) body = Some t \<Longrightarrow> b64_fits b64 t"
  shows "verify_isccc_hmac lib b64 key body hmac = Inr ()"
    "length hmac = 89" "\<not> utf8_valid hmac"
proof -
  have body: "encode_body (insert_map ''_data'' data (insert_map ''_ctrl'' ctrl isc_new)) = Inr body"
    using assms(3) by (simp add: encode_body_def insert_map_def isc_new_def)
  obtain t where t: "mac_tag lib (key_algorithm key) (key_material key) body = Some t"
    and check: "mac_check lib (key_algorithm key) (key_material key) body t = Some True"
    using assms(1) unfolding mac_lib_ok_def by fastforce
  obtain algo where algo: "isccc_algorithm_byte (key_algorithm key) = Inr algo" "128 \<le> unat algo" "unat algo < 192"
    by (cases "key_algorithm key") simp_all
  define enc where "enc = as_bytes (codec_encode b64 t)"
  note fits = assms(4) [OF t]
  have enc: "enc \<noteq> []" "length enc \<le> 88" "\<forall>b \<in> set enc. b \<noteq> 0 \<and> unat b < 128"
    using fits byte_of_char_small
    by (auto simp: b64_fits_def enc_def as_bytes_def list_all_iff simp flip: unat_eq_zero)
  have hmac: "hmac = algo # enc @ replicate (88 - length enc) 0"
    using assms(2) t algo(1) enc(2) body
    by (auto simp: sign_rndc_body_def key_sign_def resize_def isccc_hmac_buf_size_def enc_def result_simps)
  show len: "length hmac = 89" using enc(2) by (simp add: hmac)
  show "\<not> utf8_valid hmac" using algo(2,3) by (simp add: hmac byte_in_def)
  have split: "takeWhile (\<lambda>b. b \<noteq> 0) (enc @ replicate k 0) = enc"
    "dropWhile (\<lambda>b. b \<noteq> 0) (enc @ replicate k 0) = replicate k 0" for k
    using enc(3) by (simp_all add: takeWhile_append takeWhile_replicate dropWhile_append dropWhile_replicate)
  have "utf8_valid enc" using enc(3) by (intro utf8_valid_ascii) auto
  moreover have "codec_decode b64 (of_bytes enc) = Some t" using fits by (simp add: b64_fits_def enc_def)
  moreover have "hmac ! 0 = algo" "drop 1 hmac = enc @ replicate (88 - length enc) 0" by (simp_all add: hmac)
  moreover have "key_verify lib key body t = Inr ()" using check by (simp add: key_verify_def)
  moreover have "\<not> list_ex (\<lambda>b. b \<noteq> 0) (replicate k (0 :: byte))" for k by (auto simp: list_ex_iff)
  ultimately show "verify_isccc_hmac lib b64 key body hmac = Inr ()"
    using len algo(1) enc(1) split
    by (simp add: verify_isccc_hmac_def isccc_hmac_buf_size_def Let_def del: drop_Suc_Cons)
qed

lemma of_bytes_eq_iff: "of_bytes bs = s \<longleftrightarrow> bs = as_bytes s"
  by auto

lemma extract_hmac_written:
  assumes "length val \<le> 4294967295"
  shows "extract_hmac_input (u32_be v @ entry_octets ''_auth'' tag val @ body) = Some body"
proof -
  let ?p = "u32_be v @ entry_octets ''_auth'' tag val @ body"
  have auth: "utf8_valid (as_bytes ''_auth'')" by (rule table_keys_utf8)
  have "decode_header ?p 4 = Inr (''_auth'', tag, 15, length val)"
    using decode_header_written [OF auth _ assms, of "u32_be v" tag body] by simp
  moreover have "drop (length (u32_be v @ entry_octets ''_auth'' tag val)) ?p = body" by simp
  then have "drop (15 + length val) ?p = body" by (simp add: add.commute)
  moreover have "?p ! 4 = 5" by (simp add: entry_octets_def nth_append)
  ultimately show ?thesis
    by (auto simp: extract_hmac_input_def decode_header_def of_bytes_eq_iff Let_def split: if_splits)
qed

lemma reply_decoded:
  assumes "frame_message (reply_message hmac (reply_ctrl serial t n) data) = Inr frame"
    "utf8_valid (as_bytes n)" "value_wf 32 (IscMap data)" "\<not> utf8_valid hmac"
    "encode_map [(''_ctrl'', IscMap (reply_ctrl serial t n)), (''_data'', IscMap data)] = Inr body"
  obtains payload where "frame = u32_be (word_of_nat (length payload)) @ payload" "length payload \<le> 4294967295"
    "payload \<noteq> []" "decode_authenticated_payload payload
       = Inr (reply_message hmac (reply_ctrl serial t n) (canon_map data), body)"
proof -
  let ?m = "reply_message hmac (reply_ctrl serial t n) data"
  from assms(1) obtain payload where payload: "isc_encode ?m = Inr payload" "length payload \<le> 4294967295"
    "frame = u32_be (word_of_nat (length payload)) @ payload"
    by (auto simp: frame_message_def result_simps split: if_splits)
  have canon: "canon_map (isc_data ?m) = isc_data (reply_message hmac (reply_ctrl serial t n) (canon_map data))"
    using assms(4) reply_ctrl_canon by (simp add: reply_message_def decode_binary_def)
  have "isc_decode payload = Inr (reply_message hmac (reply_ctrl serial t n) (canon_map data))"
    using decode_encoded_message [OF payload(1) reply_message_wf [OF assms(2,3)]] canon
    by (simp add: reply_message_def)
  moreover from payload(1) assms(5) obtain val where val: "length val \<le> 4294967295"
    "payload = u32_be 1 @ entry_octets ''_auth'' isccc_type_table val @ body"
    unfolding isc_encode_Inr reply_message_def
    by (auto simp: result_simps encode_key_Inr encode_tagged_Inr entry_octets_def simp del: encode_map.simps(1-3))
  moreover have "length payload = 4 + (11 + length val) + length body" by (simp add: val(2))
  then have "payload \<noteq> []" by auto
  ultimately show thesis
    using payload extract_hmac_written [OF val(1)]
    by (intro that [of payload]) (simp_all add: decode_authenticated_payload_def)
qed

lemma honest_exchange:
  assumes "mac_lib_ok lib" "build_request lib b64 key serial now nonce cmd = Inr request"
    "sign_rndc_body lib b64 key (reply_ctrl serial t n) data = Inr hmac"
    "frame_message (reply_message hmac (reply_ctrl serial t n) data) = Inr frame"
    "length frame \<le> 4 + max_message_size"
    "\<And>m tag. mac_tag lib (key_algorithm key) (key_material key) m = Some tag \<Longrightarrow> b64_fits b64 tag"
    "utf8_valid (as_bytes n)" "value_wf 32 (IscMap data)"
    "now \<le> t" "unat t \<le> unat now + 60" "unat t + 60 < 2 ^ 64" "nonce = None \<or> nonce = Some n"
    "map_string (canon_map data) ''type'' = None \<or> map_string (canon_map data) ''type'' = Some cmd"
    "st_incoming s = frame @ rest" "st_write_error s = None"
  shows "exchange lib b64 what key serial now nonce cmd s =
      (s\<lparr>st_written := st_written s @ request, st_incoming := rest\<rparr>,
       Inr (reply_message hmac (reply_ctrl serial t n) (canon_map data)))"
proof -
  let ?r = "reply_message hmac (reply_ctrl serial t n) (canon_map data)"
  obtain body where body: "encode_map [(''_ctrl'', IscMap (reply_ctrl serial t n)), (''_data'', IscMap data)] = Inr body"
    using assms(3) by (auto simp: sign_rndc_body_def encode_body_def insert_map_def isc_new_def result_simps
        simp del: encode_map.simps)
  have hmac: "verify_isccc_hmac lib b64 key body hmac = Inr ()" "\<not> utf8_valid hmac"
    using verify_signed_body [OF assms(1,3) body] assms(6) by blast+
  obtain payload where frame: "frame = u32_be (word_of_nat (length payload)) @ payload"
    and len: "length payload \<le> 4294967295" "payload \<noteq> []"
    and decoded: "decode_authenticated_payload payload = Inr (?r, body)"
    using reply_decoded [OF assms(4,7,8) hmac(2) body] by blast
  have "validate_response_ctrl (reply_ctrl serial t n) serial now nonce = Inr ()"
    using reply_ctrl_accepted [OF assms(9-12)] by (simp add: validate_response_ctrl_iff)
  then have "verify_authenticated_response lib b64 key ?r body serial now nonce (Some cmd) = Inr ()"
    using hmac(1) assms(13)
    by (auto simp: verify_authenticated_response_def reply_message_def get_map_def btree_get_def)
  moreover have "read_isc_message (s\<lparr>st_written := st_written s @ request\<rparr>)
      = (s\<lparr>st_written := st_written s @ request, st_incoming := rest\<rparr>, Inr (?r, body))"
    using assms(5,14) len frame decoded
    by (simp add: read_isc_message_def read_exact_def read_frame_length_def Let_def unat_word_of_nat)
  ultimately show ?thesis
    using assms(2,15) by (simp add: exchange_def write_all_def)
qed

section \<open>The state of a session\<close>

lemma command_exchange_state:
  assumes "command_exchange lib b64 clock cmd conn = (conn', result)"
  shows "rc_auth conn' = (rc_auth conn)\<lparr>ra_serial := ra_serial (rc_auth conn) + 1\<rparr>"
    "result = Inr response \<Longrightarrow> \<exists>ctrl now. get_map response ''_ctrl'' = Some ctrl
       \<and> ctrl_accepted ctrl (ra_serial (rc_auth conn) + 1) now (ra_nonce (rc_auth conn))"
proof -
  show "rc_auth conn' = (rc_auth conn)\<lparr>ra_serial := ra_serial (rc_auth conn) + 1\<rparr>"
    using assms by (auto simp: command_exchange_def Let_def split: prod.splits)
  show "\<exists>ctrl now. get_map response ''_ctrl'' = Some ctrl
       \<and> ctrl_accepted ctrl (ra_serial (rc_auth conn) + 1) now (ra_nonce (rc_auth conn))"
    if "result = Inr response"
  proof -
    from that assms obtain now s where
      "exchange lib b64 ''failed to send command'' (ra_key (rc_auth conn)) (ra_serial (rc_auth conn) + 1) now
         (ra_nonce (rc_auth conn)) (to_command_string cmd) (rc_stream conn) = (s, Inr response)"
      by (auto simp: command_exchange_def Let_def result_simps split: prod.splits)
    from exchange_Inr [OF this] verify_authenticated_response_Inr show ?thesis by metis
  qed
qed

lemma run_session_state:
  "run_session lib b64 conn cmds = (conn', results) \<Longrightarrow>
     length results = length cmds
     \<and> rc_auth conn' = (rc_auth conn)\<lparr>ra_serial := ra_serial (rc_auth conn) + of_nat (length cmds)\<rparr>
     \<and> (\<forall>i response. i < length cmds \<longrightarrow> results ! i = Inr response \<longrightarrow>
          (\<exists>ctrl now. get_map response ''_ctrl'' = Some ctrl
            \<and> ctrl_accepted ctrl (ra_serial (rc_auth conn) + of_nat (Suc i)) now (ra_nonce (rc_auth conn))))"
proof (induction cmds arbitrary: conn conn' results)
  case (Cons c cmds)
  obtain clock cmd where c: "c = (clock, cmd)" by (cases c)
  obtain conn1 r where one: "command_exchange lib b64 clock cmd conn = (conn1, r)" by fastforce
  obtain conn2 rs where rest: "run_session lib b64 conn1 cmds = (conn2, rs)" by fastforce
  from Cons(2) one rest have res: "conn' = conn2" "results = r # rs" by (simp_all add: c)
  note state = command_exchange_state(1) [OF one]
  from Cons(1) [OF rest] have IH: "length rs = length cmds"
    "rc_auth conn2 = (rc_auth conn1)\<lparr>ra_serial := ra_serial (rc_auth conn1) + of_nat (length cmds)\<rparr>"
    "\<And>i response. i < length cmds \<Longrightarrow> rs ! i = Inr response \<Longrightarrow> (\<exists>ctrl now. get_map response ''_ctrl'' = Some ctrl
            \<and> ctrl_accepted ctrl (ra_serial (rc_auth conn1) + of_nat (Suc i)) now (ra_nonce (rc_auth conn1)))"
    by blast+
  have "\<exists>ctrl now. get_map response ''_ctrl'' = Some ctrl
      \<and> ctrl_accepted ctrl (ra_serial (rc_auth conn) + of_nat (Suc i)) now (ra_nonce (rc_auth conn))"
    if "i < length (c # cmds)" "results ! i = Inr response" for i response
  proof (cases i)
    case 0
    with that command_exchange_state(2) [OF one] show ?thesis by (simp add: res)
  next
    case (Suc k)
    with that IH(3) [of k response] show ?thesis by (simp add: res state add_ac)
  qed
  then show ?case using IH(1,2) by (simp add: res state add_ac)
qed simp

section \<open>Properties\<close>

text \<open>
  C9: Every accepted response is authentic: the octets read are one frame, which decodes to the
  response. The signature that this response brings along in its field \<open>_auth.hsha\<close> - the octet
  of the algorithm, the base64 text of the MAC, zeros - holds under the key of the session for the
  octets that follow the \<open>_auth\<close> part. The control and data tables the client acts on are
  decoded from those signed octets alone, and the control table answers this request (its
  serial, the time window of 60 seconds, the reply flag, the nonce of the session, the type).
\<close>

theorem accepted_response_is_signed:
  assumes "exchange lib b64 what key serial now nonce cmd s = (s', Inr response)"
  shows "\<exists>auth_part signed_part auth algo encoded mac signed ctrl data.
      st_incoming s = u32_be (word_of_nat (length (auth_part @ signed_part))) @ auth_part @ signed_part @ st_incoming s'
    \<and> isc_decode (auth_part @ signed_part) = Inr response
    \<and> get_map response ''_auth'' = Some auth
    \<and> btree_get auth ''hsha'' = Some (IscBinary (algo # encoded @ replicate (88 - length encoded) 0))
    \<and> isccc_algorithm_byte (key_algorithm key) = Inr algo
    \<and> encoded \<noteq> [] \<and> 0 \<notin> set encoded \<and> length encoded \<le> 88
    \<and> codec_decode b64 (of_bytes encoded) = Some mac
    \<and> mac_check lib (key_algorithm key) (key_material key) signed_part mac = Some True
    \<and> decode_map signed_part 0 0 = Inr signed
    \<and> btree_get signed ''_ctrl'' = Some (IscMap ctrl) \<and> get_map response ''_ctrl'' = Some ctrl
    \<and> btree_get signed ''_data'' = Some (IscMap data) \<and> get_map response ''_data'' = Some data
    \<and> ctrl_accepted ctrl serial now nonce
    \<and> (map_string data ''type'' = None \<or> map_string data ''type'' = Some cmd)"
  using exchange_signed [OF assms] unfolding signed_frame_def carries_mac_def by blast

text \<open>
  An honest server is accepted: a reply that carries the serial of the request, a time
  within 60 seconds after it, the reply flag and the nonce of the session, signed with the key
  of the session, is accepted whatever the server puts into the data table (as long as it names
  no other command), and exactly its frame is consumed.
\<close>

lemma honest_reply_accepted:
  assumes "mac_lib_ok lib" "build_request lib b64 key serial now nonce cmd = Inr request"
    "sign_rndc_body lib b64 key (reply_ctrl serial t n) data = Inr hmac"
    "frame_message (reply_message hmac (reply_ctrl serial t n) data) = Inr frame"
    "length frame \<le> 4 + max_message_size"
    "\<And>m tag. mac_tag lib (key_algorithm key) (key_material key) m = Some tag \<Longrightarrow> b64_fits b64 tag"
    "utf8_valid (as_bytes n)" "value_wf 32 (IscMap data)"
    "now \<le> t" "unat t \<le> unat now + 60" "unat t + 60 < 2 ^ 64" "nonce = None \<or> nonce = Some n"
    "map_string (canon_map data) ''type'' = None \<or> map_string (canon_map data) ''type'' = Some cmd"
    "st_incoming s = frame @ rest" "st_write_error s = None"
  shows "exchange lib b64 what key serial now nonce cmd s =
      (s\<lparr>st_written := st_written s @ request, st_incoming := rest\<rparr>,
       Inr (reply_message hmac (reply_ctrl serial t n) (canon_map data)))"
  using assms by (rule honest_exchange)

text \<open>
  C10: In a session of fewer than 2^32 commands every command has its own serial, which a
  response must repeat: no response message is accepted for two commands, so a recorded
  response cannot be replayed. The key and the nonce never change.
\<close>

theorem no_response_serves_two_commands:
  assumes "run_session lib b64 conn cmds = (conn', results)" "length cmds < 2 ^ 32"
    "i < length cmds" "j < length cmds" "results ! i = Inr response" "results ! j = Inr response"
  shows "i = j \<and> ra_key (rc_auth conn') = ra_key (rc_auth conn)
    \<and> ra_nonce (rc_auth conn') = ra_nonce (rc_auth conn)"
proof -
  let ?s = "ra_serial (rc_auth conn)"
  note state = run_session_state [OF assms(1)]
  from state assms(3-6) obtain ctrl now ctrl' now' where
    "get_map response ''_ctrl'' = Some ctrl" "ctrl_accepted ctrl (?s + of_nat (Suc i)) now (ra_nonce (rc_auth conn))"
    "get_map response ''_ctrl'' = Some ctrl'" "ctrl_accepted ctrl' (?s + of_nat (Suc j)) now' (ra_nonce (rc_auth conn))"
    by meson
  then have "unat (?s + of_nat (Suc i)) = unat (?s + of_nat (Suc j))"
    by (auto simp: ctrl_accepted_def show_nat_inj simp del: of_nat_Suc)
  then have "(of_nat (Suc i) :: u32) = of_nat (Suc j)"
    by (metis add_left_imp_eq word_unat_eq_iff)
  then have "Suc i mod 2 ^ 32 = Suc j mod 2 ^ 32"
    by (simp add: word_of_nat_eq_iff take_bit_eq_mod del: of_nat_Suc)
  then have "i = j" using assms(2-4) by simp
  with state show ?thesis by simp
qed

section \<open>A concrete exchange\<close>

definition plain_lib :: mac_lib where
  "plain_lib = \<lparr>mac_tag = \<lambda>alg k m. Some (replicate (mac_length alg) 65),
                mac_check = \<lambda>alg k m t. Some (t = replicate (mac_length alg) 65)\<rparr>"

definition plain_b64 :: byte_codec where
  "plain_b64 = \<lparr>codec_encode = of_bytes, codec_decode = \<lambda>s. Some (as_bytes s)\<rparr>"

lemma plain_lib_ok: "mac_lib_ok plain_lib"
  by (simp add: mac_lib_ok_def plain_lib_def)

lemma as_bytes_replicate: "as_bytes (replicate n (char_of_byte b)) = replicate n b"
  by (simp add: as_bytes_def)

lemma plain_b64_fits: "mac_tag plain_lib HmacSha256 k m = Some tag \<Longrightarrow> b64_fits plain_b64 tag"
  by (auto simp: plain_lib_def plain_b64_def b64_fits_def mac_length_def of_bytes_def list_all_iff as_bytes_replicate)

definition sample_data :: isc_map where
  "sample_data = [(''result'', IscString ''0'')]"

abbreviation sample_ctrl :: "u32 \<Rightarrow> isc_map" where
  "sample_ctrl serial \<equiv> reply_ctrl serial 0 ''n''"

lemmas sample_simps = encode_key_def encode_tagged_def insert_map_def isc_new_def Let_def
  reply_ctrl_table sample_data_def isccc_expiry_secs_def less_char_def

lemma show_small: "show_nat 0 = ''0''" "show_nat 1 = ''1''" "show_nat 60 = ''60''" "show_nat (Suc 0) = ''1''"
  by code_simp+

lemma sample_hmac:
  "\<exists>hmac. sign_rndc_body plain_lib plain_b64 sample_key (sample_ctrl 1) sample_data = Inr hmac \<and> length hmac = 89"
  by (simp add: sign_rndc_body_def encode_body_def sample_simps show_small key_sign_def plain_lib_def
      sample_key_def resize_def isccc_hmac_buf_size_def plain_b64_def mac_length_def)

lemma sample_frame:
  "length hmac = 89 \<Longrightarrow> \<exists>frame. frame_message (reply_message hmac (sample_ctrl 1) sample_data) = Inr frame
     \<and> length frame \<le> 1000"
  by (simp add: frame_message_def isc_encode_def reply_message_def sample_simps show_small)

lemma sample_request:
  "\<exists>request. build_request plain_lib plain_b64 sample_key 1 0 None ''null'' = Inr request"
  by (simp add: build_request_def build_ctrl_table_def frame_message_def isc_encode_def sign_rndc_body_def 
     encode_body_def sample_simps show_small key_sign_def plain_lib_def
      sample_key_def resize_def isccc_hmac_buf_size_def plain_b64_def mac_length_def)

text \<open>What the honest server sends for these values, and the request it answers.\<close>

definition sample_stream :: "rndc_stream \<Rightarrow> bool" where
  "sample_stream s \<longleftrightarrow> st_write_error s = None
     \<and> (\<exists>hmac. sign_rndc_body plain_lib plain_b64 sample_key (sample_ctrl 1) sample_data = Inr hmac
          \<and> frame_message (reply_message hmac (sample_ctrl 1) sample_data) = Inr (st_incoming s))"

lemma sample_stream_ex: "\<exists>s. sample_stream s"
proof -
  obtain hmac where hmac: "sign_rndc_body plain_lib plain_b64 sample_key (sample_ctrl 1) sample_data = Inr hmac"
    "length hmac = 89" using sample_hmac by blast
  obtain frame where "frame_message (reply_message hmac (sample_ctrl 1) sample_data) = Inr frame"
    using sample_frame [OF hmac(2)] by blast
  with hmac(1) have "sample_stream \<lparr>st_written = [], st_incoming = frame, st_write_error = None\<rparr>"
    by (auto simp: sample_stream_def)
  then show ?thesis by blast
qed

lemma sample_names_utf8:
  "utf8_valid (as_bytes ''n'')" "utf8_valid (as_bytes ''result'')" "utf8_valid (as_bytes ''0'')"
  by code_simp+

lemma sample_accepted:
  assumes "sample_stream s"
  shows "\<exists>s' response. exchange plain_lib plain_b64 what sample_key 1 0 None ''null'' s = (s', Inr response)"
proof -
  from assms obtain hmac where hmac: "sign_rndc_body plain_lib plain_b64 sample_key (sample_ctrl 1) sample_data = Inr hmac"
    and frame: "frame_message (reply_message hmac (sample_ctrl 1) sample_data) = Inr (st_incoming s)"
    "st_write_error s = None" by (auto simp: sample_stream_def)
  moreover from hmac have "length hmac = 89" using sample_hmac by auto
  with frame have "length (st_incoming s) \<le> 1000" using sample_frame by fastforce
  moreover obtain request where "build_request plain_lib plain_b64 sample_key 1 0 None ''null'' = Inr request"
    using sample_request by blast
  ultimately have "exchange plain_lib plain_b64 what sample_key 1 0 None ''null'' s =
      (s\<lparr>st_written := st_written s @ request, st_incoming := []\<rparr>,
       Inr (reply_message hmac (sample_ctrl 1) (canon_map sample_data)))"
    using plain_lib_ok plain_b64_fits sample_names_utf8
    by (intro honest_exchange) (simp_all add: max_message_size_def sample_data_def btree_sorted_def
        map_string_def btree_get_def sample_key_def)
  then show ?thesis by blast
qed

lemma honest_reply_accepted_witness:
  "\<exists>s. sample_stream s
    \<and> is_ok (snd (exchange plain_lib plain_b64 ''failed to send command'' sample_key 1 0 None ''null'' s))"
proof -
  obtain s where s: "sample_stream s" using sample_stream_ex by blast
  then obtain hmac where hmac: "sign_rndc_body plain_lib plain_b64 sample_key (sample_ctrl 1) sample_data = Inr hmac"
    and frame: "frame_message (reply_message hmac (sample_ctrl 1) sample_data) = Inr (st_incoming s)"
    "st_write_error s = None" by (auto simp: sample_stream_def)
  moreover from hmac have "length hmac = 89" using sample_hmac by auto
  with frame have "length (st_incoming s) \<le> 1000" using sample_frame by fastforce
  moreover obtain request where "build_request plain_lib plain_b64 sample_key 1 0 None ''null'' = Inr request"
    using sample_request by blast
  ultimately have "exchange plain_lib plain_b64 ''failed to send command'' sample_key 1 0 None ''null'' s =
      (s\<lparr>st_written := st_written s @ request, st_incoming := []\<rparr>,
       Inr (reply_message hmac (sample_ctrl 1) (canon_map sample_data)))"
    using plain_lib_ok plain_b64_fits sample_names_utf8
    by (intro honest_reply_accepted) (simp_all add: max_message_size_def sample_data_def btree_sorted_def
        map_string_def btree_get_def sample_key_def)
  with s show ?thesis by (intro exI [of _ s]) simp
qed

theorem accepted_response_is_signed_witness:
  "\<exists>s input. sample_stream s \<and> mac_check plain_lib HmacSha256 [1, 2, 3] input (replicate 32 65) = Some True"
proof -
  obtain s where s: "sample_stream s" using sample_stream_ex by blast
  then obtain s' response where
    "exchange plain_lib plain_b64 [] sample_key 1 0 None ''null'' s = (s', Inr response)"
    using sample_accepted by blast
  from accepted_response_is_signed [OF this] s show ?thesis
    by (auto simp: plain_lib_def sample_key_def mac_length_def)
qed

theorem no_response_serves_two_commands_witness:
  "\<exists>s conn' response. run_session plain_lib plain_b64
      \<lparr>rc_stream = s, rc_auth = \<lparr>ra_key = sample_key, ra_serial = 0, ra_nonce = None\<rparr>\<rparr>
      [(Inr 0, CmdRaw ''null'')] = (conn', [Inr response])
    \<and> ra_nonce (rc_auth conn') = None"
proof -
  obtain s where s: "sample_stream s" using sample_stream_ex by blast
  then obtain s' response where
    "exchange plain_lib plain_b64 ''failed to send command'' sample_key 1 0 None ''null'' s = (s', Inr response)"
    using sample_accepted by blast
  then have run: "run_session plain_lib plain_b64
      \<lparr>rc_stream = s, rc_auth = \<lparr>ra_key = sample_key, ra_serial = 0, ra_nonce = None\<rparr>\<rparr>
      [(Inr 0, CmdRaw ''null'')] = (\<lparr>rc_stream = s', rc_auth = \<lparr>ra_key = sample_key, ra_serial = 1, ra_nonce = None\<rparr>\<rparr>, [Inr response])"
    by (simp add: command_exchange_def Let_def)
  have "ra_nonce (rc_auth \<lparr>rc_stream = s', rc_auth = \<lparr>ra_key = sample_key, ra_serial = 1, ra_nonce = None\<rparr>\<rparr>) = None"
    using no_response_serves_two_commands [OF run, of 0 0 response] by simp
  with run show ?thesis by blast
qed

end
