(* ===== verification/Rndc_Dnssec.thy ===== *)
theory Rndc_Dnssec
  imports Rndc_Command Security_Policy
begin

text \<open>
  \<open>rndc/dnssec.rs\<close> and \<open>rndc/rollover.rs\<close>: the parsed text of \<open>rndc dnssec -status\<close>, and
  the rollover state derived from it. The workflow that acts on the server is in the theory of
  the client.
\<close>

section \<open>The status\<close>

datatype key_role = Ksk | Zsk | Csk

record dnssec_key_info =
  ki_tag :: u16
  ki_algorithm :: "string option"
  ki_role :: key_role
  ki_state :: string

record dnssec_status =
  ds_policy :: string
  ds_keys :: "dnssec_key_info list"

definition weak_algorithm_keys :: "dnssec_status \<Rightarrow> dnssec_key_info list" where
  "weak_algorithm_keys s =
     filter (\<lambda>k. case ki_algorithm k of Some a \<Rightarrow> dnssec_algorithm_name_is_weak a | None \<Rightarrow> False) (ds_keys s)"

text \<open>The text before the first occurrence of a character and the text after it.\<close>

definition split_at_char :: "char \<Rightarrow> string \<Rightarrow> (string \<times> string) option" where
  "split_at_char c s =
     (if c \<in> set s then Some (takeWhile (\<lambda>x. x \<noteq> c) s, tl (dropWhile (\<lambda>x. x \<noteq> c) s)) else None)"

fun split_at_text :: "string \<Rightarrow> string \<Rightarrow> (string \<times> string) option" where
  "split_at_text p [] = (if p = [] then Some ([], []) else None)"
| "split_at_text p (c # s) =
     (if starts_with p (c # s) then Some ([], drop (length p) (c # s))
      else map_option (\<lambda>(a, b). (c # a, b)) (split_at_text p s))"

text \<open>\<open>split(p).nth(1)\<close>: between the first and the second occurrence.\<close>

definition second_part :: "string \<Rightarrow> string \<Rightarrow> string option" where
  "second_part p s =
     (case split_at_text p s of
        None \<Rightarrow> None
      | Some (_, rest) \<Rightarrow> (case split_at_text p rest of None \<Rightarrow> Some rest | Some (a, _) \<Rightarrow> Some a))"

definition first_role_word :: "string \<Rightarrow> string" where
  "first_role_word s =
     takeWhile (\<lambda>c. c \<noteq> CHR '','' \<and> c \<noteq> CHR '' '') (dropWhile (\<lambda>c. c = CHR '','' \<or> c = CHR '' '') s)"

definition role_of_word :: "string \<Rightarrow> key_role option" where
  "role_of_word w = (if w = ''KSK'' then Some Ksk else if w = ''ZSK'' then Some Zsk
     else if w = ''CSK'' then Some Csk else None)"

definition parse_key_line :: "string \<Rightarrow> net_error + dnssec_key_info" where
  "parse_key_line line =
     rbind (ok_or (Protocol (''malformed dnssec key line (missing tag): '' @ line))
              (split_at_char (CHR '' '') line)) (\<lambda>(tag_text, _).
     rbind (ok_or (Protocol (''invalid dnssec key tag: '' @ line)) (parse_u16 tag_text)) (\<lambda>tag.
     rbind (ok_or (Protocol (''malformed dnssec key line (missing algorithm): '' @ line))
              (split_at_char (CHR ''('') line)) (\<lambda>(_, after_open).
     rbind (ok_or (Protocol (''malformed dnssec key line (missing `)`): '' @ line))
              (split_at_char (CHR '')'') after_open)) (\<lambda>(parenthetical, after_close).
     let suffix = trim (dropWhile (\<lambda>c. c = CHR '','') (trim after_close)) in
     rbind (case role_of_word parenthetical of
              Some role \<Rightarrow> Inr (None, role)
            | None \<Rightarrow>
                let role_text = first_role_word suffix in
                if role_text = [] then Inl (Protocol (''dnssec key line missing key role: '' @ line))
                else case role_of_word role_text of
                    Some role \<Rightarrow> Inr (Some parenthetical, role)
                  | None \<Rightarrow> Inl (Protocol (''unsupported dnssec key role `'' @ role_text @ ''`: '' @ line)))
       (\<lambda>(algorithm, role).
     Inr \<lparr>ki_tag = tag, ki_algorithm = algorithm, ki_role = role,
          ki_state = (case second_part ''state:'' line of Some s \<Rightarrow> trim s | None \<Rightarrow> [])\<rparr>)))))"

definition set_last_state :: "string \<Rightarrow> dnssec_key_info list \<Rightarrow> dnssec_key_info list" where
  "set_last_state g keys = (if keys = [] then [] else butlast keys @ [(last keys)\<lparr>ki_state := g\<rparr>])"

text \<open>One line: the policy so far and the keys so far; the current key is the last one.\<close>

definition status_line :: "string \<Rightarrow> string \<times> dnssec_key_info list \<Rightarrow> net_error + string \<times> dnssec_key_info list" where
  "status_line line = (\<lambda>(policy, keys).
     let trimmed = trim line in
     case strip_prefix ''dnssec-policy:'' trimmed of
       Some rest \<Rightarrow> Inr (trim rest, keys)
     | None \<Rightarrow>
         (case strip_prefix ''key:'' trimmed of
            Some rest \<Rightarrow> rmap (\<lambda>k. (policy, keys @ [k])) (parse_key_line (trim rest))
          | None \<Rightarrow>
              (case strip_prefix ''- goal:'' trimmed of
                 Some goal \<Rightarrow> Inr (policy, set_last_state (trim goal) keys)
               | None \<Rightarrow> Inr (policy, keys))))"

fun status_lines :: "string list \<Rightarrow> string \<times> dnssec_key_info list \<Rightarrow> net_error + string \<times> dnssec_key_info list" where
  "status_lines [] st = Inr st"
| "status_lines (l # ls) st = rbind (status_line l st) (status_lines ls)"

definition dnssec_status_parse :: "string \<Rightarrow> net_error + dnssec_status" where
  "dnssec_status_parse raw =
     rbind (status_lines (text_lines raw) ([], [])) (\<lambda>(policy, keys).
       if policy = [] then Inl (Protocol ''dnssec status response missing dnssec-policy field'')
       else Inr \<lparr>ds_policy = policy, ds_keys = keys\<rparr>)"

section \<open>Rollover\<close>

datatype rollover_state = Stable | WaitingForDs | DsPublished | OldKeyRetired
datatype rollover_action = Wait | SubmitDsToParent | ConfirmDsPublished

definition ksk_like :: "dnssec_key_info \<Rightarrow> bool" where
  "ksk_like k \<longleftrightarrow> ki_role k = Ksk \<or> ki_role k = Csk"

text \<open>The loop sets the two flags \<open>new_ksk_pending\<close> and \<open>old_ksk_retiring\<close>.\<close>

definition note_key :: "dnssec_key_info \<Rightarrow> bool \<times> bool \<Rightarrow> bool \<times> bool" where
  "note_key k = (\<lambda>(new_pending, old_retiring).
     if \<not> ksk_like k then (new_pending, old_retiring)
     else let st = upper_text (ki_state k) in
       if st = ''RUMOURED'' then (True, old_retiring)
       else if st = ''UNRETENTIVE'' \<or> st = ''HIDDEN'' then (new_pending, True)
       else (new_pending, old_retiring))"

definition derive_state :: "dnssec_status \<Rightarrow> rollover_state \<times> rollover_action" where
  "derive_state status =
     (let (new_ksk_pending, old_ksk_retiring) = fold note_key (ds_keys status) (False, False) in
      if new_ksk_pending then (WaitingForDs, SubmitDsToParent)
      else if old_ksk_retiring then (OldKeyRetired, Wait)
      else (Stable, Wait))"

section \<open>What the flags say\<close>

definition pending_key :: "dnssec_key_info \<Rightarrow> bool" where
  "pending_key k \<longleftrightarrow> ksk_like k \<and> upper_text (ki_state k) = ''RUMOURED''"

definition retiring_key :: "dnssec_key_info \<Rightarrow> bool" where
  "retiring_key k \<longleftrightarrow> ksk_like k \<and> upper_text (ki_state k) \<in> {''UNRETENTIVE'', ''HIDDEN''}"

lemma note_keys:
  "fold note_key keys (a, b) = (a \<or> list_ex pending_key keys, b \<or> list_ex retiring_key keys)"
  by (induction keys arbitrary: a b) (auto simp: note_key_def pending_key_def retiring_key_def Let_def)

lemma derive_state_iff:
  "derive_state s =
     (if list_ex pending_key (ds_keys s) then (WaitingForDs, SubmitDsToParent)
      else if list_ex retiring_key (ds_keys s) then (OldKeyRetired, Wait) else (Stable, Wait))"
  by (simp add: derive_state_def note_keys)

text \<open>
  The states of the keys come from a \<open>state:\<close> part of the key line or from the goal lines.
  BIND 9.20 prints no \<open>state:\<close>; its goals are \<open>hidden\<close> and \<open>omnipresent\<close>.
\<close>

definition bind_line :: "string \<Rightarrow> bool" where
  "bind_line line \<longleftrightarrow>
     \<not> contains_text ''state:'' line
     \<and> (case strip_prefix ''- goal:'' (trim line) of
          Some g \<Rightarrow> List.member [''hidden'', ''omnipresent''] (trim g) | None \<Rightarrow> True)"

lemma split_at_text_None: "split_at_text p s = None \<longleftrightarrow> \<not> contains_text p s"
  by (induction s) auto

lemma bind_key_line:
  assumes "bind_line line" "strip_prefix ''key:'' (trim line) = Some rest" "parse_key_line (trim rest) = Inr k"
  shows "ki_state k = []"
proof -
  have "\<not> contains_text ''state:'' (trim rest)"
    using assms(1,2) contains_part contains_suffix unfolding bind_line_def strip_prefix_iff by metis
  then have "second_part ''state:'' (trim rest) = None"
    by (simp add: second_part_def split_at_text_None [THEN iffD2])
  then show ?thesis
    using assms(3) by (auto simp: parse_key_line_def result_simps Let_def)
qed

definition bind_state :: "dnssec_key_info \<Rightarrow> bool" where
  "bind_state k \<longleftrightarrow> List.member [[], ''hidden'', ''omnipresent''] (ki_state k)"

lemma bind_status_line:
  assumes "bind_line line" "list_all bind_state keys" "status_line line (policy, keys) = Inr (policy', keys')"
  shows "list_all bind_state keys'"
proof (cases "strip_prefix ''dnssec-policy:'' (trim line)")
  case None
  have "list_all bind_state (butlast keys)"
    using assms(2) by (auto simp: list_all_iff dest: in_set_butlastD)
  show ?thesis
  proof (cases "strip_prefix ''key:'' (trim line)")
    case no_key: None
    with None assms \<open>list_all bind_state (butlast keys)\<close> show ?thesis
      by (cases "strip_prefix ''- goal:'' (trim line)")
         (auto simp: status_line_def set_last_state_def bind_line_def Let_def bind_state_def)
  next
    case (Some rest)
    with None assms bind_key_line [OF assms(1) Some] show ?thesis
      by (auto simp: status_line_def result_simps Let_def bind_state_def)
  qed
qed (use assms in \<open>auto simp: status_line_def Let_def\<close>)

lemma bind_status_lines:
  "list_all bind_line ls \<Longrightarrow> list_all bind_state keys \<Longrightarrow> status_lines ls (policy, keys) = Inr (policy', keys')
     \<Longrightarrow> list_all bind_state keys'"
proof (induction ls arbitrary: policy keys)
  case (Cons l ls)
  from Cons(4) obtain p ks where l: "status_line l (policy, keys) = Inr (p, ks)"
    and ls: "status_lines ls (p, ks) = Inr (policy', keys')" by (auto simp: result_simps)
  from Cons(2,3) bind_status_line [OF _ Cons(3) l] have "list_all bind_state ks" by simp
  with Cons(1) [OF _ this ls] Cons(2) show ?case by simp
qed simp

lemma bind_state_not_pending: "bind_state k \<Longrightarrow> \<not> pending_key k"
  by (auto simp: bind_state_def pending_key_def upper_text_def upper_char_def)

lemma bind_status_derived:
  assumes "list_all bind_line (text_lines raw)" "dnssec_status_parse raw = Inr status"
  shows "fst (derive_state status) \<noteq> WaitingForDs \<and> fst (derive_state status) \<noteq> DsPublished"
proof -
  from assms(2) obtain policy where "status_lines (text_lines raw) ([], []) = Inr (policy, ds_keys status)"
    by (auto simp: dnssec_status_parse_def result_simps split: if_splits)
  from bind_status_lines [OF assms(1) _ this] have "list_all bind_state (ds_keys status)" by simp
  then have "\<not> list_ex pending_key (ds_keys status)"
    using bind_state_not_pending by (auto simp: list_all_iff list_ex_iff)
  then show ?thesis by (simp add: derive_state_iff)
qed

section \<open>Properties\<close>

text \<open>
  Rollovers go unnoticed in the format of BIND 9.20: whatever the status says about the
  DNSKEY and DS of a new key, when its lines carry no \<open>state:\<close> and the goals are the two
  BIND has, the derived state is never the one that waits for the DS.
\<close>

lemma rollover_not_detected:
  assumes "list_all bind_line (text_lines raw)" "dnssec_status_parse raw = Inr status"
  shows "fst (derive_state status) \<noteq> WaitingForDs \<and> fst (derive_state status) \<noteq> DsPublished"
  using assms by (rule bind_status_derived)

definition bind_sample :: string where
  "bind_sample = ''dnssec-policy: p'' @ newline @ ''key: 7 (RSASHA256), KSK'' @ newline
     @ ''  - goal: omnipresent'' @ newline @ ''  - dnskey: rumoured'' @ newline"

lemma rollover_not_detected_witness:
  "\<exists>status. dnssec_status_parse bind_sample = Inr status \<and> ds_keys status \<noteq> []
     \<and> fst (derive_state status) \<noteq> WaitingForDs"
proof -
  have ls: "text_lines bind_sample = [''dnssec-policy: p'', ''key: 7 (RSASHA256), KSK'',
      ''  - goal: omnipresent'', ''  - dnskey: rumoured'']" by code_simp
  have trims: "trim ''dnssec-policy: p'' = ''dnssec-policy: p''" "trim '' p'' = ''p''"
    "trim ''key: 7 (RSASHA256), KSK'' = ''key: 7 (RSASHA256), KSK''"
    "trim '' 7 (RSASHA256), KSK'' = ''7 (RSASHA256), KSK''" "trim '', KSK'' = '', KSK''" "trim '' KSK'' = ''KSK''"
    "trim ''  - goal: omnipresent'' = ''- goal: omnipresent''" "trim '' omnipresent'' = ''omnipresent''"
    "trim ''  - dnskey: rumoured'' = ''- dnskey: rumoured''" by code_simp+
  have "list_all bind_line (text_lines bind_sample)" unfolding ls by code_simp
  moreover have "parse_u16 ''7'' = Some 7"
    by (simp add: parse_u16_def parse_uint_def digits_value_def is_ascii_digit_def digit_val_def)
  then have "rmap ds_keys (dnssec_status_parse bind_sample) =
      Inr [\<lparr>ki_tag = 7, ki_algorithm = Some ''RSASHA256'', ki_role = Ksk, ki_state = ''omnipresent''\<rparr>]"
    by (simp add: dnssec_status_parse_def ls status_line_def trims strip_prefix_def parse_key_line_def
        split_at_char_def role_of_word_def first_role_word_def second_part_def starts_with_def Let_def
        set_last_state_def)
  then obtain status where "dnssec_status_parse bind_sample = Inr status" "ds_keys status \<noteq> []"
    unfolding rmap_eq_Inr by (metis list.distinct(1))
  ultimately show ?thesis using rollover_not_detected by blast
qed

end
