(* ===== verification/Nsupdate.thy ===== *)
theory Nsupdate
  imports Update_Message Net_Errors Transfer_Wire
begin

text \<open>
  \<open>nsupdate.rs\<close>: sending an update and checking the response. The network is two parameters:
  what the UDP exchange returns, and the octets the server sends over TCP (or the error of
  connecting); time-outs are among the errors of these parameters.
\<close>

section \<open>Responses\<close>

record update_result =
  ur_rcode :: rcode
  ur_id :: u16

definition dns_header_size :: nat where "dns_header_size = 12"
definition tc_flag_mask :: byte where "tc_flag_mask = 0x02"
definition tsig_type :: u16 where "tsig_type = 250"

definition parse_dns_response :: "byte list \<Rightarrow> net_error + update_result" where
  "parse_dns_response response =
     (if length response < dns_header_size then
        Inl (Protocol (''DNS response too short: '' @ show_nat (length response) @ '' bytes, need at least ''
               @ show_nat dns_header_size))
      else let i = u16_at response 0; flags1 = response ! 2; flags2 = response ! 3 in
      if flags1 AND 0x80 = 0 then Inl (Protocol ''DNS update packet is not a response (QR=0)'')
      else let opcode = drop_bit 3 flags1 AND 0x0F in
      if opcode \<noteq> 5 then
        Inl (Protocol (''DNS update response has opcode '' @ show_nat (unat opcode) @ '', expected UPDATE opcode 5''))
      else if flags2 AND 0xF0 \<noteq> 0 then
        Inl (Protocol (''DNS update response has non-zero reserved bits: 0x''
               @ [hex_digit (unat (flags2 AND 0xF0) div 16), hex_digit (unat (flags2 AND 0xF0) mod 16)]))
      else Inr \<lparr>ur_rcode = rcode_from_value (ucast (flags2 AND 0x0F)), ur_id = i\<rparr>)"

definition is_truncated :: "byte list \<Rightarrow> bool" where
  "is_truncated response \<longleftrightarrow> length response \<ge> dns_header_size \<and> response ! 2 AND tc_flag_mask \<noteq> 0"

definition tsig_error_name :: "u16 \<Rightarrow> string" where
  "tsig_error_name code =
     (if code = 16 then ''BADSIG'' else if code = 17 then ''BADKEY'' else if code = 18 then ''BADTIME''
      else if code = 22 then ''BADTRUNC'' else ''TSIGERROR'')"

section \<open>Finding the TSIG record\<close>

function skip_wire_name :: "byte list \<Rightarrow> nat \<Rightarrow> net_error + nat" where
  "skip_wire_name wire pos =
     (if pos \<ge> length wire then Inl (Protocol ''truncated DNS name in response'')
      else let len = wire ! pos in
        if len = 0 then Inr (pos + 1)
        else if len AND 0xC0 = 0xC0 then Inr (pos + 2)
        else skip_wire_name wire (pos + (1 + unat len)))"
  by pat_completeness auto
termination
  by (relation "measure (\<lambda>(wire, pos). length wire - pos)") auto

declare skip_wire_name.simps [simp del]

fun skip_question_section :: "byte list \<Rightarrow> nat \<Rightarrow> nat \<Rightarrow> net_error + nat" where
  "skip_question_section wire 0 pos = Inr pos"
| "skip_question_section wire (Suc n) pos =
     rbind (skip_wire_name wire pos) (\<lambda>pos.
       if pos + 4 > length wire then Inl (Protocol ''truncated question section'')
       else skip_question_section wire n (pos + 4))"

fun skip_rr_sections :: "byte list \<Rightarrow> nat \<Rightarrow> nat \<Rightarrow> net_error + nat" where
  "skip_rr_sections wire 0 pos = Inr pos"
| "skip_rr_sections wire (Suc n) pos =
     rbind (skip_wire_name wire pos) (\<lambda>pos.
       if pos + 10 > length wire then Inl (Protocol ''truncated RR in response'')
       else let rdlength = unat (u16_at wire (pos + 8)) in
       if pos + (10 + rdlength) > length wire then Inl (Protocol ''truncated RDATA in response'')
       else skip_rr_sections wire n (pos + (10 + rdlength)))"

text \<open>The additional section: where the last record starts, and its type.\<close>

fun last_additional :: "byte list \<Rightarrow> nat \<Rightarrow> nat \<Rightarrow> nat option \<times> u16 \<Rightarrow> net_error + nat option \<times> u16" where
  "last_additional wire 0 pos found = Inr found"
| "last_additional wire (Suc n) pos found =
     rbind (skip_wire_name wire pos) (\<lambda>p.
       if p + 10 > length wire then Inl (Protocol ''truncated additional RR'')
       else let rtype = u16_at wire p; rdlength = unat (u16_at wire (p + 8)) in
       if p + (10 + rdlength) > length wire then Inl (Protocol ''truncated additional RDATA'')
       else last_additional wire n (p + (10 + rdlength)) (Some pos, rtype))"

definition find_tsig_in_response :: "byte list \<Rightarrow> net_error + nat option" where
  "find_tsig_in_response wire =
     (if length wire < dns_header_size then Inr None
      else let qdcount = unat (u16_at wire 4); ancount = unat (u16_at wire 6);
               nscount = unat (u16_at wire 8); arcount = unat (u16_at wire 10) in
      if arcount = 0 then Inr None
      else
        rbind (skip_question_section wire qdcount dns_header_size) (\<lambda>pos.
        rbind (skip_rr_sections wire (ancount + nscount) pos) (\<lambda>pos.
        rbind (last_additional wire arcount pos (None, 0)) (\<lambda>(last_rr_start, last_rr_type).
          Inr (if last_rr_type = tsig_type then last_rr_start else None)))))"

section \<open>Sending\<close>

text \<open>\<open>send_tcp\<close>: \<open>tcp\<close> is the error of connecting or the octets the server will send.\<close>

definition send_tcp :: "net_error + byte list \<Rightarrow> byte list \<Rightarrow> net_error + byte list" where
  "send_tcp tcp wire =
     rbind tcp (\<lambda>incoming.
       if length wire > 65535 then
         Inl (Protocol (''update message too large for TCP: '' @ show_nat (length wire) @ '' bytes''))
       else if length incoming < 2 then Inl (Connection ''TCP read length failed: early eof'')
       else let resp_len = unat (u16_at incoming 0) in
       if resp_len < dns_header_size then
         Inl (Protocol (''TCP response too short: '' @ show_nat resp_len @ '' bytes''))
       else if length incoming < 2 + resp_len then Inl (Connection ''TCP read message failed: early eof'')
       else Inr (slice incoming 2 resp_len))"

text \<open>The signed octets of a response: what precedes the TSIG record, with ARCOUNT decremented.\<close>

definition strip_tsig :: "byte list \<Rightarrow> nat \<Rightarrow> byte list" where
  "strip_tsig response tsig_offset =
     (let msg = take tsig_offset response in
      if length msg \<ge> dns_header_size \<and> u16_at msg 10 > 0
      then overwrite msg 10 (u16_be (u16_at msg 10 - 1)) else msg)"

definition verify_update_response ::
  "mac_lib \<Rightarrow> net_error + u64 \<Rightarrow> tsig_key \<Rightarrow> byte list \<Rightarrow> byte list \<Rightarrow> net_error + unit" where
  "verify_update_response lib clock key request_mac response =
     rbind (find_tsig_in_response response) (\<lambda>found. case found of
       None \<Rightarrow> Inl (Protocol ''signed request but response contains no TSIG record'')
     | Some tsig_offset \<Rightarrow>
         rbind (map_err (\<lambda>e. Protocol (''failed to parse response TSIG: '' @ core_error_display e))
                  (tsig_parse (drop tsig_offset response))) (\<lambda>response_tsig.
         if tsig_error response_tsig \<noteq> 0 then
           Inl (TsigRejected (tsig_error response_tsig) (tsig_error_name (tsig_error response_tsig)))
         else rbind clock (\<lambda>now.
           map_err (\<lambda>e. Protocol (''response TSIG verification failed: '' @ core_error_display e))
             (verify_response lib key (strip_tsig response tsig_offset) response_tsig request_mac now))))"

definition nsupdate_send ::
  "mac_lib \<Rightarrow> net_error + u64 \<Rightarrow> net_error + byte list \<Rightarrow> net_error + byte list \<Rightarrow> update_message
     \<Rightarrow> tsig_key option \<Rightarrow> net_error + update_result" where
  "nsupdate_send lib clock udp tcp update key_opt =
     (if is_signed update \<and> key_opt = None then
        Inl (Protocol ''signed DNS update requires its TSIG key for response verification'')
      else rbind udp (\<lambda>udp_response.
        rbind (if is_truncated udp_response then send_tcp tcp (um_wire update) else Inr udp_response) (\<lambda>response.
        rbind (parse_dns_response response) (\<lambda>result.
        if ur_id result \<noteq> um_id update then
          Inl (Protocol (''response ID '' @ show_nat (unat (ur_id result)) @ '' does not match request ID ''
                 @ show_nat (unat (um_id update))))
        else rmap (\<lambda>_. result)
          (case (key_opt, um_request_mac update) of
             (Some key, Some request_mac) \<Rightarrow> verify_update_response lib clock key request_mac response
           | _ \<Rightarrow> Inr ())))))"

section \<open>The walk over a response\<close>

lemma skip_wire_name_labels:
  assumes "\<forall>bs \<in> set bss. bs \<noteq> [] \<and> length bs \<le> 63"
    and "holds_at wire pos (concat (map label_octets bss) @ [0])"
  shows "skip_wire_name wire pos = Inr (pos + length (concat (map label_octets bss)) + 1)"
  using assms
proof (induction bss arbitrary: pos)
  case Nil
  then show ?case by (subst skip_wire_name.simps) (simp add: holds_at_Cons not_le)
next
  case (Cons bs bss)
  have bs: "0 < length bs" "length bs \<le> 63" using Cons.prems(1) by auto
  from Cons.prems(2) have here: "holds_at wire pos (label_octets bs)"
    and at: "holds_at wire (pos + length (label_octets bs)) (concat (map label_octets bss) @ [0])"
    by (simp_all only: holds_at_append list.map concat.simps append_assoc)
  from here have "pos < length wire" "wire ! pos = word_of_nat (length bs)"
    by (simp_all add: label_octets_def holds_at_Cons)
  with label_length_byte [OF bs] have "skip_wire_name wire pos = skip_wire_name wire (pos + (1 + length bs))"
    by (subst skip_wire_name.simps) (simp add: Let_def)
  with Cons.IH [OF _ at] Cons.prems(1) show ?case
    by (simp add: label_octets_def add.assoc del: length_concat)
qed

lemma skip_wire_name_written:
  assumes "name_wf d" "holds_at wire pos (write_wire d)"
  shows "skip_wire_name wire pos = Inr (pos + wire_len d)"
  using skip_wire_name_labels [OF name_wf_wires(1) [OF assms(1)] assms(2) [unfolded write_wire_octets]]
    name_wf_wires(3) [OF assms(1)]
  by (simp add: add.assoc del: length_concat)

lemma skip_rr_sections_written:
  assumes "list_all plain_rr rrs" "holds_at wire pos (concat rrs)"
  shows "skip_rr_sections wire (length rrs) pos = Inr (pos + length (concat rrs))"
  using assms
proof (induction rrs arbitrary: pos)
  case (Cons r rrs)
  then have at: "holds_at wire pos r" "holds_at wire (pos + length r) (concat rrs)"
    by (simp_all add: holds_at_append)
  from Cons.prems(1) obtain name rtype where name: "name_wf name" "is_rr name rtype r"
    by (auto simp: plain_rr_def)
  then obtain "class" ttl body where r: "r = rr_octets name rtype class ttl body" "length body \<le> 65535"
    by (auto simp: is_rr_def)
  note fields = rr_octets_at [OF at(1) [unfolded r(1)] r(2)]
  show ?case
    using Cons.IH [OF _ at(2)] Cons.prems(1) fields(5,7)
    by (simp add: skip_wire_name_written [OF name(1) fields(1)] Let_def r(1) ac_simps del: length_concat)
qed simp

text \<open>A response as the server writes it: one question, its records, and the TSIG record last.\<close>

lemma find_tsig_written:
  assumes unsigned: "u = message_octets i flags an ns 0 zone qtype qclass (concat rrs)"
    and ok: "name_wf zone" "list_all plain_rr rrs" "unat an + unat ns = length rrs"
    and tsig: "name_wf kn" "is_rr kn 250 t"
  shows "find_tsig_in_response (overwrite u 10 (u16_be 1) @ t) = Inr (Some (length u))"
proof -
  let ?m = "overwrite u 10 (u16_be 1) @ t"
  have m: "?m = message_octets i flags an ns 1 zone qtype qclass (concat rrs @ t)"
    by (simp add: unsigned message_octets_def overwrite_def)
  have len: "length u = 16 + wire_len zone + length (concat rrs)"
    by (simp add: unsigned message_octets_def del: length_concat)
  have "holds_at ?m 0 ((u16_be i @ u16_be flags @ u16_be 1 @ u16_be an @ u16_be ns @ u16_be 1)
       @ (write_wire zone @ u16_be qtype @ u16_be qclass) @ concat rrs @ t)"
    unfolding m message_octets_def by (rule holds_at_self)
  then have at: "holds_at ?m 4 (u16_be 1)" "holds_at ?m 6 (u16_be an)" "holds_at ?m 8 (u16_be ns)"
    "holds_at ?m 10 (u16_be 1)" "holds_at ?m 12 (write_wire zone)"
    "holds_at ?m (16 + wire_len zone) (concat rrs)" "holds_at ?m (length u) t"
    unfolding len
    by (simp_all add: holds_at_append ac_simps del: length_concat add_2_eq_Suc add_2_eq_Suc')
  have counts: "u16_at ?m 4 = 1" "u16_at ?m 6 = an" "u16_at ?m 8 = ns" "u16_at ?m 10 = 1"
    using at(1-4) [THEN holds_at_u16] by simp_all
  have mlen: "length ?m = length u + length t"
    using len overwrite_arcount(2) [of u 1] by simp
  obtain "class" ttl body where t: "t = rr_octets kn 250 class ttl body" "length body \<le> 65535"
    using tsig(2) by (auto simp: is_rr_def)
  note fields = rr_octets_at [OF at(7) [unfolded t(1)] t(2), folded t(1)]
  have "skip_question_section ?m 1 12 = Inr (16 + wire_len zone)"
    using skip_wire_name_written [OF ok(1) at(5)] mlen len
    by (simp add: ac_simps del: add_2_eq_Suc add_2_eq_Suc' length_append)
  moreover have "skip_rr_sections ?m (unat an + unat ns) (16 + wire_len zone) = Inr (length u)"
    using skip_rr_sections_written [OF ok(2) at(6)] by (simp add: ok(3) len del: length_concat)
  moreover have "last_additional ?m 1 (length u) (None, 0) = Inr (Some (length u), 250)"
    using fields(2,5,7) skip_wire_name_written [OF tsig(1) fields(1)] mlen
    by (simp add: Let_def del: length_append)
  ultimately show ?thesis
    using mlen len
    by (simp add: find_tsig_in_response_def counts Let_def dns_header_size_def tsig_type_def
        del: length_append)
qed

section \<open>Properties\<close>

lemma strip_tsig_written:
  assumes "u = message_octets i flags an ns 0 zone qtype qclass recs"
  shows "strip_tsig (overwrite u 10 (u16_be 1) @ t) (length u) = u"
proof -
  have "u16_at (overwrite u 10 (u16_be 1)) 10 = 1"
    using assms by (simp add: message_octets_def overwrite_def u16_at_def slice_def)
  then show ?thesis
    using assms message_octets_arcount(2) [of i flags an ns 0 zone qtype qclass recs]
      overwrite_arcount(2) [of u 1]
    by (simp add: strip_tsig_def dns_header_size_def message_octets_arcount(1))
qed

lemma strip_tsig_answer:
  assumes "12 \<le> length (strip_tsig response off)"
  shows "parse_dns_response (strip_tsig response off) = parse_dns_response response"
proof -
  have len: "12 \<le> length (take off response)"
    using assms by (simp add: strip_tsig_def Let_def overwrite_def dns_header_size_def split: if_splits)
  have prefix: "take 10 (strip_tsig response off) = take 10 response"
  proof -
    have "12 \<le> off" "12 \<le> length response" using len by simp_all
    then show ?thesis
      using overwrite_arcount(1) [OF len] by (simp add: strip_tsig_def Let_def min_absorb1)
  qed
  then have "strip_tsig response off ! n = response ! n" if "n < 10" for n
    using that by (metis nth_take)
  moreover have "u16_at (strip_tsig response off) 0 = u16_at response 0"
    using arg_cong [OF prefix, of "take 2"] by (simp add: u16_at_def slice_def)
  ultimately show ?thesis
    using len assms by (simp add: parse_dns_response_def Let_def dns_header_size_def)
qed

lemma u16_be_bytes: "u16_be w = [word_of_nat (unat w div 256), word_of_nat (unat w)]"
  unfolding u16_be_def numeral_2_eq_2 by simp

lemma update_flags:
  assumes "r < 16"
  shows "u16_be (0xA800 + word_of_nat r) = [0xA8, word_of_nat r]
    \<and> (word_of_nat r :: byte) AND 0xF0 = 0 \<and> ucast ((word_of_nat r :: byte) AND 0x0F) = (word_of_nat r :: u16)"
proof -
  have "r \<in> set [0..<16]" using assms by simp
  then show ?thesis by (auto simp: upt_rec u16_be_bytes)
qed

lemma update_answer_accepted:
  assumes "mac_lib_ok lib" "plain_name (key_name key)" "name_wf (key_name key)"
    and request: "um_request_mac update = Some request_mac" "length (um_wire update) \<le> 65535"
    and answer: "u = message_octets (um_id update) (0xA800 + word_of_nat r) an ns 0 zone qtype qclass (concat rrs)"
      "r < 16" "name_wf zone" "list_all plain_rr rrs" "unat an + unat ns = length rrs"
    and signed: "tsig_new lib key u ts (Some request_mac) = Inr t" "\<bar>uint now - uint ts\<bar> \<le> 300"
    and response: "response = overwrite u 10 (u16_be 1) @ tsig_wire t"
    and delivered: "udp = Inr response
      \<or> udp = Inr short \<and> is_truncated short \<and> length response \<le> 65535
        \<and> tcp = Inr (u16_be (word_of_nat (length response)) @ response @ rest)"
  shows "nsupdate_send lib (Inr now) udp tcp update (Some key)
    = Inr \<lparr>ur_rcode = rcode_from_value (word_of_nat r), ur_id = um_id update\<rparr>"
proof -
  have len: "12 \<le> length u" using message_octets_arcount(2) answer(1) by simp
  have rlen: "12 \<le> length response" using len overwrite_arcount(2) [OF len] by (simp add: response)
  have prefix: "response = u16_be (um_id update) @ u16_be (0xA800 + word_of_nat r) @ drop 4 response"
    by (simp add: response answer(1) message_octets_def overwrite_def)
  have bytes: "u16_be (0xA800 + word_of_nat r) = [0xA8, word_of_nat r]"
    "(word_of_nat r :: byte) AND 0xF0 = 0" "ucast ((word_of_nat r :: byte) AND 0x0F) = (word_of_nat r :: u16)"
    using update_flags [OF answer(2)] by blast+
  have "holds_at response 0 (u16_be (um_id update))"
    by (subst prefix) (simp add: holds_at_def slice_def)
  then have flags: "response ! 2 = 0xA8" "response ! 3 = word_of_nat r" "u16_at response 0 = um_id update"
    using arg_cong [OF prefix, of "\<lambda>bs. bs ! 2"] arg_cong [OF prefix, of "\<lambda>bs. bs ! 3"]
    by (simp_all add: bytes nth_append holds_at_u16)
  have "parse_dns_response response
      = Inr \<lparr>ur_rcode = rcode_from_value (word_of_nat r), ur_id = um_id update\<rparr>"
    using rlen by (simp add: parse_dns_response_def dns_header_size_def flags Let_def bytes)
  moreover have "\<not> is_truncated response" by (simp add: is_truncated_def flags tc_flag_mask_def)
  moreover have "tcp = Inr (u16_be (word_of_nat (length response)) @ response @ rest) \<Longrightarrow>
      length response \<le> 65535 \<Longrightarrow> send_tcp tcp (um_wire update) = Inr response"
    using rlen request(2) unat_word_of_nat(2) [of "length response"]
    by (simp add: send_tcp_def Let_def u16_at_prefix dns_header_size_def slice_def)
  moreover have "verify_update_response lib (Inr now) key request_mac response = Inr ()"
  proof -
    obtain t' where "tsig_parse (tsig_wire t) = Inr t'" "tsig_error t' = 0"
      "verify_response lib key u t' request_mac now = Inr ()"
      using signed_response_verified [OF assms(1-3) len signed] by blast
    moreover have "drop (length u) response = tsig_wire t"
      using overwrite_arcount(2) [OF len, of 1] by (simp add: response)
    ultimately show ?thesis
      using find_tsig_written [OF answer(1,3-5) canonical_name_wf [OF assms(3)] tsig_wire_rr [OF assms(1) signed(1)]]
        strip_tsig_written [OF answer(1), of "tsig_wire t"]
      by (simp add: verify_update_response_def response)
  qed
  ultimately show ?thesis
    using delivered request by (auto simp: nsupdate_send_def)
qed

text \<open>A request and its answer, for the witnesses.\<close>

definition sample_update :: update_message where
  "sample_update = \<lparr>um_wire = replicate 40 1, um_id = 7, um_request_mac = Some [9, 9], um_pre_tsig_len = None\<rparr>"

definition sample_answer :: "byte list" where
  "sample_answer = message_octets 7 0xA800 0 0 0 (wire_labels_name [[101, 120]]) 6 1 (concat [])"

lemma sample_answer_signed:
  "\<exists>t. tsig_new sample_lib sample_key sample_answer 1000 (Some [9, 9]) = Inr t"
  using tsig_new_ok [OF sample_lib_ok, of 1000 "Some [9, 9]"] by auto

lemma sample_zone_wf: "name_wf (wire_labels_name [[101, 120]])"
  by (rule wire_labels_name_wf; simp add: plain_label_def label_octets_def)

text \<open>What a result of a signed update rests on.\<close>

lemma signed_result_authentic:
  assumes "mac_lib_ok lib" "is_signed update"
    and sent: "nsupdate_send lib clock udp tcp update key_opt = Inr result"
  shows "\<exists>key request_mac response off t now d.
      key_opt = Some key \<and> um_request_mac update = Some request_mac \<and> clock = Inr now
    \<and> (udp = Inr response \<and> \<not> is_truncated response
        \<or> (\<exists>short. udp = Inr short \<and> is_truncated short \<and> send_tcp tcp (um_wire update) = Inr response))
    \<and> find_tsig_in_response response = Inr (Some off) \<and> tsig_parse (drop off response) = Inr t
    \<and> tsig_error t = 0 \<and> name_eq (tsig_key_name t) (key_name key)
    \<and> tsig_algorithm t = key_algorithm key
    \<and> \<bar>uint now - uint (time_signed t)\<bar> \<le> uint (fudge t)
    \<and> algorithm_domain (key_algorithm key) = Inr d
    \<and> mac_tag lib (key_algorithm key) (key_material key)
        (response_mac_input key d (strip_tsig response off) t request_mac) = Some (tsig_mac t)
    \<and> parse_dns_response (strip_tsig response off) = Inr result
    \<and> ur_id result = um_id update"
proof -
  let ?received = "\<lambda>x. if is_truncated x then send_tcp tcp (um_wire update) else Inr x"
  from \<open>is_signed update\<close> sent obtain request_mac key where
    key: "key_opt = Some key" "um_request_mac update = Some request_mac"
    by (cases key_opt) (auto simp: nsupdate_send_def is_signed_def)
  from sent obtain x where x: "udp = Inr x"
    by (cases udp) (auto simp: nsupdate_send_def split: if_splits)
  with sent key obtain response where response: "?received x = Inr response"
    by (cases "?received x") (auto simp: nsupdate_send_def simp del: if_split)
  with x have received: "udp = Inr response \<and> \<not> is_truncated response
        \<or> (\<exists>short. udp = Inr short \<and> is_truncated short \<and> send_tcp tcp (um_wire update) = Inr response)"
    by (auto split: if_splits)
  from sent have parsed: "parse_dns_response response = Inr result" "ur_id result = um_id update"
    and ok: "verify_update_response lib clock key request_mac response = Inr ()"
    unfolding nsupdate_send_def x key rbind.simps response
    by (auto simp: result_simps split: if_splits)
  from ok obtain off t now where found: "find_tsig_in_response response = Inr (Some off)"
    "tsig_parse (drop off response) = Inr t" "tsig_error t = 0" "clock = Inr now"
    and verified: "verify_response lib key (strip_tsig response off) t request_mac now = Inr ()"
    by (auto simp: verify_update_response_def result_simps split: if_splits option.splits)
  from verified have v: "12 \<le> length (strip_tsig response off)"
    "name_eq (tsig_key_name t) (key_name key)" "tsig_algorithm t = key_algorithm key"
    "\<bar>uint now - uint (time_signed t)\<bar> \<le> uint (fudge t)"
    "\<exists>d. algorithm_domain (key_algorithm key) = Inr d
         \<and> mac_tag lib (key_algorithm key) (key_material key)
             (response_mac_input key d (strip_tsig response off) t request_mac) = Some (tsig_mac t)"
    by (simp_all add: verify_response_iff [OF assms(1)])
  from v(1) parsed(1) have "parse_dns_response (strip_tsig response off) = Inr result"
    by (simp add: strip_tsig_answer)
  with key received parsed(2) found v show ?thesis by blast
qed

text \<open>
  C8: When \<open>send\<close> returns the result of a signed update, that result was read from octets
  that the key's MAC covers: the accepted response carries a final TSIG record without an error,
  signed with the caller's key over the MAC of this request and the response as it was before
  signing, inside the fudge window of the clock, and the response code and ID that are returned
  are those of the signed octets, with the ID of the request.
\<close>

theorem update_result_is_authentic:
  assumes "mac_lib_ok lib" "is_signed update"
    and sent: "nsupdate_send lib clock udp tcp update key_opt = Inr result"
  shows "\<exists>key request_mac response off t now d.
      key_opt = Some key \<and> um_request_mac update = Some request_mac \<and> clock = Inr now
    \<and> (udp = Inr response \<and> \<not> is_truncated response
        \<or> (\<exists>short. udp = Inr short \<and> is_truncated short \<and> send_tcp tcp (um_wire update) = Inr response))
    \<and> find_tsig_in_response response = Inr (Some off) \<and> tsig_parse (drop off response) = Inr t
    \<and> tsig_error t = 0 \<and> name_eq (tsig_key_name t) (key_name key)
    \<and> tsig_algorithm t = key_algorithm key
    \<and> \<bar>uint now - uint (time_signed t)\<bar> \<le> uint (fudge t)
    \<and> algorithm_domain (key_algorithm key) = Inr d
    \<and> mac_tag lib (key_algorithm key) (key_material key)
        (response_mac_input key d (strip_tsig response off) t request_mac) = Some (tsig_mac t)
    \<and> parse_dns_response (strip_tsig response off) = Inr result
    \<and> ur_id result = um_id update"
  using assms by (rule signed_result_authentic)

theorem update_result_is_authentic_witness:
  "\<exists>response result off. nsupdate_send sample_lib (Inr 1299) (Inr response) (Inl (Connection [])) sample_update (Some sample_key)
       = Inr result
     \<and> find_tsig_in_response response = Inr (Some off)
     \<and> parse_dns_response (strip_tsig response off) = Inr result"
proof -
  obtain t where t: "tsig_new sample_lib sample_key sample_answer 1000 (Some [9, 9]) = Inr t"
    using sample_answer_signed by blast
  let ?r = "overwrite sample_answer 10 (u16_be 1) @ tsig_wire t"
  have sent: "nsupdate_send sample_lib (Inr 1299) (Inr ?r) (Inl (Connection [])) sample_update (Some sample_key)
      = Inr \<lparr>ur_rcode = rcode_from_value (word_of_nat 0), ur_id = um_id sample_update\<rparr>"
    by (rule update_answer_accepted [OF sample_lib_ok sample_key_name, where u = sample_answer
          and zone = "wire_labels_name [[101, 120]]" and rrs = "[]" and an = 0 and ns = 0 and ts = 1000 and t = t and r = 0])
       (use t sample_zone_wf in \<open>simp_all add: sample_update_def sample_answer_def\<close>)
  have "is_signed sample_update" by (simp add: sample_update_def is_signed_def)
  from update_result_is_authentic [OF sample_lib_ok this sent] sent show ?thesis
    by (auto simp: send_tcp_def)
qed

text \<open>
  C11: An honest server's answer is accepted. Let the response have the request's ID, the flags
  of an UPDATE response with response code \<open>r\<close>, one question and records that are not TSIG
  records, and be signed by \<open>TsigRecord::new\<close> with the same key over the request's MAC. Then
  \<open>send\<close> returns \<open>r\<close> and the ID at every time within 300 seconds of the signature, whether
  the response arrives over UDP, or over TCP after a truncated UDP response.
\<close>

theorem honest_update_answer_accepted:
  assumes "mac_lib_ok lib" "plain_name (key_name key)" "name_wf (key_name key)"
    and request: "um_request_mac update = Some request_mac" "length (um_wire update) \<le> 65535"
    and answer: "u = message_octets (um_id update) (0xA800 + word_of_nat r) an ns 0 zone qtype qclass (concat rrs)"
      "r < 16" "name_wf zone" "list_all plain_rr rrs" "unat an + unat ns = length rrs"
    and signed: "tsig_new lib key u ts (Some request_mac) = Inr t" "\<bar>uint now - uint ts\<bar> \<le> 300"
    and response: "response = overwrite u 10 (u16_be 1) @ tsig_wire t"
    and delivered: "udp = Inr response
      \<or> udp = Inr short \<and> is_truncated short \<and> length response \<le> 65535
        \<and> tcp = Inr (u16_be (word_of_nat (length response)) @ response @ rest)"
  shows "nsupdate_send lib (Inr now) udp tcp update (Some key)
    = Inr \<lparr>ur_rcode = rcode_from_value (word_of_nat r), ur_id = um_id update\<rparr>"
  using assms by (rule update_answer_accepted)

theorem honest_update_answer_accepted_witness:
  "\<exists>t. tsig_new sample_lib sample_key sample_answer 1000 (Some [9, 9]) = Inr t
   \<and> nsupdate_send sample_lib (Inr 1299) (Inr (overwrite sample_answer 10 (u16_be 1) @ tsig_wire t))
       (Inl (Connection [])) sample_update (Some sample_key)
     = Inr \<lparr>ur_rcode = NoError, ur_id = 7\<rparr>"
proof -
  obtain t where t: "tsig_new sample_lib sample_key sample_answer 1000 (Some [9, 9]) = Inr t"
    using sample_answer_signed by blast
  have "nsupdate_send sample_lib (Inr 1299) (Inr (overwrite sample_answer 10 (u16_be 1) @ tsig_wire t))
       (Inl (Connection [])) sample_update (Some sample_key)
      = Inr \<lparr>ur_rcode = rcode_from_value (word_of_nat 0), ur_id = um_id sample_update\<rparr>"
    by (rule honest_update_answer_accepted [OF sample_lib_ok sample_key_name, where u = sample_answer
          and zone = "wire_labels_name [[101, 120]]" and rrs = "[]" and an = 0 and ns = 0 and ts = 1000 and t = t and r = 0])
       (use t sample_zone_wf in \<open>simp_all add: sample_update_def sample_answer_def\<close>)
  with t show ?thesis by (intro exI [of _ t]) (simp add: sample_update_def rcode_from_value_def)
qed

end
