(* ===== verification/Type_Bitmap.thy ===== *)
theory Type_Bitmap
  imports Text_Util Rdata
begin

text \<open>
  The type bitmaps of NSEC, NSEC3 and CSYNC in \<open>zone/rdata_dnssec.rs\<close>: type mnemonics, the
  encoder that collects the types of one window at a time, and the decoder.
\<close>

unbundle bit_operations_syntax

section \<open>Type mnemonics\<close>

definition zone_error :: "string \<Rightarrow> core_error" where
  "zone_error reason = ZoneParse 0 None reason"

definition type_keyword :: "string \<Rightarrow> record_type option" where
  "type_keyword w =
     (if w = ''A'' then Some RT_A else if w = ''AAAA'' then Some RT_Aaaa
      else if w = ''NS'' then Some RT_Ns else if w = ''CNAME'' then Some RT_Cname
      else if w = ''PTR'' then Some RT_Ptr else if w = ''SOA'' then Some RT_Soa
      else if w = ''MX'' then Some RT_Mx else if w = ''TXT'' then Some RT_Txt
      else if w = ''SRV'' then Some RT_Srv else if w = ''CAA'' then Some RT_Caa
      else if w = ''DNSKEY'' then Some RT_Dnskey else if w = ''RRSIG'' then Some RT_Rrsig
      else if w = ''NSEC'' then Some RT_Nsec else if w = ''NSEC3'' then Some RT_Nsec3
      else if w = ''NSEC3PARAM'' then Some RT_Nsec3param else if w = ''DS'' then Some RT_Ds
      else if w = ''CDS'' then Some RT_Cds else if w = ''CDNSKEY'' then Some RT_Cdnskey
      else if w = ''DLV'' then Some RT_Dlv else if w = ''TLSA'' then Some RT_Tlsa
      else if w = ''SSHFP'' then Some RT_Sshfp else if w = ''CSYNC'' then Some RT_Csync
      else if w = ''RP'' then Some RT_Rp else None)"

definition record_type_from_str :: "string \<Rightarrow> core_error + record_type" where
  "record_type_from_str s =
     (let w = upper_text s in
      case type_keyword w of
        Some t \<Rightarrow> Inr t
      | None \<Rightarrow>
          (case strip_prefix ''TYPE'' w of
             Some digits \<Rightarrow>
               rmap record_type_from_value
                 (ok_or (zone_error (''invalid record type `'' @ s @ ''`'')) (parse_u16 digits))
           | None \<Rightarrow> Inl (zone_error (''unknown record type `'' @ s @ ''`''))))"

section \<open>Encoding\<close>

text \<open>The variables of the encoder: the octets so far, the window, its bits, the last byte used.\<close>

record bitmap_state =
  bm_out :: "byte list"
  bm_window :: "byte option"
  bm_bits :: "byte list"
  bm_max :: nat

definition bitmap_empty :: bitmap_state where
  "bitmap_empty = \<lparr>bm_out = [], bm_window = None, bm_bits = replicate 32 0, bm_max = 0\<rparr>"

definition flush_window :: "bitmap_state \<Rightarrow> byte list" where
  "flush_window st =
     (case bm_window st of
        None \<Rightarrow> bm_out st
      | Some ws \<Rightarrow>
          (let len = bm_max st + 1 in bm_out st @ ws # word_of_nat len # take len (bm_bits st)))"

definition push_type :: "u16 \<Rightarrow> bitmap_state \<Rightarrow> bitmap_state" where
  "push_type tn st =
     (let window = (ucast (drop_bit 8 tn) :: byte);
          bit_offset = unat (tn AND 0xFF);
          byte_idx = bit_offset div 8;
          bit_idx = 7 - bit_offset mod 8;
          st = (if bm_window st \<noteq> Some window then
                  \<lparr>bm_out = flush_window st, bm_window = Some window, bm_bits = replicate 32 0, bm_max = 0\<rparr>
                else st)
      in st\<lparr>bm_bits := (bm_bits st)[byte_idx := bm_bits st ! byte_idx OR push_bit bit_idx 1],
            bm_max := (if byte_idx > bm_max st then byte_idx else bm_max st)\<rparr>)"

definition bitmap_of :: "u16 list \<Rightarrow> byte list" where
  "bitmap_of nums = flush_window (fold push_type nums bitmap_empty)"

definition encode_type_bitmap :: "string list \<Rightarrow> core_error + byte list" where
  "encode_type_bitmap types =
     rmap (\<lambda>rts. bitmap_of (remdups_adj (sort (map record_type_value rts))))
       (rmap_list record_type_from_str types)"

section \<open>Decoding\<close>

definition window_types :: "byte \<Rightarrow> byte list \<Rightarrow> u16 list" where
  "window_types w bs =
     concat (map (\<lambda>i. concat (map (\<lambda>k.
         if (bs ! i) AND push_bit (7 - k) 1 \<noteq> 0
         then [push_bit 8 (ucast w) OR (word_of_nat i * 8 + word_of_nat k)] else []) [0..<8]))
       [0..<length bs])"

fun bitmap_types :: "byte list \<Rightarrow> u16 list" where
  "bitmap_types (w # n # rest) =
     (if unat n > length rest then []
      else window_types w (take (unat n) rest) @ bitmap_types (drop (unat n) rest))"
| "bitmap_types _ = []"

definition type_words :: "byte list \<Rightarrow> string list" where
  "type_words bitmap = map (\<lambda>t. record_type_display (record_type_from_value t)) (bitmap_types bitmap)"

definition decode_type_bitmap :: "byte list \<Rightarrow> string" where
  "decode_type_bitmap bitmap = join_with '' '' (type_words bitmap)"

section \<open>Mnemonics are read back\<close>

lemma upper_text_digits: "list_all is_ascii_digit s \<Longrightarrow> upper_text s = s"
  by (induction s) (auto simp: upper_text_def upper_char_def is_ascii_digit_def)

lemma type_keyword_other: "type_keyword (''TYPE'' @ s) = None"
  by (simp add: type_keyword_def)

lemma record_type_from_str_display:
  assumes "record_type_from_value (record_type_value t) = t"
  shows "record_type_from_str (record_type_display t) = Inr t"
proof (cases "\<exists>v. t = RT_Other v")
  case True
  then obtain v where t: "t = RT_Other v" ..
  have "upper_text (''TYPE'' @ show_nat (unat v)) = ''TYPE'' @ show_nat (unat v)"
    using upper_text_digits show_nat_digits by (simp add: upper_text_def upper_char_def)
  then show ?thesis
    using assms by (simp add: t record_type_from_str_def type_keyword_other [simplified] strip_prefix_def
        parse_show_words)
next
  case False
  then show ?thesis
    by (cases t) (simp_all add: record_type_from_str_def upper_text_def upper_char_def type_keyword_def)
qed

section \<open>The bits of one window\<close>

definition type_in :: "byte \<Rightarrow> nat \<Rightarrow> u16" where
  "type_in w j = push_bit 8 (ucast w) OR word_of_nat j"

definition bit_at :: "byte list \<Rightarrow> nat \<Rightarrow> bool" where
  "bit_at bs j \<longleftrightarrow> bit (bs ! (j div 8)) (7 - j mod 8)"

lemma unat_type_in:
  assumes "j < 256"
  shows "unat (type_in w j) = unat w * 256 + j"
proof -
  have j: "take_bit 8 (word_of_nat j :: u16) = word_of_nat j"
    using assms by (simp add: word_unat_eq_iff unsigned_take_bit_eq unat_of_nat take_bit_nat_eq_self)
  have "push_bit 8 (ucast w :: u16) AND word_of_nat j = 0"
    by (subst j [symmetric]) (auto intro!: bit_word_eqI simp: bit_simps)
  then have "type_in w j = push_bit 8 (ucast w) + word_of_nat j"
    by (simp add: type_in_def disjunctive_add_eq_or)
  moreover have "unat w < 65536" using unat_byte_less [of w] by linarith
  then have w: "unat (ucast w :: u16) = unat w"
    by (simp add: unsigned_ucast_eq take_bit_nat_eq_self)
  moreover have "unat (push_bit 8 (ucast w :: u16)) = unat w * 256"
    using unat_byte_less [of w] unat_mult_lem [of "ucast w :: u16" 256]
    by (simp add: push_bit_eq_mult w)
  moreover have "unat (word_of_nat j :: u16) = j" using assms by (simp add: unat_of_nat)
  moreover have "unat w * 256 + j < 65536"
    using assms unat_byte_less [of w] by linarith
  ultimately show ?thesis
    using unat_add_lem [of "push_bit 8 (ucast w :: u16)" "word_of_nat j"] by simp
qed

lemma type_in_high_low:
  fixes t :: u16
  shows "type_in (ucast (drop_bit 8 t)) (unat (t AND 0xFF)) = t" "unat (t AND 0xFF) < 256"
    "unat (t AND 0xFF) = unat t mod 256" "unat (ucast (drop_bit 8 t) :: byte) = unat t div 256"
proof -
  have "t AND 0xFF = take_bit 8 t" by (simp add: take_bit_eq_mask mask_eq_exp_minus_1)
  then show low: "unat (t AND 0xFF) = unat t mod 256"
    by (simp only: unsigned_take_bit_eq) (simp add: take_bit_eq_mod)
  then show less: "unat (t AND 0xFF) < 256" by simp
  have "unat t div 256 < 256" using unat_bounds(1) [of t] by simp
  then show high: "unat (ucast (drop_bit 8 t) :: byte) = unat t div 256"
    by (simp only: unsigned_ucast_eq unsigned_drop_bit_eq) (simp add: drop_bit_eq_div take_bit_nat_eq_self)
  show "type_in (ucast (drop_bit 8 t)) (unat (t AND 0xFF)) = t"
    using unat_type_in [OF less] by (simp add: word_unat_eq_iff high low)
qed

lemma concat_filter: "concat (map (\<lambda>x. if P x then [f x] else []) xs) = map f (filter P xs)"
  by (induction xs) auto

lemma upt_eight: "concat (map (\<lambda>i. map (\<lambda>k. i * 8 + k) [0..<8]) [0..<n]) = [0..<8 * n]"
proof (induction n)
  case (Suc n)
  have "map (\<lambda>k. n * 8 + k) [0..<8] = [8 * n..<8 * n + 8]"
    using map_add_upt [of "8 * n" 8] by (simp add: add.commute mult.commute)
  with Suc show ?case
    using upt_add_eq_append [of 0 "8 * n" 8] by (simp add: add.commute)
qed simp

lemma window_types_bits:
  assumes "length bs \<le> 32"
  shows "window_types w bs = map (type_in w) (filter (bit_at bs) [0..<8 * length bs])"
proof -
  have inner: "concat (map (\<lambda>k. if (bs ! i) AND push_bit (7 - k) 1 \<noteq> 0
         then [push_bit 8 (ucast w) OR (word_of_nat i * 8 + word_of_nat k)] else []) [0..<8])
      = map (type_in w) (filter (bit_at bs) (map (\<lambda>k. i * 8 + k) [0..<8]))" for i
  proof -
    have "map (type_in w) (filter (bit_at bs) (map (\<lambda>k. i * 8 + k) [0..<8]))
        = map (\<lambda>k. type_in w (i * 8 + k)) (filter (\<lambda>k. bit_at bs (i * 8 + k)) [0..<8])"
      by (simp add: filter_map comp_def)
    also have "\<dots> = concat (map (\<lambda>k. if bit_at bs (i * 8 + k) then [type_in w (i * 8 + k)] else []) [0..<8])"
      by (rule concat_filter [symmetric])
    also have "\<dots> = concat (map (\<lambda>k. if (bs ! i) AND push_bit (7 - k) 1 \<noteq> 0
         then [push_bit 8 (ucast w) OR (word_of_nat i * 8 + word_of_nat k)] else []) [0..<8])"
      by (rule arg_cong [where f = concat], rule map_cong)
         (auto simp: bit_at_def type_in_def and_exp_eq_0_iff_not_bit)
    finally show ?thesis ..
  qed
  show ?thesis
    unfolding window_types_def inner upt_eight [symmetric]
    by (simp add: filter_concat map_concat comp_def)
qed

lemma bit_at_set:
  assumes "length bs = 32" "j0 < 256" "j < 256"
  shows "bit_at (bs[j0 div 8 := bs ! (j0 div 8) OR push_bit (7 - j0 mod 8) 1]) j \<longleftrightarrow> bit_at bs j \<or> j = j0"
proof (cases "j div 8 = j0 div 8")
  case True
  have "7 - j mod 8 = 7 - j0 mod 8 \<longleftrightarrow> j mod 8 = j0 mod 8" by linarith
  also have "\<dots> \<longleftrightarrow> j = j0" using True by (metis div_mult_mod_eq)
  finally show ?thesis
    using True assms by (auto simp: bit_at_def bit_simps)
next
  case False
  then show ?thesis by (auto simp: bit_at_def)
qed

lemma filter_greatest:
  assumes "j0 < n" "\<And>j. j < n \<Longrightarrow> P j \<Longrightarrow> j < j0" "\<And>j. j < n \<Longrightarrow> Q j \<longleftrightarrow> P j \<or> j = j0"
  shows "filter Q [0..<n] = filter P [0..<n] @ [j0]"
proof -
  have n: "[0..<n] = [0..<j0] @ j0 # [Suc j0..<n]"
    using assms(1) by (metis le0 less_imp_le_nat upt_add_eq_append upt_conv_Cons le_add_diff_inverse)
  have "filter Q [0..<j0] = filter P [0..<j0]" using assms by (intro filter_cong) auto
  moreover have "\<not> P j" if "j0 \<le> j" "j < n" for j
    using assms(2) that by fastforce
  then have "filter P (j0 # [Suc j0..<n]) = []" "filter Q [Suc j0..<n] = []"
    using assms(1,3) by (auto simp: filter_empty_conv)
  moreover have "Q j0" using assms by simp
  ultimately show ?thesis unfolding n by simp
qed

section \<open>The decoder reads what the encoder wrote\<close>

definition complete_windows :: "byte list \<Rightarrow> bool" where
  "complete_windows out \<longleftrightarrow> (\<forall>rest. bitmap_types (out @ rest) = bitmap_types out @ bitmap_types rest)"

lemma complete_window:
  assumes "complete_windows out" "length bs \<le> 32"
  shows "complete_windows (out @ w # word_of_nat (length bs) # bs)"
    "bitmap_types (out @ w # word_of_nat (length bs) # bs) = bitmap_types out @ window_types w bs"
proof -
  have n: "unat (word_of_nat (length bs) :: byte) = length bs"
    using assms(2) by (intro unat_word_of_nat) simp
  then have window: "bitmap_types (w # word_of_nat (length bs) # bs @ rest) = window_types w bs @ bitmap_types rest" for rest
    by simp
  show types: "bitmap_types (out @ w # word_of_nat (length bs) # bs) = bitmap_types out @ window_types w bs"
    using assms(1) window [of "[]"] by (simp add: complete_windows_def)
  show "complete_windows (out @ w # word_of_nat (length bs) # bs)"
    using assms(1) window types by (simp add: complete_windows_def)
qed

text \<open>What the encoder's variables say about the types pushed so far.\<close>

definition bits_set :: "byte list \<Rightarrow> nat list" where
  "bits_set bs = filter (bit_at bs) [0..<256]"

definition window_inv :: "u16 list \<Rightarrow> u16 list \<Rightarrow> byte \<Rightarrow> bitmap_state \<Rightarrow> bool" where
  "window_inv pre cur w st \<longleftrightarrow> bm_window st = Some w \<and> complete_windows (bm_out st)
     \<and> bitmap_types (bm_out st) = pre \<and> length (bm_bits st) = 32 \<and> bm_max st < 32
     \<and> cur = map (type_in w) (bits_set (bm_bits st))
     \<and> (\<forall>i < 32. bm_max st < i \<longrightarrow> bm_bits st ! i = 0)"

lemma flush_window_inv:
  assumes "window_inv pre cur w st"
  shows "complete_windows (flush_window st)" "bitmap_types (flush_window st) = pre @ cur"
proof -
  let ?n = "bm_max st + 1"
  let ?bs = "take ?n (bm_bits st)"
  have inv: "bm_window st = Some w" "complete_windows (bm_out st)" "bitmap_types (bm_out st) = pre"
    "length (bm_bits st) = 32" "?n \<le> 32" "cur = map (type_in w) (bits_set (bm_bits st))"
    "\<forall>i < 32. bm_max st < i \<longrightarrow> bm_bits st ! i = 0"
    using assms by (auto simp: window_inv_def)
  then have len: "length ?bs = ?n" by simp
  have "flush_window st = bm_out st @ w # word_of_nat ?n # ?bs"
    by (simp add: flush_window_def inv(1) Let_def)
  then have flush: "flush_window st = bm_out st @ w # word_of_nat (length ?bs) # ?bs"
    by (simp only: len)
  have "8 * ?n \<le> 256" using inv(5) by simp
  then have "[0..<256] = [0..<8 * ?n] @ [8 * ?n..<256]"
    by (metis le0 le_add_diff_inverse upt_add_eq_append)
  then have "bits_set (bm_bits st) = filter (bit_at (bm_bits st)) [0..<8 * ?n] @ filter (bit_at (bm_bits st)) [8 * ?n..<256]"
    unfolding bits_set_def by (metis filter_append)
  moreover have "\<not> bit_at (bm_bits st) i" if "8 * ?n \<le> i" "i < 256" for i
  proof -
    have "bm_max st < i div 8" "i div 8 < 32" using that by simp_all
    with inv(7) show ?thesis by (simp add: bit_at_def)
  qed
  then have "filter (bit_at (bm_bits st)) [8 * ?n..<256] = []"
    by (auto simp: filter_empty_conv)
  moreover have "filter (bit_at ?bs) [0..<8 * ?n] = filter (bit_at (bm_bits st)) [0..<8 * ?n]"
    by (intro filter_cong) (auto simp: bit_at_def)
  ultimately have "window_types w ?bs = cur"
    using window_types_bits [of ?bs w] inv(5,6) len by simp
  then show "complete_windows (flush_window st)" "bitmap_types (flush_window st) = pre @ cur"
    using complete_window [OF inv(2), of ?bs w] inv(3,5) len unfolding flush by simp_all
qed

lemma push_type_inv:
  assumes inv: "window_inv pre cur w st" and "\<forall>x \<in> set (pre @ cur). x < t"
  shows "\<exists>pre' cur' w'. window_inv pre' cur' w' (push_type t st) \<and> pre' @ cur' = pre @ cur @ [t]"
proof -
  let ?w = "ucast (drop_bit 8 t) :: byte" and ?j = "unat (t AND 0xFF)"
  have j: "?j < 256" and t: "type_in ?w ?j = t" by (rule type_in_high_low)+
  show ?thesis
  proof (cases "bm_window st = Some ?w")
    case True
    with inv have st: "w = ?w" "length (bm_bits st) = 32" "bm_max st < 32"
      "cur = map (type_in ?w) (bits_set (bm_bits st))"
      "\<forall>i < 32. bm_max st < i \<longrightarrow> bm_bits st ! i = 0" by (auto simp: window_inv_def)
    have "i < ?j" if "i < 256" "bit_at (bm_bits st) i" for i
    proof -
      have "type_in ?w i \<in> set cur" using that st(4) by (auto simp: bits_set_def simp del: upt_rec_numeral)
      then have "type_in ?w i < type_in ?w ?j" using assms(2) t by simp
      then show ?thesis using unat_type_in [of i ?w] unat_type_in [OF j, of ?w] that(1)
        by (simp add: word_less_nat_alt)
    qed
    with filter_greatest [OF j, of "bit_at (bm_bits st)"] bit_at_set [OF st(2) j] have
      "bits_set ((bm_bits st)[?j div 8 := bm_bits st ! (?j div 8) OR push_bit (7 - ?j mod 8) 1])
         = bits_set (bm_bits st) @ [?j]" unfolding bits_set_def by blast
    then have "window_inv pre (cur @ [t]) ?w (push_type t st)"
      using inv True st j t by (auto simp: window_inv_def push_type_def Let_def nth_list_update)
    then show ?thesis by fastforce
  next
    case False
    define zero where "zero = replicate 32 (0 :: byte)"
    have zero: "length zero = 32" "\<forall>i < 32. zero ! i = 0" by (simp_all add: zero_def)
    have none: "\<not> bit_at zero i" if "i < 256" for i
    proof -
      have "i div 8 < 32" using that by simp
      then show ?thesis using zero(2) by (simp add: bit_at_def)
    qed
    have "bits_set (zero[?j div 8 := zero ! (?j div 8) OR push_bit (7 - ?j mod 8) 1]) = bits_set zero @ [?j]"
      unfolding bits_set_def using none filter_greatest [OF j, of "bit_at zero"] bit_at_set [OF zero(1) j] by blast
    moreover have "bits_set zero = []" using none by (auto simp: bits_set_def filter_empty_conv simp del: upt_rec_numeral)
    moreover have "push_type t st = \<lparr>bm_out = flush_window st, bm_window = Some ?w,
        bm_bits = zero[?j div 8 := zero ! (?j div 8) OR push_bit (7 - ?j mod 8) 1],
        bm_max = (if ?j div 8 > 0 then ?j div 8 else 0)\<rparr>"
      using False by (simp add: push_type_def Let_def zero_def [symmetric])
    moreover have "?j div 8 < 32" using j by simp
    ultimately have "window_inv (pre @ cur) [t] ?w (push_type t st)"
      using t flush_window_inv [OF inv] zero by (simp add: window_inv_def nth_list_update)
    then show ?thesis by fastforce
  qed
qed

lemma push_first:
  "\<exists>w. window_inv [] [t] w (push_type t bitmap_empty)"
proof -
  let ?w = "ucast (drop_bit 8 t) :: byte"
  have "window_inv [] [] w (bitmap_empty\<lparr>bm_window := Some w\<rparr>)" for w
    by (auto simp: window_inv_def bitmap_empty_def complete_windows_def bits_set_def filter_empty_conv bit_at_def
        simp del: upt_rec_numeral)
  note start = push_type_inv [OF this, where t = t, simplified]
  have "push_type t (bitmap_empty\<lparr>bm_window := Some ?w\<rparr>) = push_type t bitmap_empty"
    by (simp add: push_type_def bitmap_empty_def flush_window_def Let_def)
  moreover have "window_inv pre cur w (push_type t (bitmap_empty\<lparr>bm_window := Some ?w\<rparr>)) \<Longrightarrow> pre = []" for pre cur w
    by (auto simp: window_inv_def push_type_def bitmap_empty_def Let_def)
  ultimately show ?thesis using start [of ?w] by fastforce
qed

lemma bitmap_of_inv:
  assumes "sorted_wrt (<) xs" "xs \<noteq> []"
  shows "\<exists>pre cur w. window_inv pre cur w (fold push_type xs bitmap_empty) \<and> pre @ cur = xs"
  using assms
proof (induction xs rule: rev_induct)
  case (snoc t xs)
  show ?case
  proof (cases "xs = []")
    case True
    then show ?thesis using push_first [of t] by auto
  next
    case False
    with snoc obtain pre cur w where
      "window_inv pre cur w (fold push_type xs bitmap_empty)" "pre @ cur = xs"
      by (auto simp: sorted_wrt_append)
    with push_type_inv [OF this(1), of t] snoc.prems(1) show ?thesis
      by (fastforce simp: sorted_wrt_append)
  qed
qed simp

lemma bitmap_types_of: "sorted_wrt (<) xs \<Longrightarrow> bitmap_types (bitmap_of xs) = xs"
  using bitmap_of_inv [of xs] flush_window_inv(2)
  by (cases "xs = []") (auto simp: bitmap_of_def bitmap_empty_def flush_window_def)

text \<open>A bitmap the encoder can have written.\<close>

definition bitmap_wf :: "byte list \<Rightarrow> bool" where
  "bitmap_wf bitmap \<longleftrightarrow> sorted_wrt (<) (bitmap_types bitmap) \<and> bitmap = bitmap_of (bitmap_types bitmap)"

lemma bitmap_of_wf: "sorted_wrt (<) xs \<Longrightarrow> bitmap_wf (bitmap_of xs)"
  by (simp add: bitmap_wf_def bitmap_types_of)

lemma sorted_remdups_adj: "sorted xs \<Longrightarrow> sorted_wrt (<) (remdups_adj (xs :: u16 list))"
  by (induction xs rule: remdups_adj.induct) (auto simp: order_le_less)

lemma strict_sorted_types: "sorted_wrt (<) (remdups_adj (sort (xs :: u16 list)))"
  by (simp add: sorted_remdups_adj)

lemma encode_type_bitmap_Inr:
  assumes "encode_type_bitmap ws = Inr bitmap"
  shows "bitmap_wf bitmap \<and> (\<exists>ts. list_all2 (\<lambda>w t. record_type_from_str w = Inr t) ws ts
    \<and> set (bitmap_types bitmap) = record_type_value ` set ts)"
  using assms strict_sorted_types bitmap_of_wf bitmap_types_of
  by (auto simp: encode_type_bitmap_def result_simps rmap_list_Inr)

lemma sort_strict: "sorted_wrt (<) (xs :: u16 list) \<Longrightarrow> remdups_adj (sort xs) = xs"
  by (simp add: strict_sorted_iff sorted_sort_id remdups_adj_distinct)

lemma encode_type_words:
  assumes "bitmap_wf bitmap"
  shows "encode_type_bitmap (type_words bitmap) = Inr bitmap"
proof -
  let ?ts = "map record_type_from_value (bitmap_types bitmap)"
  have "rmap_list record_type_from_str (type_words bitmap) = Inr ?ts"
    unfolding rmap_list_Inr type_words_def list_all2_map1 list_all2_map2
    by (intro list_all2_refl) (simp add: record_type_from_str_display)
  moreover have "map record_type_value ?ts = bitmap_types bitmap" by (simp add: comp_def)
  ultimately show ?thesis
    using assms sort_strict by (simp add: encode_type_bitmap_def bitmap_wf_def)
qed

section \<open>Properties\<close>

text \<open>
  The type bitmap of an NSEC record is exact: when the encoder accepts a list of type
  mnemonics, the bitmap decodes to the types they name, each once and in ascending order, and
  the decoded mnemonics encode to the same bitmap.
\<close>

lemma type_bitmap_roundtrip:
  assumes "encode_type_bitmap ws = Inr bitmap"
  shows "\<exists>ts. list_all2 (\<lambda>w t. record_type_from_str w = Inr t) ws ts
      \<and> bitmap_types bitmap = sorted_list_of_set (record_type_value ` set ts)
      \<and> encode_type_bitmap (type_words bitmap) = Inr bitmap"
proof -
  from encode_type_bitmap_Inr [OF assms] obtain ts where wf: "bitmap_wf bitmap"
    and ts: "list_all2 (\<lambda>w t. record_type_from_str w = Inr t) ws ts"
    "set (bitmap_types bitmap) = record_type_value ` set ts" by blast
  from wf have "sorted_wrt (<) (bitmap_types bitmap)" by (simp add: bitmap_wf_def)
  then have "bitmap_types bitmap = sorted_list_of_set (set (bitmap_types bitmap))"
    by (simp add: strict_sorted_iff sorted_list_of_set.idem_if_sorted_distinct)
  with ts encode_type_words [OF wf] show ?thesis by auto
qed

lemma type_bitmap_roundtrip_witness:
  "\<exists>bitmap. encode_type_bitmap [''MX'', ''a'', ''TYPE257'', ''A''] = Inr bitmap
     \<and> encode_type_bitmap (type_words bitmap) = Inr bitmap"
proof -
  have "strip_prefix ''TYPE'' ''TYPE257'' = Some ''257''" by (simp add: strip_prefix_def)
  moreover have "parse_u16 ''257'' = Some 257"
    by (simp add: parse_u16_def parse_uint_def digits_value_def is_ascii_digit_def digit_val_def)
  moreover have "upper_text ''MX'' = ''MX''" "upper_text ''a'' = ''A''" "upper_text ''TYPE257'' = ''TYPE257''"
    "upper_text ''A'' = ''A''" by code_simp+
  ultimately obtain bitmap where "encode_type_bitmap [''MX'', ''a'', ''TYPE257'', ''A''] = Inr bitmap"
    by (auto simp: encode_type_bitmap_def record_type_from_str_def type_keyword_def)
  with type_bitmap_roundtrip [OF this] show ?thesis by blast
qed

end
