(* ===== verification/Ip_Text.thy ===== *)
theory Ip_Text
  imports Text_Util Rdata
begin

text \<open>
  The text forms of IP addresses in the Rust standard library (\<open>core::net\<close>), which zone files
  use: the parser of \<open>Ipv4Addr\<close> and \<open>Ipv6Addr\<close> and their \<open>Display\<close>. A parser takes the text
  and returns what it read with the text that is left; a parser that fails consumes nothing.
\<close>

section \<open>Numbers and separators\<close>

definition to_digit :: "nat \<Rightarrow> char \<Rightarrow> nat option" where
  "to_digit radix c =
     (let n = code_of c;
          d = (if 48 \<le> n \<and> n \<le> 57 then n - 48
               else if 97 \<le> n \<and> n \<le> 122 then n - 87
               else if 65 \<le> n \<and> n \<le> 90 then n - 55 else radix)
      in if d < radix then Some d else None)"

definition radix_value :: "nat \<Rightarrow> string \<Rightarrow> nat" where
  "radix_value radix s = foldl (\<lambda>a c. a * radix + (case to_digit radix c of Some d \<Rightarrow> d | None \<Rightarrow> 0)) 0 s"

text \<open>\<open>read_number\<close>: at most \<open>digits\<close> digits; \<open>limit\<close> is the greatest value of the type.\<close>

definition read_number :: "nat \<Rightarrow> nat \<Rightarrow> bool \<Rightarrow> nat \<Rightarrow> string \<Rightarrow> (nat \<times> string) option" where
  "read_number radix digits zero_prefix limit s =
     (let ds = takeWhile (\<lambda>c. to_digit radix c \<noteq> None) s;
          rest = dropWhile (\<lambda>c. to_digit radix c \<noteq> None) s in
      if ds = [] \<or> length ds > digits then None
      else if \<not> zero_prefix \<and> hd ds = CHR ''0'' \<and> length ds > 1 then None
      else if radix_value radix ds > limit then None
      else Some (radix_value radix ds, rest))"

definition read_separator :: "char \<Rightarrow> nat \<Rightarrow> (string \<Rightarrow> ('a \<times> string) option) \<Rightarrow> string \<Rightarrow> ('a \<times> string) option" where
  "read_separator sep i p s =
     (if i = 0 then p s else (case s of c # r \<Rightarrow> if c = sep then p r else None | [] \<Rightarrow> None))"

section \<open>IPv4\<close>

fun read_octets :: "nat \<Rightarrow> nat \<Rightarrow> string \<Rightarrow> (byte list \<times> string) option" where
  "read_octets i 0 s = Some ([], s)"
| "read_octets i (Suc k) s =
     (case read_separator dot i (read_number 10 3 False 255) s of
        None \<Rightarrow> None
      | Some (n, r) \<Rightarrow> map_option (\<lambda>(os, r). (word_of_nat n # os, r)) (read_octets (Suc i) k r))"

definition read_ipv4_addr :: "string \<Rightarrow> (byte list \<times> string) option" where
  "read_ipv4_addr s = read_octets 0 4 s"

definition parse_ipv4 :: "string \<Rightarrow> ipv4 option" where
  "parse_ipv4 s =
     (if length s > 15 then None
      else case read_ipv4_addr s of Some (os, []) \<Rightarrow> Some (ipv4_from_octets os) | _ \<Rightarrow> None)"

definition ipv4_display :: "ipv4 \<Rightarrow> string" where
  "ipv4_display a = join_with ''.'' (map (\<lambda>b. show_nat (unat b)) (ipv4_octets a))"

section \<open>IPv6\<close>

abbreviation colon :: char where
  "colon \<equiv> CHR '':''"

text \<open>
  \<open>read_groups\<close>: \<open>i\<close> groups are read and at most \<open>n\<close> may follow. Returns the groups, whether
  the last two came from an embedded IPv4 address, and the text that is left.
\<close>

fun read_groups :: "nat \<Rightarrow> nat \<Rightarrow> string \<Rightarrow> nat list \<times> bool \<times> string" where
  "read_groups i 0 s = ([], False, s)"
| "read_groups i (Suc n) s =
     (case (if n > 0 then read_separator colon i read_ipv4_addr s else None) of
        Some (os, r) \<Rightarrow>
          ([of_be (take 2 os), of_be (drop 2 os)], True, r)
      | None \<Rightarrow>
          (case read_separator colon i (read_number 16 4 True 65535) s of
             None \<Rightarrow> ([], False, s)
           | Some (g, r) \<Rightarrow>
               (let (gs, v4, r') = read_groups (Suc i) n r in (g # gs, v4, r'))))"

definition segments_value :: "nat list \<Rightarrow> nat" where
  "segments_value gs = foldl (\<lambda>a g. a * 65536 + g) 0 gs"

definition read_ipv6_addr :: "string \<Rightarrow> (nat list \<times> string) option" where
  "read_ipv6_addr s =
     (let (head, head_v4, r) = read_groups 0 8 s in
      if length head = 8 then Some (head, r)
      else if head_v4 then None
      else if take 2 r \<noteq> ''::'' then None
      else let (tail, _, r') = read_groups 0 (7 - length head) (drop 2 r) in
        Some (head @ replicate (8 - length head - length tail) 0 @ tail, r'))"

definition parse_ipv6 :: "string \<Rightarrow> ipv6 option" where
  "parse_ipv6 s =
     (case read_ipv6_addr s of Some (gs, []) \<Rightarrow> Some (word_of_nat (segments_value gs)) | _ \<Rightarrow> None)"

fun segments_of :: "nat \<Rightarrow> nat \<Rightarrow> nat list" where
  "segments_of 0 n = []"
| "segments_of (Suc k) n = segments_of k (n div 65536) @ [n mod 65536]"

definition ipv6_segments :: "ipv6 \<Rightarrow> nat list" where
  "ipv6_segments a = segments_of 8 (unat a)"

fun show_hex :: "nat \<Rightarrow> string" where
  "show_hex n = (if n < 16 then [hex_digit n] else show_hex (n div 16) @ [hex_digit (n mod 16)])"

declare show_hex.simps [simp del]

text \<open>
  The longest run of zero segments, the first of several: \<open>i\<close> is the index, \<open>cur\<close> and \<open>best\<close>
  are (start, length).
\<close>

fun longest_zeros :: "nat \<Rightarrow> nat \<times> nat \<Rightarrow> nat \<times> nat \<Rightarrow> nat list \<Rightarrow> nat \<times> nat" where
  "longest_zeros i cur best [] = best"
| "longest_zeros i cur best (g # gs) =
     (if g = 0 then
        let cur = (if snd cur = 0 then i else fst cur, snd cur + 1);
            best = (if snd cur > snd best then cur else best)
        in longest_zeros (Suc i) cur best gs
      else longest_zeros (Suc i) (0, 0) best gs)"

definition hex_groups :: "nat list \<Rightarrow> string" where
  "hex_groups gs = join_with '':'' (map show_hex gs)"

definition ipv6_display :: "ipv6 \<Rightarrow> string" where
  "ipv6_display a =
     (let gs = ipv6_segments a in
      if take 6 gs = [0, 0, 0, 0, 0, 65535] then
        ''::ffff:'' @ ipv4_display (ucast a)
      else let (start, len) = longest_zeros 0 (0, 0) (0, 0) gs in
        if len > 1 then hex_groups (take start gs) @ ''::'' @ hex_groups (drop (start + len) gs)
        else hex_groups gs)"

section \<open>What is printed is read back\<close>

lemma to_digit_10: "to_digit 10 c = (if is_ascii_digit c then Some (digit_val c) else None)"
  by (auto simp: to_digit_def is_ascii_digit_def digit_val_def Let_def)

lemma radix_value_10: "list_all is_ascii_digit s \<Longrightarrow> radix_value 10 s = digits_value s"
proof (induction s rule: rev_induct)
  case (snoc c s)
  then show ?case by (simp add: radix_value_def digits_value_def to_digit_10)
qed (simp add: radix_value_def)

lemma show_nat_hd: "0 < n \<Longrightarrow> hd (show_nat n) \<noteq> CHR ''0''"
proof (induction n rule: show_nat.induct)
  case (1 n)
  have "digit_char n \<noteq> CHR ''0''" if "n < 10" "0 < n"
    using digit_char_props(2) [OF that(1)] that(2) by (auto simp: digit_val_def)
  with 1 show ?case
    by (cases "n < 10") (simp_all add: show_nat.simps [of n] show_nat_digits)
qed

lemma show_nat_length:
  "n < 10 \<Longrightarrow> length (show_nat n) = 1" "n < 100 \<Longrightarrow> length (show_nat n) \<le> 2"
  "n < 1000 \<Longrightarrow> length (show_nat n) \<le> 3"
proof -
  have one: "length (show_nat m) = 1" if "m < 10" for m
    using that by (simp add: show_nat.simps [of m])
  have two: "length (show_nat m) \<le> 2" if "m < 100" for m
    using that one [of "m div 10"] by (cases "m < 10") (simp_all add: one show_nat.simps [of m])
  show "n < 10 \<Longrightarrow> length (show_nat n) = 1" "n < 100 \<Longrightarrow> length (show_nat n) \<le> 2"
    by (rule one two; assumption)+
  show "n < 1000 \<Longrightarrow> length (show_nat n) \<le> 3"
    using two [of "n div 10"] by (cases "n < 10") (simp_all add: one show_nat.simps [of n])
qed

lemma takeWhile_prefix:
  assumes "list_all P xs" "\<not> (\<exists>c r. rest = c # r \<and> P c)"
  shows "takeWhile P (xs @ rest) = xs" "dropWhile P (xs @ rest) = rest"
  using assms by (cases rest; auto simp: list_all_iff takeWhile_append dropWhile_append)+

definition no_digit :: "nat \<Rightarrow> string \<Rightarrow> bool" where
  "no_digit radix s \<longleftrightarrow> (case s of c # _ \<Rightarrow> to_digit radix c = None | [] \<Rightarrow> True)"

lemma read_number_prefix:
  assumes "list_all (\<lambda>c. to_digit radix c \<noteq> None) ds" "ds \<noteq> []" "no_digit radix rest"
    and "length ds \<le> digits" "radix_value radix ds \<le> limit"
    and "zero_prefix \<or> hd ds \<noteq> CHR ''0'' \<or> length ds = 1"
  shows "read_number radix digits zero_prefix limit (ds @ rest) = Some (radix_value radix ds, rest)"
proof -
  have "\<not> (\<exists>c r. rest = c # r \<and> to_digit radix c \<noteq> None)"
    using assms(3) by (auto simp: no_digit_def)
  note split = takeWhile_prefix [OF assms(1) this]
  show ?thesis using assms(2,4-6) unfolding read_number_def split Let_def by (auto simp: length_greater_0_conv)
qed

lemma read_number_decimal:
  assumes "n \<le> 255" "no_digit 10 rest"
  shows "read_number 10 3 False 255 (show_nat n @ rest) = Some (n, rest)"
proof -
  have digits: "list_all is_ascii_digit (show_nat n)" "show_nat n \<noteq> []" "digits_value (show_nat n) = n"
    using show_nat_digits by blast+
  have "n = 0 \<Longrightarrow> length (show_nat n) = 1" by (simp add: show_nat_length)
  then have "hd (show_nat n) \<noteq> CHR ''0'' \<or> length (show_nat n) = 1"
    using show_nat_hd by blast
  moreover have "list_all (\<lambda>c. to_digit 10 c \<noteq> None) (show_nat n)"
    using digits(1) by (auto simp: list_all_iff to_digit_10)
  ultimately show ?thesis
    using read_number_prefix [of 10 "show_nat n" rest 3 255 False] assms digits show_nat_length(3) [of n]
    by (simp add: radix_value_10)
qed

lemma no_digit_sep: "no_digit 10 (dot # s)" "no_digit 10 []" "no_digit 16 (colon # s)" "no_digit 16 []"
  by (simp_all add: no_digit_def to_digit_def)

lemma read_octets_shown:
  assumes "no_digit 10 rest"
  shows "read_octets 0 4 (join_with ''.'' (map (\<lambda>b. show_nat (unat b)) [a, b, c, d]) @ rest) = Some ([a, b, c, d], rest)"
proof -
  have le: "unat x \<le> 255" for x :: byte using unat_byte_less [of x] by linarith
  note step = read_number_decimal [OF le]
  have four: "(4 :: nat) = Suc (Suc (Suc (Suc 0)))" by simp
  show ?thesis
    unfolding four by (simp add: read_separator_def step no_digit_sep assms)
qed

lemma four_octets:
  obtains a b c d where "ipv4_octets ip = [a, b, c, d]"
proof -
  have "length (ipv4_octets ip) = Suc (Suc (Suc (Suc 0)))" by simp
  then show ?thesis using that by (auto simp: length_Suc_conv simp del: ip_octets)
qed

lemma read_ipv4_shown:
  assumes "no_digit 10 rest"
  shows "read_ipv4_addr (ipv4_display ip @ rest) = Some (ipv4_octets ip, rest)"
proof -
  obtain a b c d where ip: "ipv4_octets ip = [a, b, c, d]" by (rule four_octets)
  show ?thesis
    unfolding read_ipv4_addr_def ipv4_display_def ip by (rule read_octets_shown [OF assms])
qed

lemma parse_ipv4_display: "parse_ipv4 (ipv4_display ip) = Some ip"
proof -
  obtain a b c d where ip: "ipv4_octets ip = [a, b, c, d]" by (rule four_octets)
  have "length (show_nat (unat x)) \<le> 3" for x :: byte
    using unat_byte_less [of x] by (intro show_nat_length(3)) linarith
  from this [of a] this [of b] this [of c] this [of d] have "length (ipv4_display ip) \<le> 15"
    by (simp add: ipv4_display_def ip)
  then show ?thesis
    using read_ipv4_shown [of "[]" ip] by (simp add: parse_ipv4_def no_digit_sep)
qed

section \<open>IPv6 text is read back\<close>

lemma to_digit_hex: "d < 16 \<Longrightarrow> to_digit 16 (hex_digit d) = Some d"
  by (auto simp: to_digit_def hex_digit_def digit_char_def Let_def)

lemma show_hex_digits:
  "show_hex n \<noteq> [] \<and> list_all (\<lambda>c. to_digit 16 c \<noteq> None) (show_hex n) \<and> radix_value 16 (show_hex n) = n"
proof (induction n rule: show_hex.induct)
  case (1 n)
  then show ?case
    by (cases "n < 16") (simp_all add: show_hex.simps [of n] to_digit_hex radix_value_def)
qed

lemma show_hex_length: "n < 65536 \<Longrightarrow> length (show_hex n) \<le> 4"
proof -
  have one: "length (show_hex m) = 1" if "m < 16" for m
    using that by (simp add: show_hex.simps [of m])
  have two: "length (show_hex m) \<le> 2" if "m < 256" for m
    using that one [of "m div 16"] by (cases "m < 16") (simp_all add: one show_hex.simps [of m])
  have three: "length (show_hex m) \<le> 3" if "m < 4096" for m
    using that two [of "m div 16"] by (cases "m < 16") (simp_all add: one show_hex.simps [of m])
  show "n < 65536 \<Longrightarrow> length (show_hex n) \<le> 4"
    using three [of "n div 16"] by (cases "n < 16") (simp_all add: one show_hex.simps [of n])
qed

lemma read_number_hex:
  "g < 65536 \<Longrightarrow> no_digit 16 rest \<Longrightarrow> read_number 16 4 True 65535 (show_hex g @ rest) = Some (g, rest)"
  using read_number_prefix [of 16 "show_hex g" rest 4 65535 True] show_hex_digits [of g] show_hex_length [of g]
  by simp

lemma read_number_Some:
  assumes "read_number radix digits z limit s = Some (n, rest)"
  shows "\<exists>ds. s = ds @ rest \<and> list_all (\<lambda>c. to_digit radix c \<noteq> None) ds \<and> ds \<noteq> []"
  using assms takeWhile_dropWhile_id [of "\<lambda>c. to_digit radix c \<noteq> None" s]
  by (auto simp: read_number_def Let_def list_all_iff split: if_splits dest: set_takeWhileD
      intro!: exI [of _ "takeWhile (\<lambda>c. to_digit radix c \<noteq> None) s"])

lemma read_octets_Suc:
  assumes "read_octets i (Suc k) s = Some x"
  obtains n r y where "read_separator dot i (read_number 10 3 False 255) s = Some (n, r)"
    "read_octets (Suc i) k r = Some y"
  using assms by (auto split: option.splits)

lemma read_ipv4_needs_dot:
  assumes "read_ipv4_addr s = Some (os, r)"
  shows "dot \<in> set (takeWhile (\<lambda>c. c \<noteq> colon) s)"
proof -
  have "read_octets 0 (Suc (Suc 2)) s = Some (os, r)"
    using assms by (simp add: read_ipv4_addr_def del: read_octets.simps)
  then obtain n rest y where "read_separator dot 0 (read_number 10 3 False 255) s = Some (n, rest)"
    and y: "read_octets (Suc 0) (Suc 2) rest = Some y" by (rule read_octets_Suc)
  then have n: "read_number 10 3 False 255 s = Some (n, rest)"
    by (simp add: read_separator_def)
  from y obtain m rest' where "read_separator dot (Suc 0) (read_number 10 3 False 255) rest = Some (m, rest')"
    by (rule read_octets_Suc)
  then obtain rest'' where "rest = dot # rest''"
    by (auto simp: read_separator_def split: list.splits if_splits)
  moreover obtain ds where "s = ds @ rest" and ds: "list_all (\<lambda>c. to_digit 10 c \<noteq> None) ds"
    using read_number_Some [OF n] by blast
  moreover from ds have "\<forall>c \<in> set ds. c \<noteq> colon" by (auto simp: list_all_iff to_digit_def Let_def)
  ultimately show ?thesis by (simp add: takeWhile_append)
qed

lemma read_ipv4_hex:
  assumes "rest = [] \<or> (\<exists>r. rest = colon # r)"
  shows "read_ipv4_addr (show_hex g @ rest) = None" "read_ipv4_addr rest = None"
proof -
  have hex: "\<forall>c \<in> set (show_hex g). c \<noteq> colon \<and> c \<noteq> dot"
    using show_hex_digits [of g] by (auto simp: list_all_iff to_digit_def Let_def)
  from assms have "takeWhile (\<lambda>c. c \<noteq> colon) rest = []" by auto
  moreover from this hex have "takeWhile (\<lambda>c. c \<noteq> colon) (show_hex g @ rest) = show_hex g"
    by (auto simp: takeWhile_append takeWhile_eq_all_conv)
  ultimately show "read_ipv4_addr (show_hex g @ rest) = None" "read_ipv4_addr rest = None"
    using read_ipv4_needs_dot hex by (metis empty_iff list.set(1) not_None_eq surj_pair)+
qed

definition groups_text :: "nat list \<Rightarrow> string" where
  "groups_text gs = concat (map (\<lambda>g. colon # show_hex g) gs)"

lemma groups_text_Nil [simp]: "groups_text [] = []"
  by (simp add: groups_text_def)

lemma hex_groups_Cons: "hex_groups (g # gs) = show_hex g @ groups_text gs"
  by (induction gs arbitrary: g) (auto simp: hex_groups_def groups_text_def)

lemma groups_text_end:
  assumes "rest = [] \<or> (\<exists>r. rest = colon # colon # r)"
  shows "groups_text gs @ rest = [] \<or> (\<exists>r. groups_text gs @ rest = colon # r)"
  using assms by (cases gs) (auto simp: groups_text_def)

lemma no_digit_end: "s = [] \<or> (\<exists>r. s = colon # r) \<Longrightarrow> no_digit 16 s"
  using no_digit_sep by auto

lemma read_groups_stop:
  assumes "rest = [] \<or> (\<exists>r. rest = colon # colon # r)"
  shows "read_groups i n rest = ([], False, rest)"
proof (cases n)
  case (Suc m)
  have none: "read_number 16 4 True 65535 (colon # r) = None" "read_number 16 4 True 65535 [] = None" for r
    by (simp_all add: read_number_def to_digit_def)
  have "read_ipv4_addr (colon # r) = None" "read_ipv4_addr [] = None" for r
    using read_ipv4_hex(2) [of "colon # r"] read_ipv4_hex(2) [of "[]"] by auto
  with none assms show ?thesis
    by (auto simp: Suc read_separator_def split: option.splits)
qed simp

lemma read_groups_shown:
  assumes "list_all (\<lambda>g. g < 65536) gs" "length gs \<le> n" "0 < i"
    and rest: "rest = [] \<or> (\<exists>r. rest = colon # colon # r)"
  shows "read_groups i n (groups_text gs @ rest) = (gs, False, rest)"
  using assms(1-3)
proof (induction gs arbitrary: i n)
  case Nil
  then show ?case using read_groups_stop [OF rest] by (simp add: groups_text_def)
next
  case (Cons g gs)
  then obtain m where n: "n = Suc m" by (cases n) auto
  let ?rest = "groups_text gs @ rest"
  have "read_ipv4_addr (show_hex g @ ?rest) = None" by (rule read_ipv4_hex(1) [OF groups_text_end [OF rest]])
  moreover have "read_number 16 4 True 65535 (show_hex g @ ?rest) = Some (g, ?rest)"
    using Cons.prems(1) no_digit_end [OF groups_text_end [OF rest]] by (intro read_number_hex) simp_all
  moreover have "groups_text (g # gs) @ rest = colon # show_hex g @ ?rest" by (simp add: groups_text_def)
  ultimately show ?case
    using Cons.IH [of m "Suc i"] Cons.prems by (auto simp: n read_separator_def)
qed

lemma read_groups_head:
  assumes "list_all (\<lambda>g. g < 65536) gs" "length gs \<le> n"
    and rest: "rest = [] \<or> (\<exists>r. rest = colon # colon # r)"
  shows "read_groups 0 n (hex_groups gs @ rest) = (gs, False, rest)"
proof (cases gs)
  case Nil
  then show ?thesis using read_groups_stop [OF rest] by (simp add: hex_groups_def)
next
  case (Cons g gs')
  then obtain m where n: "n = Suc m" using assms(2) by (cases n) auto
  let ?rest = "groups_text gs' @ rest"
  have "read_ipv4_addr (show_hex g @ ?rest) = None" by (rule read_ipv4_hex(1) [OF groups_text_end [OF rest]])
  moreover have "read_number 16 4 True 65535 (show_hex g @ ?rest) = Some (g, ?rest)"
    using assms(1) Cons no_digit_end [OF groups_text_end [OF rest]] by (intro read_number_hex) simp_all
  ultimately show ?thesis
    using read_groups_shown [OF _ _ _ rest, of gs' m 1] assms(1,2)
    by (auto simp: Cons n hex_groups_Cons read_separator_def)
qed

text \<open>A run of zeros that lies in the list.\<close>

definition zero_run :: "nat list \<Rightarrow> nat \<times> nat \<Rightarrow> bool" where
  "zero_run gs = (\<lambda>(s, l). s + l \<le> length gs \<and> (\<forall>k < l. gs ! (s + k) = 0))"

lemma longest_zeros_run:
  assumes "zero_run all cur" "zero_run all best" "snd cur = 0 \<or> fst cur + snd cur = i"
    and "all = pre @ gs" "i = length pre"
  shows "zero_run all (longest_zeros i cur best gs)"
  using assms
proof (induction gs arbitrary: i cur best pre)
  case (Cons g gs)
  let ?cur = "(if snd cur = 0 then i else fst cur, snd cur + 1)"
  have step: "all = (pre @ [g]) @ gs" "Suc i = length (pre @ [g])" using Cons.prems(4,5) by auto
  show ?case
  proof (cases "g = 0")
    case True
    have "zero_run all ?cur"
      using Cons.prems True by (cases cur) (auto simp: zero_run_def nth_append less_Suc_eq)
    then have "zero_run all (longest_zeros (Suc i) ?cur b gs)" if "zero_run all b" for b
      using Cons.IH [OF _ that _ step, of ?cur] Cons.prems(3) by auto
    with \<open>zero_run all ?cur\<close> Cons.prems(2) True show ?thesis by (simp add: Let_def)
  next
    case False
    have "zero_run all (0, 0)" by (simp add: zero_run_def)
    with Cons.IH [OF _ _ _ step] Cons.prems False show ?thesis by simp
  qed
qed simp

lemma zero_run_split:
  assumes "zero_run gs (s, l)"
  shows "take s gs @ replicate l 0 @ drop (s + l) gs = gs"
  using assms by (intro nth_equalityI) (auto simp: zero_run_def nth_append)

lemma segments_of_props:
  "length (segments_of k n) = k" "list_all (\<lambda>g. g < 65536) (segments_of k n)"
  by (induction k arbitrary: n) simp_all

lemma segments_value_snoc [simp]: "segments_value (gs @ [g]) = segments_value gs * 65536 + g"
  by (simp add: segments_value_def)

lemma segments_value_of: "segments_value (segments_of k n) = n mod 65536 ^ k"
proof (induction k arbitrary: n)
  case (Suc k)
  have "segments_value (segments_of (Suc k) n) = (n div 65536) mod 65536 ^ k * 65536 + n mod 65536"
    by (simp add: Suc)
  also have "\<dots> = n mod (65536 * 65536 ^ k)" by (simp only: mod_mult2_eq)
  finally show ?case by simp
qed (simp add: segments_value_def)

lemma ipv6_segments_props:
  "length (ipv6_segments a) = 8" "list_all (\<lambda>g. g < 65536) (ipv6_segments a)"
  "word_of_nat (segments_value (ipv6_segments a)) = a"
proof -
  show "length (ipv6_segments a) = 8" "list_all (\<lambda>g. g < 65536) (ipv6_segments a)"
    unfolding ipv6_segments_def by (rule segments_of_props)+
  have "unat a < 65536 ^ 8" using unsigned_less [of a, where 'a = nat] by simp
  then show "word_of_nat (segments_value (ipv6_segments a)) = a"
    by (simp add: ipv6_segments_def segments_value_of)
qed

lemma read_groups_colons: "read_groups 0 8 (colon # colon # r) = ([], False, colon # colon # r)"
  by (rule read_groups_stop) simp

lemma mapped_segments:
  assumes "take 6 (ipv6_segments a) = [0, 0, 0, 0, 0, 65535]"
  shows "ipv6_segments a = [0, 0, 0, 0, 0, 65535,
     of_be (take 2 (ipv4_octets (ucast a))), of_be (drop 2 (ipv4_octets (ucast a)))]"
proof -
  have w: "unat (ucast a :: ipv4) = unat a mod 2 ^ 32"
    by (simp add: unsigned_ucast_eq take_bit_eq_mod)
  have two: "to_be 4 n = to_be 2 (n div 65536) @ to_be 2 n" for n
    using to_be_add [of 2 2 n] by simp
  have segs: "ipv6_segments a = segments_of 6 (unat a div 65536 div 65536) @ [unat a div 65536 mod 65536, unat a mod 65536]"
  proof -
    have "segments_of (Suc (Suc 6)) n = segments_of 6 (n div 65536 div 65536) @ [n div 65536 mod 65536, n mod 65536]" for n
      by (simp only: segments_of.simps append_assoc append_Cons append_Nil)
    then show ?thesis by (simp add: ipv6_segments_def)
  qed
  with assms have "segments_of 6 (unat a div 65536 div 65536) = [0, 0, 0, 0, 0, 65535]"
    by (simp add: segments_of_props)
  moreover have "(unat a mod 2 ^ 32) div 65536 mod 65536 = unat a div 65536 mod 65536"
    using mod_mult2_eq [of "unat a" 65536 65536] by simp
  moreover have "unat a mod 2 ^ 32 mod 65536 = unat a mod 65536"
    by (simp add: mod_mod_cancel)
  ultimately show ?thesis
    unfolding segs by (simp add: ipv4_octets_def w two of_be_to_be del: segments_of.simps)
qed

lemma parse_ipv6_mapped:
  assumes "take 6 (ipv6_segments a) = [0, 0, 0, 0, 0, 65535]"
  shows "parse_ipv6 (''::ffff:'' @ ipv4_display (ucast a)) = Some a"
proof -
  let ?v4 = "ipv4_display (ucast a)"
  let ?os = "ipv4_octets (ucast a)"
  have ffff: "''ffff'' = show_hex 65535"
    by (simp add: show_hex.simps hex_digit_def) code_simp
  have "read_ipv4_addr (show_hex 65535 @ colon # ?v4) = None" by (rule read_ipv4_hex(1)) simp
  moreover have "read_number 16 4 True 65535 (show_hex 65535 @ colon # ?v4) = Some (65535, colon # ?v4)"
    by (rule read_number_hex) (simp_all add: no_digit_sep)
  moreover have "read_ipv4_addr ?v4 = Some (?os, [])"
    using read_ipv4_shown [of "[]"] by (simp add: no_digit_sep)
  then have "read_groups (Suc 0) (Suc n) (colon # ?v4) = ([of_be (take 2 ?os), of_be (drop 2 ?os)], True, [])"
    if "0 < n" for n using that by (simp add: read_separator_def)
  ultimately have "read_groups 0 (Suc (Suc n)) (show_hex 65535 @ colon # ?v4)
      = ([65535, of_be (take 2 ?os), of_be (drop 2 ?os)], True, [])" if "0 < n" for n
    using that by (simp add: read_separator_def del: read_groups.simps(2) add: read_groups.simps(2) [of 0])
  from this [of 5] have "read_groups 0 7 (show_hex 65535 @ colon # ?v4)
      = ([65535, of_be (take 2 ?os), of_be (drop 2 ?os)], True, [])" by simp
  moreover have five: "replicate 5 (0 :: nat) = [0, 0, 0, 0, 0]" by code_simp
  ultimately have "read_ipv6_addr (''::'' @ show_hex 65535 @ colon # ?v4) = Some (ipv6_segments a, [])"
    unfolding mapped_segments [OF assms]
    using five by (simp add: read_ipv6_addr_def read_groups_colons del: read_groups.simps replicate.simps)
  then show ?thesis
    using ipv6_segments_props(3) [of a] by (simp add: parse_ipv6_def ffff [symmetric])
qed

lemma parse_ipv6_display: "parse_ipv6 (ipv6_display a) = Some a"
proof (cases "take 6 (ipv6_segments a) = [0, 0, 0, 0, 0, 65535]")
  case True
  then show ?thesis using parse_ipv6_mapped [OF True] by (simp add: ipv6_display_def)
next
  case False
  let ?gs = "ipv6_segments a"
  obtain s l where run: "longest_zeros 0 (0, 0) (0, 0) ?gs = (s, l)" by fastforce
  have "zero_run ?gs (s, l)"
    using longest_zeros_run [of ?gs "(0, 0)" "(0, 0)" 0 "[]" ?gs] by (simp add: zero_run_def run)
  note split = zero_run_split [OF this]
  have le: "s + l \<le> 8" using \<open>zero_run ?gs (s, l)\<close> by (simp add: zero_run_def ipv6_segments_props)
  have "read_ipv6_addr (ipv6_display a) = Some (?gs, [])"
  proof (cases "l > 1")
    case True
    let ?h = "take s ?gs" and ?t = "drop (s + l) ?gs"
    have parts: "list_all (\<lambda>g. g < 65536) ?h" "list_all (\<lambda>g. g < 65536) ?t" "length ?h = s" "length ?t = 8 - (s + l)"
      using ipv6_segments_props(1,2) [of a] le by (auto simp: list_all_iff dest: in_set_takeD in_set_dropD)
    have "read_groups 0 8 (hex_groups ?h @ ''::'' @ hex_groups ?t) = (?h, False, ''::'' @ hex_groups ?t)"
      using parts le by (intro read_groups_head) simp_all
    moreover have "read_groups 0 (7 - s) (hex_groups ?t @ []) = (?t, False, [])"
      using parts le True by (intro read_groups_head) simp_all
    ultimately show ?thesis
      using parts le True split False
      by (simp add: ipv6_display_def run Let_def read_ipv6_addr_def)
  next
    case short: False
    have "read_groups 0 8 (hex_groups ?gs @ []) = (?gs, False, [])"
      using ipv6_segments_props(1,2) [of a] by (intro read_groups_head) simp_all
    then show ?thesis
      using short False ipv6_segments_props(1) [of a]
      by (simp add: ipv6_display_def run Let_def read_ipv6_addr_def)
  qed
  then show ?thesis
    using ipv6_segments_props(3) [of a] by (simp add: parse_ipv6_def)
qed

end
