(* ===== verification/Dnssec_Time.thy ===== *)
theory Dnssec_Time
  imports Type_Bitmap Ip_Text
begin

text \<open>
  The signature times of RRSIG records in \<open>zone/rdata_dnssec.rs\<close>: \<open>YYYYMMDDHHMMSS\<close> and
  seconds since the epoch. The code computes in \<open>u32\<close>; the workspace is built with overflow
  checks, so an operation that leaves the range, or a slice inside a character, is a panic. A
  panic is a value of the model.
\<close>

section \<open>Panics and checked arithmetic\<close>

datatype 'e fault = Failed 'e | Panicked

text \<open>\<open>u32\<close> values as natural numbers: the result of an addition or multiplication, and a subtraction.\<close>

definition in_u32 :: "nat \<Rightarrow> 'e fault + nat" where
  "in_u32 n = (if n < 2 ^ 32 then Inr n else Inl Panicked)"

definition sub_u32 :: "nat \<Rightarrow> nat \<Rightarrow> 'e fault + nat" where
  "sub_u32 a b = (if b \<le> a then Inr (a - b) else Inl Panicked)"

lemma in_u32_fits: "n < 4294967296 \<Longrightarrow> in_u32 n = Inr n"
  by (simp add: in_u32_def)

section \<open>Dates\<close>

definition days_from_date :: "nat \<Rightarrow> nat \<Rightarrow> nat \<Rightarrow> 'e fault + nat" where
  "days_from_date year month day =
     rbind (if month \<le> 2 then sub_u32 year 1 else Inr year) (\<lambda>y.
     let era = y div 400; yoe = y - era * 400 in
     rbind (in_u32 (153 * (if month > 2 then month - 3 else month + 9) + 2)) (\<lambda>m.
     rbind (in_u32 (m div 5 + day)) (\<lambda>d.
     rbind (sub_u32 d 1) (\<lambda>doy.
     rbind (in_u32 (yoe * 365 + yoe div 4 - yoe div 100 + doy)) (\<lambda>doe.
     rbind (in_u32 (era * 146097 + doe)) (\<lambda>days.
     sub_u32 days 719468))))))"

definition year_of_era :: "nat \<Rightarrow> nat" where
  "year_of_era doe = (doe - doe div 1460 + doe div 36524 - doe div 146096) div 365"

text \<open>The argument is at most \<open>u32::MAX / 86400\<close>, so nothing overflows here.\<close>

definition date_from_days :: "nat \<Rightarrow> nat \<times> nat \<times> nat" where
  "date_from_days days =
     (let z = days + 719468;
          era = z div 146097;
          doe = z - era * 146097;
          yoe = year_of_era doe;
          y = yoe + era * 400;
          doy = doe - (365 * yoe + yoe div 4 - yoe div 100);
          mp = (5 * doy + 2) div 153;
          d = doy - (153 * mp + 2) div 5 + 1;
          m = (if mp < 10 then mp + 3 else mp - 9);
          year = (if m \<le> 2 then y + 1 else y)
      in (year, m, d))"

section \<open>Time stamps\<close>

text \<open>\<open>{n:0width}\<close>.\<close>

definition pad_nat :: "nat \<Rightarrow> nat \<Rightarrow> string" where
  "pad_nat width n = replicate (width - length (show_nat n)) CHR ''0'' @ show_nat n"

definition format_timestamp :: "u32 \<Rightarrow> string" where
  "format_timestamp ts =
     (let (year, month, day) = date_from_days (unat ts div 86400);
          remainder = unat ts mod 86400;
          hour = remainder div 3600;
          minute = remainder mod 3600 div 60;
          second = remainder mod 60
      in pad_nat 4 year @ pad_nat 2 month @ pad_nat 2 day @ pad_nat 2 hour @ pad_nat 2 minute @ pad_nat 2 second)"

definition char_boundary :: "string \<Rightarrow> nat \<Rightarrow> bool" where
  "char_boundary s i \<longleftrightarrow> i = length s \<or> i < length s \<and> \<not> (0x80 \<le> code_of (s ! i) \<and> code_of (s ! i) < 0xC0)"

definition timestamp_field :: "string \<Rightarrow> string \<Rightarrow> string \<Rightarrow> nat \<Rightarrow> nat \<Rightarrow> core_error fault + nat" where
  "timestamp_field field what s a b =
     (if \<not> (char_boundary s a \<and> char_boundary s b) then Inl Panicked
      else map_err Failed (rmap unat
             (ok_or (zone_error (''invalid '' @ field @ '' '' @ what)) (parse_u32 (drop a (take b s))))))"

definition parse_date_timestamp :: "string \<Rightarrow> string \<Rightarrow> core_error fault + u32" where
  "parse_date_timestamp field s =
     (if length s \<noteq> 14 then
        Inl (Failed (zone_error (''invalid '' @ field @ '' timestamp `'' @ s @ ''`: expected YYYYMMDDHHMMSS'')))
      else
        rbind (timestamp_field field ''year'' s 0 4) (\<lambda>year.
        rbind (timestamp_field field ''month'' s 4 6) (\<lambda>month.
        rbind (timestamp_field field ''day'' s 6 8) (\<lambda>day.
        rbind (timestamp_field field ''hour'' s 8 10) (\<lambda>hour.
        rbind (timestamp_field field ''minute'' s 10 12) (\<lambda>minute.
        rbind (timestamp_field field ''second'' s 12 14) (\<lambda>second.
        rbind (days_from_date year month day) (\<lambda>days.
        rbind (in_u32 (days * 86400)) (\<lambda>t.
        rbind (in_u32 (hour * 3600)) (\<lambda>hs.
        rbind (in_u32 (t + hs)) (\<lambda>t.
        rbind (in_u32 (minute * 60)) (\<lambda>ms.
        rbind (in_u32 (t + ms)) (\<lambda>t.
        rmap word_of_nat (in_u32 (t + second)))))))))))))))"

definition parse_timestamp :: "string \<Rightarrow> string \<Rightarrow> core_error fault + u32" where
  "parse_timestamp field s =
     (case parse_u32 s of
        Some v \<Rightarrow> (if length s \<noteq> 14 then Inr v else parse_date_timestamp field s)
      | None \<Rightarrow> parse_date_timestamp field s)"

section \<open>The calendar\<close>

text \<open>Days before a year of an era, and the year a day of the era lies in.\<close>

definition days_before :: "nat \<Rightarrow> nat" where
  "days_before y = (if y = 400 then 146097 else 365 * y + y div 4 - y div 100)"

lemma year_bracket:
  assumes "doe < days_before n" "n \<le> 400"
  shows "\<exists>y < n. days_before y \<le> doe \<and> doe < days_before (Suc y)"
  using assms
proof (induction n)
  case 0
  then show ?case by (simp add: days_before_def)
next
  case (Suc n)
  then show ?case by (cases "doe < days_before n") (auto simp: less_Suc_eq not_less)
qed

definition numerator :: "nat \<Rightarrow> nat" where
  "numerator x = x - x div 1460 + x div 36524"

lemma numerator_mono: "x \<le> y \<Longrightarrow> numerator x \<le> numerator y"
proof (rule lift_Suc_mono_le [where f = numerator])
  fix n :: nat
  have "Suc n div 1460 \<le> n div 1460 + 1" "n div 36524 \<le> Suc n div 36524" "n div 1460 \<le> n" by simp_all
  then show "numerator n \<le> numerator (Suc n)" unfolding numerator_def by linarith
qed

lemma year_parts:
  assumes "y < 400"
  obtains q r c where "days_before y = 1460 * q + 365 * r + (q - c)" "y = 4 * q + r" "r < 4" "q < 100"
    "25 * c \<le> q" "c * 36524 \<le> days_before y" "days_before y < Suc c * 36524" "c \<le> q"
proof -
  let ?q = "y div 4" and ?r = "y mod 4" and ?c = "y div 100" and ?u = "y mod 100"
  have y: "y = 4 * ?q + ?r" "y = 100 * ?c + ?u" by simp_all
  have q: "?q = 25 * ?c + ?u div 4"
  proof -
    have "(?u + 4 * (25 * ?c)) div 4 = 25 * ?c + ?u div 4" by (rule div_mult_self2) simp
    moreover have "?u + 4 * (25 * ?c) = y" using y(2) by linarith
    ultimately show ?thesis by metis
  qed
  have s: "days_before y = 365 * y + ?q - ?c" using assms by (simp add: days_before_def)
  also have "\<dots> = 36524 * ?c + 365 * ?u + ?u div 4"
    using y(2) q by linarith
  finally have s2: "days_before y = 36524 * ?c + 365 * ?u + ?u div 4" .
  have "?u \<le> 99" using mod_less_divisor [of 100 y] by linarith
  then have u: "?u \<le> 99" "?u div 4 \<le> 24" using div_le_mono [of ?u 99 4] by simp_all
  show ?thesis
  proof (rule that [of ?q ?r ?c])
    show "days_before y = 1460 * ?q + 365 * ?r + (?q - ?c)" using s y(1) q by linarith
    show "?q < 100" using assms by simp
    show "?c * 36524 \<le> days_before y" "days_before y < Suc ?c * 36524"
      using s2 u by simp_all
    show "y = 4 * ?q + ?r" by (rule y(1))
    show "25 * ?c \<le> ?q" "?c \<le> ?q" using q by linarith+
  qed simp
qed

lemma numerator_start:
  assumes "y < 400"
  shows "numerator (days_before y) = 365 * y"
proof -
  from assms obtain q r c where p: "days_before y = 1460 * q + 365 * r + (q - c)" "y = 4 * q + r" "r < 4" "q < 100"
    "25 * c \<le> q" "c * 36524 \<le> days_before y" "days_before y < Suc c * 36524" "c \<le> q"
    by (rule year_parts)
  have "days_before y div 1460 = q" using p(1,3,4) by (intro div_nat_eqI) simp_all
  moreover have "days_before y div 36524 = c" using p(6,7) by (intro div_nat_eqI) simp_all
  ultimately show ?thesis using p(1,2,8) by (simp add: numerator_def)
qed

lemma numerator_end:
  assumes "0 < y" "y < 400" "x < days_before y"
  shows "numerator x < 365 * y"
proof -
  from assms(2) obtain q r c where p: "days_before y = 1460 * q + 365 * r + (q - c)" "y = 4 * q + r" "r < 4" "q < 100"
    "25 * c \<le> q" "c * 36524 \<le> days_before y" "days_before y < Suc c * 36524" "c \<le> q"
    by (rule year_parts)
  have "0 < 365 * r + (q - c)" using p(2,5,8) assms(1) by (cases "r = 0") auto
  moreover have "days_before y < 1460 * Suc q" using p(1,3,4) by simp
  ultimately have "1460 * q \<le> days_before y - 1" "days_before y - 1 < 1460 * Suc q"
    using p(1) by linarith+
  then have "(days_before y - 1) div 1460 = q" by (intro div_nat_eqI) simp_all
  moreover have "(days_before y - 1) div 36524 \<le> c"
    using p(7) by (simp add: less_mult_imp_div_less less_Suc_eq_le [symmetric])
  ultimately have "numerator (days_before y - 1) < 365 * y"
    using p(1,2,8) \<open>0 < 365 * r + (q - c)\<close> unfolding numerator_def by linarith
  moreover have "numerator x \<le> numerator (days_before y - 1)"
    using assms(3) by (intro numerator_mono) simp
  ultimately show ?thesis by simp
qed

lemma year_of_era_props:
  assumes "doe < 146097"
  shows "year_of_era doe < 400" "days_before (year_of_era doe) \<le> doe"
    "doe < days_before (Suc (year_of_era doe))"
proof -
  have "\<exists>y < 400. days_before y \<le> doe \<and> doe < days_before (Suc y)"
    using year_bracket [of doe 400] assms by (simp add: days_before_def)
  then obtain y where y: "y < 400" "days_before y \<le> doe" "doe < days_before (Suc y)" by blast
  have "year_of_era doe = y"
  proof (cases "doe = 146096")
    case True
    then have "y = 399" using y by (cases "Suc y = 400") (auto simp: days_before_def)
    with True show ?thesis by (simp add: year_of_era_def)
  next
    case False
    then have year: "year_of_era doe = numerator doe div 365"
      using assms by (simp add: year_of_era_def numerator_def)
    have "365 * y \<le> numerator doe"
      using numerator_mono [OF y(2)] numerator_start [OF y(1)] by simp
    moreover have "numerator doe < 365 * Suc y"
    proof (cases "Suc y = 400")
      case True
      have "numerator doe \<le> numerator 146095" using assms False by (intro numerator_mono) simp
      with True show ?thesis by (simp add: numerator_def)
    next
      case False
      with y show ?thesis by (intro numerator_end) simp_all
    qed
    ultimately show ?thesis unfolding year by (intro div_nat_eqI) simp_all
  qed
  with y show "year_of_era doe < 400" "days_before (year_of_era doe) \<le> doe"
    "doe < days_before (Suc (year_of_era doe))" by simp_all
qed

lemma days_before_props:
  assumes "y < 400"
  shows "days_before y = 365 * y + y div 4 - y div 100" "days_before (Suc y) \<le> days_before y + 366"
    "y div 100 \<le> y div 4"
proof -
  show le: "y div 100 \<le> y div 4" using div_le_mono2 [of 4 100 y] by simp
  show s: "days_before y = 365 * y + y div 4 - y div 100" using assms by (simp add: days_before_def)
  have mono: "Suc y div 4 \<le> y div 4 + 1" "y div 100 \<le> Suc y div 100"
    by (simp, rule div_le_mono) simp
  show "days_before (Suc y) \<le> days_before y + 366"
  proof (cases "Suc y = 400")
    case False
    then have "days_before (Suc y) = 365 * Suc y + Suc y div 4 - Suc y div 100" by (simp add: days_before_def)
    moreover have "365 * Suc y + c - d \<le> 365 * y + a - b + 366"
      if "b \<le> a" "c \<le> a + 1" "b \<le> d" for a b c d using that by presburger
    ultimately show ?thesis using s le mono by simp
  qed (simp add: days_before_def)
qed

lemma month_parts:
  fixes doy :: nat
  assumes "doy \<le> 365"
  defines "mp \<equiv> (5 * doy + 2) div 153"
  shows "mp \<le> 11" "(153 * mp + 2) div 5 \<le> doy" "doy - (153 * mp + 2) div 5 \<le> 30"
proof -
  have mp: "153 * mp \<le> 5 * doy + 2" "5 * doy + 2 < 153 * mp + 153"
    unfolding mp_def using div_mult_mod_eq [of "5 * doy + 2" 153] mod_less_divisor [of 153 "5 * doy + 2"]
    by linarith+
  then show "mp \<le> 11" using assms(1) by linarith
  have e: "5 * ((153 * mp + 2) div 5) \<le> 153 * mp + 2" "153 * mp + 2 < 5 * ((153 * mp + 2) div 5) + 5"
    using div_mult_mod_eq [of "153 * mp + 2" 5] mod_less_divisor [of 5 "153 * mp + 2"] by linarith+
  with mp show "(153 * mp + 2) div 5 \<le> doy" "doy - (153 * mp + 2) div 5 \<le> 30" by linarith+
qed

text \<open>The parts of a date, and the days they stand for.\<close>

lemma date_from_days_parts:
  assumes "date_from_days days = (year, month, d)"
  obtains era yoe doy mp where "days + 719468 = era * 146097 + (365 * yoe + yoe div 4 - yoe div 100 + doy)"
    "yoe < 400" "mp \<le> 11" "(153 * mp + 2) div 5 \<le> doy" "d = doy - (153 * mp + 2) div 5 + 1" "d \<le> 31"
    "month = (if mp < 10 then mp + 3 else mp - 9)" "year = (if month \<le> 2 then 1 else 0) + (yoe + era * 400)"
    "doy \<le> 365" "era = (days + 719468) div 146097"
proof -
  let ?z = "days + 719468"
  let ?era = "?z div 146097" and ?doe = "?z mod 146097"
  let ?yoe = "year_of_era ?doe"
  let ?doy = "?doe - (365 * ?yoe + ?yoe div 4 - ?yoe div 100)"
  let ?mp = "(5 * ?doy + 2) div 153"
  have doe: "?z - ?era * 146097 = ?doe" by (simp add: minus_div_mult_eq_mod)
  have "?doe < 146097" by simp
  note yoe = year_of_era_props [OF this]
  note before = days_before_props [OF yoe(1)]
  have "x - y \<le> 365" if "x < z" "z \<le> y + 366" for x y z :: nat using that by simp
  from this [OF yoe(3) before(2)] have doy: "?doy \<le> 365" unfolding before(1) .
  note mp = month_parts [OF doy]
  have "?z = ?era * 146097 + ?doe" by (rule div_mult_mod_eq [symmetric])
  also have "\<dots> = ?era * 146097 + (365 * ?yoe + ?yoe div 4 - ?yoe div 100 + ?doy)"
    using yoe(2) unfolding before(1) by (subst le_add_diff_inverse) simp_all
  finally have z: "?z = ?era * 146097 + (365 * ?yoe + ?yoe div 4 - ?yoe div 100 + ?doy)" .
  show ?thesis
  proof (rule that [OF z yoe(1) mp(1,2) _ _ _ _ doy])
    note parts = assms [unfolded date_from_days_def Let_def doe prod.inject]
    from parts show d: "d = ?doy - (153 * ?mp + 2) div 5 + 1" by (elim conjE) (rule sym)
    from parts show month: "month = (if ?mp < 10 then ?mp + 3 else ?mp - 9)" by (elim conjE) (rule sym)
    from parts have "year = (if month \<le> 2 then ?yoe + ?era * 400 + 1 else ?yoe + ?era * 400)"
      unfolding month by (elim conjE) (rule sym)
    then show "year = (if month \<le> 2 then 1 else 0) + (?yoe + ?era * 400)"
      by (cases "month \<le> 2") (simp_all only: if_True if_False add_0 add.commute)
    show "d \<le> 31" using d mp(3) by linarith
  qed simp
qed

lemma days_from_date_from_days:
  assumes "date_from_days days = (year, month, d)" "days \<le> 49710"
  shows "days_from_date year month d = Inr days" "year < 10000" "month < 100" "d < 100"
proof -
  from assms(1) obtain era yoe doy mp where p: "days + 719468 = era * 146097 + (365 * yoe + yoe div 4 - yoe div 100 + doy)"
    "yoe < 400" "mp \<le> 11" "(153 * mp + 2) div 5 \<le> doy" "d = doy - (153 * mp + 2) div 5 + 1" "d \<le> 31"
    "month = (if mp < 10 then mp + 3 else mp - 9)" "year = (if month \<le> 2 then 1 else 0) + (yoe + era * 400)"
    "doy \<le> 365" "era = (days + 719468) div 146097"
    by (rule date_from_days_parts)
  have "era \<le> 5" using assms(2) p(10) div_le_mono [of "days + 719468" 769178 146097] by simp
  then show "year < 10000" "month < 100" "d < 100" using p(2,3,6,7,8) by (auto split: if_splits)
  have y: "(if month \<le> 2 then sub_u32 year 1 else Inr year) = Inr (yoe + era * 400)"
    using p(8) by (cases "month \<le> 2") (simp_all add: sub_u32_def)
  have m: "(if month > 2 then month - 3 else month + 9) = mp" using p(3,7) by auto
  have era: "(yoe + era * 400) div 400 = era" using p(2) by simp
  let ?doe = "yoe * 365 + yoe div 4 - yoe div 100 + doy"
  have z: "era * 146097 + ?doe = days + 719468" using p(1) by (simp only: mult.commute [of yoe])
  have le: "?doe \<le> days + 719468" unfolding z [symmetric] by (rule le_add2)
  have less: "days + 719468 < 4294967296" using assms(2) by linarith
  have fits: "in_u32 ?doe = Inr ?doe" "in_u32 (era * 146097 + ?doe) = Inr (days + 719468)"
    unfolding z by (rule in_u32_fits, rule le_less_trans [OF le less], rule in_u32_fits, rule less)
  have fits2: "in_u32 (153 * mp + 2) = Inr (153 * mp + 2)" "in_u32 ((153 * mp + 2) div 5 + d) = Inr (doy + 1)"
    using p(3,4,5,9) by (simp_all add: in_u32_def)
  have subs: "sub_u32 (doy + 1) 1 = Inr doy" "sub_u32 (days + 719468) 719468 = Inr days"
    by (simp_all add: sub_u32_def)
  show "days_from_date year month d = Inr days"
    by (simp only: days_from_date_def y m rbind.simps Let_def era fits2 diff_add_inverse2 fits subs)
qed

lemma digits_value_zeros: "digits_value (replicate k CHR ''0'' @ s) = digits_value s"
proof (induction k)
  case (Suc k)
  then show ?case by (simp add: digits_value_def digit_val_def)
qed simp

lemma pad_nat_props:
  assumes "length (show_nat n) \<le> w"
  shows "length (pad_nat w n) = w" "list_all is_ascii_digit (pad_nat w n)" "digits_value (pad_nat w n) = n"
  using assms show_nat_digits [of n]
  by (auto simp: pad_nat_def digits_value_zeros list_all_iff is_ascii_digit_def)

lemma pad_nat_small:
  "n < 100 \<Longrightarrow> length (pad_nat 2 n) = 2 \<and> list_all is_ascii_digit (pad_nat 2 n) \<and> digits_value (pad_nat 2 n) = n"
  "n < 10000 \<Longrightarrow> length (pad_nat 4 n) = 4 \<and> list_all is_ascii_digit (pad_nat 4 n) \<and> digits_value (pad_nat 4 n) = n"
proof -
  show "n < 100 \<Longrightarrow> length (pad_nat 2 n) = 2 \<and> list_all is_ascii_digit (pad_nat 2 n) \<and> digits_value (pad_nat 2 n) = n"
    using show_nat_length(2) pad_nat_props by blast
  assume "n < 10000"
  then have "length (show_nat (n div 10)) \<le> 3" by (intro show_nat_length(3)) simp
  then have "length (show_nat n) \<le> 4" by (cases "n < 10") (simp_all add: show_nat.simps [of n])
  then show "length (pad_nat 4 n) = 4 \<and> list_all is_ascii_digit (pad_nat 4 n) \<and> digits_value (pad_nat 4 n) = n"
    using pad_nat_props by blast
qed

lemma parse_u32_digits:
  assumes "list_all is_ascii_digit s" "s \<noteq> []" "digits_value s < 2 ^ 32"
  shows "parse_u32 s = Some (word_of_nat (digits_value s))"
proof -
  obtain c r where "s = c # r" using assms(2) by (cases s) auto
  then show ?thesis using assms digit_not_plus [of c] by (auto simp: parse_u32_def parse_uint_def Let_def)
qed

lemma timestamp_field_digits:
  assumes "list_all is_ascii_digit s" "a < b" "b \<le> length s" "digits_value (drop a (take b s)) < 2 ^ 32"
  shows "timestamp_field field what s a b = Inr (digits_value (drop a (take b s)))"
proof -
  have "char_boundary s i" if "i \<le> length s" for i
    using that assms(1) by (auto simp: char_boundary_def list_all_length is_ascii_digit_def order_le_less)
  moreover have "list_all is_ascii_digit (drop a (take b s))" "drop a (take b s) \<noteq> []"
    using assms(1-3) by (auto simp: list_all_iff dest: in_set_dropD in_set_takeD)
  note parse_u32_digits [OF this assms(4)]
  moreover have "unat (word_of_nat (digits_value (drop a (take b s))) :: u32) = digits_value (drop a (take b s))"
    using assms(4) by (intro unat_word_of_nat) simp
  ultimately show ?thesis using assms(2,3) by (simp add: timestamp_field_def)
qed

lemma format_timestamp_fields:
  assumes "date_from_days (unat ts div 86400) = (year, month, d)"
  defines "r \<equiv> unat ts mod 86400"
  shows "format_timestamp ts = pad_nat 4 year @ pad_nat 2 month @ pad_nat 2 d @ pad_nat 2 (r div 3600)
      @ pad_nat 2 (r mod 3600 div 60) @ pad_nat 2 (r mod 60)"
  using assms by (simp add: format_timestamp_def Let_def)

lemma time_of_day:
  fixes n :: nat
  assumes "n < 4294967296"
  defines "r \<equiv> n mod 86400"
  shows "n div 86400 * 86400 + r div 3600 * 3600 + r mod 3600 div 60 * 60 + r mod 60 = n"
    "r div 3600 < 100" "r mod 3600 div 60 < 100" "r mod 60 < 100" "n div 86400 \<le> 49710"
proof -
  have "r div 3600 * 3600 + r mod 3600 = r" by (rule div_mult_mod_eq)
  moreover have "r mod 3600 div 60 * 60 + r mod 3600 mod 60 = r mod 3600" by (rule div_mult_mod_eq)
  moreover have "r mod 3600 mod 60 = r mod 60" by (rule mod_mod_cancel) simp
  moreover have "n div 86400 * 86400 + r = n" unfolding r_def by (rule div_mult_mod_eq)
  ultimately show "n div 86400 * 86400 + r div 3600 * 3600 + r mod 3600 div 60 * 60 + r mod 60 = n"
    by linarith
  have "r < 86400" by (simp add: r_def)
  then show "r div 3600 < 100" using div_le_mono [of r 86399 3600] by simp
  have "r mod 3600 \<le> 3599" using mod_less_divisor [of 3600 r] by linarith
  then show "r mod 3600 div 60 < 100" using div_le_mono [of "r mod 3600" 3599 60] by simp
  have "r mod 60 < 60" by simp
  then show "r mod 60 < 100" by linarith
  show "n div 86400 \<le> 49710" using assms(1) div_le_mono [of n 4294967295 86400] by simp
qed

text \<open>After the fields are read: the days and the checked sums.\<close>

definition finish_timestamp :: "nat \<Rightarrow> nat \<Rightarrow> nat \<Rightarrow> nat \<Rightarrow> core_error fault + u32" where
  "finish_timestamp days h mi sec =
     (let n = days * 86400 + h * 3600 + mi * 60 + sec
      in if n < 4294967296 then Inr (word_of_nat n) else Inl Panicked)"

lemma finish_timestamp_steps:
  assumes "h < 10000" "mi < 10000"
  shows "rbind (in_u32 (days * 86400)) (\<lambda>t. rbind (in_u32 (h * 3600)) (\<lambda>hs. rbind (in_u32 (t + hs)) (\<lambda>t.
      rbind (in_u32 (mi * 60)) (\<lambda>ms. rbind (in_u32 (t + ms)) (\<lambda>t. rmap word_of_nat (in_u32 (t + sec)))))))
    = finish_timestamp days h mi sec"
  using assms by (auto simp: in_u32_def finish_timestamp_def Let_def)

lemma parse_date_fields:
  assumes s: "s = y @ mo @ d @ h @ mi @ sec"
    and lengths: "length y = 4" "length mo = 2" "length d = 2" "length h = 2" "length mi = 2" "length sec = 2"
    and digits: "list_all is_ascii_digit s"
    and small: "\<forall>x \<in> {y, mo, d, h, mi, sec}. digits_value x < 10000"
  shows "parse_date_timestamp field s =
    rbind (days_from_date (digits_value y) (digits_value mo) (digits_value d)) (\<lambda>days.
      finish_timestamp days (digits_value h) (digits_value mi) (digits_value sec))"
proof -
  have len: "length s = 14" using lengths by (simp add: s)
  have slices: "drop 0 (take 4 s) = y" "drop 4 (take 6 s) = mo" "drop 6 (take 8 s) = d"
    "drop 8 (take 10 s) = h" "drop 10 (take 12 s) = mi" "drop 12 (take 14 s) = sec"
    using lengths by (simp_all add: s)
  have field: "timestamp_field field what s a b = Inr (digits_value x)"
    if x: "drop a (take b s) = x" and "a < b" "b \<le> 14" "x \<in> {y, mo, d, h, mi, sec}" for a b x what
  proof -
    have "digits_value x < 2 ^ 32" using small that(4) by fastforce
    then show ?thesis
      using timestamp_field_digits [OF digits that(2), of field what] that(3) unfolding len x by blast
  qed
  have fields: "timestamp_field field what s 0 4 = Inr (digits_value y)"
    "timestamp_field field what s 4 6 = Inr (digits_value mo)"
    "timestamp_field field what s 6 8 = Inr (digits_value d)"
    "timestamp_field field what s 8 10 = Inr (digits_value h)"
    "timestamp_field field what s 10 12 = Inr (digits_value mi)"
    "timestamp_field field what s 12 14 = Inr (digits_value sec)" for what
    using field [OF slices(1)] field [OF slices(2)] field [OF slices(3)] field [OF slices(4)]
      field [OF slices(5)] field [OF slices(6)] by simp_all
  have "digits_value h < 10000" "digits_value mi < 10000" using small by simp_all
  note steps = finish_timestamp_steps [OF this]
  show ?thesis
    by (simp only: parse_date_timestamp_def len fields steps rbind.simps simp_thms if_False)
qed

lemma parse_padded:
  assumes "s = pad_nat 4 y @ pad_nat 2 mo @ pad_nat 2 d @ pad_nat 2 h @ pad_nat 2 mi @ pad_nat 2 sec"
    and "y < 10000" "mo < 100" "d < 100" "h < 100" "mi < 100" "sec < 100"
  shows "parse_timestamp field s = rbind (days_from_date y mo d) (\<lambda>days. finish_timestamp days h mi sec)"
proof -
  note pads = pad_nat_small(2) [OF assms(2)] assms(3-7) [THEN pad_nat_small(1)]
  have "parse_date_timestamp field s = rbind (days_from_date y mo d) (\<lambda>days. finish_timestamp days h mi sec)"
    using parse_date_fields [OF assms(1), of field] pads assms by simp
  moreover have "length s = 14" using pads by (simp add: assms(1))
  ultimately show ?thesis by (simp add: parse_timestamp_def split: option.splits)
qed

lemma parse_format_timestamp: "parse_timestamp field (format_timestamp ts) = Inr ts"
proof -
  let ?n = "unat ts"
  define r where "r = ?n mod 86400"
  have less: "?n < 4294967296" by (rule unat_bounds)
  note time = time_of_day [OF this, folded r_def]
  obtain year month d where date: "date_from_days (?n div 86400) = (year, month, d)" by (metis prod_cases3)
  note days = days_from_date_from_days [OF date time(5)]
  note parse_padded [OF format_timestamp_fields [OF date, folded r_def] days(2-4) time(2-4), of field]
  then show ?thesis unfolding days(1) rbind.simps finish_timestamp_def Let_def time(1) using less by simp
qed

section \<open>Which dates panic\<close>

text \<open>Days since 1 March of the year 0, in the proleptic Gregorian calendar.\<close>

definition calendar_days :: "nat \<Rightarrow> nat \<Rightarrow> nat \<Rightarrow> nat" where
  "calendar_days year month day =
     (let y = (if month \<le> 2 then year - 1 else year); m = (if month > 2 then month - 3 else month + 9)
      in 365 * y + y div 4 - y div 100 + y div 400 + (153 * m + 2) div 5 + (day - 1))"

lemma era_split:
  fixes y :: nat
  shows "y div 400 * 146097 + ((y - y div 400 * 400) * 365 + (y - y div 400 * 400) div 4 - (y - y div 400 * 400) div 100)
    = 365 * y + y div 4 - y div 100 + y div 400"
proof -
  define e z where "e = y div 400" and "z = y mod 400"
  have y: "y = 400 * e + z" and z: "y - e * 400 = z" by (simp_all add: e_def z_def minus_div_mult_eq_mod)
  have "(z + 4 * (100 * e)) div 4 = 100 * e + z div 4" by (rule div_mult_self2) simp
  moreover have "(z + 100 * (4 * e)) div 100 = 4 * e + z div 100" by (rule div_mult_self2) simp
  moreover have "z + 4 * (100 * e) = y" "z + 100 * (4 * e) = y" using y by linarith+
  ultimately have d: "y div 4 = 100 * e + z div 4" "y div 100 = 4 * e + z div 100" by simp_all
  have le: "z div 100 \<le> z div 4" using div_le_mono2 [of 4 100 z] by simp
  have "e * 146097 + (z * 365 + a - b) = 365 * (400 * e + z) + (100 * e + a) - (4 * e + b) + e"
    if "b \<le> a" for a b :: nat
  proof -
    from that obtain k where "a = b + k" by (rule less_eqE)
    then show ?thesis by (simp add: distrib_left)
  qed
  from this [OF le] show ?thesis unfolding e_def [symmetric] z d by (simp only: y)
qed

lemma days_from_date_calendar:
  assumes "1 \<le> year" "year < 10000" "1 \<le> month" "month \<le> 12" "1 \<le> day" "day \<le> 31"
  shows "days_from_date year month day = sub_u32 (calendar_days year month day) 719468"
proof -
  define y where "y = (if month \<le> 2 then year - 1 else year)"
  define m where "m = (if month > 2 then month - 3 else month + 9)"
  let ?e = "y div 400"
  let ?z = "y - ?e * 400"
  let ?doy = "(153 * m + 2) div 5 + (day - 1)"
  have y: "(if month \<le> 2 then sub_u32 year 1 else Inr year) = Inr y"
    using assms(1) by (simp add: y_def sub_u32_def)
  have "m \<le> 11" using assms(3,4) by (auto simp: m_def)
  then have m: "153 * m + 2 < 4294967296" "(153 * m + 2) div 5 \<le> 337" using div_le_mono [of "153 * m + 2" 1685 5] by simp_all
  have sum: "(153 * m + 2) div 5 + day = ?doy + 1" using assms(5) by simp
  have "?e * 146097 + (?z * 365 + ?z div 4 - ?z div 100 + ?doy) = calendar_days year month day"
    using era_split [of y] unfolding calendar_days_def Let_def y_def [symmetric] m_def [symmetric]
    by (simp only: add.assoc)
  note total = this
  have "y < 10000" using assms(2) unfolding y_def by (rule le_less_trans [rotated]) simp
  then have small: "365 * y + y div 4 - y div 100 + y div 400 < 4000000" by simp
  have less: "calendar_days year month day < 4294967296"
    using small m(2) assms(6) unfolding calendar_days_def Let_def y_def [symmetric] m_def [symmetric] by linarith
  then have doe: "?z * 365 + ?z div 4 - ?z div 100 + ?doy < 4294967296"
    using total by linarith
  have doy: "sub_u32 (?doy + 1) 1 = Inr ?doy" by (simp add: sub_u32_def)
  have doy1: "?doy + 1 < 4294967296" using m(2) assms(6) by linarith
  show ?thesis
    by (simp only: days_from_date_def y rbind.simps Let_def m_def [symmetric] in_u32_fits [OF m(1)] sum
        in_u32_fits [OF doy1] doy in_u32_fits [OF doe] total in_u32_fits [OF less])
qed

lemma parse_calendar:
  assumes "s = pad_nat 4 y @ pad_nat 2 mo @ pad_nat 2 d @ pad_nat 2 h @ pad_nat 2 mi @ pad_nat 2 sec"
    and "1 \<le> y" "y < 10000" "1 \<le> mo" "mo \<le> 12" "1 \<le> d" "d \<le> 31" "h < 100" "mi < 100" "sec < 100"
  shows "parse_timestamp field s = rbind (sub_u32 (calendar_days y mo d) 719468) (\<lambda>days. finish_timestamp days h mi sec)"
proof -
  have "mo < 100" "d < 100" using assms by simp_all
  note parse_padded [OF assms(1,3) this assms(8-10), of field]
  then show ?thesis unfolding days_from_date_calendar [OF assms(2-7)] .
qed

section \<open>Properties\<close>

text \<open>
  C24: What a zone file says the time of a signature is: fourteen digits are read as the seconds
  from the epoch to that date, and the parser panics exactly when the date is before 1970-01-01 or
  the seconds do not fit in a \<open>u32\<close>. No calendar check rejects the day 31 of a shorter month or the
  hour 99.\<close>

theorem timestamp_outcome:
  assumes "s = pad_nat 4 y @ pad_nat 2 mo @ pad_nat 2 d @ pad_nat 2 h @ pad_nat 2 mi @ pad_nat 2 sec"
    and "1 \<le> y" "y < 10000" "1 \<le> mo" "mo \<le> 12" "1 \<le> d" "d \<le> 31" "h < 100" "mi < 100" "sec < 100"
  defines "days \<equiv> calendar_days y mo d" and "seconds \<equiv> h * 3600 + mi * 60 + sec"
  shows "parse_timestamp field s =
    (if days < calendar_days 1970 1 1 \<or> 2 ^ 32 \<le> (days - calendar_days 1970 1 1) * 86400 + seconds
     then Inl Panicked
     else Inr (word_of_nat ((days - calendar_days 1970 1 1) * 86400 + seconds)))"
proof -
  have epoch: "calendar_days 1970 1 1 = 719468" by (simp add: calendar_days_def Let_def)
  show ?thesis
    unfolding parse_calendar [OF assms(1-10)] epoch days_def [symmetric]
    by (simp add: sub_u32_def finish_timestamp_def Let_def seconds_def add.assoc)
qed

lemma digit_chars:
  "digit_char (Suc 0) = CHR ''1''" "digit_char 2 = CHR ''2''" "digit_char 3 = CHR ''3''"
  "digit_char 5 = CHR ''5''" "digit_char 6 = CHR ''6''" "digit_char 8 = CHR ''8''" "digit_char 9 = CHR ''9''"
  "digit_char 0 = CHR ''0''" "digit_char 7 = CHR ''7''"
  by code_simp+

theorem timestamp_outcome_witness:
  "parse_timestamp ''RRSIG'' ''19691231235959'' = Inl Panicked
   \<and> parse_timestamp ''RRSIG'' ''21060207062816'' = Inl Panicked
   \<and> parse_timestamp ''RRSIG'' ''19700230000000'' = Inr (word_of_nat (60 * 86400))"
proof (intro conjI)
  note out = timestamp_outcome [where field = "''RRSIG''"]
  note eval = pad_nat_def calendar_days_def show_nat.simps digit_chars
  show "parse_timestamp ''RRSIG'' ''19691231235959'' = Inl Panicked"
    by (subst out [of _ 1969 12 31 23 59 59]) (simp_all add: eval)
  show "parse_timestamp ''RRSIG'' ''21060207062816'' = Inl Panicked"
    by (subst out [of _ 2106 2 7 6 28 16]) (simp_all add: eval)
  show "parse_timestamp ''RRSIG'' ''19700230000000'' = Inr (word_of_nat (60 * 86400))"
    by (subst out [of _ 1970 2 30 0 0 0]) (simp_all add: eval)
qed

end
