(* ===== verification/Rdata_Text.thy ===== *)
theory Rdata_Text
  imports Dnssec_Time
begin

text \<open>
  \<open>zone/rdata_text.rs\<close> and the record parsers of \<open>zone/rdata_dnssec.rs\<close>: record data from the
  tokens of a zone file line, and its text. Base64 and base32hex are libraries the crate calls:
  parameters. Messages leave out the texts of errors of the standard library. Only RRSIG data can
  make the parser panic (\<open>Dnssec_Time\<close>); the other parsers return an error, which \<open>parse_rdata\<close>
  lifts.
\<close>

section \<open>Parameters and fields\<close>

record zone_codecs =
  zc_base64 :: byte_codec
  zc_base32hex :: byte_codec

definition u8_field :: "string \<Rightarrow> string \<Rightarrow> core_error + u8" where
  "u8_field field token = ok_or (zone_error (''invalid '' @ field @ '' `'' @ token @ ''`'')) (parse_u8 token)"

definition u16_field :: "string \<Rightarrow> string \<Rightarrow> core_error + u16" where
  "u16_field field token = ok_or (zone_error (''invalid '' @ field @ '' `'' @ token @ ''`'')) (parse_u16 token)"

definition u32_field :: "string \<Rightarrow> string \<Rightarrow> core_error + u32" where
  "u32_field field token = ok_or (zone_error (''invalid '' @ field @ '' `'' @ token @ ''`'')) (parse_u32 token)"

definition ttl_field :: "string \<Rightarrow> u32 \<Rightarrow> core_error + ttl" where
  "ttl_field field v =
     map_err (\<lambda>e. zone_error (''invalid '' @ field @ '' TTL: '' @ core_error_display e)) (ttl_new v)"

text \<open>The error of a record with the wrong number of tokens.\<close>

definition expects :: "string \<Rightarrow> string list \<Rightarrow> core_error + 'a" where
  "expects what tokens = Inl (zone_error (what @ '', got '' @ show_nat (length tokens)))"

definition resolve_name :: "string \<Rightarrow> domain_name \<Rightarrow> core_error + domain_name" where
  "resolve_name token origin =
     (if token = ''@'' then Inr origin
      else if token \<noteq> [] \<and> last token = dot then domain_new token
      else domain_new (token @ ''.'' @ name_display origin))"

section \<open>Hexadecimal text\<close>

text \<open>\<open>decode_hex\<close> takes the characters two by two; a last character without a partner ends the loop.\<close>

definition hex_char :: "string \<Rightarrow> string + byte" where
  "hex_char c =
     ok_or (''invalid hex character `'' @ c @ ''`'')
       (case c of [b] \<Rightarrow> map_option word_of_nat (to_digit 16 b) | _ \<Rightarrow> None)"

fun decode_hex_chars :: "string list \<Rightarrow> string + byte list" where
  "decode_hex_chars (hi # lo # cs) =
     rbind (hex_char hi) (\<lambda>h. rbind (hex_char lo) (\<lambda>l. rmap (Cons (push_bit 4 h OR l)) (decode_hex_chars cs)))"
| "decode_hex_chars _ = Inr []"

definition decode_hex :: "string \<Rightarrow> string + byte list" where
  "decode_hex hex =
     (if length hex mod 2 \<noteq> 0 then Inl (''hex string has odd length: '' @ show_nat (length hex))
      else decode_hex_chars (utf8_chars hex))"

definition encode_hex :: "byte list \<Rightarrow> string" where
  "encode_hex bs = concat (map (\<lambda>b. [hex_digit (unat b div 16), hex_digit (unat b mod 16)]) bs)"

definition hex_field :: "string \<Rightarrow> core_error + byte list" where
  "hex_field s = map_err zone_error (decode_hex s)"

section \<open>Character strings\<close>

function decode_character_string :: "string \<Rightarrow> string \<Rightarrow> core_error + byte list" where
  "decode_character_string token [] = Inr []"
| "decode_character_string token (c # rest) =
     (if c \<noteq> backslash then rmap (Cons (byte_of_char c)) (decode_character_string token rest)
      else if rest = [] then Inl (zone_error ''TXT character-string ends with incomplete escape'')
      else case ddd_escape rest of
          Some (v, rest') \<Rightarrow>
            (if v > 255 then Inl (zone_error (''TXT decimal escape exceeds 255: `'' @ token @ ''`''))
             else rmap (Cons (word_of_nat v)) (decode_character_string token rest'))
        | None \<Rightarrow> rmap (Cons (byte_of_char (hd rest))) (decode_character_string token (tl rest)))"
  by pat_completeness auto
termination
  by (relation "measure (\<lambda>(token, s). length s)") (auto dest: ddd_escape_shorter)

definition txt_byte :: "byte \<Rightarrow> string" where
  "txt_byte b =
     (if unat b = 34 \<or> unat b = 92 then [backslash, char_of_byte b]
      else if 0x20 \<le> unat b \<and> unat b \<le> 0x7e then [char_of_byte b]
      else backslash # pad_nat 3 (unat b))"

definition serialize_txt :: "txt_string list \<Rightarrow> string" where
  "serialize_txt strings =
     join_with '' '' (map (\<lambda>s. CHR 0x22 # concat (map txt_byte (txt_bytes s)) @ [CHR 0x22]) strings)"

section \<open>Parsers\<close>

definition parse_a :: "string list \<Rightarrow> core_error + rdata" where
  "parse_a tokens =
     (case tokens of
        [t] \<Rightarrow> rmap RD_A (ok_or (zone_error (''invalid IPv4 address `'' @ t @ ''`'')) (parse_ipv4 t))
      | _ \<Rightarrow> expects ''A record expects 1 token'' tokens)"

definition parse_aaaa :: "string list \<Rightarrow> core_error + rdata" where
  "parse_aaaa tokens =
     (case tokens of
        [t] \<Rightarrow> rmap RD_Aaaa (ok_or (zone_error (''invalid IPv6 address `'' @ t @ ''`'')) (parse_ipv6 t))
      | _ \<Rightarrow> expects ''AAAA record expects 1 token'' tokens)"

definition parse_ns :: "string list \<Rightarrow> domain_name \<Rightarrow> core_error + rdata" where
  "parse_ns tokens origin =
     (case tokens of [t] \<Rightarrow> rmap RD_Ns (resolve_name t origin) | _ \<Rightarrow> expects ''NS record expects 1 token'' tokens)"

definition parse_cname :: "string list \<Rightarrow> domain_name \<Rightarrow> core_error + rdata" where
  "parse_cname tokens origin =
     (case tokens of
        [t] \<Rightarrow> rmap RD_Cname (resolve_name t origin)
      | _ \<Rightarrow> expects ''CNAME record expects 1 token'' tokens)"

definition parse_ptr :: "string list \<Rightarrow> domain_name \<Rightarrow> core_error + rdata" where
  "parse_ptr tokens origin =
     (case tokens of [t] \<Rightarrow> rmap RD_Ptr (resolve_name t origin) | _ \<Rightarrow> expects ''PTR record expects 1 token'' tokens)"

definition parse_soa :: "string list \<Rightarrow> domain_name \<Rightarrow> core_error + rdata" where
  "parse_soa tokens origin =
     (case tokens of
        [t0, t1, t2, t3, t4, t5, t6] \<Rightarrow>
          rbind (resolve_name t0 origin) (\<lambda>mname.
          rbind (resolve_name t1 origin) (\<lambda>rname.
          rbind (u32_field ''SOA serial'' t2) (\<lambda>serial_val.
          rbind (u32_field ''SOA refresh'' t3) (\<lambda>refresh_val.
          rbind (u32_field ''SOA retry'' t4) (\<lambda>retry_val.
          rbind (u32_field ''SOA expire'' t5) (\<lambda>expire_val.
          rbind (u32_field ''SOA minimum'' t6) (\<lambda>minimum_val.
          rbind (ttl_field ''SOA refresh'' refresh_val) (\<lambda>refresh.
          rbind (ttl_field ''SOA retry'' retry_val) (\<lambda>retry.
          rbind (ttl_field ''SOA expire'' expire_val) (\<lambda>expire.
          rmap (RD_Soa mname rname (Serial serial_val) refresh retry expire)
            (ttl_field ''SOA minimum'' minimum_val)))))))))))
      | _ \<Rightarrow> expects ''SOA record expects 7 tokens'' tokens)"

definition parse_mx :: "string list \<Rightarrow> domain_name \<Rightarrow> core_error + rdata" where
  "parse_mx tokens origin =
     (case tokens of
        [t0, t1] \<Rightarrow> rbind (u16_field ''MX preference'' t0) (\<lambda>pref. rmap (RD_Mx pref) (resolve_name t1 origin))
      | _ \<Rightarrow> expects ''MX record expects 2 tokens'' tokens)"

definition parse_txt :: "string list \<Rightarrow> core_error + rdata" where
  "parse_txt tokens =
     (if tokens = [] then Inl (zone_error ''TXT record expects at least 1 token'')
      else rmap RD_Txt (rmap_list (\<lambda>token. rbind (decode_character_string token token) txt_new) tokens))"

definition parse_srv :: "string list \<Rightarrow> domain_name \<Rightarrow> core_error + rdata" where
  "parse_srv tokens origin =
     (case tokens of
        [t0, t1, t2, t3] \<Rightarrow>
          rbind (u16_field ''SRV priority'' t0) (\<lambda>priority.
          rbind (u16_field ''SRV weight'' t1) (\<lambda>weight.
          rbind (u16_field ''SRV port'' t2) (\<lambda>port.
          rmap (RD_Srv priority weight port) (resolve_name t3 origin))))
      | _ \<Rightarrow> expects ''SRV record expects 4 tokens'' tokens)"

definition parse_caa :: "string list \<Rightarrow> core_error + rdata" where
  "parse_caa tokens =
     (case tokens of
        t0 # t1 # t2 # ts \<Rightarrow>
          rmap (\<lambda>flags. RD_Caa flags t1 (if ts = [] then t2 else join_with '' '' (t2 # ts)))
            (u8_field ''CAA flags'' t0)
      | _ \<Rightarrow> expects ''CAA record expects at least 3 tokens'' tokens)"

definition parse_tlsa :: "string list \<Rightarrow> core_error + rdata" where
  "parse_tlsa tokens =
     (case tokens of
        [t0, t1, t2, t3] \<Rightarrow>
          rbind (u8_field ''TLSA usage'' t0) (\<lambda>usage.
          rbind (u8_field ''TLSA selector'' t1) (\<lambda>selector.
          rbind (u8_field ''TLSA matching type'' t2) (\<lambda>matching_type.
          if usage > 3 then Inl (zone_error (''TLSA usage must be in 0..=3, got '' @ show_nat (unat usage)))
          else if selector > 1 then
            Inl (zone_error (''TLSA selector must be in 0..=1, got '' @ show_nat (unat selector)))
          else if matching_type > 2 then
            Inl (zone_error (''TLSA matching type must be in 0..=2, got '' @ show_nat (unat matching_type)))
          else rmap (RD_Tlsa usage selector matching_type) (hex_field t3))))
      | _ \<Rightarrow> expects ''TLSA record expects 4 tokens'' tokens)"

definition parse_sshfp :: "string list \<Rightarrow> core_error + rdata" where
  "parse_sshfp tokens =
     (case tokens of
        [t0, t1, t2] \<Rightarrow>
          rbind (u8_field ''SSHFP algorithm'' t0) (\<lambda>algorithm.
          rbind (u8_field ''SSHFP fingerprint type'' t1) (\<lambda>fp_type.
          rmap (RD_Sshfp algorithm fp_type) (hex_field t2)))
      | _ \<Rightarrow> expects ''SSHFP record expects 3 tokens'' tokens)"

definition parse_csync :: "string list \<Rightarrow> core_error + rdata" where
  "parse_csync tokens =
     (case tokens of
        t0 # t1 # types \<Rightarrow>
          rbind (u32_field ''CSYNC SOA serial'' t0) (\<lambda>soa_serial.
          rbind (u16_field ''CSYNC flags'' t1) (\<lambda>flags.
          rmap (RD_Csync soa_serial flags) (encode_type_bitmap types)))
      | _ \<Rightarrow> expects ''CSYNC record expects at least 2 tokens'' tokens)"

definition parse_rp :: "string list \<Rightarrow> domain_name \<Rightarrow> core_error + rdata" where
  "parse_rp tokens origin =
     (case tokens of
        [t0, t1] \<Rightarrow> rbind (resolve_name t0 origin) (\<lambda>mbox. rmap (RD_Rp mbox) (resolve_name t1 origin))
      | _ \<Rightarrow> expects ''RP record expects 2 tokens'' tokens)"

text \<open>\<open>TYPE<n>\<close> and the generic format of RFC 3597; the length is a \<open>usize\<close> of 64 bits.\<close>

definition parse_generic :: "u16 \<Rightarrow> string \<Rightarrow> string list \<Rightarrow> core_error + rdata" where
  "parse_generic type_num rtype tokens =
     (if tokens = [] \<or> hd tokens \<noteq> [backslash, CHR ''#''] then
        Inl (zone_error (''unknown type '' @ rtype @ '' must use RFC 3597 generic format: '' @ backslash # ''# <length> <hex>''))
      else case tl tokens of
          [] \<Rightarrow> Inl (zone_error ''RFC 3597 generic format missing length'')
        | len # hex \<Rightarrow>
            rbind (ok_or (zone_error (''invalid RFC 3597 length `'' @ len @ ''`'')) (parse_uint (2 ^ 64 - 1) len)) (\<lambda>expected_len.
            if expected_len = 0 then
              (if hex \<noteq> [] then Inl (zone_error ''RFC 3597 length is 0 but hex data present'')
               else Inr (RD_Unknown type_num []))
            else rbind (hex_field (concat hex)) (\<lambda>rdata.
              if length rdata \<noteq> expected_len then
                Inl (zone_error (''RFC 3597 length mismatch: declared '' @ show_nat expected_len @ '', got ''
                  @ show_nat (length rdata) @ '' bytes''))
              else Inr (RD_Unknown type_num rdata))))"

definition parse_unknown :: "string \<Rightarrow> string list \<Rightarrow> core_error + rdata" where
  "parse_unknown rtype tokens =
     (case strip_prefix ''TYPE'' rtype of
        Some digits \<Rightarrow>
          rbind (ok_or (zone_error (''invalid record type `'' @ rtype @ ''`'')) (parse_u16 digits)) (\<lambda>type_num.
            parse_generic type_num rtype tokens)
      | None \<Rightarrow> Inl (zone_error (''unsupported record type `'' @ rtype @ ''`'')))"

section \<open>DNSSEC parsers\<close>

definition base64_field :: "zone_codecs \<Rightarrow> string \<Rightarrow> string list \<Rightarrow> core_error + byte list" where
  "base64_field lib field tokens =
     ok_or (zone_error (''invalid '' @ field)) (codec_decode (zc_base64 lib) (concat tokens))"

definition parse_dnskey :: "zone_codecs \<Rightarrow> string list \<Rightarrow> core_error + rdata" where
  "parse_dnskey lib tokens =
     (case tokens of
        t0 # t1 # t2 # t3 # ts \<Rightarrow>
          rbind (u16_field ''DNSKEY flags'' t0) (\<lambda>flags.
          rbind (u8_field ''DNSKEY protocol'' t1) (\<lambda>protocol.
          rbind (u8_field ''DNSKEY algorithm'' t2) (\<lambda>algorithm.
          rmap (RD_Dnskey flags protocol algorithm) (base64_field lib ''DNSKEY base64 key'' (t3 # ts)))))
      | _ \<Rightarrow> expects ''DNSKEY expects at least 4 tokens'' tokens)"

definition parse_cdnskey :: "zone_codecs \<Rightarrow> string list \<Rightarrow> core_error + rdata" where
  "parse_cdnskey lib tokens =
     (case tokens of
        t0 # t1 # t2 # t3 # ts \<Rightarrow>
          rbind (u16_field ''CDNSKEY flags'' t0) (\<lambda>flags.
          rbind (u8_field ''CDNSKEY protocol'' t1) (\<lambda>protocol.
          rbind (u8_field ''CDNSKEY algorithm'' t2) (\<lambda>algorithm.
          rmap (RD_Cdnskey flags protocol algorithm) (base64_field lib ''CDNSKEY base64 key'' (t3 # ts)))))
      | _ \<Rightarrow> expects ''CDNSKEY expects at least 4 tokens'' tokens)"

definition parse_ds :: "string list \<Rightarrow> core_error + rdata" where
  "parse_ds tokens =
     (case tokens of
        t0 # t1 # t2 # t3 # ts \<Rightarrow>
          rbind (u16_field ''DS key_tag'' t0) (\<lambda>key_tag.
          rbind (u8_field ''DS algorithm'' t1) (\<lambda>algorithm.
          rbind (u8_field ''DS digest_type'' t2) (\<lambda>digest_type.
          rmap (RD_Ds key_tag algorithm digest_type) (hex_field (concat (t3 # ts))))))
      | _ \<Rightarrow> expects ''DS expects at least 4 tokens'' tokens)"

definition parse_cds :: "string list \<Rightarrow> core_error + rdata" where
  "parse_cds tokens =
     (case tokens of
        t0 # t1 # t2 # t3 # ts \<Rightarrow>
          rbind (u16_field ''CDS key_tag'' t0) (\<lambda>key_tag.
          rbind (u8_field ''CDS algorithm'' t1) (\<lambda>algorithm.
          rbind (u8_field ''CDS digest_type'' t2) (\<lambda>digest_type.
          rmap (RD_Cds key_tag algorithm digest_type) (hex_field (concat (t3 # ts))))))
      | _ \<Rightarrow> expects ''CDS expects at least 4 tokens'' tokens)"

definition parse_dlv :: "string list \<Rightarrow> core_error + rdata" where
  "parse_dlv tokens =
     (case tokens of
        t0 # t1 # t2 # t3 # ts \<Rightarrow>
          rbind (u16_field ''DLV key_tag'' t0) (\<lambda>key_tag.
          rbind (u8_field ''DLV algorithm'' t1) (\<lambda>algorithm.
          rbind (u8_field ''DLV digest_type'' t2) (\<lambda>digest_type.
          rmap (RD_Dlv key_tag algorithm digest_type) (hex_field (concat (t3 # ts))))))
      | _ \<Rightarrow> expects ''DLV expects at least 4 tokens'' tokens)"

definition parse_rrsig :: "zone_codecs \<Rightarrow> string list \<Rightarrow> domain_name \<Rightarrow> core_error fault + rdata" where
  "parse_rrsig lib tokens origin =
     (case tokens of
        t0 # t1 # t2 # t3 # t4 # t5 # t6 # t7 # t8 # ts \<Rightarrow>
          rbind (map_err Failed (record_type_from_str t0)) (\<lambda>type_covered.
          rbind (map_err Failed (u8_field ''RRSIG algorithm'' t1)) (\<lambda>algorithm.
          rbind (map_err Failed (u8_field ''RRSIG labels'' t2)) (\<lambda>labels.
          rbind (map_err Failed (u32_field ''RRSIG original_ttl'' t3)) (\<lambda>original_ttl.
          rbind (parse_timestamp ''RRSIG expiration'' t4) (\<lambda>signature_expiration.
          rbind (parse_timestamp ''RRSIG inception'' t5) (\<lambda>signature_inception.
          rbind (map_err Failed (u16_field ''RRSIG key_tag'' t6)) (\<lambda>key_tag.
          rbind (map_err Failed (resolve_name t7 origin)) (\<lambda>signer_name.
          map_err Failed (rmap
            (RD_Rrsig (record_type_value type_covered) algorithm labels original_ttl signature_expiration
               signature_inception key_tag signer_name)
            (base64_field lib ''RRSIG base64 signature'' (t8 # ts)))))))))))
      | _ \<Rightarrow> map_err Failed (expects ''RRSIG expects at least 9 tokens'' tokens))"

definition parse_nsec :: "string list \<Rightarrow> domain_name \<Rightarrow> core_error + rdata" where
  "parse_nsec tokens origin =
     (case tokens of
        t0 # types \<Rightarrow>
          rbind (resolve_name t0 origin) (\<lambda>next_domain.
          rmap (RD_Nsec next_domain) (if types \<noteq> [] then encode_type_bitmap types else Inr []))
      | [] \<Rightarrow> Inl (zone_error ''NSEC expects at least 1 token (next_domain)''))"

definition parse_salt :: "string \<Rightarrow> core_error + byte list" where
  "parse_salt s = (if s = ''-'' then Inr [] else hex_field s)"

definition parse_nsec3 :: "zone_codecs \<Rightarrow> string list \<Rightarrow> core_error + rdata" where
  "parse_nsec3 lib tokens =
     (case tokens of
        t0 # t1 # t2 # t3 # t4 # types \<Rightarrow>
          rbind (u8_field ''NSEC3 hash_algorithm'' t0) (\<lambda>hash_algorithm.
          rbind (u8_field ''NSEC3 flags'' t1) (\<lambda>flags.
          rbind (u16_field ''NSEC3 iterations'' t2) (\<lambda>iterations.
          rbind (parse_salt t3) (\<lambda>salt.
          rbind (ok_or (zone_error ''invalid NSEC3 base32hex next_hashed_owner'')
              (codec_decode (zc_base32hex lib) (upper_text t4))) (\<lambda>next_hashed_owner.
          rmap (RD_Nsec3 hash_algorithm flags iterations salt next_hashed_owner)
            (if types \<noteq> [] then encode_type_bitmap types else Inr []))))))
      | _ \<Rightarrow> expects ''NSEC3 expects at least 5 tokens'' tokens)"

definition parse_nsec3param :: "string list \<Rightarrow> core_error + rdata" where
  "parse_nsec3param tokens =
     (case tokens of
        [t0, t1, t2, t3] \<Rightarrow>
          rbind (u8_field ''NSEC3PARAM hash_algorithm'' t0) (\<lambda>hash_algorithm.
          rbind (u8_field ''NSEC3PARAM flags'' t1) (\<lambda>flags.
          rbind (u16_field ''NSEC3PARAM iterations'' t2) (\<lambda>iterations.
          rmap (RD_Nsec3param hash_algorithm flags iterations) (parse_salt t3))))
      | _ \<Rightarrow> expects ''NSEC3PARAM expects 4 tokens'' tokens)"

section \<open>Dispatch\<close>

definition parse_plain_rdata :: "zone_codecs \<Rightarrow> string \<Rightarrow> string list \<Rightarrow> domain_name \<Rightarrow> core_error + rdata" where
  "parse_plain_rdata lib rtype tokens origin =
     (if rtype = ''A'' then parse_a tokens
      else if rtype = ''AAAA'' then parse_aaaa tokens
      else if rtype = ''NS'' then parse_ns tokens origin
      else if rtype = ''CNAME'' then parse_cname tokens origin
      else if rtype = ''PTR'' then parse_ptr tokens origin
      else if rtype = ''SOA'' then parse_soa tokens origin
      else if rtype = ''MX'' then parse_mx tokens origin
      else if rtype = ''TXT'' then parse_txt tokens
      else if rtype = ''SRV'' then parse_srv tokens origin
      else if rtype = ''CAA'' then parse_caa tokens
      else if rtype = ''DNSKEY'' then parse_dnskey lib tokens
      else if rtype = ''DS'' then parse_ds tokens
      else if rtype = ''CDS'' then parse_cds tokens
      else if rtype = ''CDNSKEY'' then parse_cdnskey lib tokens
      else if rtype = ''DLV'' then parse_dlv tokens
      else if rtype = ''NSEC'' then parse_nsec tokens origin
      else if rtype = ''NSEC3'' then parse_nsec3 lib tokens
      else if rtype = ''NSEC3PARAM'' then parse_nsec3param tokens
      else if rtype = ''TLSA'' then parse_tlsa tokens
      else if rtype = ''SSHFP'' then parse_sshfp tokens
      else if rtype = ''CSYNC'' then parse_csync tokens
      else if rtype = ''RP'' then parse_rp tokens origin
      else parse_unknown rtype tokens)"

definition parse_rdata :: "zone_codecs \<Rightarrow> string \<Rightarrow> string list \<Rightarrow> domain_name \<Rightarrow> core_error fault + rdata" where
  "parse_rdata lib rtype tokens origin =
     (if rtype = ''RRSIG'' then parse_rrsig lib tokens origin
      else map_err Failed (parse_plain_rdata lib rtype tokens origin))"

section \<open>Text of record data\<close>

definition show_u :: "'a::len word \<Rightarrow> string" where
  "show_u w = show_nat (unat w)"

definition serialize_key :: "zone_codecs \<Rightarrow> u16 \<Rightarrow> u8 \<Rightarrow> u8 \<Rightarrow> byte list \<Rightarrow> string" where
  "serialize_key lib flags protocol algorithm public_key =
     show_u flags @ '' '' @ show_u protocol @ '' '' @ show_u algorithm @ '' ''
       @ codec_encode (zc_base64 lib) public_key"

definition serialize_ds :: "u16 \<Rightarrow> u8 \<Rightarrow> u8 \<Rightarrow> byte list \<Rightarrow> string" where
  "serialize_ds key_tag algorithm digest_type digest =
     show_u key_tag @ '' '' @ show_u algorithm @ '' '' @ show_u digest_type @ '' '' @ encode_hex digest"

definition salt_text :: "byte list \<Rightarrow> string" where
  "salt_text salt = (if salt = [] then ''-'' else encode_hex salt)"

definition with_types :: "string \<Rightarrow> byte list \<Rightarrow> string" where
  "with_types prefix bitmap =
     (let types = decode_type_bitmap bitmap in if types = [] then prefix else prefix @ '' '' @ types)"

definition serialize_unknown :: "byte list \<Rightarrow> string" where
  "serialize_unknown rdata =
     (if rdata = [] then backslash # ''# 0''
      else backslash # ''# '' @ show_nat (length rdata) @ '' '' @ encode_hex rdata)"

fun serialize_rdata :: "zone_codecs \<Rightarrow> rdata \<Rightarrow> string" where
  "serialize_rdata lib (RD_A addr) = ipv4_display addr"
| "serialize_rdata lib (RD_Aaaa addr) = ipv6_display addr"
| "serialize_rdata lib (RD_Ns name) = name_display name"
| "serialize_rdata lib (RD_Cname name) = name_display name"
| "serialize_rdata lib (RD_Ptr name) = name_display name"
| "serialize_rdata lib (RD_Soa m r serial rf rt ex mi) =
     name_display m @ '' '' @ name_display r @ '' '' @ show_u (serial_value serial) @ '' ''
       @ show_u (ttl_value rf) @ '' '' @ show_u (ttl_value rt) @ '' ''
       @ show_u (ttl_value ex) @ '' '' @ show_u (ttl_value mi)"
| "serialize_rdata lib (RD_Mx pref exch) = show_u pref @ '' '' @ name_display exch"
| "serialize_rdata lib (RD_Txt strings) = serialize_txt strings"
| "serialize_rdata lib (RD_Srv prio wt pt tgt) =
     show_u prio @ '' '' @ show_u wt @ '' '' @ show_u pt @ '' '' @ name_display tgt"
| "serialize_rdata lib (RD_Caa flags tag value) =
     show_u flags @ '' '' @ tag @ '' '' @ CHR 0x22 # value @ [CHR 0x22]"
| "serialize_rdata lib (RD_Dnskey flags protocol algorithm public_key) =
     serialize_key lib flags protocol algorithm public_key"
| "serialize_rdata lib (RD_Ds key_tag algorithm digest_type digest) =
     serialize_ds key_tag algorithm digest_type digest"
| "serialize_rdata lib (RD_Cds key_tag algorithm digest_type digest) =
     serialize_ds key_tag algorithm digest_type digest"
| "serialize_rdata lib (RD_Cdnskey flags protocol algorithm public_key) =
     serialize_key lib flags protocol algorithm public_key"
| "serialize_rdata lib (RD_Dlv key_tag algorithm digest_type digest) =
     serialize_ds key_tag algorithm digest_type digest"
| "serialize_rdata lib (RD_Rrsig covered algorithm lb ottl expiration
       inception key_tag signer sg) =
     record_type_display (record_type_from_value covered) @ '' '' @ show_u algorithm @ '' ''
       @ show_u lb @ '' '' @ show_u ottl @ '' '' @ format_timestamp expiration @ '' ''
       @ format_timestamp inception @ '' '' @ show_u key_tag @ '' '' @ name_display signer
       @ '' '' @ codec_encode (zc_base64 lib) sg"
| "serialize_rdata lib (RD_Nsec nd type_bitmaps) = with_types (name_display nd) type_bitmaps"
| "serialize_rdata lib (RD_Nsec3 hash_algorithm flags iterations salt owner type_bitmaps) =
     with_types (show_u hash_algorithm @ '' '' @ show_u flags @ '' '' @ show_u iterations @ '' '' @ salt_text salt
       @ '' '' @ codec_encode (zc_base32hex lib) owner) type_bitmaps"
| "serialize_rdata lib (RD_Nsec3param hash_algorithm flags iterations salt) =
     show_u hash_algorithm @ '' '' @ show_u flags @ '' '' @ show_u iterations @ '' '' @ salt_text salt"
| "serialize_rdata lib (RD_Tlsa usage selector matching_type cert) =
     show_u usage @ '' '' @ show_u selector @ '' '' @ show_u matching_type @ '' '' @ encode_hex cert"
| "serialize_rdata lib (RD_Sshfp algorithm fpt fp) =
     show_u algorithm @ '' '' @ show_u fpt @ '' '' @ encode_hex fp"
| "serialize_rdata lib (RD_Csync ser flags type_bitmaps) =
     with_types (show_u ser @ '' '' @ show_u flags) type_bitmaps"
| "serialize_rdata lib (RD_Rp mb txt) = name_display mb @ '' '' @ name_display txt"
| "serialize_rdata lib (RD_Unknown rtype rdata) = serialize_unknown rdata"

text \<open>\<open>rdata_type_string\<close> of \<open>serializer.rs\<close>.\<close>

fun rdata_type_string :: "rdata \<Rightarrow> string" where
  "rdata_type_string (RD_A _) = ''A''"
| "rdata_type_string (RD_Aaaa _) = ''AAAA''"
| "rdata_type_string (RD_Cname _) = ''CNAME''"
| "rdata_type_string (RD_Ns _) = ''NS''"
| "rdata_type_string (RD_Ptr _) = ''PTR''"
| "rdata_type_string (RD_Soa _ _ _ _ _ _ _) = ''SOA''"
| "rdata_type_string (RD_Mx _ _) = ''MX''"
| "rdata_type_string (RD_Txt _) = ''TXT''"
| "rdata_type_string (RD_Srv _ _ _ _) = ''SRV''"
| "rdata_type_string (RD_Caa _ _ _) = ''CAA''"
| "rdata_type_string (RD_Dnskey _ _ _ _) = ''DNSKEY''"
| "rdata_type_string (RD_Rrsig _ _ _ _ _ _ _ _ _) = ''RRSIG''"
| "rdata_type_string (RD_Nsec _ _) = ''NSEC''"
| "rdata_type_string (RD_Nsec3 _ _ _ _ _ _) = ''NSEC3''"
| "rdata_type_string (RD_Ds _ _ _ _) = ''DS''"
| "rdata_type_string (RD_Cds _ _ _ _) = ''CDS''"
| "rdata_type_string (RD_Cdnskey _ _ _ _) = ''CDNSKEY''"
| "rdata_type_string (RD_Tlsa _ _ _ _) = ''TLSA''"
| "rdata_type_string (RD_Sshfp _ _ _) = ''SSHFP''"
| "rdata_type_string (RD_Csync _ _ _) = ''CSYNC''"
| "rdata_type_string (RD_Rp _ _) = ''RP''"
| "rdata_type_string (RD_Nsec3param _ _ _ _) = ''NSEC3PARAM''"
| "rdata_type_string (RD_Dlv _ _ _ _) = ''DLV''"
| "rdata_type_string (RD_Unknown rtype _) = ''TYPE'' @ show_u rtype"

section \<open>Hexadecimal text is read back\<close>

lemma code_of_hex_digit: "d < 16 \<Longrightarrow> code_of (hex_digit d) < 128"
  by (auto simp: hex_digit_def digit_char_def)

lemma hex_char_digit: "d < 16 \<Longrightarrow> hex_char [hex_digit d] = Inr (word_of_nat d)"
  by (simp add: hex_char_def to_digit_hex)

lemma byte_nibbles: "unat (b :: byte) div 16 < 16" "unat b mod 16 < 16"
  using unat_byte_less [of b] by (simp_all add: less_mult_imp_div_less)

lemma nibbles: "push_bit 4 (word_of_nat (unat b div 16)) OR word_of_nat (unat b mod 16) = (b :: byte)"
proof -
  have "b = push_bit 4 (drop_bit 4 b) OR take_bit 4 b"
    using bits_ident [of 4 b] by (simp add: disjunctive_add bit_eq_iff bit_simps)
  moreover have "drop_bit 4 b = word_of_nat (unat b div 16)"
    using byte_nibbles [of b] by (simp add: word_unat_eq_iff unat_drop_bit_eq drop_bit_eq_div unat_of_nat unat_div)
  moreover have "take_bit 4 b = word_of_nat (unat b mod 16)"
    by (simp add: word_unat_eq_iff unsigned_take_bit_eq take_bit_eq_mod unat_of_nat unat_mod)
  ultimately show ?thesis by simp
qed

lemma encode_hex_Cons [simp]:
  "encode_hex [] = []"
  "encode_hex (b # bs) = hex_digit (unat b div 16) # hex_digit (unat b mod 16) # encode_hex bs"
  by (simp_all add: encode_hex_def)

lemma decode_hex_chars_encode:
  "decode_hex_chars (utf8_chars (encode_hex bs @ s)) = rmap (append bs) (decode_hex_chars (utf8_chars s))"
proof (induction bs)
  case Nil
  then show ?case by (cases "decode_hex_chars (utf8_chars s)") simp_all
next
  case (Cons b bs)
  then show ?case
    by (simp add: utf8_chars_ascii code_of_hex_digit byte_nibbles hex_char_digit nibbles
        del: utf8_chars.simps(2))
qed

lemma length_encode_hex [simp]: "length (encode_hex bs) = 2 * length bs"
  by (induction bs) simp_all

lemma hex_field_encode: "hex_field (encode_hex bs) = Inr bs"
  using decode_hex_chars_encode [of bs "[]"] by (simp add: hex_field_def decode_hex_def)

text \<open>A character of several octets after an even number of digits is dropped without an error.\<close>

lemma decode_hex_drops_last_char:
  assumes "utf8_chars c = [c]" "even (length c)"
  shows "decode_hex (encode_hex bs @ c) = Inr bs"
  using decode_hex_chars_encode [of bs c] assms by (simp add: decode_hex_def)

section \<open>Character strings are read back\<close>

text \<open>The content of the token that the tokenizer makes of a printed character string.\<close>

definition txt_token_byte :: "byte \<Rightarrow> string" where
  "txt_token_byte b = (if unat b < 128 then [char_of_byte b] else backslash # pad_nat 3 (unat b))"

definition txt_token :: "txt_string \<Rightarrow> string" where
  "txt_token s = concat (map txt_token_byte (txt_bytes s))"

definition no_backslash :: "byte list \<Rightarrow> bool" where
  "no_backslash bs \<longleftrightarrow> list_all (\<lambda>b. unat b \<noteq> 92) bs"

lemma pad_nat_ddd:
  assumes "n < 1000"
  shows "ddd_escape (pad_nat 3 n @ rest) = Some (n, rest)" "length (pad_nat 3 n) = 3"
    "list_all is_ascii_digit (pad_nat 3 n)"
proof -
  have "length (show_nat n) \<le> 3" using assms by (rule show_nat_length(3))
  note p = pad_nat_props [OF this]
  then show "length (pad_nat 3 n) = 3" "list_all is_ascii_digit (pad_nat 3 n)" by simp_all
  then obtain a b c where abc: "pad_nat 3 n = [a, b, c]" by (auto simp: numeral_3_eq_3 length_Suc_conv)
  with p have "digit_val a * 100 + digit_val b * 10 + digit_val c = n" by (simp add: digits_value_def)
  with p abc show "ddd_escape (pad_nat 3 n @ rest) = Some (n, rest)" by simp
qed

lemma decode_txt_token:
  "no_backslash bs \<Longrightarrow>
     decode_character_string token (concat (map txt_token_byte bs) @ s) = rmap (append bs) (decode_character_string token s)"
proof (induction bs)
  case Nil
  then show ?case by (cases "decode_character_string token s") simp_all
next
  case (Cons b bs)
  then have b: "char_of_byte b \<noteq> backslash" by (simp add: no_backslash_def char_of_byte_eq)
  have "decode_character_string token (txt_token_byte b @ r) = rmap (Cons b) (decode_character_string token r)" for r
  proof (cases "unat b < 128")
    case False
    have "unat b < 1000" "unat b \<le> 255" using unat_byte_less [of b] by linarith+
    with False pad_nat_ddd(1) [OF this(1), of r] pad_nat_ddd(2) [OF this(1)] show ?thesis by (cases "pad_nat 3 (unat b)") (simp_all add: txt_token_byte_def)
  qed (simp add: txt_token_byte_def b)
  with Cons show ?case by (simp add: no_backslash_def)
qed

lemma decode_txt: "no_backslash (txt_bytes s) \<Longrightarrow> decode_character_string (txt_token s) (txt_token s) = Inr (txt_bytes s)"
  using decode_txt_token [of "txt_bytes s" "txt_token s" "[]"] by (simp add: txt_token_def)

section \<open>Record data is read back\<close>

text \<open>The tokens of printed record data, and the data that can be printed and read back.\<close>

fun rdata_tokens :: "zone_codecs \<Rightarrow> rdata \<Rightarrow> string list" where
  "rdata_tokens lib (RD_A a) = [ipv4_display a]"
| "rdata_tokens lib (RD_Aaaa a) = [ipv6_display a]"
| "rdata_tokens lib (RD_Ns n) = [name_display n]"
| "rdata_tokens lib (RD_Cname n) = [name_display n]"
| "rdata_tokens lib (RD_Ptr n) = [name_display n]"
| "rdata_tokens lib (RD_Soa m r s a b c d) =
     [name_display m, name_display r, show_u (serial_value s), show_u (ttl_value a), show_u (ttl_value b),
      show_u (ttl_value c), show_u (ttl_value d)]"
| "rdata_tokens lib (RD_Mx p n) = [show_u p, name_display n]"
| "rdata_tokens lib (RD_Txt ss) = map txt_token ss"
| "rdata_tokens lib (RD_Srv a b c n) = [show_u a, show_u b, show_u c, name_display n]"
| "rdata_tokens lib (RD_Caa f tag v) = [show_u f, tag, v]"
| "rdata_tokens lib (RD_Dnskey f p a k) = [show_u f, show_u p, show_u a, codec_encode (zc_base64 lib) k]"
| "rdata_tokens lib (RD_Cdnskey f p a k) = [show_u f, show_u p, show_u a, codec_encode (zc_base64 lib) k]"
| "rdata_tokens lib (RD_Ds t a d h) = [show_u t, show_u a, show_u d, encode_hex h]"
| "rdata_tokens lib (RD_Cds t a d h) = [show_u t, show_u a, show_u d, encode_hex h]"
| "rdata_tokens lib (RD_Dlv t a d h) = [show_u t, show_u a, show_u d, encode_hex h]"
| "rdata_tokens lib (RD_Rrsig c a l o' e i t n sg) =
     [record_type_display (record_type_from_value c), show_u a, show_u l, show_u o', format_timestamp e,
      format_timestamp i, show_u t, name_display n, codec_encode (zc_base64 lib) sg]"
| "rdata_tokens lib (RD_Nsec n b) = name_display n # type_words b"
| "rdata_tokens lib (RD_Nsec3 h f i s n b) =
     [show_u h, show_u f, show_u i, salt_text s, codec_encode (zc_base32hex lib) n] @ type_words b"
| "rdata_tokens lib (RD_Nsec3param h f i s) = [show_u h, show_u f, show_u i, salt_text s]"
| "rdata_tokens lib (RD_Tlsa u s m c) = [show_u u, show_u s, show_u m, encode_hex c]"
| "rdata_tokens lib (RD_Sshfp a t f) = [show_u a, show_u t, encode_hex f]"
| "rdata_tokens lib (RD_Csync s f b) = [show_u s, show_u f] @ type_words b"
| "rdata_tokens lib (RD_Rp m t) = [name_display m, name_display t]"
| "rdata_tokens lib (RD_Unknown t bs) =
     (if bs = [] then [[backslash, CHR ''#''], ''0''] else [[backslash, CHR ''#''], show_nat (length bs), encode_hex bs])"

fun printable_rdata :: "rdata \<Rightarrow> bool" where
  "printable_rdata (RD_A _) = True"
| "printable_rdata (RD_Aaaa _) = True"
| "printable_rdata (RD_Ns n) = name_wf n"
| "printable_rdata (RD_Cname n) = name_wf n"
| "printable_rdata (RD_Ptr n) = name_wf n"
| "printable_rdata (RD_Soa m r s a b c d) \<longleftrightarrow>
     name_wf m \<and> name_wf r \<and> ttl_wf a \<and> ttl_wf b \<and> ttl_wf c \<and> ttl_wf d"
| "printable_rdata (RD_Mx p n) = name_wf n"
| "printable_rdata (RD_Txt ss) \<longleftrightarrow> ss \<noteq> [] \<and> list_all (\<lambda>s. txt_wf s \<and> no_backslash (txt_bytes s)) ss"
| "printable_rdata (RD_Srv a b c n) = name_wf n"
| "printable_rdata (RD_Caa f tag v) = True"
| "printable_rdata (RD_Dnskey f p a k) \<longleftrightarrow> k \<noteq> []"
| "printable_rdata (RD_Cdnskey f p a k) \<longleftrightarrow> k \<noteq> []"
| "printable_rdata (RD_Ds t a d h) \<longleftrightarrow> h \<noteq> []"
| "printable_rdata (RD_Cds t a d h) \<longleftrightarrow> h \<noteq> []"
| "printable_rdata (RD_Dlv t a d h) \<longleftrightarrow> h \<noteq> []"
| "printable_rdata (RD_Rrsig c a l o' e i t n sg) \<longleftrightarrow> name_wf n \<and> sg \<noteq> []"
| "printable_rdata (RD_Nsec n b) \<longleftrightarrow> name_wf n \<and> bitmap_wf b"
| "printable_rdata (RD_Nsec3 h f i s n b) \<longleftrightarrow> n \<noteq> [] \<and> bitmap_wf b"
| "printable_rdata (RD_Nsec3param h f i s) = True"
| "printable_rdata (RD_Tlsa u s m c) \<longleftrightarrow> u \<le> 3 \<and> s \<le> 1 \<and> m \<le> 2 \<and> c \<noteq> []"
| "printable_rdata (RD_Sshfp a t f) \<longleftrightarrow> f \<noteq> []"
| "printable_rdata (RD_Csync s f b) = bitmap_wf b"
| "printable_rdata (RD_Rp m t) \<longleftrightarrow> name_wf m \<and> name_wf t"
| "printable_rdata (RD_Unknown t bs) \<longleftrightarrow> length bs < 2 ^ 64"

text \<open>The alphabets of base64 and base32hex.\<close>

definition base64_char :: "char \<Rightarrow> bool" where
  "base64_char c \<longleftrightarrow> is_ascii_digit c \<or> 65 \<le> code_of c \<and> code_of c \<le> 90 \<or> 97 \<le> code_of c \<and> code_of c \<le> 122
     \<or> c = CHR ''+'' \<or> c = CHR ''/'' \<or> c = CHR ''=''"

definition base32hex_char :: "char \<Rightarrow> bool" where
  "base32hex_char c \<longleftrightarrow> is_ascii_digit c \<or> 65 \<le> code_of c \<and> code_of c \<le> 86"

definition zone_codecs_ok :: "zone_codecs \<Rightarrow> bool" where
  "zone_codecs_ok lib \<longleftrightarrow> codec_ok base64_char (zc_base64 lib) \<and> codec_ok base32hex_char (zc_base32hex lib)"

lemma upper_base32hex: "list_all base32hex_char s \<Longrightarrow> upper_text s = s"
  by (induction s) (auto simp: upper_text_def upper_char_def base32hex_char_def is_ascii_digit_def)

lemma field_shown:
  "u8_field what (show_u (a :: u8)) = Inr a"
  "u16_field what (show_u (b :: u16)) = Inr b"
  "u32_field what (show_u (c :: u32)) = Inr c"
  by (simp_all add: u8_field_def u16_field_def u32_field_def show_u_def parse_show_words)

lemma ttl_field_wf: "ttl_wf t \<Longrightarrow> ttl_field what (ttl_value t) = Inr t"
  by (cases t) (simp add: ttl_field_def map_err_eq_Inr ttl_new_Inr)

lemma name_display_last: "name_display n \<noteq> [] \<and> last (name_display n) = dot"
  by (simp add: name_display_def)

lemma resolve_display: "name_wf n \<Longrightarrow> resolve_name (name_display n) origin = Inr n"
  using name_display_last [of n] by (auto simp: resolve_name_def domain_new_display)

lemma parse_salt_text: "parse_salt (salt_text s) = Inr s"
proof (cases s)
  case (Cons b bs)
  then have "length (encode_hex s) \<noteq> length ''-''" by simp
  then have "encode_hex s \<noteq> ''-''" by metis
  with Cons show ?thesis by (simp add: parse_salt_def salt_text_def hex_field_encode del: encode_hex_Cons)
qed (simp add: parse_salt_def salt_text_def)

lemma types_or_empty:
  "bitmap_wf b \<Longrightarrow> (if type_words b \<noteq> [] then encode_type_bitmap (type_words b) else Inr []) = Inr b"
  using encode_type_words [of b] by (auto simp: encode_type_bitmap_def bitmap_of_def flush_window_def bitmap_empty_def)

lemma codec_read:
  assumes "zone_codecs_ok lib"
  shows "codec_decode (zc_base64 lib) (codec_encode (zc_base64 lib) bs) = Some bs"
    "codec_decode (zc_base32hex lib) (upper_text (codec_encode (zc_base32hex lib) bs)) = Some bs"
  using assms by (simp_all add: zone_codecs_ok_def codec_ok_def upper_base32hex)

lemma record_type_shown:
  "record_type_from_str (record_type_display (record_type_from_value v)) = Inr (record_type_from_value v)"
  by (rule record_type_from_str_display) simp

lemma parse_generic_tokens:
  assumes "length bs < 2 ^ 64"
  shows "parse_generic t rtype (rdata_tokens lib (RD_Unknown t bs)) = Inr (RD_Unknown t bs)"
proof (cases "bs = []")
  case True
  have "parse_uint (2 ^ 64 - 1) ''0'' = Some 0"
    by (simp add: parse_uint_def is_ascii_digit_def digits_value_def digit_val_def)
  with True show ?thesis by (simp add: parse_generic_def)
next
  case False
  have "parse_uint (2 ^ 64 - 1) (show_nat (length bs)) = Some (length bs)"
    using assms by (intro parse_uint_show) simp
  with False show ?thesis by (simp add: parse_generic_def hex_field_encode del: encode_hex_Cons)
qed

lemma parse_unknown_tokens:
  assumes "length bs < 2 ^ 64"
  shows "parse_unknown (rdata_type_string (RD_Unknown t bs)) (rdata_tokens lib (RD_Unknown t bs)) = Inr (RD_Unknown t bs)"
proof -
  have "strip_prefix ''TYPE'' (rdata_type_string (RD_Unknown t bs)) = Some (show_u t)"
    unfolding strip_prefix_iff by simp
  then show ?thesis
    using parse_generic_tokens [OF assms] parse_show_words(2) [of t] by (simp add: parse_unknown_def show_u_def)
qed

lemma parse_txt_tokens:
  assumes "printable_rdata (RD_Txt ss)"
  shows "parse_txt (map txt_token ss) = Inr (RD_Txt ss)"
proof -
  have "rbind (decode_character_string (txt_token s) (txt_token s)) txt_new = Inr s" if "s \<in> set ss" for s
    using that assms decode_txt [of s] by (cases s) (auto simp: list_all_iff txt_new_Inr)
  then have "rmap_list (\<lambda>token. rbind (decode_character_string token token) txt_new) (map txt_token ss) = Inr ss"
    unfolding rmap_list_Inr list_all2_map1 by (intro list.rel_refl_strong)
  with assms show ?thesis by (simp add: parse_txt_def)
qed

lemma unknown_type_string:
  "parse_plain_rdata lib (''TYPE'' @ s) tokens origin = parse_unknown (''TYPE'' @ s) tokens"
  by (simp add: parse_plain_rdata_def)

lemmas rdata_readers = field_shown ttl_field_wf resolve_display hex_field_encode parse_salt_text types_or_empty
  encode_type_words codec_read record_type_shown parse_format_timestamp parse_ipv4_display parse_ipv6_display
  base64_field_def

lemma parse_rdata_tokens:
  assumes "zone_codecs_ok lib" "printable_rdata rd"
  shows "parse_rdata lib (rdata_type_string rd) (rdata_tokens lib rd) origin = Inr rd"
proof -
  have other: "rdata_type_string rd \<noteq> ''RRSIG''" if "\<not> (\<exists>c a l o' e i t n sg. rd = RD_Rrsig c a l o' e i t n sg)"
    using that by (cases rd) simp_all
  show ?thesis
  proof (cases "\<exists>c a l o' e i t n sg. rd = RD_Rrsig c a l o' e i t n sg")
    case True
    with assms show ?thesis
      by (auto simp: parse_rdata_def parse_rrsig_def rdata_readers)
  next
    case False
    have "parse_plain_rdata lib (rdata_type_string rd) (rdata_tokens lib rd) origin = Inr rd"
    proof (cases rd)
      case (RD_Unknown t bs)
      with assms(2) parse_unknown_tokens [of bs t lib] show ?thesis
        by (simp only: rdata_type_string.simps unknown_type_string printable_rdata.simps)
    next
      case (RD_Txt ss)
      with assms(2) parse_txt_tokens [of ss] show ?thesis
        by (simp add: parse_plain_rdata_def del: printable_rdata.simps)
    next
      case (RD_A a)
      then show ?thesis by (simp add: parse_plain_rdata_def parse_a_def rdata_readers)
    next
      case (RD_Soa m r s a b c d)
      with assms(2) show ?thesis by (simp add: parse_plain_rdata_def parse_soa_def rdata_readers)
    qed (use assms False in \<open>simp_all add: parse_plain_rdata_def rdata_readers parse_aaaa_def parse_ns_def
        parse_cname_def parse_ptr_def parse_mx_def parse_srv_def parse_caa_def parse_dnskey_def parse_cdnskey_def
        parse_ds_def parse_cds_def parse_dlv_def parse_nsec_def parse_nsec3_def parse_nsec3param_def parse_tlsa_def
        parse_sshfp_def parse_csync_def parse_rp_def not_less\<close>)
    then show ?thesis using other [OF False] by (simp add: parse_rdata_def)
  qed
qed

section \<open>What the parsers build\<close>

fun built_rdata :: "rdata \<Rightarrow> bool" where
  "built_rdata (RD_Ns n) = name_wf n"
| "built_rdata (RD_Cname n) = name_wf n"
| "built_rdata (RD_Ptr n) = name_wf n"
| "built_rdata (RD_Soa m r s a b c d) \<longleftrightarrow>
     name_wf m \<and> name_wf r \<and> ttl_wf a \<and> ttl_wf b \<and> ttl_wf c \<and> ttl_wf d"
| "built_rdata (RD_Mx p n) = name_wf n"
| "built_rdata (RD_Txt ss) \<longleftrightarrow> ss \<noteq> [] \<and> list_all txt_wf ss"
| "built_rdata (RD_Srv a b c n) = name_wf n"
| "built_rdata (RD_Rrsig c a l o' e i t n sg) = name_wf n"
| "built_rdata (RD_Nsec n b) \<longleftrightarrow> name_wf n \<and> bitmap_wf b"
| "built_rdata (RD_Nsec3 h f i s n b) \<longleftrightarrow> bitmap_wf b"
| "built_rdata (RD_Tlsa u s m c) \<longleftrightarrow> u \<le> 3 \<and> s \<le> 1 \<and> m \<le> 2"
| "built_rdata (RD_Csync s f b) = bitmap_wf b"
| "built_rdata (RD_Rp m t) \<longleftrightarrow> name_wf m \<and> name_wf t"
| "built_rdata _ = True"

lemma resolve_name_wf: "resolve_name token origin = Inr n \<Longrightarrow> name_wf origin \<Longrightarrow> name_wf n"
  by (auto simp: resolve_name_def dest: domain_new_wf split: if_splits)

lemma ttl_field_Inr: "ttl_field what v = Inr t \<Longrightarrow> ttl_wf t"
  by (auto simp: ttl_field_def map_err_eq_Inr ttl_new_Inr)

lemma bitmap_wf_Nil: "bitmap_wf []"
  by (simp add: bitmap_wf_def bitmap_of_def flush_window_def bitmap_empty_def)

lemma types_field_wf: "(if types \<noteq> [] then encode_type_bitmap types else Inr []) = Inr b \<Longrightarrow> bitmap_wf b"
  using encode_type_bitmap_Inr [of types b] bitmap_wf_Nil by (auto split: if_splits)

lemma parse_txt_built:
  assumes "parse_txt tokens = Inr rd"
  shows "built_rdata rd"
proof -
  from assms obtain ss where rd: "rd = RD_Txt ss" and "tokens \<noteq> []"
    and ss: "list_all2 (\<lambda>token s. rbind (decode_character_string token token) txt_new = Inr s) tokens ss"
    by (auto simp: parse_txt_def result_simps rmap_list_Inr)
  from ss have "list_all txt_wf ss"
    by (induction rule: list_all2_induct) (auto simp: result_simps txt_new_Inr)
  moreover have "ss \<noteq> []" using ss \<open>tokens \<noteq> []\<close> by auto
  ultimately show ?thesis by (simp add: rd)
qed

lemmas built_facts = resolve_name_wf ttl_field_Inr types_field_wf

lemmas rdata_parsers = parse_a_def parse_aaaa_def parse_ns_def parse_cname_def parse_ptr_def parse_soa_def
  parse_mx_def parse_srv_def parse_caa_def parse_dnskey_def parse_ds_def parse_cds_def parse_cdnskey_def
  parse_dlv_def parse_nsec_def parse_nsec3_def parse_nsec3param_def parse_tlsa_def parse_sshfp_def
  parse_csync_def parse_rp_def

lemma parsers_built:
  "parse_a tokens = Inr rd \<Longrightarrow> built_rdata rd"
  "parse_aaaa tokens = Inr rd \<Longrightarrow> built_rdata rd"
  "parse_caa tokens = Inr rd \<Longrightarrow> built_rdata rd"
  "parse_dnskey lib tokens = Inr rd \<Longrightarrow> built_rdata rd"
  "parse_cdnskey lib tokens = Inr rd \<Longrightarrow> built_rdata rd"
  "parse_ds tokens = Inr rd \<Longrightarrow> built_rdata rd"
  "parse_cds tokens = Inr rd \<Longrightarrow> built_rdata rd"
  "parse_dlv tokens = Inr rd \<Longrightarrow> built_rdata rd"
  "parse_nsec3param tokens = Inr rd \<Longrightarrow> built_rdata rd"
  "parse_sshfp tokens = Inr rd \<Longrightarrow> built_rdata rd"
  by (auto simp: rdata_parsers expects_def result_simps split: list.splits option.splits if_splits)

lemma parse_unknown_built: "parse_unknown rtype tokens = Inr rd \<Longrightarrow> built_rdata rd"
proof -
  have "built_rdata rd" if "parse_generic t rtype tokens = Inr rd" for t
    using that by (cases "tl tokens") (auto simp: parse_generic_def result_simps split: if_splits)
  then show "parse_unknown rtype tokens = Inr rd \<Longrightarrow> built_rdata rd"
    by (auto simp: parse_unknown_def result_simps split: option.splits)
qed

lemma parsers_built_types:
  "parse_csync tokens = Inr rd \<Longrightarrow> built_rdata rd"
  "parse_nsec3 lib tokens = Inr rd \<Longrightarrow> built_rdata rd"
  "parse_tlsa tokens = Inr rd \<Longrightarrow> built_rdata rd"
  by (auto simp: rdata_parsers expects_def result_simps not_less split: list.splits
      dest: encode_type_bitmap_Inr types_field_wf)

lemma parsers_built_names:
  assumes "name_wf origin"
  shows "parse_ns tokens origin = Inr rd \<Longrightarrow> built_rdata rd"
    "parse_cname tokens origin = Inr rd \<Longrightarrow> built_rdata rd"
    "parse_ptr tokens origin = Inr rd \<Longrightarrow> built_rdata rd"
    "parse_mx tokens origin = Inr rd \<Longrightarrow> built_rdata rd"
    "parse_srv tokens origin = Inr rd \<Longrightarrow> built_rdata rd"
    "parse_soa tokens origin = Inr rd \<Longrightarrow> built_rdata rd"
    "parse_nsec tokens origin = Inr rd \<Longrightarrow> built_rdata rd"
    "parse_rp tokens origin = Inr rd \<Longrightarrow> built_rdata rd"
  using assms
  by (auto simp: rdata_parsers expects_def result_simps split: list.splits dest: built_facts)

lemma if_eqE: "(if b then x else y) = z \<Longrightarrow> (b \<Longrightarrow> x = z \<Longrightarrow> P) \<Longrightarrow> (\<not> b \<Longrightarrow> y = z \<Longrightarrow> P) \<Longrightarrow> P"
  by (cases b) simp_all

lemma parse_rdata_built:
  assumes "parse_rdata lib rtype tokens origin = Inr rd" "name_wf origin"
  shows "built_rdata rd"
proof (cases "rtype = ''RRSIG''")
  case True
  with assms show ?thesis
    by (auto simp: parse_rdata_def parse_rrsig_def expects_def result_simps dest: built_facts split: list.splits)
next
  case False
  with assms(1) have plain: "parse_plain_rdata lib rtype tokens origin = Inr rd"
    by (simp add: parse_rdata_def map_err_eq_Inr)
  then show ?thesis
    unfolding parse_plain_rdata_def
    by (elim if_eqE) (erule parsers_built parsers_built_types parsers_built_names [OF assms(2)]
        parse_txt_built parse_unknown_built)+
qed

end
