(* ===== verification/Zone_Tokenizer.thy ===== *)
theory Zone_Tokenizer
  imports Text_Util Domain_Name
begin

text \<open>
  \<open>zone/parser/tokenizer.rs\<close>: the tokens of a zone file. The position of the tokenizer is the
  text that is left to read; of the text before it the code only looks at the last byte, whether
  it is a newline. The code cuts words out of the input between ASCII delimiters, so no cut falls
  inside a character.
\<close>

section \<open>Tokens\<close>

datatype token =
    Word string
  | QuotedString string
  | Directive string
  | ParenOpen
  | ParenClose
  | Newline

record tokenizer =
  tk_line_start :: bool
  tk_rest :: string
  tk_line :: u32
  tk_parens :: bool

definition tokenizer_new :: "string \<Rightarrow> tokenizer" where
  "tokenizer_new input = \<lparr>tk_line_start = True, tk_rest = input, tk_line = 1, tk_parens = False\<rparr>"

abbreviation lf :: char where
  "lf \<equiv> CHR 0x0A"

definition is_blank :: "char \<Rightarrow> bool" where
  "is_blank c \<longleftrightarrow> c = CHR '' '' \<or> c = CHR 0x09"

definition is_delimiter :: "char \<Rightarrow> bool" where
  "is_delimiter b \<longleftrightarrow> is_blank b \<or> b = lf \<or> b = CHR '';'' \<or> b = CHR ''('' \<or> b = CHR '')'' \<or> b = CHR 0x22"

text \<open>\<open>byte as char\<close> pushed to a \<open>String\<close>: an octet above 127 becomes a character of two octets.\<close>

definition byte_as_char :: "char \<Rightarrow> string" where
  "byte_as_char b =
     (if code_of b < 128 then [b]
      else [char_of (0xC0 + code_of b div 64), char_of (0x80 + code_of b mod 64)])"

text \<open>The content of a quoted string, and what follows its closing quote.\<close>

function scan_quoted :: "string \<Rightarrow> string \<times> string" where
  "scan_quoted [] = ([], [])"
| "scan_quoted (b # s) =
     (if b = CHR 0x22 then ([], s)
      else if b = backslash \<and> s \<noteq> [] then
        (case ddd_escape s of
           Some (v, r) \<Rightarrow>
             (if v \<le> 255 then
                apfst (\<lambda>value. (if v \<le> 127 then [char_of v] else backslash # take 3 s) @ value) (scan_quoted r)
              else apfst (\<lambda>value. byte_as_char (hd s) @ value) (scan_quoted (tl s)))
         | None \<Rightarrow> apfst (\<lambda>value. byte_as_char (hd s) @ value) (scan_quoted (tl s)))
      else apfst (\<lambda>value. byte_as_char b @ value) (scan_quoted s))"
  by pat_completeness auto
termination
  by (relation "measure length") (auto dest: ddd_escape_shorter)

fun scan_word :: "string \<Rightarrow> string \<times> string" where
  "scan_word [] = ([], [])"
| "scan_word [b] = (if is_delimiter b then ([], [b]) else ([b], []))"
| "scan_word (b # c # s) =
     (if is_delimiter b then ([], b # c # s)
      else if b = backslash then apfst (\<lambda>w. b # c # w) (scan_word s)
      else apfst (Cons b) (scan_word (c # s)))"

definition word_token :: "string \<Rightarrow> token" where
  "word_token w = (if starts_with ''$'' w then Directive w else Word w)"

lemma dropWhile_shorter: "dropWhile P s = c # cs \<Longrightarrow> length cs < length s"
  using length_dropWhile_le [of P s] by simp

function next_token :: "tokenizer \<Rightarrow> token option \<times> tokenizer" where
  "next_token t =
     (case dropWhile is_blank (tk_rest t) of
        [] \<Rightarrow> (None, t\<lparr>tk_rest := []\<rparr>)
      | c # cs \<Rightarrow>
          (if tk_line_start t \<and> is_blank (hd (tk_rest t)) \<and> c \<noteq> lf \<and> \<not> tk_parens t then
             (Some (Word []), t\<lparr>tk_line_start := False, tk_rest := c # cs\<rparr>)
           else if c = lf then
             (let t' = t\<lparr>tk_line_start := True, tk_rest := cs, tk_line := tk_line t + 1\<rparr>
              in if tk_parens t then next_token t' else (Some Newline, t'))
           else if c = CHR '';'' then
             next_token (t\<lparr>tk_line_start := False, tk_rest := dropWhile (\<lambda>b. b \<noteq> lf) cs\<rparr>)
           else if c = CHR ''('' then
             (Some ParenOpen, t\<lparr>tk_line_start := False, tk_rest := cs, tk_parens := True\<rparr>)
           else if c = CHR '')'' then
             (Some ParenClose, t\<lparr>tk_line_start := False, tk_rest := cs, tk_parens := False\<rparr>)
           else if c = CHR 0x22 then
             (let (value, rest) = scan_quoted cs
              in (Some (QuotedString value), t\<lparr>tk_line_start := False, tk_rest := rest\<rparr>))
           else
             (let (word, rest) = scan_word (c # cs)
              in (Some (word_token word), t\<lparr>tk_line_start := (last word = lf), tk_rest := rest\<rparr>))))"
  by pat_completeness auto
termination
  by (relation "measure (\<lambda>t. length (tk_rest t))")
     (auto dest!: dropWhile_shorter intro: le_less_trans [OF length_dropWhile_le])

declare next_token.simps [simp del]

section \<open>Progress\<close>

lemma scan_quoted_shorter: "length (snd (scan_quoted s)) \<le> length s"
proof (induction s rule: scan_quoted.induct)
  case (2 b s)
  show ?case
  proof (cases "b \<noteq> CHR 0x22 \<and> b = backslash \<and> s \<noteq> []")
    case esc: True
    then have tl: "length (tl s) \<le> length s" by simp
    show ?thesis
    proof (cases "ddd_escape s")
      case None
      with esc "2.IH"(1) tl show ?thesis by (simp del: length_tl)
    next
      case (Some vr)
      obtain n q where vr: "vr = (n, q)" by (cases vr)
      with Some have "length q < length s" by (auto dest: ddd_escape_shorter)
      then have "length (snd (scan_quoted q)) \<le> length s" if "n \<le> 255"
        using "2.IH"(2) [OF _ _ Some vr [symmetric] that] esc \<open>length q < length s\<close> by simp
      moreover have "length (snd (scan_quoted (tl s))) \<le> length s" if "\<not> n \<le> 255"
        using "2.IH"(3) [OF _ _ Some vr [symmetric] that] esc tl by (simp del: length_tl)
      ultimately show ?thesis using esc Some vr by auto
    qed
  next
    case False
    with "2.IH"(4) show ?thesis by auto
  qed
qed simp

lemma scan_word_split: "scan_word s = (w, r) \<Longrightarrow> s = w @ r"
  by (induction s arbitrary: w r rule: scan_word.induct)
     (auto simp: apfst_def map_prod_def split: if_splits prod.splits)

lemma scan_word_start: "\<not> is_delimiter c \<Longrightarrow> fst (scan_word (c # cs)) \<noteq> []"
  by (cases cs) (auto simp: apfst_def map_prod_def split: prod.splits)

lemma next_token_shorter:
  "next_token t = (Some tok, t') \<Longrightarrow> length (tk_rest t') < length (tk_rest t)"
proof (induction t arbitrary: tok t' rule: next_token.induct)
  case (1 t)
  show ?case
  proof (cases "dropWhile is_blank (tk_rest t)")
    case Nil
    with "1.prems" show ?thesis by (simp add: next_token.simps [of t])
  next
    case (Cons c cs)
    then have len: "length cs < length (tk_rest t)" by (rule dropWhile_shorter)
    note drop = le_less_trans [OF length_dropWhile_le len]
    note quoted = le_less_trans [OF scan_quoted_shorter len]
    note open_line = "1.IH"(1) [OF Cons] and comment = "1.IH"(2) [OF Cons]
    have word: "length r < length (tk_rest t)" if "scan_word (c # cs) = (w, r)" "\<not> is_delimiter c" for w r
      using that scan_word_start [of c cs] scan_word_split [of "c # cs" w r] len by (cases w) auto
    show ?thesis
    proof (cases "tk_line_start t \<and> is_blank (hd (tk_rest t)) \<and> c \<noteq> lf \<and> \<not> tk_parens t")
      case True
      moreover have "length (c # cs) < length (tk_rest t)"
        using True Cons length_dropWhile_le [of is_blank "tl (tk_rest t)"] by (cases "tk_rest t") auto
      ultimately show ?thesis using "1.prems" Cons by (auto simp: next_token.simps [of t])
    next
      case False
      consider "c = lf" "tk_parens t" | "c = lf" "\<not> tk_parens t" | "c = CHR '';''" | "c \<noteq> lf" "c \<noteq> CHR '';''" by blast
      then show ?thesis
      proof cases
        case 1
        let ?u = "t\<lparr>tk_line_start := True, tk_rest := cs, tk_line := tk_line t + 1\<rparr>"
        from "1.prems" False Cons 1 have "next_token ?u = (Some tok, t')"
          by (auto simp: next_token.simps [of t])
        from open_line [OF False 1(1) refl 1(2) this] len show ?thesis by simp
      next
        case 3
        let ?u = "t\<lparr>tk_line_start := False, tk_rest := dropWhile (\<lambda>b. b \<noteq> lf) cs\<rparr>"
        from "1.prems" False Cons 3 have "next_token ?u = (Some tok, t')"
          by (auto simp: next_token.simps [of t])
        from comment [OF False _ 3 this] 3 have "length (tk_rest t') < length (tk_rest ?u)" by simp
        also have "\<dots> < length (tk_rest t)" using drop by simp
        finally show ?thesis .
      next
        case 4
        moreover have "\<not> is_blank c" using hd_dropWhile [of is_blank "tk_rest t"] Cons by simp
        ultimately show ?thesis
          using "1.prems" False Cons len quoted word
          by (auto simp: next_token.simps [of t] is_delimiter_def split: if_splits prod.splits)
      qed (use "1.prems" False Cons len in \<open>auto simp: next_token.simps [of t]\<close>)
    qed
  qed
qed

text \<open>\<open>tokenize_all\<close>: every token until the end of the input.\<close>

function tokenize_all :: "tokenizer \<Rightarrow> token list" where
  "tokenize_all t = (case next_token t of (None, t') \<Rightarrow> [] | (Some tok, t') \<Rightarrow> tok # tokenize_all t')"
  by pat_completeness auto
termination
  by (relation "measure (\<lambda>t. length (tk_rest t))") (auto dest: next_token_shorter [OF sym])

declare tokenize_all.simps [simp del]

section \<open>Properties\<close>

text \<open>
  C23: The tokenizer ends on every input, also with unbalanced parentheses, unterminated strings and
  any number of comment lines: every token takes at least one octet of the text, so a text has at
  most as many tokens as octets.\<close>

theorem tokens_bounded: "length (tokenize_all t) \<le> length (tk_rest t)"
proof (induction t rule: tokenize_all.induct)
  case (1 t)
  then show ?case
  proof (cases "next_token t")
    case (Pair tok t')
    show ?thesis
    proof (cases tok)
      case (Some x)
      with Pair have token: "next_token t = (Some x, t')" by simp
      have "length (tokenize_all t') \<le> length (tk_rest t')" by (rule 1 [OF token [symmetric] refl])
      then show ?thesis using next_token_shorter [OF token] by (simp add: tokenize_all.simps [of t] token)
    qed (simp add: tokenize_all.simps [of t] Pair)
  qed
qed

end
