(* ===== verification/Zone_Text.thy ===== *)
theory Zone_Text
  imports Rdata_Text Zone_Tokenizer Zone_Diff
begin

text \<open>
  \<open>zone/parser/record.rs\<close> and \<open>zone/serializer.rs\<close>: a zone file is read line by line into a
  parse state, and a zone is written as a zone file. The resolver of \<open>$INCLUDE\<close> is a parameter: it
  answers the text of a file or an error. Panics of the record parsers are values
  (\<open>Dnssec_Time\<close>); no other step panics.
\<close>

section \<open>Words of a record line\<close>

definition max_include_depth :: nat where "max_include_depth = 16"
definition max_zone_input_bytes :: nat where "max_zone_input_bytes = 256 * 1024 * 1024"
definition max_zone_records :: nat where "max_zone_records = 16 * 1024 * 1024"

definition is_class :: "string \<Rightarrow> record_class option" where
  "is_class word =
     (if word = ''IN'' \<or> word = ''in'' then Some IN
      else if word = ''CH'' \<or> word = ''ch'' then Some CH
      else if word = ''HS'' \<or> word = ''hs'' then Some HS
      else None)"

definition is_record_type :: "string \<Rightarrow> bool" where
  "is_record_type word \<longleftrightarrow>
     word \<in> {''A'', ''AAAA'', ''CNAME'', ''NS'', ''PTR'', ''SOA'', ''MX'', ''TXT'', ''SRV'', ''CAA'', ''DNSKEY'',
       ''RRSIG'', ''NSEC'', ''NSEC3'', ''DS'', ''CDS'', ''CDNSKEY'', ''TLSA'', ''SSHFP'', ''CSYNC'', ''RP''}
     \<or> starts_with ''TYPE'' word"

definition is_ttl :: "string \<Rightarrow> bool" where
  "is_ttl word \<longleftrightarrow> word \<noteq> [] \<and> list_all is_ascii_digit word"

definition ends_with_dot :: "string \<Rightarrow> bool" where
  "ends_with_dot s \<longleftrightarrow> s \<noteq> [] \<and> last s = dot"

text \<open>\<open>resolve_owner\<close> is the same function as \<open>resolve_name\<close>.\<close>

definition resolve_owner :: "string \<Rightarrow> domain_name \<Rightarrow> core_error + domain_name" where
  "resolve_owner token origin =
     (if token = ''@'' then Inr origin
      else if ends_with_dot token then domain_new token
      else domain_new (token @ ''.'' @ name_display origin))"

fun token_as_str :: "token \<Rightarrow> string" where
  "token_as_str (Word w) = w"
| "token_as_str (QuotedString s) = s"
| "token_as_str (Directive d) = d"
| "token_as_str _ = []"

section \<open>The parse state\<close>

record parse_state =
  ps_origin :: "domain_name option"
  ps_zone_origin :: "domain_name option"
  ps_default_ttl :: "ttl option"
  ps_default_class :: record_class
  ps_last_owner :: "domain_name option"
  ps_records :: "resource_record list"

text \<open>What \<open>$INCLUDE\<close> does with the text of the file: the parser one level deeper.\<close>

type_synonym include_parser = "string \<Rightarrow> parse_state \<Rightarrow> core_error fault + parse_state"

definition line_error :: "u32 \<Rightarrow> string \<Rightarrow> core_error + 'a" where
  "line_error line reason = Inl (ZoneParse line None reason)"

text \<open>The origin a directive names: \<open>what\<close> is the directive, for the messages.\<close>

definition directive_origin :: "u32 \<Rightarrow> string \<Rightarrow> string \<Rightarrow> string \<Rightarrow> parse_state \<Rightarrow> core_error + domain_name" where
  "directive_origin line what missing name_str st =
     (let invalid = map_err (\<lambda>e. ZoneParse line None
            (''invalid '' @ what @ '' `'' @ name_str @ ''`: '' @ core_error_display e))
      in if ends_with_dot name_str then invalid (domain_new name_str)
         else case ps_origin st of
             None \<Rightarrow> line_error line missing
           | Some current \<Rightarrow> invalid (resolve_owner name_str current))"

definition process_origin :: "token list \<Rightarrow> u32 \<Rightarrow> parse_state \<Rightarrow> core_error + parse_state" where
  "process_origin tokens line st =
     (case tokens of
        _ # t # _ \<Rightarrow>
          rmap (\<lambda>origin. st\<lparr>ps_origin := Some origin,
                  ps_zone_origin := (case ps_zone_origin st of None \<Rightarrow> Some origin | Some z \<Rightarrow> Some z)\<rparr>)
            (directive_origin line ''$ORIGIN'' ''relative $ORIGIN requires an existing origin'' (token_as_str t) st)
      | _ \<Rightarrow> line_error line ''$ORIGIN requires a domain name argument'')"

definition process_ttl :: "token list \<Rightarrow> u32 \<Rightarrow> parse_state \<Rightarrow> core_error + parse_state" where
  "process_ttl tokens line st =
     (case tokens of
        _ # t # _ \<Rightarrow>
          rbind (ok_or (ZoneParse line None (''invalid $TTL `'' @ token_as_str t @ ''`'')) (parse_u32 (token_as_str t))) (\<lambda>v.
          rmap (\<lambda>ttl. st\<lparr>ps_default_ttl := Some ttl\<rparr>)
            (map_err (\<lambda>e. ZoneParse line None (''invalid $TTL value: '' @ core_error_display e)) (ttl_new v)))
      | _ \<Rightarrow> line_error line ''$TTL requires a value'')"

definition process_include ::
  "(string \<Rightarrow> core_error + string) option \<Rightarrow> include_parser \<Rightarrow> token list \<Rightarrow> u32 \<Rightarrow> parse_state
     \<Rightarrow> core_error fault + parse_state" where
  "process_include resolver include tokens line st =
     (case resolver of
        None \<Rightarrow> map_err Failed (line_error line ''$INCLUDE directive not supported without a resolver'')
      | Some resolve \<Rightarrow>
          (case tokens of
             _ # t # ts \<Rightarrow>
               rbind (map_err Failed (resolve (token_as_str t))) (\<lambda>content.
               rbind (case ts of
                   [] \<Rightarrow> Inr st
                 | o' # _ \<Rightarrow> map_err Failed (rmap (\<lambda>origin. st\<lparr>ps_origin := Some origin\<rparr>)
                     (directive_origin line ''$INCLUDE origin'' ''relative $INCLUDE origin requires an existing origin''
                        (token_as_str o') st))) (\<lambda>inner.
               rmap (\<lambda>result. result\<lparr>ps_origin := ps_origin st, ps_last_owner := ps_last_owner st\<rparr>)
                 (include content inner)))
           | _ \<Rightarrow> map_err Failed (line_error line ''$INCLUDE requires a file path'')))"

section \<open>Record lines\<close>

text \<open>The owner name, and the words after it. The line has a first word.\<close>

definition line_owner :: "u32 \<Rightarrow> string list \<Rightarrow> parse_state \<Rightarrow> core_error + domain_name \<times> string list" where
  "line_owner line ws st =
     (let inherited = ok_or (ZoneParse line None ''inherited owner name but no previous owner'') (ps_last_owner st);
          w = hd ws
      in if w = [] then rmap (\<lambda>owner. (owner, tl ws)) inherited
         else if is_class w \<noteq> None \<or> is_record_type w \<or> is_ttl w then rmap (\<lambda>owner. (owner, ws)) inherited
         else if ends_with_dot w then
           map_err (\<lambda>e. ZoneParse line None (''invalid owner name `'' @ w @ ''`: '' @ core_error_display e))
             (rmap (\<lambda>owner. (owner, tl ws)) (domain_new w))
         else if w = ''@'' then
           rmap (\<lambda>owner. (owner, tl ws)) (ok_or (ZoneParse line None ''@ used but no $ORIGIN set'') (ps_origin st))
         else
           rbind (ok_or (ZoneParse line None
               ''relative name used before $ORIGIN; set $ORIGIN or use absolute owner names'') (ps_origin st)) (\<lambda>origin.
           rmap (\<lambda>owner. (owner, tl ws)) (resolve_owner w origin)))"

text \<open>The loop that takes a TTL and a class in either order: at most \<open>k\<close> of them.\<close>

fun ttl_and_class ::
  "u32 \<Rightarrow> nat \<Rightarrow> ttl option \<Rightarrow> record_class option \<Rightarrow> string list
     \<Rightarrow> core_error + ttl option \<times> record_class option \<times> string list" where
  "ttl_and_class line 0 ttl class ws = Inr (ttl, class, ws)"
| "ttl_and_class line (Suc k) ttl class [] = Inr (ttl, class, [])"
| "ttl_and_class line (Suc k) ttl class (w # ws) =
     (if class = None \<and> is_class w \<noteq> None then ttl_and_class line k ttl (is_class w) ws
      else if ttl = None \<and> is_ttl w then
        rbind (ok_or (ZoneParse line None (''invalid TTL `'' @ w @ ''`'')) (parse_u32 w)) (\<lambda>v.
        rbind (map_err (\<lambda>e. ZoneParse line None (''invalid TTL value: '' @ core_error_display e)) (ttl_new v)) (\<lambda>t.
        ttl_and_class line k (Some t) class ws))
      else Inr (ttl, class, w # ws))"

text \<open>The line number of an error of the record data parser.\<close>

fun at_line :: "u32 \<Rightarrow> core_error fault \<Rightarrow> core_error fault" where
  "at_line line (Failed (ZoneParse _ _ reason)) = Failed (ZoneParse line None reason)"
| "at_line line e = e"

definition process_record :: "zone_codecs \<Rightarrow> string list \<Rightarrow> u32 \<Rightarrow> parse_state \<Rightarrow> core_error fault + parse_state" where
  "process_record lib ws line st =
     rbind (map_err Failed (line_owner line ws st)) (\<lambda>(owner, ws).
     rbind (map_err Failed (ttl_and_class line 2 None None ws)) (\<lambda>(record_ttl, record_class, ws).
     case ws of
       [] \<Rightarrow> map_err Failed (line_error line ''expected record type'')
     | w # ws \<Rightarrow>
         rbind (map_err (at_line line) (parse_rdata lib (upper_text w) ws
             (case ps_origin st of Some origin \<Rightarrow> origin | None \<Rightarrow> owner))) (\<lambda>rdata.
         rbind (map_err Failed (ok_or (ZoneParse line None ''no TTL specified and no $TTL default set'')
             (case record_ttl of Some t \<Rightarrow> Some t | None \<Rightarrow> ps_default_ttl st))) (\<lambda>ttl.
         let class = (case record_class of Some c \<Rightarrow> c | None \<Rightarrow> ps_default_class st)
         in Inr (st\<lparr>ps_last_owner := Some owner, ps_default_class := class,
              ps_records := ps_records st @ [\<lparr>rr_name = owner, rr_class = class, rr_ttl = ttl, rr_rdata = rdata\<rparr>]\<rparr>)))))"

definition process_line ::
  "zone_codecs \<Rightarrow> (string \<Rightarrow> core_error + string) option \<Rightarrow> include_parser \<Rightarrow> token list \<Rightarrow> u32 \<Rightarrow> parse_state
     \<Rightarrow> core_error fault + parse_state" where
  "process_line lib resolver include tokens line st =
     (case tokens of
        [] \<Rightarrow> Inr st
      | Directive d # _ \<Rightarrow>
          (if d = ''$ORIGIN'' then map_err Failed (process_origin tokens line st)
           else if d = ''$TTL'' then map_err Failed (process_ttl tokens line st)
           else if d = ''$INCLUDE'' then process_include resolver include tokens line st
           else map_err Failed (line_error line (''unknown directive `'' @ d @ ''`'')))
      | _ \<Rightarrow> process_record lib (map token_as_str tokens) line st)"

section \<open>Files\<close>

text \<open>The loop over the tokens: \<open>current\<close> holds those of the line that starts at \<open>record_line\<close>.\<close>

function parse_lines ::
  "(token list \<Rightarrow> u32 \<Rightarrow> parse_state \<Rightarrow> core_error fault + parse_state) \<Rightarrow> tokenizer \<Rightarrow> token list \<Rightarrow> u32 \<Rightarrow> parse_state
     \<Rightarrow> core_error fault + parse_state" where
  "parse_lines process tok current record_line st =
     (case next_token tok of
        (None, tok') \<Rightarrow> (if current \<noteq> [] then process current record_line st else Inr st)
      | (Some t, tok') \<Rightarrow>
          (if t = Newline then
             rbind (if current \<noteq> [] then process current record_line st else Inr st) (\<lambda>st.
             if length (ps_records st) > max_zone_records then
               map_err Failed (line_error record_line
                 (''zone exceeds the maximum of '' @ show_nat max_zone_records @ '' records''))
             else parse_lines process tok' [] (tk_line tok') st)
           else if t = ParenOpen \<or> t = ParenClose then parse_lines process tok' current record_line st
           else parse_lines process tok' (current @ [t]) record_line st))"
  by pat_completeness auto
termination
  by (relation "measure (\<lambda>(process, tok, current, record_line, st). length (tk_rest tok))")
     (auto dest: next_token_shorter [OF sym])

declare parse_lines.simps [simp del]

text \<open>
  \<open>parse_into\<close> at include depth \<open>17 - left\<close>: the argument counts the levels that are left, and
  at depth 17 the code refuses.
\<close>

fun parse_into ::
  "zone_codecs \<Rightarrow> (string \<Rightarrow> core_error + string) option \<Rightarrow> nat \<Rightarrow> string \<Rightarrow> parse_state
     \<Rightarrow> core_error fault + parse_state" where
  "parse_into lib resolver 0 input st =
     map_err Failed (line_error 1 (''$INCLUDE include depth exceeds maximum of '' @ show_nat max_include_depth))"
| "parse_into lib resolver (Suc left) input st =
     (if length input > max_zone_input_bytes then
        map_err Failed (line_error 1 (''zone input of '' @ show_nat (length input)
          @ '' bytes exceeds the maximum of '' @ show_nat max_zone_input_bytes @ '' bytes''))
      else parse_lines (process_line lib resolver (parse_into lib resolver left)) (tokenizer_new input) [] 1 st)"

definition parse_state_new :: parse_state where
  "parse_state_new = \<lparr>ps_origin = None, ps_zone_origin = None, ps_default_ttl = None, ps_default_class = IN,
     ps_last_owner = None, ps_records = []\<rparr>"

definition parse_zone :: "zone_codecs \<Rightarrow> (string \<Rightarrow> core_error + string) option \<Rightarrow> string \<Rightarrow> core_error fault + zone_file" where
  "parse_zone lib resolver input =
     rbind (parse_into lib resolver (Suc max_include_depth) input parse_state_new) (\<lambda>st.
     rmap (\<lambda>origin. \<lparr>zf_origin = origin, zf_default_ttl = ps_default_ttl st,
             zf_zone = \<lparr>zone_name = origin, zone_class = ps_default_class st, zone_records = ps_records st\<rparr>\<rparr>)
       (case ps_zone_origin st of
          Some origin \<Rightarrow> Inr origin
        | None \<Rightarrow> map_err Failed (ok_or (ZoneParse 1 None ''no $ORIGIN directive and no SOA record found'')
            (map_option rr_name (List.find is_soa (ps_records st))))))"

definition zone_file_parse :: "zone_codecs \<Rightarrow> string \<Rightarrow> core_error fault + zone_file" where
  "zone_file_parse lib input = parse_zone lib None input"

definition parse_with_includes :: "zone_codecs \<Rightarrow> (string \<Rightarrow> core_error + string) \<Rightarrow> string \<Rightarrow> core_error fault + zone_file" where
  "parse_with_includes lib resolver input = parse_zone lib (Some resolver) input"

section \<open>Serializer\<close>

definition tab :: string where "tab = [CHR 0x09]"

fun serialize_records :: "zone_codecs \<Rightarrow> domain_name option \<Rightarrow> resource_record list \<Rightarrow> string" where
  "serialize_records lib last_owner [] = []"
| "serialize_records lib last_owner (rr # rrs) =
     (case last_owner of Some n \<Rightarrow> (if name_eq n (rr_name rr) then [] else name_display (rr_name rr))
        | None \<Rightarrow> name_display (rr_name rr))
     @ tab @ show_u (ttl_value (rr_ttl rr)) @ tab @ class_display (rr_class rr) @ tab
     @ rdata_type_string (rr_rdata rr) @ tab @ serialize_rdata lib (rr_rdata rr) @ [lf]
     @ serialize_records lib (Some (rr_name rr)) rrs"

definition serialize_zone :: "zone_codecs \<Rightarrow> zone_file \<Rightarrow> string" where
  "serialize_zone lib zf =
     ''$ORIGIN '' @ name_display (zf_origin zf) @ [lf]
     @ (case zf_default_ttl zf of None \<Rightarrow> [] | Some ttl \<Rightarrow> ''$TTL '' @ show_u (ttl_value ttl) @ [lf])
     @ serialize_records lib None (zone_records (zf_zone zf))"

end
