(* ===== verification/Zone_Roundtrip.thy ===== *)
theory Zone_Roundtrip
  imports Zone_Text
begin

text \<open>
  The zone file text round trip: what the serializer writes is what the parser reads. The lines
  of a written file are cut into the words the serializer put there (\<open>lexes\<close>), and each line
  gives its record back.
\<close>

section \<open>Words that are one token\<close>

text \<open>Text the word scanner reads to its end: delimiters only after a backslash.\<close>

fun bare :: "string \<Rightarrow> bool" where
  "bare [] = True"
| "bare [b] \<longleftrightarrow> \<not> is_delimiter b \<and> b \<noteq> backslash"
| "bare (b # c # s) = (if b = backslash then bare s else \<not> is_delimiter b \<and> bare (c # s))"

definition bare_word :: "string \<Rightarrow> bool" where
  "bare_word w \<longleftrightarrow> w \<noteq> [] \<and> bare w \<and> last w \<noteq> lf"

definition plain_char :: "char \<Rightarrow> bool" where
  "plain_char c \<longleftrightarrow> \<not> is_delimiter c \<and> c \<noteq> backslash"

lemma scan_word_delimiter: "is_delimiter d \<Longrightarrow> scan_word (d # r) = ([], d # r)"
  by (cases r) simp_all

lemma scan_word_bare: "bare w \<Longrightarrow> is_delimiter d \<Longrightarrow> scan_word (w @ d # r) = (w, d # r)"
proof (induction w rule: bare.induct)
  case 1
  then show ?case by (simp add: scan_word_delimiter)
next
  case (2 b)
  then show ?case by (simp add: scan_word_delimiter)
next
  case (3 b c s)
  then show ?case by (cases "b = backslash") (simp_all add: is_delimiter_def is_blank_def)
qed

lemma plain_bare: "list_all plain_char w \<Longrightarrow> bare w"
  by (induction w rule: bare.induct) (auto simp: plain_char_def)

lemma plain_bare_word: "list_all plain_char w \<Longrightarrow> w \<noteq> [] \<Longrightarrow> bare_word w"
  using plain_bare [of w] last_in_set [of w] by (auto simp: bare_word_def list_all_iff plain_char_def is_delimiter_def)

lemma bare_start: "bare w \<Longrightarrow> w = c # s \<Longrightarrow> \<not> is_delimiter c"
  by (cases w rule: bare.cases) (auto simp: is_delimiter_def is_blank_def split: if_splits)

lemma next_token_bare:
  assumes "bare_word w" "is_delimiter d" "tk_rest t = w @ d # r"
  shows "next_token t = (Some (word_token w), t\<lparr>tk_line_start := False, tk_rest := d # r\<rparr>)"
proof -
  obtain c s where w: "w = c # s" using assms(1) by (cases w) (auto simp: bare_word_def)
  have c: "\<not> is_delimiter c" using assms(1) bare_start [OF _ w] by (simp add: bare_word_def)
  then have "dropWhile is_blank (tk_rest t) = c # s @ d # r" by (simp add: assms(3) w is_delimiter_def)
  moreover have "scan_word (c # s @ d # r) = (w, d # r)"
    using scan_word_bare [of w d r] assms(1,2) by (simp add: w bare_word_def)
  ultimately show ?thesis
    using c assms(1) by (simp add: next_token.simps [of t] is_delimiter_def bare_word_def assms(3) w)
qed

lemma next_token_blank:
  assumes "\<not> tk_line_start t" "is_blank b" "tk_rest t = b # s"
  shows "next_token t = next_token (t\<lparr>tk_rest := s\<rparr>)"
proof (cases t)
  case (fields l rest n p)
  let ?t = "\<lambda>s. \<lparr>tk_line_start = False, tk_rest = s, tk_line = n, tk_parens = p\<rparr>"
  have "next_token (?t (b # s)) = next_token (?t s)"
    by (subst (1 2) next_token.simps) (simp only: tokenizer.simps dropWhile.simps assms(2) if_True simp_thms)
  with fields assms show ?thesis by simp
qed

lemma next_token_quoted:
  assumes "scan_quoted (q @ CHR 0x22 # d # r) = (v, d # r)" "tk_rest t = CHR 0x22 # q @ CHR 0x22 # d # r"
  shows "next_token t = (Some (QuotedString v), t\<lparr>tk_line_start := False, tk_rest := d # r\<rparr>)"
  using assms by (simp add: next_token.simps [of t] is_blank_def)

section \<open>Texts and their words\<close>

definition content_token :: "token \<Rightarrow> bool" where
  "content_token t \<longleftrightarrow> t \<noteq> Newline \<and> t \<noteq> ParenOpen \<and> t \<noteq> ParenClose"

text \<open>Inside a line, the text up to a delimiter is cut into tokens with these contents.\<close>

definition lexes :: "string \<Rightarrow> string list \<Rightarrow> bool" where
  "lexes s ws \<longleftrightarrow> (\<exists>toks. map token_as_str toks = ws \<and> list_all content_token toks
     \<and> (\<forall>process t current line st d r. \<not> tk_line_start t \<longrightarrow> is_delimiter d \<longrightarrow> tk_rest t = s @ d # r \<longrightarrow>
          parse_lines process t current line st
          = parse_lines process (t\<lparr>tk_rest := d # r\<rparr>) (current @ toks) line st))"

lemma content_word [simp]: "content_token (word_token w)" "token_as_str (word_token w) = w"
  "content_token (QuotedString v)" "content_token (Word v)" "content_token (Directive v)"
  by (simp_all add: word_token_def content_token_def)

lemma parse_lines_content:
  assumes "next_token t = (Some tok, t')" "content_token tok"
  shows "parse_lines process t current line st = parse_lines process t' (current @ [tok]) line st"
  using assms by (simp add: parse_lines.simps [of process t] content_token_def)

lemma tokenizer_keep: "\<not> tk_line_start t \<Longrightarrow> t\<lparr>tk_line_start := False, tk_rest := s\<rparr> = t\<lparr>tk_rest := s\<rparr>"
  by (cases t) simp

lemma lexes_word: "bare_word w \<Longrightarrow> lexes w [w]"
  unfolding lexes_def
  by (rule exI [of _ "[word_token w]"])
    (auto simp: parse_lines_content [OF next_token_bare] tokenizer_keep)

lemma lexes_blank:
  assumes "is_blank b" "lexes s ws"
  shows "lexes (b # s) ws"
proof -
  have "parse_lines process t current line st = parse_lines process (t\<lparr>tk_rest := s @ d # r\<rparr>) current line st"
    if "\<not> tk_line_start t" "tk_rest t = (b # s) @ d # r" for process t current line st d r
  proof -
    have "next_token t = next_token (t\<lparr>tk_rest := s @ d # r\<rparr>)"
      using that assms(1) by (intro next_token_blank [where b = b]) simp_all
    then show ?thesis
      by (simp only: parse_lines.simps [of process t current line st]
          parse_lines.simps [of process "t\<lparr>tk_rest := s @ d # r\<rparr>" current line st])
  qed
  with assms(2) show ?thesis unfolding lexes_def by (elim ex_forward conj_forward) auto
qed

lemma lexes_append:
  assumes "lexes s ws" "lexes (b # s') ws'" "is_blank b"
  shows "lexes (s @ b # s') (ws @ ws')"
proof -
  from assms(1,2) obtain toks toks' where
    "map token_as_str toks = ws" "list_all content_token toks" "map token_as_str toks' = ws'" "list_all content_token toks'"
    and one: "\<And>process t current line st d r. \<not> tk_line_start t \<Longrightarrow> is_delimiter d \<Longrightarrow> tk_rest t = s @ d # r \<Longrightarrow>
          parse_lines process t current line st = parse_lines process (t\<lparr>tk_rest := d # r\<rparr>) (current @ toks) line st"
    and two: "\<And>process t current line st d r. \<not> tk_line_start t \<Longrightarrow> is_delimiter d \<Longrightarrow> tk_rest t = (b # s') @ d # r \<Longrightarrow>
          parse_lines process t current line st = parse_lines process (t\<lparr>tk_rest := d # r\<rparr>) (current @ toks') line st"
    unfolding lexes_def by blast
  moreover have "parse_lines process t current line st
      = parse_lines process (t\<lparr>tk_rest := d # r\<rparr>) (current @ toks @ toks') line st"
    if "\<not> tk_line_start t" "is_delimiter d" "tk_rest t = (s @ b # s') @ d # r" for process t current line st d r
    using one [of t b "s' @ d # r" process current line st] two [of "t\<lparr>tk_rest := b # s' @ d # r\<rparr>" d r process "current @ toks" line st]
      that assms(3) by (simp add: is_delimiter_def)
  ultimately show ?thesis
    unfolding lexes_def by (intro exI [of _ "toks @ toks'"]) auto
qed

lemma lexes_cons: "bare_word w \<Longrightarrow> is_blank b \<Longrightarrow> lexes s ws \<Longrightarrow> lexes (w @ b # s) (w # ws)"
  using lexes_append [OF lexes_word lexes_blank] by simp

lemma lexes_quoted:
  assumes "\<And>d r. is_delimiter d \<Longrightarrow> scan_quoted (q @ CHR 0x22 # d # r) = (v, d # r)"
  shows "lexes (CHR 0x22 # q @ [CHR 0x22]) [v]"
  unfolding lexes_def
  by (rule exI [of _ "[QuotedString v]"])
    (auto simp: parse_lines_content [OF next_token_quoted [OF assms]] tokenizer_keep)

lemma blanks [simp]: "is_blank CHR '' ''" "is_blank CHR 0x09" "is_delimiter lf" "is_delimiter CHR '' ''" "is_delimiter CHR 0x09"
  by (simp_all add: is_blank_def is_delimiter_def)

lemma lexes_words:
  "list_all bare_word ws \<Longrightarrow> lexes s vs \<Longrightarrow> lexes (s @ concat (map (Cons CHR '' '') ws)) (vs @ ws)"
proof (induction ws rule: rev_induct)
  case (snoc w ws)
  then have "lexes ((s @ concat (map (Cons CHR '' '') ws)) @ CHR '' '' # w) ((vs @ ws) @ [w])"
    by (intro lexes_append lexes_blank lexes_word) simp_all
  then show ?case by simp
qed simp

section \<open>Printed fields are words\<close>

lemma digit_plain_char: "is_ascii_digit c \<Longrightarrow> plain_char c"
  by (auto simp: plain_char_def is_delimiter_def is_blank_def is_ascii_digit_def)

lemma digit16_plain_char: "to_digit 16 c \<noteq> None \<Longrightarrow> plain_char c"
  by (auto simp: plain_char_def is_delimiter_def is_blank_def to_digit_def)

lemma hex_plain_char: "d < 16 \<Longrightarrow> plain_char (hex_digit d)"
  by (simp add: digit16_plain_char to_digit_hex)

lemma codec_plain_char: "base64_char c \<Longrightarrow> plain_char c" "base32hex_char c \<Longrightarrow> plain_char c"
  by (auto simp: plain_char_def is_delimiter_def is_blank_def base64_char_def base32hex_char_def is_ascii_digit_def)

lemma bare_digits: "list_all is_ascii_digit s \<Longrightarrow> s \<noteq> [] \<Longrightarrow> bare_word s"
  by (rule plain_bare_word) (auto simp: list_all_iff digit_plain_char)

lemma bare_show: "bare_word (show_u w)" "bare_word (show_nat n)"
  using show_nat_digits by (auto simp: show_u_def intro: bare_digits)

lemma bare_hex: "bs \<noteq> [] \<Longrightarrow> bare_word (encode_hex bs)"
proof (rule plain_bare_word)
  show "list_all plain_char (encode_hex bs)"
    by (induction bs) (simp_all add: hex_plain_char byte_nibbles)
qed (metis length_encode_hex length_0_conv mult_eq_0_iff zero_neq_numeral)

lemma bare_salt: "bare_word (salt_text s)"
proof (cases "s = []")
  case True
  have "list_all plain_char ''-''" by (simp add: plain_char_def is_delimiter_def is_blank_def)
  with True show ?thesis by (simp add: salt_text_def plain_bare_word)
qed (simp add: salt_text_def bare_hex)

lemma bare_codec:
  assumes "zone_codecs_ok lib" "bs \<noteq> []"
  shows "bare_word (codec_encode (zc_base64 lib) bs)" "bare_word (codec_encode (zc_base32hex lib) bs)"
  using assms codec_plain_char
  by (auto simp: zone_codecs_ok_def codec_ok_def list_all_iff intro!: plain_bare_word)

lemma bare_type: "bare_word (record_type_display t)"
proof (rule plain_bare_word)
  have "list_all plain_char (show_nat n)" for n
    using show_nat_digits [of n] by (auto simp: list_all_iff digit_plain_char)
  then show "list_all plain_char (record_type_display t)"
    by (cases t) (simp_all add: plain_char_def is_delimiter_def is_blank_def)
qed (cases t; simp)

lemma pad_nat_digits: "list_all is_ascii_digit (pad_nat k n)"
  using show_nat_digits [of n] by (auto simp: pad_nat_def list_all_iff is_ascii_digit_def)

lemma bare_timestamp: "bare_word (format_timestamp ts)"
proof (rule bare_digits)
  obtain y m d where "date_from_days (unat ts div 86400) = (y, m, d)" by (metis prod_cases3)
  then show "list_all is_ascii_digit (format_timestamp ts)" "format_timestamp ts \<noteq> []"
    using pad_nat_digits show_nat_digits by (simp_all add: format_timestamp_def Let_def) (simp add: pad_nat_def)
qed

lemma plain_join: "list_all plain_char sep \<Longrightarrow> list_all (list_all plain_char) ws \<Longrightarrow> list_all plain_char (join_with sep ws)"
  by (induction sep ws rule: join_with.induct) simp_all

lemma show_nat_plain_char: "list_all plain_char (show_nat n)"
  using show_nat_digits [of n] by (auto simp: list_all_iff digit_plain_char)

lemma ipv4_plain_char: "list_all plain_char (ipv4_display a)"
  unfolding ipv4_display_def
  by (rule plain_join) (simp_all add: list_all_iff [of "list_all _"] show_nat_plain_char plain_char_def is_delimiter_def is_blank_def)

lemma bare_ipv4: "bare_word (ipv4_display a)"
proof (rule plain_bare_word)
  show "list_all plain_char (ipv4_display a)" by (rule ipv4_plain_char)
  show "ipv4_display a \<noteq> []" using parse_ipv4_display [of a] by (auto simp: parse_ipv4_def read_ipv4_addr_def eval_nat_numeral read_separator_def read_number_def)
qed

lemma show_hex_plain_char: "list_all plain_char (show_hex n)"
  using show_hex_digits [of n] by (auto simp: list_all_iff intro: digit16_plain_char)

lemma hex_groups_plain_char: "list_all plain_char (hex_groups gs)"
  unfolding hex_groups_def
  by (rule plain_join) (simp_all add: list_all_iff [of "list_all _"] show_hex_plain_char plain_char_def is_delimiter_def is_blank_def)

lemma bare_ipv6: "bare_word (ipv6_display a)"
proof (rule plain_bare_word)
  have "plain_char CHR '':''" "plain_char CHR ''f''" by (simp_all add: plain_char_def is_delimiter_def is_blank_def)
  then show "list_all plain_char (ipv6_display a)"
    using hex_groups_plain_char ipv4_plain_char
    by (simp add: ipv6_display_def Let_def split: prod.split)
  obtain g gs where "ipv6_segments a = g # gs"
    using ipv6_segments_props(1) [of a] by (cases "ipv6_segments a") simp_all
  then show "ipv6_display a \<noteq> []"
    using show_hex_digits [of g] by (auto simp: ipv6_display_def hex_groups_Cons Let_def split: prod.split)
qed

section \<open>Printed strings are quoted tokens\<close>

lemma scan_quoted_txt:
  "scan_quoted (concat (map txt_byte bs) @ r) = apfst (append (concat (map txt_token_byte bs))) (scan_quoted r)"
proof (induction bs)
  case Nil
  then show ?case by (cases "scan_quoted r") simp
next
  case (Cons b bs)
  let ?s = "concat (map txt_byte bs) @ r"
  have "scan_quoted (txt_byte b @ ?s) = apfst (append (txt_token_byte b)) (scan_quoted ?s)"
  proof -
    consider "unat b = 34 \<or> unat b = 92" | "unat b \<noteq> 34" "unat b \<noteq> 92" "0x20 \<le> unat b" "unat b \<le> 0x7e"
      | "\<not> (0x20 \<le> unat b \<and> unat b \<le> 0x7e)" by linarith
    then show ?thesis
    proof cases
      case 1
      then have "\<not> is_ascii_digit (char_of_byte b)" by (auto simp: is_ascii_digit_def)
      with 1 show ?thesis by (simp add: txt_byte_def txt_token_byte_def ddd_escape_no_digit byte_as_char_def) linarith
    next
      case 2
      then show ?thesis by (simp add: txt_byte_def txt_token_byte_def char_of_byte_eq byte_as_char_def)
    next
      case 3
      have n: "unat b < 1000" "unat b \<le> 255" using unat_byte_less [of b] by linarith+
      from 3 have "txt_byte b = backslash # pad_nat 3 (unat b)" by (auto simp: txt_byte_def)
      moreover have "pad_nat 3 (unat b) \<noteq> []" "take 3 (pad_nat 3 (unat b) @ ?s) = pad_nat 3 (unat b)"
        using pad_nat_ddd(2) [OF n(1)] by auto
      moreover have "(char_of (unat b) :: char) = char_of_byte b" by (simp add: char_of_byte_def)
      ultimately show ?thesis
        using pad_nat_ddd(1) [OF n(1), of ?s] n(2) by (simp add: txt_token_byte_def)
    qed
  qed
  with Cons show ?case by (cases "scan_quoted r") simp
qed

lemma lexes_txt: "lexes (CHR 0x22 # concat (map txt_byte (txt_bytes s)) @ [CHR 0x22]) [txt_token s]"
  unfolding txt_token_def by (rule lexes_quoted) (simp add: scan_quoted_txt)

lemma lexes_join:
  "list_all (\<lambda>x. lexes (f x) [g x]) xs \<Longrightarrow> xs \<noteq> [] \<Longrightarrow> lexes (join_with '' '' (map f xs)) (map g xs)"
proof (induction xs rule: induct_list012)
  case (3 x y xs)
  then have "lexes (f x @ CHR '' '' # join_with '' '' (map f (y # xs))) ([g x] @ map g (y # xs))"
    by (intro lexes_append lexes_blank) simp_all
  then show ?case by simp
qed simp_all

lemma lexes_serialize_txt: "ss \<noteq> [] \<Longrightarrow> lexes (serialize_txt ss) (map txt_token ss)"
  unfolding serialize_txt_def by (rule lexes_join) (simp_all add: lexes_txt list_all_iff)

text \<open>Text that a quoted string prints as it is.\<close>

definition quotable :: "string \<Rightarrow> bool" where
  "quotable s \<longleftrightarrow> list_all (\<lambda>c. code_of c < 128 \<and> c \<noteq> CHR 0x22 \<and> c \<noteq> backslash) s"

lemma scan_quotable: "quotable v \<Longrightarrow> scan_quoted (v @ CHR 0x22 # r) = (v, r)"
  by (induction v) (auto simp: quotable_def byte_as_char_def)

lemma lexes_quotable: "quotable v \<Longrightarrow> lexes (CHR 0x22 # v @ [CHR 0x22]) [v]"
  by (rule lexes_quoted) (simp add: scan_quotable)

lemma join_empty: "list_all (\<lambda>w. w \<noteq> []) ws \<Longrightarrow> join_with sep ws = [] \<longleftrightarrow> ws = []"
  by (induction sep ws rule: join_with.induct) auto

lemma type_words_nonempty: "decode_type_bitmap b = [] \<longleftrightarrow> type_words b = []"
  unfolding decode_type_bitmap_def using bare_type
  by (intro join_empty) (auto simp: type_words_def list_all_iff bare_word_def)

lemma join_words: "ws \<noteq> [] \<Longrightarrow> CHR '' '' # join_with '' '' ws = concat (map (Cons CHR '' '') ws)"
  by (induction "'' ''" ws rule: join_with.induct) simp_all

lemma with_types_words: "with_types prefix b = prefix @ concat (map (Cons CHR '' '') (type_words b))"
  using join_words [of "type_words b"] type_words_nonempty [of b]
  by (auto simp: with_types_def Let_def decode_type_bitmap_def)

lemma lexes_types: "lexes s vs \<Longrightarrow> lexes (with_types s b) (vs @ type_words b)"
  unfolding with_types_words by (rule lexes_words) (simp_all add: type_words_def list_all_iff bare_type)

section \<open>Record data as words\<close>

text \<open>Names and strings that print as one token.\<close>

fun word_names :: "rdata \<Rightarrow> bool" where
  "word_names (RD_Ns n) = bare_word (name_display n)"
| "word_names (RD_Cname n) = bare_word (name_display n)"
| "word_names (RD_Ptr n) = bare_word (name_display n)"
| "word_names (RD_Soa m r s a b c d) \<longleftrightarrow> bare_word (name_display m) \<and> bare_word (name_display r)"
| "word_names (RD_Mx p n) = bare_word (name_display n)"
| "word_names (RD_Srv a b c n) = bare_word (name_display n)"
| "word_names (RD_Caa f tag v) \<longleftrightarrow> bare_word tag \<and> quotable v"
| "word_names (RD_Rrsig c a l o' e i t n sg) = bare_word (name_display n)"
| "word_names (RD_Nsec n b) = bare_word (name_display n)"
| "word_names (RD_Rp m t) \<longleftrightarrow> bare_word (name_display m) \<and> bare_word (name_display t)"
| "word_names _ = True"

lemma lexes_key:
  "zone_codecs_ok lib \<Longrightarrow> k \<noteq> [] \<Longrightarrow>
     lexes (serialize_key lib f p a k) [show_u f, show_u p, show_u a, codec_encode (zc_base64 lib) k]"
  by (simp add: serialize_key_def lexes_cons lexes_word bare_show bare_codec)

lemma lexes_ds:
  "h \<noteq> [] \<Longrightarrow> lexes (serialize_ds t a d h) [show_u t, show_u a, show_u d, encode_hex h]"
  by (simp add: serialize_ds_def lexes_cons lexes_word bare_show bare_hex)

lemma lexes_unknown: "lexes (serialize_unknown bs) (rdata_tokens lib (RD_Unknown t bs))"
proof -
  have generic: "bare_word [backslash, CHR ''#'']" by (simp add: bare_word_def)
  have zero: "bare_word ''0''" by (rule bare_digits) (simp_all add: is_ascii_digit_def)
  have "lexes ([backslash, CHR ''#''] @ CHR '' '' # ''0'') [[backslash, CHR ''#''], ''0'']"
    by (intro lexes_cons lexes_word generic zero) simp
  moreover have "lexes ([backslash, CHR ''#''] @ CHR '' '' # (show_nat (length bs) @ CHR '' '' # encode_hex bs))
      [[backslash, CHR ''#''], show_nat (length bs), encode_hex bs]" if "bs \<noteq> []"
    by (intro lexes_cons lexes_word generic bare_show bare_hex that) simp_all
  ultimately show ?thesis by (simp add: serialize_unknown_def del: encode_hex_Cons)
qed

lemmas lexes_fields = lexes_cons lexes_word bare_show bare_hex bare_salt bare_codec bare_type bare_timestamp
  bare_ipv4 bare_ipv6 lexes_key lexes_ds lexes_quotable

lemma lexes_rdata:
  assumes "zone_codecs_ok lib" "printable_rdata rd" "word_names rd"
  shows "lexes (serialize_rdata lib rd) (rdata_tokens lib rd)"
proof (cases rd)
  case (RD_Unknown t bs)
  then show ?thesis using lexes_unknown by simp
next
  case (RD_Txt ss)
  then show ?thesis using assms lexes_serialize_txt by simp
next
  case (RD_Nsec n b)
  then show ?thesis using assms lexes_types [OF lexes_word] by simp
next
  case (RD_Nsec3 h f i s n b)
  have "lexes (show_u h @ '' '' @ show_u f @ '' '' @ show_u i @ '' '' @ salt_text s @ '' ''
      @ codec_encode (zc_base32hex lib) n) [show_u h, show_u f, show_u i, salt_text s, codec_encode (zc_base32hex lib) n]"
    using assms RD_Nsec3 by (simp add: lexes_fields)
  then show ?thesis unfolding RD_Nsec3 serialize_rdata.simps rdata_tokens.simps by (rule lexes_types)
next
  case (RD_Csync s f b)
  have "lexes (show_u s @ '' '' @ show_u f) [show_u s, show_u f]" by (simp add: lexes_fields)
  then show ?thesis unfolding RD_Csync serialize_rdata.simps rdata_tokens.simps by (rule lexes_types)
qed (use assms in \<open>simp_all add: lexes_fields\<close>)

section \<open>Lines\<close>

definition next_line :: "tokenizer \<Rightarrow> string \<Rightarrow> tokenizer" where
  "next_line t r = t\<lparr>tk_line_start := True, tk_rest := r, tk_line := tk_line t + 1\<rparr>"

text \<open>What the loop does at the end of a line.\<close>

definition end_line ::
  "(token list \<Rightarrow> u32 \<Rightarrow> parse_state \<Rightarrow> core_error fault + parse_state) \<Rightarrow> tokenizer \<Rightarrow> u32
     \<Rightarrow> core_error fault + parse_state \<Rightarrow> core_error fault + parse_state" where
  "end_line process t line result =
     rbind result (\<lambda>st.
       if length (ps_records st) > max_zone_records then
         map_err Failed (line_error line
           (''zone exceeds the maximum of '' @ show_nat max_zone_records @ '' records''))
       else parse_lines process t [] (tk_line t) st)"

lemma next_token_newline:
  "\<not> tk_line_start t \<Longrightarrow> \<not> tk_parens t \<Longrightarrow> tk_rest t = lf # r \<Longrightarrow> next_token t = (Some Newline, next_line t r)"
  by (simp add: next_token.simps [of t] is_blank_def next_line_def)

lemma line_words:
  assumes "lexes s ws" "\<not> tk_line_start t" "\<not> tk_parens t" "tk_rest t = s @ lf # r" "current \<noteq> []"
  shows "\<exists>toks. map token_as_str toks = ws \<and>
    parse_lines process t current line st = end_line process (next_line t r) line (process (current @ toks) line st)"
proof -
  from assms(1) obtain toks where toks: "map token_as_str toks = ws"
    and "\<And>process t current line st d r. \<not> tk_line_start t \<Longrightarrow> is_delimiter d \<Longrightarrow> tk_rest t = s @ d # r \<Longrightarrow>
          parse_lines process t current line st = parse_lines process (t\<lparr>tk_rest := d # r\<rparr>) (current @ toks) line st"
    unfolding lexes_def by blast
  from this(2) [OF assms(2) _ assms(4)]
  have step: "parse_lines process t current line st = parse_lines process (t\<lparr>tk_rest := lf # r\<rparr>) (current @ toks) line st"
    by simp
  have newline: "next_token (t\<lparr>tk_rest := lf # r\<rparr>) = (Some Newline, next_line t r)"
    using assms(2,3) next_token_newline [of "t\<lparr>tk_rest := lf # r\<rparr>" r] by (simp add: next_line_def)
  have "parse_lines process t current line st = end_line process (next_line t r) line (process (current @ toks) line st)"
    using assms(5) unfolding step
    by (simp add: parse_lines.simps [of process "t\<lparr>tk_rest := lf # r\<rparr>"] newline end_line_def)
  with toks show ?thesis by blast
qed

text \<open>A line that starts with a word, and one that starts with a blank.\<close>

lemma named_line:
  assumes "bare_word w" "lexes s ws" "is_blank b" "\<not> tk_parens t" "tk_rest t = w @ b # s @ lf # r"
  shows "\<exists>toks. map token_as_str toks = ws \<and>
    parse_lines process t [] line st = end_line process (next_line t r) line (process (word_token w # toks) line st)"
proof -
  let ?t = "t\<lparr>tk_line_start := False, tk_rest := b # s @ lf # r\<rparr>"
  have "next_token t = (Some (word_token w), ?t)"
    using assms(1,3,5) by (intro next_token_bare) (simp_all add: is_delimiter_def)
  then have "parse_lines process t [] line st = parse_lines process ?t [word_token w] line st"
    by (simp add: parse_lines_content)
  moreover have "next_line ?t r = next_line t r" by (simp add: next_line_def)
  ultimately show ?thesis
    using line_words [OF lexes_blank [OF assms(3,2)], of ?t r "[word_token w]" process line st] assms(4) by simp
qed

lemma inherited_line:
  assumes "lexes s ws" "is_blank b" "tk_line_start t" "\<not> tk_parens t" "tk_rest t = b # s @ lf # r"
    and "s = c # s'" "\<not> is_delimiter c"
  shows "\<exists>toks. map token_as_str toks = ws \<and>
    parse_lines process t [] line st = end_line process (next_line t r) line (process (Word [] # toks) line st)"
proof -
  let ?t = "t\<lparr>tk_line_start := False, tk_rest := s @ lf # r\<rparr>"
  have "next_token t = (Some (Word []), ?t)"
    using assms by (simp add: next_token.simps [of t] is_delimiter_def)
  then have "parse_lines process t [] line st = parse_lines process ?t [Word []] line st"
    by (simp add: parse_lines_content)
  moreover have "next_line ?t r = next_line t r" by (simp add: next_line_def)
  ultimately show ?thesis
    using line_words [OF assms(1), of ?t r "[Word []]" process line st] assms(4) by simp
qed

section \<open>Record lines\<close>

definition printable_rr :: "resource_record \<Rightarrow> bool" where
  "printable_rr rr \<longleftrightarrow>
     name_wf (rr_name rr) \<and> bare_word (name_display (rr_name rr))
     \<and> \<not> starts_with ''$'' (name_display (rr_name rr)) \<and> \<not> starts_with ''TYPE'' (name_display (rr_name rr))
     \<and> ttl_wf (rr_ttl rr) \<and> rr_class rr \<in> {IN, CH, HS}
     \<and> printable_rdata (rr_rdata rr) \<and> word_names (rr_rdata rr)"

definition record_words :: "zone_codecs \<Rightarrow> resource_record \<Rightarrow> string list" where
  "record_words lib rr = [show_u (ttl_value (rr_ttl rr)), class_display (rr_class rr), rdata_type_string (rr_rdata rr)]
     @ rdata_tokens lib (rr_rdata rr)"

definition record_text :: "zone_codecs \<Rightarrow> resource_record \<Rightarrow> string" where
  "record_text lib rr = show_u (ttl_value (rr_ttl rr)) @ tab @ class_display (rr_class rr) @ tab
     @ rdata_type_string (rr_rdata rr) @ tab @ serialize_rdata lib (rr_rdata rr)"

lemma letters_bare: "list_all (\<lambda>c. 65 \<le> code_of c \<and> code_of c \<le> 90 \<or> is_ascii_digit c) w \<Longrightarrow> w \<noteq> [] \<Longrightarrow> bare_word w"
  by (rule plain_bare_word) (auto simp: list_all_iff plain_char_def is_delimiter_def is_blank_def is_ascii_digit_def)

lemma type_string_letters:
  "list_all (\<lambda>c. 65 \<le> code_of c \<and> code_of c \<le> 90 \<or> is_ascii_digit c) (rdata_type_string rd) \<and> rdata_type_string rd \<noteq> []"
proof (cases "\<exists>t bs. rd = RD_Unknown t bs")
  case True
  then show ?thesis using show_nat_digits by (auto simp: show_u_def list_all_iff)
next
  case False
  then show ?thesis by (cases rd) (simp_all add: is_ascii_digit_def)
qed

lemma upper_type_string: "upper_text (rdata_type_string rd) = rdata_type_string rd"
proof -
  have "upper_text w = w" if "list_all (\<lambda>c. 65 \<le> code_of c \<and> code_of c \<le> 90 \<or> is_ascii_digit c) w" for w
    using that by (induction w) (auto simp: upper_text_def upper_char_def is_ascii_digit_def)
  then show ?thesis using type_string_letters by blast
qed

lemma lexes_record:
  assumes "zone_codecs_ok lib" "printable_rr rr"
  shows "lexes (record_text lib rr) (record_words lib rr)"
proof -
  have "bare_word (class_display (rr_class rr))"
    using assms(2) by (intro letters_bare) (auto simp: printable_rr_def)
  moreover have "bare_word (rdata_type_string (rr_rdata rr))"
    using type_string_letters by (blast intro: letters_bare)
  moreover have "lexes (serialize_rdata lib (rr_rdata rr)) (rdata_tokens lib (rr_rdata rr))"
    using assms by (intro lexes_rdata) (simp_all add: printable_rr_def)
  ultimately show ?thesis
    unfolding record_text_def record_words_def by (simp add: lexes_cons bare_show tab_def)
qed

lemma process_record_words:
  assumes "zone_codecs_ok lib" "printable_rr rr" "line_owner line (w # record_words lib rr) st = Inr (owner, record_words lib rr)"
  shows "process_record lib (w # record_words lib rr) line st
    = Inr (st\<lparr>ps_last_owner := Some owner, ps_default_class := rr_class rr,
        ps_records := ps_records st @ [rr\<lparr>rr_name := owner\<rparr>]\<rparr>)"
proof -
  let ?ttl = "show_u (ttl_value (rr_ttl rr))"
  have digits: "list_all is_ascii_digit ?ttl" "?ttl \<noteq> []" using show_nat_digits by (simp_all add: show_u_def)
  then have "is_ttl ?ttl" by (simp add: is_ttl_def)
  moreover have "is_class ?ttl = None"
    using digits by (auto simp: is_class_def is_ascii_digit_def)
  moreover have "is_class (class_display (rr_class rr)) = Some (rr_class rr)"
    using assms(2) by (auto simp: printable_rr_def is_class_def)
  moreover have "parse_u32 ?ttl = Some (ttl_value (rr_ttl rr))" by (simp add: show_u_def parse_show_words)
  moreover have "ttl_new (ttl_value (rr_ttl rr)) = Inr (rr_ttl rr)"
    using assms(2) by (cases "rr_ttl rr") (simp add: printable_rr_def ttl_new_Inr)
  ultimately have "ttl_and_class line 2 None None (record_words lib rr)
      = Inr (Some (rr_ttl rr), Some (rr_class rr), rdata_type_string (rr_rdata rr) # rdata_tokens lib (rr_rdata rr))"
    by (simp add: record_words_def numeral_2_eq_2)
  moreover have "parse_rdata lib (rdata_type_string (rr_rdata rr)) (rdata_tokens lib (rr_rdata rr)) origin = Inr (rr_rdata rr)" for origin
    using assms by (intro parse_rdata_tokens) (simp_all add: printable_rr_def)
  ultimately show ?thesis
    using assms(3) by (cases rr) (simp add: process_record_def upper_type_string Let_def)
qed

lemma line_owner_named:
  assumes "printable_rr rr"
  shows "line_owner line (name_display (rr_name rr) # ws) st = Inr (rr_name rr, ws)"
proof -
  let ?w = "name_display (rr_name rr)"
  have dot: "?w \<noteq> []" "last ?w = dot" using name_display_last by blast+
  have "is_class ?w = None" using dot by (auto simp: is_class_def)
  moreover have "\<not> is_record_type ?w"
    using dot assms unfolding is_record_type_def printable_rr_def by fastforce
  moreover have "\<not> is_ttl ?w"
    using dot last_in_set [of ?w] by (auto simp: is_ttl_def list_all_iff intro: bexI [of _ dot])
  moreover have "domain_new ?w = Inr (rr_name rr)"
    using assms by (intro domain_new_display) (simp add: printable_rr_def)
  ultimately show ?thesis using dot by (simp add: line_owner_def ends_with_dot_def Let_def)
qed

lemma line_owner_inherited: "ps_last_owner st = Some n \<Longrightarrow> line_owner line ([] # ws) st = Inr (n, ws)"
  by (simp add: line_owner_def)

lemma rr_eq_renamed: "name_eq (rr_name rr) n \<Longrightarrow> rr_eq rr (rr\<lparr>rr_name := n\<rparr>)"
  by (simp add: rr_eq_def rdata_class.eq_refl)

text \<open>One written record: the loop goes on after its line, with a record equal to it added.\<close>

lemma parse_record_line:
  assumes "zone_codecs_ok lib" "printable_rr rr" "tk_line_start t" "\<not> tk_parens t"
    and text_is: "tk_rest t = serialize_records lib last_owner (rr # rrs)"
    and owner: "\<And>n. last_owner = Some n \<Longrightarrow> \<exists>n'. ps_last_owner st = Some n' \<and> name_eq n n'"
    and room: "length (ps_records st) < max_zone_records"
  shows "\<exists>n. name_eq (rr_name rr) n \<and>
    parse_lines (process_line lib resolver include) t [] line st
    = parse_lines (process_line lib resolver include) (next_line t (serialize_records lib (Some (rr_name rr)) rrs)) []
        (tk_line t + 1)
        (st\<lparr>ps_last_owner := Some n, ps_default_class := rr_class rr, ps_records := ps_records st @ [rr\<lparr>rr_name := n\<rparr>]\<rparr>)"
proof -
  let ?r = "serialize_records lib (Some (rr_name rr)) rrs"
  let ?p = "process_line lib resolver include"
  note lexes = lexes_record [OF assms(1,2)]
  have goal: "?thesis"
    if "name_eq (rr_name rr) n" and owned: "line_owner line (w # record_words lib rr) st = Inr (n, record_words lib rr)"
      and "\<exists>toks. map token_as_str toks = record_words lib rr \<and>
        parse_lines ?p t [] line st = end_line ?p (next_line t ?r) line (?p (Word w # toks) line st)" for n w
  proof -
    from that(3) obtain toks where toks: "map token_as_str toks = record_words lib rr"
      and step: "parse_lines ?p t [] line st = end_line ?p (next_line t ?r) line (?p (Word w # toks) line st)" by blast
    have "?p (Word w # toks) line st = process_record lib (w # record_words lib rr) line st"
      by (simp add: process_line_def toks)
    then show ?thesis
      unfolding step process_record_words [OF assms(1,2) owned] using that(1) room
      by (intro exI [of _ n]) (simp add: end_line_def next_line_def)
  qed
  show ?thesis
  proof (cases "\<exists>n. last_owner = Some n \<and> name_eq n (rr_name rr)")
    case True
    then obtain n where n: "last_owner = Some n" "name_eq n (rr_name rr)" by blast
    with owner obtain n' where n': "ps_last_owner st = Some n'" "name_eq n n'" by blast
    obtain c s where first: "record_text lib rr = c # s" "\<not> is_delimiter c"
    proof -
      obtain c s where "show_u (ttl_value (rr_ttl rr)) = c # s" "is_ascii_digit c"
        using show_nat_digits [of "unat (ttl_value (rr_ttl rr))"] by (cases "show_nat (unat (ttl_value (rr_ttl rr)))") (auto simp: show_u_def)
      then show ?thesis
        using digit_plain_char [of c] by (intro that [of c]) (auto simp: record_text_def plain_char_def)
    qed
    have "tk_rest t = CHR 0x09 # record_text lib rr @ lf # ?r"
      using n by (simp add: text_is record_text_def tab_def)
    note line = inherited_line [OF lexes _ assms(3,4) this first, of ?p line st]
    have "name_eq (rr_name rr) n'"
      using n(2) n'(2) name_class.eq_sym name_class.eq_trans by blast
    then show ?thesis by (rule goal [OF _ line_owner_inherited [OF n'(1)] line]) simp
  next
    case False
    let ?w = "name_display (rr_name rr)"
    have "tk_rest t = ?w @ CHR 0x09 # record_text lib rr @ lf # ?r"
      using False by (auto simp: text_is record_text_def tab_def split: option.split)
    moreover have "word_token ?w = Word ?w" "bare_word ?w" using assms(2) by (simp_all add: printable_rr_def word_token_def)
    ultimately show ?thesis
      using named_line [of ?w "record_text lib rr" "record_words lib rr" "CHR 0x09" t ?r ?p line st] lexes assms(4)
        line_owner_named [OF assms(2)]
      by (intro goal [of "rr_name rr" ?w]) (simp_all add: name_class.eq_refl)
  qed
qed

lemma parse_serialized_records:
  assumes "zone_codecs_ok lib" "list_all printable_rr rrs" "tk_line_start t" "\<not> tk_parens t"
    and "tk_rest t = serialize_records lib last_owner rrs"
    and "\<And>n. last_owner = Some n \<Longrightarrow> \<exists>n'. ps_last_owner st = Some n' \<and> name_eq n n'"
    and "length (ps_records st) + length rrs \<le> max_zone_records"
  shows "\<exists>owner rrs'. list_all2 rr_eq rrs rrs' \<and>
    parse_lines (process_line lib resolver include) t [] line st
    = Inr (st\<lparr>ps_last_owner := owner,
        ps_default_class := (if rrs = [] then ps_default_class st else rr_class (last rrs)),
        ps_records := ps_records st @ rrs'\<rparr>)"
  using assms(2-7)
proof (induction rrs arbitrary: t last_owner line st)
  case Nil
  then have "next_token t = (None, t\<lparr>tk_rest := []\<rparr>)" by (simp add: next_token.simps [of t])
  then show ?case
    by (intro exI [of _ "ps_last_owner st"] exI [of _ "[]"]) (simp add: parse_lines.simps [of _ t])
next
  case (Cons rr rrs)
  let ?p = "process_line lib resolver include"
  have rr: "printable_rr rr" "length (ps_records st) < max_zone_records" using Cons.prems(1,6) by simp_all
  from parse_record_line [OF assms(1) rr(1) Cons.prems(2,3,4,5) rr(2), of resolver "include" line]
  obtain n where n: "name_eq (rr_name rr) n" and step: "parse_lines ?p t [] line st
      = parse_lines ?p (next_line t (serialize_records lib (Some (rr_name rr)) rrs)) [] (tk_line t + 1)
        (st\<lparr>ps_last_owner := Some n, ps_default_class := rr_class rr, ps_records := ps_records st @ [rr\<lparr>rr_name := n\<rparr>]\<rparr>)"
    by blast
  let ?t = "next_line t (serialize_records lib (Some (rr_name rr)) rrs)"
  let ?st = "st\<lparr>ps_last_owner := Some n, ps_default_class := rr_class rr, ps_records := ps_records st @ [rr\<lparr>rr_name := n\<rparr>]\<rparr>"
  have "\<exists>owner rrs'. list_all2 rr_eq rrs rrs' \<and> parse_lines ?p ?t [] (tk_line t + 1) ?st
    = Inr (?st\<lparr>ps_last_owner := owner, ps_default_class := (if rrs = [] then ps_default_class ?st else rr_class (last rrs)),
        ps_records := ps_records ?st @ rrs'\<rparr>)"
    using Cons.prems n by (intro Cons.IH [of ?t "Some (rr_name rr)"]) (simp_all add: next_line_def)
  then obtain owner rrs' where rest: "list_all2 rr_eq rrs rrs'" "parse_lines ?p ?t [] (tk_line t + 1) ?st
    = Inr (?st\<lparr>ps_last_owner := owner, ps_default_class := (if rrs = [] then ps_default_class ?st else rr_class (last rrs)),
        ps_records := ps_records ?st @ rrs'\<rparr>)" by blast
  show ?case
    unfolding step rest(2) using rest(1) rr_eq_renamed [OF n]
    by (intro exI [of _ owner] exI [of _ "rr\<lparr>rr_name := n\<rparr> # rrs'"]) simp
qed

section \<open>Directives and whole files\<close>

lemma origin_line:
  assumes "name_wf n" "bare_word (name_display n)" "\<not> tk_parens t" "tk_rest t = ''$ORIGIN '' @ name_display n @ lf # r"
    and "length (ps_records st) \<le> max_zone_records" "ps_zone_origin st = None"
  shows "parse_lines (process_line lib resolver include) t [] line st
    = parse_lines (process_line lib resolver include) (next_line t r) [] (tk_line t + 1)
        (st\<lparr>ps_origin := Some n, ps_zone_origin := Some n\<rparr>)"
proof -
  have bare: "bare_word ''$ORIGIN''"
    by (rule plain_bare_word) (simp_all add: plain_char_def is_delimiter_def is_blank_def)
  have word: "word_token ''$ORIGIN'' = Directive ''$ORIGIN''" by (simp add: word_token_def starts_with_def)
  have rest: "tk_rest t = ''$ORIGIN'' @ CHR '' '' # name_display n @ lf # r" using assms(4) by simp
  note line = named_line [OF bare lexes_word [OF assms(2)] blanks(1) assms(3) rest, of "process_line lib resolver include" line st]
  from line obtain toks where toks: "map token_as_str toks = [name_display n]"
    and step: "parse_lines (process_line lib resolver include) t [] line st
      = end_line (process_line lib resolver include) (next_line t r) line
          (process_line lib resolver include (Directive ''$ORIGIN'' # toks) line st)"
    unfolding word by (elim exE conjE) (rule that)
  from toks obtain tok where "toks = [tok]" "token_as_str tok = name_display n" by auto
  moreover have "ends_with_dot (name_display n)" using name_display_last by (simp add: ends_with_dot_def)
  ultimately have "process_line lib resolver include (Directive ''$ORIGIN'' # toks) line st
      = Inr (st\<lparr>ps_origin := Some n, ps_zone_origin := Some n\<rparr>)"
    using assms(6) domain_new_display [OF assms(1)]
    by (simp add: process_line_def process_origin_def directive_origin_def Let_def)
  then show ?thesis using assms(5) unfolding step by (simp add: end_line_def next_line_def)
qed

lemma ttl_line:
  assumes "ttl_wf ttl" "\<not> tk_parens t" "tk_rest t = ''$TTL '' @ show_u (ttl_value ttl) @ lf # r"
    and "length (ps_records st) \<le> max_zone_records"
  shows "parse_lines (process_line lib resolver include) t [] line st
    = parse_lines (process_line lib resolver include) (next_line t r) [] (tk_line t + 1) (st\<lparr>ps_default_ttl := Some ttl\<rparr>)"
proof -
  have bare: "bare_word ''$TTL''"
    by (rule plain_bare_word) (simp_all add: plain_char_def is_delimiter_def is_blank_def)
  have word: "word_token ''$TTL'' = Directive ''$TTL''" by (simp add: word_token_def starts_with_def)
  have rest: "tk_rest t = ''$TTL'' @ CHR '' '' # show_u (ttl_value ttl) @ lf # r" using assms(3) by simp
  note line = named_line [OF bare lexes_word [OF bare_show(1)] blanks(1) assms(2) rest, of "process_line lib resolver include" line st]
  from line obtain toks where toks: "map token_as_str toks = [show_u (ttl_value ttl)]"
    and step: "parse_lines (process_line lib resolver include) t [] line st
      = end_line (process_line lib resolver include) (next_line t r) line
          (process_line lib resolver include (Directive ''$TTL'' # toks) line st)"
    unfolding word by (elim exE conjE) (rule that)
  from toks obtain tok where "toks = [tok]" "token_as_str tok = show_u (ttl_value ttl)" by auto
  moreover have "ttl_new (ttl_value ttl) = Inr ttl" using assms(1) by (cases ttl) (simp add: ttl_new_Inr)
  ultimately have "process_line lib resolver include (Directive ''$TTL'' # toks) line st
      = Inr (st\<lparr>ps_default_ttl := Some ttl\<rparr>)"
    by (simp add: process_line_def process_ttl_def show_u_def parse_show_words)
  then show ?thesis using assms(4) unfolding step by (simp add: end_line_def next_line_def)
qed

definition printable_zone :: "zone_codecs \<Rightarrow> zone_file \<Rightarrow> bool" where
  "printable_zone lib zf \<longleftrightarrow>
     name_wf (zf_origin zf) \<and> bare_word (name_display (zf_origin zf)) \<and> (\<forall>t. zf_default_ttl zf = Some t \<longrightarrow> ttl_wf t)
     \<and> list_all printable_rr (zone_records (zf_zone zf)) \<and> length (zone_records (zf_zone zf)) \<le> max_zone_records
     \<and> length (serialize_zone lib zf) \<le> max_zone_input_bytes"

lemma parse_serialized_zone:
  assumes "zone_codecs_ok lib" "printable_zone lib zf"
  shows "\<exists>rrs. list_all2 rr_eq (zone_records (zf_zone zf)) rrs
    \<and> zone_file_parse lib (serialize_zone lib zf)
      = Inr \<lparr>zf_origin = zf_origin zf, zf_default_ttl = zf_default_ttl zf,
             zf_zone = \<lparr>zone_name = zf_origin zf,
               zone_class = (if zone_records (zf_zone zf) = [] then IN else rr_class (last (zone_records (zf_zone zf)))),
               zone_records = rrs\<rparr>\<rparr>"
proof -
  let ?rrs = "zone_records (zf_zone zf)"
  let ?p = "process_line lib None (parse_into lib None max_include_depth)"
  let ?rest = "serialize_records lib None ?rrs"
  let ?st = "parse_state_new\<lparr>ps_origin := Some (zf_origin zf), ps_zone_origin := Some (zf_origin zf), ps_default_ttl := zf_default_ttl zf\<rparr>"
  note ok = assms(2) [unfolded printable_zone_def]
  obtain t line where t: "tk_line_start t" "\<not> tk_parens t" "tk_rest t = ?rest"
    and read: "parse_lines ?p (tokenizer_new (serialize_zone lib zf)) [] 1 parse_state_new = parse_lines ?p t [] line ?st"
  proof -
    let ?t0 = "tokenizer_new (serialize_zone lib zf)"
    let ?r = "(case zf_default_ttl zf of None \<Rightarrow> [] | Some ttl \<Rightarrow> ''$TTL '' @ show_u (ttl_value ttl) @ [lf]) @ ?rest"
    have "\<not> tk_parens ?t0" "tk_rest ?t0 = ''$ORIGIN '' @ name_display (zf_origin zf) @ lf # ?r"
      by (simp_all add: tokenizer_new_def serialize_zone_def)
    from origin_line [OF _ _ this, of parse_state_new lib None "parse_into lib None max_include_depth" 1] ok
    have step: "parse_lines ?p ?t0 [] 1 parse_state_new = parse_lines ?p (next_line ?t0 ?r) [] (tk_line ?t0 + 1)
        (parse_state_new\<lparr>ps_origin := Some (zf_origin zf), ps_zone_origin := Some (zf_origin zf)\<rparr>)"
      by (simp add: parse_state_new_def)
    show thesis
    proof (cases "zf_default_ttl zf")
      case None
      with step show thesis
        by (intro that [of "next_line ?t0 ?r" "tk_line ?t0 + 1"]) (simp_all add: next_line_def tokenizer_new_def parse_state_new_def)
    next
      case (Some ttl)
      let ?t1 = "next_line ?t0 ?r"
      have "\<not> tk_parens ?t1" "tk_rest ?t1 = ''$TTL '' @ show_u (ttl_value ttl) @ lf # ?rest"
        by (simp_all add: next_line_def tokenizer_new_def Some)
      from ttl_line [OF _ this, of _ lib None "parse_into lib None max_include_depth"] step ok Some show thesis
        by (intro that [of "next_line ?t1 ?rest" "tk_line ?t1 + 1"]) (simp_all add: next_line_def tokenizer_new_def parse_state_new_def)
    qed
  qed
  have "\<exists>owner rrs'. list_all2 rr_eq ?rrs rrs' \<and> parse_lines ?p t [] line ?st
    = Inr (?st\<lparr>ps_last_owner := owner, ps_default_class := (if ?rrs = [] then ps_default_class ?st else rr_class (last ?rrs)),
        ps_records := ps_records ?st @ rrs'\<rparr>)"
    using ok by (intro parse_serialized_records [OF assms(1) _ t]) (simp_all add: parse_state_new_def)
  then obtain owner rrs' where "list_all2 rr_eq ?rrs rrs'" and result: "parse_lines ?p t [] line ?st
    = Inr (?st\<lparr>ps_last_owner := owner, ps_default_class := (if ?rrs = [] then ps_default_class ?st else rr_class (last ?rrs)),
        ps_records := ps_records ?st @ rrs'\<rparr>)" by blast
  moreover have "parse_into lib None (Suc max_include_depth) (serialize_zone lib zf) parse_state_new = parse_lines ?p t [] line ?st"
    using ok by (simp add: read not_less)
  ultimately show ?thesis
    unfolding zone_file_parse_def parse_zone_def result
    by (intro exI [of _ rrs']) (simp add: parse_state_new_def)
qed

text \<open>Libraries that write an octet as three digits, and a small zone.\<close>

function decode_digits :: "string \<Rightarrow> byte list option" where
  "decode_digits s =
     (case ddd_escape s of
        Some (v, r) \<Rightarrow> map_option (Cons (word_of_nat v)) (decode_digits r)
      | None \<Rightarrow> (if s = [] then Some [] else None))"
  by pat_completeness auto
termination
  by (relation "measure length") (auto dest: ddd_escape_shorter)

declare decode_digits.simps [simp del]

definition digit_codec :: byte_codec where
  "digit_codec = \<lparr>codec_encode = (\<lambda>bs. concat (map (\<lambda>b. pad_nat 3 (unat b)) bs)), codec_decode = decode_digits\<rparr>"

definition digit_codecs :: zone_codecs where
  "digit_codecs = \<lparr>zc_base64 = digit_codec, zc_base32hex = digit_codec\<rparr>"

lemma digit_codecs_ok: "zone_codecs_ok digit_codecs"
proof -
  have b: "unat b < 1000" for b :: byte using unat_byte_less [of b] by linarith
  have "decode_digits (concat (map (\<lambda>b. pad_nat 3 (unat b)) bs)) = Some bs" for bs
  proof (induction bs)
    case Nil
    then show ?case by (simp add: decode_digits.simps [of "[]"])
  next
    case (Cons x xs)
    then show ?case by (simp add: decode_digits.simps [of "pad_nat 3 (unat x) @ _"] pad_nat_ddd(1) [OF b])
  qed
  moreover have "list_all is_ascii_digit (concat (map (\<lambda>b. pad_nat 3 (unat b)) bs))" for bs :: "byte list"
    by (induction bs) (simp_all add: pad_nat_digits)
  moreover have "pad_nat 3 (unat b) \<noteq> []" for b :: byte using pad_nat_ddd(2) [OF b [of b]] by auto
  then have "concat (map (\<lambda>b. pad_nat 3 (unat b)) bs) = [] \<longleftrightarrow> bs = []" for bs :: "byte list"
    by (cases bs) simp_all
  ultimately show ?thesis
    by (auto simp: zone_codecs_ok_def codec_ok_def digit_codecs_def digit_codec_def base64_char_def base32hex_char_def list_all_iff)
qed

definition sample_name :: domain_name where
  "sample_name = wire_labels_name [as_bytes ''ns'', as_bytes ''example'']"

definition sample_zone_file :: zone_file where
  "sample_zone_file = \<lparr>zf_origin = sample_name, zf_default_ttl = Some (Ttl 300),
     zf_zone = \<lparr>zone_name = sample_name, zone_class = IN, zone_records =
       [\<lparr>rr_name = sample_name, rr_class = IN, rr_ttl = Ttl 60, rr_rdata = RD_Mx 10 sample_name\<rparr>,
        \<lparr>rr_name = sample_name, rr_class = IN, rr_ttl = Ttl 60, rr_rdata = RD_Txt [TxtString [34, 200]]\<rparr>,
        \<lparr>rr_name = sample_name, rr_class = CH, rr_ttl = Ttl 60, rr_rdata = RD_Dnskey 257 3 13 [1]\<rparr>]\<rparr>\<rparr>"

lemma sample_name_text: "name_wf sample_name" "name_display sample_name = ''ns.example.''"
proof -
  have "list_all plain_label [as_bytes ''ns'', as_bytes ''example'']"
    by (simp add: plain_label_def as_bytes_def)
  then show "name_wf sample_name"
    unfolding sample_name_def by (rule wire_labels_name_wf) (simp add: label_octets_def)
  show "name_display sample_name = ''ns.example.''"
    by (simp add: sample_name_def wire_labels_name_def name_display_def is_root_def)
qed

lemma sample_zone_printable: "printable_zone digit_codecs sample_zone_file"
proof -
  have bare: "bare_word ''ns.example.''"
    by (rule plain_bare_word) (simp_all add: plain_char_def is_delimiter_def is_blank_def)
  have "length (serialize_zone digit_codecs sample_zone_file) \<le> max_zone_input_bytes"
    by (simp add: serialize_zone_def sample_zone_file_def sample_name_text max_zone_input_bytes_def tab_def show_u_def
        show_nat.simps name_class.eq_refl serialize_txt_def txt_byte_def pad_nat_def serialize_key_def digit_codecs_def digit_codec_def)
  then show ?thesis
    by (simp add: printable_zone_def sample_zone_file_def sample_name_text bare printable_rr_def starts_with_def
        ttl_wf_def txt_wf_def no_backslash_def max_zone_records_def)
qed

section \<open>Properties\<close>

text \<open>
  C5: A zone file that the serializer writes is read back: the parser accepts the text and returns
  the origin, the default TTL and, record by record, equal records; the class of the zone is that
  of its last record. The conditions are those without which it is false: names and CAA fields
  whose text has no bare delimiter, owners that do not start with \<open>$\<close> or \<open>TYPE\<close>, TXT strings without
  backslash, non-empty keys and digests, the classes IN, CH and HS.\<close>

theorem zone_text_roundtrip:
  assumes "zone_codecs_ok lib" "printable_zone lib zf"
  shows "\<exists>rrs. list_all2 rr_eq (zone_records (zf_zone zf)) rrs
    \<and> zone_file_parse lib (serialize_zone lib zf)
      = Inr \<lparr>zf_origin = zf_origin zf, zf_default_ttl = zf_default_ttl zf,
             zf_zone = \<lparr>zone_name = zf_origin zf,
               zone_class = (if zone_records (zf_zone zf) = [] then IN else rr_class (last (zone_records (zf_zone zf)))),
               zone_records = rrs\<rparr>\<rparr>"
  by (rule parse_serialized_zone [OF assms])

theorem zone_text_roundtrip_witness:
  "\<exists>rrs. list_all2 rr_eq (zone_records (zf_zone sample_zone_file)) rrs
    \<and> zone_file_parse digit_codecs (serialize_zone digit_codecs sample_zone_file)
      = Inr \<lparr>zf_origin = sample_name, zf_default_ttl = Some (Ttl 300),
             zf_zone = \<lparr>zone_name = sample_name, zone_class = CH, zone_records = rrs\<rparr>\<rparr>"
  using zone_text_roundtrip [OF digit_codecs_ok sample_zone_printable] by (simp add: sample_zone_file_def)

end
