(* ===== verification/Zone_Checks.thy ===== *)
theory Zone_Checks
  imports Zone_Roundtrip
begin

text \<open>
  What the zone file parser guarantees of a zone it accepts, and where it goes wrong: the
  invariant of the parse state, the limits on records and includes, and lines that the parser
  reads otherwise than RFC 1035 says.
\<close>

section \<open>Invariants of the parse state\<close>

lemma parse_lines_inv:
  assumes "\<And>toks line st st'. process toks line st = Inr st' \<Longrightarrow> holds st \<Longrightarrow> holds st'"
    and "parse_lines process t current line st = Inr st'" "holds st"
  shows "holds st'"
  using assms
proof (induction process t current line st rule: parse_lines.induct)
  case (1 process t current line st)
  note keep = "1.prems"(1)
  obtain tok t' where token: "next_token t = (tok, t')" by (cases "next_token t")
  show ?case
  proof (cases tok)
    case None
    with "1.prems" token keep show ?thesis
      by (auto simp: parse_lines.simps [of process t] split: if_splits)
  next
    case (Some x)
    show ?thesis
    proof (cases "x = Newline")
      case True
      with "1.prems"(2) token Some obtain st1 where st1: "(if current \<noteq> [] then process current line st else Inr st) = Inr st1"
        "\<not> max_zone_records < length (ps_records st1)" "parse_lines process t' [] (tk_line t') st1 = Inr st'"
        by (auto simp: parse_lines.simps [of process t] line_error_def result_simps simp del: max_zone_records_def split: if_splits)
      then have "holds st1" using keep "1.prems"(3) by (auto split: if_splits)
      with "1.IH"(1) [OF token [symmetric] Some True st1(1,2) keep st1(3)] show ?thesis by simp
    next
      case False
      with "1.prems" token Some "1.IH"(2,3) [OF token [symmetric] Some False] show ?thesis
        by (auto simp: parse_lines.simps [of process t] split: if_splits)
    qed
  qed
qed

text \<open>
  An invariant of the steps of the parser is an invariant of the parser, through all levels of
  includes.
\<close>

locale parse_invariant =
  fixes lib :: zone_codecs and holds :: "parse_state \<Rightarrow> bool"
  assumes record_step: "process_record lib ws line st = Inr st' \<Longrightarrow> holds st \<Longrightarrow> holds st'"
    and origin_step: "process_origin toks line st = Inr st' \<Longrightarrow> holds st \<Longrightarrow> holds st'"
    and ttl_step: "process_ttl toks line st = Inr st' \<Longrightarrow> holds st \<Longrightarrow> holds st'"
    and include_enter: "directive_origin line what missing s st = Inr n \<Longrightarrow> holds st \<Longrightarrow> holds (st\<lparr>ps_origin := Some n\<rparr>)"
    and include_leave: "holds st \<Longrightarrow> holds st' \<Longrightarrow> holds (st'\<lparr>ps_origin := ps_origin st, ps_last_owner := ps_last_owner st\<rparr>)"
begin

lemma include_step:
  assumes "process_include resolver read tokens line st = Inr st'" "holds st"
    and "\<And>content st st'. read content st = Inr st' \<Longrightarrow> holds st \<Longrightarrow> holds st'"
  shows "holds st'"
  using assms include_enter include_leave
  by (auto simp: process_include_def line_error_def result_simps split: option.splits list.splits)

lemma line_step:
  assumes "process_line lib resolver read tokens line st = Inr st'" "holds st"
    and "\<And>content st st'. read content st = Inr st' \<Longrightarrow> holds st \<Longrightarrow> holds st'"
  shows "holds st'"
proof (cases "\<exists>d toks. tokens = Directive d # toks")
  case True
  with assms include_step origin_step ttl_step show ?thesis
    by (auto simp: process_line_def line_error_def map_err_eq_Inr split: if_splits)
next
  case False
  with assms(1,2) record_step show ?thesis
    by (cases tokens; cases "hd tokens") (auto simp: process_line_def)
qed

lemma parse_into_inv: "parse_into lib resolver left input st = Inr st' \<Longrightarrow> holds st \<Longrightarrow> holds st'"
proof (induction left arbitrary: input st st')
  case 0
  then show ?case by (simp add: line_error_def)
next
  case (Suc left)
  then have "parse_lines (process_line lib resolver (parse_into lib resolver left)) (tokenizer_new input) [] 1 st = Inr st'"
    by (simp add: line_error_def split: if_splits)
  then show ?case
  proof (rule parse_lines_inv [where holds = holds, rotated])
    show "holds st" by (rule Suc.prems(2))
    show "holds s'" if "process_line lib resolver (parse_into lib resolver left) toks line s = Inr s'" "holds s"
      for toks line s s' using line_step [OF that] Suc.IH by blast
  qed
qed

end

section \<open>Accepted zones are well formed\<close>

definition record_wf :: "resource_record \<Rightarrow> bool" where
  "record_wf rr \<longleftrightarrow> name_wf (rr_name rr) \<and> rr_class rr \<in> {IN, CH, HS} \<and> ttl_wf (rr_ttl rr) \<and> built_rdata (rr_rdata rr)"

definition parse_state_wf :: "parse_state \<Rightarrow> bool" where
  "parse_state_wf st \<longleftrightarrow>
     (\<forall>n. ps_origin st = Some n \<longrightarrow> name_wf n) \<and> (\<forall>n. ps_zone_origin st = Some n \<longrightarrow> name_wf n)
     \<and> (\<forall>n. ps_last_owner st = Some n \<longrightarrow> name_wf n) \<and> (\<forall>t. ps_default_ttl st = Some t \<longrightarrow> ttl_wf t)
     \<and> ps_default_class st \<in> {IN, CH, HS} \<and> list_all record_wf (ps_records st)"

lemma resolve_owner_wf: "resolve_owner token origin = Inr n \<Longrightarrow> name_wf origin \<Longrightarrow> name_wf n"
  by (auto simp: resolve_owner_def dest: domain_new_wf split: if_splits)

lemma directive_origin_wf:
  "directive_origin line what missing s st = Inr n \<Longrightarrow> parse_state_wf st \<Longrightarrow> name_wf n"
  by (auto simp: directive_origin_def line_error_def map_err_eq_Inr parse_state_wf_def Let_def
      dest: domain_new_wf resolve_owner_wf split: if_splits option.splits)

lemma line_owner_wf: "line_owner line ws st = Inr (n, ws') \<Longrightarrow> parse_state_wf st \<Longrightarrow> name_wf n"
  by (auto simp: line_owner_def result_simps parse_state_wf_def Let_def
      dest: domain_new_wf resolve_owner_wf split: if_splits)

lemma is_class_known: "is_class w = Some c \<Longrightarrow> c \<in> {IN, CH, HS}"
  by (auto simp: is_class_def split: if_splits)

lemma ttl_and_class_wf:
  "ttl_and_class line k ttl class ws = Inr (ttl', class', ws') \<Longrightarrow>
     \<forall>t. ttl = Some t \<longrightarrow> ttl_wf t \<Longrightarrow> \<forall>c. class = Some c \<longrightarrow> c \<in> {IN, CH, HS} \<Longrightarrow>
     (\<forall>t. ttl' = Some t \<longrightarrow> ttl_wf t) \<and> (\<forall>c. class' = Some c \<longrightarrow> c \<in> {IN, CH, HS})"
proof (induction line k ttl "class" ws rule: ttl_and_class.induct)
  case (3 line k ttl cls w ws)
  show ?case
  proof (cases "cls = None \<and> is_class w \<noteq> None")
    case True
    with "3.prems" is_class_known "3.IH"(1) [OF True] show ?thesis by auto
  next
    case False
    with "3.prems" "3.IH"(2) [OF False] show ?thesis
      by (auto simp: result_simps ttl_new_Inr split: if_splits)
  qed
qed auto

text \<open>A record line that is accepted: its parts, and the state after it.\<close>

lemma process_record_Inr:
  assumes "process_record lib ws line st = Inr st'"
  obtains owner ws1 rttl rclass w ws2 rdata ttl "class" where "line_owner line ws st = Inr (owner, ws1)"
    "ttl_and_class line 2 None None ws1 = Inr (rttl, rclass, w # ws2)"
    "parse_rdata lib (upper_text w) ws2 (case ps_origin st of Some origin \<Rightarrow> origin | None \<Rightarrow> owner) = Inr rdata"
    "(case rttl of Some t \<Rightarrow> Some t | None \<Rightarrow> ps_default_ttl st) = Some ttl"
    "class = (case rclass of Some c \<Rightarrow> c | None \<Rightarrow> ps_default_class st)"
    "st' = st\<lparr>ps_last_owner := Some owner, ps_default_class := class,
      ps_records := ps_records st @ [\<lparr>rr_name = owner, rr_class = class, rr_ttl = ttl, rr_rdata = rdata\<rparr>]\<rparr>"
proof -
  from assms obtain owner ws1 where owner: "line_owner line ws st = Inr (owner, ws1)"
    by (auto simp: process_record_def result_simps)
  with assms obtain rttl rclass ws2 where both: "ttl_and_class line 2 None None ws1 = Inr (rttl, rclass, ws2)"
    by (auto simp: process_record_def result_simps)
  then show thesis
    using assms owner that by (cases ws2) (auto simp: process_record_def line_error_def result_simps Let_def)
qed

lemma process_record_wf:
  assumes "process_record lib ws line st = Inr st'" "parse_state_wf st"
  shows "parse_state_wf st'"
proof -
  from assms(1) obtain owner ws1 rttl rclass w ws2 rdata ttl "class" where owner: "line_owner line ws st = Inr (owner, ws1)"
    and both: "ttl_and_class line 2 None None ws1 = Inr (rttl, rclass, w # ws2)"
    and rdata: "parse_rdata lib (upper_text w) ws2 (case ps_origin st of Some origin \<Rightarrow> origin | None \<Rightarrow> owner) = Inr rdata"
    and ttl: "(case rttl of Some t \<Rightarrow> Some t | None \<Rightarrow> ps_default_ttl st) = Some ttl"
    and cls: "class = (case rclass of Some c \<Rightarrow> c | None \<Rightarrow> ps_default_class st)"
    and st': "st' = st\<lparr>ps_last_owner := Some owner, ps_default_class := class,
      ps_records := ps_records st @ [\<lparr>rr_name = owner, rr_class = class, rr_ttl = ttl, rr_rdata = rdata\<rparr>]\<rparr>"
    by (rule process_record_Inr)
  have n: "name_wf owner" by (rule line_owner_wf [OF owner assms(2)])
  then have "built_rdata rdata"
    using parse_rdata_built [OF rdata] assms(2) by (auto simp: parse_state_wf_def split: option.splits)
  moreover have "ttl_wf ttl"
    using ttl_and_class_wf [OF both] ttl assms(2) by (auto simp: parse_state_wf_def split: option.splits)
  moreover have "class \<in> {IN, CH, HS}"
    using ttl_and_class_wf [OF both] assms(2) cls by (auto simp: parse_state_wf_def split: option.splits)
  ultimately show ?thesis using n assms(2) unfolding st' by (simp add: parse_state_wf_def record_wf_def)
qed

interpretation zone_wf: parse_invariant lib parse_state_wf for lib
proof
  show "parse_state_wf st'" if "process_record lib ws line st = Inr st'" "parse_state_wf st" for ws line st st'
    using that by (rule process_record_wf)
  show "parse_state_wf st'" if "process_origin toks line st = Inr st'" "parse_state_wf st" for toks line st st'
    using that directive_origin_wf [OF _ that(2)]
    by (auto simp: process_origin_def line_error_def result_simps parse_state_wf_def split: list.splits option.splits)
  show "parse_state_wf st'" if "process_ttl toks line st = Inr st'" "parse_state_wf st" for toks line st st'
    using that by (auto simp: process_ttl_def line_error_def result_simps parse_state_wf_def ttl_new_Inr split: list.splits)
  show "parse_state_wf (st\<lparr>ps_origin := Some n\<rparr>)"
    if "directive_origin line what missing s st = Inr n" "parse_state_wf st" for line what missing s st n
    using that directive_origin_wf [OF that] by (simp add: parse_state_wf_def)
  show "parse_state_wf (st'\<lparr>ps_origin := ps_origin st, ps_last_owner := ps_last_owner st\<rparr>)"
    if "parse_state_wf st" "parse_state_wf st'" for st st'
    using that by (simp add: parse_state_wf_def)
qed

section \<open>Includes add records at their place\<close>

interpretation zone_grows: parse_invariant lib "\<lambda>st. \<exists>rs. ps_records st = before @ rs" for lib before
proof
  show "\<exists>rs. ps_records st' = before @ rs"
    if "process_record lib ws line st = Inr st'" "\<exists>rs. ps_records st = before @ rs" for ws line st st'
    using that by (auto elim!: process_record_Inr)
qed (auto simp: process_origin_def process_ttl_def line_error_def result_simps split: list.splits)

section \<open>The limit on records\<close>

definition records_in_limit :: "parse_state \<Rightarrow> bool" where
  "records_in_limit st \<longleftrightarrow> length (ps_records st) \<le> max_zone_records"

definition one_over_limit :: "parse_state \<Rightarrow> bool" where
  "one_over_limit st \<longleftrightarrow> length (ps_records st) \<le> max_zone_records + 1"

lemma parse_lines_limit:
  assumes "\<And>toks line st st'. process toks line st = Inr st' \<Longrightarrow> records_in_limit st \<Longrightarrow> one_over_limit st'"
    and "parse_lines process t current line st = Inr st'" "records_in_limit st"
  shows "one_over_limit st'"
  using assms
proof (induction process t current line st rule: parse_lines.induct)
  case (1 process t current line st)
  note keep = "1.prems"(1)
  have weaken: "one_over_limit st" using "1.prems"(3) by (simp add: records_in_limit_def one_over_limit_def)
  obtain tok t' where token: "next_token t = (tok, t')" by (cases "next_token t")
  show ?case
  proof (cases tok)
    case None
    with "1.prems" token keep weaken show ?thesis
      by (auto simp: parse_lines.simps [of process t] split: if_splits)
  next
    case (Some x)
    show ?thesis
    proof (cases "x = Newline")
      case True
      with "1.prems"(2) token Some obtain st1 where st1: "(if current \<noteq> [] then process current line st else Inr st) = Inr st1"
        "\<not> max_zone_records < length (ps_records st1)" "parse_lines process t' [] (tk_line t') st1 = Inr st'"
        by (auto simp: parse_lines.simps [of process t] line_error_def result_simps split: if_splits)
      have "records_in_limit st1" using st1(2) by (simp add: records_in_limit_def)
      with "1.IH"(1) [OF token [symmetric] Some True st1(1,2) keep st1(3)] show ?thesis by simp
    next
      case False
      with "1.prems" token Some "1.IH"(2,3) [OF token [symmetric] Some False] show ?thesis
        by (auto simp: parse_lines.simps [of process t] split: if_splits)
    qed
  qed
qed

lemma process_line_limit:
  assumes "process_line lib resolver read tokens line st = Inr st'" "records_in_limit st"
    and "\<And>content st st'. read content st = Inr st' \<Longrightarrow> records_in_limit st \<Longrightarrow> one_over_limit st'"
  shows "one_over_limit st'"
proof (cases "\<exists>d toks. tokens = Directive d # toks")
  case True
  have "one_over_limit st'" if "process_include resolver read tokens line st = Inr st'"
  proof -
    from that obtain content inner inner' where inner: "read content inner = Inr inner'" "ps_records inner = ps_records st"
      "ps_records st' = ps_records inner'"
      by (auto simp: process_include_def line_error_def result_simps split: option.splits list.splits)
    then show ?thesis
      using assms(2) assms(3) [OF inner(1)] by (simp add: records_in_limit_def one_over_limit_def)
  qed
  with True assms(1,2) show ?thesis
    by (auto simp: process_line_def process_origin_def process_ttl_def line_error_def map_err_eq_Inr result_simps
        records_in_limit_def one_over_limit_def split: if_splits list.splits)
next
  case False
  then have "tokens = [] \<and> st' = st \<or> process_record lib (map token_as_str tokens) line st = Inr st'"
    using assms(1) by (cases tokens; cases "hd tokens") (auto simp: process_line_def)
  then show ?thesis
    using assms(2) by (auto simp: records_in_limit_def one_over_limit_def elim!: process_record_Inr)
qed

lemma parse_into_limit:
  "parse_into lib resolver left input st = Inr st' \<Longrightarrow> records_in_limit st \<Longrightarrow> one_over_limit st'"
proof (induction left arbitrary: input st st')
  case 0
  then show ?case by (simp add: line_error_def)
next
  case (Suc left)
  then have "parse_lines (process_line lib resolver (parse_into lib resolver left)) (tokenizer_new input) [] 1 st = Inr st'"
    by (simp add: line_error_def split: if_splits)
  then show ?case
  proof (rule parse_lines_limit [rotated])
    show "records_in_limit st" by (rule Suc.prems(2))
    show "one_over_limit s'" if "process_line lib resolver (parse_into lib resolver left) toks line s = Inr s'" "records_in_limit s"
      for toks line s s' using process_line_limit [OF that] Suc.IH by blast
  qed
qed

section \<open>Properties\<close>

text \<open>
  C6: A zone the parser accepts is well formed: its names fit the limits of RFC 1035, its TTLs are
  below 2^31, its classes are IN, CH or HS, its record data is built by the checked constructors
  (strings of at most 255 octets, canonical type bitmaps, TLSA fields in range). This holds through
  all included files. Its number of records is at most one over the limit of 2^24: the parser
  compares with the limit after a line feed, so a last line without one adds a record
  unchecked.\<close>

theorem parsed_zone_wf:
  assumes "parse_zone lib resolver input = Inr zf"
  shows "name_wf (zf_origin zf) \<and> zone_name (zf_zone zf) = zf_origin zf
    \<and> (\<forall>t. zf_default_ttl zf = Some t \<longrightarrow> ttl_wf t) \<and> zone_class (zf_zone zf) \<in> {IN, CH, HS}
    \<and> list_all record_wf (zone_records (zf_zone zf)) \<and> length (zone_records (zf_zone zf)) \<le> max_zone_records + 1"
proof -
  from assms obtain st origin where st: "parse_into lib resolver (Suc max_include_depth) input parse_state_new = Inr st"
    and origin: "(case ps_zone_origin st of Some origin \<Rightarrow> Inr origin
        | None \<Rightarrow> map_err Failed (ok_or (ZoneParse 1 None ''no $ORIGIN directive and no SOA record found'')
            (map_option rr_name (List.find is_soa (ps_records st))))) = Inr origin"
    and zf: "zf = \<lparr>zf_origin = origin, zf_default_ttl = ps_default_ttl st,
             zf_zone = \<lparr>zone_name = origin, zone_class = ps_default_class st, zone_records = ps_records st\<rparr>\<rparr>"
    unfolding parse_zone_def rbind_eq_Inr rmap_eq_Inr by blast
  have wf: "parse_state_wf st"
    by (rule zone_wf.parse_into_inv [OF st]) (simp add: parse_state_new_def parse_state_wf_def)
  have "one_over_limit st"
    by (rule parse_into_limit [OF st]) (simp add: parse_state_new_def records_in_limit_def)
  moreover have "name_wf origin"
  proof (cases "ps_zone_origin st")
    case None
    with origin obtain rr where "List.find is_soa (ps_records st) = Some rr" "origin = rr_name rr"
      by (auto simp: result_simps)
    then have "rr \<in> set (ps_records st)" "origin = rr_name rr" by (auto simp: find_Some_iff)
    then show ?thesis using wf by (auto simp: parse_state_wf_def list_all_iff record_wf_def)
  qed (use origin wf in \<open>simp add: parse_state_wf_def\<close>)
  ultimately show ?thesis using wf by (simp add: zf parse_state_wf_def one_over_limit_def)
qed

theorem parsed_zone_wf_witness:
  "\<exists>zf. parse_zone digit_codecs None (serialize_zone digit_codecs sample_zone_file) = Inr zf
     \<and> list_all record_wf (zone_records (zf_zone zf))"
proof -
  obtain zf where "parse_zone digit_codecs None (serialize_zone digit_codecs sample_zone_file) = Inr zf"
    using parse_serialized_zone [OF digit_codecs_ok sample_zone_printable] by (auto simp: zone_file_parse_def)
  with parsed_zone_wf [OF this] show ?thesis by blast
qed

text \<open>
  C22: An included file leaves the origin and the current owner of the including file as they
  were, and the records read so far are kept, followed by those of the file. (Its \<open>$TTL\<close> and its
  class do carry over to the lines after \<open>$INCLUDE\<close>.)\<close>

theorem include_is_contained:
  assumes "process_include resolver (parse_into lib resolver left) tokens line st = Inr st'"
  shows "ps_origin st' = ps_origin st \<and> ps_last_owner st' = ps_last_owner st
    \<and> (\<exists>records. ps_records st' = ps_records st @ records)"
proof -
  from assms obtain content inner inner' where inner: "parse_into lib resolver left content inner = Inr inner'"
    "ps_records inner = ps_records st"
    "st' = inner'\<lparr>ps_origin := ps_origin st, ps_last_owner := ps_last_owner st\<rparr>"
    by (auto simp: process_include_def line_error_def result_simps split: option.splits list.splits)
  have "\<exists>records. ps_records inner' = ps_records inner @ records"
    by (rule zone_grows.parse_into_inv [OF inner(1)]) simp
  with inner(2,3) show ?thesis by simp
qed

theorem include_is_contained_witness:
  "\<exists>st'. process_include (Some (\<lambda>path. Inr [])) (parse_into digit_codecs (Some (\<lambda>path. Inr [])) 1)
       [Directive ''$INCLUDE'', Word ''file'', Word ''ns.example.''] 1 parse_state_new = Inr st' \<and> ps_origin st' = None"
proof -
  let ?resolver = "Some (\<lambda>path. Inr []) :: (string \<Rightarrow> core_error + string) option"
  have "parse_into digit_codecs ?resolver 1 [] st = Inr st" for st
    by (simp add: parse_lines.simps next_token.simps tokenizer_new_def)
  moreover have "domain_new ''ns.example.'' = Inr sample_name"
    using domain_new_display [OF sample_name_text(1)] by (simp add: sample_name_text(2))
  ultimately obtain st' where "process_include ?resolver (parse_into digit_codecs ?resolver 1)
      [Directive ''$INCLUDE'', Word ''file'', Word ''ns.example.''] 1 parse_state_new = Inr st'"
    by (simp add: process_include_def directive_origin_def ends_with_dot_def)
  with include_is_contained [OF this] show ?thesis by (simp add: parse_state_new_def)
qed

lemma include_line:
  assumes "bare_word path" "\<not> tk_parens t" "tk_rest t = ''$INCLUDE '' @ path @ lf # r"
  shows "\<exists>tok. token_as_str tok = path \<and> parse_lines (process_line lib resolver read) t [] line st
    = end_line (process_line lib resolver read) (next_line t r) line
        (process_include resolver read [Directive ''$INCLUDE'', tok] line st)"
proof -
  have bare: "bare_word ''$INCLUDE''"
    by (rule plain_bare_word) (simp_all add: plain_char_def is_delimiter_def is_blank_def)
  have word: "word_token ''$INCLUDE'' = Directive ''$INCLUDE''" by (simp add: word_token_def starts_with_def)
  have rest: "tk_rest t = ''$INCLUDE'' @ CHR '' '' # path @ lf # r" using assms(3) by simp
  note line = named_line [OF bare lexes_word [OF assms(1)] blanks(1) assms(2) rest, of "process_line lib resolver read" line st]
  from line obtain toks where "map token_as_str toks = [path]"
    and step: "parse_lines (process_line lib resolver read) t [] line st
      = end_line (process_line lib resolver read) (next_line t r) line
          (process_line lib resolver read (Directive ''$INCLUDE'' # toks) line st)"
    unfolding word by (elim exE conjE) (rule that)
  then obtain tok where "toks = [tok]" "token_as_str tok = path" by auto
  then show ?thesis unfolding step by (intro exI [of _ tok]) (simp add: process_line_def)
qed

text \<open>
  A file that includes itself is refused with an error, not read for ever: each include goes one
  level deeper, and the depth is limited. (A file that includes itself and is over the size limit
  is refused for that.)\<close>

lemma include_cycle_fails:
  assumes "bare_word path" "resolve path = Inr (''$INCLUDE '' @ path @ lf # rest)"
    and "length (''$INCLUDE '' @ path @ lf # rest) \<le> max_zone_input_bytes"
  shows "parse_with_includes lib resolve (''$INCLUDE '' @ path @ lf # rest)
    = Inl (Failed (ZoneParse 1 None ''$INCLUDE include depth exceeds maximum of 16''))"
proof -
  let ?file = "''$INCLUDE '' @ path @ lf # rest"
  have "show_nat max_include_depth = ''16''" by (simp add: max_include_depth_def show_nat.simps digit_chars)
  then have "parse_into lib (Some resolve) left ?file st
      = Inl (Failed (ZoneParse 1 None ''$INCLUDE include depth exceeds maximum of 16''))" for left st
  proof (induction left arbitrary: st)
    case 0
    then show ?case by (simp add: line_error_def)
  next
    case (Suc left)
    have t: "\<not> tk_parens (tokenizer_new ?file)" "tk_rest (tokenizer_new ?file) = ?file" by (simp_all add: tokenizer_new_def)
    obtain tok where tok: "token_as_str tok = path" and step: "parse_lines (process_line lib (Some resolve) (parse_into lib (Some resolve) left))
        (tokenizer_new ?file) [] 1 st
      = end_line (process_line lib (Some resolve) (parse_into lib (Some resolve) left)) (next_line (tokenizer_new ?file) rest) 1
        (process_include (Some resolve) (parse_into lib (Some resolve) left) [Directive ''$INCLUDE'', tok] 1 st)"
      using include_line [OF assms(1) t] by blast
    have "process_include (Some resolve) (parse_into lib (Some resolve) left) [Directive ''$INCLUDE'', tok] 1 st
      = Inl (Failed (ZoneParse 1 None ''$INCLUDE include depth exceeds maximum of 16''))"
      using Suc assms(2) by (simp add: process_include_def tok)
    with assms(3) show ?case by (simp add: step [simplified] end_line_def not_less [symmetric])
  qed
  then show ?thesis unfolding parse_with_includes_def parse_zone_def by (simp only: rbind.simps)
qed

lemma include_cycle_fails_witness:
  "parse_with_includes digit_codecs (\<lambda>path. Inr (''$INCLUDE '' @ path @ [lf])) (''$INCLUDE zone'' @ [lf])
    = Inl (Failed (ZoneParse 1 None ''$INCLUDE include depth exceeds maximum of 16''))"
proof -
  have "bare_word ''zone''" by (rule plain_bare_word) (simp_all add: plain_char_def is_delimiter_def is_blank_def)
  from include_cycle_fails [OF this, where rest = "[]" and resolve = "\<lambda>path. Inr (''$INCLUDE '' @ path @ [lf])"]
  show ?thesis by (simp add: max_zone_input_bytes_def)
qed

text \<open>
  A line that starts with a number is not read as RFC 1035 (5.1) says: the number is taken as
  the TTL of a record of the previous owner. A PTR record of a reverse zone, written
  \<open>10 IN PTR host.\<close>, becomes a record of another name.\<close>

lemma numeric_owner_is_ttl:
  assumes "is_ttl w" "parse_u32 w = Some v" "ttl_new v = Inr ttl" "ps_last_owner st = Some owner"
    and "name_wf host" "ps_origin st = Some origin"
  shows "process_line lib resolver read [Word w, Word ''IN'', Word ''PTR'', Word (name_display host)] line st
    = Inr (st\<lparr>ps_default_class := IN, ps_records := ps_records st @
        [\<lparr>rr_name = owner, rr_class = IN, rr_ttl = ttl, rr_rdata = RD_Ptr host\<rparr>]\<rparr>)"
proof -
  from assms(1) obtain c s where c: "w = c # s" "is_ascii_digit c" by (cases w) (auto simp: is_ttl_def)
  then have "c \<noteq> CHR ''I''" "c \<noteq> CHR ''i''" "c \<noteq> CHR ''C''" "c \<noteq> CHR ''c''" "c \<noteq> CHR ''H''" "c \<noteq> CHR ''h''"
    by (auto simp: is_ascii_digit_def)
  with c(1) have w: "w \<noteq> []" "is_class w = None" by (simp_all add: is_class_def)
  have "line_owner line [w, ''IN'', ''PTR'', name_display host] st = Inr (owner, [w, ''IN'', ''PTR'', name_display host])"
    using w assms(1,4) by (simp add: line_owner_def)
  moreover have "ttl_and_class line 2 None None [w, ''IN'', ''PTR'', name_display host]
      = Inr (Some ttl, Some IN, [''PTR'', name_display host])"
    using w assms(1-3) by (simp add: numeral_2_eq_2 is_class_def)
  moreover have "upper_text ''PTR'' = ''PTR''" by (simp add: upper_text_def upper_char_def)
  moreover have "parse_rdata lib ''PTR'' [name_display host] origin = Inr (RD_Ptr host)"
    using resolve_display [OF assms(5)] by (simp add: parse_rdata_def parse_plain_rdata_def parse_ptr_def)
  moreover have "st\<lparr>ps_last_owner := Some owner\<rparr> = st" using assms(4) by (cases st) simp
  ultimately show ?thesis
    using assms(6) by (cases st) (simp add: process_line_def process_record_def Let_def)
qed

lemma numeric_owner_is_ttl_witness:
  "process_line digit_codecs None (\<lambda>_ st. Inr st) [Word ''10'', Word ''IN'', Word ''PTR'', Word ''ns.example.''] 1
      (parse_state_new\<lparr>ps_origin := Some sample_name, ps_last_owner := Some domain_root\<rparr>)
    = Inr (parse_state_new\<lparr>ps_origin := Some sample_name, ps_last_owner := Some domain_root,
        ps_default_class := IN, ps_records := [\<lparr>rr_name = domain_root, rr_class = IN, rr_ttl = Ttl 10, rr_rdata = RD_Ptr sample_name\<rparr>]\<rparr>)"
proof -
  have w: "is_ttl ''10''" "parse_u32 ''10'' = Some 10"
    by (simp_all add: is_ttl_def is_ascii_digit_def parse_u32_def parse_uint_def digits_value_def digit_val_def)
  have "ttl_new 10 = Inr (Ttl 10)" by (simp add: ttl_new_def)
  from numeric_owner_is_ttl [OF w this _ sample_name_text(1), of _ domain_root sample_name] show ?thesis
    by (simp add: sample_name_text(2) parse_state_new_def)
qed

text \<open>
  A backslash in a TXT string does not survive: the serializer writes it as two backslashes, the
  tokenizer makes them one, and the record parser takes that one as an escape again, so the
  string is read back without it.\<close>

lemma txt_backslash_lost:
  assumes "no_backslash (pre @ b # post)" "length (pre @ 92 # b # post) \<le> 255"
    and "unat b < 128" "\<not> is_ascii_digit (char_of_byte b)"
    and "tk_rest t = serialize_txt [TxtString (pre @ 92 # b # post)] @ lf # r"
  shows "\<exists>w t'. next_token t = (Some (QuotedString w), t')
    \<and> parse_rdata lib ''TXT'' [w] origin = Inr (RD_Txt [TxtString (pre @ b # post)])"
proof -
  let ?bs = "pre @ 92 # b # post"
  let ?w = "txt_token (TxtString ?bs)"
  have "scan_quoted (concat (map txt_byte ?bs) @ CHR 0x22 # lf # r) = (?w, lf # r)"
    using scan_quoted_txt [of ?bs "CHR 0x22 # lf # r"] by (simp add: txt_token_def)
  from next_token_quoted [OF this] assms(5)
  have token: "next_token t = (Some (QuotedString ?w), t\<lparr>tk_line_start := False, tk_rest := lf # r\<rparr>)"
    by (simp add: serialize_txt_def)
  have "(char_of_byte 92 :: char) = backslash" by (simp add: char_of_byte_eq)
  then have w: "?w = concat (map txt_token_byte pre) @ backslash # char_of_byte b # concat (map txt_token_byte post)"
    using assms(3) by (simp add: txt_token_def txt_token_byte_def)
  have parts: "no_backslash pre" "no_backslash post" using assms(1) by (simp_all add: no_backslash_def)
  have "decode_character_string ?w (concat (map txt_token_byte post)) = Inr post"
    using decode_txt_token [OF parts(2), of ?w "[]"] by simp
  then have "decode_character_string ?w ?w = Inr (pre @ b # post)"
    using decode_txt_token [OF parts(1), of ?w] assms(4) by (simp add: w ddd_escape_no_digit)
  moreover have "txt_new (pre @ b # post) = Inr (TxtString (pre @ b # post))"
    using assms(2) by (simp add: txt_new_def)
  ultimately have "parse_rdata lib ''TXT'' [?w] origin = Inr (RD_Txt [TxtString (pre @ b # post)])"
    by (simp add: parse_rdata_def parse_plain_rdata_def parse_txt_def)
  with token show ?thesis by blast
qed

lemma txt_backslash_lost_witness:
  "\<exists>w t'. next_token (tokenizer_new (serialize_txt [TxtString [97, 92, 98]] @ [lf])) = (Some (QuotedString w), t')
    \<and> parse_rdata digit_codecs ''TXT'' [w] sample_name = Inr (RD_Txt [TxtString [97, 98]])"
proof -
  have "no_backslash ([97] @ 98 # [])" "\<not> is_ascii_digit (char_of_byte 98)"
    by (simp_all add: no_backslash_def is_ascii_digit_def)
  from txt_backslash_lost [OF this(1) _ _ this(2), where r = "[]"] show ?thesis by (simp add: tokenizer_new_def)
qed

text \<open>
  A comment on a line that starts with a blank makes the whole file fail: the blank is read as
  an inherited owner name, and the rest of the line is empty. (RFC 1035, 5.1, allows a comment to
  end any line.)\<close>

lemma indented_comment_rejected:
  assumes "tk_line_start t" "\<not> tk_parens t" "is_blank b" "tk_rest t = b # CHR '';'' # comment @ lf # r"
    and "lf \<notin> set comment"
  shows "\<exists>reason. parse_lines (process_line lib resolver read) t [] line st = Inl (Failed (ZoneParse line None reason))"
proof -
  let ?t = "t\<lparr>tk_line_start := False, tk_rest := CHR '';'' # comment @ lf # r\<rparr>"
  let ?u = "t\<lparr>tk_line_start := False, tk_rest := lf # r\<rparr>"
  have "next_token t = (Some (Word []), ?t)"
    using assms(1-4) by (simp add: next_token.simps [of t] is_blank_def)
  then have word: "parse_lines (process_line lib resolver read) t [] line st
      = parse_lines (process_line lib resolver read) ?t [Word []] line st"
    by (simp add: parse_lines_content)
  have "dropWhile (\<lambda>c. c \<noteq> lf) (comment @ lf # r) = lf # r"
    using assms(5) by (induction comment) auto
  then have "next_token ?t = next_token ?u" by (simp add: next_token.simps [of ?t] is_blank_def)
  also have "\<dots> = (Some Newline, next_line ?u r)" using assms(2) by (intro next_token_newline) simp_all
  finally have newline: "next_token ?t = (Some Newline, next_line ?u r)" .
  have "\<exists>reason. process_line lib resolver read [Word []] line st = Inl (Failed (ZoneParse line None reason))"
    by (cases "ps_last_owner st")
      (simp_all add: process_line_def process_record_def line_owner_def line_error_def numeral_2_eq_2)
  then show ?thesis
    unfolding word by (auto simp: parse_lines.simps [of _ ?t] newline)
qed

lemma indented_comment_rejected_witness:
  "\<exists>reason. parse_lines (process_line digit_codecs None (\<lambda>_ st. Inr st)) (tokenizer_new ('' ; note'' @ [lf])) [] 1 parse_state_new
     = Inl (Failed (ZoneParse 1 None reason))"
  by (rule indented_comment_rejected [where b = "CHR '' ''" and comment = "'' note''" and r = "[]"])
    (simp_all add: tokenizer_new_def)

text \<open>Text outside ASCII in a quoted string is encoded twice: each octet becomes two.\<close>

lemma quoted_octet_doubled:
  assumes "128 \<le> code_of b" "is_delimiter d"
  shows "scan_quoted (b # CHR 0x22 # d # r) = ([char_of (0xC0 + code_of b div 64), char_of (0x80 + code_of b mod 64)], d # r)"
  using assms by (auto simp: byte_as_char_def)

end
