(* ===== verification/Conf_Lexer.thy ===== *)
theory Conf_Lexer
  imports Text_Util Errors
begin

text \<open>
  The first half of \<open>named_conf.rs\<close>: the tokens of a \<open>named.conf\<close>. The code indexes a vector of
  characters; its index is here the list of the characters that are left, each given by its
  octets. A line number is a \<open>u32\<close> and wraps after \<open>2 ^ 32\<close> lines.
\<close>

section \<open>Tokens\<close>

datatype conf_kind =
    ConfWord string
  | ConfQuoted string
  | ConfOpen
  | ConfClose
  | ConfSemi
  | ConfBang

record conf_token =
  ct_kind :: conf_kind
  ct_line :: u32

definition parse_error :: "string \<Rightarrow> u32 \<Rightarrow> string \<Rightarrow> core_error" where
  "parse_error path line reason = NamedConfParse path line reason"

definition starts_comment :: "string \<Rightarrow> string list \<Rightarrow> bool" where
  "starts_comment c cs \<longleftrightarrow> c = ''/'' \<and> (\<exists>d\<in>set (take 1 cs). d = ''/'' \<or> d = ''*'')"

definition conf_punctuation :: "string \<Rightarrow> conf_kind option" where
  "conf_punctuation c =
     (if c = ''{'' then Some ConfOpen
      else if c = ''}'' then Some ConfClose
      else if c = '';'' then Some ConfSemi
      else if c = ''!'' then Some ConfBang
      else None)"

definition ends_word :: "string \<Rightarrow> string list \<Rightarrow> bool" where
  "ends_word c cs \<longleftrightarrow> ws_char c \<or> conf_punctuation c \<noteq> None \<or> c = [CHR 0x22] \<or> starts_comment c cs"

fun conf_word :: "string list \<Rightarrow> string \<times> string list" where
  "conf_word [] = ([], [])"
| "conf_word (c # cs) = (if ends_word c cs then ([], c # cs) else apfst ((@) c) (conf_word cs))"

text \<open>After the opening quote: the value, what follows the closing quote, and its line.\<close>

fun conf_quoted :: "string list \<Rightarrow> u32 \<Rightarrow> (string \<times> string list \<times> u32) option" where
  "conf_quoted [] line = None"
| "conf_quoted (c # cs) line =
     (if c = [CHR 0x22] then Some ([], cs, line)
      else if c = [CHR 0x5C] then
        (case cs of [] \<Rightarrow> None | e # cs' \<Rightarrow> map_option (apfst ((@) e)) (conf_quoted cs' line))
      else map_option (apfst ((@) c)) (conf_quoted cs (if c = newline then line + 1 else line)))"

text \<open>After \<open>/*\<close>: what follows \<open>*/\<close>, and its line.\<close>

fun skip_block_comment :: "string list \<Rightarrow> u32 \<Rightarrow> (string list \<times> u32) option" where
  "skip_block_comment (c # d # cs) line =
     (let line' = (if c = newline then line + 1 else line)
      in if c = ''*'' \<and> d = ''/'' then Some (cs, line') else skip_block_comment (d # cs) line')"
| "skip_block_comment _ line = None"

lemma conf_word_split: "conf_word cs = (w, r) \<Longrightarrow> length r \<le> length cs \<and> (\<not> ends_word (hd cs) (tl cs) \<longrightarrow> cs \<noteq> [] \<longrightarrow> length r < length cs)"
  by (induction cs arbitrary: w r) (fastforce simp: apfst_def map_prod_def split: if_splits prod.splits)+

lemma conf_word_shorter:
  "conf_word (c # cs) = (w, r) \<Longrightarrow> \<not> ws_char c \<Longrightarrow> conf_punctuation c = None \<Longrightarrow> c \<noteq> [CHR 0x22]
     \<Longrightarrow> \<not> (c = ''/'' \<and> take 1 cs = [''/'']) \<Longrightarrow> \<not> (c = ''/'' \<and> take 1 cs = [''*''])
     \<Longrightarrow> length r \<le> length cs"
  using conf_word_split [of "c # cs" w r]
  by (cases cs) (auto simp: ends_word_def starts_comment_def)

lemma conf_quoted_shorter: "conf_quoted cs line = Some (v, r, l) \<Longrightarrow> length r < length cs"
  by (induction cs line arbitrary: v rule: conf_quoted.induct)
     (fastforce simp: apfst_def map_prod_def split: if_splits prod.splits list.splits)+

lemma skip_block_comment_shorter: "skip_block_comment cs line = Some (r, l) \<Longrightarrow> length r < length cs"
  by (induction cs line rule: skip_block_comment.induct) (fastforce simp: Let_def split: if_splits)+

function tokenize :: "string \<Rightarrow> string list \<Rightarrow> u32 \<Rightarrow> core_error + conf_token list" where
  "tokenize path [] line = Inr []"
| "tokenize path (c # cs) line =
     (if c = newline then tokenize path cs (line + 1)
      else if ws_char c then tokenize path cs line
      else if c = ''#'' then tokenize path (dropWhile (\<lambda>d. d \<noteq> newline) cs) line
      else if c = ''/'' \<and> take 1 cs = [''/''] then
        tokenize path (dropWhile (\<lambda>d. d \<noteq> newline) (drop 1 cs)) line
      else if c = ''/'' \<and> take 1 cs = [''*''] then
        (case skip_block_comment (drop 1 cs) line of
           None \<Rightarrow> Inl (parse_error path line ''unterminated block comment'')
         | Some (r, l) \<Rightarrow> tokenize path r l)
      else if c = [CHR 0x22] then
        (case conf_quoted cs line of
           None \<Rightarrow> Inl (parse_error path line ''unterminated quoted string'')
         | Some (v, r, l) \<Rightarrow> rmap (Cons \<lparr>ct_kind = ConfQuoted v, ct_line = line\<rparr>) (tokenize path r l))
      else (case conf_punctuation c of
           Some k \<Rightarrow> rmap (Cons \<lparr>ct_kind = k, ct_line = line\<rparr>) (tokenize path cs line)
         | None \<Rightarrow>
             (let (w, r) = conf_word (c # cs)
              in rmap (Cons \<lparr>ct_kind = ConfWord w, ct_line = line\<rparr>) (tokenize path r line))))"
  by pat_completeness auto
termination
  by (relation "measure (\<lambda>(_, cs, _). length cs)")
     (auto dest: conf_quoted_shorter skip_block_comment_shorter conf_word_shorter [OF sym]
       simp: less_Suc_eq_le length_dropWhile_le le_diff_conv intro: le_trans [OF length_dropWhile_le]
       simp del: conf_word.simps One_nat_def)

declare tokenize.simps(2) [simp del]

end
