(* ===== verification/Named_Conf.thy ===== *)
theory Named_Conf
  imports Conf_Lexer Ip_Text Tsig_Auth
begin

text \<open>
  \<open>named_conf.rs\<close>: the recursive descent parser of the supported part of \<open>named.conf\<close>. The
  position of the parser is the list of the tokens that are left. What the parser never changes
  (the path, the line of the last token, the base64 decoder of the key library) is a
  \<open>conf_source\<close>; each \<open>parse_\<close> function returns its result with the tokens it leaves.
\<close>

section \<open>The configuration\<close>

datatype ip_addr = V4 ipv4 | V6 ipv6

datatype acl_element =
    AclAny
  | AclNone
  | AclLocalhost
  | AclLocalnets
  | AclAddress ip_addr
  | AclNetwork ip_addr u8
  | AclKey domain_name
  | AclNamed string
  | AclNegated acl_element

type_synonym acl = "acl_element list"

record named_acl =
  na_name :: string
  na_acl :: acl

datatype named_zone_type = ZonePrimary | ZoneSecondary | ZoneStub | ZoneForward

record named_zone =
  nz_name :: domain_name
  nz_type :: named_zone_type
  nz_file :: "string option"
  nz_allow_transfer :: "acl option"

datatype listen_address = ListenAny | ListenIp ip_addr

record control_endpoint =
  ce_address :: listen_address
  ce_port :: u16
  ce_allow :: "acl option"
  ce_keys :: "domain_name list"

record statistics_channel =
  sc_address :: listen_address
  sc_port :: u16
  sc_allow :: "acl option"

record named_options =
  no_directory :: "string option"
  no_allow_recursion :: "acl option"

record named_conf =
  nc_zones :: "named_zone list"
  nc_keys :: "tsig_key list"
  nc_acls :: "named_acl list"
  nc_options :: named_options
  nc_controls :: "control_endpoint list"
  nc_statistics_channels :: "statistics_channel list"

definition named_conf_default :: named_conf where
  "named_conf_default = \<lparr>nc_zones = [], nc_keys = [], nc_acls = [],
     nc_options = \<lparr>no_directory = None, no_allow_recursion = None\<rparr>, nc_controls = [], nc_statistics_channels = []\<rparr>"

section \<open>Reading tokens\<close>

record conf_source =
  cs_path :: string
  cs_eof :: u32
  cs_base64 :: "byte list \<Rightarrow> byte list option"

type_synonym conf_tokens = "conf_token list"

type_synonym 'a conf_result = "core_error + 'a \<times> conf_tokens"

abbreviation conf_fail :: "conf_source \<Rightarrow> u32 \<Rightarrow> string \<Rightarrow> core_error + 'a" where
  "conf_fail p line reason \<equiv> Inl (parse_error (cs_path p) line reason)"

definition next_conf :: "conf_source \<Rightarrow> conf_tokens \<Rightarrow> conf_token conf_result" where
  "next_conf p ts =
     (case ts of [] \<Rightarrow> conf_fail p (cs_eof p) ''unexpected end of file'' | t # r \<Rightarrow> Inr (t, r))"

definition conf_text :: "conf_source \<Rightarrow> conf_token \<Rightarrow> core_error + string" where
  "conf_text p t =
     (case ct_kind t of
        ConfWord v \<Rightarrow> Inr v
      | ConfQuoted v \<Rightarrow> Inr v
      | _ \<Rightarrow> conf_fail p (ct_line t) ''expected a value'')"

definition next_text :: "conf_source \<Rightarrow> conf_tokens \<Rightarrow> string conf_result" where
  "next_text p ts = rbind (next_conf p ts) (\<lambda>(t, r). rmap (\<lambda>v. (v, r)) (conf_text p t))"

text \<open>
  The \<open>Debug\<close> text of a token kind. Characters above 127 are taken to be printable, so that the
  standard library writes them as they are.
\<close>

definition debug_char :: "char \<Rightarrow> string" where
  "debug_char c =
     (if c = CHR 0x00 then backslash # ''0''
      else if c = CHR 0x09 then backslash # ''t''
      else if c = CHR 0x0A then backslash # ''n''
      else if c = CHR 0x0D then backslash # ''r''
      else if c = CHR 0x22 \<or> c = backslash then [backslash, c]
      else if code_of c < 32 \<or> code_of c = 127 then backslash # ''u{'' @ show_hex (code_of c) @ ''}''
      else [c])"

fun kind_debug :: "conf_kind \<Rightarrow> string" where
  "kind_debug (ConfWord v) = ''Word('' @ [CHR 0x22] @ concat (map debug_char v) @ [CHR 0x22] @ '')''"
| "kind_debug (ConfQuoted v) = ''Quoted('' @ [CHR 0x22] @ concat (map debug_char v) @ [CHR 0x22] @ '')''"
| "kind_debug ConfOpen = ''Open''"
| "kind_debug ConfClose = ''Close''"
| "kind_debug ConfSemi = ''Semi''"
| "kind_debug ConfBang = ''Bang''"

definition conf_expect :: "conf_source \<Rightarrow> conf_kind \<Rightarrow> conf_tokens \<Rightarrow> core_error + conf_tokens" where
  "conf_expect p expected ts =
     rbind (next_conf p ts) (\<lambda>(t, r).
       if ct_kind t = expected then Inr r
       else conf_fail p (ct_line t) (''expected '' @ kind_debug expected @ '', got '' @ kind_debug (ct_kind t)))"

text \<open>\<open>consume\<close>: \<open>None\<close> is \<open>false\<close>, and leaves the position as it is.\<close>

definition conf_consume :: "conf_kind \<Rightarrow> conf_tokens \<Rightarrow> conf_tokens option" where
  "conf_consume expected ts =
     (case ts of t # r \<Rightarrow> if ct_kind t = expected then Some r else None | [] \<Rightarrow> None)"

fun skip_from :: "nat \<Rightarrow> conf_tokens \<Rightarrow> conf_tokens option" where
  "skip_from depth [] = None"
| "skip_from depth (t # r) =
     (if ct_kind t = ConfOpen then skip_from (depth + 1) r
      else if ct_kind t = ConfClose \<and> depth > 0 then skip_from (depth - 1) r
      else if ct_kind t = ConfSemi \<and> depth = 0 then Some r
      else skip_from depth r)"

definition skip_statement :: "conf_source \<Rightarrow> u32 \<Rightarrow> conf_tokens \<Rightarrow> core_error + conf_tokens" where
  "skip_statement p line ts = ok_or (parse_error (cs_path p) line ''unterminated statement'') (skip_from 0 ts)"

definition conf_name :: "conf_source \<Rightarrow> u32 \<Rightarrow> string \<Rightarrow> core_error + domain_name" where
  "conf_name p line s = map_err (\<lambda>e. parse_error (cs_path p) line (core_error_display e)) (domain_new s)"

section \<open>Addresses and address match lists\<close>

definition parse_ip_addr :: "string \<Rightarrow> ip_addr option" where
  "parse_ip_addr s =
     (case read_ipv4_addr s of
        Some (os, r) \<Rightarrow> if r = [] then Some (V4 (ipv4_from_octets os)) else None
      | None \<Rightarrow> map_option V6 (parse_ipv6 s))"

definition parse_listen :: "conf_source \<Rightarrow> u32 \<Rightarrow> string \<Rightarrow> core_error + listen_address" where
  "parse_listen p line v =
     (if v = ''*'' \<or> same_text v ''any'' then Inr ListenAny
      else rmap ListenIp (ok_or (parse_error (cs_path p) line (''invalid listen address `'' @ v @ ''`''))
             (parse_ip_addr v)))"

definition split_slash :: "string \<Rightarrow> (string \<times> string) option" where
  "split_slash s =
     (case dropWhile (\<lambda>c. c \<noteq> CHR ''/'') s of
        [] \<Rightarrow> None
      | _ # r \<Rightarrow> Some (takeWhile (\<lambda>c. c \<noteq> CHR ''/'') s, r))"

definition parse_network :: "conf_source \<Rightarrow> u32 \<Rightarrow> string \<Rightarrow> string \<times> string \<Rightarrow> core_error + acl_element" where
  "parse_network p line v = (\<lambda>(address, prefix).
     let bad = parse_error (cs_path p) line (''invalid network `'' @ v @ ''`'') in
     rbind (ok_or bad (parse_ip_addr address)) (\<lambda>a.
     rbind (ok_or bad (parse_u8 prefix)) (\<lambda>n.
       if unat n > (case a of V4 _ \<Rightarrow> 32 | V6 _ \<Rightarrow> 128)
       then conf_fail p line (''invalid network prefix `'' @ v @ ''`'')
       else Inr (AclNetwork a n))))"

definition parse_acl_element :: "conf_source \<Rightarrow> u32 \<Rightarrow> string \<Rightarrow> core_error + acl_element" where
  "parse_acl_element p line v =
     (if lower_text v = ''any'' then Inr AclAny
      else if lower_text v = ''none'' then Inr AclNone
      else if lower_text v = ''localhost'' then Inr AclLocalhost
      else if lower_text v = ''localnets'' then Inr AclLocalnets
      else (case split_slash v of
              Some parts \<Rightarrow> parse_network p line v parts
            | None \<Rightarrow>
                (case parse_ip_addr v of
                   Some a \<Rightarrow> Inr (AclAddress a)
                 | None \<Rightarrow> Inr (AclNamed v))))"

text \<open>One element of a list: \<open>key\<close> and a name, or a single value.\<close>

definition parse_acl_item :: "conf_source \<Rightarrow> conf_tokens \<Rightarrow> acl_element conf_result" where
  "parse_acl_item p ts =
     rbind (next_conf p ts) (\<lambda>(t, r).
     rbind (conf_text p t) (\<lambda>v.
       if same_text v ''key'' then
         rbind (next_text p r) (\<lambda>(name, r). rmap (\<lambda>d. (AclKey d, r)) (conf_name p (ct_line t) name))
       else rmap (\<lambda>e. (e, r)) (parse_acl_element p (ct_line t) v)))"

lemma next_conf_Inr [simp]: "next_conf p ts = Inr (t, r) \<longleftrightarrow> ts = t # r"
  by (auto simp: next_conf_def split: list.splits)

lemma next_text_shorter: "next_text p ts = Inr (v, r) \<Longrightarrow> length r < length ts"
  by (auto simp: next_text_def result_simps)

lemma conf_expect_Inr: "conf_expect p k ts = Inr r \<longleftrightarrow> (\<exists>t. ts = t # r \<and> ct_kind t = k)"
  by (auto simp: conf_expect_def result_simps)

lemma conf_consume_Some: "conf_consume k ts = Some r \<longleftrightarrow> (\<exists>t. ts = t # r \<and> ct_kind t = k)"
  by (auto simp: conf_consume_def split: list.splits if_splits)

lemma skip_from_shorter: "skip_from d ts = Some r \<Longrightarrow> length r < length ts"
  by (induction d ts rule: skip_from.induct) (auto split: if_splits)

lemma skip_statement_shorter: "skip_statement p line ts = Inr r \<Longrightarrow> length r < length ts"
  by (auto simp: skip_statement_def result_simps intro: skip_from_shorter)

lemma parse_acl_item_shorter: "parse_acl_item p ts = Inr (e, r) \<Longrightarrow> length r < length ts"
  by (auto simp: parse_acl_item_def result_simps split: if_splits dest: next_text_shorter)

text \<open>The loop of \<open>parse_acl\<close>, after the opening brace.\<close>

function parse_acl_elements :: "conf_source \<Rightarrow> conf_tokens \<Rightarrow> acl conf_result" where
  "parse_acl_elements p ts =
     (case conf_consume ConfClose ts of
        Some r \<Rightarrow> Inr ([], r)
      | None \<Rightarrow>
          (let (negated, rest) = (case conf_consume ConfBang ts of Some r \<Rightarrow> (True, r) | None \<Rightarrow> (False, ts))
           in rbind (parse_acl_item p rest) (\<lambda>(e, r).
              rbind (conf_expect p ConfSemi r) (\<lambda>r'.
                rmap (apfst (Cons (if negated then AclNegated e else e))) (parse_acl_elements p r')))))"
  by pat_completeness auto
termination
  by (relation "measure (\<lambda>(p, ts). length ts)")
     (auto dest!: parse_acl_item_shorter simp: conf_consume_Some conf_expect_Inr split: option.splits)

declare parse_acl_elements.simps [simp del]

definition parse_acl :: "conf_source \<Rightarrow> conf_tokens \<Rightarrow> acl conf_result" where
  "parse_acl p ts = rbind (conf_expect p ConfOpen ts) (parse_acl_elements p)"

function parse_key_list :: "conf_source \<Rightarrow> conf_tokens \<Rightarrow> domain_name list conf_result" where
  "parse_key_list p ts =
     (case conf_consume ConfClose ts of
        Some r \<Rightarrow> Inr ([], r)
      | None \<Rightarrow>
          rbind (next_conf p ts) (\<lambda>(t, r).
          rbind (conf_text p t) (\<lambda>v.
          rbind (conf_name p (ct_line t) v) (\<lambda>d.
          rbind (conf_expect p ConfSemi r) (\<lambda>r'. rmap (apfst (Cons d)) (parse_key_list p r'))))))"
  by pat_completeness auto
termination
  by (relation "measure (\<lambda>(p, ts). length ts)") (auto simp: conf_expect_Inr)

declare parse_key_list.simps [simp del]

definition parse_key_names :: "conf_source \<Rightarrow> conf_tokens \<Rightarrow> domain_name list conf_result" where
  "parse_key_names p ts = rbind (conf_expect p ConfOpen ts) (parse_key_list p)"

definition parse_port :: "conf_source \<Rightarrow> conf_tokens \<Rightarrow> u16 conf_result" where
  "parse_port p ts =
     rbind (next_conf p ts) (\<lambda>(t, r).
     rbind (conf_text p t) (\<lambda>v.
       rmap (\<lambda>n. (n, r)) (ok_or (parse_error (cs_path p) (ct_line t) (''invalid port `'' @ v @ ''`''))
         (parse_u16 v))))"

text \<open>The default arm of every \<open>match\<close>: the directive is skipped, the state stays.\<close>

definition skip_directive :: "conf_source \<Rightarrow> conf_token \<Rightarrow> 'a \<Rightarrow> conf_tokens \<Rightarrow> 'a conf_result" where
  "skip_directive p t x r = rmap (\<lambda>r'. (x, r')) (skip_statement p (ct_line t) r)"

text \<open>A value and the semicolon after it.\<close>

definition then_semi :: "conf_source \<Rightarrow> 'a conf_result \<Rightarrow> 'a conf_result" where
  "then_semi p res = rbind res (\<lambda>(x, r). rmap (\<lambda>r'. (x, r')) (conf_expect p ConfSemi r))"

lemma then_semi_Inr: "then_semi p res = Inr (x, r) \<longleftrightarrow> (\<exists>t. res = Inr (x, t # r) \<and> ct_kind t = ConfSemi)"
  by (auto simp: then_semi_def result_simps conf_expect_Inr)

lemma parse_acl_elements_shorter: "parse_acl_elements p ts = Inr (x, r) \<Longrightarrow> length r < length ts"
proof (induction p ts arbitrary: x rule: parse_acl_elements.induct)
  case (1 p ts)
  show ?case
  proof (cases "conf_consume ConfClose ts")
    case None
    let ?rest = "case conf_consume ConfBang ts of Some r \<Rightarrow> (True, r) | None \<Rightarrow> (False, ts)"
    obtain b rest where rest: "?rest = (b, rest)" by fastforce
    then have le: "length rest \<le> length ts"
      by (auto split: option.splits simp: conf_consume_Some)
    from "1.prems" None rest obtain e r1 r2 y where item: "parse_acl_item p rest = Inr (e, r1)"
      and semi: "conf_expect p ConfSemi r1 = Inr r2" and more: "parse_acl_elements p r2 = Inr (y, r)"
      by (subst (asm) parse_acl_elements.simps) (auto simp: result_simps)
    from "1.IH" [OF None rest [symmetric] refl item refl semi more] item semi le show ?thesis
      by (auto simp: conf_expect_Inr dest!: parse_acl_item_shorter)
  next
    case (Some q)
    with "1.prems" have "r = q" by (subst (asm) parse_acl_elements.simps) auto
    with Some show ?thesis by (auto simp: conf_consume_Some)
  qed
qed

lemma parse_key_list_shorter: "parse_key_list p ts = Inr (x, r) \<Longrightarrow> length r < length ts"
proof (induction p ts arbitrary: x rule: parse_key_list.induct)
  case (1 p ts)
  show ?case
  proof (cases "conf_consume ConfClose ts")
    case None
    from "1.prems" None obtain t r1 v d r2 y where step: "ts = t # r1" "conf_text p t = Inr v"
      "conf_name p (ct_line t) v = Inr d" "conf_expect p ConfSemi r1 = Inr r2" "parse_key_list p r2 = Inr (y, r)"
      by (subst (asm) parse_key_list.simps) (auto simp: result_simps)
    from "1.IH" [OF None _ refl step(2-5)] step(1,4) show ?thesis
      by (auto simp: conf_expect_Inr)
  next
    case (Some q)
    with "1.prems" have "r = q" by (subst (asm) parse_key_list.simps) auto
    with Some show ?thesis by (auto simp: conf_consume_Some)
  qed
qed

lemma parse_acl_shorter: "parse_acl p ts = Inr (x, r) \<Longrightarrow> length r < length ts"
  by (auto simp: parse_acl_def result_simps conf_expect_Inr dest!: parse_acl_elements_shorter)

lemma parse_key_names_shorter: "parse_key_names p ts = Inr (x, r) \<Longrightarrow> length r < length ts"
  by (auto simp: parse_key_names_def result_simps conf_expect_Inr dest!: parse_key_list_shorter)

lemma parse_port_shorter: "parse_port p ts = Inr (x, r) \<Longrightarrow> length r < length ts"
  by (auto simp: parse_port_def result_simps)

lemma skip_directive_shorter: "skip_directive p t x r = Inr (x', r') \<Longrightarrow> length r' < length r"
  by (auto simp: skip_directive_def result_simps dest: skip_statement_shorter)

lemma then_semi_shorter:
  "then_semi p res = Inr (x, r) \<Longrightarrow> (\<And>r'. res = Inr (x, r') \<Longrightarrow> length r' < n) \<Longrightarrow> length r < n"
  by (fastforce simp: then_semi_Inr)

lemmas consumed = next_text_shorter parse_acl_shorter parse_key_names_shorter parse_port_shorter skip_directive_shorter

section \<open>Blocks\<close>

text \<open>
  The blocks of the grammar are loops of one shape: until the closing token is there, read a value
  and let its directive read on. What every such loop has is proved here once.
\<close>

locale block_loop =
  fixes p :: conf_source
    and close :: conf_kind
    and body :: "conf_token \<Rightarrow> string \<Rightarrow> 'x \<Rightarrow> conf_tokens \<Rightarrow> 'x conf_result"
    and run :: "'x \<Rightarrow> conf_tokens \<Rightarrow> 'x conf_result"
  assumes run_unfold: "run x ts =
     (case conf_consume close ts of
        Some r \<Rightarrow> Inr (x, r)
      | None \<Rightarrow>
          rbind (next_conf p ts) (\<lambda>(t, r).
          rbind (conf_text p t) (\<lambda>w.
          rbind (body t w x r) (\<lambda>(x', r'). run x' r'))))"
    and body_shorter: "body t w x r = Inr (x', r') \<Longrightarrow> length r' < length r"
begin

lemma run_close: "ct_kind t = close \<Longrightarrow> run x (t # r) = Inr (x, r)"
  by (subst run_unfold) (simp add: conf_consume_def)

lemma run_step:
  "ct_kind t \<noteq> close \<Longrightarrow>
     run x (t # r) = rbind (conf_text p t) (\<lambda>w. rbind (body t w x r) (\<lambda>(x', r'). run x' r'))"
  by (subst run_unfold) (simp add: conf_consume_def next_conf_def)

lemma run_cases:
  assumes "run x ts = Inr (x', r')"
  obtains (close) t where "ts = t # r'" "ct_kind t = close" "x' = x"
  | (step) t r w y q where "ts = t # r" "ct_kind t \<noteq> close" "conf_text p t = Inr w"
      "body t w x r = Inr (y, q)" "run y q = Inr (x', r')"
proof (cases ts)
  case Nil
  with assms show thesis by (subst (asm) run_unfold) (simp add: conf_consume_def next_conf_def)
next
  case (Cons t r)
  show thesis
  proof (cases "ct_kind t = close")
    case True
    with assms Cons show thesis by (intro close) (auto simp: run_close)
  next
    case False
    with assms Cons show thesis by (auto simp: run_step result_simps intro: step)
  qed
qed

lemma run_shorter: "run x ts = Inr (x', r) \<Longrightarrow> length r < length ts"
proof (induction "length ts" arbitrary: x ts rule: less_induct)
  case less
  from less.prems show ?case
  proof (cases rule: run_cases)
    case (step t r' w y q)
    with less.hyps [of q y] body_shorter [OF step(4)] show ?thesis by simp
  qed simp
qed

end

section \<open>Zones\<close>

record zone_fields =
  zf_type :: "named_zone_type option"
  zf_file :: "string option"
  zf_transfer :: "acl option"

definition zone_type_of :: "string \<Rightarrow> named_zone_type option" where
  "zone_type_of v =
     (if v = ''primary'' \<or> v = ''master'' then Some ZonePrimary
      else if v = ''secondary'' \<or> v = ''slave'' then Some ZoneSecondary
      else if v = ''stub'' then Some ZoneStub
      else if v = ''forward'' then Some ZoneForward
      else None)"

definition zone_directive ::
    "conf_source \<Rightarrow> conf_token \<Rightarrow> string \<Rightarrow> zone_fields \<Rightarrow> conf_tokens \<Rightarrow> zone_fields conf_result" where
  "zone_directive p t w x r =
     (if lower_text w = ''type'' then
        rbind (next_text p r) (\<lambda>(v, r).
        rbind (ok_or (parse_error (cs_path p) (ct_line t) (''unsupported zone type `'' @ lower_text v @ ''`''))
                 (zone_type_of (lower_text v))) (\<lambda>ty.
          then_semi p (Inr (x\<lparr>zf_type := Some ty\<rparr>, r))))
      else if lower_text w = ''file'' then
        then_semi p (rmap (apfst (\<lambda>v. x\<lparr>zf_file := Some v\<rparr>)) (next_text p r))
      else if lower_text w = ''allow-transfer'' then
        then_semi p (rmap (apfst (\<lambda>a. x\<lparr>zf_transfer := Some a\<rparr>)) (parse_acl p r))
      else skip_directive p t x r)"

lemma zone_directive_shorter: "zone_directive p t w x r = Inr (x', r') \<Longrightarrow> length r' < length r"
  by (auto simp: zone_directive_def result_simps then_semi_Inr split: if_splits dest!: consumed)

function zone_block :: "conf_source \<Rightarrow> zone_fields \<Rightarrow> conf_tokens \<Rightarrow> zone_fields conf_result" where
  "zone_block p x ts =
     (case conf_consume ConfClose ts of
        Some r \<Rightarrow> Inr (x, r)
      | None \<Rightarrow>
          rbind (next_conf p ts) (\<lambda>(t, r).
          rbind (conf_text p t) (\<lambda>w.
          rbind (zone_directive p t w x r) (\<lambda>(x', r'). zone_block p x' r'))))"
  by pat_completeness auto
termination
  by (relation "measure (\<lambda>(p, x, ts). length ts)") (auto dest: zone_directive_shorter)

declare zone_block.simps [simp del]

interpretation zone_loop: block_loop p ConfClose "zone_directive p" "zone_block p" for p
  by unfold_locales (rule zone_block.simps, rule zone_directive_shorter)

definition parse_zone_statement :: "conf_source \<Rightarrow> u32 \<Rightarrow> conf_tokens \<Rightarrow> named_zone conf_result" where
  "parse_zone_statement p line ts =
     rbind (next_text p ts) (\<lambda>(v, r).
     rbind (conf_name p line v) (\<lambda>name.
     rbind (conf_expect p ConfOpen r) (\<lambda>r.
     rbind (zone_block p \<lparr>zf_type = None, zf_file = None, zf_transfer = None\<rparr> r) (\<lambda>(x, r).
     rbind (conf_expect p ConfSemi r) (\<lambda>r.
     rmap (\<lambda>ty. (\<lparr>nz_name = name, nz_type = ty, nz_file = zf_file x, nz_allow_transfer = zf_transfer x\<rparr>, r))
       (ok_or (parse_error (cs_path p) line ''zone block is missing `type`'') (zf_type x)))))))"

section \<open>Keys and named lists\<close>

record key_fields =
  kf_algorithm :: "tsig_algorithm option"
  kf_secret :: "string option"

definition key_algorithm_of :: "string \<Rightarrow> tsig_algorithm option" where
  "key_algorithm_of v =
     (let name = rev (dropWhile (\<lambda>c. c = dot) (rev v)) in
      if name = ''hmac-sha256'' then Some HmacSha256
      else if name = ''hmac-sha512'' then Some HmacSha512
      else if name = ''hmac-sha1'' then Some HmacSha1
      else None)"

definition key_directive ::
    "conf_source \<Rightarrow> conf_token \<Rightarrow> string \<Rightarrow> key_fields \<Rightarrow> conf_tokens \<Rightarrow> key_fields conf_result" where
  "key_directive p t w x r =
     (if lower_text w = ''algorithm'' then
        rbind (next_text p r) (\<lambda>(v, r).
        rbind (ok_or (parse_error (cs_path p) (ct_line t) (''unsupported TSIG algorithm `'' @ lower_text v @ ''`''))
                 (key_algorithm_of (lower_text v))) (\<lambda>alg.
          then_semi p (Inr (x\<lparr>kf_algorithm := Some alg\<rparr>, r))))
      else if lower_text w = ''secret'' then
        then_semi p (rmap (apfst (\<lambda>v. x\<lparr>kf_secret := Some v\<rparr>)) (next_text p r))
      else skip_directive p t x r)"

lemma key_directive_shorter: "key_directive p t w x r = Inr (x', r') \<Longrightarrow> length r' < length r"
  by (auto simp: key_directive_def result_simps then_semi_Inr split: if_splits dest!: consumed)

function key_block :: "conf_source \<Rightarrow> key_fields \<Rightarrow> conf_tokens \<Rightarrow> key_fields conf_result" where
  "key_block p x ts =
     (case conf_consume ConfClose ts of
        Some r \<Rightarrow> Inr (x, r)
      | None \<Rightarrow>
          rbind (next_conf p ts) (\<lambda>(t, r).
          rbind (conf_text p t) (\<lambda>w.
          rbind (key_directive p t w x r) (\<lambda>(x', r'). key_block p x' r'))))"
  by pat_completeness auto
termination
  by (relation "measure (\<lambda>(p, x, ts). length ts)") (auto dest: key_directive_shorter)

declare key_block.simps [simp del]

interpretation key_loop: block_loop p ConfClose "key_directive p" "key_block p" for p
  by unfold_locales (rule key_block.simps, rule key_directive_shorter)

definition parse_key_statement :: "conf_source \<Rightarrow> u32 \<Rightarrow> conf_tokens \<Rightarrow> tsig_key conf_result" where
  "parse_key_statement p line ts =
     rbind (next_text p ts) (\<lambda>(v, r).
     rbind (conf_name p line v) (\<lambda>name.
     rbind (conf_expect p ConfOpen r) (\<lambda>r.
     rbind (key_block p \<lparr>kf_algorithm = None, kf_secret = None\<rparr> r) (\<lambda>(x, r).
     rbind (conf_expect p ConfSemi r) (\<lambda>r.
     rbind (ok_or (parse_error (cs_path p) line ''key block is missing `algorithm`'') (kf_algorithm x)) (\<lambda>alg.
     rbind (ok_or (parse_error (cs_path p) line ''key block is missing `secret`'') (kf_secret x)) (\<lambda>secret.
     rmap (\<lambda>key. (key, r)) (map_err (\<lambda>e. parse_error (cs_path p) line (core_error_display e))
       (tsig_key_from_base64 (cs_base64 p) name alg secret)))))))))"

definition parse_named_acl :: "conf_source \<Rightarrow> conf_tokens \<Rightarrow> named_acl conf_result" where
  "parse_named_acl p ts =
     rbind (next_text p ts) (\<lambda>(name, r).
       then_semi p (rmap (apfst (\<lambda>a. \<lparr>na_name = name, na_acl = a\<rparr>)) (parse_acl p r)))"

section \<open>Control and statistics listeners\<close>

definition endpoint_option ::
    "conf_source \<Rightarrow> conf_token \<Rightarrow> string \<Rightarrow> control_endpoint \<Rightarrow> conf_tokens \<Rightarrow> control_endpoint conf_result" where
  "endpoint_option p t w x r =
     (if lower_text w = ''port'' then rmap (apfst (\<lambda>n. x\<lparr>ce_port := n\<rparr>)) (parse_port p r)
      else if lower_text w = ''allow'' then rmap (apfst (\<lambda>a. x\<lparr>ce_allow := Some a\<rparr>)) (parse_acl p r)
      else if lower_text w = ''keys'' then rmap (apfst (\<lambda>ks. x\<lparr>ce_keys := ks\<rparr>)) (parse_key_names p r)
      else skip_directive p t x r)"

lemma endpoint_option_shorter: "endpoint_option p t w x r = Inr (x', r') \<Longrightarrow> length r' < length r"
  by (auto simp: endpoint_option_def result_simps split: if_splits dest!: consumed)

function endpoint_options :: "conf_source \<Rightarrow> control_endpoint \<Rightarrow> conf_tokens \<Rightarrow> control_endpoint conf_result" where
  "endpoint_options p x ts =
     (case conf_consume ConfSemi ts of
        Some r \<Rightarrow> Inr (x, r)
      | None \<Rightarrow>
          rbind (next_conf p ts) (\<lambda>(t, r).
          rbind (conf_text p t) (\<lambda>w.
          rbind (endpoint_option p t w x r) (\<lambda>(x', r'). endpoint_options p x' r'))))"
  by pat_completeness auto
termination
  by (relation "measure (\<lambda>(p, x, ts). length ts)") (auto dest: endpoint_option_shorter)

declare endpoint_options.simps [simp del]

interpretation endpoint_loop: block_loop p ConfSemi "endpoint_option p" "endpoint_options p" for p
  by unfold_locales (rule endpoint_options.simps, rule endpoint_option_shorter)

text \<open>The two kinds of listeners begin alike: \<open>inet\<close> and an address.\<close>

definition parse_inet :: "conf_source \<Rightarrow> conf_token \<Rightarrow> conf_tokens \<Rightarrow> listen_address conf_result" where
  "parse_inet p t r =
     rbind (next_text p r) (\<lambda>(v, r). rmap (\<lambda>a. (a, r)) (parse_listen p (ct_line t) v))"

lemma parse_inet_shorter: "parse_inet p t r = Inr (a, r') \<Longrightarrow> length r' < length r"
  by (auto simp: parse_inet_def result_simps dest: next_text_shorter)

definition controls_directive ::
    "conf_source \<Rightarrow> conf_token \<Rightarrow> string \<Rightarrow> control_endpoint list \<Rightarrow> conf_tokens \<Rightarrow> control_endpoint list conf_result" where
  "controls_directive p t w x r =
     (if same_text w ''inet'' then
        rbind (parse_inet p t r) (\<lambda>(a, r).
          rmap (apfst (\<lambda>e. x @ [e]))
            (endpoint_options p \<lparr>ce_address = a, ce_port = 953, ce_allow = None, ce_keys = []\<rparr> r))
      else skip_directive p t x r)"

lemma controls_directive_shorter: "controls_directive p t w x r = Inr (x', r') \<Longrightarrow> length r' < length r"
  by (auto simp: controls_directive_def result_simps split: if_splits
      dest!: parse_inet_shorter endpoint_loop.run_shorter dest: consumed)

function controls_block :: "conf_source \<Rightarrow> control_endpoint list \<Rightarrow> conf_tokens \<Rightarrow> control_endpoint list conf_result" where
  "controls_block p x ts =
     (case conf_consume ConfClose ts of
        Some r \<Rightarrow> Inr (x, r)
      | None \<Rightarrow>
          rbind (next_conf p ts) (\<lambda>(t, r).
          rbind (conf_text p t) (\<lambda>w.
          rbind (controls_directive p t w x r) (\<lambda>(x', r'). controls_block p x' r'))))"
  by pat_completeness auto
termination
  by (relation "measure (\<lambda>(p, x, ts). length ts)") (auto dest: controls_directive_shorter)

declare controls_block.simps [simp del]

interpretation controls_loop: block_loop p ConfClose "controls_directive p" "controls_block p" for p
  by unfold_locales (rule controls_block.simps, rule controls_directive_shorter)

definition channel_option ::
    "conf_source \<Rightarrow> conf_token \<Rightarrow> string \<Rightarrow> statistics_channel \<Rightarrow> conf_tokens \<Rightarrow> statistics_channel conf_result" where
  "channel_option p t w x r =
     (if lower_text w = ''port'' then rmap (apfst (\<lambda>n. x\<lparr>sc_port := n\<rparr>)) (parse_port p r)
      else if lower_text w = ''allow'' then rmap (apfst (\<lambda>a. x\<lparr>sc_allow := Some a\<rparr>)) (parse_acl p r)
      else skip_directive p t x r)"

lemma channel_option_shorter: "channel_option p t w x r = Inr (x', r') \<Longrightarrow> length r' < length r"
  by (auto simp: channel_option_def result_simps split: if_splits dest!: consumed)

function channel_options :: "conf_source \<Rightarrow> statistics_channel \<Rightarrow> conf_tokens \<Rightarrow> statistics_channel conf_result" where
  "channel_options p x ts =
     (case conf_consume ConfSemi ts of
        Some r \<Rightarrow> Inr (x, r)
      | None \<Rightarrow>
          rbind (next_conf p ts) (\<lambda>(t, r).
          rbind (conf_text p t) (\<lambda>w.
          rbind (channel_option p t w x r) (\<lambda>(x', r'). channel_options p x' r'))))"
  by pat_completeness auto
termination
  by (relation "measure (\<lambda>(p, x, ts). length ts)") (auto dest: channel_option_shorter)

declare channel_options.simps [simp del]

interpretation channel_loop: block_loop p ConfSemi "channel_option p" "channel_options p" for p
  by unfold_locales (rule channel_options.simps, rule channel_option_shorter)

definition channels_directive ::
    "conf_source \<Rightarrow> conf_token \<Rightarrow> string \<Rightarrow> statistics_channel list \<Rightarrow> conf_tokens \<Rightarrow> statistics_channel list conf_result" where
  "channels_directive p t w x r =
     (if same_text w ''inet'' then
        rbind (parse_inet p t r) (\<lambda>(a, r).
          rmap (apfst (\<lambda>c. x @ [c]))
            (channel_options p \<lparr>sc_address = a, sc_port = 80, sc_allow = None\<rparr> r))
      else skip_directive p t x r)"

lemma channels_directive_shorter: "channels_directive p t w x r = Inr (x', r') \<Longrightarrow> length r' < length r"
  by (auto simp: channels_directive_def result_simps split: if_splits
      dest!: parse_inet_shorter channel_loop.run_shorter dest: consumed)

function channels_block :: "conf_source \<Rightarrow> statistics_channel list \<Rightarrow> conf_tokens \<Rightarrow> statistics_channel list conf_result" where
  "channels_block p x ts =
     (case conf_consume ConfClose ts of
        Some r \<Rightarrow> Inr (x, r)
      | None \<Rightarrow>
          rbind (next_conf p ts) (\<lambda>(t, r).
          rbind (conf_text p t) (\<lambda>w.
          rbind (channels_directive p t w x r) (\<lambda>(x', r'). channels_block p x' r'))))"
  by pat_completeness auto
termination
  by (relation "measure (\<lambda>(p, x, ts). length ts)") (auto dest: channels_directive_shorter)

declare channels_block.simps [simp del]

interpretation channels_loop: block_loop p ConfClose "channels_directive p" "channels_block p" for p
  by unfold_locales (rule channels_block.simps, rule channels_directive_shorter)

text \<open>A block of listeners between braces, and the semicolon after it.\<close>

definition parse_controls :: "conf_source \<Rightarrow> conf_tokens \<Rightarrow> control_endpoint list conf_result" where
  "parse_controls p ts =
     then_semi p (rbind (conf_expect p ConfOpen ts) (controls_block p []))"

definition parse_statistics_channels :: "conf_source \<Rightarrow> conf_tokens \<Rightarrow> statistics_channel list conf_result" where
  "parse_statistics_channels p ts =
     then_semi p (rbind (conf_expect p ConfOpen ts) (channels_block p []))"

lemma parse_controls_shorter: "parse_controls p ts = Inr (x, r) \<Longrightarrow> length r < length ts"
  by (auto simp: parse_controls_def then_semi_Inr result_simps conf_expect_Inr dest!: controls_loop.run_shorter)

lemma parse_statistics_channels_shorter: "parse_statistics_channels p ts = Inr (x, r) \<Longrightarrow> length r < length ts"
  by (auto simp: parse_statistics_channels_def then_semi_Inr result_simps conf_expect_Inr
      dest!: channels_loop.run_shorter)

section \<open>Options and the whole file\<close>

text \<open>The directives of \<open>options\<close> change the output of the parser.\<close>

definition set_options :: "(named_options \<Rightarrow> named_options) \<Rightarrow> named_conf \<Rightarrow> named_conf" where
  "set_options f x = x\<lparr>nc_options := f (nc_options x)\<rparr>"

definition add_channels :: "named_conf \<Rightarrow> statistics_channel list \<Rightarrow> named_conf" where
  "add_channels x cs = x\<lparr>nc_statistics_channels := nc_statistics_channels x @ cs\<rparr>"

definition options_directive ::
    "conf_source \<Rightarrow> conf_token \<Rightarrow> string \<Rightarrow> named_conf \<Rightarrow> conf_tokens \<Rightarrow> named_conf conf_result" where
  "options_directive p t w x r =
     (if lower_text w = ''directory'' then
        then_semi p (rmap (apfst (\<lambda>v. set_options (no_directory_update (\<lambda>_. Some v)) x)) (next_text p r))
      else if lower_text w = ''allow-recursion'' then
        then_semi p (rmap (apfst (\<lambda>a. set_options (no_allow_recursion_update (\<lambda>_. Some a)) x)) (parse_acl p r))
      else if lower_text w = ''statistics-channels'' then
        rmap (apfst (add_channels x)) (parse_statistics_channels p r)
      else skip_directive p t x r)"

lemma options_directive_shorter: "options_directive p t w x r = Inr (x', r') \<Longrightarrow> length r' < length r"
  by (auto simp: options_directive_def result_simps then_semi_Inr split: if_splits
      dest!: consumed parse_statistics_channels_shorter)

function options_block :: "conf_source \<Rightarrow> named_conf \<Rightarrow> conf_tokens \<Rightarrow> named_conf conf_result" where
  "options_block p x ts =
     (case conf_consume ConfClose ts of
        Some r \<Rightarrow> Inr (x, r)
      | None \<Rightarrow>
          rbind (next_conf p ts) (\<lambda>(t, r).
          rbind (conf_text p t) (\<lambda>w.
          rbind (options_directive p t w x r) (\<lambda>(x', r'). options_block p x' r'))))"
  by pat_completeness auto
termination
  by (relation "measure (\<lambda>(p, x, ts). length ts)") (auto dest: options_directive_shorter)

declare options_block.simps [simp del]

interpretation options_loop: block_loop p ConfClose "options_directive p" "options_block p" for p
  by unfold_locales (rule options_block.simps, rule options_directive_shorter)

definition parse_options :: "conf_source \<Rightarrow> u32 \<Rightarrow> named_conf \<Rightarrow> conf_tokens \<Rightarrow> named_conf conf_result" where
  "parse_options p line x ts =
     rbind (conf_expect p ConfOpen ts) (\<lambda>r.
     rbind (options_block p x r) (\<lambda>(x', r).
       rmap (\<lambda>r. (x', r))
         (map_err (\<lambda>_. parse_error (cs_path p) line ''unterminated options block'') (conf_expect p ConfSemi r))))"

definition parse_statement :: "conf_source \<Rightarrow> conf_token \<Rightarrow> string \<Rightarrow> named_conf \<Rightarrow> conf_tokens \<Rightarrow> named_conf conf_result" where
  "parse_statement p t w x r =
     (if lower_text w = ''zone'' then
        rmap (apfst (\<lambda>z. x\<lparr>nc_zones := nc_zones x @ [z]\<rparr>)) (parse_zone_statement p (ct_line t) r)
      else if lower_text w = ''key'' then
        rmap (apfst (\<lambda>k. x\<lparr>nc_keys := nc_keys x @ [k]\<rparr>)) (parse_key_statement p (ct_line t) r)
      else if lower_text w = ''acl'' then
        rmap (apfst (\<lambda>a. x\<lparr>nc_acls := nc_acls x @ [a]\<rparr>)) (parse_named_acl p r)
      else if lower_text w = ''options'' then parse_options p (ct_line t) x r
      else if lower_text w = ''controls'' then
        rmap (apfst (\<lambda>es. x\<lparr>nc_controls := nc_controls x @ es\<rparr>)) (parse_controls p r)
      else if lower_text w = ''statistics-channels'' then
        rmap (apfst (add_channels x)) (parse_statistics_channels p r)
      else skip_directive p t x r)"

lemma parse_zone_statement_shorter: "parse_zone_statement p line ts = Inr (x, r) \<Longrightarrow> length r < length ts"
  by (auto simp: parse_zone_statement_def result_simps conf_expect_Inr dest!: next_text_shorter zone_loop.run_shorter)

lemma parse_key_statement_shorter: "parse_key_statement p line ts = Inr (x, r) \<Longrightarrow> length r < length ts"
  by (auto simp: parse_key_statement_def result_simps conf_expect_Inr dest!: next_text_shorter key_loop.run_shorter)

lemma parse_named_acl_shorter: "parse_named_acl p ts = Inr (x, r) \<Longrightarrow> length r < length ts"
  by (auto simp: parse_named_acl_def then_semi_Inr result_simps dest!: next_text_shorter parse_acl_shorter)

lemma parse_options_shorter: "parse_options p line x ts = Inr (x', r) \<Longrightarrow> length r < length ts"
  by (auto simp: parse_options_def result_simps conf_expect_Inr dest!: options_loop.run_shorter)

lemma parse_statement_shorter: "parse_statement p t w x r = Inr (x', r') \<Longrightarrow> length r' < length r"
  by (auto simp: parse_statement_def result_simps split: if_splits dest: parse_zone_statement_shorter
      parse_key_statement_shorter parse_named_acl_shorter parse_options_shorter parse_controls_shorter
      parse_statistics_channels_shorter skip_directive_shorter)

function parse_statements :: "conf_source \<Rightarrow> named_conf \<Rightarrow> conf_tokens \<Rightarrow> core_error + named_conf" where
  "parse_statements p x [] = Inr x"
| "parse_statements p x (t # r) =
     rbind (conf_text p t) (\<lambda>w.
     rbind (parse_statement p t w x r) (\<lambda>(x', r'). parse_statements p x' r'))"
  by pat_completeness auto
termination
  by (relation "measure (\<lambda>(p, x, ts). length ts)") (auto dest: parse_statement_shorter)

definition last_line :: "conf_tokens \<Rightarrow> u32" where
  "last_line ts = (if ts = [] then 1 else ct_line (last ts))"

definition named_conf_parse ::
    "(byte list \<Rightarrow> byte list option) \<Rightarrow> string \<Rightarrow> string \<Rightarrow> core_error + named_conf" where
  "named_conf_parse base64 path input =
     rbind (tokenize path (utf8_chars input) 1) (\<lambda>ts.
       parse_statements \<lparr>cs_path = path, cs_eof = last_line ts, cs_base64 = base64\<rparr> named_conf_default ts)"

end
