(* ===== verification/Conf_Checks.thy ===== *)
theory Conf_Checks
  imports Named_Conf
begin

text \<open>
  What the parser of \<open>named.conf\<close> guarantees: every error names the file and one of its lines, and
  every configuration it returns is well formed. Both are proved together, by weakest
  preconditions for the reading operations.
\<close>

section \<open>Weakest preconditions\<close>

text \<open>\<open>P\<close> holds of the lines an error may name, \<open>Q\<close> of the results.\<close>

definition sound :: "conf_source \<Rightarrow> (u32 \<Rightarrow> bool) \<Rightarrow> ('a \<Rightarrow> bool) \<Rightarrow> core_error + 'a \<Rightarrow> bool" where
  "sound p P Q res \<longleftrightarrow>
     (case res of
        Inl e \<Rightarrow> (\<exists>l reason. e = NamedConfParse (cs_path p) l reason \<and> P l)
      | Inr y \<Rightarrow> Q y)"

definition lines_in :: "(u32 \<Rightarrow> bool) \<Rightarrow> conf_tokens \<Rightarrow> bool" where
  "lines_in P ts \<longleftrightarrow> (\<forall>t\<in>set ts. P (ct_line t))"

named_theorems conf_wp

lemma sound_simps [simp]:
  "sound p P Q (Inr y) \<longleftrightarrow> Q y"
  "sound p P Q (Inl (parse_error (cs_path p) l reason)) \<longleftrightarrow> P l"
  by (auto simp: sound_def parse_error_def)

lemma lines_in_simps [simp]: "lines_in P []" "lines_in P (t # r) \<longleftrightarrow> P (ct_line t) \<and> lines_in P r"
  by (auto simp: lines_in_def)

lemma sound_mono: "sound p P Q m \<Longrightarrow> (\<And>y. Q y \<Longrightarrow> Q' y) \<Longrightarrow> sound p P Q' m"
  by (auto simp: sound_def split: sum.splits)

lemma sound_rbind [conf_wp]: "sound p P (\<lambda>y. sound p P Q (f y)) m \<Longrightarrow> sound p P Q (rbind m f)"
  by (cases m) (auto simp: sound_def)

lemma sound_rbind_step:
  "sound p P R m \<Longrightarrow> (\<And>y. m = Inr y \<Longrightarrow> R y \<Longrightarrow> sound p P Q (f y)) \<Longrightarrow> sound p P Q (rbind m f)"
  by (cases m) (auto simp: sound_def)

lemma sound_rmap [conf_wp]: "sound p P (\<lambda>y. Q (f y)) m \<Longrightarrow> sound p P Q (rmap f m)"
  by (cases m) (auto simp: sound_def)

lemma sound_ok_or [conf_wp]:
  "(m = None \<Longrightarrow> P l) \<Longrightarrow> (\<And>x. m = Some x \<Longrightarrow> Q x) \<Longrightarrow> sound p P Q (ok_or (parse_error (cs_path p) l reason) m)"
  by (cases m) auto

lemma sound_map_err [conf_wp]:
  "P l \<Longrightarrow> (\<And>x. m = Inr x \<Longrightarrow> Q x) \<Longrightarrow> sound p P Q (map_err (\<lambda>e. parse_error (cs_path p) l (reason e)) m)"
  by (cases m) auto

lemma sound_if [conf_wp]:
  "(b \<Longrightarrow> sound p P Q m) \<Longrightarrow> (\<not> b \<Longrightarrow> sound p P Q n) \<Longrightarrow> sound p P Q (if b then m else n)"
  by simp

lemma sound_next_conf [conf_wp]:
  "P (cs_eof p) \<Longrightarrow> lines_in P ts \<Longrightarrow> (\<And>t r. P (ct_line t) \<Longrightarrow> lines_in P r \<Longrightarrow> Q (t, r)) \<Longrightarrow> sound p P Q (next_conf p ts)"
  by (cases ts) (auto simp: next_conf_def)

lemma sound_conf_text [conf_wp]: "P (ct_line t) \<Longrightarrow> (\<And>v. Q v) \<Longrightarrow> sound p P Q (conf_text p t)"
  by (auto simp: conf_text_def split: conf_kind.split)

lemma sound_next_text [conf_wp]:
  "P (cs_eof p) \<Longrightarrow> lines_in P ts \<Longrightarrow> (\<And>v r. lines_in P r \<Longrightarrow> Q (v, r)) \<Longrightarrow> sound p P Q (next_text p ts)"
  unfolding next_text_def by (auto intro!: conf_wp)

lemma sound_conf_expect [conf_wp]:
  "P (cs_eof p) \<Longrightarrow> lines_in P ts \<Longrightarrow> (\<And>r. lines_in P r \<Longrightarrow> Q r) \<Longrightarrow> sound p P Q (conf_expect p k ts)"
  unfolding conf_expect_def by (auto intro!: conf_wp)

lemma lines_in_consume: "conf_consume k ts = Some r \<Longrightarrow> lines_in P ts \<Longrightarrow> lines_in P r"
  by (auto simp: conf_consume_Some)

lemma lines_in_skip: "skip_from d ts = Some r \<Longrightarrow> lines_in P ts \<Longrightarrow> lines_in P r"
  by (induction d ts rule: skip_from.induct) (auto split: if_splits)

lemma sound_skip_directive [conf_wp]:
  "P (ct_line t) \<Longrightarrow> lines_in P ts \<Longrightarrow> (\<And>r. lines_in P r \<Longrightarrow> Q (x, r)) \<Longrightarrow> sound p P Q (skip_directive p t x ts)"
  unfolding skip_directive_def skip_statement_def by (auto intro!: conf_wp dest: lines_in_skip)

lemma sound_then_semi [conf_wp]:
  "P (cs_eof p) \<Longrightarrow> sound p P (\<lambda>(x, r). lines_in P r \<and> (\<forall>r. lines_in P r \<longrightarrow> Q (x, r))) m \<Longrightarrow> sound p P Q (then_semi p m)"
  unfolding then_semi_def by (rule sound_rbind, erule sound_mono) (auto intro!: conf_wp)

lemma sound_conf_name [conf_wp]:
  "P line \<Longrightarrow> (\<And>d. name_wf d \<Longrightarrow> Q d) \<Longrightarrow> sound p P Q (conf_name p line s)"
  unfolding conf_name_def by (auto intro!: conf_wp dest: domain_new_wf)

section \<open>Address match lists\<close>

fun acl_simple :: "acl_element \<Rightarrow> bool" where
  "acl_simple (AclNetwork a n) = (unat n \<le> (case a of V4 _ \<Rightarrow> 32 | V6 _ \<Rightarrow> 128))"
| "acl_simple (AclKey d) = name_wf d"
| "acl_simple (AclNegated e) = False"
| "acl_simple _ = True"

fun element_wf :: "acl_element \<Rightarrow> bool" where
  "element_wf (AclNegated e) = acl_simple e"
| "element_wf e = acl_simple e"

definition acl_wf :: "acl \<Rightarrow> bool" where
  "acl_wf a \<longleftrightarrow> list_all element_wf a"

lemma simple_wf: "acl_simple e \<Longrightarrow> element_wf e \<and> element_wf (AclNegated e)"
  by (cases e) auto

lemma sound_parse_acl_element [conf_wp]:
  "P line \<Longrightarrow> (\<And>e. acl_simple e \<Longrightarrow> Q e) \<Longrightarrow> sound p P Q (parse_acl_element p line v)"
  unfolding parse_acl_element_def parse_network_def Let_def
  by (auto intro!: conf_wp split: option.split ip_addr.split simp: not_less)

lemma sound_parse_acl_item [conf_wp]:
  "P (cs_eof p) \<Longrightarrow> lines_in P ts \<Longrightarrow> (\<And>e r. acl_simple e \<Longrightarrow> lines_in P r \<Longrightarrow> Q (e, r))
     \<Longrightarrow> sound p P Q (parse_acl_item p ts)"
  unfolding parse_acl_item_def by (auto intro!: conf_wp)

lemma sound_parse_acl_elements:
  "P (cs_eof p) \<Longrightarrow> lines_in P ts \<Longrightarrow> sound p P (\<lambda>(a, r). acl_wf a \<and> lines_in P r) (parse_acl_elements p ts)"
proof (induction p ts rule: parse_acl_elements.induct)
  case (1 p ts)
  show ?case
  proof (cases "conf_consume ConfClose ts")
    case None
    obtain b rest where rest: "(case conf_consume ConfBang ts of Some r \<Rightarrow> (True, r) | None \<Rightarrow> (False, ts)) = (b, rest)"
      by fastforce
    with "1.prems" have "lines_in P rest"
      by (auto split: option.splits dest: lines_in_consume)
    then have "sound p P (\<lambda>(e, r). acl_simple e \<and> lines_in P r) (parse_acl_item p rest)"
      using "1.prems"(1) by (auto intro: conf_wp)
    then have "sound p P (\<lambda>(a, r). acl_wf a \<and> lines_in P r) (rbind (parse_acl_item p rest) (\<lambda>(e, r).
        rbind (conf_expect p ConfSemi r) (\<lambda>r'.
          rmap (apfst (Cons (if b then AclNegated e else e))) (parse_acl_elements p r'))))"
    proof (rule sound_rbind_step, clarify)
      fix e r assume item: "parse_acl_item p rest = Inr (e, r)" "acl_simple e" "lines_in P r"
      have "sound p P (lines_in P) (conf_expect p ConfSemi r)"
        using "1.prems"(1) item(3) by (auto intro: conf_wp)
      then show "sound p P (\<lambda>(a, r). acl_wf a \<and> lines_in P r) (rbind (conf_expect p ConfSemi r) (\<lambda>r'.
          rmap (apfst (Cons (if b then AclNegated e else e))) (parse_acl_elements p r')))"
      proof (rule sound_rbind_step)
        fix r' assume "conf_expect p ConfSemi r = Inr r'" "lines_in P r'"
        from "1.IH" [OF None rest [symmetric] refl item(1) refl this(1) "1.prems"(1) this(2)] item(2) simple_wf
        show "sound p P (\<lambda>(a, r). acl_wf a \<and> lines_in P r)
            (rmap (apfst (Cons (if b then AclNegated e else e))) (parse_acl_elements p r'))"
          by (intro sound_rmap) (auto elim!: sound_mono simp: acl_wf_def)
      qed
    qed
    then show ?thesis using None rest by (subst parse_acl_elements.simps) simp
  next
    case (Some r)
    with "1.prems" show ?thesis
      by (subst parse_acl_elements.simps) (auto simp: acl_wf_def dest: lines_in_consume)
  qed
qed

lemma sound_parse_acl [conf_wp]:
  "P (cs_eof p) \<Longrightarrow> lines_in P ts \<Longrightarrow> (\<And>a r. acl_wf a \<Longrightarrow> lines_in P r \<Longrightarrow> Q (a, r)) \<Longrightarrow> sound p P Q (parse_acl p ts)"
  unfolding parse_acl_def by (auto intro!: conf_wp elim!: sound_mono [OF sound_parse_acl_elements])

lemma sound_parse_key_list:
  "P (cs_eof p) \<Longrightarrow> lines_in P ts \<Longrightarrow> sound p P (\<lambda>(ks, r). list_all name_wf ks \<and> lines_in P r) (parse_key_list p ts)"
proof (induction p ts rule: parse_key_list.induct)
  case (1 p ts)
  show ?case
  proof (cases "conf_consume ConfClose ts")
    case None
    have "sound p P (\<lambda>(ks, r). list_all name_wf ks \<and> lines_in P r)
        (rbind (next_conf p ts) (\<lambda>(t, r). rbind (conf_text p t) (\<lambda>v. rbind (conf_name p (ct_line t) v) (\<lambda>d.
          rbind (conf_expect p ConfSemi r) (\<lambda>r'. rmap (apfst (Cons d)) (parse_key_list p r'))))))"
    proof (rule sound_rbind_step [where R = "\<lambda>(t, r). P (ct_line t) \<and> lines_in P r"], goal_cases)
      case (2 y)
      obtain t r where y: "y = (t, r)" by (cases y)
      with 2 have step: "next_conf p ts = Inr (t, r)" "P (ct_line t)" "lines_in P r" by auto
      have "sound p P (\<lambda>(ks, r). list_all name_wf ks \<and> lines_in P r) (rbind (conf_expect p ConfSemi r)
          (\<lambda>r'. rmap (apfst (Cons d)) (parse_key_list p r')))"
        if "conf_text p t = Inr v" "conf_name p (ct_line t) v = Inr d" "name_wf d" for v d
      proof (rule sound_rbind_step [where R = "lines_in P"])
        fix r' assume r': "conf_expect p ConfSemi r = Inr r'" "lines_in P r'"
        show "sound p P (\<lambda>(ks, r). list_all name_wf ks \<and> lines_in P r) (rmap (apfst (Cons d)) (parse_key_list p r'))"
          using that(3) by (intro sound_rmap sound_mono [OF "1.IH" [OF None step(1) refl that(1,2) r'(1) "1.prems"(1) r'(2)]]) auto
      qed (use step "1.prems" in \<open>auto intro: conf_wp\<close>)
      then have named: "sound p P (\<lambda>(ks, r). list_all name_wf ks \<and> lines_in P r) (rbind (conf_name p (ct_line t) v)
          (\<lambda>d. rbind (conf_expect p ConfSemi r) (\<lambda>r'. rmap (apfst (Cons d)) (parse_key_list p r'))))"
        if "conf_text p t = Inr v" for v
        using that step(2) by (intro sound_rbind_step [where R = name_wf]) (auto intro: conf_wp)
      have "sound p P (\<lambda>_. True) (conf_text p t)" using step(2) by (simp add: sound_conf_text)
      then show ?case unfolding y prod.case by (rule sound_rbind_step) (rule named)
    qed (use "1.prems" in \<open>auto intro: conf_wp\<close>)
    then show ?thesis using None by (subst parse_key_list.simps) simp
  next
    case (Some r)
    with "1.prems" show ?thesis
      by (subst parse_key_list.simps) (auto dest: lines_in_consume)
  qed
qed

lemma sound_parse_key_names [conf_wp]:
  "P (cs_eof p) \<Longrightarrow> lines_in P ts \<Longrightarrow> (\<And>ks r. list_all name_wf ks \<Longrightarrow> lines_in P r \<Longrightarrow> Q (ks, r))
     \<Longrightarrow> sound p P Q (parse_key_names p ts)"
  unfolding parse_key_names_def by (auto intro!: conf_wp elim!: sound_mono [OF sound_parse_key_list])

lemma sound_parse_port [conf_wp]:
  "P (cs_eof p) \<Longrightarrow> lines_in P ts \<Longrightarrow> (\<And>n r. lines_in P r \<Longrightarrow> Q (n, r)) \<Longrightarrow> sound p P Q (parse_port p ts)"
  unfolding parse_port_def by (auto intro!: conf_wp)

lemma sound_parse_inet [conf_wp]:
  "P (ct_line t) \<Longrightarrow> P (cs_eof p) \<Longrightarrow> lines_in P ts \<Longrightarrow> (\<And>a r. lines_in P r \<Longrightarrow> Q (a, r))
     \<Longrightarrow> sound p P Q (parse_inet p t ts)"
  unfolding parse_inet_def parse_listen_def by (auto intro!: conf_wp)

section \<open>Blocks\<close>

locale sound_block = block_loop +
  fixes inv :: "'x \<Rightarrow> bool"
  assumes body_sound: "\<And>P t w x r. P (cs_eof p) \<Longrightarrow> P (ct_line t) \<Longrightarrow> lines_in P r \<Longrightarrow> inv x
     \<Longrightarrow> sound p P (\<lambda>(x', r'). inv x' \<and> lines_in P r') (body t w x r)"
begin

lemma run_sound:
  "P (cs_eof p) \<Longrightarrow> lines_in P ts \<Longrightarrow> inv x \<Longrightarrow> sound p P (\<lambda>(x', r'). inv x' \<and> lines_in P r') (run x ts)"
proof (induction "length ts" arbitrary: x ts rule: less_induct)
  case less
  show ?case
  proof (cases ts)
    case Nil
    with less.prems show ?thesis by (subst run_unfold) (simp add: conf_consume_def next_conf_def)
  next
    case (Cons t r)
    show ?thesis
    proof (cases "ct_kind t = close")
      case True
      with less.prems Cons show ?thesis by (simp add: run_close)
    next
      case False
      have "sound p P (\<lambda>(x', r'). inv x' \<and> lines_in P r') (rbind (body t w x r) (\<lambda>(x', r'). run x' r'))" for w
      proof (rule sound_rbind_step [OF body_sound])
        fix y assume "body t w x r = Inr y" "(\<lambda>(x', r'). inv x' \<and> lines_in P r') y"
        then show "sound p P (\<lambda>(x', r'). inv x' \<and> lines_in P r') ((\<lambda>(x', r'). run x' r') y)"
          using less.hyps less.prems(1) Cons body_shorter by fastforce
      qed (use less.prems Cons in auto)
      then show ?thesis using less.prems(2) False Cons
        by (simp add: run_step sound_rbind sound_conf_text)
    qed
  qed
qed

lemma run_wp:
  "P (cs_eof p) \<Longrightarrow> lines_in P ts \<Longrightarrow> inv x \<Longrightarrow> (\<And>x' r'. inv x' \<Longrightarrow> lines_in P r' \<Longrightarrow> Q (x', r'))
     \<Longrightarrow> sound p P Q (run x ts)"
  by (rule sound_mono [OF run_sound]) auto

end

text \<open>What the blocks build is well formed.\<close>

definition opt_acl_wf :: "acl option \<Rightarrow> bool" where
  "opt_acl_wf = pred_option acl_wf"

definition endpoint_wf :: "control_endpoint \<Rightarrow> bool" where
  "endpoint_wf e \<longleftrightarrow> opt_acl_wf (ce_allow e) \<and> list_all name_wf (ce_keys e)"

definition channel_wf :: "statistics_channel \<Rightarrow> bool" where
  "channel_wf c \<longleftrightarrow> opt_acl_wf (sc_allow c)"

definition named_zone_wf :: "named_zone \<Rightarrow> bool" where
  "named_zone_wf z \<longleftrightarrow> name_wf (nz_name z) \<and> opt_acl_wf (nz_allow_transfer z)"

definition conf_key_wf :: "tsig_key \<Rightarrow> bool" where
  "conf_key_wf k \<longleftrightarrow> name_wf (key_name k) \<and> key_material k \<noteq> []"

definition named_conf_wf :: "named_conf \<Rightarrow> bool" where
  "named_conf_wf c \<longleftrightarrow>
     list_all named_zone_wf (nc_zones c) \<and> list_all conf_key_wf (nc_keys c)
   \<and> list_all (\<lambda>a. acl_wf (na_acl a)) (nc_acls c) \<and> opt_acl_wf (no_allow_recursion (nc_options c))
   \<and> list_all endpoint_wf (nc_controls c) \<and> list_all channel_wf (nc_statistics_channels c)"

lemmas conf_wf_defs = opt_acl_wf_def endpoint_wf_def channel_wf_def named_zone_wf_def named_conf_wf_def

interpretation zone_sound: sound_block p ConfClose "zone_directive p" "zone_block p" "\<lambda>x. opt_acl_wf (zf_transfer x)" for p
  by unfold_locales (auto simp: zone_directive_def opt_acl_wf_def intro!: conf_wp)

interpretation key_sound: sound_block p ConfClose "key_directive p" "key_block p" "\<lambda>x. True" for p
  by unfold_locales (auto simp: key_directive_def intro!: conf_wp)

interpretation endpoint_sound: sound_block p ConfSemi "endpoint_option p" "endpoint_options p" endpoint_wf for p
  by unfold_locales (auto simp: endpoint_option_def conf_wf_defs intro!: conf_wp)

interpretation channel_sound: sound_block p ConfSemi "channel_option p" "channel_options p" channel_wf for p
  by unfold_locales (auto simp: channel_option_def conf_wf_defs intro!: conf_wp)

interpretation controls_sound: sound_block p ConfClose "controls_directive p" "controls_block p" "list_all endpoint_wf" for p
  by unfold_locales (auto simp: controls_directive_def intro!: conf_wp
      intro!: endpoint_sound.run_wp simp: endpoint_wf_def opt_acl_wf_def)

interpretation channels_sound: sound_block p ConfClose "channels_directive p" "channels_block p" "list_all channel_wf" for p
  by unfold_locales (auto simp: channels_directive_def intro!: conf_wp
      intro!: channel_sound.run_wp simp: channel_wf_def opt_acl_wf_def)

section \<open>Statements\<close>

lemma sound_parse_zone_statement [conf_wp]:
  "P line \<Longrightarrow> P (cs_eof p) \<Longrightarrow> lines_in P ts \<Longrightarrow> (\<And>z r. named_zone_wf z \<Longrightarrow> lines_in P r \<Longrightarrow> Q (z, r))
     \<Longrightarrow> sound p P Q (parse_zone_statement p line ts)"
  unfolding parse_zone_statement_def
  by (auto intro!: conf_wp intro!: zone_sound.run_wp simp: named_zone_wf_def opt_acl_wf_def)

lemma key_from_base64_wf:
  "tsig_key_from_base64 decode name alg secret = Inr k \<Longrightarrow> name_wf name \<Longrightarrow> conf_key_wf k"
  by (auto simp: tsig_key_from_base64_def tsig_key_new_def Let_def result_simps conf_key_wf_def split: if_splits)

lemma sound_parse_key_statement [conf_wp]:
  "P line \<Longrightarrow> P (cs_eof p) \<Longrightarrow> lines_in P ts \<Longrightarrow> (\<And>k r. conf_key_wf k \<Longrightarrow> lines_in P r \<Longrightarrow> Q (k, r))
     \<Longrightarrow> sound p P Q (parse_key_statement p line ts)"
  unfolding parse_key_statement_def
  by (auto intro!: conf_wp intro!: key_sound.run_wp dest: key_from_base64_wf)

lemma sound_parse_named_acl [conf_wp]:
  "P (cs_eof p) \<Longrightarrow> lines_in P ts \<Longrightarrow> (\<And>a r. acl_wf (na_acl a) \<Longrightarrow> lines_in P r \<Longrightarrow> Q (a, r))
     \<Longrightarrow> sound p P Q (parse_named_acl p ts)"
  unfolding parse_named_acl_def by (auto intro!: conf_wp)

lemma sound_parse_controls [conf_wp]:
  "P (cs_eof p) \<Longrightarrow> lines_in P ts \<Longrightarrow> (\<And>es r. list_all endpoint_wf es \<Longrightarrow> lines_in P r \<Longrightarrow> Q (es, r))
     \<Longrightarrow> sound p P Q (parse_controls p ts)"
  unfolding parse_controls_def
  by (auto intro!: conf_wp intro!: controls_sound.run_wp)

lemma sound_parse_statistics_channels [conf_wp]:
  "P (cs_eof p) \<Longrightarrow> lines_in P ts \<Longrightarrow> (\<And>cs r. list_all channel_wf cs \<Longrightarrow> lines_in P r \<Longrightarrow> Q (cs, r))
     \<Longrightarrow> sound p P Q (parse_statistics_channels p ts)"
  unfolding parse_statistics_channels_def
  by (auto intro!: conf_wp intro!: channels_sound.run_wp)

interpretation options_sound: sound_block p ConfClose "options_directive p" "options_block p" named_conf_wf for p
  by unfold_locales
     (auto simp: options_directive_def set_options_def add_channels_def conf_wf_defs intro!: conf_wp)

lemma sound_parse_options [conf_wp]:
  "P line \<Longrightarrow> P (cs_eof p) \<Longrightarrow> lines_in P ts \<Longrightarrow> named_conf_wf x
     \<Longrightarrow> (\<And>x' r. named_conf_wf x' \<Longrightarrow> lines_in P r \<Longrightarrow> Q (x', r)) \<Longrightarrow> sound p P Q (parse_options p line x ts)"
  unfolding parse_options_def
  by (auto intro!: conf_wp intro!: options_sound.run_wp simp: conf_expect_Inr)

lemma sound_parse_statement:
  "P (ct_line t) \<Longrightarrow> P (cs_eof p) \<Longrightarrow> lines_in P ts \<Longrightarrow> named_conf_wf x
     \<Longrightarrow> sound p P (\<lambda>(x', r). named_conf_wf x' \<and> lines_in P r) (parse_statement p t w x ts)"
  unfolding parse_statement_def
  by (auto intro!: conf_wp simp: named_conf_wf_def add_channels_def)

lemma sound_parse_statements:
  "P (cs_eof p) \<Longrightarrow> lines_in P ts \<Longrightarrow> named_conf_wf x \<Longrightarrow> sound p P named_conf_wf (parse_statements p x ts)"
proof (induction p x ts rule: parse_statements.induct)
  case (2 p x t r)
  have "sound p P named_conf_wf (rbind (parse_statement p t w x r) (\<lambda>(x', r'). parse_statements p x' r'))"
    if "conf_text p t = Inr w" for w
    using 2 that by (intro sound_rbind_step [OF sound_parse_statement]) (auto split: prod.splits)
  moreover have "sound p P (\<lambda>_. True) (conf_text p t)" using 2 by (simp add: sound_conf_text)
  ultimately show ?case by (simp add: sound_rbind_step)
qed simp

section \<open>Line numbers\<close>

definition newlines :: "string list \<Rightarrow> nat" where
  "newlines cs = length (filter (\<lambda>c. c = newline) cs)"

text \<open>The lines from \<open>line\<close> on that \<open>cs\<close> spans.\<close>

definition spans :: "u32 \<Rightarrow> string list \<Rightarrow> u32 \<Rightarrow> bool" where
  "spans line cs l \<longleftrightarrow> unat line \<le> unat l \<and> unat l \<le> unat line + newlines cs"

lemma newlines_simps [simp]:
  "newlines [] = 0" "newlines (c # cs) = (if c = newline then 1 else 0) + newlines cs"
  by (simp_all add: newlines_def)

lemma newlines_append: "newlines (a @ b) = newlines a + newlines b"
  by (simp add: newlines_def)

lemma newlines_dropWhile: "newlines (dropWhile (\<lambda>d. d \<noteq> newline) cs) = newlines cs"
  by (induction cs) auto

lemma newlines_drop1: "take 1 cs = [d] \<Longrightarrow> d \<noteq> newline \<Longrightarrow> newlines (drop 1 cs) = newlines cs"
  by (cases cs) auto

lemma newlines_word: "conf_word cs = (w, r) \<Longrightarrow> newlines r = newlines cs"
  by (induction cs arbitrary: w r)
     (auto simp: ends_word_def ws_char_def apfst_def map_prod_def split: if_splits prod.splits)

lemma unat_line_Suc: "unat (line :: u32) + Suc n < 2 ^ 32 \<Longrightarrow> unat (line + 1) = unat line + 1"
  by (simp add: unat_word_ariths)

lemma newlines_quoted:
  "conf_quoted cs line = Some (v, r, l) \<Longrightarrow> unat line + newlines cs < 2 ^ 32 \<Longrightarrow>
     unat line \<le> unat l \<and> unat l + newlines r \<le> unat line + newlines cs"
proof (induction cs line arbitrary: v rule: conf_quoted.induct)
  case (2 c cs line)
  consider "c = [CHR 0x22]" | (esc) e cs' where "c = [CHR 0x5C]" "cs = e # cs'"
    | (plain) "c \<noteq> [CHR 0x22]" "c \<noteq> [CHR 0x5C]"
    using "2.prems"(1) by (cases cs) (auto split: if_splits)
  then show ?case
  proof cases
    case esc
    with "2.prems"(1) obtain v' where "conf_quoted cs' line = Some (v', r, l)" by auto
    with "2.IH"(1) [OF _ esc(1) esc(2)] "2.prems"(2) esc show ?thesis by fastforce
  next
    case plain
    let ?line = "if c = newline then line + 1 else line"
    from plain "2.prems"(1) obtain v' where "conf_quoted cs ?line = Some (v', r, l)" by auto
    moreover have "unat ?line = unat line + (if c = newline then 1 else 0)"
      using "2.prems"(2) unat_line_Suc [of line "newlines cs"] by (cases "c = newline") auto
    ultimately show ?thesis using "2.IH"(2) [OF plain, of v'] "2.prems"(2) by auto
  qed (use "2.prems" in auto)
qed simp

lemma newlines_comment:
  "skip_block_comment cs line = Some (r, l) \<Longrightarrow> unat line + newlines cs < 2 ^ 32 \<Longrightarrow>
     unat line \<le> unat l \<and> unat l + newlines r \<le> unat line + newlines cs"
  by (induction cs line rule: skip_block_comment.induct)
     (fastforce simp: Let_def unat_line_Suc split: if_splits)+

lemma ws_newline: "ws_char newline"
  by (simp add: ws_char_def)

text \<open>\<open>in_text a N\<close>: a line from \<open>a\<close> to \<open>N\<close>.\<close>

definition in_text :: "nat \<Rightarrow> nat \<Rightarrow> u32 \<Rightarrow> bool" where
  "in_text a N l \<longleftrightarrow> a \<le> unat l \<and> unat l \<le> N"

lemma tokenize_lines:
  "a \<le> unat line \<Longrightarrow> unat line + newlines cs \<le> N \<Longrightarrow> N < 2 ^ 32 \<Longrightarrow>
    sound p (in_text a N) (lines_in (in_text a N)) (tokenize (cs_path p) cs line)"
proof (induction "cs_path p" cs line rule: tokenize.induct)
  case (2 c cs line)
  let ?ok = "\<lambda>r l. sound p (in_text a N) (lines_in (in_text a N)) (tokenize (cs_path p) r l)"
  have here: "in_text a N line" using "2.prems" by (simp add: in_text_def)
  have tok: "sound p (in_text a N) (lines_in (in_text a N))
      (rmap (Cons \<lparr>ct_kind = k, ct_line = line\<rparr>) (tokenize (cs_path p) r l))" if "?ok r l" for k r l
    using that here by (intro sound_rmap) (auto elim: sound_mono)
  have le: "unat line + newlines cs \<le> N" using "2.prems"(2) by simp
  note IH = "2.hyps"
  consider (nl) "c = newline" | (ws) "c \<noteq> newline" "ws_char c"
    | (hash) "\<not> ws_char c" "c = ''#''" | (line) "c = ''/''" "take 1 cs = [''/'']"
    | (block) "c = ''/''" "take 1 cs = [''*'']" | (quote) "c = [CHR 0x22]"
    | (punct) k where "\<not> ws_char c" "c \<noteq> ''#''" "c \<noteq> ''/''" "c \<noteq> [CHR 0x22]" "conf_punctuation c = Some k"
    | (word) "\<not> ws_char c" "c \<noteq> ''#''" "\<not> (c = ''/'' \<and> take 1 cs = [''/''])" "\<not> (c = ''/'' \<and> take 1 cs = [''*''])"
        "c \<noteq> [CHR 0x22]" "conf_punctuation c = None"
    by (cases "conf_punctuation c"; cases "c = ''/''") (auto simp: conf_punctuation_def)
  then show ?case
  proof cases
    case nl
    have "?ok cs (line + 1)"
      using nl "2.prems" unat_line_Suc [of line "newlines cs"] by (intro IH(1)) auto
    with nl show ?thesis by (simp add: tokenize.simps(2))
  next
    case ws
    with IH(2) "2.prems" show ?thesis by (simp add: tokenize.simps(2))
  next
    case hash
    with IH(3) "2.prems" ws_newline show ?thesis by (auto simp: tokenize.simps(2) newlines_dropWhile)
  next
    case line
    then have "c \<noteq> newline" "\<not> ws_char c" "c \<noteq> ''#''" by (auto simp: ws_char_def)
    with line IH(4) "2.prems"(1,3) le newlines_drop1 [OF line(2)] show ?thesis
      by (simp add: tokenize.simps(2) newlines_dropWhile)
  next
    case block
    then have c: "c \<noteq> newline" "\<not> ws_char c" "c \<noteq> ''#''" "\<not> (c = ''/'' \<and> take 1 cs = [''/''])"
      by (auto simp: ws_char_def)
    show ?thesis
    proof (cases "skip_block_comment (drop 1 cs) line")
      case (Some y)
      obtain r l where y: "y = (r, l)" by (cases y)
      from newlines_comment [OF Some [unfolded y]] newlines_drop1 [OF block(2)] le "2.prems"(1,3)
      have "?ok r l" by (intro IH(5) [OF c _ Some y [symmetric]]) (use block in auto)
      with c block Some y show ?thesis by (simp add: tokenize.simps(2))
    qed (use c block here in \<open>simp add: tokenize.simps(2)\<close>)
  next
    case quote
    then have c: "c \<noteq> newline" "\<not> ws_char c" "c \<noteq> ''#''" "\<not> (c = ''/'' \<and> take 1 cs = [''/''])"
      "\<not> (c = ''/'' \<and> take 1 cs = [''*''])"
      by (auto simp: ws_char_def)
    show ?thesis
    proof (cases "conf_quoted cs line")
      case (Some y)
      obtain v r l where y: "y = (v, r, l)" by (cases y)
      from newlines_quoted [OF Some [unfolded y]] le "2.prems"(1,3)
      have "?ok r l" by (intro IH(6) [OF c quote Some y [symmetric] refl]) auto
      with tok c quote Some y show ?thesis by (simp add: tokenize.simps(2))
    qed (use c quote here in \<open>simp add: tokenize.simps(2)\<close>)
  next
    case punct
    have "?ok cs line" using punct ws_newline "2.prems"(1,3) le by (intro IH(8) [OF _ _ _ _ _ _ punct(5)]) auto
    with tok punct ws_newline show ?thesis by (auto simp: tokenize.simps(2))
  next
    case word
    obtain w r where w: "conf_word (c # cs) = (w, r)" by fastforce
    from newlines_word [OF w] have "?ok r line"
      using word ws_newline "2.prems" by (intro IH(7) [OF _ _ _ _ _ _ word(6) refl w [symmetric]]) auto
    with tok w word ws_newline show ?thesis by (auto simp: tokenize.simps(2) simp del: conf_word.simps)
  qed
qed simp

abbreviation line_feeds :: "string \<Rightarrow> nat" where
  "line_feeds s \<equiv> length (filter (\<lambda>c. c = CHR 0x0A) s)"

lemma newlines_utf8: "newlines (utf8_chars s) \<le> line_feeds s"
proof (induction s rule: utf8_chars.induct)
  case (2 c cs)
  have "line_feeds (drop (utf8_len c - 1) cs) \<le> line_feeds cs"
    by (metis append_take_drop_id filter_append le_add2 length_append)
  with 2 show ?case by auto
qed simp

lemma last_line_in: "lines_in P ts \<Longrightarrow> P 1 \<Longrightarrow> P (last_line ts)"
  by (auto simp: last_line_def lines_in_def)

lemma sound_path: "sound p P Q m \<Longrightarrow> cs_path p = cs_path p' \<Longrightarrow> sound p' P Q m"
  by (cases m) (simp_all add: sound_def)

lemma named_conf_parse_sound:
  assumes "line_feeds input + 1 < 2 ^ 32"
  shows "sound \<lparr>cs_path = path, cs_eof = l, cs_base64 = b64\<rparr> (in_text 1 (line_feeds input + 1)) named_conf_wf
    (named_conf_parse b64 path input)"
proof -
  let ?in = "in_text 1 (line_feeds input + 1)" and ?p = "\<lambda>l. \<lparr>cs_path = path, cs_eof = l, cs_base64 = b64\<rparr>"
  have empty: "named_conf_wf named_conf_default" by (simp add: named_conf_default_def conf_wf_defs)
  have "sound (?p l) ?in (lines_in ?in) (tokenize (cs_path (?p l)) (utf8_chars input) 1)"
    using assms newlines_utf8 [of input] by (intro tokenize_lines) auto
  then have "sound (?p l) ?in (lines_in ?in) (tokenize path (utf8_chars input) 1)" by simp
  moreover have "sound (?p l) ?in named_conf_wf (parse_statements (?p (last_line ts)) named_conf_default ts)"
    if "lines_in ?in ts" for ts
  proof (rule sound_path)
    show "sound (?p (last_line ts)) ?in named_conf_wf (parse_statements (?p (last_line ts)) named_conf_default ts)"
      using last_line_in [OF that] that empty by (intro sound_parse_statements) (simp_all add: in_text_def)
  qed simp
  ultimately show ?thesis
    unfolding named_conf_parse_def by (intro sound_rbind) (auto elim: sound_mono)
qed

section \<open>Properties\<close>

text \<open>
  C25: Every error of the parser of \<open>named.conf\<close> names the file it was given and a line of that
  file, whatever the input: unterminated strings, comments and statements, a missing token, a
  value that is not one, and the errors of names, keys and addresses.
\<close>

theorem named_conf_errors_located:
  assumes "named_conf_parse b64 path input = Inl e" "line_feeds input + 1 < 2 ^ 32"
  shows "\<exists>l reason. e = NamedConfParse path l reason \<and> 1 \<le> unat l \<and> unat l \<le> line_feeds input + 1"
  using named_conf_parse_sound [OF assms(2), of path 0 b64] assms(1)
  by (auto simp: sound_def in_text_def)

theorem named_conf_errors_located_witness:
  "named_conf_parse Some ''p'' (''x'' @ newline @ ''{ ;'') = Inl (NamedConfParse ''p'' 1 ''unterminated statement'')
   \<and> (\<exists>l reason. NamedConfParse ''p'' 1 ''unterminated statement'' = NamedConfParse ''p'' l reason
        \<and> 1 \<le> unat l \<and> unat l \<le> line_feeds (''x'' @ newline @ ''{ ;'') + 1)"
proof
  show run: "named_conf_parse Some ''p'' (''x'' @ newline @ ''{ ;'')
      = Inl (NamedConfParse ''p'' 1 ''unterminated statement'')" by code_simp
  show "\<exists>l reason. NamedConfParse ''p'' 1 ''unterminated statement'' = NamedConfParse ''p'' l reason
      \<and> 1 \<le> unat l \<and> unat l \<le> line_feeds (''x'' @ newline @ ''{ ;'') + 1"
    by (rule named_conf_errors_located [OF run]) simp
qed

text \<open>
  C26: What the parser returns is well formed: every name is a valid domain name, no network prefix
  is longer than its address, a negation is never nested, no key is empty.
\<close>

theorem parsed_named_conf_wf:
  assumes "named_conf_parse b64 path input = Inr c" "line_feeds input + 1 < 2 ^ 32"
  shows "named_conf_wf c"
  using named_conf_parse_sound [OF assms(2), of path 0 b64] assms(1) by (simp add: sound_def)

theorem parsed_named_conf_wf_witness:
  "\<exists>c. named_conf_parse Some ''p'' ''acl a { !any; };'' = Inr c \<and> named_conf_wf c"
proof -
  have run: "named_conf_parse Some ''p'' ''acl a { !any; };'' =
      Inr (named_conf_default\<lparr>nc_acls := [\<lparr>na_name = ''a'', na_acl = [AclNegated AclAny]\<rparr>]\<rparr>)" by code_simp
  then show ?thesis using parsed_named_conf_wf [OF run] by simp
qed

text \<open>
  An option of a control listener that the parser does not know makes it reject the file, instead
  of being skipped: the skipping takes the semicolon that ends the listener, so the loop goes on and
  meets the brace that closes the block. \<open>read-only\<close> is such an option of BIND.
\<close>

lemma unknown_listener_option_rejected:
  assumes "same_text inet ''inet''" "parse_listen p line addr = Inr a"
    "lower_text opt \<notin> {''port'', ''allow'', ''keys''}"
  shows "parse_controls p
      ([\<lparr>ct_kind = ConfOpen, ct_line = l0\<rparr>, \<lparr>ct_kind = ConfWord inet, ct_line = line\<rparr>, \<lparr>ct_kind = ConfWord addr, ct_line = l1\<rparr>,
        \<lparr>ct_kind = ConfWord opt, ct_line = l2\<rparr>, \<lparr>ct_kind = ConfWord v, ct_line = l3\<rparr>, \<lparr>ct_kind = ConfSemi, ct_line = l4\<rparr>,
        \<lparr>ct_kind = ConfClose, ct_line = l5\<rparr>] @ rest)
    = Inl (NamedConfParse (cs_path p) l5 ''expected a value'')"
  using assms
  by (simp add: parse_controls_def conf_expect_def next_conf_def controls_loop.run_step conf_text_def
      controls_directive_def parse_inet_def next_text_def endpoint_loop.run_step endpoint_option_def
      skip_directive_def skip_statement_def then_semi_def parse_error_def)

lemma unknown_listener_option_rejected_witness:
  "\<exists>l. named_conf_parse Some ''p'' ''controls { inet * read-only yes; };'' = Inl (NamedConfParse ''p'' l ''expected a value'')"
proof -
  let ?tok = "\<lambda>k. \<lparr>ct_kind = k, ct_line = 1\<rparr>" and ?p = "\<lparr>cs_path = ''p'', cs_eof = 1, cs_base64 = Some\<rparr>"
  have "tokenize ''p'' (utf8_chars ''controls { inet * read-only yes; };'') 1
      = Inr (map ?tok [ConfWord ''controls'', ConfOpen, ConfWord ''inet'', ConfWord ''*'', ConfWord ''read-only'',
          ConfWord ''yes'', ConfSemi, ConfClose, ConfSemi])" by code_simp
  moreover have "parse_controls ?p (map ?tok [ConfOpen, ConfWord ''inet'', ConfWord ''*'', ConfWord ''read-only'',
          ConfWord ''yes'', ConfSemi, ConfClose] @ [?tok ConfSemi]) = Inl (NamedConfParse (cs_path ?p) 1 ''expected a value'')"
    using unknown_listener_option_rejected 
      [where inet = "''inet''" and p = "?p" and line = 1 and addr = "''*''" and opt = "''read-only''" and v = "''yes''"
        and rest = "[?tok ConfSemi]"]
    by (simp add: same_text_def parse_listen_def lower_text_def lower_char_def)
  ultimately show ?thesis
    by (simp add: named_conf_parse_def last_line_def conf_text_def parse_statement_def lower_text_def lower_char_def)
qed

end
