(* ===== verification/Conf_Roundtrip.thy ===== *)
theory Conf_Roundtrip
  imports Named_Conf
begin

text \<open>
  A \<open>named.conf\<close> that is written by the rules of BIND is read as what it says. The documents of
  this theory are the specification: the statements the parser supports, with unknown statements
  anywhere between them. A document is written as text, and its meaning is the configuration that
  its known statements build in order.
\<close>

section \<open>Writing tokens\<close>

text \<open>A character of a \<open>String\<close>, by its octets; a text made of whole characters.\<close>

definition char_ok :: "string \<Rightarrow> bool" where
  "char_ok c \<longleftrightarrow> c \<noteq> [] \<and> length c = utf8_len (hd c)"

definition utf8_text :: "string \<Rightarrow> bool" where
  "utf8_text s \<longleftrightarrow> list_all char_ok (utf8_chars s)"

lemma utf8_chars_concat: "list_all char_ok cs \<Longrightarrow> utf8_chars (concat cs) = cs"
proof (induction cs)
  case (Cons c cs)
  then obtain b bs where c: "c = b # bs" "length bs = utf8_len b - 1"
    by (cases c) (auto simp: char_ok_def)
  with Cons show ?case by simp
qed simp

lemma char_ok_ascii: "code_of c < 128 \<Longrightarrow> char_ok [c]"
  by (simp add: char_ok_def utf8_len_def)

definition quote_char :: "string \<Rightarrow> string list" where
  "quote_char c = (if c = [CHR 0x22] \<or> c = [backslash] then [[backslash], c] else [c])"

fun kind_chars :: "conf_kind \<Rightarrow> string list" where
  "kind_chars (ConfWord w) = map (\<lambda>c. [c]) w"
| "kind_chars (ConfQuoted s) = [CHR 0x22] # concat (map quote_char (utf8_chars s)) @ [[CHR 0x22]]"
| "kind_chars ConfOpen = [''{'']"
| "kind_chars ConfClose = [''}'']"
| "kind_chars ConfSemi = ['';'']"
| "kind_chars ConfBang = [''!'']"

definition word_char :: "char \<Rightarrow> bool" where
  "word_char c \<longleftrightarrow> code_of c < 128 \<and> \<not> ws_char [c] \<and> conf_punctuation [c] = None \<and> c \<noteq> CHR 0x22"

definition conf_word_ok :: "string \<Rightarrow> bool" where
  "conf_word_ok w \<longleftrightarrow> w \<noteq> [] \<and> list_all word_char w \<and> hd w \<noteq> CHR ''#''
     \<and> \<not> contains_text ''//'' w \<and> \<not> contains_text ''/*'' w"

fun kind_ok :: "conf_kind \<Rightarrow> bool" where
  "kind_ok (ConfWord w) = conf_word_ok w"
| "kind_ok (ConfQuoted s) = utf8_text s"
| "kind_ok _ = True"

text \<open>The text of tokens: a line ends after each semicolon.\<close>

definition conf_chars :: "conf_kind list \<Rightarrow> string list" where
  "conf_chars ks = concat (map (\<lambda>k. kind_chars k @ [if k = ConfSemi then newline else '' '']) ks)"

definition conf_document :: "conf_kind list \<Rightarrow> string" where
  "conf_document ks = concat (conf_chars ks)"

section \<open>Written tokens are read back\<close>

lemma quoted_read:
  "conf_quoted (concat (map quote_char cs) @ [CHR 0x22] # r) line
     = Some (concat cs, r, line + of_nat (length (filter (\<lambda>c. c = newline) cs)))"
proof (induction cs arbitrary: line)
  case (Cons c cs)
  then show ?case by (auto simp: quote_char_def add_ac)
qed simp

lemma comment_free_tl: "\<not> contains_text p (c # w) \<Longrightarrow> \<not> contains_text p w"
  by simp

lemma word_read:
  assumes "list_all word_char w" "\<not> contains_text ''//'' w" "\<not> contains_text ''/*'' w" "ws_char s"
    "s \<noteq> ''/''" "s \<noteq> ''*''"
  shows "conf_word (map (\<lambda>c. [c]) w @ s # r) = (w, s # r)"
  using assms
proof (induction w)
  case Nil
  then show ?case by (simp add: ends_word_def)
next
  case (Cons c w)
  have "\<not> starts_comment [c] (map (\<lambda>c. [c]) w @ s # r)"
    using Cons.prems by (cases w) (auto simp: starts_comment_def starts_with_def)
  moreover have "word_char c" using Cons.prems(1) by simp
  ultimately have "\<not> ends_word [c] (map (\<lambda>c. [c]) w @ s # r)"
    by (auto simp: ends_word_def word_char_def)
  with Cons show ?case by (simp add: comment_free_tl)
qed

lemma ws_separators: "ws_char newline" "ws_char '' ''"
  by (simp_all add: ws_char_def)

lemma not_ws: "\<not> ws_char ''{''" "\<not> ws_char ''}''" "\<not> ws_char '';''" "\<not> ws_char ''!''" "\<not> ws_char [CHR 0x22]"
  by (simp_all add: ws_char_def)

lemma separator_skipped:
  "s = newline \<or> s = '' '' \<Longrightarrow> \<exists>line'. tokenize path (s # r) line = tokenize path r line'"
  using ws_separators by (auto simp: tokenize.simps(2))

lemma tokenize_word:
  "\<not> ws_char c \<Longrightarrow> conf_punctuation c = None \<Longrightarrow> c \<noteq> [CHR 0x22] \<Longrightarrow> c \<noteq> ''#''
     \<Longrightarrow> \<not> (c = ''/'' \<and> take 1 cs = [''/'']) \<Longrightarrow> \<not> (c = ''/'' \<and> take 1 cs = [''*''])
     \<Longrightarrow> conf_word (c # cs) = (w, r)
     \<Longrightarrow> tokenize path (c # cs) line = rmap (Cons \<lparr>ct_kind = ConfWord w, ct_line = line\<rparr>) (tokenize path r line)"
  using ws_separators(1) by (auto simp: tokenize.simps(2) simp del: conf_word.simps)

lemma tokenize_punctuation:
  assumes "conf_punctuation c = Some k"
  shows "tokenize path (c # cs) line = rmap (Cons \<lparr>ct_kind = k, ct_line = line\<rparr>) (tokenize path cs line)"
proof -
  have "\<not> ws_char c \<and> c \<noteq> newline \<and> c \<noteq> ''#'' \<and> c \<noteq> ''/'' \<and> c \<noteq> [CHR 0x22]"
    using assms not_ws by (auto simp: conf_punctuation_def split: if_splits)
  then show ?thesis by (subst tokenize.simps(2)) (simp add: assms)
qed

lemma kind_read:
  assumes "kind_ok k" "ws_char s" "s \<noteq> ''/''" "s \<noteq> ''*''"
  shows "\<exists>line'. tokenize path (kind_chars k @ s # r) line
     = (rmap (Cons \<lparr>ct_kind = k, ct_line = line\<rparr>) (tokenize path (s # r) line'))"
proof (cases k)
  case (ConfWord w)
  with assms obtain c w' where w: "w = c # w'" by (cases w) (auto simp: conf_word_ok_def)
  have ok: "list_all word_char w" "\<not> contains_text ''//'' w" "\<not> contains_text ''/*'' w" "c \<noteq> CHR ''#''"
    using assms ConfWord w by (auto simp: conf_word_ok_def)
  have c: "\<not> ws_char [c]" "conf_punctuation [c] = None" "[c] \<noteq> [CHR 0x22]" "[c] \<noteq> newline"
    using ok(1) w ws_separators(1) by (auto simp: word_char_def)
  have "take 1 (map (\<lambda>c. [c]) w' @ s # r) \<noteq> [''/'']" "take 1 (map (\<lambda>c. [c]) w' @ s # r) \<noteq> [''*'']" if "c = CHR ''/''"
    using ok(2,3) w assms(3,4) that by (cases w'; simp add: starts_with_def)+
  then have "\<not> ([c] = ''/'' \<and> take 1 (map (\<lambda>c. [c]) w' @ s # r) = [''/''])"
    "\<not> ([c] = ''/'' \<and> take 1 (map (\<lambda>c. [c]) w' @ s # r) = [''*''])" by auto
  moreover have "conf_word ([c] # map (\<lambda>c. [c]) w' @ s # r) = (w, s # r)"
    using word_read [OF ok(1,2,3) assms(2-4), of r] w by simp
  ultimately have "tokenize path ([c] # map (\<lambda>c. [c]) w' @ s # r) line
      = rmap (Cons \<lparr>ct_kind = ConfWord w, ct_line = line\<rparr>) (tokenize path (s # r) line)"
    using c ok(4) by (intro tokenize_word) auto
  then show ?thesis by (auto simp: ConfWord w)
next
  case (ConfQuoted v)
  with assms have v: "concat (utf8_chars v) = v" by simp
  have "tokenize path (kind_chars k @ s # r) line = rmap (Cons \<lparr>ct_kind = k, ct_line = line\<rparr>)
      (tokenize path (s # r) (line + of_nat (length (filter (\<lambda>c. c = newline) (utf8_chars v)))))"
    using not_ws by (simp add: ConfQuoted tokenize.simps(2) [of path "[CHR 0x22]"] quoted_read v)
  then show ?thesis by blast
qed (auto simp: conf_punctuation_def intro!: exI [of _ line] tokenize_punctuation)

lemma chars_read:
  "list_all kind_ok ks \<Longrightarrow> \<exists>ts. tokenize path (conf_chars ks) line = Inr ts \<and> map ct_kind ts = ks"
proof (induction ks arbitrary: line)
  case (Cons k ks)
  define s where "s = (if k = ConfSemi then newline else '' '')"
  then have s: "s = newline \<or> s = '' ''" "ws_char s" "s \<noteq> ''/''" "s \<noteq> ''*''" using ws_separators by auto
  from Cons.prems obtain line' where "tokenize path (kind_chars k @ s # conf_chars ks) line
      = rmap (Cons \<lparr>ct_kind = k, ct_line = line\<rparr>) (tokenize path (s # conf_chars ks) line')"
    using kind_read [OF _ s(2-4)] by fastforce
  moreover obtain l where "tokenize path (s # conf_chars ks) line' = tokenize path (conf_chars ks) l"
    using separator_skipped [OF s(1)] by blast
  moreover obtain ts where "tokenize path (conf_chars ks) l = Inr ts" "map ct_kind ts = ks"
    using Cons by force
  ultimately show ?case by (simp add: conf_chars_def s_def)
qed (simp add: conf_chars_def)

lemma quote_chars_ok: "list_all char_ok cs \<Longrightarrow> list_all char_ok (concat (map quote_char cs))"
  by (induction cs) (auto simp: quote_char_def char_ok_ascii)

lemma kind_chars_ok: "kind_ok k \<Longrightarrow> list_all char_ok (kind_chars k)"
proof (cases k)
  case (ConfWord w)
  assume "kind_ok k"
  with ConfWord show ?thesis by (auto simp: conf_word_ok_def word_char_def list_all_iff char_ok_ascii)
qed (simp_all add: utf8_text_def quote_chars_ok char_ok_ascii)

lemma document_read:
  assumes "list_all kind_ok ks"
  shows "\<exists>ts. tokenize path (utf8_chars (conf_document ks)) 1 = Inr ts \<and> map ct_kind ts = ks"
proof -
  have "list_all char_ok (conf_chars ks)"
    using assms kind_chars_ok by (auto simp: conf_chars_def list_all_iff intro: char_ok_ascii)
  then show ?thesis using chars_read [OF assms] by (simp add: conf_document_def utf8_chars_concat)
qed

section \<open>What a reader takes from its tokens\<close>

definition reads :: "(conf_tokens \<Rightarrow> 'a conf_result) \<Rightarrow> conf_kind list \<Rightarrow> 'a \<Rightarrow> bool" where
  "reads rd ks v \<longleftrightarrow> (\<forall>ts r. map ct_kind ts = ks \<longrightarrow> rd (ts @ r) = Inr (v, r))"

lemma readsD: "reads rd ks v \<Longrightarrow> map ct_kind ts = ks \<Longrightarrow> rd (ts @ r) = Inr (v, r)"
  by (simp add: reads_def)

lemma map_append_split: "map f ts = a @ b \<Longrightarrow> \<exists>x y. ts = x @ y \<and> map f x = a \<and> map f y = b"
  by (auto simp: map_eq_append_conv)

lemma reads_text: "reads (next_text p) [ConfWord v] v" "reads (next_text p) [ConfQuoted v] v"
  by (auto simp: reads_def next_text_def next_conf_def conf_text_def)

lemma expect_kind [simp]: "ct_kind t = k \<Longrightarrow> conf_expect p k (t # r) = Inr r"
  by (simp add: conf_expect_def next_conf_def)

lemma reads_bind:
  "reads m ks v \<Longrightarrow> reads (f v) ks' w \<Longrightarrow> reads (\<lambda>ts. rbind (m ts) (\<lambda>(x, r). f x r)) (ks @ ks') w"
  by (auto simp: reads_def map_eq_append_conv)

lemma reads_rmap: "reads m ks v \<Longrightarrow> reads (\<lambda>ts. rmap (apfst f) (m ts)) ks (f v)"
  by (auto simp: reads_def)

lemma reads_expect: "reads m ks v \<Longrightarrow> reads (\<lambda>ts. rbind (conf_expect p k ts) m) (k # ks) v"
  by (auto simp: reads_def map_eq_Cons_conv)

lemma reads_semi: "reads m ks v \<Longrightarrow> reads (\<lambda>ts. then_semi p (m ts)) (ks @ [ConfSemi]) v"
  by (auto simp: reads_def map_eq_append_conv then_semi_def)

context block_loop
begin

lemma run_items:
  assumes "\<And>it x. it \<in> set items \<Longrightarrow> \<exists>k w ks. kinds it = k # ks \<and> k \<noteq> close \<and> (k = ConfWord w \<or> k = ConfQuoted w)
     \<and> (\<forall>t. ct_kind t = k \<longrightarrow> reads (body t w x) ks (app it x))"
  shows "reads (run x) (concat (map kinds items) @ [close]) (fold app items x)"
  using assms
proof (induction items arbitrary: x)
  case Nil
  then show ?case by (auto simp: reads_def run_close)
next
  case (Cons it items)
  obtain k w ks where item: "kinds it = k # ks" "k \<noteq> close" "k = ConfWord w \<or> k = ConfQuoted w"
    "\<forall>t. ct_kind t = k \<longrightarrow> reads (body t w x) ks (app it x)" using Cons.prems by fastforce
  have rest: "reads (run (app it x)) (concat (map kinds items) @ [close]) (fold app items (app it x))"
    by (rule Cons.IH) (use Cons.prems in auto)
  show ?case
    unfolding reads_def
  proof (intro allI impI)
    fix ts r :: conf_tokens assume "map ct_kind ts = concat (map kinds (it # items)) @ [close]"
    moreover define more where "more = concat (map kinds items) @ [close]"
    ultimately have "map ct_kind ts = k # ks @ more" by (simp add: item(1))
    then obtain t ts1 ts2 where ts: "ts = t # ts1 @ ts2" "ct_kind t = k" "map ct_kind ts1 = ks"
      "map ct_kind ts2 = more" by (auto simp: map_eq_Cons_conv map_eq_append_conv)
    then have "body t w x (ts1 @ ts2 @ r) = Inr (app it x, ts2 @ r)"
      using item(4) by (simp add: reads_def)
    moreover have "conf_text p t = Inr w" using item(3) ts(2) by (auto simp: conf_text_def)
    ultimately show "run x (ts @ r) = Inr (fold app (it # items) x, r)"
      using ts item(2) readsD [OF rest, of ts2] by (simp add: run_step more_def)
  qed
qed

end

section \<open>Unknown directives\<close>

datatype conf_tree = Leaf conf_kind | Braces "conf_tree list"

fun tree_kinds :: "conf_tree \<Rightarrow> conf_kind list" where
  "tree_kinds (Leaf k) = [k]"
| "tree_kinds (Braces ts) = ConfOpen # concat (map tree_kinds ts) @ [ConfClose]"

fun tree_ok :: "conf_tree \<Rightarrow> bool" where
  "tree_ok (Leaf k) = (k \<noteq> ConfOpen \<and> k \<noteq> ConfClose \<and> kind_ok k)"
| "tree_ok (Braces ts) = list_all tree_ok ts"

text \<open>A directive of a block: one the parser knows, or a word it does not know and what follows.\<close>

datatype 'a directive = Known 'a | Unknown string "conf_tree list"

fun directive_kinds :: "('a \<Rightarrow> conf_kind list) \<Rightarrow> 'a directive \<Rightarrow> conf_kind list" where
  "directive_kinds kinds (Known x) = kinds x"
| "directive_kinds kinds (Unknown w ts) = ConfWord w # concat (map tree_kinds ts) @ [ConfSemi]"

fun directive_ok :: "string list \<Rightarrow> ('a \<Rightarrow> bool) \<Rightarrow> 'a directive \<Rightarrow> bool" where
  "directive_ok known ok (Known x) = ok x"
| "directive_ok known ok (Unknown w ts) \<longleftrightarrow>
     conf_word_ok w \<and> lower_text w \<notin> set known \<and> list_all tree_ok ts \<and> Leaf ConfSemi \<notin> set ts"

fun apply_known :: "('a \<Rightarrow> 'x \<Rightarrow> 'x) \<Rightarrow> 'a directive \<Rightarrow> 'x \<Rightarrow> 'x" where
  "apply_known f (Known a) x = f a x"
| "apply_known f (Unknown w ts) x = x"

lemma skip_tree:
  "tree_ok t \<Longrightarrow> map ct_kind ts = tree_kinds t \<Longrightarrow> d > 0 \<or> t \<noteq> Leaf ConfSemi \<Longrightarrow> skip_from d (ts @ r) = skip_from d r"
proof (induction t arbitrary: ts d r)
  case (Leaf k)
  then show ?case by (auto simp: map_eq_Cons_conv)
next
  case (Braces trees)
  obtain a mid z where ts: "ts = a # mid @ [z]" "ct_kind a = ConfOpen" "ct_kind z = ConfClose"
    "map ct_kind mid = concat (map tree_kinds trees)"
    using Braces.prems(2) by (auto simp: map_eq_Cons_conv map_eq_append_conv)
  have "skip_from (Suc d) (mid @ q) = skip_from (Suc d) q"
    if "set ts' \<subseteq> set trees" "map ct_kind mid = concat (map tree_kinds ts')" for ts' mid q
    using that
  proof (induction ts' arbitrary: mid)
    case (Cons t ts')
    from Cons.prems(2) obtain a b where m: "mid = a @ b" "map ct_kind a = tree_kinds t"
      "map ct_kind b = concat (map tree_kinds ts')" by (auto simp: map_eq_append_conv)
    have "tree_ok t" using Braces.prems(1) Cons.prems(1) by (simp add: list_all_iff)
    with Braces.IH [of t a "Suc d" "b @ q"] Cons.IH [of b] Cons.prems m show ?case by simp
  qed simp
  from this [OF _ ts(4), of "z # r"] show ?case using ts by simp
qed

lemma skip_trees:
  "list_all tree_ok trees \<Longrightarrow> Leaf ConfSemi \<notin> set trees \<Longrightarrow> map ct_kind ts = concat (map tree_kinds trees)
     \<Longrightarrow> skip_from 0 (ts @ r) = skip_from 0 r"
proof (induction trees arbitrary: ts)
  case (Cons t trees)
  from Cons.prems(3) obtain a b where "ts = a @ b" "map ct_kind a = tree_kinds t"
    "map ct_kind b = concat (map tree_kinds trees)" by (auto simp: map_eq_append_conv)
  with Cons skip_tree [of t a 0 "b @ r"] show ?case by auto
qed simp

lemma reads_skip:
  assumes "directive_ok known ok (Unknown w ts)"
  shows "reads (skip_directive p t x) (concat (map tree_kinds ts) @ [ConfSemi]) x"
  using assms skip_trees [of ts]
  by (auto simp: reads_def skip_directive_def skip_statement_def map_eq_append_conv)

section \<open>Addresses, ports and names as text\<close>

fun ip_display :: "ip_addr \<Rightarrow> string" where
  "ip_display (V4 a) = ipv4_display a"
| "ip_display (V6 a) = ipv6_display a"

lemma ipv6_display_not_v4: "read_ipv4_addr (ipv6_display a) = None"
proof -
  let ?gs = "ipv6_segments a"
  obtain s l where run: "longest_zeros 0 (0, 0) (0, 0) ?gs = (s, l)" by fastforce
  have colons: "read_ipv4_addr (colon # r) = None" for r by (rule read_ipv4_hex(2)) simp
  have groups: "read_ipv4_addr (hex_groups gs @ colon # r) = None" for gs r
  proof (cases gs)
    case Nil
    then show ?thesis using colons by (simp add: hex_groups_def)
  next
    case (Cons g hs)
    have "groups_text hs @ colon # r = [] \<or> (\<exists>q. groups_text hs @ colon # r = colon # q)"
      by (cases hs) (auto simp: groups_text_def)
    then show ?thesis using read_ipv4_hex(1) by (simp add: Cons hex_groups_Cons)
  qed
  have all: "read_ipv4_addr (hex_groups ?gs) = None"
  proof -
    obtain g hs where gs: "?gs = g # hs" using ipv6_segments_props(1) [of a] by (cases ?gs) auto
    have "groups_text hs = [] \<or> (\<exists>r. groups_text hs = colon # r)" by (cases hs) (auto simp: groups_text_def)
    then show ?thesis using read_ipv4_hex(1) by (simp add: gs hex_groups_Cons)
  qed
  show ?thesis
    using colons groups [of "take s ?gs" "colon # hex_groups (drop (s + l) ?gs)"] all
    by (auto simp: ipv6_display_def run Let_def)
qed

lemma parse_ip_display: "parse_ip_addr (ip_display a) = Some a"
proof (cases a)
  case (V4 x)
  have "read_ipv4_addr (ipv4_display x @ []) = Some (ipv4_octets x, [])"
    by (rule read_ipv4_shown) (simp add: no_digit_sep)
  moreover have "ipv4_from_octets (ipv4_octets x) = x"
    using parse_ipv4_display [of x] calculation by (simp add: parse_ipv4_def split: if_splits)
  ultimately show ?thesis by (simp add: V4 parse_ip_addr_def)
next
  case (V6 x)
  then show ?thesis by (simp add: parse_ip_addr_def ipv6_display_not_v4 parse_ipv6_display)
qed

text \<open>The characters of addresses: hexadecimal digits, dots and colons.\<close>

definition ip_char :: "char \<Rightarrow> bool" where
  "ip_char c \<longleftrightarrow> to_digit 16 c \<noteq> None \<or> c = dot \<or> c = colon"

lemma digits_ip: "list_all is_ascii_digit s \<Longrightarrow> list_all ip_char s"
  by (auto simp: list_all_iff ip_char_def to_digit_def is_ascii_digit_def Let_def)

lemma show_nat_ip: "list_all ip_char (show_nat n)"
  using show_nat_digits [of n] digits_ip by blast

lemma show_hex_ip: "list_all ip_char (show_hex n)"
  using show_hex_digits [of n] by (auto simp: list_all_iff ip_char_def)

lemma join_ip: "list_all ip_char sep \<Longrightarrow> list_all (list_all ip_char) ws \<Longrightarrow> list_all ip_char (join_with sep ws)"
  by (induction sep ws rule: join_with.induct) auto

lemma hex_groups_ip: "list_all ip_char (hex_groups gs)"
  unfolding hex_groups_def by (rule join_ip) (simp_all add: list_all_iff [of "list_all ip_char"] show_hex_ip ip_char_def)

lemma ip_display_ip: "list_all ip_char (ip_display a) \<and> ip_display a \<noteq> []"
proof -
  have v4: "list_all ip_char (ipv4_display x)" for x
    unfolding ipv4_display_def
    by (rule join_ip) (simp_all add: list_all_iff [of "list_all ip_char"] show_nat_ip ip_char_def)
  have lit: "ip_char (CHR ''f'')" "ip_char colon" by code_simp+
  have "list_all ip_char (ipv6_display x)" for x
    using v4 hex_groups_ip lit by (simp add: ipv6_display_def Let_def split: prod.split)
  moreover have "parse_ip_addr [] = None"
    using read_ipv4_hex(2) [of "[]"] read_groups_stop [of "[]"]
    by (simp add: parse_ip_addr_def parse_ipv6_def read_ipv6_addr_def del: read_groups.simps)
  ultimately show ?thesis using v4 parse_ip_display [of a] by (cases a) auto
qed

lemma ip_char_word: "ip_char c \<Longrightarrow> word_char c \<and> c \<noteq> CHR ''/'' \<and> c \<noteq> CHR ''*'' \<and> c \<noteq> CHR ''#''"
proof -
  assume "ip_char c"
  then consider "c = dot" | "c = colon" | "to_digit 16 c \<noteq> None" by (auto simp: ip_char_def)
  then have code: "code_of c \<in> {46, 58} \<union> {48..57} \<union> {65..70} \<union> {97..102}"
    by cases (auto simp: to_digit_def Let_def split: if_splits)
  have "c \<noteq> CHR ''{'' \<and> c \<noteq> CHR ''}'' \<and> c \<noteq> CHR '';'' \<and> c \<noteq> CHR ''!'' \<and> c \<noteq> CHR 0x22
      \<and> c \<noteq> CHR ''/'' \<and> c \<noteq> CHR ''*'' \<and> c \<noteq> CHR ''#''"
    by (intro conjI notI) (use code in simp_all)
  moreover have "\<not> ws_char [c]" "code_of c < 128" using code by (auto simp: ws_char_def)
  ultimately show ?thesis by (simp add: word_char_def conf_punctuation_def)
qed

lemma ip_not_word:
  assumes "list_all ip_char s" "lower_text s = w"
  shows "list_all ip_char w"
proof -
  have "ip_char (lower_char c)" if "ip_char c" for c
  proof -
    have "to_digit 16 (lower_char c) = to_digit 16 c"
      by (auto simp: to_digit_def lower_char_def Let_def)
    then show ?thesis using that by (auto simp: ip_char_def lower_char_def)
  qed
  with assms show ?thesis by (auto simp: lower_text_def list_all_iff)
qed

lemma no_comment: "\<forall>c \<in> set w. c \<noteq> CHR ''*'' \<Longrightarrow> length (filter (\<lambda>c. c = CHR ''/'') w) \<le> 1
    \<Longrightarrow> \<not> contains_text ''//'' w \<and> \<not> contains_text ''/*'' w"
proof -
  assume star: "\<forall>c \<in> set w. c \<noteq> CHR ''*''" and slash: "length (filter (\<lambda>c. c = CHR ''/'') w) \<le> 1"
  have "w \<noteq> a @ ''//'' @ b" "w \<noteq> a @ ''/*'' @ b" for a b
    using star slash by (intro notI, simp)+
  then show ?thesis by (simp add: contains_text_iff)
qed

lemma ip_word_ok: "list_all ip_char w \<Longrightarrow> w \<noteq> [] \<Longrightarrow> conf_word_ok w"
  using ip_char_word no_comment [of w]
  by (cases w) (auto simp: conf_word_ok_def list_all_iff filter_empty_conv)

lemma network_word_ok:
  assumes "list_all ip_char a" "a \<noteq> []" "list_all ip_char n"
  shows "conf_word_ok (a @ CHR ''/'' # n)"
proof -
  have none: "filter (\<lambda>c. c = CHR ''/'') a = []" "filter (\<lambda>c. c = CHR ''/'') n = []"
    using assms ip_char_word by (auto simp: list_all_iff filter_empty_conv)
  have "\<forall>c \<in> set (a @ CHR ''/'' # n). c \<noteq> CHR ''*''"
    using assms ip_char_word by (auto simp: list_all_iff)
  then have "\<not> contains_text ''//'' (a @ CHR ''/'' # n) \<and> \<not> contains_text ''/*'' (a @ CHR ''/'' # n)"
    by (intro no_comment) (auto simp: none)
  moreover have "word_char (CHR ''/'')" by (simp add: word_char_def ws_char_def conf_punctuation_def)
  moreover have "hd (a @ CHR ''/'' # n) \<noteq> CHR ''#''"
    using assms(1,2) ip_char_word by (cases a) auto
  ultimately show ?thesis using assms ip_char_word by (auto simp: conf_word_ok_def list_all_iff)
qed

lemma not_ip_words:
  "\<not> list_all ip_char ''any''" "\<not> list_all ip_char ''none''" "\<not> list_all ip_char ''localhost''"
  "\<not> list_all ip_char ''localnets''" "\<not> list_all ip_char ''key''" "\<not> list_all ip_char ''*''"
  by code_simp+

section \<open>Address match lists\<close>

text \<open>A name of a list is none of the words of the grammar, no address and no network.\<close>

definition acl_name_ok :: "string \<Rightarrow> bool" where
  "acl_name_ok s \<longleftrightarrow> utf8_text s
     \<and> lower_text s \<notin> {''any'', ''none'', ''localhost'', ''localnets'', ''key''}
     \<and> CHR ''/'' \<notin> set s \<and> parse_ip_addr s = None"

definition doc_name_ok :: "domain_name \<Rightarrow> bool" where
  "doc_name_ok d \<longleftrightarrow> name_wf d \<and> utf8_text (name_display d)"

fun element_ok :: "acl_element \<Rightarrow> bool" where
  "element_ok (AclNetwork a n) = (unat n \<le> (case a of V4 _ \<Rightarrow> 32 | V6 _ \<Rightarrow> 128))"
| "element_ok (AclKey d) = doc_name_ok d"
| "element_ok (AclNamed s) = acl_name_ok s"
| "element_ok (AclNegated e) = False"
| "element_ok _ = True"

fun doc_element_ok :: "acl_element \<Rightarrow> bool" where
  "doc_element_ok (AclNegated e) = element_ok e"
| "doc_element_ok e = element_ok e"

fun element_kinds :: "acl_element \<Rightarrow> conf_kind list" where
  "element_kinds AclAny = [ConfWord ''any'']"
| "element_kinds AclNone = [ConfWord ''none'']"
| "element_kinds AclLocalhost = [ConfWord ''localhost'']"
| "element_kinds AclLocalnets = [ConfWord ''localnets'']"
| "element_kinds (AclAddress a) = [ConfWord (ip_display a)]"
| "element_kinds (AclNetwork a n) = [ConfWord (ip_display a @ CHR ''/'' # show_nat (unat n))]"
| "element_kinds (AclKey d) = [ConfWord ''key'', ConfQuoted (name_display d)]"
| "element_kinds (AclNamed s) = [ConfQuoted s]"
| "element_kinds (AclNegated e) = ConfBang # element_kinds e"

definition acl_kinds :: "acl \<Rightarrow> conf_kind list" where
  "acl_kinds a = ConfOpen # concat (map (\<lambda>e. element_kinds e @ [ConfSemi]) a) @ [ConfClose]"

lemma conf_name_display: "doc_name_ok d \<Longrightarrow> conf_name p line (name_display d) = Inr d"
  by (simp add: doc_name_ok_def conf_name_def domain_new_display)

lemma split_slash_none: "CHR ''/'' \<notin> set s \<Longrightarrow> split_slash s = None"
proof -
  assume "CHR ''/'' \<notin> set s"
  then have "dropWhile (\<lambda>c. c \<noteq> CHR ''/'') s = []" by auto
  then show ?thesis unfolding split_slash_def by (simp only: list.case)
qed

lemma split_slash_append: "CHR ''/'' \<notin> set a \<Longrightarrow> split_slash (a @ CHR ''/'' # b) = Some (a, b)"
proof -
  assume a: "CHR ''/'' \<notin> set a"
  then have "dropWhile (\<lambda>c. c \<noteq> CHR ''/'') (a @ CHR ''/'' # b) = CHR ''/'' # b"
    by (subst dropWhile_append2) auto
  moreover from a have "takeWhile (\<lambda>c. c \<noteq> CHR ''/'') (a @ CHR ''/'' # b) = a"
    by (subst takeWhile_append2) auto
  ultimately show ?thesis by (simp add: split_slash_def)
qed

lemma ip_no_slash: "CHR ''/'' \<notin> set (ip_display a)"
  using ip_display_ip [of a] ip_char_word by (auto simp: list_all_iff)

text \<open>The words of the grammar that a value must not be.\<close>

abbreviation acl_words :: "string set" where
  "acl_words \<equiv> {''any'', ''none'', ''localhost'', ''localnets'', ''key''}"

lemma ip_lower: "list_all ip_char s \<Longrightarrow> lower_text s \<notin> acl_words"
  using ip_not_word [of s "lower_text s"] not_ip_words by (metis emptyE insertE)

lemma network_lower: "lower_text (a @ CHR ''/'' # n) \<notin> acl_words"
proof -
  have "CHR ''/'' \<in> set (lower_text (a @ CHR ''/'' # n))" by (simp add: lower_text_def lower_char_def)
  moreover have "\<forall>w \<in> acl_words. CHR ''/'' \<notin> set w" by simp
  ultimately show ?thesis by metis
qed

lemma acl_text_value:
  "lower_text v \<notin> acl_words \<Longrightarrow> parse_acl_element p line v =
     (case split_slash v of
        Some parts \<Rightarrow> parse_network p line v parts
      | None \<Rightarrow> (case parse_ip_addr v of Some a \<Rightarrow> Inr (AclAddress a) | None \<Rightarrow> Inr (AclNamed v)))"
  by (simp add: parse_acl_element_def)

lemma lower_words: "w \<in> acl_words \<Longrightarrow> lower_text w = w"
  by (auto simp: lower_text_def lower_char_def)

lemma element_value:
  assumes "element_ok e" "element_kinds e = [ConfWord v] \<or> element_kinds e = [ConfQuoted v]"
  shows "parse_acl_element p line v = Inr e \<and> lower_text v \<noteq> ''key''"
proof (cases e)
  case (AclAddress a)
  with assms(2) have v: "v = ip_display a" by simp
  have "lower_text v \<notin> acl_words" unfolding v using ip_display_ip ip_lower by blast
  then show ?thesis
    by (simp add: acl_text_value v split_slash_none ip_no_slash parse_ip_display AclAddress)
next
  case (AclNetwork a n)
  with assms(2) have v: "v = ip_display a @ CHR ''/'' # show_nat (unat n)" by simp
  have "lower_text v \<notin> acl_words" unfolding v by (rule network_lower)
  then show ?thesis using assms(1)
    by (simp add: acl_text_value v split_slash_append ip_no_slash parse_ip_display AclNetwork parse_network_def
        parse_show_words)
next
  case (AclNamed s)
  with assms have "v = s" "lower_text v \<notin> acl_words" "split_slash v = None" "parse_ip_addr v = None"
    by (auto simp: acl_name_ok_def split_slash_none)
  then show ?thesis by (simp add: acl_text_value AclNamed)
qed (use assms lower_words in \<open>auto simp: parse_acl_element_def\<close>)

lemma element_kinds_cases:
  assumes "element_ok e"
  obtains d where "e = AclKey d" | v where "element_kinds e = [ConfWord v] \<or> element_kinds e = [ConfQuoted v]" "\<And>d. e \<noteq> AclKey d"
  using assms by (cases e) auto

lemma reads_item: "element_ok e \<Longrightarrow> reads (parse_acl_item p) (element_kinds e) e"
proof -
  assume ok: "element_ok e"
  then show ?thesis
  proof (cases e rule: element_kinds_cases)
    case (1 d)
    with ok have "doc_name_ok d" by simp
    then show ?thesis
      by (auto simp: reads_def 1 parse_acl_item_def map_eq_Cons_conv next_conf_def conf_text_def same_text_def
          next_text_def conf_name_display)
  next
    case (2 v)
    note val = element_value [OF ok 2(1)]
    have "lower_text ''key'' = ''key''" by (rule lower_words) simp
    then have "\<not> same_text v ''key''" using val by (simp add: same_text_def)
    with val 2 show ?thesis
      by (auto simp: reads_def parse_acl_item_def map_eq_Cons_conv next_conf_def conf_text_def)
  qed
qed

lemma element_kinds_start:
  "element_ok e \<Longrightarrow> \<exists>k ks. element_kinds e = k # ks \<and> k \<noteq> ConfClose \<and> k \<noteq> ConfBang"
  by (cases e) auto

lemma reads_elements:
  "list_all doc_element_ok a \<Longrightarrow>
     reads (parse_acl_elements p) (concat (map (\<lambda>e. element_kinds e @ [ConfSemi]) a) @ [ConfClose]) a"
proof (induction a)
  case Nil
  then show ?case
    by (auto simp: reads_def parse_acl_elements.simps conf_consume_def)
next
  case (Cons e a)
  define more where "more = concat (map (\<lambda>e. element_kinds e @ [ConfSemi]) a) @ [ConfClose]"
  have rest: "reads (parse_acl_elements p) more a" using Cons unfolding more_def by simp
  obtain neg e' where e: "e = (if neg then AclNegated e' else e')" "element_ok e'"
    "element_kinds e = (if neg then [ConfBang] else []) @ element_kinds e'"
  proof (cases e)
    case (AclNegated x)
    then show thesis using Cons.prems by (intro that [of True x]) auto
  qed (use Cons.prems in \<open>auto intro: that [of False e]\<close>)
  show ?case
    unfolding reads_def
  proof (intro allI impI)
    fix ts r :: conf_tokens
    assume "map ct_kind ts = concat (map (\<lambda>e. element_kinds e @ [ConfSemi]) (e # a)) @ [ConfClose]"
    then have "map ct_kind ts = (if neg then [ConfBang] else []) @ element_kinds e' @ ConfSemi # more"
      by (simp add: e(3) more_def)
    from map_append_split [OF this] obtain b q where q: "ts = b @ q"
      "map ct_kind b = (if neg then [ConfBang] else [])" "map ct_kind q = element_kinds e' @ ConfSemi # more" by metis
    from map_append_split [OF q(3)] obtain ts1 q' where q': "q = ts1 @ q'" "map ct_kind ts1 = element_kinds e'"
      "map ct_kind q' = ConfSemi # more" by metis
    then obtain t ts2 where t: "q' = t # ts2" "ct_kind t = ConfSemi" "map ct_kind ts2 = more"
      by (auto simp: map_eq_Cons_conv)
    have "ts = b @ ts1 @ t # ts2" using q(1) q'(1) t(1) by simp
    note ts = this q(2) q'(2) t(2,3)
    from element_kinds_start [OF e(2)] ts(3) obtain t1 ts1' where
      t1: "ts1 = t1 # ts1'" "ct_kind t1 \<noteq> ConfClose" "ct_kind t1 \<noteq> ConfBang" by (auto simp: map_eq_Cons_conv)
    have "conf_consume ConfClose (ts @ r) = None"
      using ts(1,2) t1 by (cases neg) (auto simp: conf_consume_def)
    moreover have "(case conf_consume ConfBang (ts @ r) of Some q \<Rightarrow> (True, q) | None \<Rightarrow> (False, ts @ r))
        = (neg, ts1 @ t # ts2 @ r)"
      using ts(1,2) t1 by (cases neg) (auto simp: conf_consume_def)
    moreover have "parse_acl_item p (ts1 @ t # ts2 @ r) = Inr (e', t # ts2 @ r)"
      using readsD [OF reads_item [OF e(2)] ts(3)] .
    ultimately show "parse_acl_elements p (ts @ r) = Inr (e # a, r)"
      using readsD [OF rest ts(5)] ts(4) e(1) by (subst parse_acl_elements.simps) simp
  qed
qed

lemma reads_acl: "list_all doc_element_ok a \<Longrightarrow> reads (parse_acl p) (acl_kinds a) a"
  unfolding acl_kinds_def by (auto simp: reads_def parse_acl_def map_eq_Cons_conv readsD [OF reads_elements])

text \<open>Names of keys, and ports.\<close>

definition key_list_kinds :: "domain_name list \<Rightarrow> conf_kind list" where
  "key_list_kinds ds = ConfOpen # concat (map (\<lambda>d. [ConfQuoted (name_display d), ConfSemi]) ds) @ [ConfClose]"

lemma reads_key_list:
  "list_all doc_name_ok ds \<Longrightarrow>
     reads (parse_key_list p) (concat (map (\<lambda>d. [ConfQuoted (name_display d), ConfSemi]) ds) @ [ConfClose]) ds"
proof (induction ds)
  case Nil
  then show ?case by (auto simp: reads_def parse_key_list.simps conf_consume_def)
next
  case (Cons d ds)
  then show ?case
    by (auto simp: reads_def map_eq_Cons_conv parse_key_list.simps [of p "_ # _"] conf_consume_def next_conf_def
        conf_text_def conf_name_display)
qed

lemma reads_key_names: "list_all doc_name_ok ds \<Longrightarrow> reads (parse_key_names p) (key_list_kinds ds) ds"
  unfolding key_list_kinds_def
  by (auto simp: reads_def parse_key_names_def map_eq_Cons_conv readsD [OF reads_key_list])

lemma reads_port: "reads (parse_port p) [ConfWord (show_nat (unat n))] n"
  by (auto simp: reads_def parse_port_def next_conf_def conf_text_def parse_show_words)

section \<open>Blocks of directives\<close>

lemma reads_text_semi: "reads (\<lambda>ts. then_semi p (rmap (apfst f) (next_text p ts))) [ConfQuoted s, ConfSemi] (f s)"
  using reads_semi [OF reads_rmap [OF reads_text(2)]] by simp

lemma reads_acl_semi:
  "list_all doc_element_ok a \<Longrightarrow> reads (\<lambda>ts. then_semi p (rmap (apfst f) (parse_acl p ts))) (acl_kinds a @ [ConfSemi]) (f a)"
  by (intro reads_semi reads_rmap reads_acl)

context block_loop
begin

lemma run_directives:
  assumes "close \<in> {ConfClose, ConfSemi}" "list_all (directive_ok known ok) items"
    "\<And>a x. ok a \<Longrightarrow>
       \<exists>w ks. kinds a = ConfWord w # ks \<and> (\<forall>t. ct_kind t = ConfWord w \<longrightarrow> reads (body t w x) ks (f a x))"
    "\<And>t w x r. lower_text w \<notin> set known \<Longrightarrow> body t w x r = skip_directive p t x r"
  shows "reads (run x) (concat (map (directive_kinds kinds) items) @ [close]) (fold (apply_known f) items x)"
proof (rule run_items)
  fix it x assume "it \<in> set items"
  with assms(2) have ok: "directive_ok known ok it" by (simp add: list_all_iff)
  show "\<exists>k w ks. directive_kinds kinds it = k # ks \<and> k \<noteq> close \<and> (k = ConfWord w \<or> k = ConfQuoted w)
     \<and> (\<forall>t. ct_kind t = k \<longrightarrow> reads (body t w x) ks (apply_known f it x))"
  proof (cases it)
    case (Known a)
    then show ?thesis using ok assms(1) assms(3) [of a x] by fastforce
  next
    case (Unknown w ts)
    with ok have "body t w x = skip_directive p t x" for t by (intro ext assms(4)) simp
    then show ?thesis using reads_skip [of known ok w ts] ok assms(1) Unknown by auto
  qed
qed

end

lemma keyword_lower:
  "lower_text ''type'' = ''type''" "lower_text ''file'' = ''file''" "lower_text ''allow-transfer'' = ''allow-transfer''"
  "lower_text ''algorithm'' = ''algorithm''" "lower_text ''secret'' = ''secret''" "lower_text ''port'' = ''port''"
  "lower_text ''allow'' = ''allow''" "lower_text ''keys'' = ''keys''" "lower_text ''inet'' = ''inet''"
  "lower_text ''directory'' = ''directory''" "lower_text ''allow-recursion'' = ''allow-recursion''"
  "lower_text ''statistics-channels'' = ''statistics-channels''" "lower_text ''zone'' = ''zone''"
  "lower_text ''key'' = ''key''" "lower_text ''acl'' = ''acl''" "lower_text ''options'' = ''options''"
  "lower_text ''controls'' = ''controls''" "lower_text ''any'' = ''any''"
  by (simp_all add: lower_text_def lower_char_def)

subsection \<open>Zones\<close>

datatype zone_item = ZType named_zone_type | ZFile string | ZTransfer acl

fun zone_type_word :: "named_zone_type \<Rightarrow> string" where
  "zone_type_word ZonePrimary = ''primary''"
| "zone_type_word ZoneSecondary = ''secondary''"
| "zone_type_word ZoneStub = ''stub''"
| "zone_type_word ZoneForward = ''forward''"

fun zone_item_kinds :: "zone_item \<Rightarrow> conf_kind list" where
  "zone_item_kinds (ZType ty) = [ConfWord ''type'', ConfWord (zone_type_word ty), ConfSemi]"
| "zone_item_kinds (ZFile s) = [ConfWord ''file'', ConfQuoted s, ConfSemi]"
| "zone_item_kinds (ZTransfer a) = ConfWord ''allow-transfer'' # acl_kinds a @ [ConfSemi]"

fun zone_item_ok :: "zone_item \<Rightarrow> bool" where
  "zone_item_ok (ZType ty) = True"
| "zone_item_ok (ZFile s) = utf8_text s"
| "zone_item_ok (ZTransfer a) = list_all doc_element_ok a"

fun apply_zone_item :: "zone_item \<Rightarrow> zone_fields \<Rightarrow> zone_fields" where
  "apply_zone_item (ZType ty) x = x\<lparr>zf_type := Some ty\<rparr>"
| "apply_zone_item (ZFile s) x = x\<lparr>zf_file := Some s\<rparr>"
| "apply_zone_item (ZTransfer a) x = x\<lparr>zf_transfer := Some a\<rparr>"

abbreviation "zone_words \<equiv> [''type'', ''file'', ''allow-transfer'']"

lemma zone_type_word: "zone_type_of (lower_text (zone_type_word ty)) = Some ty"
  by (cases ty) (simp_all add: zone_type_of_def lower_text_def lower_char_def)

lemma reads_zone_item:
  "zone_item_ok a \<Longrightarrow> \<exists>w ks. zone_item_kinds a = ConfWord w # ks
     \<and> (\<forall>t. ct_kind t = ConfWord w \<longrightarrow> reads (zone_directive p t w x) ks (apply_zone_item a x))"
proof (cases a)
  case (ZType ty)
  then show ?thesis
    by (auto simp: reads_def map_eq_Cons_conv zone_directive_def keyword_lower next_text_def next_conf_def conf_text_def
        zone_type_word then_semi_def)
next
  case (ZFile s)
  then show ?thesis
    using reads_text_semi [of p "\<lambda>v. x\<lparr>zf_file := Some v\<rparr>" s]
    by (auto simp: reads_def zone_directive_def keyword_lower)
next
  case (ZTransfer b)
  moreover assume "zone_item_ok a"
  ultimately show ?thesis
    using reads_acl_semi [of b p "\<lambda>v. x\<lparr>zf_transfer := Some v\<rparr>"]
    by (auto simp: reads_def zone_directive_def keyword_lower)
qed

lemma reads_zone_block:
  assumes "list_all (directive_ok zone_words zone_item_ok) items"
  shows "reads (zone_block p x) (concat (map (directive_kinds zone_item_kinds) items) @ [ConfClose])
     (fold (apply_known apply_zone_item) items x)"
  by (rule zone_loop.run_directives [OF _ assms]) (simp_all add: reads_zone_item zone_directive_def)

subsection \<open>Keys\<close>

datatype key_item = KAlgorithm tsig_algorithm | KSecret string

fun algorithm_word :: "tsig_algorithm \<Rightarrow> string" where
  "algorithm_word HmacSha256 = ''hmac-sha256''"
| "algorithm_word HmacSha512 = ''hmac-sha512''"
| "algorithm_word HmacSha1 = ''hmac-sha1''"

fun key_item_kinds :: "key_item \<Rightarrow> conf_kind list" where
  "key_item_kinds (KAlgorithm alg) = [ConfWord ''algorithm'', ConfWord (algorithm_word alg), ConfSemi]"
| "key_item_kinds (KSecret s) = [ConfWord ''secret'', ConfQuoted s, ConfSemi]"

fun key_item_ok :: "key_item \<Rightarrow> bool" where
  "key_item_ok (KAlgorithm alg) = True"
| "key_item_ok (KSecret s) = utf8_text s"

fun apply_key_item :: "key_item \<Rightarrow> key_fields \<Rightarrow> key_fields" where
  "apply_key_item (KAlgorithm alg) x = x\<lparr>kf_algorithm := Some alg\<rparr>"
| "apply_key_item (KSecret s) x = x\<lparr>kf_secret := Some s\<rparr>"

abbreviation "key_words \<equiv> [''algorithm'', ''secret'']"

lemma algorithm_word: "key_algorithm_of (lower_text (algorithm_word alg)) = Some alg"
  by (cases alg) (simp_all add: key_algorithm_of_def lower_text_def lower_char_def)

lemma reads_key_item:
  "key_item_ok a \<Longrightarrow> \<exists>w ks. key_item_kinds a = ConfWord w # ks
     \<and> (\<forall>t. ct_kind t = ConfWord w \<longrightarrow> reads (key_directive p t w x) ks (apply_key_item a x))"
proof (cases a)
  case (KAlgorithm alg)
  then show ?thesis
    by (auto simp: reads_def map_eq_Cons_conv key_directive_def keyword_lower next_text_def next_conf_def conf_text_def
        algorithm_word then_semi_def)
next
  case (KSecret s)
  then show ?thesis
    using reads_text_semi [of p "\<lambda>v. x\<lparr>kf_secret := Some v\<rparr>" s]
    by (auto simp: reads_def key_directive_def keyword_lower)
qed

lemma reads_key_block:
  assumes "list_all (directive_ok key_words key_item_ok) items"
  shows "reads (key_block p x) (concat (map (directive_kinds key_item_kinds) items) @ [ConfClose])
     (fold (apply_known apply_key_item) items x)"
  by (rule key_loop.run_directives [OF _ assms]) (simp_all add: reads_key_item key_directive_def)

subsection \<open>Listeners\<close>

datatype listener_option = OptPort u16 | OptAllow acl | OptKeys "domain_name list"

fun option_kinds :: "listener_option \<Rightarrow> conf_kind list" where
  "option_kinds (OptPort n) = [ConfWord ''port'', ConfWord (show_nat (unat n))]"
| "option_kinds (OptAllow a) = ConfWord ''allow'' # acl_kinds a"
| "option_kinds (OptKeys ds) = ConfWord ''keys'' # key_list_kinds ds"

fun option_ok :: "listener_option \<Rightarrow> bool" where
  "option_ok (OptPort n) = True"
| "option_ok (OptAllow a) = list_all doc_element_ok a"
| "option_ok (OptKeys ds) = list_all doc_name_ok ds"

fun apply_endpoint_option :: "listener_option \<Rightarrow> control_endpoint \<Rightarrow> control_endpoint" where
  "apply_endpoint_option (OptPort n) x = x\<lparr>ce_port := n\<rparr>"
| "apply_endpoint_option (OptAllow a) x = x\<lparr>ce_allow := Some a\<rparr>"
| "apply_endpoint_option (OptKeys ds) x = x\<lparr>ce_keys := ds\<rparr>"

fun apply_channel_option :: "listener_option \<Rightarrow> statistics_channel \<Rightarrow> statistics_channel" where
  "apply_channel_option (OptPort n) x = x\<lparr>sc_port := n\<rparr>"
| "apply_channel_option (OptAllow a) x = x\<lparr>sc_allow := Some a\<rparr>"
| "apply_channel_option (OptKeys ds) x = x"

text \<open>A listener: its address, and options the parser knows.\<close>

type_synonym listener = "listen_address \<times> listener_option list"

fun listen_word :: "listen_address \<Rightarrow> string" where
  "listen_word ListenAny = ''*''"
| "listen_word (ListenIp a) = ip_display a"

definition listener_kinds :: "listener \<Rightarrow> conf_kind list" where
  "listener_kinds = (\<lambda>(a, opts).
     ConfWord ''inet'' # ConfWord (listen_word a) # concat (map option_kinds opts) @ [ConfSemi])"

lemma listen_word: "parse_listen p line (listen_word a) = Inr a"
proof (cases a)
  case (ListenIp x)
  have "list_all ip_char (ip_display x)" by (simp add: ip_display_ip)
  then have "lower_text (ip_display x) \<notin> acl_words" "ip_display x \<noteq> ''*''"
    using ip_lower not_ip_words by metis+
  then show ?thesis by (simp add: ListenIp parse_listen_def same_text_def keyword_lower parse_ip_display)
qed (simp add: parse_listen_def)

lemma reads_inet: "reads (parse_inet p t) [ConfWord (listen_word a)] a"
  by (auto simp: reads_def parse_inet_def next_text_def next_conf_def conf_text_def listen_word)

lemma reads_endpoint_options:
  assumes "list_all option_ok opts"
  shows "reads (endpoint_options p x) (concat (map option_kinds opts) @ [ConfSemi]) (fold apply_endpoint_option opts x)"
proof (rule endpoint_loop.run_items)
  fix it x assume "it \<in> set opts"
  with assms have "option_ok it" by (simp add: list_all_iff)
  then show "\<exists>k w ks. option_kinds it = k # ks \<and> k \<noteq> ConfSemi \<and> (k = ConfWord w \<or> k = ConfQuoted w)
     \<and> (\<forall>t. ct_kind t = k \<longrightarrow> reads (endpoint_option p t w x) ks (apply_endpoint_option it x))"
    by (cases it) (auto simp: reads_def endpoint_option_def keyword_lower
        readsD [OF reads_port] readsD [OF reads_acl] readsD [OF reads_key_names])
qed

fun channel_option_ok :: "listener_option \<Rightarrow> bool" where
  "channel_option_ok (OptKeys ds) = False"
| "channel_option_ok opt = option_ok opt"

lemma reads_channel_options:
  assumes "list_all channel_option_ok opts"
  shows "reads (channel_options p x) (concat (map option_kinds opts) @ [ConfSemi]) (fold apply_channel_option opts x)"
proof (rule channel_loop.run_items)
  fix it x assume "it \<in> set opts"
  with assms have "channel_option_ok it" by (simp add: list_all_iff)
  then show "\<exists>k w ks. option_kinds it = k # ks \<and> k \<noteq> ConfSemi \<and> (k = ConfWord w \<or> k = ConfQuoted w)
     \<and> (\<forall>t. ct_kind t = k \<longrightarrow> reads (channel_option p t w x) ks (apply_channel_option it x))"
    by (cases it) (auto simp: reads_def channel_option_def keyword_lower
        readsD [OF reads_port] readsD [OF reads_acl])
qed

definition listener_endpoint :: "listener \<Rightarrow> control_endpoint" where
  "listener_endpoint = (\<lambda>(a, opts). fold apply_endpoint_option opts
     \<lparr>ce_address = a, ce_port = 953, ce_allow = None, ce_keys = []\<rparr>)"

definition listener_channel :: "listener \<Rightarrow> statistics_channel" where
  "listener_channel = (\<lambda>(a, opts). fold apply_channel_option opts \<lparr>sc_address = a, sc_port = 80, sc_allow = None\<rparr>)"

abbreviation block_kinds :: "('a \<Rightarrow> conf_kind list) \<Rightarrow> 'a directive list \<Rightarrow> conf_kind list" where
  "block_kinds kinds items \<equiv> ConfOpen # concat (map (directive_kinds kinds) items) @ [ConfClose]"

abbreviation endpoints_of :: "listener directive list \<Rightarrow> control_endpoint list" where
  "endpoints_of ls \<equiv> fold (apply_known (\<lambda>l xs. xs @ [listener_endpoint l])) ls []"

abbreviation channels_of :: "listener directive list \<Rightarrow> statistics_channel list" where
  "channels_of ls \<equiv> fold (apply_known (\<lambda>l xs. xs @ [listener_channel l])) ls []"

definition endpoints_ok :: "listener directive list \<Rightarrow> bool" where
  "endpoints_ok ls \<longleftrightarrow> list_all (directive_ok [''inet''] (\<lambda>(a, opts). list_all option_ok opts)) ls"

definition channels_ok :: "listener directive list \<Rightarrow> bool" where
  "channels_ok ls \<longleftrightarrow> list_all (directive_ok [''inet''] (\<lambda>(a, opts). list_all channel_option_ok opts)) ls"

lemma same_inet: "same_text w ''inet'' \<longleftrightarrow> lower_text w = ''inet''"
  by (simp add: same_text_def keyword_lower)

lemma reads_endpoint:
  assumes "list_all option_ok opts"
  shows "reads (controls_directive p t ''inet'' x) (ConfWord (listen_word a) # concat (map option_kinds opts) @ [ConfSemi])
     (x @ [listener_endpoint (a, opts)])"
proof -
  let ?e = "\<lparr>ce_address = a, ce_port = 953, ce_allow = None, ce_keys = []\<rparr>"
  have "reads (\<lambda>r. rbind (parse_inet p t r) (\<lambda>(a, r).
        rmap (apfst (\<lambda>e. x @ [e])) (endpoint_options p \<lparr>ce_address = a, ce_port = 953, ce_allow = None, ce_keys = []\<rparr> r)))
      ([ConfWord (listen_word a)] @ concat (map option_kinds opts) @ [ConfSemi])
      (x @ [fold apply_endpoint_option opts ?e])"
    by (intro reads_bind [OF reads_inet] reads_rmap reads_endpoint_options assms)
  then show ?thesis
    by (simp add: reads_def controls_directive_def same_inet keyword_lower listener_endpoint_def)
qed

lemma reads_channel:
  assumes "list_all channel_option_ok opts"
  shows "reads (channels_directive p t ''inet'' x) (ConfWord (listen_word a) # concat (map option_kinds opts) @ [ConfSemi])
     (x @ [listener_channel (a, opts)])"
proof -
  let ?c = "\<lparr>sc_address = a, sc_port = 80, sc_allow = None\<rparr>"
  have "reads (\<lambda>r. rbind (parse_inet p t r) (\<lambda>(a, r).
        rmap (apfst (\<lambda>c. x @ [c])) (channel_options p \<lparr>sc_address = a, sc_port = 80, sc_allow = None\<rparr> r)))
      ([ConfWord (listen_word a)] @ concat (map option_kinds opts) @ [ConfSemi])
      (x @ [fold apply_channel_option opts ?c])"
    by (intro reads_bind [OF reads_inet] reads_rmap reads_channel_options assms)
  then show ?thesis
    by (simp add: reads_def channels_directive_def same_inet keyword_lower listener_channel_def)
qed

lemma reads_controls:
  assumes "endpoints_ok ls"
  shows "reads (parse_controls p) (block_kinds listener_kinds ls @ [ConfSemi]) (endpoints_of ls)"
proof -
  have "reads (controls_block p []) (concat (map (directive_kinds listener_kinds) ls) @ [ConfClose]) (endpoints_of ls)"
    by (rule controls_loop.run_directives [OF _ assms [unfolded endpoints_ok_def]])
       (auto simp: listener_kinds_def controls_directive_def same_inet intro: reads_endpoint)
  from reads_semi [OF reads_expect [OF this]] show ?thesis by (simp add: reads_def parse_controls_def)
qed

lemma reads_channels:
  assumes "channels_ok ls"
  shows "reads (parse_statistics_channels p) (block_kinds listener_kinds ls @ [ConfSemi]) (channels_of ls)"
proof -
  have "reads (channels_block p []) (concat (map (directive_kinds listener_kinds) ls) @ [ConfClose]) (channels_of ls)"
    by (rule channels_loop.run_directives [OF _ assms [unfolded channels_ok_def]])
       (auto simp: listener_kinds_def channels_directive_def same_inet intro: reads_channel)
  from reads_semi [OF reads_expect [OF this]] show ?thesis by (simp add: reads_def parse_statistics_channels_def)
qed

subsection \<open>Options\<close>

datatype option_item = OptDirectory string | OptRecursion acl | OptChannels "listener directive list"

fun option_item_kinds :: "option_item \<Rightarrow> conf_kind list" where
  "option_item_kinds (OptDirectory s) = [ConfWord ''directory'', ConfQuoted s, ConfSemi]"
| "option_item_kinds (OptRecursion a) = ConfWord ''allow-recursion'' # acl_kinds a @ [ConfSemi]"
| "option_item_kinds (OptChannels ls) = ConfWord ''statistics-channels'' # block_kinds listener_kinds ls @ [ConfSemi]"

fun option_item_ok :: "option_item \<Rightarrow> bool" where
  "option_item_ok (OptDirectory s) = utf8_text s"
| "option_item_ok (OptRecursion a) = list_all doc_element_ok a"
| "option_item_ok (OptChannels ls) = channels_ok ls"

fun apply_option_item :: "option_item \<Rightarrow> named_conf \<Rightarrow> named_conf" where
  "apply_option_item (OptDirectory s) x = set_options (no_directory_update (\<lambda>_. Some s)) x"
| "apply_option_item (OptRecursion a) x = set_options (no_allow_recursion_update (\<lambda>_. Some a)) x"
| "apply_option_item (OptChannels ls) x = add_channels x (channels_of ls)"

abbreviation "option_words \<equiv> [''directory'', ''allow-recursion'', ''statistics-channels'']"

lemma reads_option_item:
  "option_item_ok a \<Longrightarrow> \<exists>w ks. option_item_kinds a = ConfWord w # ks
     \<and> (\<forall>t. ct_kind t = ConfWord w \<longrightarrow> reads (options_directive p t w x) ks (apply_option_item a x))"
proof (cases a)
  case (OptDirectory s)
  then show ?thesis
    using reads_text_semi [of p "\<lambda>v. set_options (no_directory_update (\<lambda>_. Some v)) x" s]
    by (auto simp: reads_def options_directive_def keyword_lower)
next
  case (OptRecursion b)
  moreover assume "option_item_ok a"
  ultimately show ?thesis
    using reads_acl_semi [of b p "\<lambda>v. set_options (no_allow_recursion_update (\<lambda>_. Some v)) x"]
    by (auto simp: reads_def options_directive_def keyword_lower)
next
  case (OptChannels ls)
  moreover assume "option_item_ok a"
  ultimately show ?thesis
    using reads_rmap [OF reads_channels [of ls p], of "add_channels x"]
    by (auto simp: reads_def options_directive_def keyword_lower)
qed

lemma reads_options:
  assumes "list_all (directive_ok option_words option_item_ok) items"
  shows "reads (parse_options p line x) (block_kinds option_item_kinds items @ [ConfSemi])
     (fold (apply_known apply_option_item) items x)"
proof -
  have "reads (options_block p x) (concat (map (directive_kinds option_item_kinds) items) @ [ConfClose])
     (fold (apply_known apply_option_item) items x)"
    by (rule options_loop.run_directives [OF _ assms]) (simp_all add: reads_option_item options_directive_def)
  moreover have "reads (\<lambda>r. rmap (\<lambda>r. (y, r))
      (map_err (\<lambda>_. parse_error (cs_path p) line ''unterminated options block'') (conf_expect p ConfSemi r))) [ConfSemi] y"
    for y :: named_conf by (auto simp: reads_def)
  ultimately have "reads (\<lambda>ts. rbind (conf_expect p ConfOpen ts) (\<lambda>ts. rbind (options_block p x ts) (\<lambda>(y, r).
      rmap (\<lambda>r. (y, r))
        (map_err (\<lambda>_. parse_error (cs_path p) line ''unterminated options block'') (conf_expect p ConfSemi r)))))
      (ConfOpen # (concat (map (directive_kinds option_item_kinds) items) @ [ConfClose]) @ [ConfSemi])
      (fold (apply_known apply_option_item) items x)"
    by (intro reads_expect reads_bind)
  then show ?thesis by (simp add: reads_def parse_options_def)
qed

subsection \<open>Documents\<close>

datatype conf_statement =
    SZone domain_name "zone_item directive list"
  | SKey domain_name "key_item directive list"
  | SAcl string acl
  | SOptions "option_item directive list"
  | SControls "listener directive list"
  | SChannels "listener directive list"

type_synonym conf_doc = "conf_statement directive list"

definition zone_fields_of :: "zone_item directive list \<Rightarrow> zone_fields" where
  "zone_fields_of items = fold (apply_known apply_zone_item) items \<lparr>zf_type = None, zf_file = None, zf_transfer = None\<rparr>"

definition key_fields_of :: "key_item directive list \<Rightarrow> key_fields" where
  "key_fields_of items = fold (apply_known apply_key_item) items \<lparr>kf_algorithm = None, kf_secret = None\<rparr>"

fun statement_kinds :: "conf_statement \<Rightarrow> conf_kind list" where
  "statement_kinds (SZone d items) =
     ConfWord ''zone'' # ConfQuoted (name_display d) # block_kinds zone_item_kinds items @ [ConfSemi]"
| "statement_kinds (SKey d items) =
     ConfWord ''key'' # ConfQuoted (name_display d) # block_kinds key_item_kinds items @ [ConfSemi]"
| "statement_kinds (SAcl name a) = ConfWord ''acl'' # ConfQuoted name # acl_kinds a @ [ConfSemi]"
| "statement_kinds (SOptions items) = ConfWord ''options'' # block_kinds option_item_kinds items @ [ConfSemi]"
| "statement_kinds (SControls ls) = ConfWord ''controls'' # block_kinds listener_kinds ls @ [ConfSemi]"
| "statement_kinds (SChannels ls) = ConfWord ''statistics-channels'' # block_kinds listener_kinds ls @ [ConfSemi]"

text \<open>The octets of the last secret of a key statement.\<close>

definition secret_of :: "(byte list \<Rightarrow> byte list option) \<Rightarrow> key_item directive list \<Rightarrow> byte list option" where
  "secret_of base64 items = Option.bind (kf_secret (key_fields_of items)) (\<lambda>s.
     if strip_whitespace (as_bytes s) = [] then None else base64 (strip_whitespace (as_bytes s)))"

fun statement_ok :: "(byte list \<Rightarrow> byte list option) \<Rightarrow> conf_statement \<Rightarrow> bool" where
  "statement_ok base64 (SZone d items) \<longleftrightarrow>
     doc_name_ok d \<and> list_all (directive_ok zone_words zone_item_ok) items \<and> zf_type (zone_fields_of items) \<noteq> None"
| "statement_ok base64 (SKey d items) \<longleftrightarrow>
     doc_name_ok d \<and> list_all (directive_ok key_words key_item_ok) items
       \<and> kf_algorithm (key_fields_of items) \<noteq> None \<and> secret_of base64 items \<notin> {None, Some []}"
| "statement_ok base64 (SAcl name a) \<longleftrightarrow> utf8_text name \<and> list_all doc_element_ok a"
| "statement_ok base64 (SOptions items) = list_all (directive_ok option_words option_item_ok) items"
| "statement_ok base64 (SControls ls) = endpoints_ok ls"
| "statement_ok base64 (SChannels ls) = channels_ok ls"

fun apply_statement :: "(byte list \<Rightarrow> byte list option) \<Rightarrow> conf_statement \<Rightarrow> named_conf \<Rightarrow> named_conf" where
  "apply_statement base64 (SZone d items) x = x\<lparr>nc_zones := nc_zones x @
     [\<lparr>nz_name = d, nz_type = the (zf_type (zone_fields_of items)), nz_file = zf_file (zone_fields_of items),
       nz_allow_transfer = zf_transfer (zone_fields_of items)\<rparr>]\<rparr>"
| "apply_statement base64 (SKey d items) x = x\<lparr>nc_keys := nc_keys x @
     [\<lparr>key_name = d, key_algorithm = the (kf_algorithm (key_fields_of items)),
       key_material = the (secret_of base64 items)\<rparr>]\<rparr>"
| "apply_statement base64 (SAcl name a) x = x\<lparr>nc_acls := nc_acls x @ [\<lparr>na_name = name, na_acl = a\<rparr>]\<rparr>"
| "apply_statement base64 (SOptions items) x = fold (apply_known apply_option_item) items x"
| "apply_statement base64 (SControls ls) x = x\<lparr>nc_controls := nc_controls x @ endpoints_of ls\<rparr>"
| "apply_statement base64 (SChannels ls) x = add_channels x (channels_of ls)"

abbreviation "statement_words \<equiv> [''zone'', ''key'', ''acl'', ''options'', ''controls'', ''statistics-channels'']"

definition doc_ok :: "(byte list \<Rightarrow> byte list option) \<Rightarrow> conf_doc \<Rightarrow> bool" where
  "doc_ok base64 doc \<longleftrightarrow> list_all (directive_ok statement_words (statement_ok base64)) doc"

definition doc_text :: "conf_doc \<Rightarrow> string" where
  "doc_text doc = conf_document (concat (map (directive_kinds statement_kinds) doc))"

definition doc_meaning :: "(byte list \<Rightarrow> byte list option) \<Rightarrow> conf_doc \<Rightarrow> named_conf" where
  "doc_meaning base64 doc = fold (apply_known (apply_statement base64)) doc named_conf_default"

section \<open>Statements are read\<close>

lemma named_block_split:
  "map ct_kind ts = ConfQuoted v # (ConfOpen # ks) @ [ConfSemi] \<Longrightarrow>
     \<exists>t1 t2 b t3. ts = t1 # t2 # b @ [t3] \<and> ct_kind t1 = ConfQuoted v \<and> ct_kind t2 = ConfOpen
       \<and> map ct_kind b = ks \<and> ct_kind t3 = ConfSemi"
  by (auto simp: map_eq_append_conv map_eq_Cons_conv)

text \<open>What the readers of a named block have read when the semicolon is taken.\<close>

lemma reads_named_block:
  assumes "doc_name_ok d" "reads block ks x"
    "\<And>r. rest d x r = Inr (w, r)"
  shows "reads (\<lambda>ts. rbind (next_text p ts) (\<lambda>(v, r). rbind (conf_name p line v) (\<lambda>name.
      rbind (conf_expect p ConfOpen r) (\<lambda>r. rbind (block r) (\<lambda>(x, r). rbind (conf_expect p ConfSemi r) (rest name x))))))
    (ConfQuoted (name_display d) # (ConfOpen # ks) @ [ConfSemi]) w"
  unfolding reads_def
proof (intro allI impI)
  fix ts r :: conf_tokens
  assume "map ct_kind ts = ConfQuoted (name_display d) # (ConfOpen # ks) @ [ConfSemi]"
  from named_block_split [OF this] obtain t1 t2 b t3 where ts: "ts = t1 # t2 # b @ [t3]"
    "ct_kind t1 = ConfQuoted (name_display d)" "ct_kind t2 = ConfOpen" "map ct_kind b = ks" "ct_kind t3 = ConfSemi" by metis
  from readsD [OF assms(2) ts(4)] have "block (b @ t3 # r) = Inr (x, t3 # r)" .
  then show "rbind (next_text p (ts @ r)) (\<lambda>(v, r). rbind (conf_name p line v) (\<lambda>name.
      rbind (conf_expect p ConfOpen r) (\<lambda>r. rbind (block r) (\<lambda>(x, r). rbind (conf_expect p ConfSemi r) (rest name x)))))
      = Inr (w, r)"
    using ts(2,3,5) assms(1,3) by (simp add: ts(1) next_text_def next_conf_def conf_text_def conf_name_display)
qed

lemma reads_zone_statement:
  assumes "statement_ok b64 (SZone d items)"
  shows "reads (parse_zone_statement p line) (ConfQuoted (name_display d) # block_kinds zone_item_kinds items @ [ConfSemi])
     \<lparr>nz_name = d, nz_type = the (zf_type (zone_fields_of items)), nz_file = zf_file (zone_fields_of items),
       nz_allow_transfer = zf_transfer (zone_fields_of items)\<rparr>"
proof -
  let ?init = "\<lparr>zf_type = None, zf_file = None, zf_transfer = None\<rparr>"
  have d: "doc_name_ok d" using assms by simp
  have block: "reads (zone_block p ?init) (concat (map (directive_kinds zone_item_kinds) items) @ [ConfClose])
      (zone_fields_of items)"
    using assms reads_zone_block [of items p ?init] by (simp add: zone_fields_of_def)
  have "reads (\<lambda>ts. parse_zone_statement p line ts)
      (ConfQuoted (name_display d) # block_kinds zone_item_kinds items @ [ConfSemi])
      \<lparr>nz_name = d, nz_type = the (zf_type (zone_fields_of items)), nz_file = zf_file (zone_fields_of items),
       nz_allow_transfer = zf_transfer (zone_fields_of items)\<rparr>"
    unfolding parse_zone_statement_def
    by (rule reads_named_block [OF d block]) (use assms in auto)
  then show ?thesis .
qed

lemma reads_key_statement:
  assumes "statement_ok (cs_base64 p) (SKey d items)"
  shows "reads (parse_key_statement p line) (ConfQuoted (name_display d) # block_kinds key_item_kinds items @ [ConfSemi])
     \<lparr>key_name = d, key_algorithm = the (kf_algorithm (key_fields_of items)),
       key_material = the (secret_of (cs_base64 p) items)\<rparr>"
proof -
  let ?init = "\<lparr>kf_algorithm = None, kf_secret = None\<rparr>"
  have d: "doc_name_ok d" using assms by simp
  have block: "reads (key_block p ?init) (concat (map (directive_kinds key_item_kinds) items) @ [ConfClose])
      (key_fields_of items)"
    using assms reads_key_block [of items p ?init] by (simp add: key_fields_of_def)
  have key: "rmap (\<lambda>key. (key, r)) (map_err f (tsig_key_from_base64 (cs_base64 p) d alg secret))
      = Inr (\<lparr>key_name = d, key_algorithm = alg, key_material = the (secret_of (cs_base64 p) items)\<rparr>, r)"
    if "kf_secret (key_fields_of items) = Some secret" for f :: "core_error \<Rightarrow> core_error" and alg secret and r :: conf_tokens
    using assms that
    by (auto simp: secret_of_def tsig_key_from_base64_def tsig_key_new_def Let_def split: if_splits option.splits)
  have "kf_secret (key_fields_of items) \<noteq> None"
    using assms by (cases "kf_secret (key_fields_of items)") (auto simp: secret_of_def)
  then obtain secret where secret: "kf_secret (key_fields_of items) = Some secret" by blast
  have "reads (\<lambda>ts. parse_key_statement p line ts)
      (ConfQuoted (name_display d) # block_kinds key_item_kinds items @ [ConfSemi])
      \<lparr>key_name = d, key_algorithm = the (kf_algorithm (key_fields_of items)),
       key_material = the (secret_of (cs_base64 p) items)\<rparr>"
    unfolding parse_key_statement_def
    by (rule reads_named_block [OF d block]) (use assms secret key [OF secret] in auto)
  then show ?thesis .
qed

lemma reads_named_acl:
  "list_all doc_element_ok a \<Longrightarrow>
     reads (parse_named_acl p) (ConfQuoted name # acl_kinds a @ [ConfSemi]) \<lparr>na_name = name, na_acl = a\<rparr>"
  using reads_acl_semi [of a p "\<lambda>a. \<lparr>na_name = name, na_acl = a\<rparr>"]
  by (auto simp: reads_def parse_named_acl_def map_eq_Cons_conv next_text_def next_conf_def conf_text_def)

lemma reads_statement:
  assumes "statement_ok (cs_base64 p) a"
  shows "\<exists>w ks. statement_kinds a = ConfWord w # ks
     \<and> (\<forall>t. ct_kind t = ConfWord w \<longrightarrow> reads (parse_statement p t w x) ks (apply_statement (cs_base64 p) a x))"
  using assms
proof (cases a)
  case (SZone d items)
  then show ?thesis using reads_zone_statement [of "cs_base64 p" d items p] assms
    by (auto simp: reads_def parse_statement_def keyword_lower)
next
  case (SKey d items)
  then show ?thesis using reads_key_statement [of p d items] assms
    by (auto simp: reads_def parse_statement_def keyword_lower)
next
  case (SAcl name b)
  then show ?thesis using reads_named_acl [of b p name] assms
    by (auto simp: reads_def parse_statement_def keyword_lower)
next
  case (SOptions items)
  then show ?thesis using reads_options [of items p _ x] assms
    by (auto simp: reads_def parse_statement_def keyword_lower)
next
  case (SControls ls)
  then show ?thesis using reads_controls [of ls p] assms
    by (auto simp: reads_def parse_statement_def keyword_lower)
next
  case (SChannels ls)
  then show ?thesis using reads_channels [of ls p] assms
    by (auto simp: reads_def parse_statement_def keyword_lower)
qed

section \<open>Documents are read\<close>

lemma words_ok:
  "conf_word_ok ''zone''" "conf_word_ok ''key''" "conf_word_ok ''acl''" "conf_word_ok ''options''" "conf_word_ok
  ''controls''" "conf_word_ok ''statistics-channels''" "conf_word_ok ''type''" "conf_word_ok ''file''"
  "conf_word_ok ''allow-transfer''" "conf_word_ok ''algorithm''" "conf_word_ok ''secret''" "conf_word_ok ''port''"
  "conf_word_ok ''allow''" "conf_word_ok ''keys''" "conf_word_ok ''inet''" "conf_word_ok ''directory''"
  "conf_word_ok ''allow-recursion''" "conf_word_ok ''any''" "conf_word_ok ''none''" "conf_word_ok ''localhost''"
  "conf_word_ok ''localnets''" "conf_word_ok ''*''"
  by code_simp+

lemma typed_words_ok: "conf_word_ok (zone_type_word ty)" "conf_word_ok (algorithm_word alg)"
proof -
  have w: "conf_word_ok ''primary''" "conf_word_ok ''secondary''" "conf_word_ok ''stub''" "conf_word_ok ''forward''"
    "conf_word_ok ''hmac-sha256''" "conf_word_ok ''hmac-sha512''" "conf_word_ok ''hmac-sha1''" by code_simp+
  show "conf_word_ok (zone_type_word ty)" by (cases ty) (simp_all add: w)
  show "conf_word_ok (algorithm_word alg)" by (cases alg) (simp_all add: w)
qed

lemma tree_kinds_ok: "tree_ok t \<Longrightarrow> list_all kind_ok (tree_kinds t)"
  by (induction t) (auto simp: list_all_iff)

lemma directive_kinds_ok:
  assumes "list_all (directive_ok known ok) items" "\<And>a. ok a \<Longrightarrow> list_all kind_ok (kinds a)"
  shows "list_all kind_ok (concat (map (directive_kinds kinds) items))"
proof -
  have "list_all kind_ok (directive_kinds kinds it)" if it: "it \<in> set items" for it
  proof -
    have ok: "directive_ok known ok it" using assms(1) it by (simp add: list_all_iff)
    have trees: "list_all kind_ok (concat (map tree_kinds ts))" if "list_all tree_ok ts" for ts
      using that tree_kinds_ok by (induction ts) auto
    show ?thesis using ok assms(2) trees by (cases it) auto
  qed
  then show ?thesis by (induction items) auto
qed

lemma element_kinds_ok: "doc_element_ok e \<Longrightarrow> list_all kind_ok (element_kinds e)"
proof -
  have simple: "list_all kind_ok (element_kinds e)" if "element_ok e" for e
    using that
    by (cases e) (simp_all add: words_ok ip_word_ok network_word_ok ip_display_ip show_nat_ip doc_name_ok_def acl_name_ok_def)
  assume e: "doc_element_ok e"
  show ?thesis
  proof (cases e)
    case (AclNegated x)
    then show ?thesis using e simple [of x] by simp
  qed (use e simple [of e] in simp_all)
qed

lemma acl_kinds_ok: "list_all doc_element_ok a \<Longrightarrow> list_all kind_ok (acl_kinds a)"
proof -
  assume "list_all doc_element_ok a"
  then have "list_all kind_ok (concat (map (\<lambda>e. element_kinds e @ [ConfSemi]) a))"
    using element_kinds_ok by (induction a) auto
  then show ?thesis by (simp add: acl_kinds_def)
qed

lemma key_list_kinds_ok: "list_all doc_name_ok ds \<Longrightarrow> list_all kind_ok (key_list_kinds ds)"
proof -
  assume "list_all doc_name_ok ds"
  then have "list_all kind_ok (concat (map (\<lambda>d. [ConfQuoted (name_display d), ConfSemi]) ds))"
    by (induction ds) (auto simp: doc_name_ok_def)
  then show ?thesis by (simp add: key_list_kinds_def)
qed

lemma option_kinds_ok: "option_ok opt \<Longrightarrow> list_all kind_ok (option_kinds opt)"
  using show_nat_digits
  by (cases opt) (simp_all add: words_ok acl_kinds_ok key_list_kinds_ok ip_word_ok show_nat_ip)

lemma listener_kinds_ok: "(case l of (a, opts) \<Rightarrow> list_all option_ok opts) \<Longrightarrow> list_all kind_ok (listener_kinds l)"
proof -
  have addr: "conf_word_ok (listen_word a)" for a
    by (cases a) (simp_all add: words_ok ip_word_ok ip_display_ip)
  have "list_all kind_ok (concat (map option_kinds opts))" if "list_all option_ok opts" for opts
    using that option_kinds_ok by (induction opts) auto
  moreover assume "case l of (a, opts) \<Rightarrow> list_all option_ok opts"
  ultimately show ?thesis by (auto simp: words_ok addr listener_kinds_def split: prod.splits)
qed

lemma channels_kinds_ok: "channels_ok ls \<Longrightarrow> list_all kind_ok (concat (map (directive_kinds listener_kinds) ls))"
proof -
  have "option_ok opt" if "channel_option_ok opt" for opt using that by (cases opt) auto
  then have "case l of (a, opts) \<Rightarrow> list_all option_ok opts" if "case l of (a, opts) \<Rightarrow> list_all channel_option_ok opts" for l :: listener
    using that by (auto simp: list_all_iff split: prod.splits)
  then have listener: "list_all kind_ok (listener_kinds l)"
    if "case l of (a, opts) \<Rightarrow> list_all channel_option_ok opts" for l :: listener
    using that listener_kinds_ok by blast
  assume "channels_ok ls"
  then show ?thesis unfolding channels_ok_def by (rule directive_kinds_ok) (rule listener)
qed

lemma endpoints_kinds_ok: "endpoints_ok ls \<Longrightarrow> list_all kind_ok (concat (map (directive_kinds listener_kinds) ls))"
proof -
  assume "endpoints_ok ls"
  then show ?thesis unfolding endpoints_ok_def by (rule directive_kinds_ok) (rule listener_kinds_ok)
qed

lemma statement_kinds_ok: "statement_ok b64 a \<Longrightarrow> list_all kind_ok (statement_kinds a)"
proof -
  have zone: "list_all kind_ok (zone_item_kinds i)" if "zone_item_ok i" for i
    using that by (cases i) (simp_all add: words_ok typed_words_ok acl_kinds_ok)
  have key: "list_all kind_ok (key_item_kinds i)" if "key_item_ok i" for i
    using that by (cases i) (simp_all add: words_ok typed_words_ok)
  have opt: "list_all kind_ok (option_item_kinds i)" if "option_item_ok i" for i
    using that by (cases i) (simp_all add: words_ok acl_kinds_ok channels_kinds_ok)
  assume "statement_ok b64 a"
  then show ?thesis
    using directive_kinds_ok [OF _ zone] directive_kinds_ok [OF _ key] directive_kinds_ok [OF _ opt]
    by (cases a) (auto simp: words_ok acl_kinds_ok endpoints_kinds_ok channels_kinds_ok doc_name_ok_def)
qed

lemma reads_document:
  assumes "doc_ok (cs_base64 p) doc" "map ct_kind ts = concat (map (directive_kinds statement_kinds) doc)"
  shows "parse_statements p x ts = Inr (fold (apply_known (apply_statement (cs_base64 p))) doc x)"
  using assms
proof (induction doc arbitrary: x ts)
  case (Cons it doc)
  from map_append_split [of ct_kind ts "directive_kinds statement_kinds it"] Cons.prems(2)
  obtain ts1 ts2 where ts: "ts = ts1 @ ts2" "map ct_kind ts1 = directive_kinds statement_kinds it"
    "map ct_kind ts2 = concat (map (directive_kinds statement_kinds) doc)" by auto
  have ok: "directive_ok statement_words (statement_ok (cs_base64 p)) it" "doc_ok (cs_base64 p) doc"
    using Cons.prems(1) by (simp_all add: doc_ok_def)
  have "\<exists>t q w. ts1 = t # q \<and> conf_text p t = Inr w
     \<and> parse_statement p t w x (q @ ts2) = Inr (apply_known (apply_statement (cs_base64 p)) it x, ts2)"
  proof (cases it)
    case (Known a)
    with ok(1) obtain w ks where ks: "statement_kinds a = ConfWord w # ks"
      "\<forall>t. ct_kind t = ConfWord w \<longrightarrow> reads (parse_statement p t w x) ks (apply_statement (cs_base64 p) a x)"
      using reads_statement [of p a x] by auto
    with ts(2) Known obtain t q where "ts1 = t # q" "ct_kind t = ConfWord w" "map ct_kind q = ks"
      by (auto simp: map_eq_Cons_conv)
    with ks(2) Known show ?thesis by (auto simp: conf_text_def dest: readsD)
  next
    case (Unknown w trees)
    with ts(2) obtain t q where q: "ts1 = t # q" "ct_kind t = ConfWord w" "map ct_kind q = concat (map tree_kinds trees) @ [ConfSemi]"
      by (auto simp: map_eq_Cons_conv)
    have "parse_statement p t w x (q @ ts2) = skip_directive p t x (q @ ts2)"
      using ok(1) Unknown by (simp add: parse_statement_def)
    also have "\<dots> = Inr (x, ts2)"
      using ok(1) unfolding Unknown by (rule readsD [OF reads_skip q(3)])
    finally show ?thesis using q Unknown by (auto simp: conf_text_def)
  qed
  with Cons.IH [OF ok(2) ts(3)] ts(1) show ?case by auto
qed simp

section \<open>Properties\<close>

text \<open>
  C7: A document that is written out is read as what it says: for every sequence of statements
  with valid names, addresses, lists, listeners and keys, and with any unknown statements and
  directives between them, the parser of \<open>named.conf\<close> returns the configuration that the known
  statements build in their order. Quoted text may hold any characters.
\<close>

theorem named_conf_reads_document:
  assumes "doc_ok base64 doc"
  shows "named_conf_parse base64 path (doc_text doc) = Inr (doc_meaning base64 doc)"
proof -
  let ?ks = "concat (map (directive_kinds statement_kinds) doc)"
  have "list_all kind_ok ?ks"
    using assms unfolding doc_ok_def by (rule directive_kinds_ok) (rule statement_kinds_ok)
  from document_read [OF this, of path] obtain ts where ts: "tokenize path (utf8_chars (conf_document ?ks)) 1 = Inr ts"
    "map ct_kind ts = ?ks" by blast
  have "parse_statements \<lparr>cs_path = path, cs_eof = last_line ts, cs_base64 = base64\<rparr> named_conf_default ts
      = Inr (doc_meaning base64 doc)"
    using reads_document [of "\<lparr>cs_path = path, cs_eof = last_line ts, cs_base64 = base64\<rparr>" doc ts] assms ts(2)
    by (simp add: doc_meaning_def)
  then show ?thesis using ts(1) by (simp add: named_conf_parse_def doc_text_def)
qed

definition sample_doc :: conf_doc where
  "sample_doc =
     [Unknown ''include'' [Leaf (ConfQuoted ''keys.conf'')],
      Known (SAcl ''peers'' [AclNegated AclLocalhost, AclAny]),
      Known (SOptions [Known (OptDirectory ''/var''), Unknown ''listen-on'' [Braces [Leaf (ConfWord ''any''), Leaf ConfSemi]]]),
      Known (SControls [Known (ListenAny, [OptPort 8, OptAllow [AclAny]])]),
      Known (SZone domain_root [Known (ZType ZonePrimary), Known (ZFile ''db''), Unknown ''notify'' [Leaf (ConfWord ''no'')]])]"

theorem named_conf_reads_document_witness:
  "nc_controls (doc_meaning Some sample_doc) =
     [\<lparr>ce_address = ListenAny, ce_port = 8, ce_allow = Some [AclAny], ce_keys = []\<rparr>]
   \<and> named_conf_parse Some ''p'' (doc_text sample_doc) = Inr (doc_meaning Some sample_doc)"
proof
  show "nc_controls (doc_meaning Some sample_doc) =
     [\<lparr>ce_address = ListenAny, ce_port = 8, ce_allow = Some [AclAny], ce_keys = []\<rparr>]" by code_simp
  have "doc_ok Some sample_doc" by code_simp
  then show "named_conf_parse Some ''p'' (doc_text sample_doc) = Inr (doc_meaning Some sample_doc)"
    by (rule named_conf_reads_document)
qed

end
