(* ===== verification/Rndc_Connect.thy ===== *)
theory Rndc_Connect
  imports Rndc_Session Ip_Text
begin

text \<open>
  Opening and using connections of the control channel: \<open>is_localhost\<close> (\<open>tls.rs\<close>),
  \<open>RndcConnection::connect\<close> (\<open>rndc/mod.rs\<close>), the transport policy (\<open>config.rs\<close>), and what a
  worker of the pool does for one command (\<open>pool.rs\<close>: \<open>connect_authenticated\<close>,
  \<open>execute_with_reconnect\<close>). What the network and the clock do is input: whether a step is
  late, what the operating system answers, and the octets of the peer.
\<close>

section \<open>Addresses\<close>

text \<open>\<open>std::net::SocketAddr\<close>: address and port, and the scope of an IPv6 address.\<close>

datatype socket_addr = SocketV4 ipv4 u16 | SocketV6 ipv6 u16 u32

fun socket_display :: "socket_addr \<Rightarrow> string" where
  "socket_display (SocketV4 ip n) = ipv4_display ip @ '':'' @ show_nat (unat n)"
| "socket_display (SocketV6 ip n scope) =
     ''['' @ ipv6_display ip @ (if scope = 0 then [] else ''%'' @ show_nat (unat scope)) @ '']:'' @ show_nat (unat n)"

fun is_localhost :: "socket_addr \<Rightarrow> bool" where
  "is_localhost (SocketV4 ip n) \<longleftrightarrow> ipv4_octets ip ! 0 = 127"
| "is_localhost (SocketV6 ip n scope) \<longleftrightarrow> ip = 1"

datatype transport_policy = LoopbackOnly | ProtectedNetwork

section \<open>Connecting\<close>

text \<open>
  What happens while a connection is opened: what the operating system answers, and whether the
  authentication is late. A result of \<open>None\<close> is one that has not come when the time is up.
\<close>

record dial =
  dl_tcp :: "(string + rndc_stream) option"
  dl_auth_late :: bool
  dl_clock :: "net_error + u64"
  dl_random :: "net_error + byte list"

definition connect_insecure :: "dial \<Rightarrow> socket_addr \<Rightarrow> (net_error + rndc_stream) option" where
  "connect_insecure d addr =
     map_option (map_err (\<lambda>e. Connection (''failed to connect to rndc at '' @ socket_display addr @ '': '' @ e))) (dl_tcp d)"

text \<open>The check of the address comes before anything the connection would wait for.\<close>

definition rndc_connect :: "dial \<Rightarrow> socket_addr \<Rightarrow> (net_error + rndc_stream) option" where
  "rndc_connect d addr =
     (if \<not> is_localhost addr then Some (Inl (TlsRequired (socket_display addr))) else connect_insecure d addr)"

text \<open>\<open>timeout\<close> with its error.\<close>

definition timed :: "nat \<Rightarrow> (net_error + 'a) option \<Rightarrow> net_error + 'a" where
  "timed limit result = (case result of None \<Rightarrow> Inl (Timeout limit) | Some r \<Rightarrow> r)"

record pool_config =
  pl_address :: socket_addr
  pl_key :: tsig_key
  pl_timeout :: nat
  pl_policy :: transport_policy

text \<open>The libraries a worker uses.\<close>

record rndc_libs =
  rl_mac :: mac_lib
  rl_b64 :: byte_codec

definition connect_authenticated ::
    "rndc_libs \<Rightarrow> pool_config \<Rightarrow> dial \<Rightarrow> u64 \<Rightarrow> u64 \<times> (net_error + rndc_connection)" where
  "connect_authenticated libs cfg d created =
     (case timed (pl_timeout cfg) (case pl_policy cfg of
              LoopbackOnly \<Rightarrow> rndc_connect d (pl_address cfg)
            | ProtectedNetwork \<Rightarrow> connect_insecure d (pl_address cfg)) of
        Inl e \<Rightarrow> (created, Inl e)
      | Inr stream \<Rightarrow>
          if dl_auth_late d then (created, Inl (Timeout (pl_timeout cfg)))
          else (case authenticate (rl_mac libs) (rl_b64 libs) (dl_clock d) (dl_random d) (pl_key cfg) stream of
                  (s, Inl e) \<Rightarrow> (created, Inl e)
                | (s, Inr auth) \<Rightarrow> (created + 1, Inr \<lparr>rc_stream = s, rc_auth = auth\<rparr>)))"

section \<open>One command on a pooled connection\<close>

text \<open>
  What happens during one attempt: the dialling if there is no connection, and the time the
  command is sent at. A command that is late is abandoned with the stream as it then is; its serial
  has been used.
\<close>

record pool_attempt =
  pa_dial :: dial
  pa_clock :: "net_error + u64"
  pa_late :: "rndc_stream option"

definition timed_command ::
    "rndc_libs \<Rightarrow> pool_config \<Rightarrow> pool_attempt \<Rightarrow> rndc_command \<Rightarrow> rndc_connection
       \<Rightarrow> rndc_connection \<times> (net_error + rndc_response)" where
  "timed_command libs cfg a cmd conn =
     (case pa_late a of
        Some s \<Rightarrow> (\<lparr>rc_stream = s, rc_auth = (rc_auth conn)\<lparr>ra_serial := ra_serial (rc_auth conn) + 1\<rparr>\<rparr>,
                   Inl (Timeout (pl_timeout cfg)))
      | None \<Rightarrow> send_command (rl_mac libs) (rl_b64 libs) (pa_clock a) cmd conn)"

text \<open>The state of a worker that \<open>execute_with_reconnect\<close> changes: its connection and the counter.\<close>

type_synonym pool_link = "rndc_connection option \<times> u64"

text \<open>
  One turn of the loop. The result is \<open>None\<close> when the loop goes on, which it does after a failed
  command in the first turn.
\<close>

definition execute_attempt ::
    "rndc_libs \<Rightarrow> pool_config \<Rightarrow> rndc_command \<Rightarrow> bool \<Rightarrow> pool_attempt \<Rightarrow> pool_link
       \<Rightarrow> pool_link \<times> (net_error + rndc_response) option" where
  "execute_attempt libs cfg cmd first a = (\<lambda>(conn, created).
     case (case conn of
             None \<Rightarrow> connect_authenticated libs cfg (pa_dial a) created
           | Some active \<Rightarrow> (created, Inr active)) of
       (created, Inl e) \<Rightarrow> ((None, created), Some (Inl e))
     | (created, Inr active) \<Rightarrow>
         (case timed_command libs cfg a cmd active of
            (active, Inr response) \<Rightarrow> ((Some active, created), Some (Inr response))
          | (active, Inl e) \<Rightarrow>
              if first then ((None, created), None) else ((Some active, created), Some (Inl e))))"

definition execute_with_reconnect ::
    "rndc_libs \<Rightarrow> pool_config \<Rightarrow> rndc_command \<Rightarrow> pool_attempt \<Rightarrow> pool_attempt \<Rightarrow> pool_link
       \<Rightarrow> pool_link \<times> (net_error + rndc_response)" where
  "execute_with_reconnect libs cfg cmd a0 a1 link =
     (case execute_attempt libs cfg cmd True a0 link of
        (link, Some result) \<Rightarrow> (link, result)
      | (link, None) \<Rightarrow>
          (case execute_attempt libs cfg cmd False a1 link of
             (link, Some result) \<Rightarrow> (link, result)
           | (link, None) \<Rightarrow> (link, Inl (Connection ''rndc pool retry loop completed unexpectedly''))))"

section \<open>What an attempt leaves behind\<close>

text \<open>
  Every connection of the pool carries the key of its configuration and goes where the transport
  policy lets it.
\<close>

definition conn_ok :: "pool_config \<Rightarrow> rndc_connection \<Rightarrow> bool" where
  "conn_ok cfg conn \<longleftrightarrow> ra_key (rc_auth conn) = pl_key cfg
     \<and> (pl_policy cfg = LoopbackOnly \<longrightarrow> is_localhost (pl_address cfg))"

definition link_ok :: "pool_config \<Rightarrow> rndc_connection option \<Rightarrow> bool" where
  "link_ok cfg link \<longleftrightarrow> (\<forall>conn. link = Some conn \<longrightarrow> conn_ok cfg conn)"

lemma link_ok_simps [simp]: "link_ok cfg None" "link_ok cfg (Some conn) \<longleftrightarrow> conn_ok cfg conn"
  by (auto simp: link_ok_def)

lemma authenticate_key:
  assumes "authenticate lib b64 clock random key s = (s', Inr auth)"
  shows "ra_key auth = key"
  using assms unfolding authenticate_def Let_def sbind_eq_Inr prod.inject
  by (elim exE conjE) (simp split: option.split_asm if_split_asm, auto)

lemma connect_authenticated_cases:
  assumes "connect_authenticated libs cfg d created = (created', r)"
  obtains (failed) e where "r = Inl e" "created' = created"
  | (opened) conn where "r = Inr conn" "created' = created + 1" "conn_ok cfg conn"
  using assms
  by (auto simp: connect_authenticated_def rndc_connect_def conn_ok_def timed_def Let_def
      split: option.splits sum.splits if_splits prod.splits transport_policy.splits dest: authenticate_key)

lemma remote_is_refused:
  assumes "pl_policy cfg = LoopbackOnly" "\<not> is_localhost (pl_address cfg)"
  shows "connect_authenticated libs cfg d created = (created, Inl (TlsRequired (socket_display (pl_address cfg))))"
  using assms by (simp add: connect_authenticated_def rndc_connect_def timed_def)

lemma timed_command_ok:
  "timed_command libs cfg a cmd conn = (conn', r) \<Longrightarrow> conn_ok cfg conn' \<longleftrightarrow> conn_ok cfg conn"
  by (auto simp: conn_ok_def timed_command_def send_command_def Let_def split: option.splits prod.splits
      dest: command_exchange_state(1))

lemma timed_command_Inr:
  assumes "timed_command libs cfg a cmd conn = (conn', Inr response)"
  obtains msg where "command_exchange (rl_mac libs) (rl_b64 libs) (pa_clock a) cmd conn = (conn', Inr msg)"
    "response = interpret_response (rl_b64 libs) msg"
  using assms by (auto simp: timed_command_def send_command_def Let_def result_simps split: option.splits prod.splits)

text \<open>
  The session \<open>active\<close> was opened in the dialling \<open>d\<close>: the octets that arrived on its stream begin
  with the signed answer to \<open>null\<close> and the random serial, which reports success and gives the nonce;
  the session goes on behind it.
\<close>

definition opened :: "rndc_libs \<Rightarrow> tsig_key \<Rightarrow> dial \<Rightarrow> rndc_connection \<Rightarrow> bool" where
  "opened libs key d active \<longleftrightarrow>
     (\<exists>stream now nonce_bytes hello ctrl data.
        dl_tcp d = Some (Inr stream) \<and> \<not> dl_auth_late d \<and> dl_clock d = Inr now \<and> dl_random d = Inr nonce_bytes
      \<and> signed_frame (rl_mac libs) (rl_b64 libs) key (u32_of_be (take 4 nonce_bytes)) now None ''null''
          (st_incoming stream) hello (st_incoming (rc_stream active))
      \<and> get_map hello ''_ctrl'' = Some ctrl \<and> get_map hello ''_data'' = Some data
      \<and> map_string data ''result'' = Some ''0''
      \<and> rc_auth active = \<lparr>ra_key = key, ra_serial = u32_of_be (take 4 nonce_bytes),
          ra_nonce = map_string ctrl ''_nonce''\<rparr>)"

text \<open>
  The response was read from the octets that arrived on the session \<open>active\<close>, of which \<open>rest\<close> is
  left: they begin with a frame signed with its key that answers the command with the next
  serial and the nonce.
\<close>

definition served ::
    "rndc_libs \<Rightarrow> net_error + u64 \<Rightarrow> rndc_command \<Rightarrow> rndc_connection \<Rightarrow> byte list \<Rightarrow> rndc_response \<Rightarrow> bool" where
  "served libs clock cmd active rest response \<longleftrightarrow>
     (\<exists>now msg. clock = Inr now
      \<and> signed_frame (rl_mac libs) (rl_b64 libs) (ra_key (rc_auth active)) (ra_serial (rc_auth active) + 1) now
          (ra_nonce (rc_auth active)) (to_command_string cmd) (st_incoming (rc_stream active)) msg rest
      \<and> response = interpret_response (rl_b64 libs) msg)"

lemma authenticate_opened:
  assumes "dl_tcp d = Some (Inr stream)" "\<not> dl_auth_late d"
    and "authenticate (rl_mac libs) (rl_b64 libs) (dl_clock d) (dl_random d) key stream = (s, Inr auth)"
  shows "opened libs key d \<lparr>rc_stream = s, rc_auth = auth\<rparr>"
  using assms(1,2) by (rule_tac authenticate_signed [OF assms(3)]) (auto simp: opened_def)

lemma send_command_served:
  assumes "send_command (rl_mac libs) (rl_b64 libs) clock cmd active = (conn, Inr response)"
  shows "served libs clock cmd active (st_incoming (rc_stream conn)) response"
proof -
  from assms obtain msg where "command_exchange (rl_mac libs) (rl_b64 libs) clock cmd active = (conn, Inr msg)"
    and "response = interpret_response (rl_b64 libs) msg"
    by (auto simp: send_command_def Let_def result_simps split: prod.splits)
  then show ?thesis
    by (elim command_exchange_signed) (auto simp: served_def)
qed

lemma connect_insecure_Inr: "connect_insecure d addr = Some (Inr stream) \<longleftrightarrow> dl_tcp d = Some (Inr stream)"
  by (auto simp: connect_insecure_def result_simps)

lemma rndc_connect_Inr:
  "rndc_connect d addr = Some (Inr stream) \<longleftrightarrow> is_localhost addr \<and> dl_tcp d = Some (Inr stream)"
  by (auto simp: rndc_connect_def connect_insecure_Inr)

lemma connect_authenticated_opened:
  assumes "connect_authenticated libs cfg d created = (created', Inr active)"
  shows "opened libs (pl_key cfg) d active"
proof -
  let ?dialled = "timed (pl_timeout cfg) (case pl_policy cfg of
      LoopbackOnly \<Rightarrow> rndc_connect d (pl_address cfg) | ProtectedNetwork \<Rightarrow> connect_insecure d (pl_address cfg))"
  from assms obtain stream s auth where "?dialled = Inr stream" "\<not> dl_auth_late d"
    "authenticate (rl_mac libs) (rl_b64 libs) (dl_clock d) (dl_random d) (pl_key cfg) stream = (s, Inr auth)"
    "active = \<lparr>rc_stream = s, rc_auth = auth\<rparr>"
    unfolding connect_authenticated_def
    by (cases ?dialled) (auto split: if_splits prod.splits sum.splits)
  moreover from this(1) have "dl_tcp d = Some (Inr stream)"
    by (cases "pl_policy cfg") (auto simp: timed_def connect_insecure_Inr rndc_connect_Inr split: option.splits)
  ultimately show ?thesis using authenticate_opened by blast
qed

text \<open>
  A response of one attempt: it answers the command on the connection the worker had, or on the one
  opened in this attempt if it had none; that connection stays with the worker.
\<close>

definition answered ::
    "rndc_libs \<Rightarrow> pool_config \<Rightarrow> rndc_command \<Rightarrow> pool_attempt \<Rightarrow> rndc_connection option
       \<Rightarrow> rndc_connection option \<Rightarrow> rndc_response \<Rightarrow> bool" where
  "answered libs cfg cmd a link link' response \<longleftrightarrow>
     (\<exists>active kept. (link = Some active \<or> link = None \<and> opened libs (pl_key cfg) (pa_dial a) active)
      \<and> conn_ok cfg active \<and> link' = Some kept
      \<and> served libs (pa_clock a) cmd active (st_incoming (rc_stream kept)) response)"

lemma execute_attempt_facts:
  assumes run: "execute_attempt libs cfg cmd first a (link, created) = ((link', created'), r)"
    and "link_ok cfg link"
  shows "link_ok cfg link'" (is ?key)
    and "created' = created \<or> link = None \<and> created' = created + 1" (is ?count)
    and "r = None \<longrightarrow> link' = None \<and> first" (is ?again)
    and "r = Some (Inr response) \<longrightarrow> answered libs cfg cmd a link link' response" (is ?answer)
proof -
  consider (dial_fails) e where "link = None" "connect_authenticated libs cfg (pa_dial a) created = (created, Inl e)"
    | (active) active created1 where
      "(case link of None \<Rightarrow> connect_authenticated libs cfg (pa_dial a) created | Some active \<Rightarrow> (created, Inr active))
         = (created1, Inr active)" "conn_ok cfg active"
      "created1 = created \<or> link = None \<and> created1 = created + 1"
    using assms(2) by (cases link; cases "connect_authenticated libs cfg (pa_dial a) created")
      (auto elim: connect_authenticated_cases)
  then have "?key \<and> ?count \<and> ?again \<and> ?answer"
  proof cases
    case dial_fails
    with run show ?thesis by (auto simp: execute_attempt_def)
  next
    case active
    obtain active' res where cmd: "timed_command libs cfg a cmd active = (active', res)" by fastforce
    note key = timed_command_ok [OF cmd]
    have from_link: "link = Some active \<or> link = None \<and> opened libs (pl_key cfg) (pa_dial a) active"
      using active(1) by (auto split: option.splits dest: connect_authenticated_opened)
    have "answered libs cfg cmd a link (Some active') response" if "res = Inr response"
    proof -
      have "served libs (pa_clock a) cmd active (st_incoming (rc_stream active')) response"
        using cmd that by (auto simp: timed_command_def split: option.splits intro: send_command_served)
      then show ?thesis unfolding answered_def using from_link active(2) by blast
    qed
    with run active cmd key show ?thesis
      by (auto simp: execute_attempt_def split: sum.splits if_splits)
  qed
  then show ?key ?count ?again ?answer by blast+
qed

lemma execute_with_reconnect_facts:
  assumes run: "execute_with_reconnect libs cfg cmd a0 a1 (link, created) = ((link', created'), r)"
    and keyed: "link_ok cfg link"
  shows "link_ok cfg link'"
    and "created' \<in> {created, created + 1, created + 2}"
    and "r = Inr response \<longrightarrow> answered libs cfg cmd a0 link link' response \<or> answered libs cfg cmd a1 None link' response"
proof -
  obtain link1 created1 r1 where one: "execute_attempt libs cfg cmd True a0 (link, created) = ((link1, created1), r1)"
    by (metis surj_pair)
  note facts1 = execute_attempt_facts [OF one keyed]
  have "link_ok cfg link' \<and> created' \<in> {created, created + 1, created + 2} 
      \<and> (r = Inr response \<longrightarrow> answered libs cfg cmd a0 link link' response \<or> answered libs cfg cmd a1 None link' response)"
  proof (cases r1)
    case (Some x)
    with run one have "link' = link1" "created' = created1" "r = x"
      by (simp_all add: execute_with_reconnect_def)
    with facts1 Some show ?thesis by auto
  next
    case None
    obtain link2 created2 r2 where two: "execute_attempt libs cfg cmd False a1 (link1, created1) = ((link2, created2), r2)"
      by (metis surj_pair)
    note facts2 = execute_attempt_facts [OF two facts1(1)]
    from facts2(3) obtain x where "r2 = Some x" by (cases r2) auto
    with run one two None have "link' = link2" "created' = created2" "r = x"
      by (simp_all add: execute_with_reconnect_def)
    moreover have "link1 = None" using facts1(3) None by simp
    ultimately show ?thesis using facts1(2) facts2(1,2,4) \<open>r2 = Some x\<close> by (auto simp: add.assoc)
  qed
  then show "link_ok cfg link'" "created' \<in> {created, created + 1, created + 2}"
    "r = Inr response \<longrightarrow> answered libs cfg cmd a0 link link' response \<or> answered libs cfg cmd a1 None link' response"
    by blast+
qed

text \<open>A connection whose command failed in the second attempt stays with the worker.\<close>

lemma failed_connection_kept:
  assumes "pa_late a0 = Some s0" "pa_late a1 = Some s1"
    and "connect_authenticated libs cfg (pa_dial a1) created = (created', Inr fresh)"
  shows "\<exists>kept. execute_with_reconnect libs cfg cmd a0 a1 (Some conn, created)
      = ((Some kept, created'), Inl (Timeout (pl_timeout cfg))) \<and> rc_stream kept = s1"
  using assms by (simp add: execute_with_reconnect_def execute_attempt_def timed_command_def)

lemma remote_execution:
  assumes "pl_policy cfg = LoopbackOnly" "\<not> is_localhost (pl_address cfg)" "link_ok cfg link"
  shows "link = None"
    and "execute_with_reconnect libs cfg cmd a0 a1 (link, created)
      = ((None, created), Inl (TlsRequired (socket_display (pl_address cfg))))"
proof -
  from assms show link: "link = None" by (cases link) (auto simp: conn_ok_def)
  show "execute_with_reconnect libs cfg cmd a0 a1 (link, created)
      = ((None, created), Inl (TlsRequired (socket_display (pl_address cfg))))"
    by (simp add: link execute_with_reconnect_def execute_attempt_def remote_is_refused [OF assms(1,2)])
qed

end
