(* ===== verification/Rndc_Pool.thy ===== *)
theory Rndc_Pool
  imports Rndc_Connect
begin

text \<open>
  The connection pool (\<open>pool.rs\<close>) as a step relation. A step is one atomic action on a channel, a
  counter or a connection, of one call of \<open>execute\<close> or of one worker; the tasks interleave freely. A
  call and its job are known by the position of the call in the list of all calls. The capacity of
  the queue of free workers is the number of workers, that of the inbox of a worker is one. The
  send into an inbox that has room is taken not to suspend.
\<close>

section \<open>State\<close>

text \<open>Where a call of \<open>execute\<close> is; the number is the worker it deals with.\<close>

datatype call_phase =
    CallWaiting
  | CallClaimed nat
  | CallCounted nat
  | CallSent nat
  | CallReleasing nat
  | CallReleased nat
  | CallDone "net_error + rndc_response"
  | CallDropped

record pool_call =
  pc_command :: rndc_command
  pc_phase :: call_phase

text \<open>Where a worker is in its loop; the number is the call whose job it has.\<close>

datatype worker_phase =
    WorkerWaiting
  | WorkerBusy nat
  | WorkerExecuted nat "net_error + rndc_response"
  | WorkerListed nat "net_error + rndc_response"
  | WorkerCounted nat "net_error + rndc_response"
  | WorkerStopped

record pool_worker =
  wk_phase :: worker_phase
  wk_inbox :: "nat option"
  wk_link :: "rndc_connection option"

record pool_state =
  ps_workers :: "pool_worker list"
  ps_calls :: "pool_call list"
  ps_queue :: "nat list"
  ps_available :: u64
  ps_created :: u64
  ps_open :: bool

definition default_pool_size :: nat where
  "default_pool_size = 4"

definition pool_size :: "nat option \<Rightarrow> nat \<Rightarrow> nat" where
  "pool_size configured requested =
     (if requested = 0 then
        (case configured of
           Some n \<Rightarrow> if n > 0 then n else default_pool_size
         | None \<Rightarrow> default_pool_size)
      else requested)"

text \<open>\<open>RndcPool::new\<close>; the argument is the error of \<open>Handle::try_current\<close>, if any.\<close>

definition pool_new :: "string option \<Rightarrow> nat option \<Rightarrow> nat \<Rightarrow> net_error + pool_state" where
  "pool_new no_runtime configured requested =
     (case no_runtime of
        Some e \<Rightarrow> Inl (Connection (''RndcPool must be created inside a Tokio runtime: '' @ e))
      | None \<Rightarrow>
          (let n = pool_size configured requested
           in Inr \<lparr>ps_workers = replicate n \<lparr>wk_phase = WorkerWaiting, wk_inbox = None, wk_link = None\<rparr>,
                   ps_calls = [], ps_queue = [0..<n], ps_available = of_nat n, ps_created = 0, ps_open = True\<rparr>))"

section \<open>Changes of the state\<close>

definition set_phase :: "nat \<Rightarrow> call_phase \<Rightarrow> pool_state \<Rightarrow> pool_state" where
  "set_phase c ph s = s\<lparr>ps_calls := (ps_calls s)[c := (ps_calls s ! c)\<lparr>pc_phase := ph\<rparr>]\<rparr>"

definition set_worker :: "nat \<Rightarrow> worker_phase \<Rightarrow> pool_state \<Rightarrow> pool_state" where
  "set_worker i ph s = s\<lparr>ps_workers := (ps_workers s)[i := (ps_workers s ! i)\<lparr>wk_phase := ph\<rparr>]\<rparr>"

definition set_inbox :: "nat \<Rightarrow> nat option \<Rightarrow> pool_state \<Rightarrow> pool_state" where
  "set_inbox i job s = s\<lparr>ps_workers := (ps_workers s)[i := (ps_workers s ! i)\<lparr>wk_inbox := job\<rparr>]\<rparr>"

definition set_link :: "nat \<Rightarrow> rndc_connection option \<Rightarrow> pool_state \<Rightarrow> pool_state" where
  "set_link i conn s = s\<lparr>ps_workers := (ps_workers s)[i := (ps_workers s ! i)\<lparr>wk_link := conn\<rparr>]\<rparr>"

abbreviation call_phase_of :: "pool_state \<Rightarrow> nat \<Rightarrow> call_phase" where
  "call_phase_of s c \<equiv> pc_phase (ps_calls s ! c)"

abbreviation worker_phase_of :: "pool_state \<Rightarrow> nat \<Rightarrow> worker_phase" where
  "worker_phase_of s i \<equiv> wk_phase (ps_workers s ! i)"

abbreviation inbox_of :: "pool_state \<Rightarrow> nat \<Rightarrow> nat option" where
  "inbox_of s i \<equiv> wk_inbox (ps_workers s ! i)"

fun call_finished :: "pool_call \<Rightarrow> bool" where
  "call_finished call = (case pc_phase call of CallDone r \<Rightarrow> True | CallDropped \<Rightarrow> True | _ \<Rightarrow> False)"

text \<open>The answer of a worker to its job; nothing happens when the caller has gone.\<close>

definition respond :: "nat \<Rightarrow> nat \<Rightarrow> net_error + rndc_response \<Rightarrow> pool_state \<Rightarrow> pool_state" where
  "respond i c result s = (if call_phase_of s c = CallSent i then set_phase c (CallDone result) s else s)"

section \<open>Steps\<close>

text \<open>The steps of \<open>execute\<close>, for call \<open>c\<close>.\<close>

inductive call_step :: "nat \<Rightarrow> pool_state \<Rightarrow> pool_state \<Rightarrow> bool" for c :: nat where
  claim: "call_phase_of s c = CallWaiting \<Longrightarrow> ps_queue s = i # q
    \<Longrightarrow> call_step c s (set_phase c (CallClaimed i) (s\<lparr>ps_queue := q\<rparr>))"
| closed: "call_phase_of s c = CallWaiting \<Longrightarrow> ps_queue s = [] \<Longrightarrow> \<not> ps_open s
    \<Longrightarrow> call_step c s (set_phase c (CallDone (Inl (Connection ''rndc pool is closed''))) s)"
| take_count: "call_phase_of s c = CallClaimed i
    \<Longrightarrow> call_step c s (set_phase c (CallCounted i) (s\<lparr>ps_available := ps_available s - 1\<rparr>))"
| send_job: "call_phase_of s c = CallCounted i \<Longrightarrow> worker_phase_of s i \<noteq> WorkerStopped \<Longrightarrow> inbox_of s i = None
    \<Longrightarrow> call_step c s (set_phase c (CallSent i) (set_inbox i (Some c) s))"
| send_fails: "call_phase_of s c = CallCounted i \<Longrightarrow> worker_phase_of s i = WorkerStopped
    \<Longrightarrow> call_step c s (set_phase c (CallReleasing i) s)"
| release: "call_phase_of s c = CallReleasing i \<Longrightarrow> length (ps_queue s) < length (ps_workers s)
    \<Longrightarrow> call_step c s (set_phase c (CallReleased i) (s\<lparr>ps_queue := ps_queue s @ [i]\<rparr>))"
| released: "call_phase_of s c = CallReleased i
    \<Longrightarrow> call_step c s (set_phase c (CallDone (Inl (Connection ''rndc pool worker stopped'')))
          (s\<lparr>ps_available := ps_available s + 1\<rparr>))"
| no_answer: "call_phase_of s c = CallSent i \<Longrightarrow> worker_phase_of s i = WorkerStopped
    \<Longrightarrow> call_step c s (set_phase c (CallDone (Inl (Connection ''rndc pool worker dropped response''))) s)"

text \<open>The steps of \<open>pool_worker\<close>, for worker \<open>i\<close>.\<close>

inductive worker_step :: "rndc_libs \<Rightarrow> pool_config \<Rightarrow> nat \<Rightarrow> pool_state \<Rightarrow> pool_state \<Rightarrow> bool"
  for libs cfg and i :: nat where
  take_job: "worker_phase_of s i = WorkerWaiting \<Longrightarrow> inbox_of s i = Some c
    \<Longrightarrow> worker_step libs cfg i s (set_worker i (WorkerBusy c) (set_inbox i None s))"
| execute: "worker_phase_of s i = WorkerBusy c
    \<Longrightarrow> execute_with_reconnect libs cfg (pc_command (ps_calls s ! c)) a0 a1
          (wk_link (ps_workers s ! i), ps_created s) = ((conn, created), result)
    \<Longrightarrow> worker_step libs cfg i s
          (set_worker i (WorkerExecuted c result) (set_link i conn (s\<lparr>ps_created := created\<rparr>)))"
| list_again: "worker_phase_of s i = WorkerExecuted c result \<Longrightarrow> ps_open s
    \<Longrightarrow> length (ps_queue s) < length (ps_workers s)
    \<Longrightarrow> worker_step libs cfg i s (set_worker i (WorkerListed c result) (s\<lparr>ps_queue := ps_queue s @ [i]\<rparr>))"
| list_fails: "worker_phase_of s i = WorkerExecuted c result \<Longrightarrow> \<not> ps_open s
    \<Longrightarrow> worker_step libs cfg i s
          (set_worker i WorkerStopped (respond i c (Inl (Connection ''rndc pool availability queue closed'')) s))"
| give_count: "worker_phase_of s i = WorkerListed c result
    \<Longrightarrow> worker_step libs cfg i s
          (set_worker i (WorkerCounted c result) (s\<lparr>ps_available := ps_available s + 1\<rparr>))"
| answer: "worker_phase_of s i = WorkerCounted c result
    \<Longrightarrow> worker_step libs cfg i s (set_worker i WorkerWaiting (respond i c result s))"
| stop: "worker_phase_of s i = WorkerWaiting \<Longrightarrow> inbox_of s i = None \<Longrightarrow> \<not> ps_open s
    \<Longrightarrow> worker_step libs cfg i s (set_worker i WorkerStopped (set_link i None s))"

text \<open>
  What comes from outside: new calls, callers that drop a call while it waits, the idle time-out of
  a waiting worker, and the drop of the last handle of the pool, which no call in progress leaves
  possible.
\<close>

inductive outer_step :: "pool_state \<Rightarrow> pool_state \<Rightarrow> bool" where
  arrive: "ps_open s \<Longrightarrow> outer_step s (s\<lparr>ps_calls := ps_calls s @ [\<lparr>pc_command = cmd, pc_phase = CallWaiting\<rparr>]\<rparr>)"
| abandon: "c < length (ps_calls s) \<Longrightarrow> call_phase_of s c = CallWaiting \<or> call_phase_of s c = CallSent i
    \<Longrightarrow> outer_step s (set_phase c CallDropped s)"
| idle: "i < length (ps_workers s) \<Longrightarrow> worker_phase_of s i = WorkerWaiting
    \<Longrightarrow> outer_step s (set_link i None s)"
| drop_pool: "list_all call_finished (ps_calls s) \<Longrightarrow> outer_step s (s\<lparr>ps_open := False\<rparr>)"

text \<open>A step of the pool itself, and the states that steps lead to.\<close>

inductive pool_step :: "rndc_libs \<Rightarrow> pool_config \<Rightarrow> pool_state \<Rightarrow> pool_state \<Rightarrow> bool" for libs cfg where
  call: "c < length (ps_calls s) \<Longrightarrow> call_step c s s' \<Longrightarrow> pool_step libs cfg s s'"
| worker: "i < length (ps_workers s) \<Longrightarrow> worker_step libs cfg i s s' \<Longrightarrow> pool_step libs cfg s s'"

inductive pool_reachable :: "rndc_libs \<Rightarrow> pool_config \<Rightarrow> nat \<Rightarrow> pool_state \<Rightarrow> bool" for libs cfg n where
  start: "pool_new None configured requested = Inr s \<Longrightarrow> n = pool_size configured requested \<Longrightarrow> pool_reachable libs cfg n s"
| inner: "pool_reachable libs cfg n s \<Longrightarrow> pool_step libs cfg s s' \<Longrightarrow> pool_reachable libs cfg n s'"
| outer: "pool_reachable libs cfg n s \<Longrightarrow> outer_step s s' \<Longrightarrow> pool_reachable libs cfg n s'"

end
