(* ===== verification/Pool_Invariant.thy ===== *)
theory Pool_Invariant
  imports Rndc_Pool "HOL-Library.Multiset"
begin

text \<open>
  What holds in every state of the connection pool: a worker is free or held by one call or busy,
  the counter of free workers lags behind the queue by the steps between the two, every answer
  comes from executing the command it answers, and every call ends.
\<close>

section \<open>Sums over lists\<close>

definition tally :: "('a \<Rightarrow> 'b::comm_monoid_add) \<Rightarrow> 'a list \<Rightarrow> 'b" where
  "tally f xs = sum_list (map f xs)"

lemma tally_simps [simp]:
  "tally f [] = 0" "tally f (x # xs) = f x + tally f xs" "tally f (xs @ ys) = tally f xs + tally f ys"
  by (simp_all add: tally_def)

lemma tally_update: "k < length xs \<Longrightarrow> tally f (xs[k := x]) + f (xs ! k) = tally f xs + f x"
proof (induction xs arbitrary: k)
  case (Cons y ys)
  show ?case
  proof (cases k)
    case (Suc j)
    with Cons have "tally f (ys[j := x]) + f (ys ! j) = tally f ys + f x" by simp
    then show ?thesis by (simp add: Suc add.assoc)
  qed (simp add: add_ac)
qed simp

lemma tally_zero: "(\<And>x. x \<in> set xs \<Longrightarrow> f x = 0) \<Longrightarrow> tally f xs = 0"
  by (induction xs) auto

lemma tally_member: "k < length xs \<Longrightarrow> f (xs ! k) \<le> tally f xs" for f :: "'a \<Rightarrow> nat"
  by (induction xs arbitrary: k) (auto simp: nth_Cons trans_le_add2 split: nat.splits)

section \<open>The invariant\<close>

fun call_worker :: "call_phase \<Rightarrow> nat option" where
  "call_worker (CallClaimed i) = Some i"
| "call_worker (CallCounted i) = Some i"
| "call_worker (CallSent i) = Some i"
| "call_worker (CallReleasing i) = Some i"
| "call_worker (CallReleased i) = Some i"
| "call_worker _ = None"

fun call_holds :: "call_phase \<Rightarrow> nat option" where
  "call_holds (CallClaimed i) = Some i"
| "call_holds (CallCounted i) = Some i"
| "call_holds (CallReleasing i) = Some i"
| "call_holds _ = None"

fun call_claimed :: "call_phase \<Rightarrow> bool" where
  "call_claimed (CallClaimed i) = True"
| "call_claimed _ = False"

fun call_gives_up :: "call_phase \<Rightarrow> bool" where
  "call_gives_up (CallReleasing i) = True"
| "call_gives_up (CallReleased i) = True"
| "call_gives_up _ = False"

fun worker_job :: "worker_phase \<Rightarrow> nat option" where
  "worker_job (WorkerBusy c) = Some c"
| "worker_job (WorkerExecuted c r) = Some c"
| "worker_job (WorkerListed c r) = Some c"
| "worker_job (WorkerCounted c r) = Some c"
| "worker_job _ = None"

fun worker_result :: "worker_phase \<Rightarrow> (nat \<times> (net_error + rndc_response)) option" where
  "worker_result (WorkerExecuted c r) = Some (c, r)"
| "worker_result (WorkerListed c r) = Some (c, r)"
| "worker_result (WorkerCounted c r) = Some (c, r)"
| "worker_result _ = None"

fun worker_occupied :: "worker_phase \<Rightarrow> bool" where
  "worker_occupied (WorkerBusy c) = True"
| "worker_occupied (WorkerExecuted c r) = True"
| "worker_occupied _ = False"

fun worker_listed :: "worker_phase \<Rightarrow> bool" where
  "worker_listed (WorkerListed c r) = True"
| "worker_listed _ = False"

text \<open>How often a worker is free, held by a call, sent a job, or at work on one.\<close>

definition owner_count :: "pool_state \<Rightarrow> nat \<Rightarrow> nat" where
  "owner_count s i =
     count_list (ps_queue s) i
     + tally (\<lambda>call. of_bool (call_holds (pc_phase call) = Some i)) (ps_calls s)
     + of_bool (inbox_of s i \<noteq> None) + of_bool (worker_occupied (worker_phase_of s i))"

definition inv_index :: "pool_state \<Rightarrow> bool" where
  "inv_index s \<longleftrightarrow>
     (\<forall>i \<in> set (ps_queue s). i < length (ps_workers s))
     \<and> (\<forall>c < length (ps_calls s). \<forall>i. call_worker (call_phase_of s c) = Some i \<longrightarrow> i < length (ps_workers s))
     \<and> (\<forall>i < length (ps_workers s). \<forall>c. inbox_of s i = Some c \<or> worker_job (worker_phase_of s i) = Some c
          \<longrightarrow> c < length (ps_calls s))"

definition inv_life :: "pool_state \<Rightarrow> bool" where
  "inv_life s \<longleftrightarrow>
     (ps_open s \<longrightarrow> (\<forall>i < length (ps_workers s). worker_phase_of s i \<noteq> WorkerStopped))
     \<and> (\<not> ps_open s \<longrightarrow> (\<forall>c < length (ps_calls s). call_finished (ps_calls s ! c)))
     \<and> (\<forall>c < length (ps_calls s). \<not> call_gives_up (call_phase_of s c))"

definition inv_owner :: "pool_state \<Rightarrow> bool" where
  "inv_owner s \<longleftrightarrow> (ps_open s \<longrightarrow> (\<forall>i < length (ps_workers s). owner_count s i = 1))"

text \<open>A worker lists itself before it counts itself, and a call takes a worker before it counts it.\<close>

definition inv_count :: "pool_state \<Rightarrow> bool" where
  "inv_count s \<longleftrightarrow>
     ps_available s + tally (\<lambda>w. of_bool (worker_listed (wk_phase w))) (ps_workers s)
     = of_nat (length (ps_queue s)) + tally (\<lambda>call. of_bool (call_claimed (pc_phase call))) (ps_calls s)"

text \<open>Jobs and the calls that wait for them.\<close>

definition inv_jobs :: "pool_state \<Rightarrow> bool" where
  "inv_jobs s \<longleftrightarrow>
     (\<forall>c < length (ps_calls s). \<forall>i. call_phase_of s c = CallSent i \<longrightarrow>
        inbox_of s i = Some c \<or> worker_job (worker_phase_of s i) = Some c)
     \<and> (\<forall>i < length (ps_workers s). \<forall>c. inbox_of s i = Some c \<or> worker_job (worker_phase_of s i) = Some c
          \<longrightarrow> call_phase_of s c = CallSent i \<or> call_phase_of s c = CallDropped)
     \<and> (\<forall>i < length (ps_workers s). \<forall>c. inbox_of s i = Some c \<longrightarrow> worker_job (worker_phase_of s i) \<noteq> Some c)"

text \<open>The result is what executing the command on a connection of the pool gave.\<close>

definition executed :: "rndc_libs \<Rightarrow> pool_config \<Rightarrow> rndc_command \<Rightarrow> net_error + rndc_response \<Rightarrow> bool" where
  "executed libs cfg cmd result \<longleftrightarrow> (\<exists>a0 a1 link created link' created'.
     link_ok cfg link
     \<and> execute_with_reconnect libs cfg cmd a0 a1 (link, created) = ((link', created'), result))"

definition inv_results :: "rndc_libs \<Rightarrow> pool_config \<Rightarrow> pool_state \<Rightarrow> bool" where
  "inv_results libs cfg s \<longleftrightarrow>
     (\<forall>i < length (ps_workers s). link_ok cfg (wk_link (ps_workers s ! i))
        \<and> (\<forall>c r. worker_result (worker_phase_of s i) = Some (c, r) \<longrightarrow> executed libs cfg (pc_command (ps_calls s ! c)) r))
     \<and> (\<forall>c < length (ps_calls s). \<forall>r. call_phase_of s c = CallDone r \<longrightarrow> executed libs cfg (pc_command (ps_calls s ! c)) r)"

definition pool_inv :: "rndc_libs \<Rightarrow> pool_config \<Rightarrow> pool_state \<Rightarrow> bool" where
  "pool_inv libs cfg s \<longleftrightarrow>
     inv_index s \<and> inv_life s \<and> inv_owner s \<and> inv_count s \<and> inv_jobs s \<and> inv_results libs cfg s"

section \<open>Steps keep the invariant\<close>

lemmas changes = set_phase_def set_worker_def set_inbox_def set_link_def

lemma changed_fields [simp]:
  "ps_workers (set_phase c ph s) = ps_workers s" "ps_queue (set_phase c ph s) = ps_queue s"
  "ps_available (set_phase c ph s) = ps_available s" "ps_open (set_phase c ph s) = ps_open s"
  "ps_calls (set_worker i wph s) = ps_calls s" "ps_queue (set_worker i wph s) = ps_queue s"
  "ps_available (set_worker i wph s) = ps_available s" "ps_open (set_worker i wph s) = ps_open s"
  "ps_calls (set_inbox i job s) = ps_calls s" "ps_queue (set_inbox i job s) = ps_queue s"
  "ps_available (set_inbox i job s) = ps_available s" "ps_open (set_inbox i job s) = ps_open s"
  "ps_calls (set_link i link s) = ps_calls s" "ps_queue (set_link i link s) = ps_queue s"
  "ps_available (set_link i link s) = ps_available s" "ps_open (set_link i link s) = ps_open s"
  by (simp_all add: changes)

lemma changed_lengths [simp]:
  "length (ps_calls (set_phase c ph s)) = length (ps_calls s)"
  "length (ps_workers (set_worker i wph s)) = length (ps_workers s)"
  "length (ps_workers (set_inbox i job s)) = length (ps_workers s)"
  "length (ps_workers (set_link i link s)) = length (ps_workers s)"
  by (simp_all add: changes)

lemma phase_changed [simp]:
  "c < length (ps_calls s) \<Longrightarrow> call_phase_of (set_phase c ph s) k = (if k = c then ph else call_phase_of s k)"
  by (simp add: changes)

lemma command_kept [simp]: "pc_command (ps_calls (set_phase c ph s) ! k) = pc_command (ps_calls s ! k)"
  unfolding changes by (cases "c = k"; cases "c < length (ps_calls s)"; simp add: list_update_beyond)

lemma worker_changed [simp]:
  "i < length (ps_workers s) \<Longrightarrow> worker_phase_of (set_worker i wph s) k = (if k = i then wph else worker_phase_of s k)"
  "i < length (ps_workers s) \<Longrightarrow> inbox_of (set_inbox i job s) k = (if k = i then job else inbox_of s k)"
  "i < length (ps_workers s) \<Longrightarrow> wk_link (ps_workers (set_link i link s) ! k) = (if k = i then link else wk_link (ps_workers s ! k))"
  by (simp_all add: changes)

lemma worker_kept [simp]:
  "inbox_of (set_worker i wph s) k = inbox_of s k" "inbox_of (set_link i link s) k = inbox_of s k"
  "worker_phase_of (set_inbox i job s) k = worker_phase_of s k" "worker_phase_of (set_link i link s) k = worker_phase_of s k"
  "wk_link (ps_workers (set_worker i wph s) ! k) = wk_link (ps_workers s ! k)"
  "wk_link (ps_workers (set_inbox i job s) ! k) = wk_link (ps_workers s ! k)"
  unfolding changes by (cases "i = k"; cases "i < length (ps_workers s)"; simp add: list_update_beyond)+

lemma respond_fields [simp]:
  "ps_workers (respond i c r s) = ps_workers s" "ps_queue (respond i c r s) = ps_queue s"
  "ps_available (respond i c r s) = ps_available s" "ps_open (respond i c r s) = ps_open s"
  "length (ps_calls (respond i c r s)) = length (ps_calls s)"
  "pc_command (ps_calls (respond i c r s) ! k) = pc_command (ps_calls s ! k)"
  by (simp_all add: respond_def)

lemma respond_phase:
  "c < length (ps_calls s) \<Longrightarrow> call_phase_of (respond i c r s) k =
     (if k = c \<and> call_phase_of s c = CallSent i then CallDone r else call_phase_of s k)"
  by (simp add: respond_def)

text \<open>How a changed phase changes the tallies.\<close>

lemma calls_tally:
  "c < length (ps_calls s) \<Longrightarrow> tally (\<lambda>call. f (pc_phase call)) (ps_calls (set_phase c ph s)) + f (call_phase_of s c)
     = tally (\<lambda>call. f (pc_phase call)) (ps_calls s) + f ph"
  by (simp add: set_phase_def tally_update [where f = "\<lambda>call. f (pc_phase call)"])

lemma workers_tally:
  "i < length (ps_workers s) \<Longrightarrow> tally (\<lambda>w. f (wk_phase w)) (ps_workers (set_worker i wph s)) + f (worker_phase_of s i)
     = tally (\<lambda>w. f (wk_phase w)) (ps_workers s) + f wph"
  by (simp add: set_worker_def tally_update [where f = "\<lambda>w. f (wk_phase w)"])

lemma workers_tally_kept:
  "tally (\<lambda>w. f (wk_phase w)) (ps_workers (set_inbox i job s)) = tally (\<lambda>w. f (wk_phase w)) (ps_workers s)"
  "tally (\<lambda>w. f (wk_phase w)) (ps_workers (set_link i link s)) = tally (\<lambda>w. f (wk_phase w)) (ps_workers s)"
  unfolding tally_def by (rule arg_cong [where f = sum_list], rule nth_equalityI; simp)+

lemma call_finished_iff: "call_finished call \<longleftrightarrow> (\<exists>r. pc_phase call = CallDone r) \<or> pc_phase call = CallDropped"
  by (cases "pc_phase call") auto

lemma inv_indexI:
  assumes "\<And>i. i \<in> set (ps_queue s) \<Longrightarrow> i < length (ps_workers s)"
    and "\<And>c i. call_worker (call_phase_of s c) = Some i \<Longrightarrow> c < length (ps_calls s) \<Longrightarrow> i < length (ps_workers s)"
    and "\<And>i c. inbox_of s i = Some c \<Longrightarrow> i < length (ps_workers s) \<Longrightarrow> c < length (ps_calls s)"
    and "\<And>i c. worker_job (worker_phase_of s i) = Some c \<Longrightarrow> i < length (ps_workers s) \<Longrightarrow> c < length (ps_calls s)"
  shows "inv_index s"
  using assms unfolding inv_index_def by blast

lemma inv_jobsI:
  assumes "\<And>c i. call_phase_of s c = CallSent i \<Longrightarrow> c < length (ps_calls s)
      \<Longrightarrow> inbox_of s i = Some c \<or> worker_job (worker_phase_of s i) = Some c"
    and "\<And>i c. inbox_of s i = Some c \<Longrightarrow> i < length (ps_workers s)
      \<Longrightarrow> call_phase_of s c = CallSent i \<or> call_phase_of s c = CallDropped"
    and "\<And>i c. worker_job (worker_phase_of s i) = Some c \<Longrightarrow> i < length (ps_workers s)
      \<Longrightarrow> call_phase_of s c = CallSent i \<or> call_phase_of s c = CallDropped"
    and "\<And>i c. inbox_of s i = Some c \<Longrightarrow> i < length (ps_workers s) \<Longrightarrow> worker_job (worker_phase_of s i) \<noteq> Some c"
  shows "inv_jobs s"
  using assms unfolding inv_jobs_def by blast

text \<open>The changes of the owners of a worker.\<close>

lemma owner_changes:
  "c < length (ps_calls s) \<Longrightarrow> owner_count (set_phase c ph s) k + of_bool (call_holds (call_phase_of s c) = Some k)
     = owner_count s k + of_bool (call_holds ph = Some k)"
  "i < length (ps_workers s) \<Longrightarrow> owner_count (set_inbox i job s) k + of_bool (k = i \<and> inbox_of s i \<noteq> None)
     = owner_count s k + of_bool (k = i \<and> job \<noteq> None)"
  "i < length (ps_workers s) \<Longrightarrow> owner_count (set_worker i wph s) k + of_bool (k = i \<and> worker_occupied (worker_phase_of s i))
     = owner_count s k + of_bool (k = i \<and> worker_occupied wph)"
  "owner_count (s\<lparr>ps_queue := q\<rparr>) k + count_list (ps_queue s) k = owner_count s k + count_list q k"
  using calls_tally [where f = "\<lambda>ph. of_bool (call_holds ph = Some k) :: nat"]
  by (auto simp: owner_count_def)

lemma owner_kept [simp]:
  "owner_count (s\<lparr>ps_available := a\<rparr>) k = owner_count s k" "owner_count (s\<lparr>ps_created := b\<rparr>) k = owner_count s k"
  "owner_count (set_link i link s) k = owner_count s k"
  by (simp_all add: owner_count_def)

lemma owner_respond [simp]: "owner_count (respond i c r s) k = owner_count s k"
  using owner_changes(1) [of c s "CallDone r" k]
  by (cases "c < length (ps_calls s)") (auto simp: respond_def, simp_all add: set_phase_def list_update_beyond)

lemma call_step_length: "call_step c s s' \<Longrightarrow> length (ps_calls s') = length (ps_calls s) \<and> length (ps_workers s') = length (ps_workers s)"
  by (cases rule: call_step.cases) auto

lemma worker_step_length:
  "worker_step libs cfg i s s' \<Longrightarrow> length (ps_calls s') = length (ps_calls s) \<and> length (ps_workers s') = length (ps_workers s)"
  by (cases rule: worker_step.cases) auto

text \<open>In a pool that is used the steps for a stopped worker and a closed queue do not happen.\<close>

lemma call_step_live:
  assumes "call_step c s s'" "c < length (ps_calls s)" "inv_index s" "inv_life s" 
  obtains (claim) i q where "call_phase_of s c = CallWaiting" "ps_queue s = i # q" "i < length (ps_workers s)"
      "s' = set_phase c (CallClaimed i) (s\<lparr>ps_queue := q\<rparr>)" "ps_open s"
  | (take_count) i where "call_phase_of s c = CallClaimed i" "i < length (ps_workers s)"
      "s' = set_phase c (CallCounted i) (s\<lparr>ps_available := ps_available s - 1\<rparr>)" "ps_open s"
  | (send_job) i where "call_phase_of s c = CallCounted i" "i < length (ps_workers s)" "inbox_of s i = None"
      "s' = set_phase c (CallSent i) (set_inbox i (Some c) s)" "ps_open s"
proof -
  from assms(2,4) have "ps_open s \<or> call_finished (ps_calls s ! c)" unfolding inv_life_def by blast
  then have opened: "ps_open s \<or> call_phase_of s c = CallDropped \<or> (\<exists>r. call_phase_of s c = CallDone r)"
    unfolding call_finished_iff by blast
  from assms(2,4) have no: "\<not> call_gives_up (call_phase_of s c)" unfolding inv_life_def by blast
  from assms(2,3) have ix: "call_worker (call_phase_of s c) = Some i \<Longrightarrow> i < length (ps_workers s)" for i
    unfolding inv_index_def by blast
  from assms(3) have qx: "i \<in> set (ps_queue s) \<Longrightarrow> i < length (ps_workers s)" for i unfolding inv_index_def by blast
  from assms(4) have run: "ps_open s \<Longrightarrow> i < length (ps_workers s) \<Longrightarrow> worker_phase_of s i \<noteq> WorkerStopped" for i
    unfolding inv_life_def by blast
  from assms(1) show thesis
  proof cases
    case (claim i q)
    moreover from claim opened qx [of i] have "i < length (ps_workers s)" "ps_open s" by simp_all
    ultimately show thesis using that(1) by blast
  next
    case (take_count i)
    moreover from take_count opened ix [of i] have "i < length (ps_workers s)" "ps_open s" by simp_all
    ultimately show thesis using that(2) by blast
  next
    case (send_job i)
    moreover from send_job opened ix [of i] have "i < length (ps_workers s)" "ps_open s" by simp_all
    ultimately show thesis using that(3) by blast
  next
    case closed
    with opened show thesis by simp
  next
    case (send_fails i)
    with opened ix [of i] run [of i] show thesis by simp
  next
    case (release i)
    with no show thesis by simp
  next
    case (released i)
    with no show thesis by simp
  next
    case (no_answer i)
    with opened ix [of i] run [of i] show thesis by simp
  qed
qed


lemma inv_parts:
  assumes inv: "pool_inv libs cfg s"
  shows "inv_index s" "inv_life s" "inv_owner s" "inv_count s" "inv_jobs s" "inv_results libs cfg s"
  using inv by (simp_all add: pool_inv_def)

lemma inv_index_parts:
  assumes inv: "pool_inv libs cfg s"
  shows "i \<in> set (ps_queue s) \<Longrightarrow> i < length (ps_workers s)"
  "call_worker (call_phase_of s c) = Some i \<Longrightarrow> c < length (ps_calls s) \<Longrightarrow> i < length (ps_workers s)"
  "inbox_of s i = Some c \<Longrightarrow> i < length (ps_workers s) \<Longrightarrow> c < length (ps_calls s)"
  "worker_job (worker_phase_of s i) = Some c \<Longrightarrow> i < length (ps_workers s) \<Longrightarrow> c < length (ps_calls s)"
  using inv_parts(1) [OF inv] unfolding inv_index_def by blast+

lemma call_keeps_index:
  assumes inv: "pool_inv libs cfg s"
    and "call_step c s s'" "c < length (ps_calls s)"
  shows "inv_index s'"
  using assms(2,3) inv_parts(1,2) [OF inv]
proof (cases rule: call_step_live)
  case (claim i q)
  moreover from claim(2) inv_index_parts(1) [OF inv] have "j < length (ps_workers s)" if "j \<in> set q" for j
    using that by simp
  ultimately show ?thesis using assms(3)
    by (intro inv_indexI) (auto split: if_splits dest: inv_index_parts [OF inv])
next
  case take_count
  with assms(3) show ?thesis
    by (intro inv_indexI) (auto split: if_splits dest: inv_index_parts [OF inv])
next
  case send_job
  with assms(3) show ?thesis
    by (intro inv_indexI) (auto split: if_splits dest: inv_index_parts [OF inv])
qed

lemma call_keeps_life:
  assumes inv: "pool_inv libs cfg s"
    and "call_step c s s'" "c < length (ps_calls s)"
  shows "inv_life s'"
  using assms(2,3) inv_parts(1,2) [OF inv]
proof (cases rule: call_step_live)
  case claim
  with inv_parts(2) [OF inv] assms(3) show ?thesis by (simp add: inv_life_def)
next
  case take_count
  with inv_parts(2) [OF inv] assms(3) show ?thesis by (simp add: inv_life_def)
next
  case send_job
  with inv_parts(2) [OF inv] assms(3) show ?thesis by (simp add: inv_life_def)
qed

lemma call_keeps_owner:
  assumes inv: "pool_inv libs cfg s"
    and "call_step c s s'" "c < length (ps_calls s)"
  shows "inv_owner s'"
proof -
  from assms(2,3) inv_parts(1,2) [OF inv] have "owner_count s' k = owner_count s k \<and> ps_open s" for k
  proof (cases rule: call_step_live)
    case (claim i q)
    with owner_changes(1) [of c "s\<lparr>ps_queue := q\<rparr>" "CallClaimed i" k] owner_changes(4) [of q s k] assms(3)
    show ?thesis by (simp split: if_splits)
  next
    case (take_count i)
    with owner_changes(1) [of c "s\<lparr>ps_available := ps_available s - 1\<rparr>" "CallCounted i" k] assms(3)
    show ?thesis by simp
  next
    case (send_job i)
    with owner_changes(1) [of c "set_inbox i (Some c) s" "CallSent i" k] owner_changes(2) [of i s "Some c" k] assms(3)
    show ?thesis by (cases "k = i") (auto split: if_splits)
  qed
  with inv_parts(3) [OF inv] call_step_length [OF assms(2)] show ?thesis by (simp add: inv_owner_def)
qed

lemma call_keeps_count:
  assumes inv: "pool_inv libs cfg s"
    and "call_step c s s'" "c < length (ps_calls s)"
  shows "inv_count s'"
proof -
  note tu = calls_tally [OF assms(3), of "\<lambda>ph. of_bool (call_claimed ph) :: u64"]
  note tk = workers_tally_kept(1) [where f = "\<lambda>ph. of_bool (worker_listed ph) :: u64"]
  from assms(2,3) inv_parts(1,2) [OF inv] show ?thesis
  proof (cases rule: call_step_live)
    case (claim i q)
    with tu [of "CallClaimed i"] inv_parts(4) [OF inv] show ?thesis
      by (simp add: inv_count_def set_phase_def algebra_simps)
  next
    case (take_count i)
    with tu [of "CallCounted i"] inv_parts(4) [OF inv] show ?thesis
      by (simp add: inv_count_def set_phase_def algebra_simps)
  next
    case (send_job i)
    with tu [of "CallSent i"] inv_parts(4) [OF inv] show ?thesis
      by (simp add: tk inv_count_def set_phase_def algebra_simps)
  qed
qed

lemma inv_jobs_parts:
  assumes inv: "pool_inv libs cfg s"
  shows "call_phase_of s c = CallSent i \<Longrightarrow> c < length (ps_calls s) \<Longrightarrow> inbox_of s i = Some c \<or> worker_job (worker_phase_of s i) = Some c"
  "inbox_of s i = Some c \<Longrightarrow> i < length (ps_workers s) \<Longrightarrow> call_phase_of s c = CallSent i \<or> call_phase_of s c = CallDropped"
  "worker_job (worker_phase_of s i) = Some c \<Longrightarrow> i < length (ps_workers s) \<Longrightarrow> call_phase_of s c = CallSent i \<or> call_phase_of s c = CallDropped"
  "inbox_of s i = Some c \<Longrightarrow> i < length (ps_workers s) \<Longrightarrow> worker_job (worker_phase_of s i) \<noteq> Some c"
  using inv_parts(5) [OF inv] unfolding inv_jobs_def by blast+

lemma call_keeps_jobs:
  assumes inv: "pool_inv libs cfg s"
    and "call_step c s s'" "c < length (ps_calls s)"
  shows "inv_jobs s'"
  using assms(2,3) inv_parts(1,2) [OF inv]
proof (cases rule: call_step_live)
  case (claim i q)
  with assms(3) show ?thesis by (intro inv_jobsI) (auto split: if_splits dest: inv_jobs_parts [OF inv])
next
  case (take_count i)
  with assms(3) show ?thesis by (intro inv_jobsI) (auto split: if_splits dest: inv_jobs_parts [OF inv])
next
  case (send_job i)
  with assms(3) show ?thesis by (intro inv_jobsI) (auto split: if_splits dest: inv_jobs_parts [OF inv])
qed

lemma call_keeps_results:
  assumes inv: "pool_inv libs cfg s"
    and "call_step c s s'" "c < length (ps_calls s)"
  shows "inv_results libs cfg s'"
  using assms(2,3) inv_parts(1,2) [OF inv]
proof (cases rule: call_step_live)
  case (claim i q)
  with inv_parts(6) [OF inv] assms(3) show ?thesis by (simp add: inv_results_def)
next
  case (take_count i)
  with inv_parts(6) [OF inv] assms(3) show ?thesis by (simp add: inv_results_def)
next
  case (send_job i)
  with inv_parts(6) [OF inv] assms(3) show ?thesis by (simp add: inv_results_def)
qed

lemma worker_stopped_only:
  assumes inv: "pool_inv libs cfg s"
    and "i < length (ps_workers s)" "worker_phase_of s i = WorkerExecuted c result" "\<not> ps_open s"
  shows "respond i c r s = s"
proof -
  from assms have job: "c < length (ps_calls s)" "call_phase_of s c = CallSent i \<or> call_phase_of s c = CallDropped"
    using inv_index_parts(4) [OF inv, of i c] inv_jobs_parts(3) [OF inv, of i c] by auto
  from inv_parts(2) [OF inv] job(1) assms(4) have "call_finished (ps_calls s ! c)" unfolding inv_life_def by blast
  with job(2) show ?thesis by (auto simp: respond_def)
qed

lemma worker_keeps_index:
  assumes inv: "pool_inv libs cfg s"
    and "worker_step libs cfg i s s'" "i < length (ps_workers s)"
  shows "inv_index s'"
  using assms(2)
proof cases
  case (take_job c)
  with assms(3) inv_index_parts(4) [OF inv, of i c] show ?thesis by (intro inv_indexI) (auto split: if_splits dest: inv_index_parts [OF inv])
next
  case (execute c a0 a1 conn created result)
  with assms(3) inv_index_parts(4) [OF inv, of i c] show ?thesis by (intro inv_indexI) (auto split: if_splits dest: inv_index_parts [OF inv])
next
  case (list_again c result)
  with assms(3) inv_index_parts(4) [OF inv, of i c] show ?thesis by (intro inv_indexI) (auto split: if_splits dest: inv_index_parts [OF inv])
next
  case (list_fails c result)
  with assms(3) inv_index_parts(4) [OF inv, of i c] worker_stopped_only [OF inv] show ?thesis by (intro inv_indexI) (auto split: if_splits dest: inv_index_parts [OF inv])
next
  case (give_count c result)
  with assms(3) inv_index_parts(4) [OF inv, of i c] show ?thesis by (intro inv_indexI) (auto split: if_splits dest: inv_index_parts [OF inv])
next
  case (answer c result)
  then have "c < length (ps_calls s)" using inv_index_parts(4) [OF inv, of i c] assms(3) by simp
  with answer assms(3) show ?thesis
    by (intro inv_indexI) (auto simp: respond_phase split: if_splits dest: inv_index_parts [OF inv])
next
  case stop
  with assms(3) show ?thesis by (intro inv_indexI) (auto split: if_splits dest: inv_index_parts [OF inv])
qed

lemma worker_keeps_life:
  assumes inv: "pool_inv libs cfg s"
    and "worker_step libs cfg i s s'" "i < length (ps_workers s)"
  shows "inv_life s'"
  using assms(2)
proof cases
  case (take_job c)
  with assms(3) inv_parts(2) [OF inv] show ?thesis by (simp add: inv_life_def)
next
  case (execute c a0 a1 conn created result)
  with assms(3) inv_parts(2) [OF inv] show ?thesis by (simp add: inv_life_def)
next
  case (list_again c result)
  with assms(3) inv_parts(2) [OF inv] show ?thesis by (simp add: inv_life_def)
next
  case (list_fails c result)
  with assms(3) inv_parts(2) [OF inv] worker_stopped_only [OF inv] show ?thesis by (simp add: inv_life_def)
next
  case (give_count c result)
  with assms(3) inv_parts(2) [OF inv] show ?thesis by (simp add: inv_life_def)
next
  case (answer c result)
  then have "c < length (ps_calls s)" using inv_index_parts(4) [OF inv, of i c] assms(3) by simp
  with answer assms(3) inv_parts(2) [OF inv] show ?thesis
    by (auto simp: inv_life_def respond_phase call_finished_iff simp del: call_finished.simps)
next
  case stop
  with assms(3) inv_parts(2) [OF inv] show ?thesis by (simp add: inv_life_def)
qed

lemma worker_keeps_owner:
  assumes inv: "pool_inv libs cfg s"
    and "worker_step libs cfg i s s'" "i < length (ps_workers s)"
  shows "inv_owner s'"
proof -
  from assms(2) have "ps_open s' \<longrightarrow> owner_count s' k = owner_count s k \<and> ps_open s" for k
  proof cases
    case (take_job c)
    with owner_changes(2) [of i s None k] owner_changes(3) [of i "set_inbox i None s" "WorkerBusy c" k] assms(3)
    show ?thesis by (cases "k = i") auto
  next
    case (execute c a0 a1 conn created result)
    with owner_changes(3) [of i "set_link i conn (s\<lparr>ps_created := created\<rparr>)" "WorkerExecuted c result" k] assms(3)
    show ?thesis by simp
  next
    case (list_again c result)
    with owner_changes(3) [of i "s\<lparr>ps_queue := ps_queue s @ [i]\<rparr>" "WorkerListed c result" k]
      owner_changes(4) [of "ps_queue s @ [i]" s k] assms(3)
    show ?thesis by (cases "k = i") auto
  next
    case (give_count c result)
    with owner_changes(3) [of i "s\<lparr>ps_available := ps_available s + 1\<rparr>" "WorkerCounted c result" k] assms(3)
    show ?thesis by simp
  next
    case (answer c result)
    with owner_changes(3) [of i "respond i c result s" "WorkerWaiting" k] assms(3)
    show ?thesis by simp
  qed simp_all
  with inv_parts(3) [OF inv] worker_step_length [OF assms(2)] show ?thesis by (simp add: inv_owner_def)
qed

lemma worker_keeps_count:
  assumes inv: "pool_inv libs cfg s"
    and "worker_step libs cfg i s s'" "i < length (ps_workers s)"
  shows "inv_count s'"
proof -
  let ?t = "\<lambda>ph. of_bool (worker_listed ph) :: u64"
  let ?c = "\<lambda>ph. of_bool (call_claimed ph) :: u64"
  have tr: "tally (\<lambda>call. ?c (pc_phase call)) (ps_calls (respond i c r s)) = tally (\<lambda>call. ?c (pc_phase call)) (ps_calls s)" for c r
    using calls_tally [of c s ?c "CallDone r"]
    by (cases "c < length (ps_calls s)") (auto simp: respond_def, simp_all add: set_phase_def list_update_beyond)
  note tk = workers_tally_kept [where f = ?t]
  from assms(2) show ?thesis
  proof cases
    case (take_job c)
    with workers_tally [of i "set_inbox i None s" ?t "WorkerBusy c"] inv_parts(4) [OF inv] assms(3)
    show ?thesis by (simp add: tk inv_count_def)
  next
    case (execute c a0 a1 conn created result)
    with workers_tally [of i "set_link i conn (s\<lparr>ps_created := created\<rparr>)" ?t "WorkerExecuted c result"] inv_parts(4) [OF inv] assms(3)
    show ?thesis by (simp add: tk inv_count_def)
  next
    case (list_again c result)
    with workers_tally [of i "s\<lparr>ps_queue := ps_queue s @ [i]\<rparr>" ?t "WorkerListed c result"] inv_parts(4) [OF inv] assms(3)
    show ?thesis by (simp add: tk inv_count_def algebra_simps)
  next
    case (list_fails c result)
    with worker_stopped_only [OF inv] workers_tally [of i s ?t WorkerStopped] inv_parts(4) [OF inv] assms(3)
    show ?thesis by (simp add: tk inv_count_def)
  next
    case (give_count c result)
    with workers_tally [of i "s\<lparr>ps_available := ps_available s + 1\<rparr>" ?t "WorkerCounted c result"] assms(3)
    have "tally (\<lambda>w. ?t (wk_phase w)) (ps_workers s) = tally (\<lambda>w. ?t (wk_phase w)) (ps_workers s') + 1" by simp
    with give_count inv_parts(4) [OF inv] show ?thesis by (simp add: inv_count_def add_ac)
  next
    case (answer c result)
    with workers_tally [of i "respond i c result s" ?t WorkerWaiting] inv_parts(4) [OF inv] assms(3)
    show ?thesis by (simp add: tk tr inv_count_def)
  next
    case stop
    with workers_tally [of i "set_link i None s" ?t WorkerStopped] inv_parts(4) [OF inv] assms(3)
    show ?thesis by (simp add: tk inv_count_def)
  qed
qed

lemma worker_keeps_jobs:
  assumes inv: "pool_inv libs cfg s"
    and "worker_step libs cfg i s s'" "i < length (ps_workers s)"
  shows "inv_jobs s'"
  using assms(2)
proof cases
  case (take_job c)
  with assms(3) inv_jobs_parts(2) [OF inv, of i c] show ?thesis
    by (intro inv_jobsI) (auto split: if_splits dest: inv_jobs_parts [OF inv])
next
  case (execute c a0 a1 conn created result)
  with assms(3) inv_jobs_parts(3) [OF inv, of i c] show ?thesis
    by (intro inv_jobsI) (auto split: if_splits dest: inv_jobs_parts [OF inv])
next
  case (list_again c result)
  with assms(3) inv_jobs_parts(3) [OF inv, of i c] show ?thesis
    by (intro inv_jobsI) (auto split: if_splits dest: inv_jobs_parts [OF inv])
next
  case (list_fails c result)
  then have "call_phase_of s k \<noteq> CallSent j" if "k < length (ps_calls s)" for k j
    using inv_parts(2) [OF inv] that unfolding inv_life_def call_finished_iff by fastforce
  with list_fails assms(3) worker_stopped_only [OF inv] show ?thesis
    by (intro inv_jobsI) (auto split: if_splits dest: inv_jobs_parts [OF inv])
next
  case (give_count c result)
  with assms(3) inv_jobs_parts(3) [OF inv, of i c] show ?thesis
    by (intro inv_jobsI) (auto split: if_splits dest: inv_jobs_parts [OF inv])
next
  case (answer c result)
  note job = inv_jobs_parts(3) [OF inv, of i c] inv_index_parts(4) [OF inv, of i c]
  from answer(2) assms(3) have other: "inbox_of s k = Some c \<Longrightarrow> k < length (ps_workers s) \<Longrightarrow> call_phase_of s c = CallDropped" for k
    using inv_jobs_parts(2) [OF inv, of k c] inv_jobs_parts(4) [OF inv, of i c] job(1) by auto
  from answer(2) have sent: "call_phase_of s k = CallSent i \<Longrightarrow> k < length (ps_calls s) \<Longrightarrow> k \<noteq> c \<Longrightarrow> inbox_of s i = Some k" for k
    using inv_jobs_parts(1) [OF inv, of k i] by auto
  from answer assms(3) job show ?thesis
    by (intro inv_jobsI) (auto simp: respond_phase split: if_splits dest: inv_jobs_parts [OF inv] other sent)
next
  case stop
  with assms(3) show ?thesis by (intro inv_jobsI) (auto split: if_splits dest: inv_jobs_parts [OF inv])
qed

lemma inv_results_parts:
  assumes inv: "pool_inv libs cfg s"
  shows "i < length (ps_workers s) \<Longrightarrow> link_ok cfg (wk_link (ps_workers s ! i))"
  "i < length (ps_workers s) \<Longrightarrow> worker_result (worker_phase_of s i) = Some (c, r) \<Longrightarrow> executed libs cfg (pc_command (ps_calls s ! c)) r"
  "call_phase_of s c = CallDone r \<Longrightarrow> c < length (ps_calls s) \<Longrightarrow> executed libs cfg (pc_command (ps_calls s ! c)) r"
  using inv_parts(6) [OF inv] unfolding inv_results_def by blast+

lemma worker_keeps_results:
  assumes inv: "pool_inv libs cfg s"
    and "worker_step libs cfg i s s'" "i < length (ps_workers s)"
  shows "inv_results libs cfg s'"
  using assms(2)
proof cases
  case (execute c a0 a1 conn created result)
  note link = inv_results_parts(1) [OF inv assms(3)]
  have "executed libs cfg (pc_command (ps_calls s ! c)) result"
    unfolding executed_def using link execute(3) by blast
  moreover have "link_ok cfg conn" by (rule execute_with_reconnect_facts(1) [OF execute(3) link])
  ultimately show ?thesis using execute(1) inv_parts(6) [OF inv] assms(3) by (simp add: inv_results_def)
next
  case (answer c result)
  with assms(3) inv_results_parts(2) [OF inv, of i c result] inv_index_parts(4) [OF inv, of i c] inv_parts(6) [OF inv] show ?thesis
    by (simp add: inv_results_def respond_phase)
qed (use assms(3) inv_parts(6) [OF inv] worker_stopped_only [OF inv] in \<open>simp_all add: inv_results_def\<close>)

lemma pool_step_keeps_inv:
  assumes inv: "pool_inv libs cfg s"
    and "pool_step libs cfg s s'"
  shows "pool_inv libs cfg s'"
  using assms(2)
proof cases
  case (call c)
  then show ?thesis unfolding pool_inv_def
    using call_keeps_index [OF inv] call_keeps_life [OF inv] call_keeps_owner [OF inv] call_keeps_count [OF inv] call_keeps_jobs [OF inv] call_keeps_results [OF inv] by blast
next
  case (worker i)
  then show ?thesis unfolding pool_inv_def
    using worker_keeps_index [OF inv] worker_keeps_life [OF inv] worker_keeps_owner [OF inv] worker_keeps_count [OF inv] worker_keeps_jobs [OF inv] worker_keeps_results [OF inv]
    by blast
qed

lemma abandon_keeps_inv:
  assumes inv: "pool_inv libs cfg s"
    and "c < length (ps_calls s)" "call_phase_of s c = CallWaiting \<or> call_phase_of s c = CallSent i"
  shows "pool_inv libs cfg (set_phase c CallDropped s)"
proof -
  have "inv_index (set_phase c CallDropped s)"
    using assms by (intro inv_indexI) (auto split: if_splits dest: inv_index_parts [OF inv])
  moreover have "inv_life (set_phase c CallDropped s)"
    using assms inv_parts(2) [OF inv] by (auto simp: inv_life_def call_finished_iff simp del: call_finished.simps)
  moreover have "owner_count (set_phase c CallDropped s) k = owner_count s k" for k
    using owner_changes(1) [of c s CallDropped k] assms by auto
  then have "inv_owner (set_phase c CallDropped s)" using inv_parts(3) [OF inv] by (simp add: inv_owner_def)
  moreover have "inv_count (set_phase c CallDropped s)"
    using calls_tally [of c s "\<lambda>ph. of_bool (call_claimed ph) :: u64" CallDropped] assms inv_parts(4) [OF inv]
    by (auto simp: inv_count_def)
  moreover have "inv_jobs (set_phase c CallDropped s)"
    using assms by (intro inv_jobsI) (auto split: if_splits dest: inv_jobs_parts [OF inv])
  moreover have "inv_results libs cfg (set_phase c CallDropped s)"
    using assms inv_parts(6) [OF inv] by (simp add: inv_results_def)
  ultimately show ?thesis by (simp add: pool_inv_def)
qed

lemma arrive_keeps_inv:
  assumes inv: "pool_inv libs cfg s"
    and "ps_open s"
  shows "pool_inv libs cfg (s\<lparr>ps_calls := ps_calls s @ [\<lparr>pc_command = cmd, pc_phase = CallWaiting\<rparr>]\<rparr>)" (is "pool_inv _ _ ?s")
proof -
  have nth: "ps_calls ?s ! c = (if c < length (ps_calls s) then ps_calls s ! c else \<lparr>pc_command = cmd, pc_phase = CallWaiting\<rparr>)"
    if "c < Suc (length (ps_calls s))" for c using that by (auto simp: nth_append)
  have "inv_index ?s"
    by (intro inv_indexI) (auto simp: nth_append less_Suc_eq split: if_splits dest: inv_index_parts [OF inv])
  moreover have "inv_life ?s" using assms inv_parts(2) [OF inv] by (simp add: inv_life_def nth_append less_Suc_eq)
  moreover have "owner_count ?s k = owner_count s k" for k by (simp add: owner_count_def)
  then have "inv_owner ?s" using inv_parts(3) [OF inv] by (simp add: inv_owner_def)
  moreover have "inv_count ?s" using inv_parts(4) [OF inv] by (simp add: inv_count_def)
  moreover have "inv_jobs ?s"
    by (intro inv_jobsI) (auto simp: nth_append less_Suc_eq split: if_splits dest: inv_jobs_parts [OF inv] inv_index_parts [OF inv])
  moreover have "c < length (ps_calls s)" if "i < length (ps_workers s)" "worker_result (worker_phase_of s i) = Some (c, r)" for i c r
    using that inv_index_parts(4) [OF inv, of i c] by (cases "worker_phase_of s i") auto
  then have "inv_results libs cfg ?s"
    using inv_parts(6) [OF inv] by (simp add: inv_results_def nth_append less_Suc_eq)
  ultimately show ?thesis by (simp add: pool_inv_def)
qed

lemma idle_keeps_inv:
  assumes inv: "pool_inv libs cfg s"
    and "i < length (ps_workers s)"
  shows "pool_inv libs cfg (set_link i None s)"
proof -
  have "inv_index (set_link i None s)" by (intro inv_indexI) (auto dest: inv_index_parts [OF inv])
  moreover have "inv_jobs (set_link i None s)" by (intro inv_jobsI) (auto dest: inv_jobs_parts [OF inv])
  ultimately show ?thesis using inv_parts [OF inv] assms
    by (simp add: pool_inv_def inv_life_def inv_owner_def inv_count_def inv_results_def
        workers_tally_kept [where f = "\<lambda>ph. of_bool (worker_listed ph) :: u64"])
qed

lemma drop_keeps_inv:
  assumes inv: "pool_inv libs cfg s"
    and "list_all call_finished (ps_calls s)"
  shows "pool_inv libs cfg (s\<lparr>ps_open := False\<rparr>)"
proof -
  have "inv_index (s\<lparr>ps_open := False\<rparr>)" by (intro inv_indexI) (auto dest: inv_index_parts [OF inv])
  moreover have "inv_jobs (s\<lparr>ps_open := False\<rparr>)" by (intro inv_jobsI) (auto dest: inv_jobs_parts [OF inv])
  ultimately show ?thesis using inv_parts [OF inv] assms
    by (simp add: pool_inv_def inv_life_def inv_owner_def inv_count_def inv_results_def list_all_length)
qed

lemma outer_step_keeps_inv:
  assumes inv: "pool_inv libs cfg s"
    and "outer_step s s'"
  shows "pool_inv libs cfg s'"
  using assms(2) by cases (simp_all add: arrive_keeps_inv [OF inv] abandon_keeps_inv [OF inv] idle_keeps_inv [OF inv] drop_keeps_inv [OF inv])

lemma tally_replicate_zero: "f x = 0 \<Longrightarrow> tally f (replicate n x) = 0"
  by (rule tally_zero) simp

lemma count_upt: "i < n \<Longrightarrow> count_list [0..<n] i = 1"
  by (induction n) (auto simp: less_Suc_eq count_list_0_iff)

lemma start_inv:
  assumes "pool_new None configured requested = Inr s"
  shows "pool_inv libs cfg s"
  using assms
  by (auto simp: pool_new_def Let_def pool_inv_def inv_index_def inv_life_def inv_owner_def owner_count_def inv_count_def
      inv_jobs_def inv_results_def tally_replicate_zero count_upt simp del: upt_Suc)

lemma reachable_inv: "pool_reachable libs cfg n s \<Longrightarrow> pool_inv libs cfg s \<and> length (ps_workers s) = n \<and> n > 0"
proof (induction rule: pool_reachable.induct)
  case (start configured requested s)
  then show ?case
    by (auto simp: start_inv) (auto simp: pool_new_def Let_def pool_size_def default_pool_size_def split: option.splits)
next
  case (inner s s')
  then have "length (ps_workers s') = length (ps_workers s)"
    by (auto elim!: pool_step.cases dest: call_step_length worker_step_length)
  with inner show ?case using pool_step_keeps_inv by blast
next
  case (outer s s')
  then have "length (ps_workers s') = length (ps_workers s)" by (auto elim!: outer_step.cases)
  with outer show ?case using outer_step_keeps_inv by blast
qed

section \<open>Progress\<close>

text \<open>Systems whose steps use up work.\<close>

locale terminating_system =
  fixes step :: "'s \<Rightarrow> 's \<Rightarrow> bool" and good :: "'s \<Rightarrow> bool" and work :: "'s \<Rightarrow> nat"
  assumes step_good: "good s \<Longrightarrow> step s s' \<Longrightarrow> good s'"
    and step_work: "good s \<Longrightarrow> step s s' \<Longrightarrow> work s' < work s"
begin

lemma steps_bounded: "(step ^^ k) s s' \<Longrightarrow> good s \<Longrightarrow> k + work s' \<le> work s \<and> good s'"
proof (induction k arbitrary: s')
  case (Suc k)
  from Suc(2) obtain t where t: "(step ^^ k) s t" "step t s'" by auto
  from Suc(1) [OF t(1) Suc(3)] have "k + work t \<le> work s" "good t" by blast+
  with step_work [OF _ t(2)] step_good [OF _ t(2)] show ?case by simp
qed simp

lemma steps_keep:
  assumes "\<And>s s'. good s \<Longrightarrow> step s s' \<Longrightarrow> f s' = f s"
  shows "(step ^^ k) s s' \<Longrightarrow> good s \<Longrightarrow> f s' = f s"
proof (induction k arbitrary: s')
  case (Suc k)
  from Suc(2) obtain t where t: "(step ^^ k) s t" "step t s'" by auto
  with Suc(1) [OF t(1) Suc(3)] assms [OF _ t(2)] steps_bounded [OF t(1) Suc(3)] show ?case by simp
qed simp

end

text \<open>A bound on the steps the pool can take without new calls.\<close>

fun call_work :: "call_phase \<Rightarrow> nat" where
  "call_work CallWaiting = 10"
| "call_work (CallClaimed i) = 9"
| "call_work (CallCounted i) = 8"
| "call_work (CallReleasing i) = 5"
| "call_work (CallReleased i) = 4"
| "call_work (CallSent i) = 1"
| "call_work _ = 0"

fun phase_work :: "worker_phase \<Rightarrow> nat" where
  "phase_work WorkerWaiting = 1"
| "phase_work (WorkerBusy c) = 5"
| "phase_work (WorkerExecuted c r) = 4"
| "phase_work (WorkerListed c r) = 3"
| "phase_work (WorkerCounted c r) = 2"
| "phase_work WorkerStopped = 0"

definition worker_work :: "pool_worker \<Rightarrow> nat" where
  "worker_work w = phase_work (wk_phase w) + (if wk_inbox w = None then 0 else 6)"

definition pool_work :: "pool_state \<Rightarrow> nat" where
  "pool_work s = tally (\<lambda>call. call_work (pc_phase call)) (ps_calls s) + tally worker_work (ps_workers s)"

lemma work_kept [simp]:
  "pool_work (s\<lparr>ps_queue := q\<rparr>) = pool_work s" "pool_work (s\<lparr>ps_available := a\<rparr>) = pool_work s"
  "pool_work (s\<lparr>ps_created := b\<rparr>) = pool_work s"
  by (simp_all add: pool_work_def)

lemma work_changes:
  "c < length (ps_calls s) \<Longrightarrow> pool_work (set_phase c ph s) + call_work (call_phase_of s c) = pool_work s + call_work ph"
  "i < length (ps_workers s) \<Longrightarrow> pool_work (set_worker i wph s) + phase_work (worker_phase_of s i) = pool_work s + phase_work wph"
  "i < length (ps_workers s) \<Longrightarrow> pool_work (set_inbox i job s) + (if inbox_of s i = None then 0 else 6)
     = pool_work s + (if job = None then 0 else 6)"
  using calls_tally [of c s call_work ph] tally_update [of i "ps_workers s" worker_work "(ps_workers s ! i)\<lparr>wk_phase := wph\<rparr>"]
    tally_update [of i "ps_workers s" worker_work "(ps_workers s ! i)\<lparr>wk_inbox := job\<rparr>"]
  by (simp_all add: pool_work_def set_worker_def set_inbox_def worker_work_def)

lemma work_link [simp]: "pool_work (set_link i link s) = pool_work s"
  using tally_update [of i "ps_workers s" worker_work "(ps_workers s ! i)\<lparr>wk_link := link\<rparr>"]
  by (cases "i < length (ps_workers s)") (simp_all add: pool_work_def set_link_def worker_work_def list_update_beyond)

lemma work_respond: "pool_work (respond i c r s) \<le> pool_work s"
  using work_changes(1) [of c s "CallDone r"]
  by (cases "c < length (ps_calls s)") (auto simp: respond_def, simp add: set_phase_def list_update_beyond)

lemma call_step_work: "call_step c s s' \<Longrightarrow> c < length (ps_calls s) \<Longrightarrow> 
    (\<And>i. call_worker (call_phase_of s c) = Some i \<Longrightarrow> i < length (ps_workers s)) \<Longrightarrow> pool_work s' < pool_work s"
proof (induction rule: call_step.induct)
  case (claim s i q)
  with work_changes(1) [of c "s\<lparr>ps_queue := q\<rparr>" "CallClaimed i"] show ?case by simp
next
  case (closed s)
  with work_changes(1) [of c s "CallDone (Inl (Connection ''rndc pool is closed''))"] show ?case by simp
next
  case (take_count s i)
  with work_changes(1) [of c "s\<lparr>ps_available := ps_available s - 1\<rparr>" "CallCounted i"] show ?case by simp
next
  case (send_job s i)
  with work_changes(1) [of c "set_inbox i (Some c) s" "CallSent i"] work_changes(3) [of i s "Some c"] show ?case by simp
next
  case (send_fails s i)
  with work_changes(1) [of c s "CallReleasing i"] show ?case by simp
next
  case (release s i)
  with work_changes(1) [of c "s\<lparr>ps_queue := ps_queue s @ [i]\<rparr>" "CallReleased i"] show ?case by simp
next
  case (released s i)
  with work_changes(1) [of c "s\<lparr>ps_available := ps_available s + 1\<rparr>" "CallDone (Inl (Connection ''rndc pool worker stopped''))"]
  show ?case by simp
next
  case (no_answer s i)
  with work_changes(1) [of c s "CallDone (Inl (Connection ''rndc pool worker dropped response''))"] show ?case by simp
qed

lemma worker_step_work: "worker_step libs cfg i s s' \<Longrightarrow> i < length (ps_workers s) \<Longrightarrow> pool_work s' < pool_work s"
proof (induction rule: worker_step.induct)
  case (take_job s c)
  with work_changes(2) [of i "set_inbox i None s" "WorkerBusy c"] work_changes(3) [of i s None] show ?case by simp
next
  case (execute s c a0 a1 conn created result)
  with work_changes(2) [of i "set_link i conn (s\<lparr>ps_created := created\<rparr>)" "WorkerExecuted c result"] show ?case by simp
next
  case (list_again s c result)
  with work_changes(2) [of i "s\<lparr>ps_queue := ps_queue s @ [i]\<rparr>" "WorkerListed c result"] show ?case by simp
next
  case (list_fails s c result)
  with work_changes(2) [of i "respond i c (Inl (Connection ''rndc pool availability queue closed'')) s" WorkerStopped]
    work_respond [of i c "Inl (Connection ''rndc pool availability queue closed'')" s] show ?case by simp
next
  case (give_count s c result)
  with work_changes(2) [of i "s\<lparr>ps_available := ps_available s + 1\<rparr>" "WorkerCounted c result"] show ?case by simp
next
  case (answer s c result)
  with work_changes(2) [of i "respond i c result s" WorkerWaiting] work_respond [of i c result s] show ?case by simp
next
  case (stop s)
  with work_changes(2) [of i "set_link i None s" WorkerStopped] show ?case by simp
qed

lemma pool_step_work:
  assumes "pool_step libs cfg s s'" "pool_inv libs cfg s"
  shows "pool_work s' < pool_work s"
  using assms(1)
proof cases
  case (call c)
  then show ?thesis using call_step_work inv_index_parts(2) [OF assms(2)] by blast
next
  case (worker i)
  then show ?thesis using worker_step_work by blast
qed

interpretation pool_run: terminating_system "pool_step libs cfg" "pool_inv libs cfg" pool_work for libs cfg
  by unfold_locales (blast intro: pool_step_keeps_inv pool_step_work)+

lemma pool_step_workers: "pool_step libs cfg s s' \<Longrightarrow> length (ps_workers s') = length (ps_workers s)"
  by (auto elim!: pool_step.cases dest: call_step_length worker_step_length)

lemma pool_steps_bounded:
  assumes "(pool_step libs cfg ^^ k) s s'" "pool_inv libs cfg s"
  shows "k \<le> pool_work s" "pool_inv libs cfg s'" "length (ps_workers s') = length (ps_workers s)"
  using pool_run.steps_bounded [OF assms] pool_run.steps_keep [where f = "\<lambda>s. length (ps_workers s)", OF pool_step_workers assms]
  by auto

lemma distinct_of_counts: "(\<And>k. count_list xs k \<le> 1) \<Longrightarrow> distinct xs"
proof (induction xs)
  case (Cons x xs)
  have "count_list xs k \<le> 1" for k using Cons(2) [of k] by (auto split: if_splits)
  moreover from Cons(2) [of x] have "x \<notin> set xs" by (simp add: count_list_0_iff)
  ultimately show ?case using Cons(1) by simp
qed simp

text \<open>The queue of free workers has room for a worker that is not in it.\<close>

lemma queue_distinct:
  assumes "pool_inv libs cfg s" "ps_open s"
  shows "distinct (ps_queue s)" "set (ps_queue s) \<subseteq> {..<length (ps_workers s)}"
    "i < length (ps_workers s) \<Longrightarrow> count_list (ps_queue s) i \<le> 1"
proof -
  show sub: "set (ps_queue s) \<subseteq> {..<length (ps_workers s)}"
    using inv_index_parts(1) [OF assms(1)] by auto
  have one: "count_list (ps_queue s) k \<le> 1" if "k < length (ps_workers s)" for k
  proof -
    have "owner_count s k = 1" using inv_parts(3) [OF assms(1)] assms(2) that by (simp add: inv_owner_def)
    then show ?thesis by (simp add: owner_count_def)
  qed
  have "count_list (ps_queue s) k \<le> 1" for k
    using one [of k] sub by (cases "k \<in> set (ps_queue s)") auto
  then show "distinct (ps_queue s)" by (rule distinct_of_counts)
  show "i < length (ps_workers s) \<Longrightarrow> count_list (ps_queue s) i \<le> 1" by (rule one)
qed

lemma queue_has_room:
  assumes "pool_inv libs cfg s" "ps_open s" "i < length (ps_workers s)" "i \<notin> set (ps_queue s)"
  shows "length (ps_queue s) < length (ps_workers s)"
proof -
  have "length (ps_queue s) = card (set (ps_queue s))"
    using queue_distinct(1) [OF assms(1,2)] by (simp add: distinct_card)
  also have "\<dots> < card {..<length (ps_workers s)}"
    using queue_distinct(2) [OF assms(1,2)] assms(3,4) by (intro psubset_card_mono) auto
  finally show ?thesis by simp
qed

lemma worker_can_step:
  assumes "pool_inv libs cfg s" "ps_open s" "i < length (ps_workers s)"
    and "inbox_of s i \<noteq> None \<or> worker_phase_of s i \<noteq> WorkerWaiting"
  shows "\<exists>s'. pool_step libs cfg s s'"
proof (cases "worker_phase_of s i")
  case WorkerWaiting
  with assms(4) obtain c where "inbox_of s i = Some c" by auto
  with WorkerWaiting show ?thesis using pool_step.worker [OF assms(3) take_job] by blast
next
  case (WorkerBusy c)
  obtain conn created result where "execute_with_reconnect libs cfg (pc_command (ps_calls s ! c)) undefined undefined
          (wk_link (ps_workers s ! i), ps_created s) = ((conn, created), result)" by (metis surj_pair)
  with WorkerBusy show ?thesis using pool_step.worker [OF assms(3) execute] by blast
next
  case (WorkerExecuted c r)
  have "owner_count s i = 1" using inv_parts(3) [OF assms(1)] assms(2,3) by (simp add: inv_owner_def)
  with WorkerExecuted have "i \<notin> set (ps_queue s)" by (simp add: owner_count_def count_list_0_iff)
  with WorkerExecuted show ?thesis
    using pool_step.worker [OF assms(3) list_again] queue_has_room [OF assms(1-3)] assms(2) by blast
next
  case (WorkerListed c r)
  then show ?thesis using pool_step.worker [OF assms(3) give_count] by blast
next
  case (WorkerCounted c r)
  then show ?thesis using pool_step.worker [OF assms(3) answer] by blast
next
  case WorkerStopped
  with inv_parts(2) [OF assms(1)] assms(2,3) show ?thesis by (auto simp: inv_life_def)
qed

lemma call_can_step:
  assumes "pool_inv libs cfg s" "ps_open s" "c < length (ps_calls s)" "call_phase_of s c \<noteq> CallWaiting" 
    and "\<not> call_finished (ps_calls s ! c)"
  shows "\<exists>s'. pool_step libs cfg s s'"
proof (cases "call_phase_of s c")
  case (CallClaimed i)
  then show ?thesis using pool_step.call [OF assms(3) take_count] by blast
next
  case (CallCounted i)
  with inv_index_parts(2) [OF assms(1), of c i] assms(3) have i: "i < length (ps_workers s)" by simp
  show ?thesis
  proof (cases "inbox_of s i")
    case None
    from inv_parts(2) [OF assms(1)] assms(2) i have "worker_phase_of s i \<noteq> WorkerStopped" by (auto simp: inv_life_def)
    with None CallCounted show ?thesis using pool_step.call [OF assms(3) send_job] by blast
  next
    case (Some c')
    then show ?thesis using worker_can_step [OF assms(1,2) i] by simp
  qed
next
  case (CallSent i)
  with inv_index_parts(2) [OF assms(1), of c i] assms(3) have i: "i < length (ps_workers s)" by simp
  from CallSent inv_jobs_parts(1) [OF assms(1), of c i] assms(3)
  have "inbox_of s i \<noteq> None \<or> worker_phase_of s i \<noteq> WorkerWaiting" by auto
  with worker_can_step [OF assms(1,2) i] show ?thesis by blast
next
  case (CallReleasing i)
  with inv_parts(2) [OF assms(1)] assms(3) show ?thesis by (auto simp: inv_life_def)
next
  case (CallReleased i)
  with inv_parts(2) [OF assms(1)] assms(3) show ?thesis by (auto simp: inv_life_def)
qed (use assms in simp_all)

text \<open>The counts of a pool in which nothing can happen.\<close>

lemma no_step_counts:
  assumes inv: "pool_inv libs cfg s" and "ps_open s" and stuck: "\<nexists>s'. pool_step libs cfg s s'"
    and none: "\<And>c. c < length (ps_calls s) \<Longrightarrow> call_phase_of s c \<noteq> CallWaiting \<Longrightarrow> call_finished (ps_calls s ! c)"
    and i: "i < length (ps_workers s)"
  shows "count_list (ps_queue s) i = 1" "worker_phase_of s i = WorkerWaiting"
proof -
  from worker_can_step [OF inv assms(2) i] stuck have idle: "inbox_of s i = None" "worker_phase_of s i = WorkerWaiting"
    by blast+
  have "tally (\<lambda>call. of_bool (call_holds (pc_phase call) = Some i) :: nat) (ps_calls s) = 0"
  proof (rule tally_zero)
    fix call assume "call \<in> set (ps_calls s)"
    then obtain c where "c < length (ps_calls s)" "call = ps_calls s ! c" by (auto simp: in_set_conv_nth)
    with none [of c] show "of_bool (call_holds (pc_phase call) = Some i) = (0::nat)"
      by (cases "call_phase_of s c") (auto simp: call_finished_iff simp del: call_finished.simps)
  qed
  moreover have "owner_count s i = 1" using inv_parts(3) [OF inv] assms(2) i by (simp add: inv_owner_def)
  ultimately show "count_list (ps_queue s) i = 1" using idle by (simp add: owner_count_def)
  show "worker_phase_of s i = WorkerWaiting" by (rule idle(2))
qed

lemma stuck_finished:
  assumes inv: "pool_inv libs cfg s" and "length (ps_workers s) > 0" and stuck: "\<nexists>s'. pool_step libs cfg s s'"
  shows "list_all call_finished (ps_calls s)"
proof (cases "ps_open s")
  case True
  have none: "call_finished (ps_calls s ! c)" if "c < length (ps_calls s)" "call_phase_of s c \<noteq> CallWaiting" for c
    using call_can_step [OF inv True that] stuck by blast
  have "count_list (ps_queue s) 0 = 1" by (rule no_step_counts(1) [OF inv True stuck none assms(2)])
  then obtain i q where q: "ps_queue s = i # q" by (cases "ps_queue s") auto
  have "call_phase_of s c \<noteq> CallWaiting" if "c < length (ps_calls s)" for c
    using pool_step.call [OF that claim [OF _ q]] stuck by blast
  with none show ?thesis by (simp add: list_all_length del: call_finished.simps)
next
  case False
  with inv_parts(2) [OF inv] show ?thesis by (simp add: inv_life_def list_all_length del: call_finished.simps)
qed

lemma stuck_at_rest:
  assumes inv: "pool_inv libs cfg s" and "length (ps_workers s) > 0" and stuck: "\<nexists>s'. pool_step libs cfg s s'"
    and "ps_open s"
  shows "mset (ps_queue s) = mset [0..<length (ps_workers s)]" "ps_available s = of_nat (length (ps_workers s))"
proof -
  have fin: "call_finished (ps_calls s ! c)" if "c < length (ps_calls s)" for c
    using stuck_finished [OF inv assms(2) stuck] that by (simp add: list_all_length del: call_finished.simps)
  note counts = no_step_counts [OF inv assms(4) stuck fin]
  have "set (ps_queue s) = set [0..<length (ps_workers s)]"
  proof
    show "set (ps_queue s) \<subseteq> set [0..<length (ps_workers s)]" using queue_distinct(2) [OF inv assms(4)] by auto
    show "set [0..<length (ps_workers s)] \<subseteq> set (ps_queue s)"
    proof
      fix i assume "i \<in> set [0..<length (ps_workers s)]"
      then have "count_list (ps_queue s) i \<noteq> 0" using counts(1) [of i] by simp
      then show "i \<in> set (ps_queue s)" unfolding count_list_0_iff by blast
    qed
  qed
  then show queue: "mset (ps_queue s) = mset [0..<length (ps_workers s)]"
    using queue_distinct(1) [OF inv assms(4)] set_eq_iff_mset_eq_distinct by (metis distinct_upt)
  have "tally (\<lambda>w. of_bool (worker_listed (wk_phase w)) :: u64) (ps_workers s) = 0"
  proof (rule tally_zero)
    fix w assume "w \<in> set (ps_workers s)"
    then obtain i where "i < length (ps_workers s)" "w = ps_workers s ! i" by (auto simp: in_set_conv_nth)
    with counts(2) [of i] show "of_bool (worker_listed (wk_phase w)) = (0::u64)" by simp
  qed
  moreover have "tally (\<lambda>call. of_bool (call_claimed (pc_phase call)) :: u64) (ps_calls s) = 0"
  proof (rule tally_zero)
    fix call assume "call \<in> set (ps_calls s)"
    then obtain c where "c < length (ps_calls s)" "call = ps_calls s ! c" by (auto simp: in_set_conv_nth)
    with fin [of c] show "of_bool (call_claimed (pc_phase call)) = (0::u64)"
      by (auto simp: call_finished_iff simp del: call_finished.simps)
  qed
  moreover have "length (ps_queue s) = length (ps_workers s)" using queue mset_eq_length by fastforce
  ultimately show "ps_available s = of_nat (length (ps_workers s))"
    using inv_parts(4) [OF inv] by (simp add: inv_count_def)
qed

section \<open>A run of a pool with one worker\<close>

text \<open>Two calls arrive; the dialling for the first is late.\<close>

definition late_attempt :: pool_attempt where
  "late_attempt = \<lparr>pa_dial = \<lparr>dl_tcp = None, dl_auth_late = True, dl_clock = Inr 0, dl_random = Inr []\<rparr>,
     pa_clock = Inr 0, pa_late = None\<rparr>"

definition late_error :: "pool_config \<Rightarrow> net_error" where
  "late_error cfg = (if pl_policy cfg = LoopbackOnly \<and> \<not> is_localhost (pl_address cfg)
     then TlsRequired (socket_display (pl_address cfg)) else Timeout (pl_timeout cfg))"

definition run_state :: "worker_phase \<Rightarrow> nat option \<Rightarrow> call_phase list \<Rightarrow> nat list \<Rightarrow> u64 \<Rightarrow> pool_state" where
  "run_state wph job phs q a =
     \<lparr>ps_workers = [\<lparr>wk_phase = wph, wk_inbox = job, wk_link = None\<rparr>],
      ps_calls = map (\<lambda>ph. \<lparr>pc_command = CmdStatus, pc_phase = ph\<rparr>) phs,
      ps_queue = q, ps_available = a, ps_created = 0, ps_open = True\<rparr>"

lemma run_state_fields [simp]:
  "ps_queue (run_state wph job phs q a) = q" "ps_available (run_state wph job phs q a) = a"
  "ps_open (run_state wph job phs q a)" "length (ps_workers (run_state wph job phs q a)) = 1"
  "length (ps_calls (run_state wph job phs q a)) = length phs"
  "worker_phase_of (run_state wph job phs q a) 0 = wph" "inbox_of (run_state wph job phs q a) 0 = job"
  "c < length phs \<Longrightarrow> call_phase_of (run_state wph job phs q a) c = phs ! c"
  "c < length phs \<Longrightarrow> pc_command (ps_calls (run_state wph job phs q a) ! c) = CmdStatus"
  by (simp_all add: run_state_def)

lemma run_state_changes [simp]:
  "set_phase c ph (run_state wph job phs q a) = run_state wph job (phs[c := ph]) q a" if "c < length phs"
  using that by (simp add: set_phase_def run_state_def map_update)

lemma run_state_changes' [simp]:
  "set_worker 0 wph' (run_state wph job phs q a) = run_state wph' job phs q a"
  "set_inbox 0 job' (run_state wph job phs q a) = run_state wph job' phs q a"
  "set_link 0 None (run_state wph job phs q a) = run_state wph job phs q a"
  "(run_state wph job phs q a)\<lparr>ps_queue := q'\<rparr> = run_state wph job phs q' a"
  "(run_state wph job phs q a)\<lparr>ps_available := a'\<rparr> = run_state wph job phs q a'"
  "(run_state wph job phs q a)\<lparr>ps_created := 0\<rparr> = run_state wph job phs q a"
  by (simp_all add: changes run_state_def)

lemma late_execution: "execute_with_reconnect libs cfg cmd late_attempt late_attempt (None, 0) = ((None, 0), Inl (late_error cfg))"
  by (cases "pl_policy cfg") (simp_all add: execute_with_reconnect_def execute_attempt_def connect_authenticated_def
      rndc_connect_def connect_insecure_def timed_def late_attempt_def late_error_def)

lemma run_arrive:
  "pool_reachable libs cfg 1 (run_state wph job phs q a) \<Longrightarrow> pool_reachable libs cfg 1 (run_state wph job (phs @ [CallWaiting]) q a)"
  using pool_reachable.outer [OF _ arrive [of "run_state wph job phs q a" CmdStatus], of libs cfg 1] by (simp add: run_state_def)

lemma run_call:
  "pool_reachable libs cfg 1 s \<Longrightarrow> c < length (ps_calls s) \<Longrightarrow> call_step c s t \<Longrightarrow> t = t' \<Longrightarrow> pool_reachable libs cfg 1 t'"
  using pool_reachable.inner pool_step.call by blast

lemma run_worker:
  "pool_reachable libs cfg 1 s \<Longrightarrow> 0 < length (ps_workers s) \<Longrightarrow> worker_step libs cfg 0 s t \<Longrightarrow> t = t' \<Longrightarrow> pool_reachable libs cfg 1 t'"
  using pool_reachable.inner pool_step.worker by blast

lemma run_listed:
  "pool_reachable libs cfg 1 (run_state (WorkerListed 0 (Inl (late_error cfg))) None [CallSent 0, CallWaiting] [0] 0)"
proof -
  let ?R = "\<lambda>wph job phs q a. pool_reachable libs cfg 1 (run_state wph job phs q a)"
  have "?R WorkerWaiting None [] [0] 1"
    by (rule pool_reachable.start [of None 1]) (simp_all add: pool_new_def pool_size_def run_state_def)
  then have "?R WorkerWaiting None [CallWaiting] [0] 1" using run_arrive by fastforce
  then have "?R WorkerWaiting None [CallWaiting, CallWaiting] [0] 1" using run_arrive by fastforce
  then have "?R WorkerWaiting None [CallClaimed 0, CallWaiting] [] 1"
    by (rule run_call [where c = 0, OF _ _ claim [where i = 0]]) simp_all
  then have "?R WorkerWaiting None [CallCounted 0, CallWaiting] [] 0"
    by (rule run_call [where c = 0, OF _ _ take_count [where i = 0]]) simp_all
  then have "?R WorkerWaiting (Some 0) [CallSent 0, CallWaiting] [] 0"
    by (rule run_call [where c = 0, OF _ _ send_job [where i = 0]]) simp_all
  then have "?R (WorkerBusy 0) None [CallSent 0, CallWaiting] [] 0"
    by (rule run_worker [OF _ _ take_job [where c = 0]]) simp_all
  then have "?R (WorkerExecuted 0 (Inl (late_error cfg))) None [CallSent 0, CallWaiting] [] 0"
    by (rule run_worker [OF _ _ execute [where c = 0 and ?a0.0 = late_attempt and ?a1.0 = late_attempt and conn = None and created = 0]])
      (simp_all add: run_state_def late_execution, simp add: changes)
  then show ?thesis by (rule run_worker [OF _ _ list_again [where c = 0]]) simp_all
qed

lemma run_answered:
  "pool_reachable libs cfg 1 (run_state WorkerWaiting None [CallDone (Inl (late_error cfg)), CallWaiting] [0] 1)"
proof -
  let ?R = "\<lambda>wph job phs q a. pool_reachable libs cfg 1 (run_state wph job phs q a)"
  from run_listed have "?R (WorkerCounted 0 (Inl (late_error cfg))) None [CallSent 0, CallWaiting] [0] 1"
    by (rule run_worker [OF _ _ give_count [where c = 0]]) simp_all
  then show ?thesis by (rule run_worker [OF _ _ answer [where c = 0]]) (simp_all add: respond_def)
qed

lemma run_overtaken:
  "pool_reachable libs cfg 1 (run_state (WorkerListed 0 (Inl (late_error cfg))) None [CallSent 0, CallCounted 0] [] (- 1))"
proof -
  let ?R = "\<lambda>wph job phs q a. pool_reachable libs cfg 1 (run_state wph job phs q a)"
  from run_listed have "?R (WorkerListed 0 (Inl (late_error cfg))) None [CallSent 0, CallClaimed 0] [] 0"
    by (rule run_call [where c = 1, OF _ _ claim [where i = 0]]) simp_all
  then show ?thesis by (rule run_call [where c = 1, OF _ _ take_count [where i = 0]]) simp_all
qed

section \<open>Histories\<close>

text \<open>The states a pool has gone through, the latest first.\<close>

inductive pool_history :: "rndc_libs \<Rightarrow> pool_config \<Rightarrow> nat \<Rightarrow> pool_state list \<Rightarrow> bool" for libs cfg n where
  begins: "pool_new None configured requested = Inr s \<Longrightarrow> n = pool_size configured requested
    \<Longrightarrow> pool_history libs cfg n [s]"
| moves: "pool_history libs cfg n (s # past) \<Longrightarrow> pool_step libs cfg s s' \<or> outer_step s s'
    \<Longrightarrow> pool_history libs cfg n (s' # s # past)"

lemma history_reachable: "pool_history libs cfg n (s # past) \<Longrightarrow> pool_reachable libs cfg n s"
proof (induction "s # past" arbitrary: s past rule: pool_history.induct)
  case (begins configured requested s)
  then show ?case by (rule pool_reachable.start)
next
  case (moves s past s')
  then show ?case using pool_reachable.inner pool_reachable.outer by blast
qed

lemma reachable_history: "pool_reachable libs cfg n s \<Longrightarrow> \<exists>past. pool_history libs cfg n (s # past)"
proof (induction rule: pool_reachable.induct)
  case (start configured requested s)
  then show ?case using begins by blast
qed (use moves in blast)+

lemma history_earlier: "pool_history libs cfg n (newer @ s # past) \<Longrightarrow> pool_history libs cfg n (s # past)"
proof (induction newer)
  case (Cons x newer)
  from Cons.prems have "pool_history libs cfg n (newer @ s # past)"
    by (cases rule: pool_history.cases) auto
  then show ?case by (rule Cons.IH)
qed simp

text \<open>
  The step from one state to the next in which worker \<open>i\<close> executes the command of call \<open>c\<close>: the two
  attempts meet the network and the clock as \<open>a0\<close> and \<open>a1\<close> say, start from the connection the
  worker has, and leave their connection, the counter and the result behind.
\<close>

definition execution ::
    "rndc_libs \<Rightarrow> pool_config \<Rightarrow> pool_attempt \<Rightarrow> pool_attempt \<Rightarrow> nat \<Rightarrow> nat \<Rightarrow> net_error + rndc_response
       \<Rightarrow> pool_state \<Rightarrow> pool_state \<Rightarrow> bool" where
  "execution libs cfg a0 a1 i c result s s' \<longleftrightarrow>
     i < length (ps_workers s) \<and> worker_phase_of s i = WorkerBusy c
     \<and> worker_phase_of s' i = WorkerExecuted c result
     \<and> execute_with_reconnect libs cfg (pc_command (ps_calls s ! c)) a0 a1 (wk_link (ps_workers s ! i), ps_created s)
       = ((wk_link (ps_workers s' ! i), ps_created s'), result)"

text \<open>A result a call has, or will get from its worker.\<close>

definition has_result :: "pool_state \<Rightarrow> nat \<Rightarrow> net_error + rndc_response \<Rightarrow> bool" where
  "has_result s c r \<longleftrightarrow> c < length (ps_calls s)
     \<and> (call_phase_of s c = CallDone r
        \<or> (\<exists>i < length (ps_workers s). worker_result (worker_phase_of s i) = Some (c, r)))"

lemma worker_origin:
  assumes inv: "pool_inv libs cfg s"
    and "worker_step libs cfg i s s'" "i < length (ps_workers s)" "has_result s' c r"
  shows "has_result s c r \<or> (\<exists>a0 a1. execution libs cfg a0 a1 i c r s s')"
  using assms(2)
proof cases
  case (execute k a0 a1 conn created result)
  with assms(3,4) show ?thesis
    by (cases "k = c \<and> result = r") (auto simp: has_result_def execution_def changes nth_list_update split: if_splits)
next
  case (answer k result)
  note job = inv_index_parts(4) [OF inv, of i k]
  from answer assms(3,4) job show ?thesis
    by (auto simp: has_result_def respond_phase split: if_splits)
qed (use assms(3,4) worker_stopped_only [OF inv] in \<open>auto simp: has_result_def split: if_splits\<close>)

lemma result_origin:
  assumes inv: "pool_inv libs cfg s" and "pool_step libs cfg s s' \<or> outer_step s s'" "has_result s' c r"
  shows "has_result s c r \<or> (\<exists>i a0 a1. execution libs cfg a0 a1 i c r s s')"
  using assms(2)
proof
  assume "pool_step libs cfg s s'"
  then show ?thesis
  proof cases
    case (call k)
    from call(2,1) inv_parts(1,2) [OF inv] have "has_result s c r"
    proof (cases rule: call_step_live)
      case (claim i q)
      with assms(3) call(1) show ?thesis by (auto simp: has_result_def split: if_splits)
    next
      case (take_count i)
      with assms(3) call(1) show ?thesis by (auto simp: has_result_def split: if_splits)
    next
      case (send_job i)
      with assms(3) call(1) show ?thesis by (auto simp: has_result_def split: if_splits)
    qed
    then show ?thesis ..
  next
    case (worker i)
    with worker_origin [OF inv worker(2,1) assms(3)] show ?thesis by blast
  qed
next
  assume "outer_step s s'"
  then have "has_result s c r"
  proof cases
    case (arrive cmd)
    have "k < length (ps_calls s)" if "i < length (ps_workers s)" "worker_result (worker_phase_of s i) = Some (k, q)" for i k q
      using that inv_index_parts(4) [OF inv, of i k] by (cases "worker_phase_of s i") auto
    with arrive assms(3) show ?thesis
      by (auto simp: has_result_def nth_append split: if_splits)
  qed (use assms(3) in \<open>auto simp: has_result_def split: if_splits\<close>)
  then show ?thesis ..
qed

lemma step_keeps_command:
  assumes "pool_step libs cfg s s' \<or> outer_step s s'" "c < length (ps_calls s)"
  shows "c < length (ps_calls s') \<and> pc_command (ps_calls s' ! c) = pc_command (ps_calls s ! c)"
  using assms
  by (auto elim!: pool_step.cases outer_step.cases call_step.cases worker_step.cases simp: respond_def nth_append)

text \<open>Every result of a history comes from an execution in it, of the command of its call.\<close>

lemma history_result:
  assumes "pool_history libs cfg n (s # past)" "has_result s c r"
  shows "\<exists>newer after before older i a0 a1. s # past = newer @ after # before # older
    \<and> execution libs cfg a0 a1 i c r before after \<and> pc_command (ps_calls before ! c) = pc_command (ps_calls s ! c)"
  using assms
proof (induction "s # past" arbitrary: s past rule: pool_history.induct)
  case (begins configured requested s)
  then show ?case by (auto simp: has_result_def pool_new_def Let_def)
next
  case (moves s past s')
  have inv: "pool_inv libs cfg s" using reachable_inv history_reachable [OF moves(1)] by blast
  have known: "c < length (ps_calls s)" if "has_result s c r \<or> (\<exists>i a0 a1. execution libs cfg a0 a1 i c r s s')"
    using that
  proof (elim disjE exE)
    fix i a0 a1
    assume "execution libs cfg a0 a1 i c r s s'"
    then show ?thesis using inv_index_parts(4) [OF inv, of i c] by (simp add: execution_def)
  qed (simp add: has_result_def)
  from result_origin [OF inv moves(3,4)] show ?case
  proof
    assume old: "has_result s c r"
    from moves(2) [OF old] obtain newer after before older i a0 a1 where
      "s # past = newer @ after # before # older" "execution libs cfg a0 a1 i c r before after"
      "pc_command (ps_calls before ! c) = pc_command (ps_calls s ! c)" by blast
    with step_keeps_command [OF moves(3)] known old show ?thesis
      by (intro exI [of _ "s' # newer"]) auto
  next
    assume "\<exists>i a0 a1. execution libs cfg a0 a1 i c r s s'"
    with step_keeps_command [OF moves(3)] known show ?thesis
      by (intro exI [of _ "[]"]) auto
  qed
qed

section \<open>Properties\<close>

text \<open>
  C27: In every state of a pool that is in use, each worker is in exactly one place: free in the
  queue, held by one call, sent a job, or at work; no worker is lost or given to two calls, however
  calls, workers, time-outs and cancelled callers interleave. The number the pool reports is the
  length of the queue up to the calls that took a worker and have not counted it and the workers
  that are back and have not counted themselves.
\<close>

theorem pool_workers_owned_once:
  assumes "pool_reachable libs cfg n s"
  shows "length (ps_workers s) = n
    \<and> (ps_open s \<longrightarrow> (\<forall>i < n. owner_count s i = 1))
    \<and> ps_available s + tally (\<lambda>w. of_bool (worker_listed (wk_phase w))) (ps_workers s)
        = of_nat (length (ps_queue s)) + tally (\<lambda>call. of_bool (call_claimed (pc_phase call))) (ps_calls s)"
  using reachable_inv [OF assms] by (simp add: pool_inv_def inv_owner_def inv_count_def)

text \<open>
  C28: A call of the pool that returns gets the result of executing its own command: in the history
  of the pool there is a step in which a worker, busy with this call, executed the command of the
  call on the connection it had, or on one it then opened, and the call returns exactly what that
  execution gave, whether a response or an error. A response was read from the octets of that
  connection: they go on with a frame signed under the key of the pool that answers this command
  with the next serial and the nonce of the session, and a connection opened on the way was
  opened by a signed answer too. So no call gets the answer of another one, and none fails because
  the queue is closed, its worker stopped or its answer was dropped.
\<close>

theorem pool_call_gets_own_answer:
  assumes "pool_history libs cfg n (s # past)" "c < length (ps_calls s)" "call_phase_of s c = CallDone result"
  shows "\<exists>newer after before older i a0 a1. s # past = newer @ after # before # older
    \<and> execution libs cfg a0 a1 i c result before after
    \<and> pc_command (ps_calls before ! c) = pc_command (ps_calls s ! c)
    \<and> (\<forall>response. result = Inr response \<longrightarrow>
        answered libs cfg (pc_command (ps_calls s ! c)) a0
          (wk_link (ps_workers before ! i)) (wk_link (ps_workers after ! i)) response
        \<or> answered libs cfg (pc_command (ps_calls s ! c)) a1 None (wk_link (ps_workers after ! i)) response)"
proof -
  have "has_result s c result" using assms(2,3) by (simp add: has_result_def)
  from history_result [OF assms(1) this] obtain newer after before older i a0 a1 where
    h: "s # past = newer @ after # before # older" and run: "execution libs cfg a0 a1 i c result before after"
    and cmd: "pc_command (ps_calls before ! c) = pc_command (ps_calls s ! c)" by blast
  have "pool_history libs cfg n (before # older)"
    using history_earlier [of libs cfg n "newer @ [after]" before older] assms(1) h by simp
  then have "pool_inv libs cfg before" using history_reachable reachable_inv by blast
  then have "link_ok cfg (wk_link (ps_workers before ! i))"
    using run by (auto simp: execution_def dest: inv_results_parts(1))
  then have "\<forall>response. result = Inr response \<longrightarrow>
        answered libs cfg (pc_command (ps_calls s ! c)) a0
          (wk_link (ps_workers before ! i)) (wk_link (ps_workers after ! i)) response
        \<or> answered libs cfg (pc_command (ps_calls s ! c)) a1 None (wk_link (ps_workers after ! i)) response"
    using run execute_with_reconnect_facts(3) unfolding execution_def cmd by blast
  with h run cmd show ?thesis by blast
qed

text \<open>
  C30: A pool that may only use the loopback interface and is configured with another address never
  holds a connection, and every call fails with the demand for TLS.
\<close>

theorem pool_refuses_remote:
  assumes "pool_reachable libs cfg n s" "pl_policy cfg = LoopbackOnly" "\<not> is_localhost (pl_address cfg)"
  shows "(\<forall>i < n. wk_link (ps_workers s ! i) = None)
    \<and> (\<forall>c < length (ps_calls s). \<forall>result. call_phase_of s c = CallDone result
         \<longrightarrow> result = Inl (TlsRequired (socket_display (pl_address cfg))))"
proof -
  from reachable_inv [OF assms(1)] have inv: "pool_inv libs cfg s" and n: "length (ps_workers s) = n" by blast+
  have "result = Inl (TlsRequired (socket_display (pl_address cfg)))"
    if "c < length (ps_calls s)" "call_phase_of s c = CallDone result" for c result
    using inv_results_parts(3) [OF inv that(2,1)] remote_execution(2) [OF assms(2,3)] unfolding executed_def by fastforce
  then show ?thesis using inv_results_parts(1) [OF inv] remote_execution(1) [OF assms(2,3)] n by blast
qed

text \<open>
  C29: Without new calls the pool takes at most \<open>pool_work\<close> steps, whatever the order, and when it can
  take no more every call has returned or was cancelled; then all workers are free and the pool
  reports that many.
\<close>

theorem pool_comes_to_rest:
  assumes "pool_reachable libs cfg n s" "(pool_step libs cfg ^^ k) s s'"
  shows "k \<le> pool_work s
    \<and> ((\<nexists>t. pool_step libs cfg s' t) \<longrightarrow> list_all call_finished (ps_calls s')
        \<and> (ps_open s' \<longrightarrow> mset (ps_queue s') = mset [0..<n] \<and> ps_available s' = of_nat n))"
proof -
  from reachable_inv [OF assms(1)] have inv: "pool_inv libs cfg s" "length (ps_workers s) = n" "n > 0" by blast+
  note steps = pool_steps_bounded [OF assms(2) inv(1)]
  from steps have inv': "pool_inv libs cfg s'" and len: "length (ps_workers s') = n" using inv(2) by simp_all
  show ?thesis
    using steps(1) stuck_finished [OF inv'] stuck_at_rest [OF inv'] inv(3) unfolding len by simp
qed

text \<open>
  The number of free workers a pool reports can wrap around: a worker makes itself free before it
  counts itself, so a call may take it and count down first. A pool of one worker then reports
  \<open>2 ^ 64 - 1\<close> free workers.
\<close>

lemma pool_available_wraps:
  "\<exists>s. pool_reachable libs cfg 1 s \<and> length (ps_workers s) = 1 \<and> ps_available s = 18446744073709551615"
  using run_overtaken [of libs cfg] by (intro exI conjI) (assumption, simp_all)

section \<open>The properties at concrete pools\<close>

theorem pool_workers_owned_once_witness:
  "\<forall>libs cfg. owner_count (run_state (WorkerListed 0 (Inl (late_error cfg))) None [CallSent 0, CallCounted 0] [] (- 1)) 0 = 1"
  using pool_workers_owned_once [OF run_overtaken] by simp

theorem pool_call_gets_own_answer_witness:
  "\<forall>libs cfg. \<exists>before after i a0 a1. execution libs cfg a0 a1 i 0 (Inl (late_error cfg)) before after
     \<and> pc_command (ps_calls before ! 0) = CmdStatus"
proof (intro allI)
  fix libs cfg
  obtain past where "pool_history libs cfg 1
      (run_state WorkerWaiting None [CallDone (Inl (late_error cfg)), CallWaiting] [0] 1 # past)"
    using reachable_history [OF run_answered] by blast
  from pool_call_gets_own_answer [OF this, of 0 "Inl (late_error cfg)"]
  obtain before after i a0 a1 where "execution libs cfg a0 a1 i 0 (Inl (late_error cfg)) before after"
    "pc_command (ps_calls before ! 0) = CmdStatus"
    by (auto simp: run_state_def)
  then show "\<exists>before after i a0 a1. execution libs cfg a0 a1 i 0 (Inl (late_error cfg)) before after
     \<and> pc_command (ps_calls before ! 0) = CmdStatus" by blast
qed

theorem pool_refuses_remote_witness:
  "\<forall>libs key limit. wk_link (ps_workers (run_state WorkerWaiting None
     [CallDone (Inl (TlsRequired ''0.0.0.1:953'')), CallWaiting] [0] 1) ! 0) = None"
proof (intro allI)
  fix libs :: rndc_libs and key limit
  define cfg where "cfg = \<lparr>pl_address = SocketV4 1 953, pl_key = key, pl_timeout = limit, pl_policy = LoopbackOnly\<rparr>"
  have "socket_display (SocketV4 1 953) = ''0.0.0.1:953''" by code_simp
  moreover have remote: "\<not> is_localhost (SocketV4 1 953)" by code_simp
  ultimately have e: "late_error cfg = TlsRequired ''0.0.0.1:953''" by (simp add: late_error_def cfg_def)
  from remote pool_refuses_remote [OF run_answered [of libs cfg]]
  show "wk_link (ps_workers (run_state WorkerWaiting None
     [CallDone (Inl (TlsRequired ''0.0.0.1:953'')), CallWaiting] [0] 1) ! 0) = None"
    by (simp add: e) (simp add: cfg_def)
qed

theorem pool_comes_to_rest_witness:
  "\<forall>libs cfg. mset (ps_queue (run_state WorkerWaiting None [CallDone (Inl (late_error cfg)), CallDropped] [0] 1)) = mset [0..<1]"
proof (intro allI)
  fix libs cfg
  let ?s = "run_state WorkerWaiting None [CallDone (Inl (late_error cfg)), CallDropped] [0] 1"
  have "\<not> call_step c ?s t" if "c < 2" for c t
    using that by (cases c) (auto elim!: call_step.cases)
  then have stuck: "\<nexists>t. pool_step libs cfg ?s t"
    by (auto elim!: pool_step.cases worker_step.cases)
  have "pool_reachable libs cfg 1 ?s"
    using pool_reachable.outer [OF run_answered abandon [where c = 1]] by simp
  with pool_comes_to_rest [of libs cfg 1 ?s 0 ?s] stuck show "mset (ps_queue ?s) = mset [0..<1]" by simp
qed

end
