(* ===== verification/Server_Stats.thy ===== *)
theory Server_Stats
  imports Net_Errors Rr_Types Ordered_Map Text_Util Ip_Text "HOL-Library.Product_Lexorder"
begin

text \<open>
  Statistics: the typed values (\<open>traits.rs\<close>), their construction from the JSON of the statistics
  channel (\<open>stats.rs\<close>) and the Prometheus text (\<open>prometheus.rs\<close>). The HTTP client, the JSON
  deserialiser and the URL parser are libraries: what they answer is input.
\<close>

section \<open>Counters\<close>

record named_counter =
  nc_name :: string
  nc_value :: u64

type_synonym counter_set = "named_counter list"

text \<open>\<open>CounterSet::new\<close> sorts by name; the sort is stable.\<close>

definition counter_set_new :: "named_counter list \<Rightarrow> counter_set" where
  "counter_set_new counters = sort_key nc_name counters"

text \<open>\<open>binary_search_by\<close>; which of several equal names it finds is not specified by the library.\<close>

function counter_search :: "counter_set \<Rightarrow> string \<Rightarrow> nat \<Rightarrow> nat \<Rightarrow> nat option" where
  "counter_search cs k lo hi =
     (if lo \<ge> hi then None
      else let mid = lo + (hi - lo) div 2 in
        if nc_name (cs ! mid) = k then Some mid
        else if nc_name (cs ! mid) < k then counter_search cs k (mid + 1) hi
        else counter_search cs k lo mid)"
  by pat_completeness auto
termination by (relation "measure (\<lambda>(cs, k, lo, hi). hi - lo)") auto

declare counter_search.simps [simp del]

definition counter_get :: "counter_set \<Rightarrow> string \<Rightarrow> u64 option" where
  "counter_get cs k = map_option (\<lambda>i. nc_value (cs ! i)) (counter_search cs k 0 (length cs))"

definition counter_set_of :: "(string, u64) btree \<Rightarrow> counter_set" where
  "counter_set_of counters = counter_set_new (map (\<lambda>(n, v). \<lparr>nc_name = n, nc_value = v\<rparr>) counters)"

section \<open>Statistics\<close>

record view_stats =
  vs_name :: string
  vs_resolver_stats :: counter_set
  vs_query_types :: counter_set
  vs_cache :: counter_set
  vs_cache_stats :: counter_set
  vs_adb :: counter_set

record memory_context_stats =
  mc_id :: string
  mc_name :: string
  mc_references :: u64
  mc_malloced :: u64
  mc_in_use :: u64
  mc_pools :: u64
  mc_high_water :: u64
  mc_low_water :: u64

record memory_stats =
  ms_in_use :: u64
  ms_malloced :: u64
  ms_contexts :: "memory_context_stats list"

record traffic_histogram =
  th_name :: string
  th_buckets :: counter_set

record server_stats =
  sv_json_stats_version :: "string option"
  sv_boot_time :: "string option"
  sv_config_time :: "string option"
  sv_current_time :: "string option"
  sv_version :: "string option"
  sv_opcodes :: counter_set
  sv_rcodes :: counter_set
  sv_views :: "view_stats list"
  sv_socket :: counter_set
  sv_memory :: "memory_stats option"
  sv_traffic :: "traffic_histogram list"

text \<open>
  A rate is a difference over a time in nanoseconds; the division, which rounds, is left to the
  caller.
\<close>

definition counter_rate :: "u64 option \<Rightarrow> u64 option \<Rightarrow> nat \<Rightarrow> (u64 \<times> nat) option" where
  "counter_rate current previous elapsed =
     (if elapsed = 0 then None
      else Option.bind current (\<lambda>c. Option.bind previous (\<lambda>p.
        if p \<le> c then Some (c - p, elapsed) else None)))"

record server_stats_rates =
  sr_queries_per_second :: "(u64 \<times> nat) option"
  sr_servfail_per_second :: "(u64 \<times> nat) option"

definition rates_since :: "server_stats \<Rightarrow> server_stats \<Rightarrow> nat \<Rightarrow> server_stats_rates" where
  "rates_since s previous elapsed =
     \<lparr>sr_queries_per_second =
        counter_rate (counter_get (sv_opcodes s) ''QUERY'') (counter_get (sv_opcodes previous) ''QUERY'') elapsed,
      sr_servfail_per_second =
        counter_rate (counter_get (sv_rcodes s) ''SERVFAIL'') (counter_get (sv_rcodes previous) ''SERVFAIL'') elapsed\<rparr>"

section \<open>The answers of the statistics channel\<close>

record raw_resolver_stats =
  rr_stats :: "(string, u64) btree"
  rr_qtypes :: "(string, u64) btree"
  rr_cache :: "(string, u64) btree"
  rr_cachestats :: "(string, u64) btree"
  rr_adb :: "(string, u64) btree"

record raw_zone_entry =
  rz_name :: string
  rz_class :: "string option"
  rz_serial :: "u32 option"
  rz_type :: "string option"
  rz_loaded :: "string option"

record raw_view =
  rv_resolver :: "raw_resolver_stats option"
  rv_zones :: "raw_zone_entry list"

record raw_memory_context_stats =
  rc_id :: string
  rc_name :: string
  rc_references :: u64
  rc_malloced :: u64
  rc_in_use :: u64
  rc_pools :: u64
  rc_hiwater :: u64
  rc_lowater :: u64

record raw_memory_stats =
  rm_in_use :: u64
  rm_malloced :: u64
  rm_contexts :: "raw_memory_context_stats list"

record raw_server_stats =
  rs_json_stats_version :: "string option"
  rs_boot_time :: "string option"
  rs_config_time :: "string option"
  rs_current_time :: "string option"
  rs_version :: "string option"
  rs_opcodes :: "(string, u64) btree"
  rs_rcodes :: "(string, u64) btree"
  rs_views :: "(string, raw_view) btree"
  rs_sockstats :: "(string, u64) btree"
  rs_memory :: "raw_memory_stats option"
  rs_traffic :: "(string, (string, u64) btree) btree"

definition view_stats_of :: "string \<Rightarrow> raw_resolver_stats \<Rightarrow> view_stats" where
  "view_stats_of name resolver =
     \<lparr>vs_name = name, vs_resolver_stats = counter_set_of (rr_stats resolver),
      vs_query_types = counter_set_of (rr_qtypes resolver), vs_cache = counter_set_of (rr_cache resolver),
      vs_cache_stats = counter_set_of (rr_cachestats resolver), vs_adb = counter_set_of (rr_adb resolver)\<rparr>"

definition memory_context_of :: "raw_memory_context_stats \<Rightarrow> memory_context_stats" where
  "memory_context_of c =
     \<lparr>mc_id = rc_id c, mc_name = rc_name c, mc_references = rc_references c, mc_malloced = rc_malloced c,
      mc_in_use = rc_in_use c, mc_pools = rc_pools c, mc_high_water = rc_hiwater c, mc_low_water = rc_lowater c\<rparr>"

definition memory_of :: "raw_memory_stats \<Rightarrow> memory_stats" where
  "memory_of m =
     \<lparr>ms_in_use = rm_in_use m, ms_malloced = rm_malloced m, ms_contexts = map memory_context_of (rm_contexts m)\<rparr>"

definition server_stats_of :: "raw_server_stats \<Rightarrow> server_stats" where
  "server_stats_of raw =
     \<lparr>sv_json_stats_version = rs_json_stats_version raw, sv_boot_time = rs_boot_time raw,
      sv_config_time = rs_config_time raw, sv_current_time = rs_current_time raw, sv_version = rs_version raw,
      sv_opcodes = counter_set_of (rs_opcodes raw), sv_rcodes = counter_set_of (rs_rcodes raw),
      sv_views = List.map_filter (\<lambda>(name, view). map_option (view_stats_of name) (rv_resolver view)) (rs_views raw),
      sv_socket = counter_set_of (rs_sockstats raw),
      sv_memory = map_option memory_of (rs_memory raw),
      sv_traffic = map (\<lambda>(name, buckets). \<lparr>th_name = name, th_buckets = counter_set_of buckets\<rparr>) (rs_traffic raw)\<rparr>"

section \<open>Zones\<close>

record zone_stats =
  zs_view :: string
  zs_name :: domain_name
  zs_class :: record_class
  zs_serial :: serial
  zs_record_count :: "u32 option"
  zs_type :: string
  zs_loaded :: "string option"

definition zone_class_of :: "string option \<Rightarrow> record_class" where
  "zone_class_of c =
     (case c of
        None \<Rightarrow> IN
      | Some t \<Rightarrow>
          if t = ''IN'' then IN else if t = ''CH'' then CH else if t = ''HS'' then HS
          else (case Option.bind (strip_prefix ''CLASS'' t) parse_u16 of Some n \<Rightarrow> UnknownClass n | None \<Rightarrow> IN))"

definition zone_stats_from_raw :: "string \<Rightarrow> raw_zone_entry \<Rightarrow> net_error + zone_stats" where
  "zone_stats_from_raw view raw =
     (let name_str = (if rz_name raw \<noteq> [] \<and> last (rz_name raw) = dot then rz_name raw else rz_name raw @ [dot])
      in rmap (\<lambda>name. \<lparr>zs_view = view, zs_name = name, zs_class = zone_class_of (rz_class raw),
             zs_serial = Serial (case rz_serial raw of Some s \<Rightarrow> s | None \<Rightarrow> 0), zs_record_count = None,
             zs_type = (case rz_type raw of Some t \<Rightarrow> t | None \<Rightarrow> ''unknown''), zs_loaded = rz_loaded raw\<rparr>)
           (map_err (\<lambda>e. Protocol (''invalid zone name in stats: '' @ core_error_display e)) (domain_new name_str)))"

definition parse_zones_response :: "(string, raw_view) btree \<Rightarrow> net_error + zone_stats list" where
  "parse_zones_response views =
     rmap (sort_key (\<lambda>z. (name_display (zs_name z), zs_view z)))
       (rmap_list (\<lambda>(view, raw). zone_stats_from_raw view raw)
          (concat (map (\<lambda>(name, view). map (Pair name) (rv_zones view)) views)))"

text \<open>\<open>trim_end_matches('.')\<close>.\<close>

definition trim_end_dots :: "string \<Rightarrow> string" where
  "trim_end_dots s = rev (dropWhile (\<lambda>c. c = dot) (rev s))"

definition select_zone_stats :: "zone_stats list \<Rightarrow> domain_name \<Rightarrow> string option \<Rightarrow> net_error + zone_stats" where
  "select_zone_stats zones zone view =
     (case filter (\<lambda>z. name_eq (zs_name z) zone \<and> (case view of None \<Rightarrow> True | Some v \<Rightarrow> zs_view z = v)) zones of
        [] \<Rightarrow> Inl (Protocol (''zone `'' @ trim_end_dots (name_display zone) @ ''` not found''
                @ (case view of Some v \<Rightarrow> '' in view `'' @ v @ ''`'' | None \<Rightarrow> [])
                @ '' in statistics-channel response''))
      | [z] \<Rightarrow> Inr z
      | _ \<Rightarrow> Inl (Protocol (''zone `'' @ trim_end_dots (name_display zone)
                @ ''` exists in multiple views; select a view explicitly'')))"

section \<open>The client\<close>

definition strip_suffix :: "string \<Rightarrow> string \<Rightarrow> string option" where
  "strip_suffix p s = map_option rev (strip_prefix (rev p) (rev s))"

definition zones_endpoint :: "string \<Rightarrow> string" where
  "zones_endpoint url =
     (if strip_suffix ''/zones'' url \<noteq> None then url
      else case strip_suffix ''/server'' url of Some base \<Rightarrow> base @ ''/zones'' | None \<Rightarrow> url @ ''/zones'')"

text \<open>What the code asks of a parsed URL.\<close>

record parsed_url =
  pu_scheme :: string
  pu_host :: "string option"
  pu_text :: string

definition loopback_ip :: "string \<Rightarrow> bool" where
  "loopback_ip host \<longleftrightarrow>
     (case parse_ipv4 host of Some ip \<Rightarrow> ipv4_octets ip ! 0 = 127
      | None \<Rightarrow> (case parse_ipv6 host of Some ip \<Rightarrow> ip = 1 | None \<Rightarrow> False))"

definition loopback_host :: "string \<Rightarrow> bool" where
  "loopback_host h \<longleftrightarrow>
     (let host = (case Option.bind (strip_prefix ''['' h) (strip_suffix '']'') of Some x \<Rightarrow> x | None \<Rightarrow> h)
      in same_text host ''localhost'' \<or> same_text host ''localhost.'' \<or> loopback_ip host)"

definition validate_stats_url :: "(string \<Rightarrow> string + parsed_url) \<Rightarrow> string \<Rightarrow> net_error + parsed_url" where
  "validate_stats_url url_parse url =
     (if url = [] then Inl (Connection ''stats URL is empty'')
      else rbind (map_err (\<lambda>e. Connection (''invalid stats URL: '' @ e))
                    (url_parse (case strip_suffix ''/'' url of Some u \<Rightarrow> u | None \<Rightarrow> url))) (\<lambda>parsed.
        if pu_scheme parsed \<noteq> ''http'' \<and> pu_scheme parsed \<noteq> ''https'' then
          Inl (Connection (''unsupported stats URL scheme `'' @ pu_scheme parsed @ ''`''))
        else if pu_scheme parsed = ''http'' \<and> \<not> (case pu_host parsed of Some h \<Rightarrow> loopback_host h | None \<Rightarrow> False) then
          Inl (TlsRequired (pu_text parsed))
        else Inr parsed))"

record stats_http_client =
  sc_url :: string

text \<open>\<open>StatsHttpClient::new\<close> and \<open>with_tls\<close>; the last argument is the result of building the HTTP client.\<close>

definition stats_client_new ::
    "(string \<Rightarrow> string + parsed_url) \<Rightarrow> string \<Rightarrow> string + unit \<Rightarrow> net_error + stats_http_client" where
  "stats_client_new url_parse url build =
     rbind (validate_stats_url url_parse url) (\<lambda>parsed.
       rmap (\<lambda>_. \<lparr>sc_url = pu_text parsed\<rparr>) (map_err (\<lambda>e. Connection (''failed to build HTTP client: '' @ e)) build))"

definition stats_client_with_auth ::
    "(string \<Rightarrow> string + parsed_url) \<Rightarrow> string \<Rightarrow> string + unit \<Rightarrow> string + unit \<Rightarrow> net_error + stats_http_client" where
  "stats_client_with_auth url_parse url header build =
     rbind (validate_stats_url url_parse url) (\<lambda>parsed.
       rbind (map_err (\<lambda>e. Connection (''invalid auth header: '' @ e)) header) (\<lambda>_.
         rmap (\<lambda>_. \<lparr>sc_url = pu_text parsed\<rparr>) (map_err (\<lambda>e. Connection (''failed to build HTTP client: '' @ e)) build)))"

text \<open>The outcome of a GET: no answer, or a status with the text and the JSON of the body.\<close>

datatype 'a http_outcome =
    HttpFails string
  | HttpAnswered u16 "string option" "string + 'a"

definition http_json :: "string \<Rightarrow> 'a http_outcome \<Rightarrow> net_error + 'a" where
  "http_json what outcome =
     (case outcome of
        HttpFails e \<Rightarrow> Inl (Connection (''stats HTTP request failed: '' @ e))
      | HttpAnswered status body json \<Rightarrow>
          if \<not> (200 \<le> status \<and> status < 300) then Inl (Http status (case body of Some b \<Rightarrow> b | None \<Rightarrow> []))
          else map_err (\<lambda>e. Protocol (what @ e)) json)"

definition fetch_server_stats :: "(string \<Rightarrow> raw_server_stats http_outcome) \<Rightarrow> stats_http_client \<Rightarrow> net_error + server_stats" where
  "fetch_server_stats get client =
     rmap server_stats_of (http_json ''failed to parse stats JSON: '' (get (sc_url client)))"

definition fetch_zones :: "(string \<Rightarrow> (string, raw_view) btree http_outcome) \<Rightarrow> stats_http_client \<Rightarrow> net_error + zone_stats list" where
  "fetch_zones get client =
     rbind (http_json ''failed to parse zones JSON: '' (get (zones_endpoint (sc_url client)))) parse_zones_response"

definition fetch_zone_stats ::
    "(string \<Rightarrow> (string, raw_view) btree http_outcome) \<Rightarrow> stats_http_client \<Rightarrow> domain_name \<Rightarrow> net_error + zone_stats" where
  "fetch_zone_stats get client zone = rbind (fetch_zones get client) (\<lambda>zones. select_zone_stats zones zone None)"

definition fetch_zone_stats_in_view ::
    "(string \<Rightarrow> (string, raw_view) btree http_outcome) \<Rightarrow> stats_http_client \<Rightarrow> string \<Rightarrow> domain_name \<Rightarrow> net_error + zone_stats" where
  "fetch_zone_stats_in_view get client view zone =
     rbind (fetch_zones get client) (\<lambda>zones. select_zone_stats zones zone (Some view))"

section \<open>Prometheus text\<close>

abbreviation quote :: char where "quote \<equiv> CHR 0x22"

definition escape_char :: "char \<Rightarrow> string" where
  "escape_char c =
     (if c = backslash then [backslash, backslash] else if c = quote then [backslash, quote]
      else if c = CHR 0x0A then [backslash, CHR ''n''] else [c])"

definition escape_label :: "string \<Rightarrow> string" where
  "escape_label v = concat (map escape_char v)"

definition render_counter :: "string \<Rightarrow> string \<Rightarrow> named_counter \<Rightarrow> string" where
  "render_counter metric label c =
     metric @ ''{'' @ label @ ''='' @ [quote] @ escape_label (nc_name c) @ [quote] @ ''} ''
       @ show_nat (unat (nc_value c)) @ newline"

definition render_counter_set :: "string \<Rightarrow> string \<Rightarrow> string \<Rightarrow> counter_set \<Rightarrow> string" where
  "render_counter_set metric help label counters =
     (if counters = [] then []
      else ''# HELP '' @ metric @ '' '' @ help @ newline @ ''# TYPE '' @ metric @ '' counter'' @ newline
        @ concat (map (render_counter metric label) counters))"

definition render_memory :: "memory_stats \<Rightarrow> string" where
  "render_memory m =
     ''# HELP bind_memory_in_use_bytes Memory currently in use.'' @ newline
     @ ''# TYPE bind_memory_in_use_bytes gauge'' @ newline
     @ ''bind_memory_in_use_bytes '' @ show_nat (unat (ms_in_use m)) @ newline
     @ ''# HELP bind_memory_malloced_bytes Total memory allocated.'' @ newline
     @ ''# TYPE bind_memory_malloced_bytes gauge'' @ newline
     @ ''bind_memory_malloced_bytes '' @ show_nat (unat (ms_malloced m)) @ newline"

definition server_stats_to_prometheus :: "server_stats \<Rightarrow> string" where
  "server_stats_to_prometheus s =
     render_counter_set ''bind_incoming_queries_total'' ''Incoming requests by DNS opcode.'' ''opcode'' (sv_opcodes s)
     @ render_counter_set ''bind_responses_total'' ''Responses by DNS RCODE.'' ''rcode'' (sv_rcodes s)
     @ render_counter_set ''bind_socket_total'' ''Socket I/O counters.'' ''operation'' (sv_socket s)
     @ (case sv_memory s of Some m \<Rightarrow> render_memory m | None \<Rightarrow> [])"

section \<open>Looking up a counter\<close>

lemma counter_search_found:
  "counter_search cs k lo hi = Some i \<Longrightarrow> hi \<le> length cs \<Longrightarrow> i < length cs \<and> nc_name (cs ! i) = k"
proof (induction cs k lo hi rule: counter_search.induct)
  case (1 cs k lo hi)
  show ?case
  proof (cases "lo < hi")
    case True
    define mid where "mid = lo + (hi - lo) div 2"
    have mid: "mid < length cs" "mid + 1 \<le> hi \<or> mid \<le> hi" using True 1(4) by (auto simp: mid_def)
    from 1(3) True have step: "(if nc_name (cs ! mid) = k then Some mid
        else if nc_name (cs ! mid) < k then counter_search cs k (mid + 1) hi else counter_search cs k lo mid) = Some i"
      using counter_search.simps [of cs k lo hi] unfolding mid_def by (simp add: Let_def split del: if_split)
    from 1(1) [OF _ mid_def] 1(2) [OF _ mid_def] step True 1(4) mid(1) show ?thesis by (auto split: if_splits)
  qed (use 1(3) in \<open>simp add: counter_search.simps [of cs k lo hi]\<close>)
qed

lemma counter_search_finds:
  assumes "sorted (map nc_name cs)" "j < length cs" "nc_name (cs ! j) = k"
  shows "lo \<le> j \<Longrightarrow> j < hi \<Longrightarrow> hi \<le> length cs \<Longrightarrow> counter_search cs k lo hi \<noteq> None"
proof (induction "hi - lo" arbitrary: lo hi rule: less_induct)
  case less
  define mid where "mid = lo + (hi - lo) div 2"
  have mid: "lo \<le> mid" "mid < hi" using less.prems by (auto simp: mid_def)
  have le: "nc_name (cs ! a) \<le> nc_name (cs ! b)" if "a \<le> b" "b < length cs" for a b
    using sorted_nth_mono [OF assms(1), of a b] that by simp
  consider "nc_name (cs ! mid) = k" | "nc_name (cs ! mid) < k" | "k < nc_name (cs ! mid)" by fastforce
  then show ?case
  proof cases
    case 1
    with less.prems show ?thesis by (subst counter_search.simps) (simp add: Let_def mid_def)
  next
    case 2
    have "\<not> j \<le> mid" using le [of j mid] 2 assms(3) mid less.prems by (auto dest: leD)
    then have "counter_search cs k (mid + 1) hi \<noteq> None" using less.prems mid by (intro less.hyps) auto
    with 2 less.prems show ?thesis by (subst counter_search.simps) (simp add: Let_def mid_def)
  next
    case 3
    have "\<not> mid \<le> j" using le [of mid j] 3 assms(2,3) by (auto dest: leD)
    then have "counter_search cs k lo mid \<noteq> None" using less.prems mid by (intro less.hyps) auto
    with 3 less.prems show ?thesis by (subst counter_search.simps) (auto simp: Let_def mid_def)
  qed
qed

lemma counter_get_spec:
  "sorted (map nc_name cs) \<Longrightarrow> (case counter_get cs k of
      Some v \<Rightarrow> \<lparr>nc_name = k, nc_value = v\<rparr> \<in> set cs
    | None \<Rightarrow> \<forall>c \<in> set cs. nc_name c \<noteq> k)"
proof (cases "counter_search cs k 0 (length cs)")
  case None
  assume "sorted (map nc_name cs)"
  then have "nc_name (cs ! j) \<noteq> k" if "j < length cs" for j
    using counter_search_finds [of cs j k 0 "length cs"] None that by auto
  then have "\<forall>c \<in> set cs. nc_name c \<noteq> k" by (metis in_set_conv_nth)
  with None show ?thesis by (simp add: counter_get_def)
next
  case (Some i)
  from counter_search_found [OF this] have "i < length cs" "cs ! i = \<lparr>nc_name = k, nc_value = nc_value (cs ! i)\<rparr>"
    by (simp_all add: named_counter.equality)
  then have "\<lparr>nc_name = k, nc_value = nc_value (cs ! i)\<rparr> \<in> set cs" by (metis nth_mem)
  with Some show ?thesis by (simp add: counter_get_def)
qed

lemma counter_get_set_of:
  assumes "btree_sorted m"
  shows "counter_get (counter_set_of m) k = btree_get m k"
proof -
  have "sorted (map nc_name (counter_set_of m))" by (simp add: counter_set_of_def counter_set_new_def)
  note spec = counter_get_spec [OF this, of k]
  have elems: "\<lparr>nc_name = n, nc_value = v\<rparr> \<in> set (counter_set_of m) \<longleftrightarrow> (n, v) \<in> set m" for n v
    by (force simp: counter_set_of_def counter_set_new_def)
  from assms have "distinct (map fst m)" unfolding btree_sorted_def by (simp add: strict_sorted_iff)
  note mo = map_of_eq_Some_iff [OF this]
  show ?thesis
  proof (cases "counter_get (counter_set_of m) k")
    case None
    with spec have "\<forall>v. (k, v) \<notin> set m" using elems by fastforce
    then show ?thesis using None mo by (cases "map_of m k") (auto simp: btree_get_def)
  next
    case (Some v)
    with spec elems have "(k, v) \<in> set m" by simp
    then have "map_of m k = Some v" by (simp only: mo)
    with Some show ?thesis by (simp add: btree_get_def)
  qed
qed

section \<open>Reading the exposition format\<close>

text \<open>
  A reader for the text exposition format of Prometheus, as far as the code writes it: comments,
  and samples with at most one label, whose value is quoted with the escapes for backslash, quote
  and line feed.
\<close>

datatype sample = Sample string "(string \<times> string) option" nat

fun read_quoted :: "string \<Rightarrow> (string \<times> string) option" where
  "read_quoted [] = None"
| "read_quoted [c] = (if c = quote then Some ([], []) else None)"
| "read_quoted (c # d # s) =
     (if c = quote then Some ([], d # s)
      else if c = backslash then
        (if d = backslash \<or> d = quote then map_option (\<lambda>(v, r). (d # v, r)) (read_quoted s)
         else if d = CHR ''n'' then map_option (\<lambda>(v, r). (CHR 0x0A # v, r)) (read_quoted s)
         else None)
      else map_option (\<lambda>(v, r). (c # v, r)) (read_quoted (d # s)))"

definition read_number_text :: "string \<Rightarrow> nat option" where
  "read_number_text s = parse_uint 18446744073709551615 s"

definition read_labelled :: "string \<Rightarrow> string \<Rightarrow> sample option" where
  "read_labelled metric s =
     (case dropWhile (\<lambda>c. c \<noteq> CHR ''='') s of
        e # q # t \<Rightarrow>
          if q \<noteq> quote then None
          else Option.bind (read_quoted t) (\<lambda>(v, r). Option.bind (strip_prefix ''} '' r) (\<lambda>n.
            map_option (Sample metric (Some (takeWhile (\<lambda>c. c \<noteq> CHR ''='') s, v))) (read_number_text n)))
      | _ \<Rightarrow> None)"

definition read_sample :: "string \<Rightarrow> sample option" where
  "read_sample line =
     (let metric = takeWhile (\<lambda>c. c \<noteq> CHR ''{'' \<and> c \<noteq> CHR '' '') line
      in case dropWhile (\<lambda>c. c \<noteq> CHR ''{'' \<and> c \<noteq> CHR '' '') line of
           [] \<Rightarrow> None
         | c # s \<Rightarrow> if c = CHR '' '' then map_option (Sample metric None) (read_number_text s) else read_labelled metric s)"

fun read_samples :: "string list \<Rightarrow> sample list option" where
  "read_samples [] = Some []"
| "read_samples (l # ls) =
     (if starts_with ''#'' l then read_samples ls
      else Option.bind (read_sample l) (\<lambda>x. map_option (Cons x) (read_samples ls)))"

definition read_exposition :: "string \<Rightarrow> sample list option" where
  "read_exposition t = read_samples (text_lines t)"

text \<open>The samples of a snapshot.\<close>

definition counter_samples :: "string \<Rightarrow> string \<Rightarrow> counter_set \<Rightarrow> sample list" where
  "counter_samples metric label = map (\<lambda>c. Sample metric (Some (label, nc_name c)) (unat (nc_value c)))"

definition stats_samples :: "server_stats \<Rightarrow> sample list" where
  "stats_samples s =
     counter_samples ''bind_incoming_queries_total'' ''opcode'' (sv_opcodes s)
     @ counter_samples ''bind_responses_total'' ''rcode'' (sv_rcodes s)
     @ counter_samples ''bind_socket_total'' ''operation'' (sv_socket s)
     @ (case sv_memory s of
          Some m \<Rightarrow> [Sample ''bind_memory_in_use_bytes'' None (unat (ms_in_use m)),
                     Sample ''bind_memory_malloced_bytes'' None (unat (ms_malloced m))]
        | None \<Rightarrow> [])"

lemma read_quoted_escaped: "read_quoted (escape_label v @ quote # r) = Some (v, r)"
proof (induction v)
  case Nil
  show ?case by (cases r) (simp_all add: escape_label_def)
next
  case (Cons c v)
  obtain d s where rest: "escape_label v @ quote # r = d # s" by (cases "escape_label v") auto
  from Cons show ?case by (auto simp: escape_label_def escape_char_def rest [unfolded escape_label_def])
qed

lemma lines_from_break:
  "CHR 0x0A \<notin> set l \<Longrightarrow> lines_from cur (l @ CHR 0x0A # s) = strip_cr (cur @ l) # lines_from [] s"
  by (induction l arbitrary: cur) auto

lemma strip_cr_other: "l \<noteq> [] \<Longrightarrow> last l \<noteq> CHR 0x0D \<Longrightarrow> strip_cr l = l"
  by (simp add: strip_cr_def)

lemma escape_no_lf: "CHR 0x0A \<notin> set (escape_label v)"
  by (auto simp: escape_label_def escape_char_def split: if_splits)

lemma show_nat_end: "show_nat n \<noteq> []" "CHR 0x0A \<notin> set (show_nat n)" "last (show_nat n) \<noteq> CHR 0x0D"
proof -
  show ne: "show_nat n \<noteq> []" using show_nat_digits by blast
  have "is_ascii_digit c" if "c \<in> set (show_nat n)" for c using show_nat_digits [of n] that by (simp add: list_all_iff)
  moreover have "\<not> is_ascii_digit (CHR 0x0A)" "\<not> is_ascii_digit (CHR 0x0D)" by code_simp+
  ultimately show "CHR 0x0A \<notin> set (show_nat n)" "last (show_nat n) \<noteq> CHR 0x0D" using ne last_in_set by metis+
qed

lemma read_number_shown: "read_number_text (show_nat (unat n)) = Some (unat n)" for n :: u64
proof -
  have "unat n < 2 ^ LENGTH(64)" by (rule unsigned_less)
  then show ?thesis by (simp add: read_number_text_def parse_uint_show)
qed

lemma takeWhile_stop: "(\<forall>c \<in> set p. P c) \<Longrightarrow> \<not> P d \<Longrightarrow> takeWhile P (p @ d # s) = p \<and> dropWhile P (p @ d # s) = d # s"
  by (induction p) auto

text \<open>Names of metrics and labels.\<close>

definition plain_name :: "string \<Rightarrow> bool" where
  "plain_name m \<longleftrightarrow> m \<noteq> [] \<and> hd m \<noteq> CHR ''#''
     \<and> list_all (\<lambda>c. c \<noteq> CHR ''{'' \<and> c \<noteq> CHR '' '' \<and> c \<noteq> CHR ''='' \<and> c \<noteq> CHR 0x0A) m"

lemma sample_line_read:
  fixes n :: u64
  assumes "plain_name metric"
  shows "read_sample (metric @ '' '' @ show_nat (unat n)) = Some (Sample metric None (unat n))"
  using assms takeWhile_stop [of metric "\<lambda>c. c \<noteq> CHR ''{'' \<and> c \<noteq> CHR '' ''" "CHR '' ''" "show_nat (unat n)"]
  by (simp add: read_sample_def Let_def plain_name_def list_all_iff read_number_shown)

lemma labelled_line_read:
  fixes n :: u64
  assumes "plain_name metric" "plain_name label"
  shows "read_sample (metric @ ''{'' @ label @ ''='' @ [quote] @ escape_label v @ [quote] @ ''} '' @ show_nat (unat n))
    = Some (Sample metric (Some (label, v)) (unat n))"
proof -
  let ?rest = "label @ CHR ''='' # quote # escape_label v @ quote # ''} '' @ show_nat (unat n)"
  have "read_labelled metric ?rest = Some (Sample metric (Some (label, v)) (unat n))"
    using assms(2) takeWhile_stop [of label "\<lambda>c. c \<noteq> CHR ''=''" "CHR ''=''" "quote # escape_label v @ quote # ''} '' @ show_nat (unat n)"]
    by (simp add: read_labelled_def plain_name_def list_all_iff read_quoted_escaped strip_prefix_def read_number_shown)
  then show ?thesis
    using assms(1) takeWhile_stop [of metric "\<lambda>c. c \<noteq> CHR ''{'' \<and> c \<noteq> CHR '' ''" "CHR ''{''" ?rest]
    by (simp add: read_sample_def Let_def plain_name_def list_all_iff)
qed

lemma read_exposition_line:
  assumes "CHR 0x0A \<notin> set l" "l \<noteq> []" "last l \<noteq> CHR 0x0D"
  shows "read_exposition (l @ CHR 0x0A # s)
    = (if hd l = CHR ''#'' then read_exposition s
       else Option.bind (read_sample l) (\<lambda>x. map_option (Cons x) (read_exposition s)))"
proof -
  have "text_lines (l @ CHR 0x0A # s) = l # text_lines s"
    unfolding text_lines_def lines_from_break [OF assms(1)] by (simp add: strip_cr_other assms(2,3))
  moreover have "starts_with ''#'' l \<longleftrightarrow> hd l = CHR ''#''" using assms(2) by (cases l) (simp_all add: starts_with_def)
  ultimately show ?thesis by (simp add: read_exposition_def)
qed

lemma read_sample_line:
  assumes "read_sample l = Some x" "l \<noteq> []" "hd l \<noteq> CHR ''#''" "CHR 0x0A \<notin> set l" "last l \<noteq> CHR 0x0D"
  shows "read_exposition (l @ CHR 0x0A # s) = map_option (Cons x) (read_exposition s)"
  using assms by (simp add: read_exposition_line)

lemma read_comment_line:
  assumes "CHR 0x0A \<notin> set l" "last (CHR ''#'' # l) \<noteq> CHR 0x0D"
  shows "read_exposition (CHR ''#'' # l @ CHR 0x0A # s) = read_exposition s"
  using assms read_exposition_line [of "CHR ''#'' # l" s] by simp

lemma read_counter:
  assumes "plain_name metric" "plain_name label"
  shows "read_exposition (render_counter metric label c @ s)
    = map_option (Cons (Sample metric (Some (label, nc_name c)) (unat (nc_value c)))) (read_exposition s)"
proof -
  let ?l = "metric @ ''{'' @ label @ ''='' @ [quote] @ escape_label (nc_name c) @ [quote] @ ''} '' @ show_nat (unat (nc_value c))"
  have "read_exposition (?l @ CHR 0x0A # s)
    = map_option (Cons (Sample metric (Some (label, nc_name c)) (unat (nc_value c)))) (read_exposition s)"
    by (rule read_sample_line [OF labelled_line_read [OF assms]])
      (use assms escape_no_lf [of "nc_name c"] show_nat_end in \<open>auto simp: plain_name_def list_all_iff\<close>)
  then show ?thesis by (simp add: render_counter_def)
qed

lemma read_counters:
  assumes "plain_name metric" "plain_name label"
  shows "read_exposition (concat (map (render_counter metric label) cs) @ s)
    = map_option (append (counter_samples metric label cs)) (read_exposition s)"
  by (induction cs) (simp_all add: counter_samples_def read_counter [OF assms] option.map_comp comp_def option.map_ident)

lemma read_counter_set:
  assumes "plain_name metric" "plain_name label" "CHR 0x0A \<notin> set help" "help \<noteq> []" "last help \<noteq> CHR 0x0D"
  shows "read_exposition (render_counter_set metric help label cs @ s)
    = map_option (append (counter_samples metric label cs)) (read_exposition s)"
proof (cases "cs = []")
  case True
  then show ?thesis by (cases "read_exposition s") (simp_all add: render_counter_set_def counter_samples_def)
next
  case False
  have "CHR 0x0A \<notin> set metric" using assms(1) by (auto simp: plain_name_def list_all_iff)
  with False assms(3-5) read_comment_line [of "'' HELP '' @ metric @ '' '' @ help"] read_comment_line [of "'' TYPE '' @ metric @ '' counter''"]
  show ?thesis by (simp add: render_counter_set_def read_counters [OF assms(1,2)])
qed

lemma read_memory: "read_exposition (render_memory m) =
  Some [Sample ''bind_memory_in_use_bytes'' None (unat (ms_in_use m)),
        Sample ''bind_memory_malloced_bytes'' None (unat (ms_malloced m))]"
proof -
  have names: "plain_name ''bind_memory_in_use_bytes''" "plain_name ''bind_memory_malloced_bytes''"
    by (simp_all add: plain_name_def)
  have memory: "read_exposition (metric @ '' '' @ show_nat (unat n) @ CHR 0x0A # s)
      = map_option (Cons (Sample metric None (unat n))) (read_exposition s)"
    if "plain_name metric" for metric s and n :: u64
    using read_sample_line [OF sample_line_read [OF that, of n], of s] that show_nat_end
    by (auto simp: plain_name_def list_all_iff)
  have "read_exposition [] = Some []" by (simp add: read_exposition_def text_lines_def)
  with memory [OF names(1), of "ms_in_use m"] memory [OF names(2), of "ms_malloced m" "[]"]
    read_comment_line [of "'' HELP bind_memory_in_use_bytes Memory currently in use.''"]
    read_comment_line [of "'' TYPE bind_memory_in_use_bytes gauge''"]
    read_comment_line [of "'' HELP bind_memory_malloced_bytes Total memory allocated.''"]
    read_comment_line [of "'' TYPE bind_memory_malloced_bytes gauge''"]
  show ?thesis by (simp add: render_memory_def)
qed

section \<open>Properties\<close>

text \<open>
  C34: The metrics page says exactly what the snapshot says: read by the rules of the exposition
  format it gives the counters and the memory figures with their names and values. No name the
  server sends, with quotes, backslashes or line breaks in it, can add or change a sample.
\<close>

theorem prometheus_reads_back: "read_exposition (server_stats_to_prometheus s) = Some (stats_samples s)"
proof -
  have tail: "read_exposition (case sv_memory s of Some m \<Rightarrow> render_memory m | None \<Rightarrow> [])
      = Some (case sv_memory s of
          Some m \<Rightarrow> [Sample ''bind_memory_in_use_bytes'' None (unat (ms_in_use m)),
                     Sample ''bind_memory_malloced_bytes'' None (unat (ms_malloced m))]
        | None \<Rightarrow> [])"
    by (cases "sv_memory s") (simp_all add: read_memory, simp add: read_exposition_def text_lines_def)
  have names: "plain_name ''bind_incoming_queries_total''" "plain_name ''opcode''"
    "plain_name ''bind_responses_total''" "plain_name ''rcode''"
    "plain_name ''bind_socket_total''" "plain_name ''operation''" by (simp_all add: plain_name_def)
  show ?thesis
    unfolding server_stats_to_prometheus_def
    by (simp add: read_counter_set [OF names(1,2)] read_counter_set [OF names(3,4)] read_counter_set [OF names(5,6)]
        tail stats_samples_def)
qed

text \<open>
  Looking up a counter finds what the server sent for that name, and nothing for a name it did
  not send, although the values are kept in a sorted list that is searched by bisection.
\<close>

lemma counter_lookup_is_map:
  assumes "btree_sorted m"
  shows "counter_get (counter_set_of m) k = btree_get m k"
  using assms by (rule counter_get_set_of)

lemma counter_lookup_is_map_witness:
  "counter_get (counter_set_of [(''A'', 8), (''AAAA'', 3), (''MX'', 1)]) ''AAAA'' = Some 3"
  using counter_lookup_is_map [of "[(''A'', 8), (''AAAA'', 3), (''MX'', 1)]" "''AAAA''"]
  by (simp add: btree_sorted_def btree_get_def less_char_def)

end
