(* ===== verification/Client.thy ===== *)
theory Client
  imports Rndc_Connect Rndc_Dnssec Nsupdate Server_Stats
begin

text \<open>
  The client (\<open>config.rs\<close>): its configuration, the control commands, each on a connection of its
  own, updates and statistics; the rollover workflow (\<open>rndc/rollover.rs\<close>), the guard of a frozen
  zone (\<open>freeze.rs\<close>) and the limiter (\<open>limiter.rs\<close>). What the network, the clock and the HTTP
  library answer is input.
\<close>

section \<open>Configuration\<close>

text \<open>Of the TLS configuration only its presence matters here.\<close>

record client_config =
  cc_rndc_addr :: socket_addr
  cc_rndc_key :: tsig_key
  cc_rndc_transport :: transport_policy
  cc_stats_url :: "string option"
  cc_dns_addr :: "socket_addr option"
  cc_tls :: bool
  cc_timeout :: nat
  cc_rndc_max_concurrent :: "nat option"

definition client_config_new :: "socket_addr \<Rightarrow> tsig_key \<Rightarrow> client_config" where
  "client_config_new addr key =
     \<lparr>cc_rndc_addr = addr, cc_rndc_key = key, cc_rndc_transport = LoopbackOnly, cc_stats_url = None,
      cc_dns_addr = None, cc_tls = False, cc_timeout = 10 * 1000000000, cc_rndc_max_concurrent = None\<rparr>"

definition with_rndc_transport :: "client_config \<Rightarrow> transport_policy \<Rightarrow> client_config" where
  "with_rndc_transport cfg policy = cfg\<lparr>cc_rndc_transport := policy\<rparr>"

record bind9_client =
  bc_config :: client_config
  bc_view :: "string option"

definition bind9_client_new :: "client_config \<Rightarrow> bind9_client" where
  "bind9_client_new cfg = \<lparr>bc_config = cfg, bc_view = None\<rparr>"

definition for_view :: "bind9_client \<Rightarrow> string \<Rightarrow> bind9_client" where
  "for_view c view = c\<lparr>bc_view := Some view\<rparr>"

definition client_zone_target :: "bind9_client \<Rightarrow> domain_name \<Rightarrow> zone_target" where
  "client_zone_target c zone =
     (let target = zone_target_new zone
      in case bc_view c of Some view \<Rightarrow> with_view target view | None \<Rightarrow> target)"

section \<open>Control commands\<close>

text \<open>
  What happens during one command: the connection, whether the answer is late, the time it is sent
  at, and the shutdown, which may be late or fail.
\<close>

record visit =
  vi_dial :: dial
  vi_clock :: "net_error + u64"
  vi_command_late :: bool
  vi_close :: "string option option"

text \<open>The cycle without its time-out; the result is \<open>None\<close> when it is not done in time.\<close>

definition rndc_cycle :: "rndc_libs \<Rightarrow> client_config \<Rightarrow> visit \<Rightarrow> rndc_command \<Rightarrow> (net_error + rndc_response) option" where
  "rndc_cycle libs cfg v cmd =
     (case (case cc_rndc_transport cfg of
              LoopbackOnly \<Rightarrow> rndc_connect (vi_dial v) (cc_rndc_addr cfg)
            | ProtectedNetwork \<Rightarrow> connect_insecure (vi_dial v) (cc_rndc_addr cfg)) of
        None \<Rightarrow> None
      | Some (Inl e) \<Rightarrow> Some (Inl e)
      | Some (Inr stream) \<Rightarrow>
          if dl_auth_late (vi_dial v) then None
          else (case authenticate (rl_mac libs) (rl_b64 libs) (dl_clock (vi_dial v)) (dl_random (vi_dial v))
                       (cc_rndc_key cfg) stream of
                  (s, Inl e) \<Rightarrow> Some (Inl e)
                | (s, Inr auth) \<Rightarrow>
                    if vi_command_late v then None
                    else (case send_command (rl_mac libs) (rl_b64 libs) (vi_clock v) cmd \<lparr>rc_stream = s, rc_auth = auth\<rparr> of
                            (conn, Inl e) \<Rightarrow> Some (Inl e)
                          | (conn, Inr resp) \<Rightarrow>
                              (case vi_close v of
                                 None \<Rightarrow> None
                               | Some (Some e) \<Rightarrow> Some (Inl (Connection (''failed to close connection: '' @ e)))
                               | Some None \<Rightarrow> Some (Inr resp)))))"

definition client_rndc_command :: "rndc_libs \<Rightarrow> bind9_client \<Rightarrow> visit \<Rightarrow> rndc_command \<Rightarrow> net_error + rndc_response" where
  "client_rndc_command libs c v cmd = timed (cc_timeout (bc_config c)) (rndc_cycle libs (bc_config c) v cmd)"

text \<open>The check that follows every command.\<close>

definition require_success :: "string \<Rightarrow> rndc_response \<Rightarrow> net_error + unit" where
  "require_success what resp =
     (if \<not> is_success resp then Inl (Protocol (''rndc '' @ what @ '' failed: '' @ rsp_text resp)) else Inr ())"

definition checked_command :: "rndc_libs \<Rightarrow> bind9_client \<Rightarrow> visit \<Rightarrow> string \<Rightarrow> rndc_command \<Rightarrow> net_error + rndc_response" where
  "checked_command libs c v what cmd =
     rbind (client_rndc_command libs c v cmd) (\<lambda>resp. rmap (\<lambda>_. resp) (require_success what resp))"

definition zone_status_command :: "bind9_client \<Rightarrow> domain_name \<Rightarrow> rndc_command" where
  "zone_status_command c zone = CmdZoneStatus (client_zone_target c zone)"

definition thaw_command :: "bind9_client \<Rightarrow> domain_name \<Rightarrow> rndc_command" where
  "thaw_command c zone = CmdThaw (Some (client_zone_target c zone))"

definition dnssec_status_command :: "bind9_client \<Rightarrow> domain_name \<Rightarrow> rndc_command" where
  "dnssec_status_command c zone = CmdDnssecStatus (client_zone_target c zone)"

definition dnssec_checkds_command :: "bind9_client \<Rightarrow> domain_name \<Rightarrow> ds_state \<Rightarrow> rndc_command" where
  "dnssec_checkds_command c zone state = CmdDnssecCheckDs (client_zone_target c zone) state None None"

definition client_status :: "rndc_libs \<Rightarrow> bind9_client \<Rightarrow> visit \<Rightarrow> net_error + server_status" where
  "client_status libs c v =
     rmap (\<lambda>resp. parse_server_status (rsp_text resp)) (checked_command libs c v ''status'' CmdStatus)"

definition client_reload :: "rndc_libs \<Rightarrow> bind9_client \<Rightarrow> visit \<Rightarrow> net_error + unit" where
  "client_reload libs c v = rmap (\<lambda>_. ()) (checked_command libs c v ''reload'' (CmdReload None))"

definition client_reload_zone :: "rndc_libs \<Rightarrow> bind9_client \<Rightarrow> visit \<Rightarrow> domain_name \<Rightarrow> net_error + unit" where
  "client_reload_zone libs c v zone =
     rmap (\<lambda>_. ()) (checked_command libs c v ''reload zone'' (CmdReload (Some (client_zone_target c zone))))"

definition client_freeze :: "rndc_libs \<Rightarrow> bind9_client \<Rightarrow> visit \<Rightarrow> domain_name \<Rightarrow> net_error + frozen_zone" where
  "client_freeze libs c v zone =
     rmap (\<lambda>_. make_frozen_zone zone) (checked_command libs c v ''freeze'' (CmdFreeze (Some (client_zone_target c zone))))"

definition client_thaw :: "rndc_libs \<Rightarrow> bind9_client \<Rightarrow> visit \<Rightarrow> domain_name \<Rightarrow> net_error + unit" where
  "client_thaw libs c v zone = rmap (\<lambda>_. ()) (checked_command libs c v ''thaw'' (thaw_command c zone))"

definition client_zone_status :: "rndc_libs \<Rightarrow> bind9_client \<Rightarrow> visit \<Rightarrow> domain_name \<Rightarrow> net_error + string" where
  "client_zone_status libs c v zone = rmap rsp_text (checked_command libs c v ''zonestatus'' (zone_status_command c zone))"

definition client_dnssec_status :: "rndc_libs \<Rightarrow> bind9_client \<Rightarrow> visit \<Rightarrow> domain_name \<Rightarrow> net_error + dnssec_status" where
  "client_dnssec_status libs c v zone =
     rbind (checked_command libs c v ''dnssec -status'' (dnssec_status_command c zone))
       (\<lambda>resp. dnssec_status_parse (rsp_text resp))"

definition client_dnssec_checkds :: "rndc_libs \<Rightarrow> bind9_client \<Rightarrow> visit \<Rightarrow> domain_name \<Rightarrow> ds_state \<Rightarrow> net_error + unit" where
  "client_dnssec_checkds libs c v zone state =
     rmap (\<lambda>_. ()) (checked_command libs c v ''dnssec -checkds'' (dnssec_checkds_command c zone state))"

section \<open>The rollover workflow\<close>

record rollover_workflow =
  rw_zone :: domain_name
  rw_state :: rollover_state
  rw_next_action :: rollover_action

definition rollover_check :: "rndc_libs \<Rightarrow> bind9_client \<Rightarrow> visit \<Rightarrow> domain_name \<Rightarrow> net_error + rollover_workflow" where
  "rollover_check libs c v zone =
     rmap (\<lambda>status. let (state, action) = derive_state status
                     in \<lparr>rw_zone = zone, rw_state = state, rw_next_action = action\<rparr>)
       (client_dnssec_status libs c v zone)"

text \<open>\<open>advance\<close>, with the commands it has sent.\<close>

definition rollover_advance ::
    "rndc_libs \<Rightarrow> bind9_client \<Rightarrow> visit \<Rightarrow> visit \<Rightarrow> visit \<Rightarrow> domain_name
       \<Rightarrow> rndc_command list \<times> (net_error + rollover_workflow)" where
  "rollover_advance libs c v1 v2 v3 zone =
     (let status = dnssec_status_command c zone; confirm = dnssec_checkds_command c zone DsStatePublished in
      case rollover_check libs c v1 zone of
        Inl e \<Rightarrow> ([status], Inl e)
      | Inr current \<Rightarrow>
          if rw_state current = WaitingForDs then
            (case client_dnssec_checkds libs c v2 zone DsStatePublished of
               Inl e \<Rightarrow> ([status, confirm], Inl e)
             | Inr _ \<Rightarrow> ([status, confirm, status], rollover_check libs c v3 zone))
          else ([status, status], rollover_check libs c v3 zone))"

section \<open>The guard of a frozen zone\<close>

record frozen_zone_guard =
  fg_frozen :: "frozen_zone option"

text \<open>\<open>for_client\<close>; the argument is the error of \<open>Handle::try_current\<close>, if any.\<close>

definition guard_for_client :: "string option \<Rightarrow> frozen_zone \<Rightarrow> net_error + frozen_zone_guard" where
  "guard_for_client no_runtime frozen =
     (case no_runtime of
        Some e \<Rightarrow> Inl (Protocol (''a running Tokio runtime is required for a frozen-zone guard: '' @ e))
      | None \<Rightarrow> Inr \<lparr>fg_frozen = Some frozen\<rparr>)"

text \<open>
  What the two ways to end a guard do: the guard they leave and the zones they have begun to thaw.
  Explicit thawing drops the guard at its end.
\<close>

definition guard_drop :: "frozen_zone_guard \<Rightarrow> frozen_zone_guard \<times> domain_name list" where
  "guard_drop g = (g\<lparr>fg_frozen := None\<rparr>, case fg_frozen g of Some frozen \<Rightarrow> [fz_name frozen] | None \<Rightarrow> [])"

definition guard_thaw ::
    "(domain_name \<Rightarrow> net_error + unit) \<Rightarrow> frozen_zone_guard \<Rightarrow> (domain_name list \<times> (net_error + unit))" where
  "guard_thaw thaw g =
     (let (begun, result) =
          (case fg_frozen g of
             None \<Rightarrow> ([], Inl (Protocol ''frozen-zone guard is already disarmed''))
           | Some frozen \<Rightarrow> ([fz_name frozen], thaw (fz_name frozen)))
      in (begun @ snd (guard_drop (g\<lparr>fg_frozen := None\<rparr>)), result))"

definition freeze_guard ::
    "rndc_libs \<Rightarrow> bind9_client \<Rightarrow> visit \<Rightarrow> string option \<Rightarrow> domain_name \<Rightarrow> net_error + frozen_zone_guard" where
  "freeze_guard libs c v no_runtime zone = rbind (client_freeze libs c v zone) (guard_for_client no_runtime)"

section \<open>Statistics and updates\<close>

text \<open>The libraries of the statistics client; the HTTP client is built with or without TLS.\<close>

record stats_libs =
  sl_url_parse :: "string \<Rightarrow> string + parsed_url"
  sl_build :: "bool \<Rightarrow> string + unit"
  sl_server :: "string \<Rightarrow> raw_server_stats http_outcome"

definition client_stats_client :: "stats_libs \<Rightarrow> bind9_client \<Rightarrow> net_error + stats_http_client" where
  "client_stats_client lib c =
     rbind (ok_or (Connection ''stats URL not configured'') (cc_stats_url (bc_config c))) (\<lambda>url.
       stats_client_new (sl_url_parse lib) url (sl_build lib (cc_tls (bc_config c))))"

type_synonym zones_get = "string \<Rightarrow> (string, raw_view) btree http_outcome"

definition client_server_stats :: "stats_libs \<Rightarrow> bind9_client \<Rightarrow> net_error + server_stats" where
  "client_server_stats lib c = rbind (client_stats_client lib c) (fetch_server_stats (sl_server lib))"

definition client_zone_stats :: "stats_libs \<Rightarrow> zones_get \<Rightarrow> bind9_client \<Rightarrow> domain_name \<Rightarrow> net_error + zone_stats" where
  "client_zone_stats lib get c zone = rbind (client_stats_client lib c) (\<lambda>sc. fetch_zone_stats get sc zone)"

definition prometheus_metrics :: "stats_libs \<Rightarrow> bind9_client \<Rightarrow> net_error + string" where
  "prometheus_metrics lib c = rmap server_stats_to_prometheus (client_server_stats lib c)"

definition classify_update_result :: "update_result \<Rightarrow> net_error + update_result" where
  "classify_update_result r =
     (case ur_rcode r of
        NoError \<Rightarrow> Inr r
      | NxDomain \<Rightarrow> Inl (PrerequisiteFailed (ur_rcode r))
      | YxDomain \<Rightarrow> Inl (PrerequisiteFailed (ur_rcode r))
      | NxRrset \<Rightarrow> Inl (PrerequisiteFailed (ur_rcode r))
      | YxRrset \<Rightarrow> Inl (PrerequisiteFailed (ur_rcode r))
      | _ \<Rightarrow> Inl (UpdateRejected (rcode_display (ur_rcode r))))"

text \<open>The network of an update: the answers of the name server at an address.\<close>

record update_net =
  un_clock :: "net_error + u64"
  un_udp :: "socket_addr \<Rightarrow> net_error + byte list"
  un_tcp :: "socket_addr \<Rightarrow> net_error + byte list"

definition client_send_update :: "mac_lib \<Rightarrow> update_net \<Rightarrow> bind9_client \<Rightarrow> update_message \<Rightarrow> net_error + update_result" where
  "client_send_update lib net c update =
     rbind (ok_or (Connection ''DNS server address not configured'') (cc_dns_addr (bc_config c))) (\<lambda>addr.
       let key = (if is_signed update then Some (cc_rndc_key (bc_config c)) else None)
       in rbind (nsupdate_send lib (un_clock net) (un_udp net addr) (un_tcp net addr) update key) classify_update_result)"

text \<open>\<open>after <= before\<close> on serials, of which two may be incomparable.\<close>

definition serial_le :: "serial \<Rightarrow> serial \<Rightarrow> bool" where
  "serial_le a b \<longleftrightarrow> serial_partial_cmp a b = Some Less \<or> serial_partial_cmp a b = Some Equal"

text \<open>The two requests for the serial see the zones before and after the update.\<close>

definition send_update_verified ::
    "mac_lib \<Rightarrow> update_net \<Rightarrow> stats_libs \<Rightarrow> zones_get \<Rightarrow> zones_get \<Rightarrow> bind9_client \<Rightarrow> update_message \<Rightarrow> domain_name
       \<Rightarrow> net_error + update_result" where
  "send_update_verified lib net slib get0 get1 c update zone =
     rbind (client_zone_stats slib get0 c zone) (\<lambda>z0.
     rbind (client_send_update lib net c update) (\<lambda>result.
     rbind (client_zone_stats slib get1 c zone) (\<lambda>z1.
     if serial_le (zs_serial z1) (zs_serial z0) then
       Inl (UpdateNotApplied (name_display zone) (serial_value (zs_serial z0)) (serial_value (zs_serial z1)))
     else Inr result)))"

section \<open>The limiter\<close>

text \<open>A semaphore: its permits and those that are held.\<close>

record rndc_limiter =
  rl_limit :: nat
  rl_held :: nat

definition default_max_concurrent :: nat where
  "default_max_concurrent = 4"

definition limiter_new :: "nat \<Rightarrow> rndc_limiter" where
  "limiter_new max_concurrent =
     \<lparr>rl_limit = (if max_concurrent = 0 then default_max_concurrent else max_concurrent), rl_held = 0\<rparr>"

definition limiter_available :: "rndc_limiter \<Rightarrow> nat" where
  "limiter_available l = rl_limit l - rl_held l"

text \<open>\<open>None\<close> when the caller has to wait.\<close>

definition limiter_acquire :: "rndc_limiter \<Rightarrow> rndc_limiter option" where
  "limiter_acquire l = (if limiter_available l = 0 then None else Some (l\<lparr>rl_held := rl_held l + 1\<rparr>))"

text \<open>The end of a permit; only who holds one can drop it.\<close>

definition permit_drop :: "rndc_limiter \<Rightarrow> rndc_limiter" where
  "permit_drop l = l\<lparr>rl_held := rl_held l - 1\<rparr>"

inductive limiter_reachable :: "nat \<Rightarrow> rndc_limiter \<Rightarrow> bool" for n where
  limiter_start: "limiter_reachable n (limiter_new n)"
| limiter_taken: "limiter_reachable n l \<Longrightarrow> limiter_acquire l = Some l' \<Longrightarrow> limiter_reachable n l'"
| limiter_returned: "limiter_reachable n l \<Longrightarrow> 0 < rl_held l \<Longrightarrow> limiter_reachable n (permit_drop l)"

lemma limiter_bound:
  "limiter_reachable n l \<Longrightarrow> rl_limit l = rl_limit (limiter_new n) \<and> rl_held l \<le> rl_limit l \<and> 0 < rl_limit l"
proof (induction rule: limiter_reachable.induct)
  case (limiter_taken l l')
  then show ?case by (auto simp: limiter_acquire_def limiter_available_def split: if_splits)
qed (auto simp: limiter_new_def default_max_concurrent_def permit_drop_def)

end
