(* ===== verification/Client_Checks.thy ===== *)
theory Client_Checks
  imports Client
begin

text \<open>
  What the operations of the client guarantee: every result rests on an answer that was verified
  for the command that was sent, an honest server is served, frozen zones are thawed once, and
  where the view of the client and the state of the zone are lost.
\<close>

section \<open>One command\<close>

text \<open>
  The response was read from the octets of this visit: they open a session under the key of the
  client, and what follows them there answers the command in this session. A client limited to
  loopback has made the visit to a loopback address.
\<close>

definition visit_answered :: "rndc_libs \<Rightarrow> bind9_client \<Rightarrow> visit \<Rightarrow> rndc_command \<Rightarrow> rndc_response \<Rightarrow> bool" where
  "visit_answered libs c v cmd resp \<longleftrightarrow>
     (cc_rndc_transport (bc_config c) = LoopbackOnly \<longrightarrow> is_localhost (cc_rndc_addr (bc_config c)))
     \<and> (\<exists>active rest. opened libs (cc_rndc_key (bc_config c)) (vi_dial v) active
          \<and> served libs (vi_clock v) cmd active rest resp)"

lemma timed_Inr [result_simps]: "timed limit r = Inr x \<longleftrightarrow> r = Some (Inr x)"
  by (auto simp: timed_def split: option.splits)

lemma rndc_cycle_Inr:
  assumes "rndc_cycle libs (bc_config c) v cmd = Some (Inr resp)"
  shows "visit_answered libs c v cmd resp"
proof -
  let ?cfg = "bc_config c"
  let ?dialled = "case cc_rndc_transport ?cfg of
      LoopbackOnly \<Rightarrow> rndc_connect (vi_dial v) (cc_rndc_addr ?cfg)
    | ProtectedNetwork \<Rightarrow> connect_insecure (vi_dial v) (cc_rndc_addr ?cfg)"
  from assms obtain stream s auth conn where stream: "?dialled = Some (Inr stream)"
    and late: "\<not> dl_auth_late (vi_dial v)"
    and auth: "authenticate (rl_mac libs) (rl_b64 libs) (dl_clock (vi_dial v)) (dl_random (vi_dial v))
      (cc_rndc_key ?cfg) stream = (s, Inr auth)"
    and cmd: "send_command (rl_mac libs) (rl_b64 libs) (vi_clock v) cmd \<lparr>rc_stream = s, rc_auth = auth\<rparr> = (conn, Inr resp)"
    unfolding rndc_cycle_def by (auto split: option.splits sum.splits if_splits prod.splits)
  have "dl_tcp (vi_dial v) = Some (Inr stream)"
    and "cc_rndc_transport ?cfg = LoopbackOnly \<longrightarrow> is_localhost (cc_rndc_addr ?cfg)"
    using stream by (cases "cc_rndc_transport ?cfg"; simp add: rndc_connect_Inr connect_insecure_Inr)+
  then show ?thesis
    unfolding visit_answered_def
    using authenticate_opened [OF _ late auth] send_command_served [OF cmd] by blast
qed

lemma checked_command_Inr:
  assumes "checked_command libs c v what cmd = Inr resp"
  shows "is_success resp \<and> visit_answered libs c v cmd resp"
proof -
  from assms have "is_success resp" "client_rndc_command libs c v cmd = Inr resp"
    by (auto simp: checked_command_def require_success_def result_simps)
  then show ?thesis using rndc_cycle_Inr by (auto simp: client_rndc_command_def result_simps)
qed

text \<open>The text of a command for a zone ends with the zone and the view of the client.\<close>

lemma client_target_text:
  "command_args (client_zone_target c zone)
     = name_display zone @ (case bc_view c of Some view \<Rightarrow> '' IN '' @ view | None \<Rightarrow> [])"
  by (simp add: command_args_def client_zone_target_def class_and_view_def zone_target_new_def with_view_def Let_def
      split: option.split)

section \<open>An honest server\<close>

text \<open>
  The frame is the reply of an honest server to the command: signed, with the serial of the request,
  a time in the window and the nonce of the session.
\<close>

definition honest_turn :: "rndc_libs \<Rightarrow> tsig_key \<Rightarrow> u32 \<Rightarrow> u64 \<Rightarrow> string option \<Rightarrow> string \<Rightarrow> u64 \<Rightarrow> string \<Rightarrow> isc_map
    \<Rightarrow> byte list \<Rightarrow> bool" where
  "honest_turn libs key serial now nonce cmd t n data frame \<longleftrightarrow>
     (\<exists>request. build_request (rl_mac libs) (rl_b64 libs) key serial now nonce cmd = Inr request)
     \<and> (\<exists>hmac. sign_rndc_body (rl_mac libs) (rl_b64 libs) key (reply_ctrl serial t n) data = Inr hmac
          \<and> frame_message (reply_message hmac (reply_ctrl serial t n) data) = Inr frame)
     \<and> length frame \<le> 4 + max_message_size \<and> utf8_valid (as_bytes n) \<and> value_wf 32 (IscMap data)
     \<and> now \<le> t \<and> unat t \<le> unat now + 60 \<and> unat t + 60 < 2 ^ 64 \<and> (nonce = None \<or> nonce = Some n)
     \<and> (map_string (canon_map data) ''type'' = None \<or> map_string (canon_map data) ''type'' = Some cmd)"

definition libs_ok :: "rndc_libs \<Rightarrow> tsig_key \<Rightarrow> bool" where
  "libs_ok libs key \<longleftrightarrow> mac_lib_ok (rl_mac libs)
     \<and> (\<forall>m tag. mac_tag (rl_mac libs) (key_algorithm key) (key_material key) m = Some tag \<longrightarrow> b64_fits (rl_b64 libs) tag)"

lemma honest_turn_exchange:
  assumes "libs_ok libs key" "honest_turn libs key serial now nonce cmd t n data frame"
    "st_incoming s = frame @ rest" "st_write_error s = None"
  obtains hmac request where "exchange (rl_mac libs) (rl_b64 libs) what key serial now nonce cmd s =
      (s\<lparr>st_written := st_written s @ request, st_incoming := rest\<rparr>,
       Inr (reply_message hmac (reply_ctrl serial t n) (canon_map data)))"
proof -
  from assms(2) obtain request hmac where
    "build_request (rl_mac libs) (rl_b64 libs) key serial now nonce cmd = Inr request"
    "sign_rndc_body (rl_mac libs) (rl_b64 libs) key (reply_ctrl serial t n) data = Inr hmac"
    "frame_message (reply_message hmac (reply_ctrl serial t n) data) = Inr frame"
    unfolding honest_turn_def by blast
  with assms show thesis
    unfolding honest_turn_def libs_ok_def by (intro that [of request hmac] honest_exchange [where rest = rest]) blast+
qed

lemma reply_data: "get_map (reply_message hmac ctrl data) ''_data'' = Some data"
  "get_map (reply_message hmac ctrl data) ''_ctrl'' = Some ctrl"
  by (simp_all add: get_map_def reply_message_def btree_get_def)

lemma reply_nonce: "map_string (reply_ctrl serial t n) ''_nonce'' = Some n"
  by (simp add: reply_ctrl_table map_string_def btree_get_def)

lemma honest_authentication:
  assumes "libs_ok libs key" "clock = Inr now" "random = Inr nonce_bytes"
    "honest_turn libs key (u32_of_be (take 4 nonce_bytes)) now None ''null'' t n data frame"
    "map_string (canon_map data) ''result'' = Some ''0''"
    "st_incoming s = frame @ rest" "st_write_error s = None"
  obtains s' where "authenticate (rl_mac libs) (rl_b64 libs) clock random key s
      = (s', Inr \<lparr>ra_key = key, ra_serial = u32_of_be (take 4 nonce_bytes), ra_nonce = Some n\<rparr>)"
    "st_incoming s' = rest" "st_write_error s' = None"
proof -
  let ?serial = "u32_of_be (take 4 nonce_bytes)"
  obtain hmac request where ex: "exchange (rl_mac libs) (rl_b64 libs) ''failed to send auth message'' key ?serial now None ''null'' s =
      (s\<lparr>st_written := st_written s @ request, st_incoming := rest\<rparr>, Inr (reply_message hmac (reply_ctrl ?serial t n) (canon_map data)))"
    using honest_turn_exchange [OF assms(1,4,6,7)] by blast
  have "authenticate (rl_mac libs) (rl_b64 libs) clock random key s
      = (s\<lparr>st_written := st_written s @ request, st_incoming := rest\<rparr>,
         Inr \<lparr>ra_key = key, ra_serial = ?serial, ra_nonce = Some n\<rparr>)"
    by (simp add: authenticate_def assms(2,3,5) ex reply_data reply_nonce Let_def)
  from that [OF this] assms(7) show thesis by simp
qed

text \<open>What the caller makes of the data of a reply.\<close>

definition data_response :: "byte_codec \<Rightarrow> isc_map \<Rightarrow> rndc_response" where
  "data_response b64 data = interpret_response b64 (reply_message [] [] data)"

lemma interpret_reply: "interpret_response b64 (reply_message hmac ctrl data) = data_response b64 data"
  by (simp add: data_response_def interpret_response_def reply_data)

lemma honest_cycle:
  assumes "libs_ok libs (cc_rndc_key cfg)"
    and "cc_rndc_transport cfg = LoopbackOnly \<longrightarrow> is_localhost (cc_rndc_addr cfg)"
    and "dl_tcp (vi_dial v) = Some (Inr s)" "st_write_error s = None" "st_incoming s = frame1 @ frame2 @ rest"
    and "\<not> dl_auth_late (vi_dial v)" "\<not> vi_command_late v"
    and "dl_clock (vi_dial v) = Inr now1" "dl_random (vi_dial v) = Inr nonce_bytes" "vi_clock v = Inr now2"
    and "honest_turn libs (cc_rndc_key cfg) (u32_of_be (take 4 nonce_bytes)) now1 None ''null'' t1 n data1 frame1"
    and "map_string (canon_map data1) ''result'' = Some ''0''"
    and "honest_turn libs (cc_rndc_key cfg) (u32_of_be (take 4 nonce_bytes) + 1) now2 (Some n) (to_command_string cmd) t2 n
      data2 frame2"
  shows "rndc_cycle libs cfg v cmd =
    (case vi_close v of
       None \<Rightarrow> None
     | Some (Some e) \<Rightarrow> Some (Inl (Connection (''failed to close connection: '' @ e)))
     | Some None \<Rightarrow> Some (Inr (data_response (rl_b64 libs) (canon_map data2))))"
proof -
  obtain s' where auth: "authenticate (rl_mac libs) (rl_b64 libs) (dl_clock (vi_dial v)) (dl_random (vi_dial v)) (cc_rndc_key cfg) s
      = (s', Inr \<lparr>ra_key = cc_rndc_key cfg, ra_serial = u32_of_be (take 4 nonce_bytes), ra_nonce = Some n\<rparr>)"
    "st_incoming s' = frame2 @ rest" "st_write_error s' = None"
    using honest_authentication [OF assms(1,8,9,11,12,5,4)] by blast
  obtain hmac request where ex: "exchange (rl_mac libs) (rl_b64 libs) ''failed to send command'' (cc_rndc_key cfg)
      (u32_of_be (take 4 nonce_bytes) + 1) now2 (Some n) (to_command_string cmd) s' =
      (s'\<lparr>st_written := st_written s' @ request, st_incoming := rest\<rparr>,
       Inr (reply_message hmac (reply_ctrl (u32_of_be (take 4 nonce_bytes) + 1) t2 n) (canon_map data2)))"
    using honest_turn_exchange [OF assms(1,13) auth(2,3)] by blast
  obtain conn where "send_command (rl_mac libs) (rl_b64 libs) (vi_clock v) cmd
      \<lparr>rc_stream = s', rc_auth = \<lparr>ra_key = cc_rndc_key cfg, ra_serial = u32_of_be (take 4 nonce_bytes), ra_nonce = Some n\<rparr>\<rparr>
      = (conn, Inr (data_response (rl_b64 libs) (canon_map data2)))"
    by (simp add: send_command_def command_exchange_def assms(10) ex interpret_reply Let_def)
  moreover have "(case cc_rndc_transport cfg of
      LoopbackOnly \<Rightarrow> rndc_connect (vi_dial v) (cc_rndc_addr cfg)
    | ProtectedNetwork \<Rightarrow> connect_insecure (vi_dial v) (cc_rndc_addr cfg)) = Some (Inr s)"
    using assms(2,3) by (simp add: rndc_connect_def connect_insecure_def split: transport_policy.split)
  ultimately show ?thesis
    using assms(6,7) auth(1) by (simp add: rndc_cycle_def)
qed

lemma honest_command:
  assumes "libs_ok libs (cc_rndc_key cfg)"
    and "cc_rndc_transport cfg = LoopbackOnly \<longrightarrow> is_localhost (cc_rndc_addr cfg)"
    and "dl_tcp (vi_dial v) = Some (Inr s)" "st_write_error s = None" "st_incoming s = frame1 @ frame2 @ rest"
    and "\<not> dl_auth_late (vi_dial v)" "\<not> vi_command_late v" "vi_close v = Some None"
    and "dl_clock (vi_dial v) = Inr now1" "dl_random (vi_dial v) = Inr nonce_bytes" "vi_clock v = Inr now2"
    and "honest_turn libs (cc_rndc_key cfg) (u32_of_be (take 4 nonce_bytes)) now1 None ''null'' t1 n data1 frame1"
    and "map_string (canon_map data1) ''result'' = Some ''0''"
    and "honest_turn libs (cc_rndc_key cfg) (u32_of_be (take 4 nonce_bytes) + 1) now2 (Some n) (to_command_string cmd) t2 n
      data2 frame2"
  shows "rndc_cycle libs cfg v cmd = Some (Inr (data_response (rl_b64 libs) (canon_map data2)))"
  using honest_cycle [OF assms(1-7) assms(9-14)] assms(8) by simp

text \<open>
  When the connection cannot be shut down properly after the server has frozen the zone and said so,
  the client reports an error and there is no guard, so nothing thaws the zone.
\<close>

lemma freeze_without_guard:
  assumes "libs_ok libs (cc_rndc_key (bc_config c))"
    and "cc_rndc_transport (bc_config c) = LoopbackOnly \<longrightarrow> is_localhost (cc_rndc_addr (bc_config c))"
    and "dl_tcp (vi_dial v) = Some (Inr s)" "st_write_error s = None" "st_incoming s = frame1 @ frame2 @ rest"
    and "\<not> dl_auth_late (vi_dial v)" "\<not> vi_command_late v"
    and "dl_clock (vi_dial v) = Inr now1" "dl_random (vi_dial v) = Inr nonce_bytes" "vi_clock v = Inr now2"
    and "honest_turn libs (cc_rndc_key (bc_config c)) (u32_of_be (take 4 nonce_bytes)) now1 None ''null'' t1 n data1 frame1"
    and "map_string (canon_map data1) ''result'' = Some ''0''"
    and "honest_turn libs (cc_rndc_key (bc_config c)) (u32_of_be (take 4 nonce_bytes) + 1) now2 (Some n)
      (to_command_string (CmdFreeze (Some (client_zone_target c zone)))) t2 n data2 frame2"
    and "vi_close v = Some (Some e)"
  shows "freeze_guard libs c v no_runtime zone = Inl (Connection (''failed to close connection: '' @ e))"
  using honest_cycle [OF assms(1-13)] assms(14)
  by (simp add: freeze_guard_def client_freeze_def checked_command_def client_rndc_command_def timed_def)

section \<open>A concrete server\<close>

definition plain_libs :: rndc_libs where
  "plain_libs = \<lparr>rl_mac = plain_lib, rl_b64 = plain_b64\<rparr>"

definition sample_config :: client_config where
  "sample_config = client_config_new (SocketV6 1 953 0) sample_key"

definition sample_client :: bind9_client where
  "sample_client = bind9_client_new sample_config"

lemma sample_client_config [simp]:
  "bc_config sample_client = sample_config" "bc_view sample_client = None"
  "cc_rndc_key sample_config = sample_key" "cc_rndc_transport sample_config = LoopbackOnly"
  "cc_rndc_addr sample_config = SocketV6 1 953 0"
  by (simp_all add: sample_client_def bind9_client_new_def sample_config_def client_config_new_def)

lemma plain_libs_ok: "libs_ok plain_libs sample_key"
  using plain_lib_ok plain_b64_fits by (simp add: libs_ok_def plain_libs_def sample_key_def)

lemma show_two: "show_nat 2 = ''2''" by code_simp

lemma session_ctrl_table:
  "build_ctrl_table serial t (Some n) =
     [(''_exp'', IscString (show_nat (unat (t + isccc_expiry_secs)))), (''_nonce'', IscString n),
      (''_ser'', IscString (show_nat (unat serial))), (''_tim'', IscString (show_nat (unat t)))]"
  by (simp add: build_ctrl_table_def Let_def)

lemma short_signed:
  "length cmd \<le> 100 \<Longrightarrow>
   \<exists>hmac. sign_rndc_body plain_lib plain_b64 sample_key (build_ctrl_table 2 0 (Some ''n'')) [(''type'', IscString cmd)]
     = Inr hmac \<and> length hmac = 89"
  by (simp add: session_ctrl_table sign_rndc_body_def encode_body_def sample_simps show_small show_two key_sign_def plain_lib_def
      sample_key_def resize_def isccc_hmac_buf_size_def plain_b64_def mac_length_def)

lemma short_framed:
  "length cmd \<le> 100 \<Longrightarrow> length hmac = 89 \<Longrightarrow> \<exists>frame. frame_message (insert_map ''_data'' [(''type'', IscString cmd)]
     (insert_map ''_ctrl'' (build_ctrl_table 2 0 (Some ''n'')) (insert_map ''_auth'' [(''hsha'', IscBinary hmac)] isc_new))) = Inr frame"
  by (simp add: session_ctrl_table frame_message_def isc_encode_def sample_simps show_small show_two)

lemma short_request:
  assumes "length cmd \<le> 100"
  shows "\<exists>request. build_request plain_lib plain_b64 sample_key 2 0 (Some ''n'') cmd = Inr request"
proof -
  obtain hmac where hmac: "sign_rndc_body plain_lib plain_b64 sample_key (build_ctrl_table 2 0 (Some ''n''))
      [(''type'', IscString cmd)] = Inr hmac" "length hmac = 89" using short_signed [OF assms] by blast
  show ?thesis using short_framed [OF assms hmac(2)] by (simp add: build_request_def hmac Let_def)
qed

lemma status_hmac:
  "\<exists>hmac. sign_rndc_body plain_lib plain_b64 sample_key (sample_ctrl 2) sample_data = Inr hmac \<and> length hmac = 89"
  by (simp add: sign_rndc_body_def encode_body_def sample_simps show_small show_two key_sign_def plain_lib_def
      sample_key_def resize_def isccc_hmac_buf_size_def plain_b64_def mac_length_def)

lemma status_frame:
  "length hmac = 89 \<Longrightarrow> \<exists>frame. frame_message (reply_message hmac (sample_ctrl 2) sample_data) = Inr frame
     \<and> length frame \<le> 1000"
  by (simp add: frame_message_def isc_encode_def reply_message_def sample_simps show_small show_two)

lemma sample_turn:
  assumes "\<exists>request. build_request plain_lib plain_b64 sample_key serial 0 nonce cmd = Inr request"
    and "\<exists>hmac. sign_rndc_body plain_lib plain_b64 sample_key (sample_ctrl serial) sample_data = Inr hmac \<and> length hmac = 89"
    and "\<And>hmac. length hmac = 89 \<Longrightarrow> \<exists>frame. frame_message (reply_message hmac (sample_ctrl serial) sample_data) = Inr frame
      \<and> length frame \<le> 1000"
    and "nonce = None \<or> nonce = Some ''n''"
  shows "\<exists>frame. honest_turn plain_libs sample_key serial 0 nonce cmd 0 ''n'' sample_data frame"
proof -
  from assms(2,3) obtain hmac frame where
    "sign_rndc_body plain_lib plain_b64 sample_key (sample_ctrl serial) sample_data = Inr hmac"
    "frame_message (reply_message hmac (sample_ctrl serial) sample_data) = Inr frame" "length frame \<le> 1000"
    by blast
  moreover have "value_wf 32 (IscMap sample_data)"
    using sample_names_utf8 by (simp add: sample_data_def btree_sorted_def)
  moreover have "map_string (canon_map sample_data) ''type'' = None"
    by (simp add: sample_data_def map_string_def btree_get_def)
  ultimately show ?thesis
    using assms(1,4) sample_names_utf8(1) unfolding honest_turn_def plain_libs_def max_message_size_def
    by (intro exI [of _ frame]) (simp del: value_wf.simps)
qed

text \<open>A visit at which this server answers, and the response.\<close>

definition sample_visit :: "rndc_stream \<Rightarrow> visit" where
  "sample_visit s =
     \<lparr>vi_dial = \<lparr>dl_tcp = Some (Inr s), dl_auth_late = False, dl_clock = Inr 0, dl_random = Inr [0, 0, 0, 1]\<rparr>,
      vi_clock = Inr 0, vi_command_late = False, vi_close = Some None\<rparr>"

lemma sample_data_response: "data_response plain_b64 (canon_map sample_data) = \<lparr>rsp_text = [], rsp_result = RndcSuccess\<rparr>"
  by (simp add: data_response_def interpret_response_def reply_data sample_data_def map_string_def btree_get_def
      extract_response_text_def extract_data_field_def render_unstructured_fields_def or_else_def
      response_from_text_def error_text_def starts_with_def)

section \<open>Properties\<close>

text \<open>
  C32: A client is served by an honest server: when the server signs its two replies with the key of
  the client, for the serials of the two requests and in time, the command returns the server's
  answer, provided the address is a loopback address or the policy permits others.
\<close>

theorem client_served_by_honest_server:
  assumes "libs_ok libs (cc_rndc_key (bc_config c))"
    and "cc_rndc_transport (bc_config c) = LoopbackOnly \<longrightarrow> is_localhost (cc_rndc_addr (bc_config c))"
    and "dl_tcp (vi_dial v) = Some (Inr s)" "st_write_error s = None" "st_incoming s = frame1 @ frame2 @ rest"
    and "\<not> dl_auth_late (vi_dial v)" "\<not> vi_command_late v" "vi_close v = Some None"
    and "dl_clock (vi_dial v) = Inr now1" "dl_random (vi_dial v) = Inr nonce_bytes" "vi_clock v = Inr now2"
    and "honest_turn libs (cc_rndc_key (bc_config c)) (u32_of_be (take 4 nonce_bytes)) now1 None ''null'' t1 n data1 frame1"
    and "map_string (canon_map data1) ''result'' = Some ''0''"
    and "honest_turn libs (cc_rndc_key (bc_config c)) (u32_of_be (take 4 nonce_bytes) + 1) now2 (Some n)
      (to_command_string cmd) t2 n data2 frame2"
  shows "client_rndc_command libs c v cmd = Inr (data_response (rl_b64 libs) (canon_map data2))"
  using honest_command [OF assms] by (simp add: client_rndc_command_def timed_def)

lemma sample_exchange:
  assumes "length (to_command_string cmd) \<le> 100"
  obtains s :: rndc_stream and frame1 frame2 where "st_write_error s = None" "st_incoming s = frame1 @ frame2 @ []"
    "honest_turn plain_libs sample_key (u32_of_be (take 4 [0, 0, 0, 1])) 0 None ''null'' 0 ''n'' sample_data frame1"
    "honest_turn plain_libs sample_key (u32_of_be (take 4 [0, 0, 0, 1]) + 1) 0 (Some ''n'') (to_command_string cmd) 0 ''n'' sample_data frame2"
proof -
  obtain frame1 where f1: "honest_turn plain_libs sample_key 1 0 None ''null'' 0 ''n'' sample_data frame1"
    using sample_turn [of 1 None "''null''"] sample_request sample_hmac sample_frame by blast
  obtain frame2 where f2: "honest_turn plain_libs sample_key 2 0 (Some ''n'') (to_command_string cmd) 0 ''n'' sample_data frame2"
    using sample_turn [of 2 "Some ''n''"] short_request [OF assms] status_hmac status_frame by blast
  have "u32_of_be [0, 0, 0, 1] = 1" by code_simp
  with f1 f2 show thesis
    by (intro that [of "\<lparr>st_written = [], st_incoming = frame1 @ frame2, st_write_error = None\<rparr>" frame1 frame2]) simp_all
qed

lemma sample_result: "map_string (canon_map sample_data) ''result'' = Some ''0''"
  by (simp add: sample_data_def map_string_def btree_get_def)

lemma sample_command:
  assumes "length (to_command_string cmd) \<le> 100"
  obtains s where "client_rndc_command plain_libs sample_client (sample_visit s) cmd = Inr \<lparr>rsp_text = [], rsp_result = RndcSuccess\<rparr>"
proof -
  obtain s :: rndc_stream and frame1 frame2 where s: "st_write_error s = None" "st_incoming s = frame1 @ frame2 @ []"
    "honest_turn plain_libs sample_key (u32_of_be (take 4 [0, 0, 0, 1])) 0 None ''null'' 0 ''n'' sample_data frame1"
    "honest_turn plain_libs sample_key (u32_of_be (take 4 [0, 0, 0, 1]) + 1) 0 (Some ''n'') (to_command_string cmd) 0 ''n'' sample_data frame2"
    by (rule sample_exchange [OF assms])
  have "rndc_cycle plain_libs sample_config (sample_visit s) cmd
      = Some (Inr (data_response (rl_b64 plain_libs) (canon_map sample_data)))"
    by (rule honest_command [where n = "''n''" and nonce_bytes = "[0, 0, 0, 1]" and ?now1.0 = 0 and ?now2.0 = 0
        and ?t1.0 = 0 and ?t2.0 = 0 and ?data1.0 = sample_data and ?data2.0 = sample_data, OF _ _ _ s(1,2)]) (use plain_libs_ok s(3,4) sample_result in \<open>simp_all add: sample_visit_def\<close>)
  then show thesis
    by (intro that [of s]) (simp add: client_rndc_command_def timed_def plain_libs_def sample_data_response)
qed

theorem client_served_by_honest_server_witness:
  "\<exists>s. is_ok (client_rndc_command plain_libs sample_client (sample_visit s) CmdStatus)"
proof -
  have short: "length (to_command_string CmdStatus) \<le> 100" by simp
  obtain s :: rndc_stream and frame1 frame2 where s: "st_write_error s = None" "st_incoming s = frame1 @ frame2 @ []"
    "honest_turn plain_libs sample_key (u32_of_be (take 4 [0, 0, 0, 1])) 0 None ''null'' 0 ''n'' sample_data frame1"
    "honest_turn plain_libs sample_key (u32_of_be (take 4 [0, 0, 0, 1]) + 1) 0 (Some ''n'') (to_command_string CmdStatus) 0 ''n'' sample_data frame2"
    by (rule sample_exchange [OF short])
  have "client_rndc_command plain_libs sample_client (sample_visit s) CmdStatus
      = Inr (data_response (rl_b64 plain_libs) (canon_map sample_data))"
    by (rule client_served_by_honest_server [where n = "''n''" and nonce_bytes = "[0, 0, 0, 1]" and ?now1.0 = 0 and ?now2.0 = 0
        and ?t1.0 = 0 and ?t2.0 = 0 and ?data1.0 = sample_data and ?data2.0 = sample_data, OF _ _ _ s(1,2)])
      (use plain_libs_ok s(3,4) sample_result in \<open>simp_all add: sample_visit_def\<close>)
  then show ?thesis by (intro exI [of _ s]) simp
qed

text \<open>
  C31: What an operation of the client returns was read from the octets of its own visit to the
  server: the stream that was dialled begins with the signed answer that opens the session under
  the key of the client, and goes on with a frame whose own signature holds under that key and that
  answers, with the next serial and the nonce of the session, the command of the operation for the
  zone it was asked for and the view of the client; that answer reports success, and the result is
  its text.
\<close>

theorem client_results_authentic:
  "(client_status libs c v = Inr st \<longrightarrow> (\<exists>resp. is_success resp \<and> visit_answered libs c v CmdStatus resp
        \<and> st = parse_server_status (rsp_text resp)))
   \<and> (client_reload libs c v = Inr () \<longrightarrow> (\<exists>resp. is_success resp \<and> visit_answered libs c v (CmdReload None) resp))
   \<and> (client_reload_zone libs c v zone = Inr () \<longrightarrow>
        (\<exists>resp. is_success resp \<and> visit_answered libs c v (CmdReload (Some (client_zone_target c zone))) resp))
   \<and> (client_freeze libs c v zone = Inr fz \<longrightarrow> fz = make_frozen_zone zone
        \<and> (\<exists>resp. is_success resp \<and> visit_answered libs c v (CmdFreeze (Some (client_zone_target c zone))) resp))
   \<and> (client_thaw libs c v zone = Inr () \<longrightarrow>
        (\<exists>resp. is_success resp \<and> visit_answered libs c v (CmdThaw (Some (client_zone_target c zone))) resp))
   \<and> (client_zone_status libs c v zone = Inr t \<longrightarrow>
        (\<exists>resp. is_success resp \<and> visit_answered libs c v (CmdZoneStatus (client_zone_target c zone)) resp \<and> t = rsp_text resp))
   \<and> (client_dnssec_status libs c v zone = Inr ds \<longrightarrow>
        (\<exists>resp. is_success resp \<and> visit_answered libs c v (CmdDnssecStatus (client_zone_target c zone)) resp
          \<and> dnssec_status_parse (rsp_text resp) = Inr ds))
   \<and> (client_dnssec_checkds libs c v zone state = Inr () \<longrightarrow>
        (\<exists>resp. is_success resp \<and> visit_answered libs c v (CmdDnssecCheckDs (client_zone_target c zone) state None None) resp))"
  using checked_command_Inr
  unfolding client_status_def client_reload_def client_reload_zone_def client_freeze_def client_thaw_def
    client_zone_status_def client_dnssec_status_def client_dnssec_checkds_def rmap_eq_Inr rbind_eq_Inr
    thaw_command_def zone_status_command_def dnssec_status_command_def dnssec_checkds_command_def
  by (intro conjI impI) (metis | blast)+

theorem client_results_authentic_witness:
  "\<exists>s resp. is_success resp \<and> visit_answered plain_libs sample_client (sample_visit s) CmdStatus resp"
proof -
  have short: "length (to_command_string CmdStatus) \<le> 100" by simp
  obtain s where "client_rndc_command plain_libs sample_client (sample_visit s) CmdStatus = Inr \<lparr>rsp_text = [], rsp_result = RndcSuccess\<rparr>"
    by (rule sample_command [OF short])
  then have "client_status plain_libs sample_client (sample_visit s) = Inr (parse_server_status [])"
    by (simp add: client_status_def checked_command_def require_success_def is_success_def)
  with client_results_authentic show ?thesis by blast
qed

text \<open>
  C33: A guard exists only for a zone the server has confirmed as frozen: in the visit that made the
  guard, the octets of the server open an authentic session and answer the freeze command for
  this zone with success. The guard begins to thaw that zone exactly once, whether it is dropped
  or thawed; dropping it again does nothing.
\<close>

theorem frozen_zone_thawed_once:
  assumes "freeze_guard libs c v no_runtime zone = Inr g"
  shows "(\<exists>resp. is_success resp \<and> visit_answered libs c v (CmdFreeze (Some (client_zone_target c zone))) resp)
    \<and> snd (guard_drop g) = [zone] \<and> snd (guard_drop (fst (guard_drop g))) = []
    \<and> guard_thaw thaw g = ([zone], thaw zone)"
proof -
  from assms obtain resp where "checked_command libs c v ''freeze'' (CmdFreeze (Some (client_zone_target c zone))) = Inr resp"
    and g: "fg_frozen g = Some (make_frozen_zone zone)"
    by (auto simp: freeze_guard_def client_freeze_def guard_for_client_def result_simps split: option.splits)
  with checked_command_Inr [OF this(1)] show ?thesis
    by (auto simp: guard_drop_def guard_thaw_def make_frozen_zone_def Let_def)
qed

theorem frozen_zone_thawed_once_witness:
  "\<exists>s resp. visit_answered plain_libs sample_client (sample_visit s) (CmdFreeze (Some (zone_target_new domain_root))) resp"
proof -
  have "name_display domain_root = ''.''" by code_simp
  then have "length (to_command_string (CmdFreeze (Some (client_zone_target sample_client domain_root)))) \<le> 100"
    by (simp add: command_with_target_def client_target_text)
  then obtain s where "client_rndc_command plain_libs sample_client (sample_visit s) (CmdFreeze (Some (client_zone_target sample_client domain_root)))
      = Inr \<lparr>rsp_text = [], rsp_result = RndcSuccess\<rparr>"
    by (rule sample_command)
  then have "freeze_guard plain_libs sample_client (sample_visit s) None domain_root = Inr \<lparr>fg_frozen = Some (make_frozen_zone domain_root)\<rparr>"
    by (simp add: freeze_guard_def client_freeze_def checked_command_def require_success_def is_success_def guard_for_client_def)
  from frozen_zone_thawed_once [OF this] show ?thesis
    by (intro exI [of _ s]) (auto simp: client_zone_target_def)
qed

text \<open>
  \<open>advance\<close> tells the server that the DS is published exactly when the status it has read, a
  verified answer, has a KSK or CSK in the state RUMOURED; in the format of BIND 9.20, whose key
  lines carry no state, it never does.
\<close>

lemma rollover_confirms_iff:
  "(dnssec_checkds_command c zone DsStatePublished \<in> set (fst (rollover_advance libs c v1 v2 v3 zone))
     \<longleftrightarrow> (\<exists>resp status. checked_command libs c v1 ''dnssec -status'' (dnssec_status_command c zone) = Inr resp
        \<and> visit_answered libs c v1 (dnssec_status_command c zone) resp
        \<and> dnssec_status_parse (rsp_text resp) = Inr status \<and> \<not> list_all bind_line (text_lines (rsp_text resp))
        \<and> list_ex pending_key (ds_keys status)))"
proof -
  have differ: "dnssec_checkds_command c zone DsStatePublished \<noteq> dnssec_status_command c zone"
    by (simp add: dnssec_checkds_command_def dnssec_status_command_def)
  have "dnssec_checkds_command c zone DsStatePublished \<in> set (fst (rollover_advance libs c v1 v2 v3 zone))
      \<longleftrightarrow> (\<exists>w. rollover_check libs c v1 zone = Inr w \<and> rw_state w = WaitingForDs)"
    using differ by (auto simp: rollover_advance_def Let_def split: sum.splits)
  also have "\<dots> \<longleftrightarrow> (\<exists>resp status. checked_command libs c v1 ''dnssec -status'' (dnssec_status_command c zone) = Inr resp
      \<and> dnssec_status_parse (rsp_text resp) = Inr status \<and> fst (derive_state status) = WaitingForDs)"
    unfolding rollover_check_def client_dnssec_status_def rmap_eq_Inr rbind_eq_Inr Let_def case_prod_beta by auto
  also have "\<dots> \<longleftrightarrow> (\<exists>resp status. checked_command libs c v1 ''dnssec -status'' (dnssec_status_command c zone) = Inr resp
        \<and> visit_answered libs c v1 (dnssec_status_command c zone) resp
        \<and> dnssec_status_parse (rsp_text resp) = Inr status \<and> \<not> list_all bind_line (text_lines (rsp_text resp))
        \<and> list_ex pending_key (ds_keys status))"
  proof -
    have "fst (derive_state status) = WaitingForDs \<longleftrightarrow> list_ex pending_key (ds_keys status)" for status
      by (simp add: derive_state_iff)
    then show ?thesis using bind_status_derived checked_command_Inr by metis
  qed
  finally show ?thesis .
qed

text \<open>
  A verified update succeeds only when the name server, in a response that is verified if the
  update is signed, reports success, and the serials of the zone before and after are different
  and the later one is not the smaller of the two.
\<close>

lemma verified_update_applied:
  assumes "send_update_verified lib net slib get0 get1 c update zone = Inr result"
  shows "ur_rcode result = NoError
    \<and> (\<exists>addr. cc_dns_addr (bc_config c) = Some addr
        \<and> nsupdate_send lib (un_clock net) (un_udp net addr) (un_tcp net addr) update
            (if is_signed update then Some (cc_rndc_key (bc_config c)) else None) = Inr result)
    \<and> (\<exists>z0 z1. client_zone_stats slib get0 c zone = Inr z0 \<and> client_zone_stats slib get1 c zone = Inr z1
        \<and> name_eq (zs_name z0) zone \<and> name_eq (zs_name z1) zone
        \<and> serial_value (zs_serial z0) \<noteq> serial_value (zs_serial z1)
        \<and> serial_partial_cmp (zs_serial z1) (zs_serial z0) \<noteq> Some Less)"
proof -
  from assms obtain z0 z1 where z: "client_zone_stats slib get0 c zone = Inr z0" "client_zone_stats slib get1 c zone = Inr z1"
    and sent: "client_send_update lib net c update = Inr result" and le: "\<not> serial_le (zs_serial z1) (zs_serial z0)"
    by (auto simp: send_update_verified_def result_simps)
  have "name_eq (zs_name z) zone" if "client_zone_stats slib get c zone = Inr z" for get z
  proof -
    from that obtain zones where "select_zone_stats zones zone None = Inr z"
      by (auto simp: client_zone_stats_def fetch_zone_stats_def result_simps)
    then have "filter (\<lambda>z. name_eq (zs_name z) zone) zones = [z]"
      by (auto simp: select_zone_stats_def split: list.splits)
    then have "z \<in> set (filter (\<lambda>z. name_eq (zs_name z) zone) zones)" by simp
    then show ?thesis by simp
  qed
  moreover from sent obtain addr r where "cc_dns_addr (bc_config c) = Some addr"
    "nsupdate_send lib (un_clock net) (un_udp net addr) (un_tcp net addr) update
            (if is_signed update then Some (cc_rndc_key (bc_config c)) else None) = Inr r"
    "classify_update_result r = Inr result"
    by (auto simp: client_send_update_def result_simps Let_def)
  moreover from this(3) have "r = result" "ur_rcode result = NoError"
    by (auto simp: classify_update_result_def split: rcode.splits)
  moreover from le have "serial_value (zs_serial z0) \<noteq> serial_value (zs_serial z1)"
    "serial_partial_cmp (zs_serial z1) (zs_serial z0) \<noteq> Some Less"
    by (auto simp: serial_le_def serial_partial_cmp_def)
  ultimately show ?thesis using z by blast
qed

text \<open>
  The view of a client does not reach its statistics: when the zone exists in two views, a
  client for one of them gets the error that asks for a view, and a verified update fails before it
  is sent, although the statistics for that view are there.
\<close>

lemma statistics_ignore_view:
  assumes "client_stats_client slib c = Inr sc" "fetch_zones get0 sc = Inr zones"
    and "filter (\<lambda>z. name_eq (zs_name z) zone) zones = z # z' # others"
    and "filter (\<lambda>z. zs_view z = view) (z # z' # others) = [own]"
  shows "fetch_zone_stats_in_view get0 sc view zone = Inr own
    \<and> (\<exists>e. client_zone_stats slib get0 (for_view c view) zone = Inl e
          \<and> send_update_verified lib net slib get0 get1 (for_view c view) update zone = Inl e)"
proof -
  have "client_stats_client slib (for_view c view) = Inr sc"
    using assms(1) by (simp add: client_stats_client_def for_view_def)
  then have "\<exists>e. client_zone_stats slib get0 (for_view c view) zone = Inl e"
    by (simp add: client_zone_stats_def fetch_zone_stats_def assms(2,3) select_zone_stats_def)
  moreover have "filter (\<lambda>z. name_eq (zs_name z) zone \<and> zs_view z = view) zones = [own]"
    using assms(3,4) by (metis filter_filter)
  then have "fetch_zone_stats_in_view get0 sc view zone = Inr own"
    by (simp add: fetch_zone_stats_in_view_def assms(2) select_zone_stats_def)
  ultimately show ?thesis by (auto simp: send_update_verified_def)
qed

section \<open>A concrete statistics channel\<close>

definition sample_stats_libs :: stats_libs where
  "sample_stats_libs =
     \<lparr>sl_url_parse = (\<lambda>u. Inr \<lparr>pu_scheme = ''https'', pu_host = None, pu_text = u\<rparr>), sl_build = (\<lambda>_. Inr ()),
      sl_server = (\<lambda>_. HttpFails [])\<rparr>"

definition sample_entry :: "u32 \<Rightarrow> raw_zone_entry" where
  "sample_entry n = \<lparr>rz_name = [], rz_class = None, rz_serial = Some n, rz_type = None, rz_loaded = None\<rparr>"

definition sample_zone :: "u32 \<Rightarrow> raw_view" where
  "sample_zone n = \<lparr>rv_resolver = None, rv_zones = [sample_entry n]\<rparr>"

definition sample_get :: "(string, raw_view) btree \<Rightarrow> zones_get" where
  "sample_get views = (\<lambda>_. HttpAnswered 200 None (Inr views))"

definition sample_zone_stats :: "string \<Rightarrow> u32 \<Rightarrow> zone_stats" where
  "sample_zone_stats view n =
     \<lparr>zs_view = view, zs_name = domain_root, zs_class = IN, zs_serial = Serial n, zs_record_count = None,
      zs_type = ''unknown'', zs_loaded = None\<rparr>"

definition stats_client_sample :: bind9_client where
  "stats_client_sample = bind9_client_new (sample_config\<lparr>cc_stats_url := Some ''u'', cc_dns_addr := Some (SocketV6 1 53 0)\<rparr>)"

lemma sample_stats_client: "client_stats_client sample_stats_libs stats_client_sample = Inr \<lparr>sc_url = ''u''\<rparr>"
  by (simp add: client_stats_client_def sample_stats_libs_def stats_client_sample_def bind9_client_new_def stats_client_new_def
      validate_stats_url_def strip_suffix_def strip_prefix_def)

lemma sample_entry_read: "zone_stats_from_raw view (sample_entry n) = Inr (sample_zone_stats view n)"
  by (simp add: zone_stats_from_raw_def sample_entry_def domain_new_def zone_class_of_def sample_zone_stats_def)

lemma sample_zones:
  "fetch_zones (sample_get [(''a'', sample_zone 1)]) sc = Inr [sample_zone_stats ''a'' 1]"
  "fetch_zones (sample_get [(''a'', sample_zone 2)]) sc = Inr [sample_zone_stats ''a'' 2]"
  "fetch_zones (sample_get [(''a'', sample_zone 1), (''b'', sample_zone 2)]) sc
     = Inr [sample_zone_stats ''a'' 1, sample_zone_stats ''b'' 2]"
proof -
  have body: "http_json what (sample_get views url) = Inr views" for what views url
    by (simp add: sample_get_def http_json_def word_le_nat_alt word_less_nat_alt)
  show "fetch_zones (sample_get [(''a'', sample_zone 1)]) sc = Inr [sample_zone_stats ''a'' 1]"
    "fetch_zones (sample_get [(''a'', sample_zone 2)]) sc = Inr [sample_zone_stats ''a'' 2]"
    "fetch_zones (sample_get [(''a'', sample_zone 1), (''b'', sample_zone 2)]) sc
       = Inr [sample_zone_stats ''a'' 1, sample_zone_stats ''b'' 2]"
    by (simp_all add: fetch_zones_def body parse_zones_response_def sample_zone_def sample_entry_read
        sample_zone_stats_def less_eq_prod_def less_char_def)
qed

lemma root_eq: "name_eq domain_root domain_root" by code_simp

lemma verified_update_applied_witness:
  "send_update_verified plain_lib \<lparr>un_clock = Inr 0, un_udp = (\<lambda>_. Inr [0, 1, 0xA8, 0, 0, 0, 0, 0, 0, 0, 0, 0]), un_tcp = (\<lambda>_. Inr [])\<rparr>
     sample_stats_libs (sample_get [(''a'', sample_zone 1)]) (sample_get [(''a'', sample_zone 2)]) stats_client_sample
     \<lparr>um_wire = [], um_id = 1, um_request_mac = None, um_pre_tsig_len = None\<rparr> domain_root
   = Inr \<lparr>ur_rcode = NoError, ur_id = 1\<rparr> \<and> ur_rcode \<lparr>ur_rcode = NoError, ur_id = 1\<rparr> = NoError" (is "?sent = _ \<and> _")
proof -
  let ?net = "\<lparr>un_clock = Inr 0, un_udp = (\<lambda>_. Inr [0, 1, 0xA8, 0, 0, 0, 0, 0, 0, 0, 0, 0]), un_tcp = (\<lambda>_. Inr [])\<rparr>"
  let ?update = "\<lparr>um_wire = [], um_id = 1, um_request_mac = None, um_pre_tsig_len = None\<rparr>"
  have stats: "client_zone_stats sample_stats_libs (sample_get [(''a'', sample_zone 1)]) stats_client_sample domain_root
      = Inr (sample_zone_stats ''a'' 1)"
    "client_zone_stats sample_stats_libs (sample_get [(''a'', sample_zone 2)]) stats_client_sample domain_root
      = Inr (sample_zone_stats ''a'' 2)"
    using root_eq by (simp_all add: client_zone_stats_def sample_stats_client fetch_zone_stats_def sample_zones select_zone_stats_def
        sample_zone_stats_def)
  have "parse_dns_response [0, 1, 0xA8, 0, 0, 0, 0, 0, 0, 0, 0, 0] = Inr \<lparr>ur_rcode = NoError, ur_id = 1\<rparr>" by code_simp
  moreover have "\<not> is_truncated [0, 1, 0xA8, 0, 0, 0, 0, 0, 0, 0, 0, 0]" by code_simp
  ultimately have "client_send_update plain_lib ?net stats_client_sample ?update = Inr \<lparr>ur_rcode = NoError, ur_id = 1\<rparr>"
    by (simp add: client_send_update_def stats_client_sample_def bind9_client_new_def nsupdate_send_def is_signed_def
        classify_update_result_def)
  then have sent: "?sent = Inr \<lparr>ur_rcode = NoError, ur_id = 1\<rparr>"
    by (simp add: send_update_verified_def stats) (simp add: sample_zone_stats_def serial_le_def serial_partial_cmp_def)
  with verified_update_applied [OF sent] show ?thesis by blast
qed

lemma statistics_ignore_view_witness:
  "\<exists>e. client_zone_stats sample_stats_libs (sample_get [(''a'', sample_zone 1), (''b'', sample_zone 2)])
     (for_view stats_client_sample ''b'') domain_root = Inl e"
proof -
  have "filter (\<lambda>z. name_eq (zs_name z) domain_root) [sample_zone_stats ''a'' 1, sample_zone_stats ''b'' 2]
      = [sample_zone_stats ''a'' 1, sample_zone_stats ''b'' 2]"
    using root_eq by (simp add: sample_zone_stats_def)
  moreover have "filter (\<lambda>z. zs_view z = ''b'') [sample_zone_stats ''a'' 1, sample_zone_stats ''b'' 2] = [sample_zone_stats ''b'' 2]"
    by (simp add: sample_zone_stats_def)
  ultimately show ?thesis
    using statistics_ignore_view [OF sample_stats_client sample_zones(3)] by blast
qed

end
