(* ===== verification/Cli_Config.thy ===== *)
theory Cli_Config
  imports Client Zone_Text
begin

text \<open>
  The command line tool up to its commands: errors and exit codes (\<open>error.rs\<close>), the credential
  store (\<open>keyring.rs\<close>, \<open>commands/auth.rs\<close>), the configuration file (\<open>config.rs\<close>) and the
  configuration of the client that follows from both and from the flags (\<open>connect.rs\<close>). The
  credential store, the TOML reader, the file system, the resolver of host names and base64 are
  libraries: what they answer is input.
\<close>

section \<open>Errors\<close>

text \<open>The errors of the credential store are those of the \<open>keyring\<close> library: one is tested for.\<close>

datatype keyring_error = NoEntry | OtherKeyring string

datatype cli_error =
    NetFailure net_error
  | CoreFailure core_error
  | ConfigFailure string
  | IoFailure string
  | TomlFailure string
  | KeyringFailure keyring_error

fun exit_code :: "cli_error \<Rightarrow> nat" where
  "exit_code (ConfigFailure _) = 2"
| "exit_code (TomlFailure _) = 2"
| "exit_code _ = 1"

section \<open>The credential store\<close>

text \<open>
  An entry is opened for a service and a user; opening it may fail. The state of the store is
  the type \<open>'s\<close>.
\<close>

record 's credential_store =
  cs_open :: "string \<Rightarrow> string \<Rightarrow> keyring_error + unit"
  cs_get :: "'s \<Rightarrow> string \<Rightarrow> string \<Rightarrow> keyring_error + string"
  cs_set :: "'s \<Rightarrow> string \<Rightarrow> string \<Rightarrow> string \<Rightarrow> 's \<times> (keyring_error + unit)"
  cs_delete :: "'s \<Rightarrow> string \<Rightarrow> string \<Rightarrow> 's \<times> (keyring_error + unit)"

definition service_name :: string where
  "service_name = ''bind9-sdk''"

definition keyring_username :: "string \<Rightarrow> string" where
  "keyring_username profile = ''tsig-key:'' @ profile"

definition get_secret :: "'s credential_store \<Rightarrow> 's \<Rightarrow> string \<Rightarrow> keyring_error + string option" where
  "get_secret cs s profile =
     (let user = keyring_username profile in
      rbind (cs_open cs service_name user) (\<lambda>_.
      case cs_get cs s service_name user of
        Inr password \<Rightarrow> Inr (Some password)
      | Inl NoEntry \<Rightarrow> Inr None
      | Inl e \<Rightarrow> Inl e))"

definition set_secret :: "'s credential_store \<Rightarrow> 's \<Rightarrow> string \<Rightarrow> string \<Rightarrow> 's \<times> (keyring_error + unit)" where
  "set_secret cs s profile secret =
     (let user = keyring_username profile in
      case cs_open cs service_name user of
        Inl e \<Rightarrow> (s, Inl e)
      | Inr _ \<Rightarrow> cs_set cs s service_name user secret)"

definition delete_secret :: "'s credential_store \<Rightarrow> 's \<Rightarrow> string \<Rightarrow> 's \<times> (keyring_error + unit)" where
  "delete_secret cs s profile =
     (let user = keyring_username profile in
      case cs_open cs service_name user of
        Inl e \<Rightarrow> (s, Inl e)
      | Inr _ \<Rightarrow>
          (case cs_delete cs s service_name user of
             (s', Inr ()) \<Rightarrow> (s', Inr ())
           | (s', Inl NoEntry) \<Rightarrow> (s', Inr ())
           | (s', Inl e) \<Rightarrow> (s', Inl e)))"

text \<open>\<open>auth set-key\<close> and \<open>auth delete-key\<close>; the secret comes from the flag or from the terminal.\<close>

datatype auth_command =
    SetKey string "string option"
  | DeleteKey string

definition auth_execute ::
    "'s credential_store \<Rightarrow> string + string \<Rightarrow> 's \<Rightarrow> auth_command \<Rightarrow> 's \<times> (cli_error + unit)" where
  "auth_execute cs terminal s cmd =
     (case cmd of
        SetKey profile secret \<Rightarrow>
          (case (case secret of Some x \<Rightarrow> Inr x | None \<Rightarrow> rmap trim (map_err IoFailure terminal)) of
             Inl e \<Rightarrow> (s, Inl e)
           | Inr value \<Rightarrow> map_prod id (map_err KeyringFailure) (set_secret cs s profile value))
      | DeleteKey profile \<Rightarrow> map_prod id (map_err KeyringFailure) (delete_secret cs s profile))"

section \<open>The configuration file\<close>

record server_config =
  fs_host :: string
  fs_port :: u16
  fs_stats_url :: "string option"
  fs_dns_port :: "u16 option"
  fs_protected_rndc :: bool

record auth_config =
  fa_key_name :: string
  fa_key_secret :: string
  fa_algorithm :: string

record cli_config =
  cf_server :: server_config
  cf_auth :: "auth_config option"

definition default_port :: u16 where
  "default_port = 953"

definition default_algorithm :: string where
  "default_algorithm = ''hmac-sha256''"

text \<open>The tables of the file, where the fields with a default may be missing.\<close>

record raw_server =
  rs_host :: string
  rs_port :: "u16 option"
  rs_stats_url :: "string option"
  rs_dns_port :: "u16 option"
  rs_protected_rndc :: "bool option"

record raw_auth =
  ra_key_name :: string
  ra_key_secret :: string
  ra_algorithm :: "string option"

definition or_default :: "'a \<Rightarrow> 'a option \<Rightarrow> 'a" where
  "or_default d x = (case x of Some v \<Rightarrow> v | None \<Rightarrow> d)"

definition server_config_of :: "raw_server \<Rightarrow> server_config" where
  "server_config_of r = \<lparr>fs_host = rs_host r, fs_port = or_default default_port (rs_port r),
     fs_stats_url = rs_stats_url r, fs_dns_port = rs_dns_port r,
     fs_protected_rndc = or_default False (rs_protected_rndc r)\<rparr>"

definition auth_config_of :: "raw_auth \<Rightarrow> auth_config" where
  "auth_config_of r = \<lparr>fa_key_name = ra_key_name r, fa_key_secret = ra_key_secret r,
     fa_algorithm = or_default default_algorithm (ra_algorithm r)\<rparr>"

text \<open>The surroundings of the tool: the file, the resolver and base64.\<close>

record cli_env =
  ce_path :: "string option"
  ce_exists :: "string \<Rightarrow> bool"
  ce_read :: "string \<Rightarrow> string + string"
  ce_toml :: "string \<Rightarrow> string + raw_server \<times> raw_auth option"
  ce_resolve :: "string \<Rightarrow> string + socket_addr list"
  ce_base64 :: "byte list \<Rightarrow> byte list option"

definition config_from_str :: "cli_env \<Rightarrow> string \<Rightarrow> cli_error + cli_config" where
  "config_from_str env text =
     rmap (\<lambda>(server, auth). \<lparr>cf_server = server_config_of server, cf_auth = map_option auth_config_of auth\<rparr>)
       (map_err TomlFailure (ce_toml env text))"

definition config_load :: "cli_env \<Rightarrow> cli_error + cli_config option" where
  "config_load env =
     (case ce_path env of
        None \<Rightarrow> Inr None
      | Some path \<Rightarrow>
          if \<not> ce_exists env path then Inr None
          else rbind (map_err IoFailure (ce_read env path)) (\<lambda>content.
               rmap Some (config_from_str env content)))"

section \<open>The configuration of the client\<close>

record cli_args =
  ca_server :: "string option"
  ca_port :: "u16 option"
  ca_dns_port :: "u16 option"
  ca_stats_url :: "string option"
  ca_protected_rndc :: bool
  ca_key_name :: "string option"
  ca_key_secret :: "string option"

text \<open>
  \<open>to_lowercase\<close> is compared with ASCII names only; a letter outside ASCII is lowered to none of
  their letters, so only the text of the error can differ.
\<close>

definition parse_algorithm :: "string \<Rightarrow> cli_error + tsig_algorithm" where
  "parse_algorithm s =
     (let other = lower_text s in
      if other = ''hmac-sha256'' then Inr HmacSha256
      else if other = ''hmac-sha512'' then Inr HmacSha512
      else if other = ''hmac-sha1'' then Inr HmacSha1
      else Inl (ConfigFailure (''unsupported TSIG algorithm: '' @ other
             @ '' (supported: hmac-sha256, hmac-sha512)'')))"

definition resolve_stats_url :: "string option \<Rightarrow> string option \<Rightarrow> string option" where
  "resolve_stats_url cli_url configured_url = or_else cli_url configured_url"

text \<open>The secret: the flag, then the credential store (an error of which is passed over), then the file.\<close>

definition resolve_secret ::
    "'s credential_store \<Rightarrow> 's \<Rightarrow> cli_args \<Rightarrow> cli_config option \<Rightarrow> string \<Rightarrow> string option" where
  "resolve_secret cs s cli file profile =
     (case ca_key_secret cli of
        Some secret \<Rightarrow> Some secret
      | None \<Rightarrow>
          let keyring_secret = (case get_secret cs s profile of Inl _ \<Rightarrow> None | Inr x \<Rightarrow> x)
          in or_else keyring_secret (map_option fa_key_secret (Option.bind file cf_auth)))"

definition key_domain :: "string \<Rightarrow> cli_error + domain_name" where
  "key_domain name =
     map_err (\<lambda>e. ConfigFailure (''invalid key name '' @ [CHR 0x27] @ name @ [CHR 0x27] @ '': '' @ core_error_display e))
       (case domain_new name of Inr d \<Rightarrow> Inr d | Inl _ \<Rightarrow> domain_new (name @ ''.''))"

text \<open>The first address of \<open>host:port\<close>; \<open>what\<close> is the kind of address, for the message.\<close>

definition host_port :: "string \<Rightarrow> u16 \<Rightarrow> string" where
  "host_port host p = host @ '':'' @ show_u p"

definition first_address :: "cli_env \<Rightarrow> string \<Rightarrow> string \<Rightarrow> cli_error + socket_addr" where
  "first_address env what dest =
     rbind (map_err (\<lambda>e. ConfigFailure (''cannot resolve '' @ what @ '' address '' @ [CHR 0x27] @ dest @ [CHR 0x27] @ '': '' @ e))
              (ce_resolve env dest)) (\<lambda>addrs.
     case addrs of
       [] \<Rightarrow> Inl (ConfigFailure (''no addresses found for '' @ [CHR 0x27] @ dest @ [CHR 0x27]))
     | a # _ \<Rightarrow> Inr a)"

definition build_client_config ::
    "'s credential_store \<Rightarrow> 's \<Rightarrow> cli_env \<Rightarrow> cli_args \<Rightarrow> cli_error + client_config option" where
  "build_client_config cs s env cli =
     rbind (config_load env) (\<lambda>file.
     let rndc_port = or_default 953 (or_else (ca_port cli) (map_option (fs_port \<circ> cf_server) file)) in
     case or_else (ca_server cli) (map_option (fs_host \<circ> cf_server) file) of
       None \<Rightarrow> Inr None
     | Some host \<Rightarrow>
         let name = or_else (ca_key_name cli) (map_option fa_key_name (Option.bind file cf_auth));
             secret = resolve_secret cs s cli file (host_port host rndc_port)
         in (case (name, secret) of
           (Some name, Some secret) \<Rightarrow>
             rbind (parse_algorithm (or_default ''hmac-sha256'' (map_option fa_algorithm (Option.bind file cf_auth)))) (\<lambda>alg.
             rbind (key_domain name) (\<lambda>domain.
             rbind (map_err (\<lambda>e. ConfigFailure (''invalid key secret: '' @ core_error_display e))
                      (tsig_key_from_base64 (ce_base64 env) domain alg secret)) (\<lambda>key.
             rbind (first_address env ''server'' (host_port host rndc_port)) (\<lambda>addr.
             let config = client_config_new addr key;
                 protected_rndc = (ca_protected_rndc cli
                   \<or> (case file of None \<Rightarrow> False | Some f \<Rightarrow> fs_protected_rndc (cf_server f)));
                 config = (if protected_rndc then config\<lparr>cc_rndc_transport := ProtectedNetwork\<rparr> else config)
             in rbind (case or_else (ca_dns_port cli) (Option.bind file (fs_dns_port \<circ> cf_server)) of
                  None \<Rightarrow> Inr config
                | Some dns_port \<Rightarrow> rmap (\<lambda>dns_addr. config\<lparr>cc_dns_addr := Some dns_addr\<rparr>)
                    (first_address env ''DNS'' (host_port host dns_port))) (\<lambda>config.
             Inr (Some (config\<lparr>cc_stats_url := resolve_stats_url (ca_stats_url cli)
                    (Option.bind file (fs_stats_url \<circ> cf_server))\<rparr>)))))))
         | _ \<Rightarrow> Inr None))"

end
