(* ===== verification/Cli.thy ===== *)
theory Cli
  imports Cli_Config Transfer_Stream
begin

text \<open>
  The commands of the command line tool (\<open>commands/\<close>, \<open>main.rs\<close>). A command yields a report, which
  is printed, or an error; the world a command meets (the network, clocks, files) is input. The
  texts are those of the output format text; JSON is written by a library from the same reports.
\<close>

section \<open>World, reports, configuration\<close>

record cli_world =
  cw_rndc :: rndc_libs
  cw_visit :: visit
  cw_codecs :: zone_codecs
  cw_update :: update_net
  cw_random :: "string + byte list"
  cw_sign_clock :: "string + u64"
  cw_stats :: stats_libs
  cw_zones :: zones_get
  cw_tcp :: "string + unit"
  cw_reads :: "read_outcome list"
  cw_file :: "string \<Rightarrow> string + string"

type_synonym 'a cli_result = "cli_error fault + 'a"

abbreviation refuse :: "cli_error + 'a \<Rightarrow> 'a cli_result" where
  "refuse \<equiv> map_err fault.Failed"

text \<open>An error of the core library, panics of the zone parser included.\<close>

abbreviation core_fault :: "core_error fault + 'a \<Rightarrow> 'a cli_result" where
  "core_fault \<equiv> map_err (map_fault CoreFailure)"

definition em_dash :: string where
  "em_dash = [CHR 0xE2, CHR 0x80, CHR 0x94]"

definition require_config :: "client_config option \<Rightarrow> cli_error + client_config" where
  "require_config config =
     ok_or (ConfigFailure (''server connection required '' @ em_dash
       @ '' provide --server and --key-* flags or a config file'')) config"

definition require_dns_addr :: "string \<Rightarrow> client_config \<Rightarrow> cli_error + socket_addr" where
  "require_dns_addr message config = ok_or (ConfigFailure message) (cc_dns_addr config)"

text \<open>\<open>what\<close> is \<open>zone\<close> or \<open>record\<close>.\<close>

definition named :: "string \<Rightarrow> string \<Rightarrow> cli_error + domain_name" where
  "named what name =
     map_err (\<lambda>e. ConfigFailure (''invalid '' @ what @ '' name: '' @ core_error_display e)) (domain_new name)"

section \<open>Records\<close>

datatype record_command =
    RecordAdd string string string string u32
  | RecordDelete string string string "string option"

text \<open>What is printed: success, or a message.\<close>

datatype record_report = Success string | Message string

definition parse_record_type :: "string \<Rightarrow> cli_error + record_type" where
  "parse_record_type s =
     (let other = upper_text s in
      if other = ''A'' then Inr RT_A
      else if other = ''AAAA'' then Inr RT_Aaaa
      else if other = ''CNAME'' then Inr RT_Cname
      else if other = ''NS'' then Inr RT_Ns
      else if other = ''PTR'' then Inr RT_Ptr
      else if other = ''SOA'' then Inr RT_Soa
      else if other = ''MX'' then Inr RT_Mx
      else if other = ''TXT'' then Inr RT_Txt
      else if other = ''SRV'' then Inr RT_Srv
      else if other = ''CAA'' then Inr RT_Caa
      else if other = ''DNSKEY'' then Inr RT_Dnskey
      else if other = ''RRSIG'' then Inr RT_Rrsig
      else if other = ''NSEC'' then Inr RT_Nsec
      else if other = ''NSEC3'' then Inr RT_Nsec3
      else if other = ''NSEC3PARAM'' then Inr RT_Nsec3param
      else if other = ''DS'' then Inr RT_Ds
      else if other = ''CDS'' then Inr RT_Cds
      else if other = ''CDNSKEY'' then Inr RT_Cdnskey
      else if other = ''TLSA'' then Inr RT_Tlsa
      else if other = ''SSHFP'' then Inr RT_Sshfp
      else if other = ''CSYNC'' then Inr RT_Csync
      else if other = ''RP'' then Inr RT_Rp
      else if other = ''DLV'' then Inr RT_Dlv
      else case strip_prefix ''TYPE'' other of
        Some num_str \<Rightarrow>
          rmap record_type_from_value (ok_or (ConfigFailure (''invalid TYPE number: '' @ other)) (parse_u16 num_str))
      | None \<Rightarrow> Inl (ConfigFailure (''unsupported record type: '' @ s)))"

text \<open>The zone file that holds just the record on the command line, and its first record.\<close>

definition record_file :: "string \<Rightarrow> string \<Rightarrow> string \<Rightarrow> string \<Rightarrow> u32 \<Rightarrow> string" where
  "record_file zone name rtype data t =
     ''$ORIGIN '' @ zone @ [lf] @ ''$TTL '' @ show_u t @ [lf]
     @ name @ '' '' @ show_u t @ '' IN '' @ rtype @ '' '' @ data @ [lf]"

definition typed_record ::
    "zone_codecs \<Rightarrow> string \<Rightarrow> string \<Rightarrow> string \<Rightarrow> string \<Rightarrow> u32 \<Rightarrow> resource_record cli_result" where
  "typed_record lib zone name rtype data t =
     rbind (core_fault (zone_file_parse lib (record_file zone name rtype data t))) (\<lambda>zf.
     case zone_records (zf_zone zf) of
       [] \<Rightarrow> refuse (Inl (ConfigFailure ''failed to parse record from input''))
     | rr # _ \<Rightarrow> Inr rr)"

text \<open>The steps from the builder to the signed message.\<close>

definition new_update :: "cli_world \<Rightarrow> domain_name \<Rightarrow> cli_error + update_builder" where
  "new_update w zone = map_err CoreFailure (builder_new True (cw_random w) zone IN)"

definition sign_update :: "cli_world \<Rightarrow> client_config \<Rightarrow> update_builder \<Rightarrow> cli_error + update_message" where
  "sign_update w config b =
     rmap builder_build (map_err CoreFailure (sign_now (rl_mac (cw_rndc w)) (cw_sign_clock w) b (cc_rndc_key config)))"

definition send_signed :: "cli_world \<Rightarrow> client_config \<Rightarrow> socket_addr \<Rightarrow> update_message \<Rightarrow> cli_error + update_result" where
  "send_signed w config addr update =
     map_err NetFailure (nsupdate_send (rl_mac (cw_rndc w)) (un_clock (cw_update w)) (un_udp (cw_update w) addr)
       (un_tcp (cw_update w) addr) update (Some (cc_rndc_key config)))"

text \<open>The update a command sends and the address it goes to, apart from the sending.\<close>

record prepared =
  pr_addr :: socket_addr
  pr_config :: client_config
  pr_zone :: domain_name
  pr_update :: update_message

abbreviation dns_port_message :: string where
  "dns_port_message \<equiv> ''dns_port must be configured for record operations''"

definition prepare_add ::
    "cli_world \<Rightarrow> client_config option \<Rightarrow> string \<Rightarrow> string \<Rightarrow> string \<Rightarrow> string \<Rightarrow> u32
       \<Rightarrow> (resource_record \<times> prepared) cli_result" where
  "prepare_add w config zone name rtype data t =
     rbind (refuse (require_config config)) (\<lambda>config.
     rbind (refuse (require_dns_addr dns_port_message config)) (\<lambda>addr.
     rbind (refuse (named ''zone'' zone)) (\<lambda>zone_name.
     rbind (typed_record (cw_codecs w) zone name rtype data t) (\<lambda>rr.
     rbind (refuse (new_update w zone_name)) (\<lambda>b.
     rbind (refuse (sign_update w config (add_record b rr))) (\<lambda>update.
     Inr (rr, \<lparr>pr_addr = addr, pr_config = config, pr_zone = zone_name, pr_update = update\<rparr>)))))))"

definition prepare_delete ::
    "cli_world \<Rightarrow> client_config option \<Rightarrow> string \<Rightarrow> string \<Rightarrow> string \<Rightarrow> string option
       \<Rightarrow> (domain_name \<times> prepared) cli_result" where
  "prepare_delete w config zone name rtype data =
     rbind (refuse (require_config config)) (\<lambda>config.
     rbind (refuse (require_dns_addr dns_port_message config)) (\<lambda>addr.
     rbind (refuse (named ''zone'' zone)) (\<lambda>zone_name.
     rbind (refuse (named ''record'' name)) (\<lambda>record_name.
     rbind (refuse (new_update w zone_name)) (\<lambda>b.
     rbind (case data of
         Some data \<Rightarrow> rmap (delete_record b) (typed_record (cw_codecs w) zone name rtype data 0)
       | None \<Rightarrow> refuse (rmap (delete_rrset b record_name) (parse_record_type rtype))) (\<lambda>b.
     rbind (refuse (sign_update w config b)) (\<lambda>update.
     Inr (record_name, \<lparr>pr_addr = addr, pr_config = config, pr_zone = zone_name, pr_update = update\<rparr>))))))))"

definition send_prepared :: "cli_world \<Rightarrow> prepared \<Rightarrow> update_result cli_result" where
  "send_prepared w p = refuse (send_signed w (pr_config p) (pr_addr p) (pr_update p))"

definition record_add ::
    "cli_world \<Rightarrow> client_config option \<Rightarrow> string \<Rightarrow> string \<Rightarrow> string \<Rightarrow> string \<Rightarrow> u32 \<Rightarrow> record_report cli_result" where
  "record_add w config zone name rtype data t =
     rbind (prepare_add w config zone name rtype data t) (\<lambda>(rr, p).
     rmap (\<lambda>result.
         if ur_rcode result = NoError then
           Success (''added: '' @ name_display (rr_name rr) @ '' '' @ ttl_display (rr_ttl rr) @ '' IN '' @ rtype @ '' ''
             @ data @ '' (zone: '' @ name_display (pr_zone p) @ '')'')
         else Message (''server rejected update with RCODE: '' @ rcode_display (ur_rcode result)
             @ '' (zone: '' @ name_display (pr_zone p) @ '')''))
       (send_prepared w p))"

definition record_delete ::
    "cli_world \<Rightarrow> client_config option \<Rightarrow> string \<Rightarrow> string \<Rightarrow> string \<Rightarrow> string option \<Rightarrow> record_report cli_result" where
  "record_delete w config zone name rtype data =
     rbind (prepare_delete w config zone name rtype data) (\<lambda>(record_name, p).
     rmap (\<lambda>result.
         if ur_rcode result = NoError then
           Success (''deleted: '' @ name_display record_name @ '' IN '' @ rtype @ '' '' @ or_default ''*'' data
             @ '' (zone: '' @ name_display (pr_zone p) @ '')'')
         else Message (''server rejected delete with RCODE: '' @ rcode_display (ur_rcode result)
             @ '' (zone: '' @ name_display (pr_zone p) @ '')''))
       (send_prepared w p))"

definition record_execute :: "cli_world \<Rightarrow> client_config option \<Rightarrow> record_command \<Rightarrow> record_report cli_result" where
  "record_execute w config cmd =
     (case cmd of
        RecordAdd zone name rtype data t \<Rightarrow> record_add w config zone name rtype data t
      | RecordDelete zone name rtype data \<Rightarrow> record_delete w config zone name rtype data)"

end
