(* ===== verification/Cli_Commands.thy ===== *)
theory Cli_Commands
  imports Cli
begin

text \<open>
  The commands on zones, DNSSEC and statistics (\<open>commands/zone.rs\<close>, \<open>commands/dnssec.rs\<close>,
  \<open>commands/stats.rs\<close>), the dispatch of a command line and the exit code of the process
  (\<open>main.rs\<close>).
\<close>

section \<open>Zones\<close>

datatype zone_command =
    ZoneList
  | ZoneStatus string
  | ZoneReload string
  | ZoneExport string
  | ZoneDiff string string

record zone_list_entry =
  zl_name :: string
  zl_class :: string
  zl_serial :: u32
  zl_type :: string

definition zone_list_entry_of :: "zone_stats \<Rightarrow> zone_list_entry" where
  "zone_list_entry_of z = \<lparr>zl_name = name_display (zone_stats.zs_name z), zl_class = class_display (zone_stats.zs_class z),
     zl_serial = serial_value (zone_stats.zs_serial z), zl_type = zone_stats.zs_type z\<rparr>"

definition zone_list_display :: "zone_list_entry list \<Rightarrow> string" where
  "zone_list_display zones = concat (map (\<lambda>z. zl_name z @ tab @ zl_class z @ tab @ show_u (zl_serial z)
     @ tab @ zl_type z @ [lf]) zones)"

definition zone_list :: "cli_world \<Rightarrow> client_config option \<Rightarrow> cli_error + zone_list_entry list" where
  "zone_list w config =
     rbind (require_config config) (\<lambda>config.
     rbind (ok_or (ConfigFailure ''stats_url must be configured for zone list; rndc does not expose a zone-name list'')
              (cc_stats_url config)) (\<lambda>url.
     map_err NetFailure (
       rbind (stats_client_new (sl_url_parse (cw_stats w)) url (sl_build (cw_stats w) False)) (\<lambda>client.
       rmap (map zone_list_entry_of) (fetch_zones (cw_zones w) client)))))"

record zone_status_output =
  zt_zone :: string
  zt_status :: string

definition zone_status :: "cli_world \<Rightarrow> client_config option \<Rightarrow> string \<Rightarrow> cli_error + zone_status_output" where
  "zone_status w config zone =
     rbind (require_config config) (\<lambda>config.
     rbind (named ''zone'' zone) (\<lambda>name.
     rmap (\<lambda>status. \<lparr>zt_zone = name_display name, zt_status = status\<rparr>)
       (map_err NetFailure (client_zone_status (cw_rndc w) (bind9_client_new config) (cw_visit w) name))))"

definition zone_reload :: "cli_world \<Rightarrow> client_config option \<Rightarrow> string \<Rightarrow> cli_error + string" where
  "zone_reload w config zone =
     rbind (require_config config) (\<lambda>config.
     rbind (named ''zone'' zone) (\<lambda>name.
     rmap (\<lambda>_. ''zone '' @ name_display name @ '' reloaded'')
       (map_err NetFailure (client_reload_zone (cw_rndc w) (bind9_client_new config) (cw_visit w) name))))"

subsection \<open>Export\<close>

text \<open>\<open>TransferClient::connect\<close>; the second argument tells whether there is a TLS configuration.\<close>

definition transfer_connect :: "socket_addr \<Rightarrow> bool \<Rightarrow> string + unit \<Rightarrow> net_error + unit" where
  "transfer_connect addr tls tcp =
     (if \<not> is_localhost addr \<and> \<not> tls then Inl (TlsRequired (socket_display addr))
      else if tls then Inl (Tls ''use connect_tls() for TLS connections'')
      else map_err (\<lambda>e. Connection (''failed to connect to '' @ socket_display addr @ '': '' @ e)) tcp)"

text \<open>A record as a line: it is written as a zone file, and the directives are dropped.\<close>

definition format_record :: "zone_codecs \<Rightarrow> resource_record \<Rightarrow> string" where
  "format_record lib rr =
     (let serialized = serialize_zone lib \<lparr>zf_origin = domain_root, zf_default_ttl = Some (rr_ttl rr),
            zf_zone = \<lparr>zone_name = domain_root, zone_class = rr_class rr, zone_records = [rr]\<rparr>\<rparr>
      in join_with [lf] (dropWhile (starts_with ''$'') (text_lines serialized)))"

record export_output =
  ze_zone :: string
  ze_record_count :: nat
  ze_records :: "string list"

definition zone_export_display :: "export_output \<Rightarrow> string" where
  "zone_export_display e = concat (map (\<lambda>r. r @ [lf]) (ze_records e))
     @ ''; Transfer complete: '' @ show_nat (ze_record_count e) @ '' records for '' @ ze_zone e"

fun transferred :: "transfer_record \<Rightarrow> resource_record" where
  "transferred (BeginSoa rr) = rr"
| "transferred (Record rr) = rr"
| "transferred (EndSoa rr) = rr"

text \<open>The records of a complete transfer.\<close>

definition export_report :: "zone_codecs \<Rightarrow> domain_name \<Rightarrow> transfer_record list \<Rightarrow> export_output" where
  "export_report lib name items =
     (let records = map (\<lambda>r. format_record lib (transferred r)) items
      in \<lparr>ze_zone = name_display name, ze_record_count = length records, ze_records = records\<rparr>)"

text \<open>The result is \<open>None\<close> while the stream waits for a read.\<close>

definition zone_export :: "cli_world \<Rightarrow> client_config option \<Rightarrow> string \<Rightarrow> (cli_error + export_output) option" where
  "zone_export w config zone =
     (case rbind (require_config config) (\<lambda>config.
           rbind (require_dns_addr ''dns_port must be configured for zone export (AXFR uses TCP port 53)'' config) (\<lambda>addr.
           rbind (named ''zone'' zone) (\<lambda>name.
           map_err NetFailure (
             rbind (transfer_connect addr False (cw_tcp w)) (\<lambda>_.
             rmap (\<lambda>(sent, stream). (name, stream (cw_reads w)))
               (client_axfr (rl_mac (cw_rndc w)) (cw_random w) (cw_sign_clock w) default_transfer_timeout
                  default_max_records name (Some (cc_rndc_key config)))))))) of
        Inl e \<Rightarrow> Some (Inl e)
      | Inr (name, items, stream_end.Failed e) \<Rightarrow> Some (Inl (NetFailure e))
      | Inr (name, items, Waiting) \<Rightarrow> None
      | Inr (name, items, Done) \<Rightarrow> Some (Inr (export_report (cw_codecs w) name items)))"

subsection \<open>Diff\<close>

record diff_result =
  dr_added :: nat
  dr_removed :: nat
  dr_ttl_changed :: nat
  dr_total :: nat
  dr_diff :: string

text \<open>The loop over the entries: the three counters.\<close>

fun count_entry :: "diff_entry \<Rightarrow> nat \<times> nat \<times> nat \<Rightarrow> nat \<times> nat \<times> nat" where
  "count_entry (DiffAdded _) (a, r, t) = (a + 1, r, t)"
| "count_entry (DiffRemoved _) (a, r, t) = (a, r + 1, t)"
| "count_entry (TtlChanged _ _ _) (a, r, t) = (a, r, t + 1)"

text \<open>\<open>None\<close> when the zones are identical.\<close>

definition diff_result_of :: "diff_entry list \<Rightarrow> diff_result option" where
  "diff_result_of diff =
     (if diff = [] then None
      else case fold count_entry diff (0, 0, 0) of
        (added, removed, ttl_changed) \<Rightarrow>
          Some \<lparr>dr_added = added, dr_removed = removed, dr_ttl_changed = ttl_changed, dr_total = length diff,
            dr_diff = diff_display diff\<rparr>)"

definition zone_diff_files :: "cli_world \<Rightarrow> string \<Rightarrow> string \<Rightarrow> diff_result option cli_result" where
  "zone_diff_files w file_a file_b =
     rbind (refuse (map_err IoFailure (cw_file w file_a))) (\<lambda>content_a.
     rbind (refuse (map_err IoFailure (cw_file w file_b))) (\<lambda>content_b.
     rbind (core_fault (zone_file_parse (cw_codecs w) content_a)) (\<lambda>zone_a.
     rbind (core_fault (zone_file_parse (cw_codecs w) content_b)) (\<lambda>zone_b.
     Inr (diff_result_of (zone_diff (zf_zone zone_a) (zf_zone zone_b)))))))"

section \<open>DNSSEC\<close>

datatype check_ds_state = StatePublished | StateWithdrawn

datatype dnssec_command =
    DnssecStatus string
  | DnssecCheckds string check_ds_state

fun to_rndc :: "check_ds_state \<Rightarrow> ds_state" where
  "to_rndc StatePublished = DsStatePublished"
| "to_rndc StateWithdrawn = DsStateWithdrawn"

text \<open>The derived \<open>Debug\<close> text of the state.\<close>

fun check_ds_state_debug :: "check_ds_state \<Rightarrow> string" where
  "check_ds_state_debug StatePublished = ''Published''"
| "check_ds_state_debug StateWithdrawn = ''Withdrawn''"

record dnssec_key_output =
  ko_tag :: u16
  ko_algorithm :: "string option"
  ko_role :: string
  ko_state :: string

record dnssec_status_output =
  do_zone :: string
  do_policy :: string
  do_keys :: "dnssec_key_output list"

fun role_text :: "key_role \<Rightarrow> string" where
  "role_text Ksk = ''KSK''"
| "role_text Zsk = ''ZSK''"
| "role_text Csk = ''CSK''"

definition dnssec_key_output_of :: "dnssec_key_info \<Rightarrow> dnssec_key_output" where
  "dnssec_key_output_of k = \<lparr>ko_tag = ki_tag k, ko_algorithm = ki_algorithm k, ko_role = role_text (ki_role k),
     ko_state = ki_state k\<rparr>"

definition dnssec_status_output_display :: "dnssec_status_output \<Rightarrow> string" where
  "dnssec_status_output_display d =
     ''zone: '' @ do_zone d @ [lf] @ ''dnssec-policy: '' @ do_policy d @ [lf]
     @ concat (map (\<lambda>k. ''key: '' @ show_u (ko_tag k)
         @ (case ko_algorithm k of Some v \<Rightarrow> '' ('' @ v @ '')'' | None \<Rightarrow> [])
         @ '' '' @ ko_role k @ '', state: '' @ ko_state k @ [lf]) (do_keys d))"

definition cli_dnssec_status :: "cli_world \<Rightarrow> client_config option \<Rightarrow> string \<Rightarrow> cli_error + dnssec_status_output" where
  "cli_dnssec_status w config zone =
     rbind (require_config config) (\<lambda>config.
     rbind (named ''zone'' zone) (\<lambda>name.
     rmap (\<lambda>status. \<lparr>do_zone = name_display name, do_policy = ds_policy status,
             do_keys = map dnssec_key_output_of (ds_keys status)\<rparr>)
       (map_err NetFailure (client_dnssec_status (cw_rndc w) (bind9_client_new config) (cw_visit w) name))))"

definition cli_dnssec_checkds :: "cli_world \<Rightarrow> client_config option \<Rightarrow> string \<Rightarrow> check_ds_state \<Rightarrow> cli_error + string" where
  "cli_dnssec_checkds w config zone state =
     rbind (require_config config) (\<lambda>config.
     rbind (named ''zone'' zone) (\<lambda>name.
     rmap (\<lambda>_. ''recorded parent DS state for '' @ name_display name @ '': '' @ check_ds_state_debug state)
       (map_err NetFailure (client_dnssec_checkds (cw_rndc w) (bind9_client_new config) (cw_visit w) name (to_rndc state)))))"

section \<open>Statistics\<close>

record view_stats_output =
  vo_name :: string
  vo_resolver_stats :: "(string, u64) btree"
  vo_query_types :: "(string, u64) btree"
  vo_cache :: "(string, u64) btree"
  vo_cache_stats :: "(string, u64) btree"
  vo_adb :: "(string, u64) btree"

record memory_context_output =
  mo_id :: string
  mo_name :: string
  mo_references :: u64
  mo_malloced :: u64
  mo_in_use :: u64
  mo_pools :: u64
  mo_high_water :: u64
  mo_low_water :: u64

record memory_output =
  my_in_use :: u64
  my_malloced :: u64
  my_contexts :: "memory_context_output list"

record stats_output =
  so_json_stats_version :: "string option"
  so_version :: "string option"
  so_boot_time :: "string option"
  so_config_time :: "string option"
  so_current_time :: "string option"
  so_queries :: "u64 option"
  so_servfail :: "u64 option"
  so_opcodes :: "(string, u64) btree"
  so_rcodes :: "(string, u64) btree"
  so_views :: "view_stats_output list"
  so_socket :: "(string, u64) btree"
  so_memory :: "memory_output option"
  so_traffic :: "(string, (string, u64) btree) btree"

definition counters_to_map :: "counter_set \<Rightarrow> (string, u64) btree" where
  "counters_to_map counters = btree_insert_all (map (\<lambda>c. (nc_name c, nc_value c)) counters) []"

definition traffic_histogram_to_map :: "traffic_histogram \<Rightarrow> (string, u64) btree" where
  "traffic_histogram_to_map h = counters_to_map (th_buckets h)"

definition view_output_of :: "view_stats \<Rightarrow> view_stats_output" where
  "view_output_of v = \<lparr>vo_name = vs_name v, vo_resolver_stats = counters_to_map (vs_resolver_stats v),
     vo_query_types = counters_to_map (vs_query_types v), vo_cache = counters_to_map (vs_cache v),
     vo_cache_stats = counters_to_map (vs_cache_stats v), vo_adb = counters_to_map (vs_adb v)\<rparr>"

definition memory_context_output_of :: "memory_context_stats \<Rightarrow> memory_context_output" where
  "memory_context_output_of m = \<lparr>mo_id = mc_id m, mo_name = mc_name m, mo_references = mc_references m,
     mo_malloced = mc_malloced m, mo_in_use = mc_in_use m, mo_pools = mc_pools m, mo_high_water = mc_high_water m,
     mo_low_water = mc_low_water m\<rparr>"

definition memory_output_of :: "memory_stats \<Rightarrow> memory_output" where
  "memory_output_of m = \<lparr>my_in_use = ms_in_use m, my_malloced = ms_malloced m,
     my_contexts = map memory_context_output_of (ms_contexts m)\<rparr>"

definition stats_output_of :: "server_stats \<Rightarrow> stats_output" where
  "stats_output_of s =
     \<lparr>so_json_stats_version = sv_json_stats_version s, so_version = sv_version s, so_boot_time = sv_boot_time s,
      so_config_time = sv_config_time s, so_current_time = sv_current_time s,
      so_queries = counter_get (sv_opcodes s) ''QUERY'', so_servfail = counter_get (sv_rcodes s) ''SERVFAIL'',
      so_opcodes = counters_to_map (sv_opcodes s), so_rcodes = counters_to_map (sv_rcodes s),
      so_views = map view_output_of (sv_views s), so_socket = counters_to_map (sv_socket s),
      so_memory = map_option memory_output_of (sv_memory s),
      so_traffic = btree_insert_all (map (\<lambda>h. (th_name h, traffic_histogram_to_map h)) (sv_traffic s)) []\<rparr>"

definition stats_output_display :: "stats_output \<Rightarrow> string" where
  "stats_output_display s =
     (case so_version s of Some v \<Rightarrow> ''BIND version: '' @ v @ [lf] | None \<Rightarrow> [])
     @ (case so_boot_time s of Some v \<Rightarrow> ''Boot time: '' @ v @ [lf] | None \<Rightarrow> [])
     @ (case so_current_time s of Some v \<Rightarrow> ''Snapshot time: '' @ v @ [lf] | None \<Rightarrow> [])
     @ (case so_queries s of Some v \<Rightarrow> ''Queries: '' @ show_u v @ [lf] | None \<Rightarrow> [])
     @ (case so_servfail s of Some v \<Rightarrow> ''SERVFAIL: '' @ show_u v @ [lf] | None \<Rightarrow> [])
     @ ''Views: '' @ show_nat (length (so_views s)) @ [lf]
     @ ''Socket counters: '' @ show_nat (length (so_socket s)) @ [lf]"

definition stats_execute :: "cli_world \<Rightarrow> client_config option \<Rightarrow> cli_error + stats_output" where
  "stats_execute w config =
     rbind (require_config config) (\<lambda>config.
     rmap stats_output_of (map_err NetFailure (client_server_stats (cw_stats w) (bind9_client_new config))))"

section \<open>The command line\<close>

datatype cli_command =
    CommandZone zone_command
  | CommandRecord record_command
  | CommandDnssec dnssec_command
  | CommandAuth auth_command
  | CommandStats
  | CommandCompletions

datatype cli_report =
    ReportZones "zone_list_entry list"
  | ReportZone zone_status_output
  | ReportExport export_output
  | ReportDiff diff_result
  | ReportDnssec dnssec_status_output
  | ReportStats stats_output
  | ReportSuccess string
  | ReportMessage string
  | NoReport

text \<open>What the output format text prints.\<close>

fun report_text :: "cli_report \<Rightarrow> string" where
  "report_text (ReportZones zs) = zone_list_display zs @ [lf]"
| "report_text (ReportZone z) = zt_status z @ [lf]"
| "report_text (ReportExport e) = zone_export_display e @ [lf]"
| "report_text (ReportDiff d) = dr_diff d @ [lf]"
| "report_text (ReportDnssec d) = dnssec_status_output_display d @ [lf]"
| "report_text (ReportStats s) = stats_output_display s @ [lf]"
| "report_text (ReportSuccess m) = m @ [lf]"
| "report_text (ReportMessage m) = m @ [lf]"
| "report_text NoReport = []"

fun report_of_record :: "record_report \<Rightarrow> cli_report" where
  "report_of_record (Success m) = ReportSuccess m"
| "report_of_record (Message m) = ReportMessage m"

definition zone_execute :: "cli_world \<Rightarrow> client_config option \<Rightarrow> zone_command \<Rightarrow> cli_report cli_result option" where
  "zone_execute w config cmd =
     (case cmd of
        ZoneList \<Rightarrow> Some (refuse (rmap ReportZones (zone_list w config)))
      | ZoneStatus zone \<Rightarrow> Some (refuse (rmap ReportZone (zone_status w config zone)))
      | ZoneReload zone \<Rightarrow> Some (refuse (rmap ReportSuccess (zone_reload w config zone)))
      | ZoneExport zone \<Rightarrow> map_option (\<lambda>r. refuse (rmap ReportExport r)) (zone_export w config zone)
      | ZoneDiff a b \<Rightarrow> Some (rmap (\<lambda>d. case d of None \<Rightarrow> ReportMessage ''zones are identical'' | Some r \<Rightarrow> ReportDiff r)
          (zone_diff_files w a b)))"

definition dnssec_execute :: "cli_world \<Rightarrow> client_config option \<Rightarrow> dnssec_command \<Rightarrow> cli_error + cli_report" where
  "dnssec_execute w config cmd =
     (case cmd of
        DnssecStatus zone \<Rightarrow> rmap ReportDnssec (cli_dnssec_status w config zone)
      | DnssecCheckds zone state \<Rightarrow> rmap ReportSuccess (cli_dnssec_checkds w config zone state))"

text \<open>
  \<open>run\<close>: the commands on credentials and the completions need no server. The result is the state
  of the credential store and, unless a transfer still waits, the outcome.
\<close>

definition cli_run ::
    "'s credential_store \<Rightarrow> string + string \<Rightarrow> 's \<Rightarrow> cli_env \<Rightarrow> cli_world \<Rightarrow> cli_args \<Rightarrow> cli_command
       \<Rightarrow> 's \<times> cli_report cli_result option" where
  "cli_run cs terminal s env w cli cmd =
     (case cmd of
        CommandCompletions \<Rightarrow> (s, Some (Inr NoReport))
      | CommandAuth auth_cmd \<Rightarrow> map_prod id (\<lambda>r. Some (refuse (rmap (\<lambda>_. NoReport) r))) (auth_execute cs terminal s auth_cmd)
      | _ \<Rightarrow> (s,
          case build_client_config cs s env cli of
            Inl e \<Rightarrow> Some (refuse (Inl e))
          | Inr config \<Rightarrow>
              (case cmd of
                 CommandZone c \<Rightarrow> zone_execute w config c
               | CommandRecord c \<Rightarrow> Some (rmap report_of_record (record_execute w config c))
               | CommandDnssec c \<Rightarrow> Some (refuse (dnssec_execute w config c))
               | _ \<Rightarrow> Some (refuse (rmap ReportStats (stats_execute w config))))))"

text \<open>\<open>main\<close>: the exit code; that of a process whose main thread panics is 101.\<close>

fun process_exit :: "'a cli_result \<Rightarrow> nat" where
  "process_exit (Inr _) = 0"
| "process_exit (Inl (fault.Failed e)) = exit_code e"
| "process_exit (Inl Panicked) = 101"

end
