(* ===== verification/Cli_Checks.thy ===== *)
theory Cli_Checks
  imports Cli_Commands Zone_Roundtrip Client_Checks
begin

text \<open>
  The command line tool: what the record commands make of the words on the command line, what a
  reported success rests on, which server the tool talks to and with which secret, and that an
  exported zone can be read back.
\<close>

section \<open>The zone file of a record command\<close>

lemma bare_in: "bare_word ''IN''"
  by (rule plain_bare_word) (simp_all add: plain_char_def is_delimiter_def is_blank_def)

text \<open>The words of the record line, where blanks separate them.\<close>

definition blank_text :: "zone_codecs \<Rightarrow> resource_record \<Rightarrow> string" where
  "blank_text lib rr = show_u (ttl_value (rr_ttl rr)) @ '' IN '' @ rdata_type_string (rr_rdata rr) @ '' ''
     @ serialize_rdata lib (rr_rdata rr)"

lemma lexes_blank_text:
  assumes "zone_codecs_ok lib" "printable_rr rr" "rr_class rr = IN"
  shows "lexes (blank_text lib rr) (record_words lib rr)"
proof -
  have "bare_word (rdata_type_string (rr_rdata rr))"
    using type_string_letters by (blast intro: letters_bare)
  moreover have "lexes (serialize_rdata lib (rr_rdata rr)) (rdata_tokens lib (rr_rdata rr))"
    using assms by (intro lexes_rdata) (simp_all add: printable_rr_def)
  ultimately have "lexes (rdata_type_string (rr_rdata rr) @ CHR '' '' # serialize_rdata lib (rr_rdata rr))
      (rdata_type_string (rr_rdata rr) # rdata_tokens lib (rr_rdata rr))"
    by (intro lexes_cons blanks)
  from lexes_cons [OF bare_show(1) [of "ttl_value (rr_ttl rr)"] blanks(1) lexes_cons [OF bare_in blanks(1) this]]
  show ?thesis by (simp add: blank_text_def record_words_def assms(3))
qed

text \<open>A record line that begins with a word for its owner.\<close>

lemma owner_line:
  assumes "printable_rr rr" "zone_codecs_ok lib" "lexes s (record_words lib rr)" "is_blank b" "\<not> tk_parens t"
    and w: "bare_word w" "\<not> starts_with ''$'' w"
    and owner: "line_owner line (w # record_words lib rr) st = Inr (owner, record_words lib rr)"
    and "tk_rest t = w @ b # s @ lf # r" "length (ps_records st) < max_zone_records"
  shows "parse_lines (process_line lib resolver include) t [] line st
    = parse_lines (process_line lib resolver include) (next_line t r) [] (tk_line t + 1)
        (st\<lparr>ps_last_owner := Some owner, ps_default_class := rr_class rr, ps_records := ps_records st @ [rr\<lparr>rr_name := owner\<rparr>]\<rparr>)"
proof -
  let ?p = "process_line lib resolver include"
  have token: "word_token w = Word w" using w(2) by (simp add: word_token_def)
  obtain toks where toks: "map token_as_str toks = record_words lib rr"
    and step: "parse_lines ?p t [] line st = end_line ?p (next_line t r) line (?p (Word w # toks) line st)"
    using named_line [OF w(1) assms(3,4,5,9), of ?p line st] unfolding token by (elim exE conjE) (rule that)
  have "?p (Word w # toks) line st = process_record lib (w # record_words lib rr) line st"
    by (simp add: process_line_def toks)
  then show ?thesis
    unfolding step process_record_words [OF assms(2,1) owner] using assms(10)
    by (simp add: end_line_def next_line_def)
qed

lemma parse_lines_end: "tk_rest t = [] \<Longrightarrow> parse_lines process t [] line st = Inr st"
  by (simp add: parse_lines.simps [of process t] next_token.simps [of t])

text \<open>
  A record command with the printed name of a zone and the text of a record: the record has the
  owner that the parser makes of the word on the command line.
\<close>

lemma typed_record_words:
  assumes "zone_codecs_ok lib" "printable_rr rr" "rr_class rr = IN" "name_wf z" "bare_word (name_display z)"
    and w: "bare_word w" "\<not> starts_with ''$'' w"
    and owner: "\<And>line st. ps_origin st = Some z \<Longrightarrow> line_owner line (w # record_words lib rr) st = Inr (owner, record_words lib rr)"
    and "length (record_file (name_display z) w (rdata_type_string (rr_rdata rr)) (serialize_rdata lib (rr_rdata rr))
           (ttl_value (rr_ttl rr))) \<le> max_zone_input_bytes"
  shows "typed_record lib (name_display z) w (rdata_type_string (rr_rdata rr)) (serialize_rdata lib (rr_rdata rr))
      (ttl_value (rr_ttl rr)) = Inr (rr\<lparr>rr_name := owner\<rparr>)"
proof -
  let ?p = "process_line lib None (parse_into lib None max_include_depth)"
  let ?text = "record_file (name_display z) w (rdata_type_string (rr_rdata rr)) (serialize_rdata lib (rr_rdata rr))
      (ttl_value (rr_ttl rr))"
  let ?r2 = "w @ CHR '' '' # blank_text lib rr @ lf # []"
  let ?r1 = "''$TTL '' @ show_u (ttl_value (rr_ttl rr)) @ lf # ?r2"
  let ?t0 = "tokenizer_new ?text"
  let ?t1 = "next_line ?t0 ?r1" let ?t2 = "next_line ?t1 ?r2" let ?t3 = "next_line ?t2 []"
  let ?s1 = "parse_state_new\<lparr>ps_origin := Some z, ps_zone_origin := Some z\<rparr>"
  let ?s2 = "?s1\<lparr>ps_default_ttl := Some (rr_ttl rr)\<rparr>"
  have room: "length (ps_records parse_state_new) \<le> max_zone_records" "ps_zone_origin parse_state_new = None"
    "length (ps_records ?s1) \<le> max_zone_records" "length (ps_records ?s2) < max_zone_records"
    by (simp_all add: parse_state_new_def max_zone_records_def)
  have ttl: "ttl_wf (rr_ttl rr)" using assms(2) by (simp add: printable_rr_def)
  have "\<not> tk_parens ?t0" "tk_rest ?t0 = ''$ORIGIN '' @ name_display z @ lf # ?r1"
    by (simp_all add: tokenizer_new_def record_file_def blank_text_def)
  note l0 = origin_line [OF assms(4,5) this room(1,2), of lib None "parse_into lib None max_include_depth" 1]
  have "\<not> tk_parens ?t1" "tk_rest ?t1 = ''$TTL '' @ show_u (ttl_value (rr_ttl rr)) @ lf # ?r2"
    by (simp_all add: next_line_def tokenizer_new_def)
  note l1 = ttl_line [OF ttl this room(3), of lib None "parse_into lib None max_include_depth" "tk_line ?t0 + 1"]
  have "\<not> tk_parens ?t2" "tk_rest ?t2 = ?r2" "ps_origin ?s2 = Some z"
    by (simp_all add: next_line_def tokenizer_new_def)
  note l2 = owner_line [OF assms(2,1) lexes_blank_text [OF assms(1-3)] blanks(1) this(1) w owner [OF this(3)] this(2) room(4),
      of None "parse_into lib None max_include_depth" "tk_line ?t1 + 1"]
  have l3: "parse_lines ?p ?t3 [] line st = Inr st" for line st
    by (rule parse_lines_end) (simp add: next_line_def)
  note read = trans [OF l0 trans [OF l1 trans [OF l2 l3]]]
  show ?thesis
    using assms(9) by (simp add: typed_record_def zone_file_parse_def parse_zone_def not_less read) (simp add: parse_state_new_def)
qed

lemma typed_record_printed:
  assumes "zone_codecs_ok lib" "printable_rr rr" "rr_class rr = IN" "name_wf z" "bare_word (name_display z)"
    and "length (record_file (name_display z) (name_display (rr_name rr)) (rdata_type_string (rr_rdata rr))
           (serialize_rdata lib (rr_rdata rr)) (ttl_value (rr_ttl rr))) \<le> max_zone_input_bytes"
  shows "typed_record lib (name_display z) (name_display (rr_name rr)) (rdata_type_string (rr_rdata rr))
      (serialize_rdata lib (rr_rdata rr)) (ttl_value (rr_ttl rr)) = Inr rr"
  using typed_record_words [OF assms(1-5) _ _ line_owner_named [OF assms(2)] assms(6)] assms(2)
  by (simp add: printable_rr_def)

section \<open>Relative names\<close>

text \<open>The text of a name without the final dot, and the name below a zone.\<close>

definition relative_text :: "domain_name \<Rightarrow> string" where
  "relative_text d = join_labels (map label_inner (labels d))"

definition below :: "domain_name \<Rightarrow> domain_name \<Rightarrow> domain_name" where
  "below d z = \<lparr>labels = labels d @ labels z\<rparr>"

lemma split_from_last:
  "decode_label_from full s = Inr bs \<Longrightarrow> cur @ s \<noteq> [] \<Longrightarrow> split_from name cur s = Inr ([cur @ s], False)"
proof (induction full s arbitrary: cur bs rule: decode_label_from.induct)
  case (2 full c s)
  show ?case
  proof (cases "c = backslash")
    case esc: True
    with "2.prems" have ne: "s \<noteq> []" by auto
    show ?thesis
    proof (cases "ddd_escape s")
      case None
      with "2.prems" esc ne obtain bs' where "decode_label_from full (tl s) = Inr bs'"
        by (auto simp: result_simps)
      with "2.IH"(1) [OF esc ne None] None esc ne show ?thesis by (cases s) auto
    next
      case (Some vr)
      obtain v r where vr: "vr = (v, r)" by (cases vr)
      with "2.prems" esc ne Some obtain bs' where v: "\<not> v > 255" and d: "decode_label_from full r = Inr bs'"
        by (auto simp: result_simps split: if_splits)
      from Some vr ddd_escape_split have "take 3 s @ r = s" by blast
      then show ?thesis
        using "2.IH"(2) [OF esc ne Some vr [symmetric] v d, of "cur @ c # take 3 s"] esc ne Some vr by simp
    qed
  next
    case False
    with "2.prems" obtain bs' where "is_ascii_graphic c" "c \<noteq> dot" and "decode_label_from full s = Inr bs'"
      by (auto simp: result_simps split: if_splits)
    then have "split_from name (cur @ [c]) s = Inr ([(cur @ [c]) @ s], False)"
      using False by (intro "2.IH"(3)) auto
    then show ?thesis using False \<open>c \<noteq> dot\<close> by (simp only: split_from.simps if_False) simp
  qed
qed simp

lemma split_relative_text:
  assumes "list_all label_wf ls" "ls \<noteq> []"
  shows "split_from name [] (join_labels (map label_inner ls)) = Inr (map label_inner ls, False)"
  using assms
proof (induction ls rule: induct_list012)
  case (2 l)
  then show ?case
    using label_wf_props(1,2) [of l] split_from_last [of "label_inner l" "label_inner l" _ "[]" name]
    by (simp add: decode_label_def)
next
  case (3 l l' ls)
  then show ?case
    using label_wf_props(2) [of l]
      split_from_label [of "label_inner l" "label_inner l" _ name "[]" "join_labels (map label_inner (l' # ls))"]
    by (simp add: decode_label_def)
qed simp

lemma domain_new_relative:
  assumes "name_wf d" "\<not> is_root d"
  shows "domain_new (relative_text d) = Inr d"
proof -
  have wf: "list_all label_wf (labels d)" "labels d \<noteq> []" "wire_len d \<le> 255"
    using assms by (simp_all add: name_wf_def is_root_def)
  note split = split_relative_text [OF wf(1,2), of "relative_text d", folded relative_text_def]
  then have "relative_text d \<noteq> ''.''" by auto
  then show ?thesis
    using wf(3) split label_parts_new [OF wf(1)] by (cases d) (simp add: domain_new_def split_domain_labels_def)
qed

lemma below_text: "\<not> is_root d \<Longrightarrow> \<not> is_root z \<Longrightarrow> name_display (below d z) = relative_text d @ ''.'' @ name_display z"
proof -
  have "join_labels (a @ b) = join_labels a @ dot # join_labels b" if "a \<noteq> []" "b \<noteq> []" for a b
    using that by (induction a rule: join_labels.induct) (auto simp: neq_Nil_conv)
  then show "\<not> is_root d \<Longrightarrow> \<not> is_root z \<Longrightarrow> ?thesis"
    by (simp add: name_display_def below_def relative_text_def is_root_def)
qed

text \<open>A word that the zone parser takes for a relative owner.\<close>

definition relative_word :: "string \<Rightarrow> bool" where
  "relative_word w \<longleftrightarrow> bare_word w \<and> \<not> starts_with ''$'' w \<and> is_class w = None \<and> \<not> is_record_type w \<and> \<not> is_ttl w
     \<and> \<not> ends_with_dot w \<and> w \<noteq> ''@''"

lemma line_owner_relative:
  assumes "relative_word (relative_text d)" "name_wf d" "\<not> is_root d" "name_wf z" "\<not> is_root z" "wire_len (below d z) \<le> 255"
    and "ps_origin st = Some z"
  shows "line_owner line (relative_text d # ws) st = Inr (below d z, ws)"
proof -
  have "name_wf (below d z)" using assms(2,4,6) by (simp add: name_wf_def below_def)
  then have "domain_new (relative_text d @ ''.'' @ name_display z) = Inr (below d z)"
    using below_text [OF assms(3,5)] domain_new_display by metis
  then show ?thesis
    using assms(1,7) by (simp add: line_owner_def relative_word_def bare_word_def resolve_owner_def Let_def)
qed

lemma below_differs: "\<not> is_root z \<Longrightarrow> \<not> name_eq (below d z) d"
  by (simp add: name_eq_def below_def is_root_def)

section \<open>A zone without a final dot\<close>

lemma origin_needs_dot:
  assumes "bare_word zone" "\<not> ends_with_dot zone" "length (record_file zone name rtype data t) \<le> max_zone_input_bytes"
  shows "typed_record lib zone name rtype data t
    = Inl (fault.Failed (CoreFailure (ZoneParse 1 None ''relative $ORIGIN requires an existing origin'')))"
proof -
  let ?p = "process_line lib None (parse_into lib None max_include_depth)"
  let ?r = "''$TTL '' @ show_u t @ [lf] @ name @ '' '' @ show_u t @ '' IN '' @ rtype @ '' '' @ data @ [lf]"
  let ?t = "tokenizer_new (record_file zone name rtype data t)"
  have bare: "bare_word ''$ORIGIN''"
    by (rule plain_bare_word) (simp_all add: plain_char_def is_delimiter_def is_blank_def)
  have word: "word_token ''$ORIGIN'' = Directive ''$ORIGIN''" by (simp add: word_token_def starts_with_def)
  have rest: "\<not> tk_parens ?t" "tk_rest ?t = ''$ORIGIN'' @ CHR '' '' # zone @ lf # ?r"
    by (simp_all add: tokenizer_new_def record_file_def)
  obtain toks where toks: "map token_as_str toks = [zone]"
    and step: "parse_lines ?p ?t [] 1 parse_state_new
      = end_line ?p (next_line ?t ?r) 1 (?p (Directive ''$ORIGIN'' # toks) 1 parse_state_new)"
    using named_line [OF bare lexes_word [OF assms(1)] blanks(1) rest, of ?p 1 parse_state_new] unfolding word
    by (elim exE conjE) (rule that)
  from toks obtain tok where "toks = [tok]" "token_as_str tok = zone" by auto
  then have "?p (Directive ''$ORIGIN'' # toks) 1 parse_state_new
      = Inl (fault.Failed (ZoneParse 1 None ''relative $ORIGIN requires an existing origin''))"
    using assms(2) by (simp add: process_line_def process_origin_def directive_origin_def Let_def parse_state_new_def line_error_def)
  then show ?thesis
    using assms(3) by (simp add: typed_record_def zone_file_parse_def parse_zone_def not_less step end_line_def)
qed

section \<open>The update of a record command\<close>

text \<open>What a record command prepares before it sends anything.\<close>

definition command_update :: "cli_world \<Rightarrow> client_config option \<Rightarrow> record_command \<Rightarrow> prepared cli_result" where
  "command_update w config cmd =
     (case cmd of
        RecordAdd zone name rtype data t \<Rightarrow> rmap snd (prepare_add w config zone name rtype data t)
      | RecordDelete zone name rtype data \<Rightarrow> rmap snd (prepare_delete w config zone name rtype data))"

definition is_success_report :: "record_report \<Rightarrow> bool" where
  "is_success_report r \<longleftrightarrow> (\<exists>m. r = Success m)"

text \<open>A command that reports has sent its update and got a result; the report tells whether it is success.\<close>

lemma record_execute_Inr:
  assumes "record_execute w config cmd = Inr r"
  shows "\<exists>p result. command_update w config cmd = Inr p \<and> send_prepared w p = Inr result
    \<and> (is_success_report r \<longleftrightarrow> ur_rcode result = NoError)"
  using assms
  by (auto simp: record_execute_def record_add_def record_delete_def command_update_def is_success_report_def result_simps
      split: record_command.splits)

lemma record_execute_exit:
  assumes "command_update w config cmd = Inr p" "send_prepared w p = Inr result"
  shows "process_exit (record_execute w config cmd) = 0"
  using assms
  by (auto simp: record_execute_def record_add_def record_delete_def command_update_def result_simps
      split: record_command.splits)

text \<open>
  An update that the server refuses: the command prints a message, and the process ends with the
  exit code of success.
\<close>

lemma rejected_update_exits_zero:
  assumes "command_update w config cmd = Inr p" "send_prepared w p = Inr result" "ur_rcode result \<noteq> NoError"
  shows "\<exists>m. record_execute w config cmd = Inr (Message m)" "process_exit (record_execute w config cmd) = 0"
proof -
  show "\<exists>m. record_execute w config cmd = Inr (Message m)"
    using assms
    by (auto simp: record_execute_def record_add_def record_delete_def command_update_def result_simps
        split: record_command.splits)
  show "process_exit (record_execute w config cmd) = 0" by (rule record_execute_exit [OF assms(1,2)])
qed

lemma sign_update_signed: "sign_update w cfg b = Inr u \<Longrightarrow> is_signed u"
  by (auto simp: sign_update_def sign_now_def sign_inner_def builder_build_def is_signed_def Let_def result_simps
      update_builder.extend_def signed_builder.fields_def)

lemma command_update_signed: "command_update w config cmd = Inr p \<Longrightarrow> is_signed (pr_update p)"
  by (auto simp: command_update_def prepare_add_def prepare_delete_def require_config_def require_dns_addr_def result_simps
      split: record_command.splits option.splits) (rule sign_update_signed, assumption)+

lemma command_update_config:
  "command_update w config cmd = Inr p \<Longrightarrow> config = Some (pr_config p) \<and> cc_dns_addr (pr_config p) = Some (pr_addr p)"
  by (auto simp: command_update_def prepare_add_def prepare_delete_def require_config_def require_dns_addr_def result_simps
      split: record_command.splits)

lemma prepare_add_typed:
  assumes "cc_dns_addr cfg = Some addr" "domain_new zone = Inr z" "typed_record (cw_codecs w) zone name rtype data t = Inr rr"
    and "new_update w z = Inr b"
  shows "prepare_add w (Some cfg) zone name rtype data t
    = rmap (\<lambda>u. (rr, \<lparr>pr_addr = addr, pr_config = cfg, pr_zone = z, pr_update = u\<rparr>)) (refuse (sign_update w cfg (add_record b rr)))"
  using assms
  by (cases "sign_update w cfg (add_record b rr)") (simp_all add: prepare_add_def require_config_def require_dns_addr_def named_def)

lemma prepare_delete_type:
  assumes "cc_dns_addr cfg = Some addr" "domain_new zone = Inr z" "domain_new name = Inr n" "parse_record_type rtype = Inr ty"
    and "new_update w z = Inr b"
  shows "prepare_delete w (Some cfg) zone name rtype None
    = rmap (\<lambda>u. (n, \<lparr>pr_addr = addr, pr_config = cfg, pr_zone = z, pr_update = u\<rparr>)) (refuse (sign_update w cfg (delete_rrset b n ty)))"
  using assms
  by (cases "sign_update w cfg (delete_rrset b n ty)") (simp_all add: prepare_delete_def require_config_def require_dns_addr_def named_def)

lemma prepare_delete_typed:
  assumes "cc_dns_addr cfg = Some addr" "domain_new zone = Inr z" "domain_new name = Inr n"
    and "typed_record (cw_codecs w) zone name rtype data 0 = Inr rr" "new_update w z = Inr b"
  shows "prepare_delete w (Some cfg) zone name rtype (Some data)
    = rmap (\<lambda>u. (n, \<lparr>pr_addr = addr, pr_config = cfg, pr_zone = z, pr_update = u\<rparr>)) (refuse (sign_update w cfg (delete_record b rr)))"
  using assms
  by (cases "sign_update w cfg (delete_record b rr)") (simp_all add: prepare_delete_def require_config_def require_dns_addr_def named_def)

text \<open>The message with one change, and what the tool does with it.\<close>

definition one_change :: "domain_name \<Rightarrow> u16 \<Rightarrow> update_entry \<Rightarrow> update_builder" where
  "one_change z i entry = \<lparr>ub_id = i, ub_zone = z, ub_class = IN, ub_prerequisites = [], ub_updates = [entry]\<rparr>"

definition prepared_with :: "cli_world \<Rightarrow> client_config \<Rightarrow> socket_addr \<Rightarrow> domain_name \<Rightarrow> update_builder \<Rightarrow> prepared cli_result" where
  "prepared_with w cfg addr z b =
     rmap (\<lambda>u. \<lparr>pr_addr = addr, pr_config = cfg, pr_zone = z, pr_update = u\<rparr>) (refuse (sign_update w cfg b))"

lemma one_change_of:
  assumes "new_update w z = Inr b" "cw_random w = Inr bytes"
  shows "add_record b rr = one_change z (u16_of_be bytes) (AddRecord rr)"
    "delete_record b rr = one_change z (u16_of_be bytes) (DeleteRecord rr)"
    "delete_rrset b n ty = one_change z (u16_of_be bytes) (DeleteRrset n ty)"
  using assms
  by (auto simp: new_update_def builder_new_def builder_with_id_def one_change_def add_record_def delete_record_def delete_rrset_def)

lemma new_update_ok: "cw_random w = Inr bytes \<Longrightarrow> \<exists>b. new_update w z = Inr b"
  by (simp add: new_update_def builder_new_def)

lemma command_update_add:
  assumes "cc_dns_addr cfg = Some addr" "domain_new zone = Inr z" "cw_random w = Inr bytes"
    and "typed_record (cw_codecs w) zone name rtype data t = Inr rr"
  shows "command_update w (Some cfg) (RecordAdd zone name rtype data t)
    = prepared_with w cfg addr z (one_change z (u16_of_be bytes) (AddRecord rr))"
proof -
  obtain b where b: "new_update w z = Inr b" using new_update_ok [OF assms(3)] by blast
  show ?thesis
    unfolding command_update_def record_command.case prepare_add_typed [OF assms(1,2,4) b] one_change_of [OF b assms(3)]
    by (simp add: prepared_with_def)
qed

lemma command_update_delete:
  assumes "cc_dns_addr cfg = Some addr" "domain_new zone = Inr z" "cw_random w = Inr bytes" "domain_new name = Inr n"
  shows "typed_record (cw_codecs w) zone name rtype data 0 = Inr rr \<Longrightarrow>
      command_update w (Some cfg) (RecordDelete zone name rtype (Some data))
    = prepared_with w cfg addr z (one_change z (u16_of_be bytes) (DeleteRecord rr))"
    and "parse_record_type rtype = Inr ty \<Longrightarrow>
      command_update w (Some cfg) (RecordDelete zone name rtype None)
    = prepared_with w cfg addr z (one_change z (u16_of_be bytes) (DeleteRrset n ty))"
proof -
  obtain b where b: "new_update w z = Inr b" using new_update_ok [OF assms(3)] by blast
  show "command_update w (Some cfg) (RecordDelete zone name rtype (Some data))
      = prepared_with w cfg addr z (one_change z (u16_of_be bytes) (DeleteRecord rr))"
    if "typed_record (cw_codecs w) zone name rtype data 0 = Inr rr"
    unfolding command_update_def record_command.case prepare_delete_typed [OF assms(1,2,4) that b] one_change_of [OF b assms(3)]
    by (simp add: prepared_with_def)
  show "command_update w (Some cfg) (RecordDelete zone name rtype None)
      = prepared_with w cfg addr z (one_change z (u16_of_be bytes) (DeleteRrset n ty))"
    if "parse_record_type rtype = Inr ty"
    unfolding command_update_def record_command.case prepare_delete_type [OF assms(1,2,4) that b] one_change_of [OF b assms(3)]
    by (simp add: prepared_with_def)
qed

text \<open>The same record with TTL 0, as a deletion has it.\<close>

lemma printable_zero_ttl: "printable_rr rr \<Longrightarrow> printable_rr (rr\<lparr>rr_ttl := Ttl 0\<rparr>)"
  by (simp add: printable_rr_def ttl_wf_def)

lemma record_file_zero_ttl:
  "length (record_file zone name rtype data t) \<le> n \<Longrightarrow> length (record_file zone name rtype data 0) \<le> n"
proof -
  have "show_nat m \<noteq> []" for m using show_nat_digits by blast
  then have "1 \<le> length (show_u t)" by (cases "show_u t") (auto simp: show_u_def)
  moreover have "length (show_u (0 :: u32)) = 1" by (simp add: show_u_def show_nat.simps)
  ultimately show "length (record_file zone name rtype data t) \<le> n \<Longrightarrow> ?thesis" by (simp add: record_file_def)
qed

section \<open>Properties of the record commands\<close>

text \<open>
  C35: The record commands take a record as the library prints it: with the printed names of the
  zone and the owner, the name of the type, the text of the data and the TTL, \<open>record add\<close> prepares
  the signed update that adds exactly this record to the zone, and \<open>record delete\<close> the one that
  deletes it. The record is of class IN and printable, and the text is within the limit of the zone
  parser.
\<close>

theorem record_commands_take_printed:
  assumes "zone_codecs_ok (cw_codecs w)" "printable_rr rr" "rr_class rr = IN" "name_wf z" "bare_word (name_display z)"
    and "cc_dns_addr cfg = Some addr" "cw_random w = Inr bytes"
    and "length (record_file (name_display z) (name_display (rr_name rr)) (rdata_type_string (rr_rdata rr))
           (serialize_rdata (cw_codecs w) (rr_rdata rr)) (ttl_value (rr_ttl rr))) \<le> max_zone_input_bytes"
  shows "command_update w (Some cfg) (RecordAdd (name_display z) (name_display (rr_name rr)) (rdata_type_string (rr_rdata rr))
           (serialize_rdata (cw_codecs w) (rr_rdata rr)) (ttl_value (rr_ttl rr)))
         = prepared_with w cfg addr z (one_change z (u16_of_be bytes) (AddRecord rr))
      \<and> command_update w (Some cfg) (RecordDelete (name_display z) (name_display (rr_name rr)) (rdata_type_string (rr_rdata rr))
           (Some (serialize_rdata (cw_codecs w) (rr_rdata rr))))
         = prepared_with w cfg addr z (one_change z (u16_of_be bytes) (DeleteRecord (rr\<lparr>rr_ttl := Ttl 0\<rparr>)))"
proof
  have names: "domain_new (name_display z) = Inr z" "domain_new (name_display (rr_name rr)) = Inr (rr_name rr)"
    using assms(2,4) by (auto simp: printable_rr_def intro: domain_new_display)
  show "command_update w (Some cfg) (RecordAdd (name_display z) (name_display (rr_name rr)) (rdata_type_string (rr_rdata rr))
           (serialize_rdata (cw_codecs w) (rr_rdata rr)) (ttl_value (rr_ttl rr)))
         = prepared_with w cfg addr z (one_change z (u16_of_be bytes) (AddRecord rr))"
    by (rule command_update_add [OF assms(6) names(1) assms(7) typed_record_printed [OF assms(1-5,8)]])
  show "command_update w (Some cfg) (RecordDelete (name_display z) (name_display (rr_name rr)) (rdata_type_string (rr_rdata rr))
           (Some (serialize_rdata (cw_codecs w) (rr_rdata rr))))
         = prepared_with w cfg addr z (one_change z (u16_of_be bytes) (DeleteRecord (rr\<lparr>rr_ttl := Ttl 0\<rparr>)))"
    using typed_record_printed [OF assms(1) printable_zero_ttl [OF assms(2)] _ assms(4,5)] assms(3) record_file_zero_ttl [OF assms(8)]
    by (intro command_update_delete(1) [OF assms(6) names(1) assms(7) names(2)]) simp
qed

text \<open>
  C36: When a record command reports success, the name server has confirmed its update: the octets
  that arrived over UDP from the configured address, or over TCP if those were truncated, are a
  response whose own TSIG record reports no error, names the configured key and its algorithm, is
  inside the fudge window of the clock, and has the MAC of that key over the MAC of the update
  that was sent and these octets; they are a response to this update with the code of success.
\<close>

theorem record_success_is_authentic:
  assumes "mac_lib_ok (rl_mac (cw_rndc w))" "record_execute w config cmd = Inr (Success m)"
  shows "\<exists>p key request_mac response off t now d result.
      command_update w config cmd = Inr p \<and> config = Some (pr_config p) \<and> cc_dns_addr (pr_config p) = Some (pr_addr p)
    \<and> key = cc_rndc_key (pr_config p)
    \<and> um_request_mac (pr_update p) = Some request_mac \<and> un_clock (cw_update w) = Inr now
    \<and> (un_udp (cw_update w) (pr_addr p) = Inr response \<and> \<not> is_truncated response
       \<or> (\<exists>short. un_udp (cw_update w) (pr_addr p) = Inr short \<and> is_truncated short
            \<and> send_tcp (un_tcp (cw_update w) (pr_addr p)) (um_wire (pr_update p)) = Inr response))
    \<and> find_tsig_in_response response = Inr (Some off) \<and> tsig_parse (drop off response) = Inr t
    \<and> tsig_error t = 0 \<and> name_eq (tsig_key_name t) (key_name key) \<and> tsig_algorithm t = key_algorithm key
    \<and> \<bar>uint now - uint (time_signed t)\<bar> \<le> uint (fudge t)
    \<and> algorithm_domain (key_algorithm key) = Inr d
    \<and> mac_tag (rl_mac (cw_rndc w)) (key_algorithm key) (key_material key)
        (response_mac_input key d (strip_tsig response off) t request_mac) = Some (tsig_mac t)
    \<and> parse_dns_response (strip_tsig response off) = Inr result
    \<and> ur_id result = um_id (pr_update p) \<and> ur_rcode result = NoError"
proof -
  from record_execute_Inr [OF assms(2)] obtain p result where p: "command_update w config cmd = Inr p"
    and sent: "send_prepared w p = Inr result" and ok: "ur_rcode result = NoError"
    by (auto simp: is_success_report_def)
  from sent have "nsupdate_send (rl_mac (cw_rndc w)) (un_clock (cw_update w)) (un_udp (cw_update w) (pr_addr p))
      (un_tcp (cw_update w) (pr_addr p)) (pr_update p) (Some (cc_rndc_key (pr_config p))) = Inr result"
    by (auto simp: send_prepared_def send_signed_def result_simps)
  from signed_result_authentic [OF assms(1) command_update_signed [OF p] this] p ok command_update_config [OF p]
  show ?thesis unfolding option.inject by (elim exE conjE) (intro exI conjI; blast)
qed

text \<open>
  C40: A zone name without the final dot, as the help of the record commands gives it, is a valid
  name for the tool, but with it neither \<open>record add\<close> nor \<open>record delete\<close> with data prepares an
  update: the zone file that the tool writes for the record has a relative origin, and the zone
  parser refuses it. \<open>record delete\<close> without data writes no zone file and takes the same name: it
  prepares the deletion of the record set.
\<close>

theorem record_zone_needs_dot:
  assumes "bare_word zone" "\<not> ends_with_dot zone" "domain_new zone = Inr z" "cc_dns_addr cfg = Some addr"
    and "length (record_file zone name rtype data t) \<le> max_zone_input_bytes"
  shows "record_execute w (Some cfg) (RecordAdd zone name rtype data t)
      = Inl (fault.Failed (CoreFailure (ZoneParse 1 None ''relative $ORIGIN requires an existing origin'')))
    \<and> process_exit (record_execute w (Some cfg) (RecordAdd zone name rtype data t)) = 1
    \<and> (\<exists>e. record_execute w (Some cfg) (RecordDelete zone name rtype (Some data)) = Inl e)
    \<and> (\<forall>n ty bytes. domain_new name = Inr n \<and> parse_record_type rtype = Inr ty \<and> cw_random w = Inr bytes \<longrightarrow>
        command_update w (Some cfg) (RecordDelete zone name rtype None)
          = prepared_with w cfg addr z (one_change z (u16_of_be bytes) (DeleteRrset n ty)))"
proof -
  note refused = origin_needs_dot [OF assms(1,2)]
  have add: "record_execute w (Some cfg) (RecordAdd zone name rtype data t)
      = Inl (fault.Failed (CoreFailure (ZoneParse 1 None ''relative $ORIGIN requires an existing origin'')))"
    using assms refused [OF assms(5)]
    by (simp add: record_execute_def record_add_def prepare_add_def require_config_def require_dns_addr_def named_def)
  have "\<not> is_ok (prepare_delete w (Some cfg) zone name rtype (Some data))"
    using refused [OF record_file_zero_ttl [OF assms(5)]] by (auto simp: prepare_delete_def result_simps)
  then have "\<exists>e. prepare_delete w (Some cfg) zone name rtype (Some data) = Inl e"
    by (cases "prepare_delete w (Some cfg) zone name rtype (Some data)") simp_all
  then have "\<exists>e. record_execute w (Some cfg) (RecordDelete zone name rtype (Some data)) = Inl e"
    by (auto simp: record_execute_def record_delete_def)
  with add show ?thesis using command_update_delete(2) [OF assms(4,3)] by simp
qed

text \<open>
  C39: A name without the final dot does not mean the same to all record commands: \<open>record add\<close> and
  \<open>record delete\<close> with data take it relative to the zone, \<open>record delete\<close> without data takes it as
  absolute, and these are different names.
\<close>

theorem relative_name_is_ambiguous:
  assumes "zone_codecs_ok (cw_codecs w)" "printable_rr rr" "rr_class rr = IN" "name_wf z" "\<not> is_root z" "bare_word (name_display z)"
    and "relative_word (relative_text d)" "name_wf d" "\<not> is_root d" "wire_len (below d z) \<le> 255"
    and "cc_dns_addr cfg = Some addr" "cw_random w = Inr bytes" "parse_record_type (rdata_type_string (rr_rdata rr)) = Inr ty"
    and "length (record_file (name_display z) (relative_text d) (rdata_type_string (rr_rdata rr))
           (serialize_rdata (cw_codecs w) (rr_rdata rr)) (ttl_value (rr_ttl rr))) \<le> max_zone_input_bytes"
  shows "command_update w (Some cfg) (RecordAdd (name_display z) (relative_text d) (rdata_type_string (rr_rdata rr))
           (serialize_rdata (cw_codecs w) (rr_rdata rr)) (ttl_value (rr_ttl rr)))
         = prepared_with w cfg addr z (one_change z (u16_of_be bytes) (AddRecord (rr\<lparr>rr_name := below d z\<rparr>)))
      \<and> command_update w (Some cfg) (RecordDelete (name_display z) (relative_text d) (rdata_type_string (rr_rdata rr))
           (Some (serialize_rdata (cw_codecs w) (rr_rdata rr))))
         = prepared_with w cfg addr z (one_change z (u16_of_be bytes) (DeleteRecord (rr\<lparr>rr_ttl := Ttl 0, rr_name := below d z\<rparr>)))
      \<and> command_update w (Some cfg) (RecordDelete (name_display z) (relative_text d) (rdata_type_string (rr_rdata rr)) None)
         = prepared_with w cfg addr z (one_change z (u16_of_be bytes) (DeleteRrset d ty))
      \<and> \<not> name_eq (below d z) d"
proof (intro conjI)
  have names: "domain_new (name_display z) = Inr z" "domain_new (relative_text d) = Inr d"
    using domain_new_display [OF assms(4)] domain_new_relative [OF assms(8,9)] by simp_all
  have word: "bare_word (relative_text d)" "\<not> starts_with ''$'' (relative_text d)"
    using assms(7) by (simp_all add: relative_word_def)
  note owner = line_owner_relative [OF assms(7,8,9,4,5,10)]
  note typed = typed_record_words [OF assms(1) _ _ assms(4,6) word owner]
  show "command_update w (Some cfg) (RecordAdd (name_display z) (relative_text d) (rdata_type_string (rr_rdata rr))
           (serialize_rdata (cw_codecs w) (rr_rdata rr)) (ttl_value (rr_ttl rr)))
         = prepared_with w cfg addr z (one_change z (u16_of_be bytes) (AddRecord (rr\<lparr>rr_name := below d z\<rparr>)))"
    using typed [of rr] assms(2,3,14) by (intro command_update_add [OF assms(11) names(1) assms(12)]) simp
  show "command_update w (Some cfg) (RecordDelete (name_display z) (relative_text d) (rdata_type_string (rr_rdata rr))
           (Some (serialize_rdata (cw_codecs w) (rr_rdata rr))))
         = prepared_with w cfg addr z (one_change z (u16_of_be bytes) (DeleteRecord (rr\<lparr>rr_ttl := Ttl 0, rr_name := below d z\<rparr>)))"
    using typed [of "rr\<lparr>rr_ttl := Ttl 0\<rparr>"] assms(3) printable_zero_ttl [OF assms(2)] record_file_zero_ttl [OF assms(14)]
    by (intro command_update_delete(1) [OF assms(11) names(1) assms(12) names(2)]) simp
  show "command_update w (Some cfg) (RecordDelete (name_display z) (relative_text d) (rdata_type_string (rr_rdata rr)) None)
         = prepared_with w cfg addr z (one_change z (u16_of_be bytes) (DeleteRrset d ty))"
    by (rule command_update_delete(2) [OF assms(11) names(1) assms(12) names(2) assms(13)])
  show "\<not> name_eq (below d z) d" by (rule below_differs [OF assms(5)])
qed

section \<open>Witnesses\<close>

text \<open>A world whose name server answers every update with the given octets, and a configuration.\<close>

definition sample_cli_world :: "net_error + byte list \<Rightarrow> cli_world" where
  "sample_cli_world answer =
     \<lparr>cw_rndc = \<lparr>rl_mac = sample_lib, rl_b64 = digit_codec\<rparr>, cw_visit = sample_visit \<lparr>st_written = [], st_incoming = [], st_write_error = None\<rparr>,
      cw_codecs = digit_codecs, cw_update = \<lparr>un_clock = Inr 1299, un_udp = (\<lambda>_. answer), un_tcp = (\<lambda>_. Inl (Connection []))\<rparr>,
      cw_random = Inr [0, 7], cw_sign_clock = Inr 1000, cw_stats = sample_stats_libs, cw_zones = sample_get [],
      cw_tcp = Inr (), cw_reads = [], cw_file = (\<lambda>_. Inl ''no such file'')\<rparr>"

definition sample_cli_config :: client_config where
  "sample_cli_config = sample_config\<lparr>cc_dns_addr := Some (SocketV6 1 53 0)\<rparr>"

definition sample_mx :: resource_record where
  "sample_mx = \<lparr>rr_name = sample_name, rr_class = IN, rr_ttl = Ttl 60, rr_rdata = RD_Mx 10 sample_name\<rparr>"

lemma bare_ns_example: "bare_word ''ns.example.''"
  by (rule plain_bare_word) (simp_all add: plain_char_def is_delimiter_def is_blank_def)

lemma sample_mx_printable: "printable_rr sample_mx"
  by (simp add: sample_mx_def printable_rr_def sample_name_text bare_ns_example starts_with_def ttl_wf_def)

lemma show_ten: "show_u (10 :: u16) = ''10''"
  by code_simp

lemma sample_mx_text: "serialize_rdata lib (rr_rdata sample_mx) = ''10 ns.example.''" "rdata_type_string (rr_rdata sample_mx) = ''MX''"
  by (simp_all add: sample_mx_def sample_name_text show_ten)

lemma sample_world_simps:
  "cw_codecs (sample_cli_world a) = digit_codecs" "cw_random (sample_cli_world a) = Inr [0, 7]"
  "rl_mac (cw_rndc (sample_cli_world a)) = sample_lib" "cw_sign_clock (sample_cli_world a) = Inr 1000"
  "cc_dns_addr sample_cli_config = Some (SocketV6 1 53 0)" "cc_rndc_key sample_cli_config = sample_key"
  "u16_of_be [0, 7] = 7"
  by (simp_all add: sample_cli_world_def sample_cli_config_def sample_config_def client_config_new_def u16_of_be_def of_be_def)

theorem record_commands_take_printed_witness:
  "command_update (sample_cli_world (Inr [])) (Some sample_cli_config) (RecordAdd ''ns.example.'' ''ns.example.'' ''MX'' ''10 ns.example.'' 60)
    = prepared_with (sample_cli_world (Inr [])) sample_cli_config (SocketV6 1 53 0) sample_name (one_change sample_name 7 (AddRecord sample_mx))"
proof -
  have "length (record_file (name_display sample_name) (name_display (rr_name sample_mx)) (rdata_type_string (rr_rdata sample_mx))
           (serialize_rdata digit_codecs (rr_rdata sample_mx)) (ttl_value (rr_ttl sample_mx))) \<le> max_zone_input_bytes"
    by (simp add: sample_mx_text record_file_def sample_name_text) (simp add: sample_mx_def sample_name_text show_u_def show_nat.simps max_zone_input_bytes_def)
  with record_commands_take_printed [of "sample_cli_world (Inr [])" sample_mx sample_name sample_cli_config "SocketV6 1 53 0" "[0, 7]"]
  show ?thesis
    using sample_mx_printable digit_codecs_ok
    by (simp add: sample_world_simps sample_name_text bare_ns_example sample_mx_text) (simp add: sample_mx_def sample_name_text)
qed

theorem record_zone_needs_dot_witness:
  "record_execute (sample_cli_world (Inr [])) (Some sample_cli_config) (RecordAdd ''ex'' ''a'' ''A'' ''1.2.3.4'' 60)
      = Inl (fault.Failed (CoreFailure (ZoneParse 1 None ''relative $ORIGIN requires an existing origin'')))
    \<and> (\<exists>z n. command_update (sample_cli_world (Inr [])) (Some sample_cli_config) (RecordDelete ''ex'' ''a'' ''A'' None)
        = prepared_with (sample_cli_world (Inr [])) sample_cli_config (SocketV6 1 53 0) z (one_change z 7 (DeleteRrset n RT_A)))"
proof -
  have "bare_word ''ex''"
    by (rule plain_bare_word) (simp_all add: plain_char_def is_delimiter_def is_blank_def)
  moreover have "length (record_file ''ex'' ''a'' ''A'' ''1.2.3.4'' 60) \<le> max_zone_input_bytes"
    by (simp add: record_file_def show_u_def show_nat.simps max_zone_input_bytes_def)
  moreover have "is_ok (domain_new ''ex'')" by code_simp
  moreover have "parse_record_type ''A'' = Inr RT_A" by code_simp
  moreover have "is_ok (domain_new ''a'')" by code_simp
  ultimately show ?thesis
    using record_zone_needs_dot [of "''ex''" _ sample_cli_config "SocketV6 1 53 0" "''a''" "''A''" "''1.2.3.4''" 60 "sample_cli_world (Inr [])"]
    by (auto simp: ends_with_dot_def sample_world_simps is_ok_iff)
qed

theorem relative_name_is_ambiguous_witness:
  "\<exists>d. relative_text d = ''www'' \<and> \<not> name_eq (below d sample_name) d
    \<and> command_update (sample_cli_world (Inr [])) (Some sample_cli_config) (RecordAdd ''ns.example.'' ''www'' ''MX'' ''10 ns.example.'' 60)
      = prepared_with (sample_cli_world (Inr [])) sample_cli_config (SocketV6 1 53 0) sample_name
          (one_change sample_name 7 (AddRecord (sample_mx\<lparr>rr_name := below d sample_name\<rparr>)))
    \<and> command_update (sample_cli_world (Inr [])) (Some sample_cli_config) (RecordDelete ''ns.example.'' ''www'' ''MX'' None)
      = prepared_with (sample_cli_world (Inr [])) sample_cli_config (SocketV6 1 53 0) sample_name
          (one_change sample_name 7 (DeleteRrset d RT_Mx))"
proof -
  let ?d = "wire_labels_name [as_bytes ''www'']"
  have text_is: "relative_text ?d = ''www''" by (simp add: relative_text_def wire_labels_name_def)
  have wf: "name_wf ?d" by (rule wire_labels_name_wf) (simp_all add: plain_label_def as_bytes_def label_octets_def)
  have "bare_word ''www''"
    by (rule plain_bare_word) (simp_all add: plain_char_def is_delimiter_def is_blank_def)
  then have word: "relative_word (relative_text ?d)"
    unfolding text_is by (simp add: relative_word_def starts_with_def is_class_def is_record_type_def is_ttl_def is_ascii_digit_def ends_with_dot_def)
  have root: "\<not> is_root ?d" "\<not> is_root sample_name" "wire_len (below ?d sample_name) \<le> 255"
    by (simp_all add: is_root_def wire_labels_name_def sample_name_def below_def wire_len_def label_len_def as_bytes_def)
  have len: "length (record_file (name_display sample_name) (relative_text ?d) (rdata_type_string (rr_rdata sample_mx))
           (serialize_rdata digit_codecs (rr_rdata sample_mx)) (ttl_value (rr_ttl sample_mx))) \<le> max_zone_input_bytes"
    by (simp add: sample_mx_text record_file_def sample_name_text text_is)
       (simp add: sample_mx_def show_u_def show_nat.simps max_zone_input_bytes_def)
  have ty: "parse_record_type (rdata_type_string (rr_rdata sample_mx)) = Inr RT_Mx"
    unfolding sample_mx_text by code_simp
  have mx: "rr_class sample_mx = IN" "bare_word (name_display sample_name)" "ttl_value (rr_ttl sample_mx) = 60"
    by (simp_all add: sample_mx_def sample_name_text bare_ns_example)
  from relative_name_is_ambiguous [of "sample_cli_world (Inr [])", unfolded sample_world_simps, OF digit_codecs_ok sample_mx_printable
      mx(1) sample_name_text(1) root(2) mx(2) word wf root(1,3) sample_world_simps(5) refl ty len]
  show ?thesis
    unfolding text_is sample_mx_text sample_name_text mx(3) sample_world_simps(7)
    by (intro exI [of _ ?d]) (simp add: text_is)
qed

text \<open>A deletion whose signed answer reports success.\<close>

abbreviation sample_deletion :: record_command where
  "sample_deletion \<equiv> RecordDelete ''ns.example.'' ''ns.example.'' ''MX'' None"

lemma sample_tag_short: "length (sample_tag alg k m) \<le> 65535"
proof -
  have "length (sample_tag alg k m) \<le> mac_length alg" unfolding sample_tag_def length_take by (rule min.cobounded2)
  with mac_length_le [of alg] show ?thesis by linarith
qed

lemma sample_deletion_signed:
  "\<exists>u mac. (\<forall>a. command_update (sample_cli_world a) (Some sample_cli_config) sample_deletion
      = Inr \<lparr>pr_addr = SocketV6 1 53 0, pr_config = sample_cli_config, pr_zone = sample_name, pr_update = u\<rparr>)
    \<and> um_request_mac u = Some mac \<and> length mac \<le> 65535 \<and> length (um_wire u) \<le> 65535 \<and> um_id u = 7"
proof -
  let ?b = "one_change sample_name 7 (DeleteRrset sample_name RT_Mx)"
  have "domain_new ''ns.example.'' = Inr sample_name" using domain_new_display [OF sample_name_text(1)] by (simp add: sample_name_text)
  moreover have "parse_record_type ''MX'' = Inr RT_Mx" by code_simp
  ultimately have prepared: "command_update (sample_cli_world a) (Some sample_cli_config) sample_deletion
      = prepared_with (sample_cli_world a) sample_cli_config (SocketV6 1 53 0) sample_name ?b" for a
    using command_update_delete(2) [of sample_cli_config "SocketV6 1 53 0" "''ns.example.''" sample_name "sample_cli_world a" "[0, 7]"]
    by (simp add: sample_world_simps)
  have "\<exists>m. build_unsigned ?b = Inr m \<and> 12 \<le> length (um_wire m) \<and> length (um_wire m) \<le> 1000"
    by (simp add: one_change_def build_unsigned_def encode_update_message_def Let_def empty_rr_def sample_name_def
        wire_labels_name_def wire_len_def label_len_def as_bytes_def)
  then obtain m where m: "build_unsigned ?b = Inr m" "12 \<le> length (um_wire m)" "length (um_wire m) \<le> 1000" by blast
  obtain t where t: "tsig_new sample_lib sample_key (um_wire m) 1000 None = Inr t"
    using tsig_new_ok [OF sample_lib_ok, of 1000 None] by auto
  have len: "length (tsig_wire t) \<le> 1000"
    using tsig_new_length [OF sample_lib_ok t] sample_key_len by simp
  obtain d mac where "mac_tag sample_lib (key_algorithm sample_key) (key_material sample_key)
        (prior_mac_bytes None @ um_wire m @ tsig_variables (key_name sample_key) d 1000 300 0 []) = Some mac" "tsig_mac t = mac"
    using t by (elim tsig_new_Inr) simp
  then have "tsig_mac t = sample_tag (key_algorithm sample_key) (key_material sample_key)
        (prior_mac_bytes None @ um_wire m @ tsig_variables (key_name sample_key) d 1000 300 0 [])"
    by (simp add: sample_lib_def)
  then have "length (tsig_mac t) \<le> 65535"
    by (simp only: sample_tag_short)
  with m t len show ?thesis unfolding prepared
    by (auto simp: prepared_with_def sign_update_def sign_now_def sample_world_simps sign_inner_def build_unsigned_def Let_def
        overwrite_arcount builder_build_def one_change_def update_builder.extend_def signed_builder.fields_def)
qed

theorem record_success_is_authentic_witness:
  "\<exists>response m off t request_mac d.
      record_execute (sample_cli_world (Inr response)) (Some sample_cli_config) sample_deletion = Inr (Success m)
    \<and> find_tsig_in_response response = Inr (Some off) \<and> tsig_parse (drop off response) = Inr t
    \<and> mac_tag sample_lib HmacSha256 [1, 2, 3] (response_mac_input sample_key d (strip_tsig response off) t request_mac) = Some (tsig_mac t)"
proof -
  let ?cfg = "sample_cli_config"
  let ?p = "\<lambda>u. \<lparr>pr_addr = SocketV6 1 53 0, pr_config = ?cfg, pr_zone = sample_name, pr_update = u\<rparr>"
  obtain u mac where u: "command_update (sample_cli_world a) (Some ?cfg) sample_deletion = Inr (?p u)"
    "um_request_mac u = Some mac" "length mac \<le> 65535" "length (um_wire u) \<le> 65535" "um_id u = 7" for a
    using sample_deletion_signed by blast
  obtain t where t: "tsig_new sample_lib sample_key sample_answer 1000 (Some mac) = Inr t"
    using tsig_new_ok [OF sample_lib_ok, of 1000 "Some mac"] u(3) by auto
  let ?response = "overwrite sample_answer 10 (u16_be 1) @ tsig_wire t"
  let ?answer = "Inr ?response"
  have "nsupdate_send sample_lib (Inr 1299) ?answer (Inl (Connection [])) u (Some sample_key)
      = Inr \<lparr>ur_rcode = rcode_from_value (word_of_nat 0), ur_id = um_id u\<rparr>"
    by (rule update_answer_accepted [OF sample_lib_ok sample_key_name, where u = sample_answer
          and zone = "wire_labels_name [[101, 120]]" and rrs = "[]" and an = 0 and ns = 0 and ts = 1000 and t = t and r = 0])
       (use t u sample_zone_wf in \<open>simp_all add: sample_answer_def\<close>)
  then have "send_prepared (sample_cli_world ?answer) (?p u) = Inr \<lparr>ur_rcode = NoError, ur_id = 7\<rparr>"
    using u(5) by (simp add: send_prepared_def send_signed_def sample_world_simps) (simp add: sample_cli_world_def rcode_from_value_def)
  with u(1) [of ?answer] obtain m where sent: "record_execute (sample_cli_world ?answer) (Some ?cfg) sample_deletion = Inr (Success m)"
    by (auto simp: record_execute_def record_delete_def command_update_def result_simps)
  have world: "un_udp (cw_update (sample_cli_world ?answer)) addr = ?answer"
    "un_tcp (cw_update (sample_cli_world ?answer)) addr = Inl (Connection [])" for addr
    by (simp_all add: sample_cli_world_def)
  have no_tcp: "send_tcp (Inl e) wire = Inr r \<longleftrightarrow> False" for e wire r by (simp add: send_tcp_def)
  have key: "cc_rndc_key ?cfg = sample_key" by (simp add: sample_cli_config_def)
  have "mac_lib_ok (rl_mac (cw_rndc (sample_cli_world ?answer)))"
    using sample_lib_ok by (simp add: sample_world_simps)
  from record_success_is_authentic [OF this sent] obtain d off t' request_mac where
    "find_tsig_in_response ?response = Inr (Some off)" "tsig_parse (drop off ?response) = Inr t'"
    "mac_tag sample_lib (key_algorithm sample_key) (key_material sample_key)
      (response_mac_input sample_key d (strip_tsig ?response off) t' request_mac) = Some (tsig_mac t')"
    unfolding world no_tcp option.inject sum.inject by (auto simp: sample_world_simps key)
  moreover have "key_algorithm sample_key = HmacSha256" "key_material sample_key = [1, 2, 3]"
    by (simp_all add: sample_key_def)
  ultimately show ?thesis using sent by metis
qed

end
