(* ===== verification/Cli_Export.thy ===== *)
theory Cli_Export
  imports Cli_Checks
begin

text \<open>
  The export of a zone: which records it has, and that the text it prints is a zone file with these
  records.
\<close>

section \<open>One record as a line\<close>

definition export_line :: "zone_codecs \<Rightarrow> resource_record \<Rightarrow> string" where
  "export_line lib rr = name_display (rr_name rr) @ tab @ record_text lib rr"

text \<open>Records whose text is one line; the line does not end in a carriage return.\<close>

definition one_line :: "zone_codecs \<Rightarrow> resource_record \<Rightarrow> bool" where
  "one_line lib rr \<longleftrightarrow> printable_rr rr \<and> lf \<notin> set (export_line lib rr) \<and> last (export_line lib rr) \<noteq> CHR 0x0D"

text \<open>The lines of the zone file that \<open>format_record\<close> writes for one record.\<close>

lemma serialized_lines:
  assumes "lf \<notin> set (export_line lib rr)" "last (export_line lib rr) \<noteq> CHR 0x0D"
  shows "text_lines (serialize_zone lib \<lparr>zf_origin = domain_root, zf_default_ttl = Some (rr_ttl rr),
      zf_zone = \<lparr>zone_name = domain_root, zone_class = rr_class rr, zone_records = [rr]\<rparr>\<rparr>)
    = [''$ORIGIN .'', ''$TTL '' @ show_u (ttl_value (rr_ttl rr)), export_line lib rr]"
proof -
  let ?ttl = "show_u (ttl_value (rr_ttl rr))" and ?line = "export_line lib rr"
  have digits: "list_all is_ascii_digit ?ttl" "?ttl \<noteq> []" using show_nat_digits by (simp_all add: show_u_def)
  then have "is_ascii_digit (last ?ttl)" by (simp add: list_all_iff)
  with digits(1) have ttl: "lf \<notin> set ?ttl" "last ?ttl \<noteq> CHR 0x0D"
    by (auto simp: list_all_iff is_ascii_digit_def)
  have line: "strip_cr ?line = ?line"
    using assms(2) by (simp add: strip_cr_other export_line_def tab_def)
  have "serialize_zone lib \<lparr>zf_origin = domain_root, zf_default_ttl = Some (rr_ttl rr),
            zf_zone = \<lparr>zone_name = domain_root, zone_class = rr_class rr, zone_records = [rr]\<rparr>\<rparr>
      = ''$ORIGIN .'' @ lf # (''$TTL '' @ ?ttl) @ lf # ?line @ lf # []"
    by (simp add: serialize_zone_def name_display_def is_root_def domain_root_def export_line_def record_text_def)
  moreover have "text_lines (''$ORIGIN .'' @ lf # (''$TTL '' @ ?ttl) @ lf # ?line @ lf # [])
      = [''$ORIGIN .'', ''$TTL '' @ ?ttl, ?line]"
    unfolding text_lines_def using ttl line assms(1) digits(2)
    by (subst lines_from_break, simp, subst lines_from_break, simp, subst lines_from_break, simp)
       (simp add: strip_cr_def)
  ultimately show ?thesis by simp
qed

lemma format_record_line:
  assumes "one_line lib rr"
  shows "format_record lib rr = export_line lib rr"
proof -
  have "name_display (rr_name rr) \<noteq> []" using name_display_last by blast
  then have "\<not> starts_with ''$'' (export_line lib rr)"
    using assms by (cases "name_display (rr_name rr)") (auto simp: one_line_def printable_rr_def export_line_def starts_with_def)
  then show ?thesis
    using serialized_lines [of lib rr] assms by (simp add: format_record_def Let_def one_line_def starts_with_def)
qed

text \<open>A record whose owner begins with a dollar sign is dropped with the directives; its line is empty.\<close>

lemma dollar_owner_lost:
  assumes "lf \<notin> set (export_line lib rr)" "last (export_line lib rr) \<noteq> CHR 0x0D"
    and "starts_with ''$'' (name_display (rr_name rr))"
  shows "format_record lib rr = []"
proof -
  have "starts_with ''$'' (export_line lib rr)"
    using assms(3) by (cases "name_display (rr_name rr)") (auto simp: export_line_def starts_with_def)
  then show ?thesis
    using serialized_lines [OF assms(1,2)] by (simp add: format_record_def Let_def starts_with_def)
qed

section \<open>The printed lines are read back\<close>

lemma parse_export_lines:
  assumes "zone_codecs_ok lib" "list_all printable_rr rrs" "\<not> tk_parens t" "tk_line_start t"
    and "tk_rest t = concat (map (\<lambda>rr. export_line lib rr @ [lf]) rrs) @ rest"
    and "length (ps_records st) + length rrs \<le> max_zone_records"
  shows "\<exists>t' line' owner. tk_rest t' = rest \<and> \<not> tk_parens t' \<and> tk_line_start t' \<and>
    parse_lines (process_line lib resolver include) t [] line st
    = parse_lines (process_line lib resolver include) t' [] line'
        (st\<lparr>ps_last_owner := owner, ps_default_class := (if rrs = [] then ps_default_class st else rr_class (last rrs)),
            ps_records := ps_records st @ rrs\<rparr>)"
  using assms(2-)
proof (induction rrs arbitrary: t st line)
  case Nil
  then show ?case by (intro exI [of _ t] exI [of _ line] exI [of _ "ps_last_owner st"]) simp
next
  case (Cons rr rrs)
  let ?p = "process_line lib resolver include"
  let ?r = "concat (map (\<lambda>rr. export_line lib rr @ [lf]) rrs) @ rest"
  let ?st = "st\<lparr>ps_last_owner := Some (rr_name rr), ps_default_class := rr_class rr, ps_records := ps_records st @ [rr]\<rparr>"
  have rr: "printable_rr rr" "bare_word (name_display (rr_name rr))" "\<not> starts_with ''$'' (name_display (rr_name rr))"
    using Cons.prems(1) by (simp_all add: printable_rr_def)
  have rest: "tk_rest t = name_display (rr_name rr) @ CHR 0x09 # record_text lib rr @ lf # ?r"
    using Cons.prems(4) by (simp add: export_line_def tab_def)
  have room: "length (ps_records st) < max_zone_records" using Cons.prems(5) by simp
  note step = owner_line [OF rr(1) assms(1) lexes_record [OF assms(1) rr(1)] blanks(2) Cons.prems(2) rr(2,3)
      line_owner_named [OF rr(1)] rest room, of resolver "include" line]
  have "\<exists>t' line' owner. tk_rest t' = rest \<and> \<not> tk_parens t' \<and> tk_line_start t' \<and>
      parse_lines ?p (next_line t ?r) [] (tk_line t + 1) ?st = parse_lines ?p t' [] line'
        (?st\<lparr>ps_last_owner := owner, ps_default_class := (if rrs = [] then ps_default_class ?st else rr_class (last rrs)),
            ps_records := ps_records ?st @ rrs\<rparr>)"
    using Cons.prems by (intro Cons.IH) (simp_all add: next_line_def)
  then obtain t' line' owner where "tk_rest t' = rest" "\<not> tk_parens t'" "tk_line_start t'"
    and rest_read: "parse_lines ?p (next_line t ?r) [] (tk_line t + 1) ?st = parse_lines ?p t' [] line'
        (?st\<lparr>ps_last_owner := owner, ps_default_class := (if rrs = [] then ps_default_class ?st else rr_class (last rrs)),
            ps_records := ps_records ?st @ rrs\<rparr>)"
    by blast
  then show ?case
    using step by (intro exI [of _ t'] exI [of _ line'] exI [of _ owner]) simp
qed

text \<open>The last line is a comment.\<close>

lemma parse_comment_end:
  assumes "\<not> tk_parens t" "tk_rest t = CHR '';'' # s @ [lf]" "lf \<notin> set s" "length (ps_records st) \<le> max_zone_records"
  shows "parse_lines process t [] line st = Inr st"
proof -
  let ?t = "t\<lparr>tk_line_start := False, tk_rest := [lf]\<rparr>"
  have "dropWhile (\<lambda>b. b \<noteq> lf) (s @ [lf]) = [lf]" using assms(3) by (induction s) auto
  then have "next_token t = next_token ?t"
    using assms(2) by (simp add: next_token.simps [of t] is_blank_def)
  also have "\<dots> = (Some Newline, next_line ?t [])" using assms(1) by (intro next_token_newline) simp_all
  finally have step: "next_token t = (Some Newline, next_line ?t [])" .
  have "parse_lines process (next_line ?t []) [] l st = Inr st" for l
    by (rule parse_lines_end) (simp add: next_line_def)
  then show ?thesis using assms(4) by (simp add: parse_lines.simps [of process t] step)
qed

section \<open>The records of an export\<close>

text \<open>
  What an export holds: the records of a transfer that ended well, between the two SOA records,
  read from a loopback address.
\<close>

lemma client_axfr_stream:
  assumes "client_axfr lib random clock timeout max_records zone key = Inr (sent, stream)"
  shows "\<exists>ctx. stream = transfer_record_stream lib ctx axfr_new \<and> sc_zone ctx = zone"
proof -
  from assms obtain q :: encoded_xfr_query where "stream = transfer_record_stream lib
      (context_new zone timeout max_records (xq_id q) key (xq_request_mac q) qtype_axfr) axfr_new"
    unfolding client_axfr_def rbind_eq_Inr sum.inject prod.inject by metis
  then show ?thesis by (metis context_new_def stream_context.select_convs(1))
qed

lemma zone_export_grammar:
  assumes "zone_export w (Some cfg) zone = Some (Inr e)"
  shows "\<exists>addr name s body s' c items. cc_dns_addr cfg = Some addr \<and> is_localhost addr \<and> domain_new zone = Inr name
    \<and> items = BeginSoa s # map Record body @ [EndSoa s'] \<and> apex_soa_serial s name = Some c \<and> apex_soa_serial s' name = Some c
    \<and> e = export_report (cw_codecs w) name items"
proof -
  from assms obtain addr name sent stream items where addr: "cc_dns_addr cfg = Some addr" "domain_new zone = Inr name"
    and conn: "transfer_connect addr False (cw_tcp w) = Inr ()"
    and axfr: "client_axfr (rl_mac (cw_rndc w)) (cw_random w) (cw_sign_clock w) default_transfer_timeout default_max_records
        name (Some (cc_rndc_key cfg)) = Inr (sent, stream)"
    and items: "stream (cw_reads w) = (items, Done)" and e: "e = export_report (cw_codecs w) name items"
    by (auto simp: zone_export_def require_config_def require_dns_addr_def named_def result_simps
        split: sum.splits stream_end.splits prod.splits)
  from client_axfr_stream [OF axfr] obtain ctx where "sc_zone ctx = name"
    "stream = transfer_record_stream (rl_mac (cw_rndc w)) ctx axfr_new" by blast
  moreover have "axfr_inv (sc_zone ctx) (sc_max_records ctx) axfr_new []" by (simp add: axfr_inv_def axfr_new_def)
  ultimately have "axfr_done name (sc_max_records ctx) items"
    using axfr_stream_inv [of _ ctx axfr_new "cw_reads w" items Done "[]"] items by simp
  moreover have "is_localhost addr" using conn by (auto simp: transfer_connect_def split: if_splits)
  ultimately show ?thesis using addr e unfolding axfr_done_def by blast
qed

lemma export_refuses_remote:
  "cc_dns_addr cfg = Some addr \<Longrightarrow> \<not> is_localhost addr \<Longrightarrow> domain_new zone = Inr name \<Longrightarrow>
    zone_export w (Some cfg) zone = Some (Inl (NetFailure (TlsRequired (socket_display addr))))"
  by (simp add: zone_export_def require_config_def require_dns_addr_def named_def transfer_connect_def)

text \<open>A small transfer.\<close>

definition sample_soa :: resource_record where
  "sample_soa = \<lparr>rr_name = sample_name, rr_class = IN, rr_ttl = Ttl 60,
     rr_rdata = RD_Soa sample_name sample_name (Serial 7) (Ttl 1) (Ttl 2) (Ttl 3) (Ttl 4)\<rparr>"

definition sample_transfer :: "transfer_record list" where
  "sample_transfer = [BeginSoa sample_soa,
     Record \<lparr>rr_name = sample_name, rr_class = IN, rr_ttl = Ttl 60, rr_rdata = RD_Mx 10 sample_name\<rparr>, EndSoa sample_soa]"

lemma sample_bare: "bare_word ''ns.example.''"
  by (rule plain_bare_word) (simp_all add: plain_char_def is_delimiter_def is_blank_def)

lemma digit_no_break: "d < 10 \<Longrightarrow> lf \<noteq> digit_char d" "d < 10 \<Longrightarrow> digit_char d \<noteq> CHR 0x0D"
  using digit_char_props(1) [of d] by (auto simp: is_ascii_digit_def dest!: sym [of lf])

lemma sample_transfer_lines: "list_all (\<lambda>x. one_line digit_codecs (transferred x)) sample_transfer"
  by (simp add: sample_transfer_def sample_soa_def one_line_def printable_rr_def sample_name_text sample_bare starts_with_def
      ttl_wf_def export_line_def record_text_def tab_def show_u_def show_nat.simps digit_no_break)

text \<open>
  C37: The text that an export prints is a zone file: reading it gives the records of the transfer,
  in their order and with the closing SOA, under the name of the opening SOA. The conditions are
  those of printing a record (\<open>printable_rr\<close>), records of one line each, and the limits of the
  parser.
\<close>

theorem exported_zone_reads_back:
  assumes "zone_codecs_ok lib" "list_all (\<lambda>x. one_line lib (transferred x)) items"
    and "items = BeginSoa s # others" "is_soa s" "lf \<notin> set (name_display z)" "length items \<le> max_zone_records"
    and "length (report_text (ReportExport (export_report lib z items))) \<le> max_zone_input_bytes"
  shows "zone_file_parse lib (report_text (ReportExport (export_report lib z items)))
    = Inr \<lparr>zf_origin = rr_name s, zf_default_ttl = None,
        zf_zone = \<lparr>zone_name = rr_name s, zone_class = rr_class (transferred (last items)), zone_records = map transferred items\<rparr>\<rparr>"
proof -
  let ?p = "process_line lib None (parse_into lib None max_include_depth)"
  let ?rrs = "map transferred items"
  let ?text = "report_text (ReportExport (export_report lib z items))"
  let ?s = "'' Transfer complete: '' @ show_nat (length items) @ '' records for '' @ name_display z"
  have lines: "map (\<lambda>x. format_record lib (transferred x)) items = map (\<lambda>x. export_line lib (transferred x)) items"
    using assms(2) format_record_line by (simp add: list_all_iff)
  have printable: "list_all printable_rr ?rrs" using assms(2) by (simp add: list_all_iff one_line_def)
  have printed: "?text = concat (map (\<lambda>rr. export_line lib rr @ [lf]) ?rrs) @ CHR '';'' # ?s @ [lf]"
    by (simp add: zone_export_display_def export_report_def Let_def lines comp_def)
  have "lf \<notin> set (show_nat n)" for n
    using show_nat_digits [of n] by (auto simp: list_all_iff is_ascii_digit_def)
  then have comment: "lf \<notin> set ?s" using assms(5) by simp
  obtain t' line' owner where "tk_rest t' = CHR '';'' # ?s @ [lf]" "\<not> tk_parens t'"
    and read: "parse_lines ?p (tokenizer_new ?text) [] 1 parse_state_new = parse_lines ?p t' [] line'
        (parse_state_new\<lparr>ps_last_owner := owner, ps_default_class := rr_class (last ?rrs), ps_records := ?rrs\<rparr>)"
    using parse_export_lines [OF assms(1) printable, of "tokenizer_new ?text" "CHR '';'' # ?s @ [lf]" parse_state_new None
        "parse_into lib None max_include_depth" 1] assms(3,6) printed
    by (auto simp: tokenizer_new_def parse_state_new_def)
  from parse_comment_end [OF this(2,1) comment] assms(6)
  have "parse_lines ?p (tokenizer_new ?text) [] 1 parse_state_new
      = Inr (parse_state_new\<lparr>ps_last_owner := owner, ps_default_class := rr_class (last ?rrs), ps_records := ?rrs\<rparr>)"
    unfolding read by simp
  then show ?thesis
    using assms(3,4,7) by (simp add: zone_file_parse_def parse_zone_def not_less last_map parse_state_new_def del: report_text.simps)
qed


theorem exported_zone_reads_back_witness:
  "zone_file_parse digit_codecs (report_text (ReportExport (export_report digit_codecs sample_name sample_transfer)))
    = Inr \<lparr>zf_origin = sample_name, zf_default_ttl = None,
        zf_zone = \<lparr>zone_name = sample_name, zone_class = IN, zone_records = map transferred sample_transfer\<rparr>\<rparr>"
proof -
  have "length (report_text (ReportExport (export_report digit_codecs sample_name sample_transfer))) \<le> max_zone_input_bytes"
    using sample_transfer_lines
    by (simp add: zone_export_display_def export_report_def Let_def sample_transfer_def sample_soa_def format_record_line
        export_line_def record_text_def tab_def sample_name_text show_u_def show_nat.simps max_zone_input_bytes_def)
  moreover have "sample_transfer = BeginSoa sample_soa # tl sample_transfer" "is_soa sample_soa" "lf \<notin> set (name_display sample_name)"
    "length sample_transfer \<le> max_zone_records"
    by (simp_all add: sample_transfer_def sample_soa_def is_soa_def sample_name_text max_zone_records_def)
  ultimately have "zone_file_parse digit_codecs (report_text (ReportExport (export_report digit_codecs sample_name sample_transfer)))
    = Inr \<lparr>zf_origin = rr_name sample_soa, zf_default_ttl = None,
        zf_zone = \<lparr>zone_name = rr_name sample_soa, zone_class = rr_class (transferred (last sample_transfer)),
          zone_records = map transferred sample_transfer\<rparr>\<rparr>"
    by (intro exported_zone_reads_back [OF digit_codecs_ok sample_transfer_lines])
  then show ?thesis by (simp add: sample_transfer_def sample_soa_def)
qed

end
