(* ===== verification/Cli_Access.thy ===== *)
theory Cli_Access
  imports Cli_Commands
begin

text \<open>
  Whose secret the command line tool uses and which server it talks to; and lemmas on the smaller
  commands: record types, the counts of a diff, the statistics.
\<close>

section \<open>The stored secret\<close>

text \<open>The documented behaviour of a credential store: what was set is read, what was deleted is absent.\<close>

definition store_ok :: "'s credential_store \<Rightarrow> bool" where
  "store_ok cs \<longleftrightarrow>
     (\<forall>s service user v s'. cs_set cs s service user v = (s', Inr ()) \<longrightarrow> cs_get cs s' service user = Inr v)
     \<and> (\<forall>s service user s' r. cs_delete cs s service user = (s', r) \<longrightarrow> r \<in> {Inr (), Inl NoEntry}
          \<longrightarrow> cs_get cs s' service user = Inl NoEntry)"

lemma secret_after_set:
  assumes "store_ok cs" "auth_execute cs terminal s (SetKey profile (Some secret)) = (s', Inr ())"
  shows "get_secret cs s' profile = Inr (Some secret)"
  using assms
  by (auto simp: auth_execute_def set_secret_def get_secret_def store_ok_def Let_def map_prod_def result_simps
      split: sum.splits prod.splits)

lemma secret_after_delete:
  assumes "store_ok cs" "auth_execute cs terminal s (DeleteKey profile) = (s', Inr ())"
  shows "get_secret cs s' profile = Inr None"
proof -
  let ?user = "keyring_username profile"
  from assms(2) have opened: "cs_open cs service_name ?user = Inr ()"
    by (auto simp: auth_execute_def delete_secret_def Let_def map_prod_def split: sum.splits prod.splits)
  obtain r where "cs_delete cs s service_name ?user = (s', r)" "r \<in> {Inr (), Inl NoEntry}"
    using assms(2) opened
    by (auto simp: auth_execute_def delete_secret_def Let_def map_prod_def
        split: sum.splits prod.splits keyring_error.splits unit.splits)
  then have "cs_get cs s' service_name ?user = Inl NoEntry" using assms(1) unfolding store_ok_def by blast
  then show ?thesis by (simp add: get_secret_def opened Let_def)
qed

text \<open>The profile under which the tool looks for the secret.\<close>

definition profile_of :: "cli_args \<Rightarrow> cli_config option \<Rightarrow> string option" where
  "profile_of cli file =
     map_option (\<lambda>host. host_port host (or_default 953 (or_else (ca_port cli) (map_option (fs_port \<circ> cf_server) file))))
       (or_else (ca_server cli) (map_option (fs_host \<circ> cf_server) file))"

text \<open>Only the secret that is found matters, not where it was found.\<close>

lemma build_client_config_secret:
  assumes "config_load env = Inr file" "profile_of cli file = Some profile"
    and "ca_server cli' = ca_server cli" "ca_port cli' = ca_port cli" "ca_dns_port cli' = ca_dns_port cli"
      "ca_stats_url cli' = ca_stats_url cli" "ca_protected_rndc cli' = ca_protected_rndc cli" "ca_key_name cli' = ca_key_name cli"
    and "resolve_secret cs s cli file profile = resolve_secret cs s' cli' file profile"
  shows "build_client_config cs s env cli = build_client_config cs s' env cli'"
proof -
  obtain host where host: "or_else (ca_server cli) (map_option (fs_host \<circ> cf_server) file) = Some host"
    "profile = host_port host (or_default 953 (or_else (ca_port cli) (map_option (fs_port \<circ> cf_server) file)))"
    using assms(2) by (auto simp: profile_of_def)
  show ?thesis
    unfolding build_client_config_def assms(1,3-8) rbind.simps Let_def host(1) option.case assms(9) [unfolded host(2)] ..
qed

text \<open>
  C38: The secret that \<open>auth set-key\<close> has stored for a server is the one the tool uses for it, as if
  it had been given with the flag, whatever the configuration file says; after \<open>auth delete-key\<close> the
  secret is that of the file.
\<close>

theorem stored_key_is_used:
  assumes "store_ok cs" "auth_execute cs terminal s (SetKey profile (Some secret)) = (s1, Inr ())"
    and "auth_execute cs terminal s1 (DeleteKey profile) = (s2, Inr ())"
    and "config_load env = Inr file" "profile_of cli file = Some profile" "ca_key_secret cli = None"
  shows "build_client_config cs s1 env cli = build_client_config cs s1 env (cli\<lparr>ca_key_secret := Some secret\<rparr>)
    \<and> build_client_config cs s2 env cli
      = build_client_config cs s2 env (cli\<lparr>ca_key_secret := map_option fa_key_secret (Option.bind file cf_auth)\<rparr>)"
proof
  show "build_client_config cs s1 env cli = build_client_config cs s1 env (cli\<lparr>ca_key_secret := Some secret\<rparr>)"
    using secret_after_set [OF assms(1,2)] assms(6)
    by (intro build_client_config_secret [OF assms(4,5)]) (simp_all add: resolve_secret_def or_else_def)
  show "build_client_config cs s2 env cli
      = build_client_config cs s2 env (cli\<lparr>ca_key_secret := map_option fa_key_secret (Option.bind file cf_auth)\<rparr>)"
    using secret_after_delete [OF assms(1,3)] assms(6)
    by (intro build_client_config_secret [OF assms(4,5)])
       (simp_all add: resolve_secret_def or_else_def split: option.split)
qed

text \<open>A store that keeps a function from services and users, and a machine without a configuration file.\<close>

definition function_store :: "(string \<Rightarrow> string \<Rightarrow> string option) credential_store" where
  "function_store = \<lparr>cs_open = \<lambda>_ _. Inr (), cs_get = (\<lambda>s sv u. ok_or NoEntry (s sv u)),
     cs_set = (\<lambda>s sv u v. (s(sv := (s sv)(u := Some v)), Inr ())),
     cs_delete = (\<lambda>s sv u. if s sv u = None then (s, Inl NoEntry) else (s(sv := (s sv)(u := None)), Inr ()))\<rparr>"

lemma function_store_ok: "store_ok function_store"
  by (auto simp: store_ok_def function_store_def split: if_splits)

definition sample_env :: cli_env where
  "sample_env = \<lparr>ce_path = None, ce_exists = (\<lambda>_. False), ce_read = (\<lambda>_. Inl []), ce_toml = (\<lambda>_. Inl []),
     ce_resolve = (\<lambda>_. Inr [SocketV6 1 953 0]), ce_base64 = (\<lambda>bs. Some bs)\<rparr>"

definition sample_args :: cli_args where
  "sample_args = \<lparr>ca_server = Some ''ns'', ca_port = None, ca_dns_port = None, ca_stats_url = None,
     ca_protected_rndc = False, ca_key_name = Some ''key'', ca_key_secret = None\<rparr>"

theorem stored_key_is_used_witness:
  "\<exists>s1. auth_execute function_store (Inl []) (\<lambda>_ _. None) (SetKey ''ns:953'' (Some ''abc'')) = (s1, Inr ())
    \<and> build_client_config function_store s1 sample_env sample_args
      = build_client_config function_store s1 sample_env (sample_args\<lparr>ca_key_secret := Some ''abc''\<rparr>)"
proof -
  let ?s1 = "(\<lambda>_ _. None)(''bind9-sdk'' := (\<lambda>_. None)(''tsig-key:ns:953'' := Some ''abc''))"
  have set: "auth_execute function_store (Inl []) (\<lambda>_ _. None) (SetKey ''ns:953'' (Some ''abc'')) = (?s1, Inr ())"
    by (simp add: auth_execute_def set_secret_def function_store_def service_name_def keyring_username_def Let_def)
  have "\<exists>s2. auth_execute function_store (Inl []) ?s1 (DeleteKey ''ns:953'') = (s2, Inr ())"
    by (simp add: auth_execute_def delete_secret_def function_store_def service_name_def keyring_username_def Let_def
        split: unit.split)
  then obtain s2 where delete: "auth_execute function_store (Inl []) ?s1 (DeleteKey ''ns:953'') = (s2, Inr ())" by blast
  have "show_u (953 :: u16) = ''953''" by code_simp
  then have "config_load sample_env = Inr None" "profile_of sample_args None = Some ''ns:953''" "ca_key_secret sample_args = None"
    by (simp_all add: config_load_def sample_env_def profile_of_def sample_args_def or_else_def or_default_def host_port_def)
  from stored_key_is_used [OF function_store_ok set delete this] set show ?thesis by blast
qed

section \<open>Remote servers\<close>

text \<open>
  Without the flag and the entry of the file for a protected network, the commands on the control
  channel are refused for a server that is not on a loopback address.
\<close>

lemma cli_refuses_remote_control:
  assumes "build_client_config cs s env cli = Inr (Some cfg)" "\<not> ca_protected_rndc cli"
    and "config_load env = Inr file" "case file of None \<Rightarrow> True | Some f \<Rightarrow> \<not> fs_protected_rndc (cf_server f)"
    and "\<not> is_localhost (cc_rndc_addr cfg)" "domain_new zone = Inr name"
  shows "zone_status w (Some cfg) zone = Inl (NetFailure (TlsRequired (socket_display (cc_rndc_addr cfg))))"
    and "zone_reload w (Some cfg) zone = Inl (NetFailure (TlsRequired (socket_display (cc_rndc_addr cfg))))"
    and "cli_dnssec_status w (Some cfg) zone = Inl (NetFailure (TlsRequired (socket_display (cc_rndc_addr cfg))))"
    and "cli_dnssec_checkds w (Some cfg) zone state = Inl (NetFailure (TlsRequired (socket_display (cc_rndc_addr cfg))))"
proof -
  have "cc_rndc_transport cfg = LoopbackOnly"
    using assms(1-4)
    by (auto simp: build_client_config_def client_config_new_def Let_def result_simps split: option.splits)
  then have "checked_command libs (bind9_client_new cfg) v what cmd
      = Inl (TlsRequired (socket_display (cc_rndc_addr cfg)))" for libs v what cmd
    using assms(5)
    by (simp add: checked_command_def client_rndc_command_def bind9_client_new_def rndc_cycle_def rndc_connect_def timed_def)
  then show "zone_status w (Some cfg) zone = Inl (NetFailure (TlsRequired (socket_display (cc_rndc_addr cfg))))"
    "zone_reload w (Some cfg) zone = Inl (NetFailure (TlsRequired (socket_display (cc_rndc_addr cfg))))"
    "cli_dnssec_status w (Some cfg) zone = Inl (NetFailure (TlsRequired (socket_display (cc_rndc_addr cfg))))"
    "cli_dnssec_checkds w (Some cfg) zone state = Inl (NetFailure (TlsRequired (socket_display (cc_rndc_addr cfg))))"
    using assms(6)
    by (simp_all add: zone_status_def zone_reload_def cli_dnssec_status_def cli_dnssec_checkds_def require_config_def named_def
        client_zone_status_def client_reload_zone_def client_dnssec_status_def client_dnssec_checkds_def)
qed

section \<open>Smaller commands\<close>

text \<open>The name of a type is read as that type.\<close>

lemma record_type_reads_back:
  "parse_record_type (record_type_display t) = Inr (record_type_from_value (record_type_value t))"
proof (cases "\<exists>v. t = RT_Other v")
  case True
  then obtain v where t: "t = RT_Other v" by blast
  have "upper_text (show_nat n) = show_nat n" for n
  proof -
    have "upper_char c = c" if "is_ascii_digit c" for c
      using that by (auto simp: upper_char_def is_ascii_digit_def)
    then show ?thesis using show_nat_digits [of n] by (auto simp: upper_text_def list_all_iff intro!: map_idI)
  qed
  then have "upper_text (record_type_display t) = ''TYPE'' @ show_nat (unat v)"
    by (simp add: t upper_text_def upper_char_def)
  then show ?thesis by (simp add: t parse_record_type_def strip_prefix_def parse_show_words)
next
  case False
  then show ?thesis
    by (cases t) (simp_all add: parse_record_type_def upper_text_def upper_char_def record_type_from_value_def)
qed

text \<open>The counters of a diff account for every entry.\<close>

lemma count_entries:
  "fold count_entry diff (a, r, t)
    = (a + length (filter (\<lambda>e. \<exists>x. e = DiffAdded x) diff), r + length (filter (\<lambda>e. \<exists>x. e = DiffRemoved x) diff),
       t + length (filter (\<lambda>e. \<exists>x y z. e = TtlChanged x y z) diff))"
proof (induction diff arbitrary: a r t)
  case (Cons e diff)
  then show ?case by (cases e) simp_all
qed simp

lemma diff_result_adds_up:
  "diff_result_of diff = Some d \<Longrightarrow> dr_added d + dr_removed d + dr_ttl_changed d = dr_total d \<and> dr_total d = length diff"
proof -
  have "length (filter (\<lambda>e. \<exists>x. e = DiffAdded x) diff) + length (filter (\<lambda>e. \<exists>x. e = DiffRemoved x) diff)
      + length (filter (\<lambda>e. \<exists>x y z. e = TtlChanged x y z) diff) = length diff" for diff
  proof (induction diff)
    case (Cons e diff)
    then show ?case by (cases e) simp_all
  qed simp
  then show "diff_result_of diff = Some d \<Longrightarrow> ?thesis"
    by (auto simp: diff_result_of_def count_entries split: if_splits)
qed

text \<open>Every counter is in the map under its name; of equal names the last one stays.\<close>

lemma counters_to_map_get: "btree_get (counters_to_map cs) k = map_of (rev (map (\<lambda>c. (nc_name c, nc_value c)) cs)) k"
  by (simp add: counters_to_map_def btree_insert_all_def btree.get_insert_all) (simp add: btree_get_def split: option.split)

end
