(* ===== verification/Spec2Isabelle.thy ===== *)
theory Spec2Isabelle
  imports Transfer_Stream Zone_Diff Dnssec_Util Security_Policy Rndc_Session Rndc_Dnssec Nsupdate Zone_Checks
    Conf_Checks Conf_Roundtrip Pool_Invariant Client_Checks Cli_Export Cli_Access
begin

text \<open>
  A model of bind9-sdk, a Rust library that manages BIND 9 name servers, and proofs about it.
  The sources are three crates: \<open>bind9-sdk-core\<close> (\<open>src/crates/bind9-sdk-core/src\<close>, data and
  encodings, no I/O), \<open>bind9-sdk-net\<close> (\<open>src/crates/bind9-sdk-net/src\<close>, the protocols over
  sockets) and \<open>bind9-sdk-cli\<close> (\<open>src/crates/bind9-sdk-cli/src\<close>, the command line tool).

  \<^bold>\<open>How the program works.\<close> A caller builds names and records, collects changes in an
  update builder, signs the message with a TSIG key and sends it; or opens a zone transfer
  session and reads the records of the zone as a stream of messages, each checked by a TSIG
  verifier; or drives the server through the rndc control channel, whose messages are nested
  tables signed with HMAC. Zones are compared by a diff that becomes an update again. The client
  object opens a control connection for each command, or a pool keeps some open and shares them
  among concurrent callers; statistics come over HTTP.

  \<^bold>\<open>Theories and sources\<close> (in the order of their imports).
  \<^item> \<open>Prelude\<close>: the Rust data the model uses. \<open>Result<T, E>\<close> is the sum \<open>'e + 't\<close> with
    \<open>rbind\<close> for \<open>?\<close>; bytes are \<open>8 word\<close>, integers are words of their width; a \<open>String\<close> is the
    list of its characters, one per octet of its UTF-8 form; big-endian integers, slices and
    the predicate \<open>holds_at\<close> by which the readers are related to what the writers wrote.
    \<open>Text_Util\<close>: the text functions of the standard library (trimming, lines, numbers).
    \<open>Ordered_Map\<close>: \<open>BTreeMap\<close> as a sorted association list, against the locale
    \<open>ordered_map\<close>.
  \<^item> \<open>Errors\<close> (core \<open>error.rs\<close>), \<open>Net_Errors\<close> (net \<open>error.rs\<close>): the error types; every
    early return of the code is an \<open>Inl\<close> of these.
  \<^item> \<open>Domain_Name\<close> (\<open>domain.rs\<close>), \<open>Protocol_Codes\<close> (\<open>protocol.rs\<close>), \<open>Rdata\<close>
    (\<open>rdata/mod.rs\<close>), \<open>Rr_Types\<close> (\<open>record.rs\<close>): names with escapes, codes, the 24 kinds of
    record data, TTLs, serials with RFC 1982 arithmetic and the serial strategies.
  \<^item> \<open>Tsig_Auth\<close> (\<open>tsig/\<close>): keys, signing, the TSIG record and its parser, verification.
  \<^item> \<open>Update_Message\<close> (\<open>update/\<close>): the builder, the encoders, the signed update.
    \<open>Nsupdate\<close> (\<open>nsupdate.rs\<close>): sending it and verifying the response.
  \<^item> \<open>Transfer_Wire\<close> (\<open>transfer/wire.rs\<close>): reading names with compression, records and
    messages, removing the TSIG record, transfer queries. \<open>Transfer_Stream\<close>
    (\<open>transfer/mod.rs\<close>, core \<open>transfer.rs\<close>): the IXFR machine, the stream verifier, and both
    record streams, with the messages the server sends as input.
  \<^item> \<open>Zone_Diff\<close> (\<open>zone/mod.rs\<close>, \<open>zone/diff.rs\<close>): zones, the diff, applying it, and its
    translation to updates.
  \<^item> \<open>Ip_Text\<close> (the text of addresses in the standard library), \<open>Type_Bitmap\<close>, \<open>Dnssec_Time\<close>,
    \<open>Rdata_Text\<close> (\<open>zone/rdata_text.rs\<close>, \<open>zone/rdata_dnssec.rs\<close>), \<open>Zone_Tokenizer\<close>
    (\<open>zone/parser/tokenizer.rs\<close>), \<open>Zone_Text\<close> (\<open>zone/parser/record.rs\<close>,
    \<open>zone/serializer.rs\<close>): zone files as text. \<open>Zone_Roundtrip\<close> relates the serializer to the
    parser; \<open>Zone_Checks\<close> holds the invariant of the parse state, the limits, and the lines the
    parser reads otherwise than RFC 1035 says.
  \<^item> \<open>Dnssec_Util\<close> (\<open>dnssec.rs\<close>), \<open>Security_Policy\<close> (\<open>security.rs\<close>): key tags, CDS digests,
    the warnings and what each policy rejects.
  \<^item> \<open>Rndc_Protocol\<close> (\<open>rndc/protocol.rs\<close>), \<open>Rndc_Command\<close> (\<open>rndc/command.rs\<close>),
    \<open>Rndc_Session\<close> (\<open>rndc/mod.rs\<close>), \<open>Rndc_Dnssec\<close> (\<open>rndc/dnssec.rs\<close>, \<open>rndc/rollover.rs\<close>):
    the control channel from octets to authenticated commands, and the reading of what
    \<open>rndc dnssec -status\<close> prints.

  \<^item> \<open>Conf_Lexer\<close>, \<open>Named_Conf\<close> (core \<open>named_conf.rs\<close>): the tokens of a \<open>named.conf\<close> and the
    parser of its supported statements, whose blocks are instances of the locale \<open>block_loop\<close>.
    \<open>Conf_Checks\<close> proves where its errors point and that its results are well formed, by weakest
    preconditions; \<open>Conf_Roundtrip\<close> has documents as abstract syntax, and proves that their text is
    read as their meaning.
  \<^item> \<open>Rndc_Connect\<close> (\<open>rndc/mod.rs\<close>, \<open>tls.rs\<close>, \<open>pool.rs\<close>): opening connections and the retry.
    \<open>Rndc_Pool\<close> (\<open>pool.rs\<close>): the calls and the workers of the pool as a step relation over the
    queue of free workers, the inboxes, the counters and the connections; a step is one atomic
    action and all interleavings are possible. \<open>Pool_Invariant\<close> proves by rule induction that a
    worker has one owner, that every result of a call is traced back, in the history of the states
    of the pool, to the step in which a worker executed its command, and that the pool comes to rest.
  \<^item> \<open>Server_Stats\<close> (core \<open>traits.rs\<close>, \<open>prometheus.rs\<close>, net \<open>stats.rs\<close>): counters, the conversion
    of the decoded JSON, the URL policy, the metrics text, which is read back by the rules of its
    format. \<open>Client\<close> (\<open>config.rs\<close>, \<open>rndc/rollover.rs\<close>, \<open>freeze.rs\<close>, \<open>limiter.rs\<close>): the operations
    of the client object. \<open>Client_Checks\<close> proves that their results were read from the signed
    octets of their own visit to the server.
  \<^item> \<open>Cli_Config\<close> (cli \<open>error.rs\<close>, \<open>keyring.rs\<close>, \<open>config.rs\<close>, \<open>connect.rs\<close>), \<open>Cli\<close>
    (\<open>commands/record.rs\<close>), \<open>Cli_Commands\<close> (\<open>commands/\<close>, \<open>output.rs\<close>, \<open>main.rs\<close>): the command
    line tool. \<open>Cli_Checks\<close> proves which update a record command sends and what its success rests
    on, composing the zone parser, the update builder and the sender; \<open>Cli_Export\<close> that an exported
    zone is a zone file of the records transferred; \<open>Cli_Access\<close> which secret is used and that remote
    servers are refused by default.

  \<^bold>\<open>Parameters.\<close> The HMAC implementation (\<open>mac_lib\<close>, assumed in \<open>mac_lib_ok\<close> to be a function
  of the key and the message with tags of the documented length), base64 and base32hex,
  the hash functions of digests, the resolver of \<open>$INCLUDE\<close>, the clock, the random source, the URL
  parser, the decoded JSON and TOML, the credential store (assumed in \<open>store_ok\<close> to return what was
  set), the resolver of host names, and the octets that arrive from the network. No
  property assumes that a MAC cannot be forged; the safety properties say which octets the
  accepted MAC covers.

  \<^bold>\<open>Bounds.\<close> \<open>parse_name_loop\<close> follows at most 128 labels and pointers, as the code does; the
  readers of labels terminate by the distance to the end of the buffer. Tables of the control
  channel nest at most 32 deep, which the measure of the decoder uses. Messages are at most
  65535 octets over TCP, and 16 MiB on the control channel. The zone parser takes the number of
  include levels that are left as an argument, 17 at first, which is the limit of the code; the
  tokenizer and the line loop terminate because every token takes an octet. The parsers of zone
  text compute in checked \<open>u32\<close>: a panic is the value \<open>Panicked\<close>. \<open>pool_work\<close> bounds the steps of a
  pool without new calls.

  \<^bold>\<open>What the lemmas show.\<close> Each writer is related to its reader: names, records, TSIG records,
  signed messages and control channel tables read back as what was written. Acceptance by
  a verifier is characterised, or bounded by what it implies for the octets received: the MAC it
  speaks of is the one in the TSIG record (\<open>find_tsig_in_response\<close>, \<open>received\<close>) or in the field
  \<open>_auth.hsha\<close> (\<open>signed_frame\<close>) of those octets; \<open>tsig_chain\<close>, \<open>opened\<close> and \<open>served\<close> say so for
  the messages of a transfer, the opening of a control session and its commands. Honest peers are
  accepted. The streams are described by the grammar of their events, with the incomplete
  incremental responses that the code takes as complete (\<open>truncated_style\<close>) beside the complete ones. The diff is a refinement of set
  difference on records. A zone file that is written is read back, and a zone that is read is well
  formed. The properties named C1, C2, ... are those the manifest lists.

  \<^bold>\<open>Not modelled.\<close> Sockets, TLS, time-outs and the asynchronous runtime (their results are
  inputs; tasks of the pool are the steps of a relation); the rounding of rates; Debug output and
  texts of wrapped library errors; the set-up of rustls; of the command line tool the
  parsing of arguments, JSON output and shell completions, which libraries do; the language bindings,
  which wrap the library.
\<close>

end
